(* ===== verification/Vocabulary.thy ===== *)
theory Vocabulary
  imports JsPrelude
begin

text \<open>
  The vocabulary every part of the gate shares: effects, modes, risk levels, action classes and
  the word lists of \<open>packages/core/src/constants/\<close>, and the records of \<open>domain/action-event.ts\<close>,
  \<open>domain/decision.ts\<close>, \<open>domain/task.ts\<close> and \<open>policy/policy.ts\<close>. An enumeration of the
  sources is a datatype with their constructors; where the sources keep a text that a rule's
  pattern is matched against (a tool class, a capability, an action name), the model keeps the
  text. Record fields carry a prefix, because two records of one theory cannot share a name.
\<close>

section \<open>Effects, modes and risk\<close>

datatype decision_effect = ALLOW | ASK | DENY

fun EFFECT_PRECEDENCE :: "decision_effect \<Rightarrow> nat" where
  "EFFECT_PRECEDENCE ALLOW = 0"
| "EFFECT_PRECEDENCE ASK = 1"
| "EFFECT_PRECEDENCE DENY = 2"

lemma EFFECT_PRECEDENCE_inj: "EFFECT_PRECEDENCE a = EFFECT_PRECEDENCE b \<longleftrightarrow> a = b"
  by (cases a; cases b) auto

instantiation decision_effect :: linorder
begin

definition less_eq_decision_effect :: "decision_effect \<Rightarrow> decision_effect \<Rightarrow> bool" where
  "less_eq_decision_effect a b \<longleftrightarrow> EFFECT_PRECEDENCE a \<le> EFFECT_PRECEDENCE b"

definition less_decision_effect :: "decision_effect \<Rightarrow> decision_effect \<Rightarrow> bool" where
  "less_decision_effect a b \<longleftrightarrow> EFFECT_PRECEDENCE a < EFFECT_PRECEDENCE b"

instance
  by standard
     (auto simp: less_eq_decision_effect_def less_decision_effect_def EFFECT_PRECEDENCE_inj)

end

lemma DENY_top [simp]: "e \<le> DENY"
  by (cases e) (auto simp: less_eq_decision_effect_def)

lemma ALLOW_bot [simp]: "ALLOW \<le> e"
  by (simp add: less_eq_decision_effect_def)

lemma DENY_le [simp]: "DENY \<le> e \<longleftrightarrow> e = DENY"
  by (cases e) (auto simp: less_eq_decision_effect_def)

lemma le_ALLOW [simp]: "e \<le> ALLOW \<longleftrightarrow> e = ALLOW"
  by (cases e) (auto simp: less_eq_decision_effect_def)

lemma ASK_le [simp]: "ASK \<le> e \<longleftrightarrow> e \<noteq> ALLOW"
  by (cases e) (auto simp: less_eq_decision_effect_def)

lemma decision_effect_less [simp]:
  "ALLOW < ASK" "ASK < DENY" "ALLOW < DENY"
  "\<not> e < ALLOW" "\<not> DENY < e"
  by (cases e; simp add: less_decision_effect_def)+

datatype enforcement_mode = OFF | OBSERVE | ADVISE | ENFORCE

definition DEFAULT_ENFORCEMENT_MODE :: enforcement_mode where
  "DEFAULT_ENFORCEMENT_MODE = ENFORCE"

fun MODE_STRENGTH :: "enforcement_mode \<Rightarrow> nat" where
  "MODE_STRENGTH OFF = 0"
| "MODE_STRENGTH OBSERVE = 1"
| "MODE_STRENGTH ADVISE = 2"
| "MODE_STRENGTH ENFORCE = 3"

datatype risk_level = LOW | MEDIUM | HIGH | CRITICAL

definition RISK_ORDER :: "risk_level list" where
  "RISK_ORDER = [LOW, MEDIUM, HIGH, CRITICAL]"

fun risk_rank :: "risk_level \<Rightarrow> nat" where
  "risk_rank LOW = 0"
| "risk_rank MEDIUM = 1"
| "risk_rank HIGH = 2"
| "risk_rank CRITICAL = 3"

lemma risk_rank_inj: "risk_rank a = risk_rank b \<longleftrightarrow> a = b"
  by (cases a; cases b) auto

instantiation risk_level :: linorder
begin

definition less_eq_risk_level :: "risk_level \<Rightarrow> risk_level \<Rightarrow> bool" where
  "less_eq_risk_level a b \<longleftrightarrow> risk_rank a \<le> risk_rank b"

definition less_risk_level :: "risk_level \<Rightarrow> risk_level \<Rightarrow> bool" where
  "less_risk_level a b \<longleftrightarrow> risk_rank a < risk_rank b"

instance
  by standard (auto simp: less_eq_risk_level_def less_risk_level_def risk_rank_inj)

end

text \<open>The verb lists of \<open>constants/risk.constants.ts\<close>.\<close>

definition READ_ONLY_VERBS :: "string list" where
  "READ_ONLY_VERBS =
     [''read'', ''get'', ''list'', ''query'', ''search'', ''view'', ''describe'', ''show'']"

definition MUTATING_VERBS :: "string list" where
  "MUTATING_VERBS = [''create'', ''update'', ''modify'', ''write'', ''deploy'', ''restart'']"

definition DESTRUCTIVE_VERBS :: "string list" where
  "DESTRUCTIVE_VERBS =
     [''delete'', ''drop'', ''destroy'', ''truncate'', ''export'', ''purge'', ''rm'', ''remove'',
      ''unpublish'', ''terminate'']"

definition RISK_ESCALATION_ENVIRONMENTS :: "string list" where
  "RISK_ESCALATION_ENVIRONMENTS = [''production'', ''prod'']"

section \<open>Action classes\<close>

datatype action_class = LOCAL | EXTERNAL_STATE | DESTRUCTIVE_CLASS

datatype class_basis = DESTRUCTIVE_VERB | OUTWARD | READ_VERB | LOCAL_NAMESPACE | UNPROVEN

definition LOCAL_NAMESPACES :: "string list" where
  "LOCAL_NAMESPACES =
     [''filesystem'', ''file'', ''fs'', ''shell'', ''process'', ''git'', ''editor'', ''test'',
      ''build'']"

definition OUTWARD_VERBS :: "string list" where
  "OUTWARD_VERBS =
     [''send'', ''message'', ''post'', ''publish'', ''notify'', ''email'', ''reply'', ''comment'',
      ''broadcast'', ''invite'', ''announce'']"

definition OUTWARD_NAMESPACES :: "string list" where
  "OUTWARD_NAMESPACES =
     [''slack'', ''email'', ''mail'', ''gmail'', ''smtp'', ''sms'', ''twilio'', ''discord'',
      ''teams'', ''telegram'', ''webhook'']"

text \<open>The tool classes of \<open>discovery/classify.ts\<close> and the action names of
  \<open>constants/action.constants.ts\<close> are texts in the sources, matched by patterns.\<close>

abbreviation TC_READ :: string where "TC_READ \<equiv> ''read''"
abbreviation TC_WRITE :: string where "TC_WRITE \<equiv> ''write''"
abbreviation TC_DESTRUCTIVE :: string where "TC_DESTRUCTIVE \<equiv> ''destructive''"
abbreviation TC_COMMUNICATION :: string where "TC_COMMUNICATION \<equiv> ''communication''"
abbreviation TC_UNKNOWN :: string where "TC_UNKNOWN \<equiv> ''unknown''"

abbreviation FILESYSTEM_READ :: string where "FILESYSTEM_READ \<equiv> ''filesystem.read''"
abbreviation FILESYSTEM_WRITE :: string where "FILESYSTEM_WRITE \<equiv> ''filesystem.write''"
abbreviation FILESYSTEM_DELETE :: string where "FILESYSTEM_DELETE \<equiv> ''filesystem.delete''"
abbreviation SHELL_HIDDEN :: string where "SHELL_HIDDEN \<equiv> ''shell.hidden''"
abbreviation GIT_PUSH :: string where "GIT_PUSH \<equiv> ''git.push''"
abbreviation BROWSER_NAVIGATE :: string where "BROWSER_NAVIGATE \<equiv> ''browser.navigate''"
abbreviation HTTP_REQUEST :: string where "HTTP_REQUEST \<equiv> ''http.request''"
abbreviation HTTP_CONNECT :: string where "HTTP_CONNECT \<equiv> ''http.connect''"

definition HTTP_METHOD_ARGUMENT :: string where
  "HTTP_METHOD_ARGUMENT = ''method''"

definition CHANGING_HTTP_METHODS :: "string list" where
  "CHANGING_HTTP_METHODS = [''POST'', ''PUT'', ''PATCH'', ''DELETE'', ''UNKNOWN'']"

definition LOOKING_HTTP_METHODS :: "string list" where
  "LOOKING_HTTP_METHODS = [''GET'', ''HEAD'', ''OPTIONS'']"

declare READ_ONLY_VERBS_def [vocabulary_defs] MUTATING_VERBS_def [vocabulary_defs]
  DESTRUCTIVE_VERBS_def [vocabulary_defs] RISK_ESCALATION_ENVIRONMENTS_def [vocabulary_defs]
  LOCAL_NAMESPACES_def [vocabulary_defs] OUTWARD_VERBS_def [vocabulary_defs]
  OUTWARD_NAMESPACES_def [vocabulary_defs] HTTP_METHOD_ARGUMENT_def [vocabulary_defs]
  CHANGING_HTTP_METHODS_def [vocabulary_defs] LOOKING_HTTP_METHODS_def [vocabulary_defs]

section \<open>Requests\<close>

record task_ref =
  tr_id :: string
  tr_statement :: string

text \<open>\<open>ActionRequest\<close>, less its \<open>metadata\<close>, an untyped bag nothing in the gate reads.\<close>

record action_request =
  rq_action :: string
  rq_target :: "string option"
  rq_environment :: "string option"
  rq_session_id :: "string option"
  rq_project_id :: "string option"
  rq_principal :: "string option"
  rq_reads :: "string list option"
  rq_task :: "task_ref option"
  rq_reason :: "string option"
  rq_approval_id :: "string option"
  rq_model :: "string option"
  rq_provider :: "string option"
  rq_data_classification :: "string option"
  rq_jurisdiction :: "string option"
  rq_amount :: "rat option"
  rq_working_directory :: "string option"
  rq_branch :: "string option"
  rq_tool_class :: "string option"
  rq_arguments :: "(string \<times> string) list option"
  rq_content :: "string list option"
  rq_signals :: "string list option"

text \<open>A request that states its action and nothing else.\<close>

definition bare_request :: "string \<Rightarrow> action_request" where
  "bare_request a =
     \<lparr>rq_action = a, rq_target = None, rq_environment = None, rq_session_id = None,
      rq_project_id = None, rq_principal = None, rq_reads = None, rq_task = None,
      rq_reason = None, rq_approval_id = None, rq_model = None, rq_provider = None,
      rq_data_classification = None, rq_jurisdiction = None, rq_amount = None,
      rq_working_directory = None, rq_branch = None, rq_tool_class = None,
      rq_arguments = None, rq_content = None, rq_signals = None\<rparr>"

section \<open>Decisions\<close>

record rate_limit_spec =
  rl_max :: nat
  rl_window_seconds :: nat

record rule_ref =
  rr_id :: string
  rr_name :: string
  rr_version :: string

record alternative =
  al_action :: string
  al_resource :: "string option"
  al_note :: string

record matched_policy =
  mp_name :: string
  mp_effect :: decision_effect
  mp_reason :: "string option"
  mp_approvers :: "string list option"
  mp_min_approvals :: "nat option"
  mp_observed :: bool
  mp_rate_limit :: "rate_limit_spec option"
  mp_alternative :: "alternative option"
  mp_workspace :: bool
  mp_decided_by :: "string option"
  mp_decided_at :: "string option"
  mp_relaxes :: "string list option"

section \<open>Declared scope\<close>

record declared_scope =
  ds_paths :: "string list option"
  ds_repositories :: "string list option"
  ds_services :: "string list option"
  ds_environments :: "string list option"
  ds_resource_kinds :: "string list option"

record scope_subject =
  ss_path :: "string option"
  ss_repository :: "string option"
  ss_service :: "string option"
  ss_environment :: "string option"
  ss_resource_kind :: "string option"

datatype scope_match = IN_SCOPE | OUT_OF_SCOPE | UNDECLARED

datatype scope_dimension =
  Dim_path | Dim_repository | Dim_service | Dim_environment | Dim_resource_kind

record scope_comparison =
  sc_match :: scope_match
  sc_dimension :: "scope_dimension option"
  sc_declared :: "string list option"
  sc_actual :: "string option"

section \<open>Policies\<close>

text \<open>\<open>TimeWindow\<close> of \<open>policy/time-window.ts\<close>; hours, days and offsets are integers.\<close>

record time_window =
  tw_days :: "int list option"
  tw_start_hour :: int
  tw_end_hour :: int
  tw_utc_offset_minutes :: "int option"

record policy_carve_out =
  co_project :: "string option"
  co_agents :: "string list option"
  co_working_directories :: "string list option"

record policy_match =
  pm_actions :: "string list"
  pm_targets :: "string list option"
  pm_environments :: "string list option"
  pm_agents :: "string list option"
  pm_roles :: "string list option"
  pm_principals :: "string list option"
  pm_models :: "string list option"
  pm_providers :: "string list option"
  pm_data_classifications :: "string list option"
  pm_jurisdictions :: "string list option"
  pm_working_directories :: "string list option"
  pm_branches :: "string list option"
  pm_classes :: "string list option"
  pm_capabilities :: "string list option"
  pm_arguments :: "(string \<times> string list) list option"
  pm_content :: "string list option"
  pm_above_amount :: "rat option"
  pm_windows :: "time_window list option"
  pm_scope :: "scope_match list option"
  pm_state :: "string list option"
  pm_unless :: "policy_carve_out list option"

text \<open>A match on actions alone: every other field omitted, so it matches anything.\<close>

definition match_actions :: "string list \<Rightarrow> policy_match" where
  "match_actions as =
     \<lparr>pm_actions = as, pm_targets = None, pm_environments = None, pm_agents = None,
      pm_roles = None, pm_principals = None, pm_models = None, pm_providers = None,
      pm_data_classifications = None, pm_jurisdictions = None, pm_working_directories = None,
      pm_branches = None, pm_classes = None, pm_capabilities = None, pm_arguments = None,
      pm_content = None, pm_above_amount = None, pm_windows = None, pm_scope = None,
      pm_state = None, pm_unless = None\<rparr>"

datatype policy_mode = PM_ENFORCE | PM_OBSERVE

record policy_decision =
  pd_effect :: decision_effect
  pd_reason :: "string option"
  pd_approvers :: "string list option"
  pd_min_approvals :: "nat option"
  pd_mode :: "policy_mode option"
  pd_rate_limit :: "rate_limit_spec option"
  pd_alternative :: "alternative option"
  pd_relaxes :: "string list option"

definition plain_decision :: "decision_effect \<Rightarrow> policy_decision" where
  "plain_decision e =
     \<lparr>pd_effect = e, pd_reason = None, pd_approvers = None, pd_min_approvals = None,
      pd_mode = None, pd_rate_limit = None, pd_alternative = None, pd_relaxes = None\<rparr>"

record policy =
  p_id :: "string option"
  p_name :: string
  p_description :: "string option"
  p_match :: policy_match
  p_decision :: policy_decision
  p_project :: "string option"
  p_workspace :: bool
  p_decided_by :: "string option"
  p_decided_at :: "string option"

definition plain_policy :: "string \<Rightarrow> policy_match \<Rightarrow> policy_decision \<Rightarrow> policy" where
  "plain_policy n m d =
     \<lparr>p_id = None, p_name = n, p_description = None, p_match = m, p_decision = d,
      p_project = None, p_workspace = False, p_decided_by = None, p_decided_at = None\<rparr>"

end
