(* ===== verification/PatternMatcher.thy ===== *)
theory PatternMatcher
  imports Vocabulary
begin

text \<open>
  \<open>packages/core/src/policy/pattern-matcher.ts\<close>: how a rule's pattern is matched. The source
  turns a pattern into the text of a regular expression, compiles it once and keeps it in a
  bounded table; the model follows the same three steps. \<open>rx_parse\<close> and \<open>rx_test\<close> are the
  meaning JavaScript gives to the two constructs such a text holds: a literal character,
  escaped or not, and \<open>.*\<close> under the flag \<open>s\<close>.
\<close>

section \<open>From a pattern to a regular expression\<close>

definition WILDCARD :: char where
  "WILDCARD = CHR ''*''"

definition MAX_CACHED_PATTERNS :: nat where
  "MAX_CACHED_PATTERNS = 10000"

text \<open>The characters of the class \<open>[.*+?^${}()|[\]\\]\<close>.\<close>

definition RX_SPECIAL :: "char list" where
  "RX_SPECIAL = ''.*+?^${}()|[]'' @ [char_of (92 :: nat)]"

definition BACKSLASH :: char where
  "BACKSLASH = char_of (92 :: nat)"

definition escape_part :: "string \<Rightarrow> string" where
  "escape_part p = concat (map (\<lambda>c. if c \<in> set RX_SPECIAL then [BACKSLASH, c] else [c]) p)"

text \<open>The text between \<open>^\<close> and \<open>$\<close> of the expression.\<close>

definition rx_source :: "string \<Rightarrow> string" where
  "rx_source pattern =
     join_with ''.*'' (map escape_part (split_on WILDCARD (to_lower pattern)))"

datatype rx = Chr char | Any

fun rx_parse :: "string \<Rightarrow> rx list" where
  "rx_parse [] = []"
| "rx_parse [c] = [Chr c]"
| "rx_parse (c # d # s) =
     (if c = BACKSLASH then Chr d # rx_parse s
      else if c = CHR ''.'' \<and> d = CHR ''*'' then Any # rx_parse s
      else Chr c # rx_parse (d # s))"

text \<open>\<open>/^...$/s.test(s)\<close>: the whole text, and \<open>.\<close> is any code unit.\<close>

function rx_test :: "rx list \<Rightarrow> string \<Rightarrow> bool" where
  "rx_test [] s = (s = [])"
| "rx_test (Chr c # rs) [] = False"
| "rx_test (Chr c # rs) (x # s) = (x = c \<and> rx_test rs s)"
| "rx_test (Any # rs) [] = rx_test rs []"
| "rx_test (Any # rs) (x # s) = (rx_test rs (x # s) \<or> rx_test (Any # rs) s)"
  by pat_completeness auto
termination
  by (relation "measure (\<lambda>(rs, s). length rs + length s)") auto

definition rx_of :: "string \<Rightarrow> rx list" where
  "rx_of pattern = rx_parse (rx_source pattern)"

definition matches_pattern :: "string \<Rightarrow> string \<Rightarrow> bool" where
  "matches_pattern pattern value = rx_test (rx_of pattern) (to_lower value)"

section \<open>The table of compiled patterns\<close>

type_synonym rx_cache = "(string \<times> rx list) list"

definition compile :: "rx_cache \<Rightarrow> string \<Rightarrow> rx list \<times> rx_cache" where
  "compile compiled pattern =
     (case map_of compiled pattern of
        Some cached \<Rightarrow> (cached, compiled)
      | None \<Rightarrow>
          let expression = rx_of pattern in
          (expression,
           if length compiled < MAX_CACHED_PATTERNS then (pattern, expression) # compiled
           else compiled))"

definition matches_pattern_cached :: "rx_cache \<Rightarrow> string \<Rightarrow> string \<Rightarrow> bool \<times> rx_cache" where
  "matches_pattern_cached compiled pattern value =
     (let (expression, compiled') = compile compiled pattern
      in (rx_test expression (to_lower value), compiled'))"

fun match_all_cached :: "rx_cache \<Rightarrow> (string \<times> string) list \<Rightarrow> bool list \<times> rx_cache" where
  "match_all_cached compiled [] = ([], compiled)"
| "match_all_cached compiled ((p, v) # rest) =
     (let (b, compiled') = matches_pattern_cached compiled p v;
          (bs, compiled'') = match_all_cached compiled' rest
      in (b # bs, compiled''))"

section \<open>Lists of patterns\<close>

definition EXCLUDE :: string where
  "EXCLUDE = ''!''"

definition is_exclusion :: "string \<Rightarrow> bool" where
  "is_exclusion pattern = starts_with EXCLUDE pattern"

definition matches_any :: "string list option \<Rightarrow> string option \<Rightarrow> bool" where
  "matches_any patterns value =
     (case patterns of
        None \<Rightarrow> True
      | Some ps \<Rightarrow>
          if ps = [] then True
          else
            let excluded = filter is_exclusion ps;
                included = filter (\<lambda>p. \<not> is_exclusion p) ps
            in (case value of
                  None \<Rightarrow> included = [] \<or> [WILDCARD] \<in> set included
                | Some v \<Rightarrow>
                    if list_ex (\<lambda>p. matches_pattern (drop (length EXCLUDE) p) v) excluded
                    then False
                    else included = [] \<or> list_ex (\<lambda>p. matches_pattern p v) included))"

definition WORKSPACE_TOKEN :: string where
  "WORKSPACE_TOKEN = ''{workspace}''"

definition NO_WORKSPACE :: string where
  "NO_WORKSPACE = char_of (0 :: nat) # ''no-workspace''"

text \<open>\<open>s.split(token).join(base)\<close> for a token that is not empty.\<close>

function replace_all :: "string \<Rightarrow> string \<Rightarrow> string \<Rightarrow> string" where
  "replace_all token base s =
     (if s = [] \<or> token = [] then s
      else if starts_with token s then base @ replace_all token base (drop (length token) s)
      else hd s # replace_all token base (tl s))"
  by pat_completeness auto
termination
  by (relation "measure (\<lambda>(token, base, s). length s)") auto

declare replace_all.simps [simp del]

definition strip_slashes :: "string \<Rightarrow> string" where
  "strip_slashes s = rev (dropWhile (\<lambda>c. c = CHR ''/'') (rev s))"

definition with_workspace :: "string list option \<Rightarrow> string option \<Rightarrow> string list option" where
  "with_workspace patterns working_directory =
     (case patterns of
        None \<Rightarrow> None
      | Some ps \<Rightarrow>
          if \<not> list_ex (includes_text WORKSPACE_TOKEN) ps then Some ps
          else
            let base = (case working_directory of None \<Rightarrow> NO_WORKSPACE | Some d \<Rightarrow> strip_slashes d)
            in Some (map (replace_all WORKSPACE_TOKEN base) ps))"

section \<open>The reference meaning: a glob\<close>

text \<open>A star stands for any text, every other character for itself, up to case.\<close>

fun glob :: "string \<Rightarrow> string \<Rightarrow> bool" where
  "glob [] s = (s = [])"
| "glob (c # p) [] = (c = WILDCARD \<and> glob p [])"
| "glob (c # p) (x # s) =
     (if c = WILDCARD then glob p (x # s) \<or> glob (c # p) s else x = c \<and> glob p s)"

definition glob_rx :: "string \<Rightarrow> rx list" where
  "glob_rx p = map (\<lambda>c. if c = WILDCARD then Any else Chr c) p"

lemma BACKSLASH_facts [simp]:
  "BACKSLASH \<noteq> CHR ''.''" "CHR ''.'' \<noteq> BACKSLASH" "BACKSLASH \<noteq> CHR ''*''" "BACKSLASH \<in> set RX_SPECIAL"
  "CHR ''.'' \<in> set RX_SPECIAL" "CHR ''*'' \<in> set RX_SPECIAL"
  by code_simp+

lemma rx_parse_plain:
  assumes "c \<notin> set RX_SPECIAL"
  shows "rx_parse (c # s) = Chr c # rx_parse s"
proof -
  have "c \<noteq> BACKSLASH" "c \<noteq> CHR ''.''"
    using assms BACKSLASH_facts by metis+
  then show ?thesis by (cases s) auto
qed

lemma escape_part_Cons:
  "escape_part (c # p) = (if c \<in> set RX_SPECIAL then [BACKSLASH, c] else [c]) @ escape_part p"
  by (simp add: escape_part_def)

lemma rx_parse_escape_append: "rx_parse (escape_part p @ t) = map Chr p @ rx_parse t"
proof (induction p)
  case Nil
  show ?case by (simp add: escape_part_def)
next
  case (Cons c p)
  then show ?case
    by (cases "c \<in> set RX_SPECIAL") (simp_all add: escape_part_Cons rx_parse_plain)
qed

lemma rx_parse_escape: "rx_parse (escape_part p) = map Chr p"
  using rx_parse_escape_append [of p "[]"] by simp

lemma rx_parse_any: "rx_parse (CHR ''.'' # CHR ''*'' # t) = Any # rx_parse t"
  using BACKSLASH_facts(1) by (metis (full_types) rx_parse.simps(3))

lemma rx_parse_parts:
  "ps \<noteq> [] \<Longrightarrow> list_all (\<lambda>p. WILDCARD \<notin> set p) ps \<Longrightarrow>
   rx_parse (join_with ''.*'' (map escape_part ps)) = glob_rx (join_with [WILDCARD] ps)"
proof (induction ps)
  case (Cons p ps)
  have chrs: "map Chr p = glob_rx p"
    using Cons.prems by (auto simp: glob_rx_def)
  show ?case
  proof (cases ps)
    case Nil
    with chrs show ?thesis by (simp add: rx_parse_escape)
  next
    case (Cons q qs)
    with chrs Cons.IH Cons.prems show ?thesis
      by (simp add: rx_parse_escape_append rx_parse_any) (simp add: glob_rx_def)
  qed
qed simp

lemma rx_of_glob_rx: "rx_of p = glob_rx (to_lower p)"
proof -
  have "list_all (\<lambda>q. WILDCARD \<notin> set q) (split_on WILDCARD (to_lower p))"
    by (auto simp: list_all_iff dest: split_on_parts)
  then show ?thesis
    by (simp add: rx_of_def rx_source_def rx_parse_parts join_split)
qed

lemma rx_test_glob: "rx_test (glob_rx p) s = glob p s"
  by (induction p s rule: glob.induct) (auto simp: glob_rx_def)

lemma matches_pattern_glob: "matches_pattern p v = glob (to_lower p) (to_lower v)"
  by (simp add: matches_pattern_def rx_of_glob_rx rx_test_glob)

declare matches_pattern_glob [code]

section \<open>Facts about globs\<close>

lemma glob_star: "glob [WILDCARD] s"
  by (induction s) auto

lemma glob_literal: "WILDCARD \<notin> set p \<Longrightarrow> glob p s \<longleftrightarrow> s = p"
  by (induction p s rule: glob.induct) auto

lemma glob_literal_append: "WILDCARD \<notin> set p \<Longrightarrow> glob (p @ q) s \<longleftrightarrow> (\<exists>t. s = p @ t \<and> glob q t)"
proof (induction p arbitrary: s)
  case (Cons c p)
  then show ?case by (cases s) auto
qed simp

lemma glob_star_append: "glob (WILDCARD # q) s \<longleftrightarrow> (\<exists>a t. s = a @ t \<and> glob q t)"
proof (induction s)
  case (Cons x s)
  show ?case
  proof
    assume "glob (WILDCARD # q) (x # s)"
    then have "glob q (x # s) \<or> glob (WILDCARD # q) s" by simp
    then show "\<exists>a t. x # s = a @ t \<and> glob q t"
      using Cons.IH by (metis append_Cons append_Nil)
  next
    assume "\<exists>a t. x # s = a @ t \<and> glob q t"
    then obtain a t where at: "x # s = a @ t" "glob q t" by blast
    then show "glob (WILDCARD # q) (x # s)"
      using Cons.IH by (cases a) auto
  qed
qed auto

lemma glob_star_skip: "glob q s \<Longrightarrow> glob (WILDCARD # q) (a @ s)"
  by (auto simp: glob_star_append)

lemma glob_refl: "glob p p"
proof (induction p)
  case (Cons c p)
  then show ?case
    using glob_star_skip [of p p "[c]"] by auto
qed simp

lemma glob_prefix_star: "WILDCARD \<notin> set p \<Longrightarrow> glob (p @ [WILDCARD]) s \<longleftrightarrow> starts_with p s"
  by (auto simp: glob_literal_append glob_star starts_with_iff)

lemma matches_star [simp]: "matches_pattern [WILDCARD] v"
  by (simp add: matches_pattern_glob to_lower_def lower_char_def WILDCARD_def)
     (metis WILDCARD_def glob_star)

lemma lower_WILDCARD [simp]: "lower_char c = WILDCARD \<longleftrightarrow> c = WILDCARD"
  by (rule lower_char_eq_fixed) (simp add: WILDCARD_def)

lemma WILDCARD_to_lower [simp]: "WILDCARD \<in> set (to_lower p) \<longleftrightarrow> WILDCARD \<in> set p"
  unfolding to_lower_def set_map by (metis (no_types, lifting) image_iff lower_WILDCARD)

lemma matches_literal:
  "WILDCARD \<notin> set p \<Longrightarrow> matches_pattern p v \<longleftrightarrow> to_lower v = to_lower p"
  by (simp add: matches_pattern_glob glob_literal)

section \<open>Facts about lists of patterns\<close>

lemma matches_any_None [simp]: "matches_any None v"
  by (simp add: matches_any_def)

lemma matches_any_Nil [simp]: "matches_any (Some []) v"
  by (simp add: matches_any_def)

text \<open>The exclusions and inclusions of a list, and what each says of a value.\<close>

definition excludes :: "string list \<Rightarrow> string \<Rightarrow> bool" where
  "excludes ps v \<longleftrightarrow> (\<exists>p \<in> set ps. is_exclusion p \<and> matches_pattern (tl p) v)"

definition admits :: "string list \<Rightarrow> string \<Rightarrow> bool" where
  "admits ps v \<longleftrightarrow> (\<exists>p \<in> set ps. \<not> is_exclusion p \<and> matches_pattern p v)"

definition only_exclusions :: "string list \<Rightarrow> bool" where
  "only_exclusions ps \<longleftrightarrow> (\<forall>p \<in> set ps. is_exclusion p)"

lemma matches_any_Some:
  "matches_any (Some ps) (Some v) \<longleftrightarrow>
     \<not> excludes ps v \<and> (only_exclusions ps \<or> admits ps v)"
  by (auto simp: matches_any_def excludes_def admits_def only_exclusions_def EXCLUDE_def
        Let_def list_ex_iff filter_empty_conv drop_Suc)

lemma matches_any_unreported:
  "matches_any (Some ps) None \<longleftrightarrow> only_exclusions ps \<or> [WILDCARD] \<in> set ps"
proof -
  have "\<not> is_exclusion [WILDCARD]" by code_simp
  then show ?thesis
    by (auto simp: matches_any_def only_exclusions_def Let_def filter_empty_conv)
qed

lemma matches_own:
  assumes "list_all (\<lambda>p. \<not> is_exclusion p) ps" "v \<in> set ps"
  shows "matches_any (Some ps) (Some v)"
proof -
  have "matches_pattern v v" by (simp add: matches_pattern_glob glob_refl)
  then have "admits ps v" "\<not> excludes ps v" using assms by (auto simp: admits_def excludes_def list_all_iff)
  then show ?thesis by (simp add: matches_any_Some)
qed

lemma matches_any_excluded: "excludes ps v \<Longrightarrow> \<not> matches_any (Some ps) (Some v)"
  by (simp add: matches_any_Some)

lemma only_exclusions_Cons [simp]:
  "only_exclusions (p # ps) \<longleftrightarrow> is_exclusion p \<and> only_exclusions ps"
  "only_exclusions []"
  by (auto simp: only_exclusions_def)

section \<open>The table never changes an answer\<close>

definition cache_ok :: "rx_cache \<Rightarrow> bool" where
  "cache_ok compiled \<longleftrightarrow>
     (\<forall>(p, r) \<in> set compiled. r = rx_of p) \<and> length compiled \<le> MAX_CACHED_PATTERNS"

lemma cache_ok_lookup: "cache_ok compiled \<Longrightarrow> map_of compiled p = Some r \<Longrightarrow> r = rx_of p"
  unfolding cache_ok_def by (drule map_of_SomeD) blast

lemma cache_ok_insert:
  "cache_ok compiled \<Longrightarrow> length compiled < MAX_CACHED_PATTERNS \<Longrightarrow> cache_ok ((p, rx_of p) # compiled)"
  by (simp add: cache_ok_def)

lemma fst_compile: "cache_ok compiled \<Longrightarrow> fst (compile compiled pattern) = rx_of pattern"
  by (simp add: compile_def Let_def cache_ok_lookup split: option.split)

lemma snd_compile: "cache_ok compiled \<Longrightarrow> cache_ok (snd (compile compiled pattern))"
  by (simp add: compile_def Let_def cache_ok_insert split: option.split)

lemma fst_matches_pattern_cached:
  "cache_ok compiled \<Longrightarrow> fst (matches_pattern_cached compiled p v) = matches_pattern p v"
  by (simp add: matches_pattern_cached_def matches_pattern_def case_prod_beta fst_compile)

lemma snd_matches_pattern_cached:
  "cache_ok compiled \<Longrightarrow> cache_ok (snd (matches_pattern_cached compiled p v))"
  by (simp add: matches_pattern_cached_def case_prod_beta snd_compile)

lemma match_all_cached_ok:
  "cache_ok compiled \<Longrightarrow>
   fst (match_all_cached compiled qs) = map (\<lambda>(p, v). matches_pattern p v) qs \<and>
   cache_ok (snd (match_all_cached compiled qs))"
proof (induction qs arbitrary: compiled)
  case (Cons q qs)
  then show ?case
    by (cases q) (simp add: case_prod_beta fst_matches_pattern_cached snd_matches_pattern_cached)
qed simp

text \<open>
  Looking patterns up in the bounded table of compiled expressions never changes
  an answer: any sequence of matches from an empty table gives each pattern's own verdict,
  and the table never passes its cap of ten thousand entries.
\<close>

theorem match_all_cached_transparent:
  "fst (match_all_cached [] qs) = map (\<lambda>(p, v). matches_pattern p v) qs \<and>
   length (snd (match_all_cached [] qs)) \<le> MAX_CACHED_PATTERNS"
proof -
  have "cache_ok []" by (simp add: cache_ok_def)
  then show ?thesis using match_all_cached_ok [of "[]" qs] by (simp add: cache_ok_def)
qed

text \<open>
  Property C40. The regular expression a pattern is compiled into, with every special character
  escaped and the stars turned into \<open>.*\<close>, accepts exactly the values the pattern means as a
  glob: a star for any text, line breaks included, every other character for itself, and
  upper and lower case alike.
\<close>

theorem matches_pattern_is_glob:
  "matches_pattern pattern value \<longleftrightarrow> glob (to_lower pattern) (to_lower value)"
  by (rule matches_pattern_glob)

section \<open>The workspace token\<close>

lemma glob_chars: "glob p s \<Longrightarrow> c \<in> set p \<Longrightarrow> c \<noteq> WILDCARD \<Longrightarrow> c \<in> set s"
  by (induction p s rule: glob.induct) (auto split: if_splits)

lemma to_lower_fixed:
  assumes "of_char c < (65 :: nat)"
  shows "c \<in> set (to_lower s) \<longleftrightarrow> c \<in> set s"
  using lower_char_eq_fixed [OF assms] unfolding to_lower_def set_map
  by (metis (no_types, lifting) image_iff)

lemma replace_all_chars:
  "includes_text token s \<Longrightarrow> token \<noteq> [] \<Longrightarrow> set b \<subseteq> set (replace_all token b s)"
proof (induction token b s rule: replace_all.induct)
  case (1 token b s)
  show ?case
  proof (cases "s = [] \<or> starts_with token s")
    case True
    with "1.prems" show ?thesis by (auto simp: replace_all.simps [of token b s])
  next
    case False
    then obtain c t where s: "s = c # t" by (cases s) auto
    with False "1.prems" have "includes_text token t" by simp
    with False s "1.prems" "1.IH"(2) have "set b \<subseteq> set (replace_all token b t)" by simp
    moreover have "replace_all token b s = c # replace_all token b t"
      using False s "1.prems" by (simp add: replace_all.simps [of token b "c # t"])
    ultimately show ?thesis by auto
  qed
qed

text \<open>
  A pattern about the workspace never matches while nobody reported the working
  directory: the stand-in it is filled with starts with a NUL, which no normalized value
  holds.
\<close>

theorem unreported_workspace_matches_nothing:
  assumes "includes_text WORKSPACE_TOKEN p" and "char_of (0 :: nat) \<notin> set v"
  shows "with_workspace (Some [p]) None = Some [replace_all WORKSPACE_TOKEN NO_WORKSPACE p] \<and>
         \<not> matches_pattern (replace_all WORKSPACE_TOKEN NO_WORKSPACE p) v"
proof
  show "with_workspace (Some [p]) None = Some [replace_all WORKSPACE_TOKEN NO_WORKSPACE p]"
    using assms(1) by (simp add: with_workspace_def)
next
  let ?q = "replace_all WORKSPACE_TOKEN NO_WORKSPACE p" and ?nul = "char_of (0 :: nat) :: char"
  have "set NO_WORKSPACE \<subseteq> set ?q"
    using assms(1) by (rule replace_all_chars) (simp add: WORKSPACE_TOKEN_def)
  then have "?nul \<in> set (to_lower ?q)"
    by (simp add: to_lower_fixed NO_WORKSPACE_def)
  moreover have "?nul \<noteq> WILDCARD" by code_simp
  ultimately have "?nul \<in> set (to_lower v)" if "matches_pattern ?q v"
    using that glob_chars by (auto simp: matches_pattern_glob)
  then show "\<not> matches_pattern ?q v"
    using assms(2) by (auto simp: to_lower_fixed)
qed

theorem unreported_workspace_witness:
  "\<not> matches_pattern (replace_all WORKSPACE_TOKEN NO_WORKSPACE ''{workspace}/**'') ''/srv/app/x.ts''"
proof -
  have "includes_text WORKSPACE_TOKEN ''{workspace}/**''" by code_simp
  moreover have "char_of (0 :: nat) \<notin> set ''/srv/app/x.ts''" by code_simp
  ultimately show ?thesis using unreported_workspace_matches_nothing by blast
qed

end
