(* ===== verification/TimeWindow.thy ===== *)
theory TimeWindow
  imports Vocabulary
begin

text \<open>
  \<open>packages/core/src/policy/time-window.ts\<close> and the conversions of \<open>domain/time.ts\<close>: a rule
  that holds at certain hours. An instant is its number of milliseconds; the readings of
  \<open>Date\<close> in UTC are divisions of it, and 1 January 1970 was a Thursday.
\<close>

section \<open>Time\<close>

definition SECOND_MS :: int where "SECOND_MS = 1000"
definition MINUTE_MS :: int where "MINUTE_MS = 60 * SECOND_MS"
definition HOUR_MS :: int where "HOUR_MS = 60 * MINUTE_MS"
definition HOURS_IN_A_DAY :: int where "HOURS_IN_A_DAY = 24"
definition DAY_MS :: int where "DAY_MS = HOURS_IN_A_DAY * HOUR_MS"

definition minutes_to_ms :: "int \<Rightarrow> int" where
  "minutes_to_ms count = count * MINUTE_MS"

definition days_to_ms :: "int \<Rightarrow> int" where
  "days_to_ms count = count * DAY_MS"

text \<open>\<open>Math.floor\<close> of a quotient, and \<open>Math.round\<close>, which rounds a half up.\<close>

definition ms_to_whole_minutes :: "int \<Rightarrow> int" where
  "ms_to_whole_minutes n = n div MINUTE_MS"

definition ms_to_minutes :: "int \<Rightarrow> int" where
  "ms_to_minutes n = (2 * n + MINUTE_MS) div (2 * MINUTE_MS)"

named_theorems time_defs "the units of time"

declare SECOND_MS_def [time_defs] MINUTE_MS_def [time_defs] HOUR_MS_def [time_defs]
  HOURS_IN_A_DAY_def [time_defs] DAY_MS_def [time_defs] minutes_to_ms_def [time_defs]
  days_to_ms_def [time_defs] ms_to_whole_minutes_def [time_defs] ms_to_minutes_def [time_defs]

text \<open>\<open>getUTCHours\<close>, \<open>getUTCMinutes\<close> and \<open>getUTCDay\<close>.\<close>

definition utc_hours :: "time \<Rightarrow> int" where
  "utc_hours t = (t div HOUR_MS) mod 24"

definition utc_minutes :: "time \<Rightarrow> int" where
  "utc_minutes t = (t div MINUTE_MS) mod 60"

definition utc_day :: "time \<Rightarrow> int" where
  "utc_day t = (t div DAY_MS + 4) mod 7"

section \<open>Windows\<close>

definition MINUTES_PER_HOUR :: int where "MINUTES_PER_HOUR = HOUR_MS div MINUTE_MS"
definition DAYS_PER_WEEK :: int where "DAYS_PER_WEEK = 7"
definition MAX_UTC_OFFSET_MINUTES :: int where "MAX_UTC_OFFSET_MINUTES = 14 * MINUTES_PER_HOUR"
definition MIN_UTC_OFFSET_MINUTES :: int where "MIN_UTC_OFFSET_MINUTES = - MAX_UTC_OFFSET_MINUTES"

text \<open>A value of a policy file before anything is known about it.\<close>

datatype json =
    JNull
  | JBool bool
  | JNum rat
  | JStr string
  | JArr "json list"
  | JObj "(string \<times> json) list"

definition is_int_in :: "json \<Rightarrow> int \<Rightarrow> int \<Rightarrow> bool" where
  "is_int_in v lo hi =
     (case v of JNum r \<Rightarrow> r = of_int \<lfloor>r\<rfloor> \<and> lo \<le> \<lfloor>r\<rfloor> \<and> \<lfloor>r\<rfloor> \<le> hi | _ \<Rightarrow> False)"

definition is_valid_time_window :: "json \<Rightarrow> bool" where
  "is_valid_time_window window =
     (case window of
        JObj raw \<Rightarrow>
          let hours_valid =
                (case (map_of raw ''startHour'', map_of raw ''endHour'') of
                   (Some s, Some e) \<Rightarrow>
                     is_int_in s 0 (HOURS_IN_A_DAY - 1) \<and> is_int_in e 1 HOURS_IN_A_DAY
                 | _ \<Rightarrow> False);
              days_valid =
                (case map_of raw ''days'' of
                   None \<Rightarrow> True
                 | Some (JArr ds) \<Rightarrow>
                     ds \<noteq> [] \<and> list_all (\<lambda>d. is_int_in d 0 (DAYS_PER_WEEK - 1)) ds
                 | Some _ \<Rightarrow> False);
              offset_valid =
                (case map_of raw ''utcOffsetMinutes'' of
                   None \<Rightarrow> True
                 | Some o' \<Rightarrow> is_int_in o' MIN_UTC_OFFSET_MINUTES MAX_UTC_OFFSET_MINUTES)
          in hours_valid \<and> days_valid \<and> offset_valid
      | _ \<Rightarrow> False)"

definition matches_time_window :: "time_window \<Rightarrow> time \<Rightarrow> bool" where
  "matches_time_window window t =
     (let shifted = t + minutes_to_ms (or_else (tw_utc_offset_minutes window) 0);
          hour = (of_int (utc_hours shifted) :: rat) +
                 of_int (utc_minutes shifted) / of_int MINUTES_PER_HOUR;
          start = of_int (tw_start_hour window);
          stop = of_int (tw_end_hour window);
          wraps = (tw_start_hour window \<ge> tw_end_hour window);
          in_hours = (if wraps then hour \<ge> start \<or> hour < stop
                      else hour \<ge> start \<and> hour < stop)
      in if \<not> in_hours then False
         else
           (case tw_days window of
              None \<Rightarrow> True
            | Some days \<Rightarrow>
                let day = utc_day shifted;
                    started_yesterday = (wraps \<and> hour < stop);
                    effective_day =
                      (if started_yesterday then (day - 1 + DAYS_PER_WEEK) mod DAYS_PER_WEEK
                       else day)
                in effective_day \<in> set days))"

definition matches_any_time_window :: "time_window list option \<Rightarrow> time option \<Rightarrow> bool" where
  "matches_any_time_window windows t =
     (case windows of
        None \<Rightarrow> True
      | Some ws \<Rightarrow>
          if ws = [] then True
          else (case t of None \<Rightarrow> True | Some t' \<Rightarrow> list_ex (\<lambda>w. matches_time_window w t') ws))"

section \<open>The reference meaning: occurrences\<close>

text \<open>
  The occurrence that starts on local day \<open>d\<close> runs from its start hour to its end hour, the
  next day's when it starts at or after it ends.
\<close>

definition valid_hours :: "time_window \<Rightarrow> bool" where
  "valid_hours w \<longleftrightarrow>
     0 \<le> tw_start_hour w \<and> tw_start_hour w < 24 \<and> 0 < tw_end_hour w \<and> tw_end_hour w \<le> 24"

definition on_day :: "time_window \<Rightarrow> int \<Rightarrow> bool" where
  "on_day w d \<longleftrightarrow> (case tw_days w of None \<Rightarrow> True | Some days \<Rightarrow> (d + 4) mod 7 \<in> set days)"

definition occurrence :: "time_window \<Rightarrow> int \<Rightarrow> time \<Rightarrow> bool" where
  "occurrence w d l \<longleftrightarrow>
     d * DAY_MS + tw_start_hour w * HOUR_MS \<le> l \<and>
     l < d * DAY_MS + tw_end_hour w * HOUR_MS +
           (if tw_start_hour w \<ge> tw_end_hour w then DAY_MS else 0)"

definition local_time :: "time_window \<Rightarrow> time \<Rightarrow> time" where
  "local_time w t = t + minutes_to_ms (or_else (tw_utc_offset_minutes w) 0)"

lemma utc_minutes_frac:
  "0 \<le> (of_int (utc_minutes t) :: rat) / 60" "(of_int (utc_minutes t) :: rat) / 60 < 1"
  by (auto simp: utc_minutes_def)

lemma hour_ge: "(of_int (utc_hours t) :: rat) + of_int (utc_minutes t) / 60 \<ge> of_int s \<longleftrightarrow> s \<le> utc_hours t"
proof
  assume "of_int s \<le> (of_int (utc_hours t) :: rat) + of_int (utc_minutes t) / 60"
  then have "(of_int s :: rat) < of_int (utc_hours t + 1)"
    using utc_minutes_frac(2) [of t] by simp
  then show "s \<le> utc_hours t" by linarith
next
  assume "s \<le> utc_hours t"
  then have "(of_int s :: rat) \<le> of_int (utc_hours t)" by simp
  then show "of_int s \<le> (of_int (utc_hours t) :: rat) + of_int (utc_minutes t) / 60"
    using utc_minutes_frac(1) [of t] by linarith
qed

lemma hour_less: "(of_int (utc_hours t) :: rat) + of_int (utc_minutes t) / 60 < of_int s \<longleftrightarrow> utc_hours t < s"
  using hour_ge [of s t] by linarith

lemma MINUTES_PER_HOUR_60: "MINUTES_PER_HOUR = 60"
  by (simp add: MINUTES_PER_HOUR_def time_defs)

lemma matches_time_window_hours:
  "matches_time_window w t \<longleftrightarrow>
     (let l = local_time w t; h = utc_hours l; s = tw_start_hour w; e = tw_end_hour w in
      if s \<ge> e
      then (h < e \<and> on_day w (l div DAY_MS - 1)) \<or> (s \<le> h \<and> \<not> h < e \<and> on_day w (l div DAY_MS))
      else s \<le> h \<and> h < e \<and> on_day w (l div DAY_MS))"
proof -
  have prev: "(6 + (q + 4) mod 7) mod 7 = (3 + q) mod 7" for q :: int
    by presburger
  show ?thesis
    by (auto simp: matches_time_window_def local_time_def [symmetric] Let_def on_day_def
          MINUTES_PER_HOUR_60 hour_ge hour_less utc_day_def DAYS_PER_WEEK_def prev
          split: option.splits)
qed

lemma utc_hours_of_day: "utc_hours l = (l mod DAY_MS) div HOUR_MS"
proof -
  have "l mod (HOUR_MS * 24) = HOUR_MS * (l div HOUR_MS mod 24) + l mod HOUR_MS"
    by (rule zmod_zmult2_eq) simp
  moreover have "DAY_MS = HOUR_MS * 24" "HOUR_MS > 0"
    by (simp_all add: time_defs)
  ultimately show ?thesis
    by (simp add: utc_hours_def)
qed

lemma hours_bounds:
  "s \<le> utc_hours l \<longleftrightarrow> s * HOUR_MS \<le> l mod DAY_MS"
  "utc_hours l < e \<longleftrightarrow> l mod DAY_MS < e * HOUR_MS"
  by (auto simp: utc_hours_of_day time_defs)

lemma occurrence_days:
  assumes "valid_hours w" and "occurrence w d l"
  shows "d = l div DAY_MS \<or> (d = l div DAY_MS - 1 \<and> tw_start_hour w \<ge> tw_end_hour w)"
  using assms unfolding occurrence_def valid_hours_def
  by (auto simp: time_defs split: if_splits)

lemma occurrence_today:
  assumes "valid_hours w"
  shows "occurrence w (l div DAY_MS) l \<longleftrightarrow>
     tw_start_hour w \<le> utc_hours l \<and> (tw_start_hour w \<ge> tw_end_hour w \<or> utc_hours l < tw_end_hour w)"
proof -
  define q r where "q = l div DAY_MS" and "r = l mod DAY_MS"
  then have "l = q * DAY_MS + r" "r < DAY_MS" "0 \<le> r"
    by (simp_all add: time_defs)
  moreover have "0 < tw_end_hour w * HOUR_MS"
    using assms by (simp add: valid_hours_def time_defs)
  ultimately show ?thesis
    unfolding occurrence_def hours_bounds q_def [symmetric] r_def [symmetric]
    by (auto split: if_splits)
qed

lemma occurrence_yesterday:
  assumes "valid_hours w" and "tw_start_hour w \<ge> tw_end_hour w"
  shows "occurrence w (l div DAY_MS - 1) l \<longleftrightarrow> utc_hours l < tw_end_hour w"
proof -
  define q r where "q = l div DAY_MS" and "r = l mod DAY_MS"
  then have "l = q * DAY_MS + r" "0 \<le> r"
    by (simp_all add: time_defs)
  moreover have "(q - 1) * DAY_MS = q * DAY_MS - DAY_MS"
    by (simp add: left_diff_distrib)
  moreover have "tw_start_hour w * HOUR_MS \<le> DAY_MS"
    using assms by (simp add: valid_hours_def time_defs)
  ultimately show ?thesis
    using assms(2) unfolding occurrence_def hours_bounds q_def [symmetric] r_def [symmetric]
    by (auto split: if_splits)
qed

text \<open>
  A window with valid hours matches an instant exactly when one of its occurrences,
  on a day the window names, covers the instant's local time: an overnight window belongs to
  the day it started on, and a window that starts when it ends covers the whole day.
\<close>

theorem time_window_is_occurrence:
  assumes "valid_hours w"
  shows "matches_time_window w t \<longleftrightarrow> (\<exists>d. on_day w d \<and> occurrence w d (local_time w t))"
proof -
  let ?l = "local_time w t"
  let ?q = "?l div DAY_MS" and ?wraps = "tw_start_hour w \<ge> tw_end_hour w"
  have "(\<exists>d. on_day w d \<and> occurrence w d ?l) \<longleftrightarrow>
        (on_day w ?q \<and> occurrence w ?q ?l) \<or>
        (?wraps \<and> on_day w (?q - 1) \<and> occurrence w (?q - 1) ?l)"
    using occurrence_days [OF assms] by blast
  also have "\<dots> \<longleftrightarrow> matches_time_window w t"
    using occurrence_today [OF assms, of ?l] occurrence_yesterday [OF assms, of ?l]
    unfolding matches_time_window_hours Let_def by auto
  finally show ?thesis by simp
qed

text \<open>A Friday night shift, read on the Saturday at two in the morning and the Friday before.\<close>

definition night_shift :: time_window where
  "night_shift =
     \<lparr>tw_days = Some [5], tw_start_hour = 22, tw_end_hour = 6, tw_utc_offset_minutes = None\<rparr>"

theorem time_window_is_occurrence_witness:
  "(\<exists>d. on_day night_shift d \<and> occurrence night_shift d (local_time night_shift 180000000)) \<and>
   \<not> (\<exists>d. on_day night_shift d \<and> occurrence night_shift d (local_time night_shift 93600000))"
proof -
  have valid: "valid_hours night_shift" by code_simp
  have "matches_time_window night_shift 180000000" "\<not> matches_time_window night_shift 93600000"
    by code_simp+
  then show ?thesis
    using time_window_is_occurrence [OF valid] by blast
qed

lemma matches_any_time_window_unknown [simp]: "matches_any_time_window ws None"
  by (simp add: matches_any_time_window_def split: option.split)

lemma matches_any_time_window_None [simp]: "matches_any_time_window None t"
  by (simp add: matches_any_time_window_def)

end
