(* ===== verification/ActionTaxonomy.thy ===== *)
theory ActionTaxonomy
  imports Vocabulary
begin

text \<open>
  What an action's name says: its canonical spelling (\<open>domain/action-identity.ts\<close>), its risk
  (\<open>policy/risk-classifier.ts\<close>), its class (\<open>domain/action-class.ts\<close>), its capability
  (\<open>domain/capability.ts\<close>), whether it leaves the machine (\<open>notice/turn.ts\<close>), and whether its
  agent is frozen (\<open>policy/agent-freeze.ts\<close>).
\<close>

section \<open>Canonical spelling\<close>

text \<open>The part of \<open>INVISIBLE\<close> below code unit 256; the rest of it lies above.\<close>

definition is_invisible :: "char \<Rightarrow> bool" where
  "is_invisible c = (let n = of_char c :: nat in n \<le> 31 \<or> (127 \<le> n \<and> n \<le> 159))"

definition normalize_action_field :: "string \<Rightarrow> string" where
  "normalize_action_field value = trim (filter (\<lambda>c. \<not> is_invisible c) value)"

definition normalize_action_request :: "action_request \<Rightarrow> action_request" where
  "normalize_action_request r = r
     \<lparr>rq_action := normalize_action_field (rq_action r),
      rq_target := map_option normalize_action_field (rq_target r),
      rq_environment := map_option normalize_action_field (rq_environment r),
      rq_principal := map_option normalize_action_field (rq_principal r),
      rq_model := map_option normalize_action_field (rq_model r),
      rq_provider := map_option normalize_action_field (rq_provider r),
      rq_data_classification := map_option normalize_action_field (rq_data_classification r),
      rq_jurisdiction := map_option normalize_action_field (rq_jurisdiction r),
      rq_working_directory := map_option normalize_action_field (rq_working_directory r),
      rq_branch := map_option normalize_action_field (rq_branch r)\<rparr>"

lemma hd_dropWhile_not: "dropWhile P xs \<noteq> [] \<Longrightarrow> \<not> P (hd (dropWhile P xs))"
  by (rule hd_dropWhile)

lemma dropWhile_fixed: "xs = [] \<or> \<not> P (hd xs) \<Longrightarrow> dropWhile P xs = xs"
  by (cases xs) auto

lemma is_invisible_bits [code]:
  "is_invisible (Char b0 b1 b2 b3 b4 b5 b6 b7) \<longleftrightarrow>
     \<not> b6 \<and> \<not> b5 \<or> b0 \<and> b1 \<and> b2 \<and> b3 \<and> b4 \<and> b5 \<and> b6 \<and> \<not> b7"
  by (cases b0; cases b1; cases b2; cases b3; cases b4; cases b5; cases b6; cases b7; simp add: is_invisible_def)

lemma trim_ends:
  assumes "trim s \<noteq> []"
  shows "\<not> is_space (hd (trim s))" and "\<not> is_space (last (trim s))"
proof -
  let ?a = "dropWhile is_space s"
  obtain t where "?a = trim s @ t"
    unfolding trim_def by (metis rev_append rev_rev_ident takeWhile_dropWhile_id)
  with assms have "hd ?a = hd (trim s)" "?a \<noteq> []" by (metis hd_append2 append_is_Nil_conv)+
  then show "\<not> is_space (hd (trim s))" using hd_dropWhile_not by metis
  show "\<not> is_space (last (trim s))"
    using assms hd_dropWhile_not [of is_space "rev ?a"]
    by (simp add: trim_def last_rev)
qed

lemma trim_fixed: "s = [] \<or> (\<not> is_space (hd s) \<and> \<not> is_space (last s)) \<Longrightarrow> trim s = s"
  by (auto simp: trim_def dropWhile_fixed hd_rev)

lemma trim_trim [simp]: "trim (trim s) = trim s"
  by (rule trim_fixed) (use trim_ends in blast)

lemma set_trim: "set (trim s) \<subseteq> set s"
  unfolding trim_def by (auto dest!: set_dropWhileD)

lemma normalize_no_invisible: "c \<in> set (normalize_action_field s) \<Longrightarrow> \<not> is_invisible c"
  using set_trim unfolding normalize_action_field_def by fastforce

lemma normalize_action_field_idem [simp]:
  "normalize_action_field (normalize_action_field s) = normalize_action_field s"
proof -
  have "filter (\<lambda>c. \<not> is_invisible c) (normalize_action_field s) = normalize_action_field s"
    by (simp add: filter_id_conv normalize_no_invisible)
  then show ?thesis by (simp add: normalize_action_field_def)
qed

lemma normalize_action_request_idem [simp]:
  "normalize_action_request (normalize_action_request r) = normalize_action_request r"
  by (simp add: normalize_action_request_def option.map_comp comp_def)

lemma normalize_keeps [simp]:
  "rq_tool_class (normalize_action_request r) = rq_tool_class r"
  "rq_arguments (normalize_action_request r) = rq_arguments r"
  "rq_content (normalize_action_request r) = rq_content r"
  "rq_amount (normalize_action_request r) = rq_amount r"
  "rq_project_id (normalize_action_request r) = rq_project_id r"
  "rq_action (normalize_action_request r) = normalize_action_field (rq_action r)"
  by (simp_all add: normalize_action_request_def)

section \<open>Segments of a name\<close>

text \<open>A mark between a small letter or a digit and the capital after it.\<close>

fun insert_humps :: "char \<Rightarrow> string \<Rightarrow> string" where
  "insert_humps m [] = []"
| "insert_humps m [c] = [c]"
| "insert_humps m (c # d # s) =
     (if (is_lower c \<or> is_digit c) \<and> is_upper d then c # m # insert_humps m (d # s)
      else c # insert_humps m (d # s))"

text \<open>\<open>discovery/surface.ts\<close>: split on separators and camel humps, small letters.\<close>

definition name_segments :: "string \<Rightarrow> string list" where
  "name_segments name =
     map to_lower (runs_off (\<lambda>c. \<not> is_alnum c) (insert_humps CHR '' '' name))"

definition first_segment :: "string \<Rightarrow> string" where
  "first_segment action = first_part CHR ''.'' action"

text \<open>\<open>notice/turn.ts\<close>: anything but the local namespaces reaches outside this machine.\<close>

definition reaches_outside :: "string \<Rightarrow> bool" where
  "reaches_outside action = (first_segment action \<notin> set LOCAL_NAMESPACES)"

section \<open>Risk\<close>

text \<open>\<open>action.split(/[._-]|(?<=[a-z0-9])(?=[A-Z])/)\<close>: the second cut has no width, so marking
  it with one of the separators cuts at the same places.\<close>

definition risk_segments :: "string \<Rightarrow> string list" where
  "risk_segments action =
     map to_lower (runs_off (\<lambda>c. c \<in> set ''._-'') (insert_humps CHR ''.'' action))"

definition any_in :: "string list \<Rightarrow> string list \<Rightarrow> bool" where
  "any_in segments verbs = list_ex (\<lambda>s. s \<in> set verbs) segments"

definition raise_one_level :: "risk_level \<Rightarrow> risk_level" where
  "raise_one_level level =
     (case find_index (\<lambda>l. l = level) RISK_ORDER of
        None \<Rightarrow> level
      | Some index \<Rightarrow>
          or_else (elem_at RISK_ORDER (min (index + 1) (length RISK_ORDER - 1))) level)"

definition base_risk :: "string list \<Rightarrow> risk_level" where
  "base_risk segments =
     (if any_in segments DESTRUCTIVE_VERBS then HIGH
      else if any_in segments MUTATING_VERBS then MEDIUM
      else if any_in segments READ_ONLY_VERBS then LOW
      else MEDIUM)"

definition classify_risk :: "string \<Rightarrow> string option \<Rightarrow> risk_level" where
  "classify_risk action environment =
     (let level = base_risk (risk_segments action)
      in case environment of
           None \<Rightarrow> level
         | Some e \<Rightarrow>
             if e \<noteq> [] \<and> to_lower e \<in> set RISK_ESCALATION_ENVIRONMENTS
             then raise_one_level level else level)"

lemma raise_one_level_simps [simp]:
  "raise_one_level LOW = MEDIUM" "raise_one_level MEDIUM = HIGH"
  "raise_one_level HIGH = CRITICAL" "raise_one_level CRITICAL = CRITICAL"
  by code_simp+

lemma raise_one_level_ge: "level \<le> raise_one_level level"
  by (cases level) (auto simp: less_eq_risk_level_def)

lemma classify_risk_env_ge: "classify_risk action None \<le> classify_risk action environment"
  by (auto simp: classify_risk_def Let_def raise_one_level_ge split: option.split)

text \<open>
  An action whose name holds a destroying verb, as a whole word between dots,
  dashes, underscores or camel humps, is at least high risk, and critical where the
  environment is called production.
\<close>

theorem destructive_risk:
  assumes "seg \<in> set (risk_segments action)" and "seg \<in> set DESTRUCTIVE_VERBS"
  shows "HIGH \<le> classify_risk action environment \<and>
         classify_risk action (Some ''Production'') = CRITICAL"
proof -
  have base: "base_risk (risk_segments action) = HIGH"
    using assms by (auto simp: base_risk_def any_in_def list_ex_iff)
  have "to_lower ''Production'' \<in> set RISK_ESCALATION_ENVIRONMENTS" by code_simp
  with base have "classify_risk action (Some ''Production'') = CRITICAL"
    by (simp add: classify_risk_def)
  moreover have "HIGH \<le> classify_risk action environment"
    using classify_risk_env_ge [of action environment] base by (simp add: classify_risk_def)
  ultimately show ?thesis by simp
qed

theorem destructive_risk_witness:
  "HIGH \<le> classify_risk ''mcp.github.deleteRepo'' (Some ''dev'') \<and>
   classify_risk ''mcp.github.deleteRepo'' (Some ''Production'') = CRITICAL"
proof -
  have "''delete'' \<in> set (risk_segments ''mcp.github.deleteRepo'')" by code_simp
  moreover have "''delete'' \<in> set DESTRUCTIVE_VERBS" by code_simp
  ultimately show ?thesis by (rule destructive_risk)
qed

section \<open>Action classes\<close>

record action_classification =
  ac_action :: string
  ac_class :: action_class
  ac_basis :: class_basis

definition classified :: "string \<Rightarrow> action_class \<Rightarrow> class_basis \<Rightarrow> action_classification" where
  "classified action cls basis = \<lparr>ac_action = action, ac_class = cls, ac_basis = basis\<rparr>"

definition class_segments :: "string \<Rightarrow> string list" where
  "class_segments action = runs_off (\<lambda>c. c \<in> set ''._'') (to_lower action)"

definition classify_action_class :: "string \<Rightarrow> action_classification" where
  "classify_action_class action =
     (let lowered = to_lower action;
          segments = class_segments action;
          namespace = (case segments of [] \<Rightarrow> lowered | s # _ \<Rightarrow> s);
          verbs = (if drop 1 segments = [] then segments else drop 1 segments)
      in if any_in verbs DESTRUCTIVE_VERBS
         then classified action DESTRUCTIVE_CLASS DESTRUCTIVE_VERB
         else if namespace \<in> set OUTWARD_NAMESPACES
         then classified action EXTERNAL_STATE OUTWARD
         else if any_in verbs OUTWARD_VERBS
         then classified action EXTERNAL_STATE OUTWARD
         else if any_in verbs READ_ONLY_VERBS
         then classified action LOCAL READ_VERB
         else if namespace \<in> set LOCAL_NAMESPACES
         then classified action LOCAL LOCAL_NAMESPACE
         else classified action EXTERNAL_STATE UNPROVEN)"

definition describe_basis :: "class_basis \<Rightarrow> string" where
  "describe_basis b =
     (case b of
        DESTRUCTIVE_VERB \<Rightarrow> ''the verb destroys or exfiltrates''
      | OUTWARD \<Rightarrow> ''outward communication, addressed to people''
      | READ_VERB \<Rightarrow> ''a read changes nothing outside the machine''
      | LOCAL_NAMESPACE \<Rightarrow> ''nothing here leaves the machine''
      | UNPROVEN \<Rightarrow> ''nothing proved this stays on the machine'')"

fun action_class_text :: "action_class \<Rightarrow> string" where
  "action_class_text LOCAL = ''local''"
| "action_class_text EXTERNAL_STATE = ''external-state''"
| "action_class_text DESTRUCTIVE_CLASS = ''destructive''"

definition describe_action_class :: "action_classification \<Rightarrow> string" where
  "describe_action_class c =
     action_class_text (ac_class c) @ '': '' @ describe_basis (ac_basis c)"

lemma classify_action_class_local:
  "ac_class (classify_action_class action) = LOCAL \<longleftrightarrow>
   ac_basis (classify_action_class action) \<in> {READ_VERB, LOCAL_NAMESPACE}"
  by (auto simp: classify_action_class_def classified_def Let_def)

section \<open>Capabilities\<close>

datatype capability =
  Cap_read | Cap_write | Cap_delete | Cap_send | Cap_execute | Cap_admin | Cap_deploy
| Cap_transfer | Cap_unknown

fun capability_text :: "capability \<Rightarrow> string" where
  "capability_text Cap_read = ''read''"
| "capability_text Cap_write = ''write''"
| "capability_text Cap_delete = ''delete''"
| "capability_text Cap_send = ''send''"
| "capability_text Cap_execute = ''execute''"
| "capability_text Cap_admin = ''admin''"
| "capability_text Cap_deploy = ''deploy''"
| "capability_text Cap_transfer = ''transfer''"
| "capability_text Cap_unknown = ''unknown''"

definition TRANSFER_WORDS :: "string list" where
  "TRANSFER_WORDS =
     [''refund'', ''refunds'', ''payout'', ''payouts'', ''transfer'', ''transfers'']"

definition PAYMENT_WORDS :: "string list" where
  "PAYMENT_WORDS = [''capture'', ''confirm'', ''pay'', ''charge'', ''charges'']"

definition PAYMENT_NOUNS :: "string list" where
  "PAYMENT_NOUNS =
     [''payment'', ''payments'', ''intents'', ''invoice'', ''invoices'', ''charge'', ''charges'']"

definition DEPLOY_WORDS :: "string list" where
  "DEPLOY_WORDS =
     [''deploy'', ''redeploy'', ''up'', ''publish'', ''release'', ''rollout'', ''rollback'',
      ''promote'', ''apply'']"

definition ADMIN_WORDS :: "string list" where
  "ADMIN_WORDS =
     [''iam'', ''role'', ''roles'', ''permission'', ''permissions'', ''grant'', ''revoke'',
      ''invite'', ''member'', ''members'', ''owner'', ''access'', ''secret'', ''token'']"

definition EXECUTE_WORDS :: "string list" where
  "EXECUTE_WORDS =
     [''exec'', ''execute'', ''run'', ''ssh'', ''shell'', ''connect'', ''invoke'', ''debug'',
      ''attach'']"

definition by_class :: "string option \<Rightarrow> capability" where
  "by_class tool_class =
     (case tool_class of
        None \<Rightarrow> Cap_unknown
      | Some t \<Rightarrow>
          if t = TC_READ then Cap_read
          else if t = TC_WRITE then Cap_write
          else if t = TC_DESTRUCTIVE then Cap_delete
          else if t = TC_COMMUNICATION then Cap_send
          else Cap_unknown)"

definition capability_of :: "string \<Rightarrow> string option \<Rightarrow> capability" where
  "capability_of action tool_class =
     (if tool_class = Some TC_READ then Cap_read
      else
        let cls = by_class tool_class in
        if cls = Cap_unknown then Cap_unknown
        else if first_segment action \<in> set LOCAL_NAMESPACES then cls
        else
          let words = name_segments (map (\<lambda>c. if c = CHR ''.'' then CHR ''_'' else c) action) in
          if any_in words TRANSFER_WORDS \<or>
             (any_in words PAYMENT_WORDS \<and> any_in words PAYMENT_NOUNS) then Cap_transfer
          else if any_in words DEPLOY_WORDS then Cap_deploy
          else if any_in words ADMIN_WORDS then Cap_admin
          else if cls = Cap_delete then Cap_delete
          else if any_in words EXECUTE_WORDS then Cap_execute
          else cls)"

lemma capability_of_read [simp]: "capability_of action (Some TC_READ) = Cap_read"
  by (simp add: capability_of_def)

lemma by_class_range: "by_class t \<in> {Cap_read, Cap_write, Cap_delete, Cap_send, Cap_unknown}"
  by (auto simp: by_class_def split: option.split)

text \<open>
  What a tool class makes of a capability: an action classified as a read is a
  read whatever its name says, one nothing classified is unknown, and one that stays on this
  machine never counts as moving money, deploying, handing out authority or executing.
\<close>

theorem capability_of_sound:
  "capability_of action (Some TC_READ) = Cap_read \<and>
   capability_of action None = Cap_unknown \<and>
   (capability_of action tc \<in> {Cap_transfer, Cap_deploy, Cap_admin, Cap_execute} \<longrightarrow>
      reaches_outside action \<and> tc \<in> {Some TC_WRITE, Some TC_DESTRUCTIVE, Some TC_COMMUNICATION})"
proof -
  have tc: "by_class tc \<noteq> Cap_unknown \<Longrightarrow> tc \<noteq> Some TC_READ \<Longrightarrow>
      tc \<in> {Some TC_WRITE, Some TC_DESTRUCTIVE, Some TC_COMMUNICATION}"
    by (auto simp: by_class_def split: option.splits if_splits)
  show ?thesis
    using by_class_range [of tc] tc
    by (auto simp: capability_of_def Let_def reaches_outside_def by_class_def [of None])
qed

theorem capability_of_sound_witness:
  "capability_of ''stripe.refunds-create'' (Some TC_WRITE) = Cap_transfer \<and>
   reaches_outside ''stripe.refunds-create''"
proof -
  have cap: "capability_of ''stripe.refunds-create'' (Some TC_WRITE) = Cap_transfer" by code_simp
  then show ?thesis
    using capability_of_sound [of "''stripe.refunds-create''" "Some TC_WRITE"] by simp
qed

section \<open>A frozen agent\<close>

definition AGENT_ID_PREFIX :: string where
  "AGENT_ID_PREFIX = ''agt_''"

definition agent_id_for :: "string \<Rightarrow> string" where
  "agent_id_for kind = AGENT_ID_PREFIX @ kind"

definition AGENT_SUBJECT_PREFIX :: string where
  "AGENT_SUBJECT_PREFIX = ''agent:''"

definition AGENT_FROZEN_REASON :: string where
  "AGENT_FROZEN_REASON = ''this agent is frozen across the workspace, so nothing it asks for runs until the freeze lifts or expires''"

definition freeze_labels :: "string \<Rightarrow> string list" where
  "freeze_labels agent_name =
     map (\<lambda>name. to_lower (''freeze:'' @ AGENT_SUBJECT_PREFIX @ name))
         [agent_name, agent_id_for agent_name]"

definition agent_frozen :: "string list option \<Rightarrow> string \<Rightarrow> bool" where
  "agent_frozen state agent_name =
     (case state of
        None \<Rightarrow> False
      | Some facts \<Rightarrow>
          facts \<noteq> [] \<and> list_ex (\<lambda>fact. to_lower fact \<in> set (freeze_labels agent_name)) facts)"

lemma agent_frozen_None [simp]: "\<not> agent_frozen None a"
  by (simp add: agent_frozen_def)

end
