(* ===== verification/CandidateIndex.thy ===== *)
theory CandidateIndex
  imports JsPrelude
begin

text \<open>
  The contract between a rule scan and the index in front of it. A client that filters the
  candidates of a key reads the same rules as one that filters everything the index holds,
  provided the index can reach them; the strictest of a set of graded answers does not depend
  on the order or the repetition of the answers.
\<close>

section \<open>Keeping the strictest\<close>

text \<open>The \<open>reduce\<close> that keeps the first answer of the highest grade.\<close>

definition keep_strictest :: "('a \<Rightarrow> nat) \<Rightarrow> 'a list \<Rightarrow> 'a option" where
  "keep_strictest grade xs =
     foldl (\<lambda>strictest x.
       case strictest of
         None \<Rightarrow> Some x
       | Some s \<Rightarrow> if grade x > grade s then Some x else Some s) None xs"

lemma keep_strictest_snoc:
  "keep_strictest grade (xs @ [x]) =
     (case keep_strictest grade xs of
        None \<Rightarrow> Some x
      | Some s \<Rightarrow> if grade x > grade s then Some x else Some s)"
  by (simp add: keep_strictest_def)

lemma keep_strictest_None [simp]: "keep_strictest grade xs = None \<longleftrightarrow> xs = []"
proof (induction xs rule: rev_induct)
  case (snoc x xs)
  then show ?case by (auto simp: keep_strictest_snoc split: option.split)
qed (simp add: keep_strictest_def)

lemma keep_strictest_Some:
  "keep_strictest grade xs = Some s \<Longrightarrow> s \<in> set xs \<and> (\<forall>x \<in> set xs. grade x \<le> grade s)"
proof (induction xs arbitrary: s rule: rev_induct)
  case (snoc x xs)
  then show ?case
    by (fastforce simp: keep_strictest_snoc split: option.splits if_splits)
qed (simp add: keep_strictest_def)

lemma keep_strictest_first:
  assumes "keep_strictest grade xs = Some s"
  shows "\<exists>ys zs. xs = ys @ s # zs \<and> (\<forall>y \<in> set ys. grade y < grade s)"
  using assms
proof (induction xs arbitrary: s rule: rev_induct)
  case (snoc x xs)
  show ?case
  proof (cases "keep_strictest grade xs")
    case None
    with snoc.prems have "xs @ [x] = [] @ s # []" by (auto simp: keep_strictest_snoc)
    then show ?thesis by fastforce
  next
    case (Some s')
    show ?thesis
    proof (cases "grade x > grade s'")
      case True
      with Some snoc.prems have "s = x" by (simp add: keep_strictest_snoc)
      moreover have "\<forall>y \<in> set xs. grade y < grade x"
        using keep_strictest_Some [OF Some] True by force
      ultimately show ?thesis by fastforce
    next
      case False
      with Some snoc.prems have "s = s'" by (simp add: keep_strictest_snoc)
      with snoc.IH [OF Some] obtain ys zs
        where "xs = ys @ s # zs" "\<forall>y \<in> set ys. grade y < grade s" by blast
      then show ?thesis by (intro exI [of _ ys] exI [of _ "zs @ [x]"]) simp
    qed
  qed
qed (simp add: keep_strictest_def)

lemma keep_strictest_set:
  assumes "set xs = set ys"
    and "keep_strictest grade xs = Some s" and "keep_strictest grade ys = Some t"
  shows "grade s = grade t"
proof (rule antisym)
  show "grade s \<le> grade t" "grade t \<le> grade s"
    using keep_strictest_Some [OF assms(2)] keep_strictest_Some [OF assms(3)] assms(1) by auto
qed

section \<open>The interface of an index\<close>

locale candidate_index =
  fixes built :: "'ix \<Rightarrow> bool"
    and held :: "'ix \<Rightarrow> 'p list"
    and cands :: "'ix \<Rightarrow> 'k \<Rightarrow> 'p list"
    and fits :: "'p \<Rightarrow> 'k \<Rightarrow> bool"
    and reachable :: "'p \<Rightarrow> bool"
  assumes cands_sound: "built ix \<Longrightarrow> p \<in> set (cands ix k) \<Longrightarrow> p \<in> set (held ix)"
    and cands_complete:
      "built ix \<Longrightarrow> p \<in> set (held ix) \<Longrightarrow> reachable p \<Longrightarrow> fits p k \<Longrightarrow> p \<in> set (cands ix k)"
begin

lemma scan_subset: "built ix \<Longrightarrow> set (filter good (cands ix k)) \<subseteq> set (filter good (held ix))"
  using cands_sound by auto

lemma scan_complete:
  assumes "built ix" and "list_all reachable (held ix)" and "\<And>p. good p \<Longrightarrow> fits p k"
  shows "set (filter good (cands ix k)) = set (filter good (held ix))"
proof
  show "set (filter good (cands ix k)) \<subseteq> set (filter good (held ix))"
    by (rule scan_subset [OF assms(1)])
  show "set (filter good (held ix)) \<subseteq> set (filter good (cands ix k))"
  proof
    fix p
    assume "p \<in> set (filter good (held ix))"
    then have p: "p \<in> set (held ix)" "good p" by auto
    with assms(2) have "reachable p" by (simp add: list_all_iff)
    with p assms(1,3) show "p \<in> set (filter good (cands ix k))"
      using cands_complete by simp
  qed
qed

lemma scan_one:
  assumes "built ix" and "p \<in> set (held ix)" and "reachable p" and "good p" and "fits p k"
  shows "p \<in> set (filter good (cands ix k))"
  using assms cands_complete by auto

end

end
