(* ===== verification/PolicyEngine.thy ===== *)
theory PolicyEngine
  imports PatternMatcher TimeWindow ActionTaxonomy CandidateIndex
begin

text \<open>
  \<open>packages/core/src/policy/policy-engine.ts\<close>: one action in, one verdict out. The engine
  holds its rules twice, as given and bucketed by the literal first segment of their action
  patterns; \<open>evaluate\<close> reads the buckets, filters what matches and lets the strictest rule
  that is enforced and not relaxed decide. The content hash of the rule set (a digest of
  \<open>node:crypto\<close>) is the parameter \<open>version_of\<close> of the constructor.
\<close>

section \<open>Contexts, results, the engine's state\<close>

record evaluation_context =
  cx_agent_name :: string
  cx_agent_role :: "string option"
  cx_now :: "time option"
  cx_scope :: "scope_match option"
  cx_state :: "string list option"
  cx_state_version :: "string option"

definition plain_context :: "string \<Rightarrow> evaluation_context" where
  "plain_context agent =
     \<lparr>cx_agent_name = agent, cx_agent_role = None, cx_now = None, cx_scope = None,
      cx_state = None, cx_state_version = None\<rparr>"

record evaluation_result =
  er_effect :: decision_effect
  er_risk_level :: risk_level
  er_reason :: string
  er_matched_policies :: "matched_policy list"
  er_shadow_effect :: "decision_effect option"
  er_rule :: "rule_ref option"
  er_alternative :: "alternative option"
  er_state_version :: "string option"

record policy_engine =
  pe_policies :: "policy list"
  pe_default_effect :: decision_effect
  pe_version :: string
  pe_by_action_prefix :: "(string \<times> policy list) list"
  pe_unindexed :: "policy list"

section \<open>The index\<close>

text \<open>The prefixes as the set the source builds them into, in insertion order; \<open>None\<close> for null.\<close>

fun literal_prefixes_from :: "string list \<Rightarrow> string list \<Rightarrow> string list option" where
  "literal_prefixes_from found [] = (if found = [] then None else Some (uniq found))"
| "literal_prefixes_from found (pattern # patterns) =
     (let pre = first_segment pattern in
      if WILDCARD \<in> set pre \<or> pre = [] then None
      else literal_prefixes_from (found @ [to_lower pre]) patterns)"

definition literal_prefixes :: "string list \<Rightarrow> string list option" where
  "literal_prefixes patterns = literal_prefixes_from [] patterns"

fun push_bucket :: "policy \<Rightarrow> string \<Rightarrow> (string \<times> policy list) list \<Rightarrow> (string \<times> policy list) list" where
  "push_bucket policy pre [] = [(pre, [policy])]"
| "push_bucket policy pre ((q, bucket) # rest) =
     (if q = pre then (q, bucket @ [policy]) # rest
      else (q, bucket) # push_bucket policy pre rest)"

definition index_policy ::
  "(string \<times> policy list) list \<times> policy list \<Rightarrow> policy \<Rightarrow>
   (string \<times> policy list) list \<times> policy list" where
  "index_policy index policy =
     (case literal_prefixes (pm_actions (p_match policy)) of
        None \<Rightarrow> (fst index, snd index @ [policy])
      | Some found \<Rightarrow>
          (foldl (\<lambda>buckets pre. push_bucket policy pre buckets) (fst index) found,
           snd index))"

definition build_index :: "policy list \<Rightarrow> (string \<times> policy list) list \<times> policy list" where
  "build_index policies = foldl index_policy ([], []) policies"

definition new_engine ::
  "(policy list \<Rightarrow> string) \<Rightarrow> policy list \<Rightarrow> decision_effect option \<Rightarrow> policy_engine" where
  "new_engine version_of policies default_effect =
     \<lparr>pe_policies = policies, pe_default_effect = or_else default_effect ALLOW,
      pe_version = version_of policies,
      pe_by_action_prefix = fst (build_index policies),
      pe_unindexed = snd (build_index policies)\<rparr>"

definition candidates :: "policy_engine \<Rightarrow> string \<Rightarrow> policy list" where
  "candidates engine action =
     (case map_of (pe_by_action_prefix engine) (to_lower (first_segment action)) of
        None \<Rightarrow> pe_unindexed engine
      | Some bucket \<Rightarrow> bucket @ pe_unindexed engine)"

definition rules :: "policy_engine \<Rightarrow> policy list" where
  "rules engine = pe_policies engine"

section \<open>Matching one rule\<close>

definition in_project_scope :: "policy \<Rightarrow> action_request \<Rightarrow> bool" where
  "in_project_scope policy request =
     (case p_project policy of None \<Rightarrow> True | Some p \<Rightarrow> rq_project_id request = Some p)"

definition carve_applies ::
  "policy_carve_out \<Rightarrow> action_request \<Rightarrow> evaluation_context \<Rightarrow> bool" where
  "carve_applies carve request context =
     (if \<not> (co_project carve \<noteq> None \<or> co_agents carve \<noteq> None \<or>
             co_working_directories carve \<noteq> None) then False
      else if co_project carve \<noteq> None \<and> co_project carve \<noteq> rq_project_id request then False
      else if co_working_directories carve \<noteq> None \<and> rq_working_directory request = None then False
      else matches_any (co_agents carve) (Some (cx_agent_name context)) \<and>
           matches_any (co_working_directories carve) (rq_working_directory request))"

definition carved_out ::
  "policy_carve_out list option \<Rightarrow> action_request \<Rightarrow> evaluation_context \<Rightarrow> bool" where
  "carved_out unless request context =
     (case unless of
        None \<Rightarrow> False
      | Some carves \<Rightarrow> list_ex (\<lambda>c. carve_applies c request context) carves)"

definition matches_state :: "string list option \<Rightarrow> string list option \<Rightarrow> bool" where
  "matches_state required in_force =
     (case required of
        None \<Rightarrow> True
      | Some rs \<Rightarrow>
          if rs = [] then True
          else (case in_force of
                  None \<Rightarrow> False
                | Some fs \<Rightarrow> fs \<noteq> [] \<and> list_ex (\<lambda>kind. kind \<in> set fs) rs))"

definition matches_scope :: "scope_match list option \<Rightarrow> scope_match option \<Rightarrow> bool" where
  "matches_scope required actual =
     (case required of
        None \<Rightarrow> True
      | Some rs \<Rightarrow>
          if rs = [] then True
          else (case actual of None \<Rightarrow> False | Some a \<Rightarrow> a \<in> set rs))"

definition matches_amount :: "rat option \<Rightarrow> rat option \<Rightarrow> bool" where
  "matches_amount threshold amount =
     (case threshold of
        None \<Rightarrow> True
      | Some t \<Rightarrow> (case amount of None \<Rightarrow> True | Some a \<Rightarrow> a > t))"

definition matches_content :: "string list option \<Rightarrow> string list option \<Rightarrow> bool" where
  "matches_content patterns lines =
     (case patterns of
        None \<Rightarrow> True
      | Some ps \<Rightarrow>
          if ps = [] then True
          else (case lines of
                  None \<Rightarrow> False
                | Some ls \<Rightarrow> list_ex (\<lambda>line. matches_any (Some ps) (Some line)) ls))"

definition matches_all_arguments ::
  "(string \<times> string list) list option \<Rightarrow> (string \<times> string) list option \<Rightarrow> bool" where
  "matches_all_arguments patterns values =
     (case patterns of
        None \<Rightarrow> True
      | Some ps \<Rightarrow>
          let supplied = or_else values [] in
          list_all (\<lambda>(name, allowed). matches_any (Some allowed) (map_of supplied name)) ps)"

definition policy_matches ::
  "policy \<Rightarrow> action_request \<Rightarrow> evaluation_context \<Rightarrow> bool" where
  "policy_matches policy request context =
     (let m = p_match policy in
      in_project_scope policy request \<and>
      matches_any (Some (pm_actions m)) (Some (rq_action request)) \<and>
      matches_any (with_workspace (pm_targets m) (rq_working_directory request))
        (rq_target request) \<and>
      matches_any (pm_environments m) (rq_environment request) \<and>
      matches_any (pm_agents m) (Some (cx_agent_name context)) \<and>
      matches_any (pm_roles m) (cx_agent_role context) \<and>
      matches_any (pm_principals m) (rq_principal request) \<and>
      matches_any (pm_models m) (rq_model request) \<and>
      matches_any (pm_providers m) (rq_provider request) \<and>
      matches_any (pm_data_classifications m) (rq_data_classification request) \<and>
      matches_any (pm_jurisdictions m) (rq_jurisdiction request) \<and>
      matches_any (pm_working_directories m) (rq_working_directory request) \<and>
      matches_any (pm_branches m) (rq_branch request) \<and>
      matches_any (pm_classes m) (Some (or_else (rq_tool_class request) TC_UNKNOWN)) \<and>
      matches_any (pm_capabilities m)
        (Some (capability_text (capability_of (rq_action request) (rq_tool_class request)))) \<and>
      matches_all_arguments (pm_arguments m) (rq_arguments request) \<and>
      matches_content (pm_content m) (rq_content request) \<and>
      matches_amount (pm_above_amount m) (rq_amount request) \<and>
      matches_scope (pm_scope m) (cx_scope context) \<and>
      matches_state (pm_state m) (cx_state context) \<and>
      matches_any_time_window (pm_windows m) (cx_now context) \<and>
      \<not> carved_out (pm_unless m) request context)"

section \<open>Deciding\<close>

definition to_matched_policy :: "policy \<Rightarrow> matched_policy" where
  "to_matched_policy policy =
     (let d = p_decision policy in
      \<lparr>mp_name = p_name policy, mp_effect = pd_effect d, mp_reason = pd_reason d,
       mp_approvers = pd_approvers d, mp_min_approvals = pd_min_approvals d,
       mp_observed = (pd_mode d = Some PM_OBSERVE), mp_rate_limit = pd_rate_limit d,
       mp_alternative = pd_alternative d, mp_workspace = p_workspace policy,
       mp_decided_by = p_decided_by policy, mp_decided_at = p_decided_at policy,
       mp_relaxes = pd_relaxes d\<rparr>)"

definition is_stricter :: "decision_effect \<Rightarrow> decision_effect \<Rightarrow> bool" where
  "is_stricter effect than = (EFFECT_PRECEDENCE effect > EFFECT_PRECEDENCE than)"

definition observed_effects :: "matched_policy list \<Rightarrow> decision_effect list" where
  "observed_effects matched = map mp_effect (filter mp_observed matched)"

definition strictest_of :: "decision_effect list \<Rightarrow> decision_effect option" where
  "strictest_of effects =
     foldl (\<lambda>strictest effect.
       case strictest of
         None \<Rightarrow> Some effect
       | Some s \<Rightarrow> if is_stricter effect s then Some effect else Some s) None effects"

definition strictest_policy :: "matched_policy list \<Rightarrow> matched_policy option" where
  "strictest_policy matched =
     foldl (\<lambda>strictest candidate.
       case strictest of
         None \<Rightarrow> Some candidate
       | Some s \<Rightarrow> if is_stricter (mp_effect candidate) (mp_effect s) then Some candidate else Some s)
     None matched"

text \<open>A layer and a name, joined by a NUL in the source.\<close>

definition layer_of :: "bool \<Rightarrow> string \<Rightarrow> string" where
  "layer_of workspace name =
     (if workspace then ''workspace'' else ''local'') @ [char_of (0 :: nat)] @ name"

definition relaxed_layers :: "matched_policy list \<Rightarrow> string list" where
  "relaxed_layers matched =
     uniq (concat (map
       (\<lambda>p. map (layer_of (mp_workspace p)) (or_else (mp_relaxes p) []))
       (filter (\<lambda>p. mp_effect p = ALLOW) matched)))"

definition without_relaxed :: "matched_policy list \<Rightarrow> matched_policy list" where
  "without_relaxed matched =
     filter (\<lambda>p. mp_effect p \<noteq> ASK \<or>
                 layer_of (mp_workspace p) (mp_name p) \<notin> set (relaxed_layers matched)) matched"

definition shadow_if_stricter ::
  "decision_effect \<Rightarrow> decision_effect option \<Rightarrow> decision_effect option" where
  "shadow_if_stricter applied observed =
     (case observed of
        None \<Rightarrow> None
      | Some o' \<Rightarrow> if is_stricter o' applied then Some o' else None)"

definition NO_POLICY_MATCHED :: string where
  "NO_POLICY_MATCHED = ''no policy matched, so the default effect applied''"

definition rule_ref_of :: "policy_engine \<Rightarrow> policy \<Rightarrow> rule_ref" where
  "rule_ref_of engine policy =
     \<lparr>rr_id = or_else (p_id policy) (p_name policy), rr_name = p_name policy,
      rr_version = pe_version engine\<rparr>"

definition frozen_verdict ::
  "action_request \<Rightarrow> evaluation_context \<Rightarrow> evaluation_result option" where
  "frozen_verdict request context =
     (if \<not> agent_frozen (cx_state context) (cx_agent_name context) then None
      else Some \<lparr>er_effect = DENY,
                 er_risk_level = classify_risk (rq_action request) (rq_environment request),
                 er_reason = AGENT_FROZEN_REASON, er_matched_policies = [],
                 er_shadow_effect = None, er_rule = None, er_alternative = None,
                 er_state_version = cx_state_version context\<rparr>)"

definition applicable ::
  "policy_engine \<Rightarrow> action_request \<Rightarrow> evaluation_context \<Rightarrow> policy list" where
  "applicable engine request context =
     filter (\<lambda>p. policy_matches p request context) (candidates engine (rq_action request))"

definition deciding :: "matched_policy list \<Rightarrow> matched_policy list" where
  "deciding matched = without_relaxed (filter (\<lambda>p. \<not> mp_observed p) matched)"

definition evaluate ::
  "policy_engine \<Rightarrow> action_request \<Rightarrow> evaluation_context \<Rightarrow> evaluation_result" where
  "evaluate engine incoming context =
     (let request = normalize_action_request incoming in
      case frozen_verdict request context of
        Some frozen \<Rightarrow> frozen
      | None \<Rightarrow>
          let fits = applicable engine request context;
              matched = map to_matched_policy fits;
              risk = classify_risk (rq_action request) (rq_environment request);
              shadow = strictest_of (observed_effects matched)
          in (case strictest_policy (deciding matched) of
                None \<Rightarrow>
                  \<lparr>er_effect = pe_default_effect engine, er_risk_level = risk,
                   er_reason = NO_POLICY_MATCHED, er_matched_policies = matched,
                   er_shadow_effect = shadow_if_stricter (pe_default_effect engine) shadow,
                   er_rule = None, er_alternative = None,
                   er_state_version = cx_state_version context\<rparr>
              | Some winner \<Rightarrow>
                  \<lparr>er_effect = mp_effect winner, er_risk_level = risk,
                   er_reason = or_else (mp_reason winner)
                     (''policy \"'' @ mp_name winner @ ''\" applied''),
                   er_matched_policies = matched,
                   er_shadow_effect = shadow_if_stricter (mp_effect winner) shadow,
                   er_rule = map_option (rule_ref_of engine)
                     (List.find (\<lambda>p. p_name p = mp_name winner) fits),
                   er_alternative = mp_alternative winner,
                   er_state_version = cx_state_version context\<rparr>))"

section \<open>What the index holds\<close>

lemma literal_prefixes_from_Some:
  "literal_prefixes_from acc ps = Some qs \<Longrightarrow>
     set qs = set acc \<union> (\<lambda>p. to_lower (first_segment p)) ` set ps \<and>
     (\<forall>p \<in> set ps. WILDCARD \<notin> set (first_segment p) \<and> first_segment p \<noteq> []) \<and> qs \<noteq> []"
proof (induction ps arbitrary: acc)
  case Nil
  then have "qs = uniq acc" "acc \<noteq> []" by (auto split: if_splits)
  then show ?case using set_uniq [of acc] by (metis Un_empty_right image_empty list.set(1) set_empty empty_iff)
next
  case (Cons p ps)
  then show ?case by (fastforce simp: Let_def split: if_splits)
qed

lemma literal_prefixes_Some:
  assumes "literal_prefixes ps = Some qs"
  shows "set qs = (\<lambda>p. to_lower (first_segment p)) ` set ps"
    and "p \<in> set ps \<Longrightarrow> WILDCARD \<notin> set (first_segment p) \<and> first_segment p \<noteq> []"
    and "ps \<noteq> []"
  using literal_prefixes_from_Some [OF assms [unfolded literal_prefixes_def]]
  by auto

lemma map_of_push_bucket:
  "map_of (push_bucket policy pre buckets) k =
     (if k = pre then Some (or_else (map_of buckets pre) [] @ [policy]) else map_of buckets k)"
  by (induction policy pre buckets rule: push_bucket.induct) auto

definition bucket_of :: "(string \<times> policy list) list \<Rightarrow> string \<Rightarrow> policy list" where
  "bucket_of buckets k = or_else (map_of buckets k) []"

lemma set_bucket_fold:
  "set (bucket_of (foldl (\<lambda>buckets pre. push_bucket policy pre buckets) buckets pres) k) =
     set (bucket_of buckets k) \<union> (if k \<in> set pres then {policy} else {})"
  by (induction pres arbitrary: buckets) (auto simp: bucket_of_def map_of_push_bucket)

lemma index_policy_sets:
  "set (snd (index_policy ix policy)) =
     set (snd ix) \<union> (if literal_prefixes (pm_actions (p_match policy)) = None then {policy} else {})"
  "set (bucket_of (fst (index_policy ix policy)) k) =
     set (bucket_of (fst ix) k) \<union>
     (case literal_prefixes (pm_actions (p_match policy)) of
        None \<Rightarrow> {} | Some pres \<Rightarrow> if k \<in> set pres then {policy} else {})"
  by (auto simp: index_policy_def set_bucket_fold split: option.splits)

lemma build_index_snoc: "build_index (ps @ [p]) = index_policy (build_index ps) p"
  by (simp add: build_index_def)

lemma set_unindexed:
  "set (snd (build_index ps)) =
     {p \<in> set ps. literal_prefixes (pm_actions (p_match p)) = None}"
proof (induction ps rule: rev_induct)
  case (snoc p ps)
  then show ?case by (auto simp: build_index_snoc index_policy_sets)
qed (simp add: build_index_def)

lemma set_bucket:
  "set (bucket_of (fst (build_index ps)) k) =
     {p \<in> set ps. \<exists>pres. literal_prefixes (pm_actions (p_match p)) = Some pres \<and> k \<in> set pres}"
proof (induction ps rule: rev_induct)
  case (snoc p ps)
  then show ?case
    by (cases "literal_prefixes (pm_actions (p_match p))")
       (auto simp: build_index_snoc index_policy_sets split: if_splits)
qed (simp add: build_index_def bucket_of_def)

lemma set_candidates:
  "set (candidates (new_engine v ps d) a) =
     {p \<in> set ps. case literal_prefixes (pm_actions (p_match p)) of
        None \<Rightarrow> True | Some pres \<Rightarrow> to_lower (first_segment a) \<in> set pres}"
proof -
  have "set (candidates (new_engine v ps d) a) =
      set (bucket_of (fst (build_index ps)) (to_lower (first_segment a))) \<union>
      set (snd (build_index ps))"
    by (auto simp: candidates_def new_engine_def bucket_of_def split: option.split)
  then show ?thesis
    unfolding set_unindexed set_bucket by (auto split: option.splits)
qed

section \<open>A matching action is in the bucket of its pattern\<close>

lemma first_segment_lower: "first_segment (to_lower s) = to_lower (first_segment s)"
proof -
  have dot: "lower_char c = CHR ''.'' \<longleftrightarrow> c = CHR ''.''" for c
    by (rule lower_char_eq_fixed) simp
  show ?thesis
    unfolding first_segment_def first_part_def to_lower_def
    by (induction s) (auto simp: dot)
qed

lemma first_segment_split: "q = first_segment q \<or> (\<exists>r. q = first_segment q @ CHR ''.'' # r)"
proof (induction q)
  case (Cons c q)
  then show ?case
    by (cases "c = CHR ''.''") (auto simp: first_segment_def first_part_def)
qed (simp add: first_segment_def first_part_def)

lemma matches_same_prefix:
  assumes "matches_pattern q a" and star: "WILDCARD \<notin> set (first_segment q)"
  shows "to_lower (first_segment a) = to_lower (first_segment q)"
  using first_segment_split [of q]
proof
  assume "q = first_segment q"
  with star have "WILDCARD \<notin> set q" by metis
  with assms(1) have "to_lower a = to_lower q" by (simp add: matches_literal)
  then show ?thesis by (metis first_segment_lower)
next
  assume "\<exists>r. q = first_segment q @ CHR ''.'' # r"
  then obtain r where q: "q = first_segment q @ CHR ''.'' # r" by blast
  let ?lit = "to_lower (first_segment q) @ ''.''"
  have low: "to_lower q = ?lit @ to_lower r"
    by (subst q) (simp add: to_lower_append to_lower_def lower_char_def)
  have "WILDCARD \<notin> set ?lit" using star by (simp add: WILDCARD_def [symmetric]) (simp add: WILDCARD_def)
  moreover have "glob (?lit @ to_lower r) (to_lower a)"
    using assms(1) unfolding matches_pattern_glob low .
  ultimately obtain t where "to_lower a = ?lit @ t"
    by (metis glob_literal_append)
  then have "first_segment (to_lower a) = first_part CHR ''.'' (to_lower (first_segment q) @ CHR ''.'' # t)"
    by (simp add: first_segment_def)
  also have "\<dots> = to_lower (first_segment q)"
  proof (rule first_part_append_free)
    show "CHR ''.'' \<notin> set (to_lower (first_segment q))"
      using first_part_no_sep to_lower_fixed by (simp add: first_segment_def)
  qed
  finally show ?thesis by (simp add: first_segment_lower)
qed

section \<open>The engine provides the index\<close>

definition engine_built :: "policy_engine \<Rightarrow> bool" where
  "engine_built engine \<longleftrightarrow> (\<exists>v ps d. engine = new_engine v ps d)"

text \<open>A rule the index can reach: its actions are not a list of exclusions only.\<close>

definition indexable :: "policy \<Rightarrow> bool" where
  "indexable policy \<longleftrightarrow>
     pm_actions (p_match policy) = [] \<or> \<not> only_exclusions (pm_actions (p_match policy))"

definition action_fits :: "policy \<Rightarrow> string \<Rightarrow> bool" where
  "action_fits policy action \<longleftrightarrow> matches_any (Some (pm_actions (p_match policy))) (Some action)"

lemma candidates_complete:
  assumes "p \<in> set ps" and "indexable p" and "action_fits p a"
  shows "p \<in> set (candidates (new_engine v ps d) a)"
proof (cases "literal_prefixes (pm_actions (p_match p))")
  case None
  with assms(1) show ?thesis by (simp add: set_candidates)
next
  case (Some pres)
  let ?as = "pm_actions (p_match p)"
  have "?as \<noteq> []" using literal_prefixes_Some(3) [OF Some] .
  with assms(2) have "\<not> only_exclusions ?as" by (simp add: indexable_def)
  with assms(3) have "admits ?as a" by (simp add: action_fits_def matches_any_Some)
  then obtain q where q: "q \<in> set ?as" "matches_pattern q a" by (auto simp: admits_def)
  have "to_lower (first_segment a) = to_lower (first_segment q)"
    using matches_same_prefix [OF q(2)] literal_prefixes_Some(2) [OF Some q(1)] by blast
  with q(1) have "to_lower (first_segment a) \<in> set pres"
    unfolding literal_prefixes_Some(1) [OF Some] by auto
  with assms(1) Some show ?thesis by (simp add: set_candidates)
qed

interpretation engine_index: candidate_index engine_built pe_policies candidates action_fits indexable
proof unfold_locales
  fix engine p k
  assume "engine_built engine"
  then obtain v ps d where e: "engine = new_engine v ps d" by (auto simp: engine_built_def)
  show "p \<in> set (candidates engine k) \<Longrightarrow> p \<in> set (pe_policies engine)"
    by (simp add: e set_candidates) (simp add: new_engine_def)
  show "p \<in> set (pe_policies engine) \<Longrightarrow> indexable p \<Longrightarrow> action_fits p k \<Longrightarrow>
      p \<in> set (candidates engine k)"
    using candidates_complete by (simp add: e) (simp add: new_engine_def)
qed

lemma policy_matches_fits: "policy_matches p r c \<Longrightarrow> action_fits p (rq_action r)"
  by (simp add: policy_matches_def Let_def action_fits_def)

lemma strictest_of_keep: "strictest_of effects = keep_strictest EFFECT_PRECEDENCE effects"
  by (simp only: strictest_of_def keep_strictest_def is_stricter_def)

lemma strictest_policy_keep:
  "strictest_policy matched = keep_strictest (\<lambda>p. EFFECT_PRECEDENCE (mp_effect p)) matched"
  by (simp only: strictest_policy_def keep_strictest_def is_stricter_def)

lemma is_stricter_less: "is_stricter a b \<longleftrightarrow> b < a"
  by (simp add: is_stricter_def less_decision_effect_def)

end
