(* ===== verification/PolicyVerdict.thy ===== *)
theory PolicyVerdict
  imports PolicyEngine
begin

text \<open>
  What a verdict of the rule engine is worth. The reference is a scan with no index: every
  enforced rule that matches and is not relaxed, and the strictest of their effects. The
  engine's answer is that of the scan wherever the index reaches every rule; the theorems at
  the end show the rules it does not reach, and how ties and duplicate names come out.
\<close>

section \<open>The reference verdict\<close>

definition enforced :: "policy \<Rightarrow> bool" where
  "enforced p \<longleftrightarrow> pd_mode (p_decision p) \<noteq> Some PM_OBSERVE"

definition reference_effect ::
  "policy list \<Rightarrow> decision_effect \<Rightarrow> action_request \<Rightarrow> evaluation_context \<Rightarrow> decision_effect" where
  "reference_effect ps d r c =
     (if agent_frozen (cx_state c) (cx_agent_name c) then DENY
      else
        let D = deciding (map to_matched_policy
                  (filter (\<lambda>p. policy_matches p (normalize_action_request r) c) ps))
        in if D = [] then d else Max (mp_effect ` set D))"

lemma mp_to_matched [simp]:
  "mp_observed (to_matched_policy p) \<longleftrightarrow> \<not> enforced p"
  "mp_effect (to_matched_policy p) = pd_effect (p_decision p)"
  "mp_name (to_matched_policy p) = p_name p"
  "mp_workspace (to_matched_policy p) = p_workspace p"
  "mp_relaxes (to_matched_policy p) = pd_relaxes (p_decision p)"
  by (auto simp: to_matched_policy_def Let_def enforced_def)

lemma frozen_verdict_None [simp]:
  "frozen_verdict r c = None \<longleftrightarrow> \<not> agent_frozen (cx_state c) (cx_agent_name c)"
  by (simp add: frozen_verdict_def)

lemma evaluate_frozen:
  "agent_frozen (cx_state c) (cx_agent_name c) \<Longrightarrow>
   er_effect (evaluate e r c) = DENY \<and> er_matched_policies (evaluate e r c) = [] \<and>
   er_reason (evaluate e r c) = AGENT_FROZEN_REASON"
  by (simp add: evaluate_def frozen_verdict_def)

lemma evaluate_effect:
  "\<not> agent_frozen (cx_state c) (cx_agent_name c) \<Longrightarrow>
   er_effect (evaluate e r c) =
     (case strictest_policy (deciding (map to_matched_policy
             (applicable e (normalize_action_request r) c))) of
        None \<Rightarrow> pe_default_effect e
      | Some w \<Rightarrow> mp_effect w)"
  by (simp add: evaluate_def Let_def frozen_verdict_def split: option.split)

lemma evaluate_normalized: "evaluate e (normalize_action_request r) c = evaluate e r c"
  by (simp add: evaluate_def)

section \<open>Deciding looks at the set of matched rules only\<close>

lemma set_relaxed_layers:
  "set (relaxed_layers matched) =
     {layer_of (mp_workspace p) n | p n.
        p \<in> set matched \<and> mp_effect p = ALLOW \<and> n \<in> set (or_else (mp_relaxes p) [])}"
  by (auto simp: relaxed_layers_def)

lemma set_deciding:
  "set (deciding matched) =
     {p \<in> set matched. \<not> mp_observed p \<and>
        (mp_effect p \<noteq> ASK \<or>
         layer_of (mp_workspace p) (mp_name p) \<notin>
           set (relaxed_layers (filter (\<lambda>p. \<not> mp_observed p) matched)))}"
  by (auto simp: deciding_def without_relaxed_def)

lemma deciding_cong: "set xs = set ys \<Longrightarrow> set (deciding xs) = set (deciding ys)"
  by (simp add: set_deciding set_relaxed_layers)

lemma strictest_policy_Max:
  "(case strictest_policy D of None \<Rightarrow> d | Some w \<Rightarrow> mp_effect w) =
     (if D = [] then d else Max (mp_effect ` set D))"
proof (cases "strictest_policy D")
  case None
  then have "D = []" using keep_strictest_None [of _ D] by (simp only: strictest_policy_keep)
  then show ?thesis by (simp add: strictest_policy_def)
next
  case (Some w)
  then have w: "w \<in> set D" "\<And>x. x \<in> set D \<Longrightarrow> mp_effect x \<le> mp_effect w"
    using keep_strictest_Some [of "\<lambda>p. EFFECT_PRECEDENCE (mp_effect p)" D w]
    by (auto simp: strictest_policy_keep less_eq_decision_effect_def)
  then have "Max (mp_effect ` set D) = mp_effect w"
    by (intro Max_eqI) auto
  with w Some show ?thesis by auto
qed

lemma evaluate_Max:
  "er_effect (evaluate (new_engine v ps d) r c) =
     (if agent_frozen (cx_state c) (cx_agent_name c) then DENY
      else
        let D = deciding (map to_matched_policy
                  (applicable (new_engine v ps d) (normalize_action_request r) c))
        in if D = [] then or_else d ALLOW else Max (mp_effect ` set D))"
  using evaluate_frozen [of c "new_engine v ps d" r]
  by (simp add: evaluate_effect strictest_policy_Max Let_def new_engine_def)

lemma engine_built_new [simp]: "engine_built (new_engine v ps d)"
  by (auto simp: engine_built_def)

lemma pe_policies_new [simp]: "pe_policies (new_engine v ps d) = ps"
  by (simp add: new_engine_def)

lemma applicable_subset:
  "set (applicable (new_engine v ps d) r c) \<subseteq> {p \<in> set ps. policy_matches p r c}"
  unfolding applicable_def
  using engine_index.scan_subset [OF engine_built_new [of v ps d]] by auto

lemma applicable_complete:
  assumes "list_all indexable ps"
  shows "set (applicable (new_engine v ps d) r c) = {p \<in> set ps. policy_matches p r c}"
proof -
  let ?e = "new_engine v ps d"
  have "set (filter (\<lambda>p. policy_matches p r c) (candidates ?e (rq_action r))) =
      set (filter (\<lambda>p. policy_matches p r c) (pe_policies ?e))"
  proof (rule engine_index.scan_complete)
    show "engine_built ?e" by simp
    show "list_all indexable (pe_policies ?e)" using assms by simp
    show "\<And>p. policy_matches p r c \<Longrightarrow> action_fits p (rq_action r)" by (rule policy_matches_fits)
  qed
  then show ?thesis by (auto simp: applicable_def)
qed

lemma applicable_one:
  assumes "p \<in> set ps" and "indexable p" and "policy_matches p r c"
  shows "p \<in> set (applicable (new_engine v ps d) r c)"
  unfolding applicable_def
  by (rule engine_index.scan_one) (simp_all add: assms policy_matches_fits [OF assms(3)])

text \<open>The effect is at least that of any rule left to decide.\<close>

lemma deciding_bound:
  assumes "m \<in> set (deciding (map to_matched_policy
             (applicable (new_engine v ps d) (normalize_action_request r) c)))"
  shows "mp_effect m \<le> er_effect (evaluate (new_engine v ps d) r c)"
proof -
  let ?D = "deciding (map to_matched_policy
             (applicable (new_engine v ps d) (normalize_action_request r) c))"
  from assms have "?D \<noteq> []" by auto
  with assms show ?thesis by (simp add: evaluate_Max Let_def)
qed

section \<open>The index changes nothing where it reaches every rule\<close>

text \<open>
  Property C4. The bucketed engine gives the verdict of a plain scan over every rule, and
  reports the same set of matched rules, for every rule set in which each rule's actions name
  something besides exclusions. In particular the verdict is the strictest effect of the
  enforced rules that match and are not relaxed.
\<close>

theorem evaluate_is_reference:
  assumes "list_all indexable ps"
  shows "er_effect (evaluate (new_engine v ps d) r c) = reference_effect ps (or_else d ALLOW) r c \<and>
    set (applicable (new_engine v ps d) r c) = {p \<in> set ps. policy_matches p r c}"
proof
  let ?r = "normalize_action_request r"
  show "set (applicable (new_engine v ps d) r c) = {p \<in> set ps. policy_matches p r c}"
    by (rule applicable_complete [OF assms])
  have "set (map to_matched_policy (applicable (new_engine v ps d) ?r c)) =
        set (map to_matched_policy (filter (\<lambda>p. policy_matches p ?r c) ps))"
    unfolding set_map applicable_complete [OF assms] by simp
  note same = deciding_cong [OF this]
  show "er_effect (evaluate (new_engine v ps d) r c) = reference_effect ps (or_else d ALLOW) r c"
    unfolding evaluate_Max reference_effect_def Let_def same set_empty [symmetric] by (rule refl)
qed

definition sample_version :: "policy list \<Rightarrow> string" where
  "sample_version ps = ''v''"

definition deny_force_push :: policy where
  "deny_force_push =
     plain_policy ''no-force-push'' (match_actions [''git.push-force*'']) (plain_decision DENY)"

definition allow_git :: policy where
  "allow_git = plain_policy ''git'' (match_actions [''Git.*'', ''!git.reset'']) (plain_decision ALLOW)"

theorem evaluate_is_reference_witness:
  "er_effect (evaluate (new_engine sample_version [allow_git, deny_force_push] None)
     (bare_request ''git.push-force'') (plain_context ''claude-code'')) = DENY"
proof -
  have "list_all indexable [allow_git, deny_force_push]" by code_simp
  then have "er_effect (evaluate (new_engine sample_version [allow_git, deny_force_push] None)
      (bare_request ''git.push-force'') (plain_context ''claude-code'')) =
    reference_effect [allow_git, deny_force_push] (or_else None ALLOW)
      (bare_request ''git.push-force'') (plain_context ''claude-code'')"
    using evaluate_is_reference by blast
  also have "\<dots> = DENY" by code_simp
  finally show ?thesis .
qed

section \<open>A deny always decides\<close>

lemma deny_rule_decides:
  assumes "p \<in> set ps" and "indexable p" and "enforced p"
    and "pd_effect (p_decision p) = DENY"
    and "policy_matches p (normalize_action_request r) c"
  shows "er_effect (evaluate (new_engine v ps d) r c) = DENY"
proof -
  let ?M = "map to_matched_policy (applicable (new_engine v ps d) (normalize_action_request r) c)"
  have "to_matched_policy p \<in> set ?M"
    using applicable_one [OF assms(1,2,5)] by simp
  then have "to_matched_policy p \<in> set (deciding ?M)"
    using assms(3,4) by (simp add: set_deciding)
  from deciding_bound [OF this] show ?thesis using assms(4) by simp
qed

text \<open>
  Property C5. A deny rule that is enforced, matches and names an action its index can reach decides: no
  allow, no relaxation, no default and no order of the rules lets the action through. A rule whose actions
  are all exclusions is filed nowhere, and is the one kind this leaves out
  (\<open>exclusion_only_rule_is_unreachable\<close>).
\<close>

theorem deny_decides:
  assumes "p \<in> set ps" and "indexable p" and "enforced p"
    and "pd_effect (p_decision p) = DENY"
    and "policy_matches p (normalize_action_request r) c"
  shows "er_effect (evaluate (new_engine v ps d) r c) = DENY"
  using assms by (rule deny_rule_decides)

theorem deny_decides_witness:
  "er_effect (evaluate (new_engine sample_version [allow_git, deny_force_push] (Some ALLOW))
     (bare_request '' git.push-force '') (plain_context ''codex'')) = DENY"
proof (rule deny_decides)
  show "deny_force_push \<in> set [allow_git, deny_force_push]" by simp
  show "indexable deny_force_push" by code_simp
  show "enforced deny_force_push" by code_simp
  show "pd_effect (p_decision deny_force_push) = DENY" by code_simp
  show "policy_matches deny_force_push (normalize_action_request (bare_request '' git.push-force ''))
      (plain_context ''codex'')" by code_simp
qed

section \<open>Relaxation stays in its layer\<close>

lemma layer_of_inj: "layer_of w n = layer_of w' n' \<longleftrightarrow> w = w' \<and> n = n'"
  by (cases w; cases w') (auto simp: layer_of_def)

lemma workspace_ask_kept:
  assumes "p \<in> set ps" and "indexable p" and "enforced p" and "p_workspace p"
    and "pd_effect (p_decision p) = ASK"
    and "policy_matches p (normalize_action_request r) c"
    and "list_all (\<lambda>q. p_workspace q \<longrightarrow> p_name p \<notin> set (or_else (pd_relaxes (p_decision q)) [])) ps"
  shows "ASK \<le> er_effect (evaluate (new_engine v ps d) r c)"
proof -
  let ?A = "applicable (new_engine v ps d) (normalize_action_request r) c"
  let ?M = "map to_matched_policy ?A"
  have "to_matched_policy p \<in> set ?M"
    using applicable_one [OF assms(1,2,6)] by simp
  moreover have "layer_of True (p_name p) \<notin>
      set (relaxed_layers (filter (\<lambda>m. \<not> mp_observed m) ?M))"
    using applicable_subset [of v ps d "normalize_action_request r" c] assms(7)
    by (auto simp: set_relaxed_layers layer_of_inj list_all_iff)
  ultimately have "to_matched_policy p \<in> set (deciding ?M)"
    using assms(3,4) by (simp add: set_deciding)
  from deciding_bound [OF this] show ?thesis using assms(5) by simp
qed

text \<open>
  What the workspace asks, nothing on this machine relaxes: an enforced workspace
  rule that asks keeps the verdict at an ask or stricter unless an enforced allow the
  workspace itself published, matching the same request, names it.
\<close>

theorem workspace_ask_stands:
  assumes "p \<in> set ps" and "indexable p" and "enforced p" and "p_workspace p"
    and "pd_effect (p_decision p) = ASK"
    and "policy_matches p (normalize_action_request r) c"
    and "list_all (\<lambda>q. p_workspace q \<longrightarrow> p_name p \<notin> set (or_else (pd_relaxes (p_decision q)) [])) ps"
  shows "ASK \<le> er_effect (evaluate (new_engine v ps d) r c)"
  using assms by (rule workspace_ask_kept)

definition workspace_ask_deploy :: policy where
  "workspace_ask_deploy =
     (plain_policy ''deploys'' (match_actions [''vercel.deploy*'']) (plain_decision ASK))
       \<lparr>p_workspace := True\<rparr>"

definition local_allow_deploy :: policy where
  "local_allow_deploy =
     plain_policy ''habit'' (match_actions [''vercel.*''])
       ((plain_decision ALLOW)\<lparr>pd_relaxes := Some [''deploys'']\<rparr>)"

theorem workspace_ask_stands_witness:
  "ASK \<le> er_effect (evaluate (new_engine sample_version [local_allow_deploy, workspace_ask_deploy] None)
     (bare_request ''vercel.deploy'') (plain_context ''cursor''))"
proof (rule workspace_ask_stands)
  show "workspace_ask_deploy \<in> set [local_allow_deploy, workspace_ask_deploy]" by simp
  show "indexable workspace_ask_deploy" by code_simp
  show "enforced workspace_ask_deploy" by code_simp
  show "p_workspace workspace_ask_deploy" by code_simp
  show "pd_effect (p_decision workspace_ask_deploy) = ASK" by code_simp
  show "policy_matches workspace_ask_deploy (normalize_action_request (bare_request ''vercel.deploy''))
      (plain_context ''cursor'')" by code_simp
  show "list_all (\<lambda>q. p_workspace q \<longrightarrow>
      p_name workspace_ask_deploy \<notin> set (or_else (pd_relaxes (p_decision q)) []))
      [local_allow_deploy, workspace_ask_deploy]" by code_simp
qed

section \<open>Observed rules\<close>

lemma set_applicable:
  "set (applicable (new_engine v ps d) r c) =
     {p \<in> set ps. policy_matches p r c \<and>
        (case literal_prefixes (pm_actions (p_match p)) of
           None \<Rightarrow> True | Some pres \<Rightarrow> to_lower (first_segment (rq_action r)) \<in> set pres)}"
  by (auto simp: applicable_def set_candidates)

text \<open>
  A rule on observe is recorded and never decides: the verdict is the one the
  enforced rules alone give, relaxations included.
\<close>

theorem observed_rules_never_decide:
  "er_effect (evaluate (new_engine v ps d) r c) =
   er_effect (evaluate (new_engine v (filter enforced ps) d) r c)"
proof -
  let ?r = "normalize_action_request r"
  let ?M = "\<lambda>ps. map to_matched_policy (applicable (new_engine v ps d) ?r c)"
  have live: "{m \<in> set (?M ps). \<not> mp_observed m} = {m \<in> set (?M (filter enforced ps)). \<not> mp_observed m}"
    by (auto simp: set_applicable)
  then have "set (deciding (?M ps)) = set (deciding (?M (filter enforced ps)))"
    unfolding set_deciding set_relaxed_layers by auto
  note same = this
  show ?thesis unfolding evaluate_Max Let_def same set_empty [symmetric] by (rule refl)
qed

lemma strictest_of_Some:
  assumes "strictest_of es = Some s"
  shows "s \<in> set es" and "e \<in> set es \<Longrightarrow> e \<le> s"
  using keep_strictest_Some [of EFFECT_PRECEDENCE es s] assms
  by (auto simp: strictest_of_keep less_eq_decision_effect_def)

lemma evaluate_fields:
  assumes "\<not> agent_frozen (cx_state c) (cx_agent_name c)"
  shows "er_matched_policies (evaluate e r c) =
           map to_matched_policy (applicable e (normalize_action_request r) c)"
    and "er_shadow_effect (evaluate e r c) =
           shadow_if_stricter (er_effect (evaluate e r c))
             (strictest_of (observed_effects (er_matched_policies (evaluate e r c))))"
  using assms by (auto simp: evaluate_def Let_def frozen_verdict_def split: option.split)

lemma shadow_if_stricter_spec:
  "case shadow_if_stricter a (strictest_of w) of
     None \<Rightarrow> list_all (\<lambda>x. x \<le> a) w
   | Some s \<Rightarrow> a < s \<and> s \<in> set w \<and> list_all (\<lambda>x. x \<le> s) w"
proof (cases "strictest_of w")
  case None
  then have "w = []"
    using keep_strictest_None [of EFFECT_PRECEDENCE w] by (simp only: strictest_of_keep)
  then show ?thesis using None by (simp add: shadow_if_stricter_def)
next
  case (Some s)
  have all: "list_all (\<lambda>x. x \<le> s) w" using strictest_of_Some(2) [OF Some] by (simp add: list_all_iff)
  show ?thesis
  proof (cases "a < s")
    case True
    with all Some strictest_of_Some(1) [OF Some] show ?thesis
      by (simp add: shadow_if_stricter_def is_stricter_less)
  next
    case False
    then have "list_all (\<lambda>x. x \<le> a) w"
      using all by (auto simp: list_all_iff not_less intro: order_trans)
    with False Some show ?thesis by (simp add: shadow_if_stricter_def is_stricter_less)
  qed
qed

text \<open>
  The shadow of a verdict is what the observed rules would have made of it: it is
  there exactly when one of them is stricter than the effect applied, and it is the strictest
  of theirs.
\<close>

theorem shadow_is_strictest_observed:
  "let res = evaluate e r c;
       watching = map mp_effect (filter mp_observed (er_matched_policies res))
   in (case er_shadow_effect res of
         None \<Rightarrow> list_all (\<lambda>x. x \<le> er_effect res) watching
       | Some s \<Rightarrow> er_effect res < s \<and> s \<in> set watching \<and> list_all (\<lambda>x. x \<le> s) watching)"
proof (cases "agent_frozen (cx_state c) (cx_agent_name c)")
  case True
  then show ?thesis by (simp add: evaluate_def frozen_verdict_def Let_def)
next
  case False
  let ?res = "evaluate e r c"
  have "er_shadow_effect ?res =
      shadow_if_stricter (er_effect ?res) (strictest_of (observed_effects (er_matched_policies ?res)))"
    by (rule evaluate_fields(2) [OF False])
  then show ?thesis
    using shadow_if_stricter_spec [of "er_effect ?res" "observed_effects (er_matched_policies ?res)"]
    by (simp only: Let_def observed_effects_def)
qed

section \<open>More rules, no looser verdict\<close>

lemma relaxed_layers_mono:
  assumes "\<And>q. q \<in> set ys \<Longrightarrow> q \<in> set xs \<or> mp_effect q \<noteq> ALLOW \<or> mp_relaxes q = None"
  shows "set (relaxed_layers ys) \<subseteq> set (relaxed_layers xs)"
proof
  fix l
  assume "l \<in> set (relaxed_layers ys)"
  then obtain q n where q: "q \<in> set ys" "mp_effect q = ALLOW"
      "n \<in> set (or_else (mp_relaxes q) [])" "l = layer_of (mp_workspace q) n"
    by (auto simp: set_relaxed_layers)
  then have "q \<in> set xs" using assms by fastforce
  with q show "l \<in> set (relaxed_layers xs)" by (auto simp: set_relaxed_layers)
qed

text \<open>
  Property C6. Under the default of an allow, adding rules anywhere never loosens a verdict,
  unless one added is an allow that says which asks it relaxes.
\<close>

theorem adding_rules_never_loosens:
  assumes "set ps \<subseteq> set qs"
    and "list_all (\<lambda>q. q \<in> set ps \<or> pd_effect (p_decision q) \<noteq> ALLOW \<or> pd_relaxes (p_decision q) = None) qs"
  shows "er_effect (evaluate (new_engine v ps None) r c) \<le> er_effect (evaluate (new_engine v qs None) r c)"
proof -
  let ?r = "normalize_action_request r"
  let ?M = "\<lambda>ps. map to_matched_policy (applicable (new_engine v ps None) ?r c)"
  let ?L = "\<lambda>ps. filter (\<lambda>m. \<not> mp_observed m) (?M ps)"
  have sub: "set (?M ps) \<subseteq> set (?M qs)"
    using assms(1) by (auto simp: set_applicable)
  have "set (relaxed_layers (?L qs)) \<subseteq> set (relaxed_layers (?L ps))"
  proof (rule relaxed_layers_mono)
    fix q
    assume "q \<in> set (?L qs)"
    then show "q \<in> set (?L ps) \<or> mp_effect q \<noteq> ALLOW \<or> mp_relaxes q = None"
      using assms(2) by (auto simp: set_applicable list_all_iff)
  qed
  then have D: "set (deciding (?M ps)) \<subseteq> set (deciding (?M qs))"
    using sub by (auto simp: set_deciding)
  show ?thesis
  proof (cases "deciding (?M ps) = [] \<or> agent_frozen (cx_state c) (cx_agent_name c)")
    case True
    then show ?thesis
      by (auto simp: evaluate_Max Let_def)
  next
    case False
    with D have "deciding (?M qs) \<noteq> []" by auto
    moreover have "Max (mp_effect ` set (deciding (?M ps))) \<le> Max (mp_effect ` set (deciding (?M qs)))"
      using False D by (intro Max_mono) auto
    ultimately show ?thesis
      using False by (simp add: evaluate_Max Let_def)
  qed
qed

theorem adding_rules_never_loosens_witness:
  "ASK \<le> er_effect (evaluate (new_engine sample_version [allow_git, workspace_ask_deploy] None)
     (bare_request ''vercel.deploy'') (plain_context ''cursor''))"
proof -
  have "set [workspace_ask_deploy] \<subseteq> set [allow_git, workspace_ask_deploy]" by simp
  moreover have "list_all (\<lambda>q. q \<in> set [workspace_ask_deploy] \<or> pd_effect (p_decision q) \<noteq> ALLOW \<or>
      pd_relaxes (p_decision q) = None) [allow_git, workspace_ask_deploy]"
    by (simp add: allow_git_def plain_policy_def plain_decision_def)
  ultimately have "er_effect (evaluate (new_engine sample_version [workspace_ask_deploy] None)
      (bare_request ''vercel.deploy'') (plain_context ''cursor'')) \<le>
    er_effect (evaluate (new_engine sample_version [allow_git, workspace_ask_deploy] None)
      (bare_request ''vercel.deploy'') (plain_context ''cursor''))"
    by (rule adding_rules_never_loosens)
  moreover have "er_effect (evaluate (new_engine sample_version [workspace_ask_deploy] None)
      (bare_request ''vercel.deploy'') (plain_context ''cursor'')) = ASK" by code_simp
  ultimately show ?thesis by simp
qed

section \<open>Where the index and the order show\<close>

definition deny_all_but_git :: policy where
  "deny_all_but_git = plain_policy ''only-git'' (match_actions [''!git.*'']) (plain_decision DENY)"

text \<open>
  A rule of exclusions only is met by every action it does not name, yet the index
  files it under the text of its own exclusion, so the engine never tries it and the default
  decides: an allow where the rule denies.
\<close>

theorem exclusion_only_rule_is_unreachable:
  "policy_matches deny_all_but_git (bare_request ''vercel.deploy'') (plain_context ''cursor'') \<and>
   er_effect (evaluate (new_engine sample_version [deny_all_but_git] None)
     (bare_request ''vercel.deploy'') (plain_context ''cursor'')) = ALLOW"
  by (intro conjI; code_simp)

definition ask_everything :: policy where
  "ask_everything = plain_policy ''ask-all'' (match_actions [''*'']) (plain_decision ASK)"

definition ask_deploys :: policy where
  "ask_deploys = plain_policy ''ask-deploys'' (match_actions [''vercel.*'']) (plain_decision ASK)"

text \<open>
  Two rules of one effect do not tie to the earlier of the rule file: a rule with a
  literal first segment is tried before any rule that starts with a star, wherever it stands.
\<close>

theorem ties_go_to_the_bucket:
  "er_rule (evaluate (new_engine sample_version [ask_everything, ask_deploys] None)
     (bare_request ''vercel.deploy'') (plain_context ''cursor'')) =
   Some \<lparr>rr_id = ''ask-deploys'', rr_name = ''ask-deploys'', rr_version = ''v''\<rparr>"
  by code_simp

definition ask_named_git :: policy where
  "ask_named_git = (plain_policy ''git'' (match_actions [''git.*'']) (plain_decision ASK))\<lparr>p_id := Some ''asks''\<rparr>"

definition deny_named_git :: policy where
  "deny_named_git = (plain_policy ''git'' (match_actions [''git.push*'']) (plain_decision DENY))\<lparr>p_id := Some ''denies''\<rparr>"

text \<open>
  The rule a verdict cites is found again by its name, so with two rules of one name
  the verdict of the second is cited as the first.
\<close>

theorem cited_rule_is_first_of_its_name:
  "let res = evaluate (new_engine sample_version [ask_named_git, deny_named_git] None)
               (bare_request ''git.push'') (plain_context ''codex'')
   in er_effect res = DENY \<and> map_option rr_id (er_rule res) = Some ''asks''"
  by code_simp

end
