(* ===== verification/Clock.thy ===== *)
theory Clock
  imports TimeWindow
begin

text \<open>
  How the sources write numbers, instants and spans as text: \<open>Number.prototype.toString\<close>,
  \<open>Date.prototype.toISOString\<close> and \<open>packages/core/src/domain/duration-text.ts\<close>.
\<close>

section \<open>Numbers\<close>

definition digit_char :: "nat \<Rightarrow> char" where
  "digit_char n = char_of (if n < 10 then 48 + n else 87 + n)"

text \<open>\<open>n.toString(base)\<close> for a whole number that is not negative.\<close>

fun radix_text :: "nat \<Rightarrow> nat \<Rightarrow> string" where
  "radix_text base n =
     (if base < 2 \<or> n < base then [digit_char n]
      else radix_text base (n div base) @ [digit_char (n mod base)])"

declare radix_text.simps [simp del]

definition nat_text :: "nat \<Rightarrow> string" where
  "nat_text n = radix_text 10 n"

definition int_text :: "int \<Rightarrow> string" where
  "int_text i = (if i < 0 then CHR ''-'' # nat_text (nat (- i)) else nat_text (nat i))"

definition int_radix_text :: "nat \<Rightarrow> int \<Rightarrow> string" where
  "int_radix_text base i =
     (if i < 0 then CHR ''-'' # radix_text base (nat (- i)) else radix_text base (nat i))"

text \<open>Zero filled on the left to a width, as the fields of a time stamp are.\<close>

definition padded :: "nat \<Rightarrow> int \<Rightarrow> string" where
  "padded width i = (let t = nat_text (nat i) in replicate (width - length t) CHR ''0'' @ t)"

definition round_div :: "int \<Rightarrow> int \<Rightarrow> int" where
  "round_div a b = (2 * a + b) div (2 * b)"

section \<open>Instants\<close>

text \<open>Year, month and day of a day counted from the epoch, in the Gregorian calendar.\<close>

definition civil_of_day :: "int \<Rightarrow> int \<times> int \<times> int" where
  "civil_of_day day =
     (let z = day + 719468;
          era = z div 146097;
          doe = z mod 146097;
          yoe = (doe - doe div 1460 + doe div 36524 - doe div 146096) div 365;
          doy = doe - (365 * yoe + yoe div 4 - yoe div 100);
          mp = (5 * doy + 2) div 153;
          d = doy - (153 * mp + 2) div 5 + 1;
          m = (if mp < 10 then mp + 3 else mp - 9);
          y = yoe + era * 400 + (if m \<le> 2 then 1 else 0)
      in (y, m, d))"

definition iso_text :: "time \<Rightarrow> string" where
  "iso_text t =
     (let (y, m, d) = civil_of_day (t div DAY_MS); rest = t mod DAY_MS in
      padded 4 y @ ''-'' @ padded 2 m @ ''-'' @ padded 2 d @ ''T'' @
      padded 2 (rest div HOUR_MS) @ '':'' @ padded 2 (rest div MINUTE_MS mod 60) @ '':'' @
      padded 2 (rest div SECOND_MS mod 60) @ ''.'' @ padded 3 (rest mod SECOND_MS) @ ''Z'')"

section \<open>Spans\<close>

record span_unit =
  su_unit_ms :: int
  su_suffix :: string
  su_below_ms :: "int option"

definition span_unit_of :: "int \<Rightarrow> string \<Rightarrow> int option \<Rightarrow> span_unit" where
  "span_unit_of u s b = \<lparr>su_unit_ms = u, su_suffix = s, su_below_ms = b\<rparr>"

definition IN_MINUTES :: "span_unit list" where
  "IN_MINUTES = [span_unit_of MINUTE_MS '' min'' None]"

definition IN_MINUTES_THEN_HOURS :: "span_unit list" where
  "IN_MINUTES_THEN_HOURS =
     [span_unit_of MINUTE_MS '' min'' (Some HOUR_MS), span_unit_of HOUR_MS ''h'' None]"

definition IN_SECONDS_THEN_MINUTES_THEN_HOURS :: "span_unit list" where
  "IN_SECONDS_THEN_MINUTES_THEN_HOURS =
     [span_unit_of SECOND_MS ''s'' (Some (90 * SECOND_MS)),
      span_unit_of MINUTE_MS ''m'' (Some (90 * MINUTE_MS)),
      span_unit_of HOUR_MS ''h'' None]"

definition describe_span :: "int \<Rightarrow> span_unit list \<Rightarrow> string" where
  "describe_span ms units =
     (case first_some
         (List.find (\<lambda>u. case su_below_ms u of None \<Rightarrow> True | Some below \<Rightarrow> ms < below) units)
         (if units = [] then None else Some (last units)) of
        None \<Rightarrow> int_text ms @ ''ms''
      | Some u \<Rightarrow> int_text (round_div ms (su_unit_ms u)) @ su_suffix u)"

lemma iso_text_epoch: "iso_text 0 = ''1970-01-01T00:00:00.000Z''"
  by code_simp

lemma iso_text_leap_day: "iso_text 1709208000123 = ''2024-02-29T12:00:00.123Z''"
  by code_simp

lemma describe_span_samples:
  "describe_span 5400000 IN_SECONDS_THEN_MINUTES_THEN_HOURS = ''2h''"
  "describe_span (7 * MINUTE_MS) IN_MINUTES_THEN_HOURS = ''7 min''"
  by code_simp+

end
