(* ===== verification/Enforcement.thy ===== *)
theory Enforcement
  imports PolicyVerdict Clock "HOL-Library.List_Lexorder"
begin

text \<open>
  What stands around the rules: the ramp of modes per environment
  (\<open>packages/core/src/domain/enforcement.ts\<close>), the overlays that hold for a while
  (\<open>policy/overlay.ts\<close>) and the asks an allow has to name (\<open>policy/relaxing.ts\<close>).
\<close>

section \<open>Modes per environment\<close>

record environment_modes =
  em_default :: "enforcement_mode option"
  em_environments :: "(string \<times> enforcement_mode) list option"

record applied_decision =
  ad_effect :: decision_effect
  ad_shadow_effect :: "decision_effect option"

fun enforcement_mode_text :: "enforcement_mode \<Rightarrow> string" where
  "enforcement_mode_text OFF = ''off''"
| "enforcement_mode_text OBSERVE = ''observe''"
| "enforcement_mode_text ADVISE = ''advise''"
| "enforcement_mode_text ENFORCE = ''enforce''"

definition is_enforcement_mode :: "json \<Rightarrow> bool" where
  "is_enforcement_mode value =
     (case value of
        JStr s \<Rightarrow> s \<in> set (map enforcement_mode_text [OFF, OBSERVE, ADVISE, ENFORCE])
      | _ \<Rightarrow> False)"

definition resolve_enforcement_mode :: "environment_modes \<Rightarrow> string option \<Rightarrow> enforcement_mode" where
  "resolve_enforcement_mode modes environment =
     (let fallback = or_else (em_default modes) DEFAULT_ENFORCEMENT_MODE in
      case environment of
        None \<Rightarrow> fallback
      | Some e \<Rightarrow>
          (case em_environments modes of
             None \<Rightarrow> fallback
           | Some configured \<Rightarrow>
               (case List.find (\<lambda>name. to_lower name = to_lower e) (map fst configured) of
                  None \<Rightarrow> fallback
                | Some match \<Rightarrow> or_else (map_of configured match) fallback)))"

definition apply_enforcement_mode :: "decision_effect \<Rightarrow> enforcement_mode \<Rightarrow> applied_decision" where
  "apply_enforcement_mode verdict mode =
     (if mode = ENFORCE then \<lparr>ad_effect = verdict, ad_shadow_effect = None\<rparr>
      else if verdict = ALLOW then \<lparr>ad_effect = ALLOW, ad_shadow_effect = None\<rparr>
      else \<lparr>ad_effect = ALLOW, ad_shadow_effect = Some verdict\<rparr>)"

text \<open>
  A mode only ever loosens, and never in silence: the effect applied is the verdict
  or an allow, the verdict it kept from being applied is recorded beside it, and where no mode
  is configured for an environment, nor a default, the verdict is applied as it is. The name of
  an environment is read without its case.
\<close>

theorem mode_keeps_the_verdict:
  "let applied = apply_enforcement_mode verdict (resolve_enforcement_mode modes environment)
   in ad_effect applied \<le> verdict \<and>
      or_else (ad_shadow_effect applied) (ad_effect applied) = verdict \<and>
      ad_effect (apply_enforcement_mode verdict
        (resolve_enforcement_mode \<lparr>em_default = None, em_environments = None\<rparr> environment)) = verdict \<and>
      resolve_enforcement_mode modes (map_option to_lower environment) =
        resolve_enforcement_mode modes environment"
proof -
  have "resolve_enforcement_mode \<lparr>em_default = None, em_environments = None\<rparr> environment = ENFORCE"
    by (simp add: resolve_enforcement_mode_def DEFAULT_ENFORCEMENT_MODE_def split: option.split)
  moreover have "resolve_enforcement_mode modes (map_option to_lower environment) =
      resolve_enforcement_mode modes environment"
    by (cases environment) (simp_all add: resolve_enforcement_mode_def Let_def split: option.split)
  ultimately show ?thesis
    by (auto simp: apply_enforcement_mode_def Let_def)
qed

section \<open>Overlays\<close>

datatype overlay_kind = OV_FREEZE | OV_INCIDENT

fun overlay_kind_text :: "overlay_kind \<Rightarrow> string" where
  "overlay_kind_text OV_FREEZE = ''freeze''"
| "overlay_kind_text OV_INCIDENT = ''incident''"

record overlay =
  ov_id :: string
  ov_kind :: overlay_kind
  ov_subject :: string
  ov_reason :: string
  ov_declared_at :: time
  ov_valid_until :: time
  ov_source :: string
  ov_lifted_at :: "time option"

text \<open>An overlay as somebody wrote it, before it is checked; \<open>parse_date\<close> is \<open>Date.parse\<close>.\<close>

record partial_overlay =
  po_subject :: "string option"
  po_reason :: "string option"
  po_valid_until :: "string option"

definition blank :: "string option \<Rightarrow> bool" where
  "blank field = (case field of None \<Rightarrow> True | Some s \<Rightarrow> trim s = [])"

definition validate_overlay :: "(string \<Rightarrow> time option) \<Rightarrow> partial_overlay \<Rightarrow> string list" where
  "validate_overlay parse_date given =
     (if blank (po_subject given) then [''an overlay must name what it is about''] else []) @
     (case po_valid_until given of
        None \<Rightarrow> [''an overlay must say when it ends, because one that never expires gets ignored'']
      | Some until \<Rightarrow>
          if parse_date until = None then [''validUntil must be an ISO 8601 timestamp''] else []) @
     (if blank (po_reason given)
      then [''an overlay must say why, or the refusal cannot explain itself''] else [])"

definition overlay_stands :: "time \<Rightarrow> overlay \<Rightarrow> bool" where
  "overlay_stands moment o' =
     (if (case ov_lifted_at o' of None \<Rightarrow> False | Some lifted \<Rightarrow> lifted \<le> moment) then False
      else ov_declared_at o' \<le> moment \<and> moment < ov_valid_until o')"

definition in_force :: "overlay list \<Rightarrow> time \<Rightarrow> overlay list" where
  "in_force overlays moment = filter (overlay_stands moment) overlays"

definition overlay_label :: "overlay \<Rightarrow> string" where
  "overlay_label o' = overlay_kind_text (ov_kind o') @ '':'' @ ov_subject o'"

definition state_labels_of :: "overlay list \<Rightarrow> time \<Rightarrow> string list" where
  "state_labels_of overlays moment = map overlay_label (in_force overlays moment)"

definition state_version_of :: "overlay list \<Rightarrow> time \<Rightarrow> string" where
  "state_version_of overlays moment =
     (let labels = sort (state_labels_of overlays moment) in
      if labels = [] then ''none'' else join_with '','' labels)"

definition describe_overlay :: "overlay \<Rightarrow> time \<Rightarrow> string" where
  "describe_overlay o' moment =
     (let minutes = ms_to_minutes (ov_valid_until o' - moment);
          remaining = (if minutes \<le> 0 then ''expired''
                       else describe_span (minutes_to_ms minutes) IN_MINUTES_THEN_HOURS @ '' left'')
      in overlay_label o' @ '': '' @ ov_reason o' @ '' ('' @ remaining @ '', '' @ ov_source o' @ '')'')"

definition DEFAULT_FREEZE_MINUTES :: int where "DEFAULT_FREEZE_MINUTES = 120"

record freeze_input =
  fz_subject :: string
  fz_reason :: string
  fz_minutes :: int
  fz_now :: time
  fz_source :: string

definition freeze_for :: "freeze_input \<Rightarrow> overlay" where
  "freeze_for given =
     \<lparr>ov_id = ''ovl_'' @ int_radix_text 36 (fz_now given) @ ''_'' @ fz_subject given,
      ov_kind = OV_FREEZE, ov_subject = fz_subject given, ov_reason = fz_reason given,
      ov_declared_at = fz_now given,
      ov_valid_until = fz_now given + minutes_to_ms (fz_minutes given),
      ov_source = fz_source given, ov_lifted_at = None\<rparr>"

lemma set_in_force: "o' \<in> set (in_force os t) \<longleftrightarrow> o' \<in> set os \<and> overlay_stands t o'"
  by (simp add: in_force_def)

lemma carved_out_state: "carved_out u q (c\<lparr>cx_state := s\<rparr>) = carved_out u q c"
  by (simp add: carved_out_def carve_applies_def split: option.split)

lemma evaluate_no_facts:
  "evaluate e r (c\<lparr>cx_state := Some []\<rparr>) = evaluate e r (c\<lparr>cx_state := None\<rparr>)"
proof -
  have "matches_state x (Some []) = matches_state x None" for x
    by (auto simp: matches_state_def split: option.split)
  then have "policy_matches p q (c\<lparr>cx_state := Some []\<rparr>) = policy_matches p q (c\<lparr>cx_state := None\<rparr>)" for p q
    unfolding policy_matches_def Let_def carved_out_state by simp
  then have app: "applicable e q (c\<lparr>cx_state := Some []\<rparr>) = applicable e q (c\<lparr>cx_state := None\<rparr>)" for q
    by (simp add: applicable_def)
  show ?thesis
    unfolding evaluate_def app Let_def frozen_verdict_def agent_frozen_def
    by (simp split: option.split)
qed

text \<open>
  A freeze on an agent stops everything it asks for, whatever the rules allow, from
  the moment it is declared up to the minute it was given and not a moment longer: after that
  the rules decide again as if it had never been.
\<close>

theorem freeze_stops_and_lapses:
  "let freeze = freeze_for (i\<lparr>fz_subject := AGENT_SUBJECT_PREFIX @ cx_agent_name c\<rparr>)
   in er_effect (evaluate e r (c\<lparr>cx_state := Some (state_labels_of [freeze] t)\<rparr>)) =
      (if fz_now i \<le> t \<and> t < fz_now i + minutes_to_ms (fz_minutes i) then DENY
       else er_effect (evaluate e r (c\<lparr>cx_state := None\<rparr>)))"
proof -
  let ?f = "freeze_for (i\<lparr>fz_subject := AGENT_SUBJECT_PREFIX @ cx_agent_name c\<rparr>)"
  let ?in = "fz_now i \<le> t \<and> t < fz_now i + minutes_to_ms (fz_minutes i)"
  have stands: "overlay_stands t ?f = ?in"
    by (simp add: overlay_stands_def freeze_for_def)
  have label: "overlay_label ?f = ''freeze:'' @ AGENT_SUBJECT_PREFIX @ cx_agent_name c"
    by (simp add: overlay_label_def freeze_for_def)
  show ?thesis
  proof (cases ?in)
    case True
    then have "state_labels_of [?f] t = [overlay_label ?f]"
      by (simp add: state_labels_of_def in_force_def stands)
    then have "agent_frozen (Some (state_labels_of [?f] t)) (cx_agent_name c)"
      by (simp add: label agent_frozen_def freeze_labels_def)
    then show ?thesis
      using True by (simp add: evaluate_def frozen_verdict_def)
  next
    case False
    then have "state_labels_of [?f] t = []"
      by (simp add: state_labels_of_def in_force_def stands)
    with False show ?thesis by (simp only: Let_def evaluate_no_facts if_False)
  qed
qed

section \<open>The asks an allow names\<close>

definition asks_to_relax :: "policy list \<Rightarrow> string \<Rightarrow> string list" where
  "asks_to_relax policies action =
     map p_name (filter (\<lambda>policy.
       pd_effect (p_decision policy) = ASK \<and>
       pd_mode (p_decision policy) \<noteq> Some PM_OBSERVE \<and>
       \<not> p_workspace policy \<and>
       matches_any (Some (pm_actions (p_match policy))) (Some action)) policies)"

text \<open>
  An allow written on this machine that names the asks \<open>asks_to_relax\<close> finds takes
  effect: where it matches, the verdict is an allow unless a deny or a question of the
  workspace matches too.
\<close>

theorem relaxing_allow_takes_effect:
  assumes "indexable q" and "enforced q" and "\<not> p_workspace q"
    and "p_decision q = (plain_decision ALLOW)
           \<lparr>pd_relaxes := Some (asks_to_relax ps (rq_action (normalize_action_request r)))\<rparr>"
    and "policy_matches q (normalize_action_request r) c"
    and "list_all (\<lambda>p. pd_effect (p_decision p) = ALLOW \<or>
           pd_effect (p_decision p) = ASK \<and> \<not> p_workspace p \<or>
           \<not> policy_matches p (normalize_action_request r) c) ps"
    and "\<not> agent_frozen (cx_state c) (cx_agent_name c)"
  shows "er_effect (evaluate (new_engine v (ps @ [q]) d) r c) = ALLOW"
proof -
  let ?r = "normalize_action_request r"
  let ?A = "applicable (new_engine v (ps @ [q]) d) ?r c"
  let ?M = "map to_matched_policy ?A"
  have q: "q \<in> set ?A" by (rule applicable_one) (use assms in auto)
  have qm: "to_matched_policy q \<in> set (deciding ?M)"
    using q assms(2,4) by (simp add: set_deciding plain_decision_def)
  have relaxed: "layer_of False n \<in> set (relaxed_layers (filter (\<lambda>m. \<not> mp_observed m) ?M))"
    if "n \<in> set (asks_to_relax ps (rq_action ?r))" for n
    unfolding set_relaxed_layers
    using that q assms(2,3,4)
    by (auto simp: plain_decision_def intro!: exI [of _ "to_matched_policy q"])
  have "mp_effect m = ALLOW" if m: "m \<in> set (deciding ?M)" for m
  proof -
    from m obtain p where p: "p \<in> set ?A" "m = to_matched_policy p" "enforced p"
      by (auto simp: set_deciding)
    have pm: "p \<in> set (ps @ [q])" "policy_matches p ?r c"
      using p(1) applicable_subset by blast+
    show ?thesis
    proof (cases "p = q \<or> pd_effect (p_decision p) = ALLOW")
      case True
      with p assms(4) show ?thesis by (auto simp: plain_decision_def)
    next
      case False
      with pm assms(6) have ask: "pd_effect (p_decision p) = ASK" "\<not> p_workspace p"
        by (auto simp: list_all_iff)
      with pm p(3) False have "p_name p \<in> set (asks_to_relax ps (rq_action ?r))"
        using policy_matches_fits [OF pm(2)]
        by (auto simp: asks_to_relax_def enforced_def action_fits_def)
      from relaxed [OF this] m p(2) ask show ?thesis by (simp add: set_deciding)
    qed
  qed
  then have "mp_effect ` set (deciding ?M) = {ALLOW}" using qm by force
  moreover have "deciding ?M \<noteq> []" using qm by auto
  ultimately show ?thesis using assms(7) by (simp add: evaluate_Max Let_def)
qed

definition ask_git_push :: policy where
  "ask_git_push = plain_policy ''pushes'' (match_actions [''git.push*'']) (plain_decision ASK)"

definition learned_push :: policy where
  "learned_push = plain_policy ''learned-push'' (match_actions [''git.push''])
     ((plain_decision ALLOW)\<lparr>pd_relaxes := Some (asks_to_relax [ask_git_push] ''git.push'')\<rparr>)"

theorem relaxing_allow_takes_effect_witness:
  "er_effect (evaluate (new_engine sample_version [ask_git_push, learned_push] (Some DENY))
     (bare_request ''git.push'') (plain_context ''claude-code'')) = ALLOW"
proof -
  have "er_effect (evaluate (new_engine sample_version ([ask_git_push] @ [learned_push]) (Some DENY))
     (bare_request ''git.push'') (plain_context ''claude-code'')) = ALLOW"
  proof (rule relaxing_allow_takes_effect)
    show "indexable learned_push" by code_simp
    show "enforced learned_push" by code_simp
    show "\<not> p_workspace learned_push" by code_simp
    show "p_decision learned_push = (plain_decision ALLOW)\<lparr>pd_relaxes := Some (asks_to_relax [ask_git_push]
        (rq_action (normalize_action_request (bare_request ''git.push''))))\<rparr>" by code_simp
    show "policy_matches learned_push (normalize_action_request (bare_request ''git.push''))
        (plain_context ''claude-code'')" by code_simp
    show "list_all (\<lambda>p. pd_effect (p_decision p) = ALLOW \<or>
           pd_effect (p_decision p) = ASK \<and> \<not> p_workspace p \<or>
           \<not> policy_matches p (normalize_action_request (bare_request ''git.push''))
              (plain_context ''claude-code'')) [ask_git_push]" by code_simp
    show "\<not> agent_frozen (cx_state (plain_context ''claude-code'')) (cx_agent_name (plain_context ''claude-code''))"
      by code_simp
  qed
  then show ?thesis by simp
qed

end
