(* ===== verification/WorkModes.thy ===== *)
theory WorkModes
  imports PolicyVerdict
begin

text \<open>
  \<open>packages/core/src/policy/modes.ts\<close>: the two ways of working, each a handful of ordinary
  rules. The theorems say what the rules of a mode make of a request in any rule set that holds
  them, whatever else is in it.
\<close>

section \<open>The rules of a mode\<close>

datatype work_mode = INVESTIGATE | AUTONOMOUS

fun work_mode_text :: "work_mode \<Rightarrow> string" where
  "work_mode_text INVESTIGATE = ''investigate''"
| "work_mode_text AUTONOMOUS = ''autonomous''"

definition WORK_MODES :: "work_mode list" where
  "WORK_MODES = [INVESTIGATE, AUTONOMOUS]"

definition MODE_RULE_PREFIX :: string where
  "MODE_RULE_PREFIX = ''mode-''"

definition OUTSIDE :: "string list" where
  "OUTSIDE = ''*'' # map (\<lambda>each. ''!'' @ each @ ''.*'') (LOCAL_NAMESPACES @ [''package''])"

definition CHANGES :: "string list" where
  "CHANGES = [TC_WRITE, TC_DESTRUCTIVE, TC_COMMUNICATION]"

definition OUTSIDE_WORKSPACE :: string where
  "OUTSIDE_WORKSPACE = join_with ''/'' [''!{workspace}'', ''**'']"

definition PRODUCTION_NAMES :: "string list" where
  "PRODUCTION_NAMES = [''prod*'', ''production'', ''live'']"

definition mode_rule ::
  "work_mode \<Rightarrow> string \<Rightarrow> string \<Rightarrow> policy_match \<Rightarrow> policy_decision \<Rightarrow> policy" where
  "mode_rule mode tag description m decision =
     (plain_policy (MODE_RULE_PREFIX @ work_mode_text mode @ ''-'' @ tag) m decision)
       \<lparr>p_description := Some description\<rparr>"

definition INVESTIGATE_REASON :: string where
  "INVESTIGATE_REASON = ''investigation mode: read anything, change nothing outside this machine''"

definition INVESTIGATE_ALTERNATIVE :: alternative where
  "INVESTIGATE_ALTERNATIVE =
     \<lparr>al_action = ''report'', al_resource = None,
      al_note = ''Say what you found and what you would change; a person makes the change.''\<rparr>"

definition refused_in_investigation :: "string \<Rightarrow> string \<Rightarrow> policy_match \<Rightarrow> policy" where
  "refused_in_investigation tag description m =
     mode_rule INVESTIGATE tag description m
       ((plain_decision DENY)
          \<lparr>pd_reason := Some INVESTIGATE_REASON, pd_alternative := Some INVESTIGATE_ALTERNATIVE\<rparr>)"

definition investigate :: "policy list" where
  "investigate =
     [refused_in_investigation ''outside'' ''Any change outside this machine''
        ((match_actions OUTSIDE)\<lparr>pm_classes := Some CHANGES\<rparr>),
      refused_in_investigation ''web'' ''A web request that changes something''
        ((match_actions [''http.request''])
           \<lparr>pm_arguments := Some [(HTTP_METHOD_ARGUMENT, CHANGING_HTTP_METHODS)]\<rparr>),
      refused_in_investigation ''push'' ''Pushing to a remote'' (match_actions [''git.push*'']),
      refused_in_investigation ''elsewhere'' ''A write outside the workspace''
        ((match_actions [''filesystem.write'', ''filesystem.delete''])
           \<lparr>pm_targets := Some [OUTSIDE_WORKSPACE]\<rparr>),
      mode_rule INVESTIGATE ''unclassified''
        ''Something outside this machine nothing could classify''
        ((match_actions OUTSIDE)\<lparr>pm_classes := Some [TC_UNKNOWN]\<rparr>)
        ((plain_decision ASK)\<lparr>pd_reason := Some
           ''investigation mode: this could change something, and nothing here could say''\<rparr>)]"

definition AUTONOMOUS_ALTERNATIVE :: alternative where
  "AUTONOMOUS_ALTERNATIVE =
     \<lparr>al_action = ''report'', al_resource = None,
      al_note = ''Finish what you can and leave this step for a person.''\<rparr>"

definition refused_when_autonomous :: "string \<Rightarrow> string \<Rightarrow> string \<Rightarrow> policy_match \<Rightarrow> policy" where
  "refused_when_autonomous tag description reason m =
     mode_rule AUTONOMOUS tag description m
       ((plain_decision DENY)
          \<lparr>pd_reason := Some (''autonomous mode: '' @ reason),
           pd_alternative := Some AUTONOMOUS_ALTERNATIVE\<rparr>)"

definition autonomous :: "policy list" where
  "autonomous =
     [refused_when_autonomous ''consequential'' ''Moving money, deploying, or handing out authority''
        ''money, deploys and authority stay with a person''
        ((match_actions OUTSIDE)\<lparr>pm_capabilities :=
           Some (map capability_text [Cap_transfer, Cap_deploy, Cap_admin])\<rparr>),
      refused_when_autonomous ''irreversible'' ''Deleting something outside this machine''
        ''nothing outside this machine is deleted without a person''
        ((match_actions OUTSIDE)\<lparr>pm_classes := Some [TC_DESTRUCTIVE]\<rparr>),
      refused_when_autonomous ''production'' ''Any change in an environment named like production''
        ''production is read, never changed''
        ((match_actions OUTSIDE)
           \<lparr>pm_environments := Some PRODUCTION_NAMES, pm_classes := Some CHANGES\<rparr>),
      refused_when_autonomous ''elsewhere'' ''Deleting a file outside the workspace''
        ''the workspace is where the work is''
        ((match_actions [''filesystem.delete''])\<lparr>pm_targets := Some [OUTSIDE_WORKSPACE]\<rparr>)]"

definition mode_policies :: "work_mode \<Rightarrow> policy list" where
  "mode_policies mode = (if mode = INVESTIGATE then investigate else autonomous)"

definition mode_of :: "policy list \<Rightarrow> work_mode option" where
  "mode_of policies =
     List.find (\<lambda>mode. list_ex (\<lambda>each.
       starts_with (MODE_RULE_PREFIX @ work_mode_text mode @ ''-'') (p_name each)) policies) WORK_MODES"

definition is_work_mode :: "string \<Rightarrow> bool" where
  "is_work_mode value = (value \<in> set (map work_mode_text WORK_MODES))"

section \<open>What the patterns of a mode reach\<close>

text \<open>An action outside: its namespace is none of the local ones, in either case.\<close>

definition outside_action :: "string \<Rightarrow> bool" where
  "outside_action a \<longleftrightarrow> to_lower (first_segment a) \<notin> set (LOCAL_NAMESPACES @ [''package''])"

lemma namespace_pattern:
  assumes "matches_pattern (ns @ ''.*'') a" and "WILDCARD \<notin> set ns" and "CHR ''.'' \<notin> set ns"
  shows "to_lower (first_segment a) = to_lower ns"
proof -
  have fs: "first_segment (ns @ ''.*'') = ns"
    using assms(3) first_part_append_free [of "CHR ''.''" ns "''*''"]
    by (simp add: first_segment_def)
  show ?thesis
    using matches_same_prefix [OF assms(1)] assms(2) unfolding fs by simp
qed

lemma local_names:
  "list_all (\<lambda>ns. WILDCARD \<notin> set ns \<and> CHR ''.'' \<notin> set ns \<and> to_lower ns = ns \<and>
     \<not> is_exclusion ns) (LOCAL_NAMESPACES @ [''package''])"
  by code_simp

lemma outside_matches:
  assumes "outside_action a"
  shows "matches_any (Some OUTSIDE) (Some a)"
proof -
  have "\<not> excludes OUTSIDE a"
  proof
    assume "excludes OUTSIDE a"
    then obtain p where p: "p \<in> set OUTSIDE" "is_exclusion p" "matches_pattern (tl p) a"
      by (auto simp: excludes_def)
    then obtain ns where ns: "ns \<in> set (LOCAL_NAMESPACES @ [''package''])" "p = ''!'' @ ns @ ''.*''"
      unfolding OUTSIDE_def by (auto simp: is_exclusion_def starts_with_def EXCLUDE_def)
    from ns(2) p(3) have ns2: "matches_pattern (ns @ ''.*'') a" by simp
    have "to_lower (first_segment a) = ns"
      using namespace_pattern [OF ns2] ns(1) local_names by (auto simp: list_all_iff)
    with ns(1) assms show False by (simp add: outside_action_def)
  qed
  moreover have "admits OUTSIDE a"
  proof -
    have "matches_pattern ''*'' a" using matches_star [of a] by (simp add: WILDCARD_def)
    then show ?thesis by (auto simp: admits_def OUTSIDE_def is_exclusion_def starts_with_def EXCLUDE_def)
  qed
  ultimately show ?thesis by (simp add: matches_any_Some)
qed

section \<open>What a mode holds a session to\<close>

lemma mode_rule_simps [simp]:
  "p_match (mode_rule m s t pm d) = pm" "p_decision (mode_rule m s t pm d) = d"
  "p_project (mode_rule m s t pm d) = None" "p_workspace (mode_rule m s t pm d) = False"
  by (simp_all add: mode_rule_def plain_policy_def)

lemmas mode_rules = refused_in_investigation_def refused_when_autonomous_def

lemmas one_rule = policy_matches_def in_project_scope_def matches_all_arguments_def
  matches_content_def matches_amount_def matches_scope_def matches_state_def carved_out_def
  with_workspace_def matches_any_time_window_def match_actions_def Let_def

lemma OUTSIDE_indexable: "pm_actions (p_match p) = OUTSIDE \<Longrightarrow> indexable p"
proof -
  have "\<not> only_exclusions OUTSIDE" by code_simp
  then show "pm_actions (p_match p) = OUTSIDE \<Longrightarrow> indexable p" by (simp add: indexable_def)
qed

lemma literal_class:
  assumes "list_all (\<lambda>p. WILDCARD \<notin> set p \<and> \<not> is_exclusion p) ps" and "v \<in> set ps"
  shows "matches_any (Some ps) (Some v)"
proof -
  have "admits ps v"
    using assms by (auto simp: admits_def list_all_iff matches_literal)
  moreover have "\<not> excludes ps v" using assms(1) by (auto simp: excludes_def list_all_iff)
  ultimately show ?thesis by (simp add: matches_any_Some)
qed

lemma plain_classes:
  "list_all (\<lambda>p. WILDCARD \<notin> set p \<and> \<not> is_exclusion p) CHANGES"
  "list_all (\<lambda>p. WILDCARD \<notin> set p \<and> \<not> is_exclusion p) [TC_DESTRUCTIVE]"
  "list_all (\<lambda>p. WILDCARD \<notin> set p \<and> \<not> is_exclusion p)
     (map capability_text [Cap_transfer, Cap_deploy, Cap_admin])"
  by code_simp+

lemma normalize_tool_class [simp]: "rq_tool_class (normalize_action_request r) = rq_tool_class r"
  by (simp add: normalize_action_request_def)

text \<open>A deny of a mode on actions outside decides once its own condition holds.\<close>

lemma outside_rule_decides:
  assumes "mode_rule m s t ((match_actions OUTSIDE)\<lparr>pm_classes := cl, pm_capabilities := ca\<rparr>) d \<in> set ps"
    and "pd_effect d = DENY" and "pd_mode d = None"
    and "outside_action (rq_action (normalize_action_request r))"
    and "matches_any cl (Some (or_else (rq_tool_class r) TC_UNKNOWN))"
    and "matches_any ca (Some (capability_text (capability_of
           (rq_action (normalize_action_request r)) (rq_tool_class r))))"
  shows "er_effect (evaluate (new_engine v ps de) r c) = DENY"
proof (rule deny_rule_decides [OF assms(1)])
  let ?p = "mode_rule m s t ((match_actions OUTSIDE)\<lparr>pm_classes := cl, pm_capabilities := ca\<rparr>) d"
  show "indexable ?p" by (rule OUTSIDE_indexable) (simp add: match_actions_def)
  show "enforced ?p" using assms(3) by (simp add: enforced_def)
  show "pd_effect (p_decision ?p) = DENY" using assms(2) by simp
  show "policy_matches ?p (normalize_action_request r) c"
    using assms(5,6) outside_matches [OF assms(4)] by (simp add: one_rule)
qed

text \<open>
  Property C7. A session that investigates changes nothing outside this machine: whatever other
  rules stand beside the mode, an allow that relaxes asks included, an action outside of a class
  that changes something is denied.
\<close>

theorem investigation_changes_nothing_outside:
  assumes "set (mode_policies INVESTIGATE) \<subseteq> set ps"
    and "outside_action (rq_action (normalize_action_request r))"
    and "rq_tool_class r \<in> {Some TC_WRITE, Some TC_DESTRUCTIVE, Some TC_COMMUNICATION}"
  shows "er_effect (evaluate (new_engine v ps d) r c) = DENY"
proof (rule outside_rule_decides [OF _ _ _ assms(2)])
  show "mode_rule INVESTIGATE ''outside'' ''Any change outside this machine''
      ((match_actions OUTSIDE)\<lparr>pm_classes := Some CHANGES, pm_capabilities := None\<rparr>)
      ((plain_decision DENY)\<lparr>pd_reason := Some INVESTIGATE_REASON,
         pd_alternative := Some INVESTIGATE_ALTERNATIVE\<rparr>) \<in> set ps"
    using assms(1) by (simp add: mode_policies_def investigate_def mode_rules match_actions_def)
  show "matches_any (Some CHANGES) (Some (or_else (rq_tool_class r) TC_UNKNOWN))"
    using assms(3) by (intro literal_class plain_classes) (auto simp: CHANGES_def)
qed (simp_all add: plain_decision_def)

theorem investigation_changes_nothing_outside_witness:
  "er_effect (evaluate (new_engine sample_version (allow_git # mode_policies INVESTIGATE) None)
     ((bare_request ''stripe.refunds-create'')\<lparr>rq_tool_class := Some TC_WRITE\<rparr>)
     (plain_context ''claude-code'')) = DENY"
proof (rule investigation_changes_nothing_outside)
  show "set (mode_policies INVESTIGATE) \<subseteq> set (allow_git # mode_policies INVESTIGATE)" by auto
  show "outside_action (rq_action (normalize_action_request
      ((bare_request ''stripe.refunds-create'')\<lparr>rq_tool_class := Some TC_WRITE\<rparr>)))"
    unfolding outside_action_def by code_simp
qed simp

lemma irreversible_in_autonomous:
  "mode_rule AUTONOMOUS ''irreversible'' ''Deleting something outside this machine''
     ((match_actions OUTSIDE)\<lparr>pm_classes := Some [TC_DESTRUCTIVE], pm_capabilities := None\<rparr>)
     ((plain_decision DENY)\<lparr>pd_reason := Some (''autonomous mode: '' @
        ''nothing outside this machine is deleted without a person''),
        pd_alternative := Some AUTONOMOUS_ALTERNATIVE\<rparr>) \<in> set (mode_policies AUTONOMOUS)"
  by (simp add: mode_policies_def autonomous_def mode_rules match_actions_def)

lemma consequential_in_autonomous:
  "mode_rule AUTONOMOUS ''consequential'' ''Moving money, deploying, or handing out authority''
     ((match_actions OUTSIDE)\<lparr>pm_classes := None,
        pm_capabilities := Some (map capability_text [Cap_transfer, Cap_deploy, Cap_admin])\<rparr>)
     ((plain_decision DENY)\<lparr>pd_reason := Some (''autonomous mode: '' @
        ''money, deploys and authority stay with a person''),
        pd_alternative := Some AUTONOMOUS_ALTERNATIVE\<rparr>) \<in> set (mode_policies AUTONOMOUS)"
  by (simp add: mode_policies_def autonomous_def mode_rules match_actions_def)

text \<open>
  A session left to work on its own stops at the irreversible: outside this machine
  it deletes nothing, and moves no money, deploys nothing and hands out no authority, whatever
  other rules stand beside the mode.
\<close>

theorem autonomous_stops_at_the_irreversible:
  assumes "set (mode_policies AUTONOMOUS) \<subseteq> set ps"
    and "outside_action (rq_action (normalize_action_request r))"
    and "rq_tool_class r = Some TC_DESTRUCTIVE \<or>
         capability_of (rq_action (normalize_action_request r)) (rq_tool_class r)
           \<in> {Cap_transfer, Cap_deploy, Cap_admin}"
  shows "er_effect (evaluate (new_engine v ps d) r c) = DENY"
  using assms(3)
proof
  assume "rq_tool_class r = Some TC_DESTRUCTIVE"
  then have "matches_any (Some [TC_DESTRUCTIVE]) (Some (or_else (rq_tool_class r) TC_UNKNOWN))"
    by (intro literal_class plain_classes) simp
  then show ?thesis
    using irreversible_in_autonomous assms(1)
    by (intro outside_rule_decides [OF subsetD [OF assms(1) irreversible_in_autonomous] _ _ assms(2)])
       (simp_all add: plain_decision_def)
next
  assume "capability_of (rq_action (normalize_action_request r)) (rq_tool_class r)
      \<in> {Cap_transfer, Cap_deploy, Cap_admin}"
  then have "matches_any (Some (map capability_text [Cap_transfer, Cap_deploy, Cap_admin]))
      (Some (capability_text (capability_of (rq_action (normalize_action_request r)) (rq_tool_class r))))"
    by (intro literal_class plain_classes) auto
  then show ?thesis
    by (intro outside_rule_decides [OF subsetD [OF assms(1) consequential_in_autonomous] _ _ assms(2)])
       (simp_all add: plain_decision_def)
qed

theorem autonomous_stops_at_the_irreversible_witness:
  "er_effect (evaluate (new_engine sample_version (mode_policies AUTONOMOUS) None)
     ((bare_request ''vercel.deploy'')\<lparr>rq_tool_class := Some TC_WRITE\<rparr>)
     (plain_context ''claude-code'')) = DENY"
proof (rule autonomous_stops_at_the_irreversible)
  show "outside_action (rq_action (normalize_action_request
      ((bare_request ''vercel.deploy'')\<lparr>rq_tool_class := Some TC_WRITE\<rparr>)))"
    unfolding outside_action_def by code_simp
  show "rq_tool_class ((bare_request ''vercel.deploy'')\<lparr>rq_tool_class := Some TC_WRITE\<rparr>) = Some TC_DESTRUCTIVE \<or>
      capability_of (rq_action (normalize_action_request
        ((bare_request ''vercel.deploy'')\<lparr>rq_tool_class := Some TC_WRITE\<rparr>)))
        (rq_tool_class ((bare_request ''vercel.deploy'')\<lparr>rq_tool_class := Some TC_WRITE\<rparr>))
      \<in> {Cap_transfer, Cap_deploy, Cap_admin}"
    by (rule disjI2) code_simp
qed simp

lemma mode_of_mode_policies: "mode_of (mode_policies m) = Some m"
proof -
  have "mode_of (mode_policies INVESTIGATE) = Some INVESTIGATE" by code_simp
  moreover have "mode_of (mode_policies AUTONOMOUS) = Some AUTONOMOUS" by code_simp
  ultimately show ?thesis by (cases m) simp_all
qed

end
