(* ===== verification/Breaker.thy ===== *)
theory Breaker
  imports Vocabulary Clock "HOL-Library.AList"
begin

text \<open>
  Stopping a session that gets nowhere, counted from outcomes:
  \<open>packages/core/src/session/breaker.ts\<close>, the replay of the ledger into outcomes
  (\<open>session/replay.ts\<close>, \<open>event/outcome.ts\<close>) and the strain of a session (\<open>session/strain.ts\<close>).
  A JavaScript \<open>Map\<close> is an association list in insertion order; amounts of money are rationals.
\<close>

section \<open>Outcomes, thresholds, breaches\<close>

datatype breaker_signal =
  ERROR_LOOP | NO_PROGRESS | ACTION_EXPLOSION | SCOPE_DRIFT | SPEND | ASKED

record breaker_thresholds =
  bt_error_loop :: int
  bt_no_progress :: int
  bt_explosion_factor :: int
  bt_scope_drift :: int
  bt_spend_ceiling_usd :: rat

definition DEFAULT_THRESHOLDS :: breaker_thresholds where
  "DEFAULT_THRESHOLDS =
     \<lparr>bt_error_loop = 5, bt_no_progress = 8, bt_explosion_factor = 5, bt_scope_drift = 5,
      bt_spend_ceiling_usd = 0\<rparr>"

record action_outcome =
  ao_session_id :: string
  ao_fingerprint :: string
  ao_action :: string
  ao_target :: "string option"
  ao_at :: time
  ao_failed :: bool
  ao_failure_kind :: "string option"
  ao_out_of_scope :: bool
  ao_cost_usd :: "rat option"

record breaker_breach =
  bb_signal :: breaker_signal
  bb_reached :: rat
  bb_ceiling :: rat
  bb_reason :: string

record session_state =
  bs_actions :: int
  bs_failures :: "(string \<times> int) list"
  bs_consecutive_failures :: int
  bs_out_of_scope :: int
  bs_spent_usd :: rat
  bs_expected_actions :: "int option"

section \<open>Money\<close>

definition CENTS_IN_A_UNIT :: rat where "CENTS_IN_A_UNIT = 100"

definition round_to_cents :: "rat \<Rightarrow> rat" where
  "round_to_cents amount = of_int \<lfloor>amount * CENTS_IN_A_UNIT + 1/2\<rfloor> / CENTS_IN_A_UNIT"

text \<open>\<open>amount.toFixed(2)\<close> for an amount that is not negative.\<close>

definition fixed2 :: "rat \<Rightarrow> string" where
  "fixed2 amount =
     (let cents = \<lfloor>amount * 100 + 1/2\<rfloor> in int_text (cents div 100) @ ''.'' @ padded 2 (cents mod 100))"

section \<open>Counting\<close>

definition failure_key :: "action_outcome \<Rightarrow> string" where
  "failure_key outcome = ao_fingerprint outcome @ '':'' @ or_else (ao_failure_kind outcome) []"

definition empty_state :: "int option \<Rightarrow> session_state" where
  "empty_state expected =
     \<lparr>bs_actions = 0, bs_failures = [], bs_consecutive_failures = 0, bs_out_of_scope = 0,
      bs_spent_usd = 0, bs_expected_actions = expected\<rparr>"

definition record_outcome :: "session_state \<Rightarrow> action_outcome \<Rightarrow> int \<times> session_state" where
  "record_outcome state outcome =
     (let counted = state
            \<lparr>bs_actions := bs_actions state + 1,
             bs_spent_usd := bs_spent_usd state + or_else (ao_cost_usd outcome) 0,
             bs_out_of_scope := bs_out_of_scope state + (if ao_out_of_scope outcome then 1 else 0)\<rparr>
      in if \<not> ao_failed outcome then
           (0, counted
              \<lparr>bs_consecutive_failures := 0,
               bs_failures := filter (\<lambda>(key, n). \<not> starts_with (ao_fingerprint outcome @ '':'') key)
                 (bs_failures counted)\<rparr>)
         else
           (let same = or_else (map_of (bs_failures counted) (failure_key outcome)) 0 + 1 in
            (same, counted
               \<lparr>bs_consecutive_failures := bs_consecutive_failures counted + 1,
                bs_failures := AList.update (failure_key outcome) same (bs_failures counted)\<rparr>)))"

type_synonym circuit_breaker = "(string \<times> session_state) list"

definition state_of :: "circuit_breaker \<Rightarrow> string \<Rightarrow> session_state" where
  "state_of sessions session = or_else (map_of sessions session) (empty_state None)"

definition expect_actions :: "circuit_breaker \<Rightarrow> string \<Rightarrow> int \<Rightarrow> circuit_breaker" where
  "expect_actions sessions session expected =
     AList.update session ((state_of sessions session)\<lparr>bs_expected_actions := Some expected\<rparr>) sessions"

definition forget :: "circuit_breaker \<Rightarrow> string \<Rightarrow> circuit_breaker" where
  "forget sessions session = AList.delete session sessions"

definition command_of :: "action_outcome \<Rightarrow> string" where
  "command_of outcome =
     (case ao_target outcome of
        None \<Rightarrow> ao_action outcome
      | Some target \<Rightarrow>
          if target = [] then ao_action outcome
          else if ends_with ''.unknown'' (ao_action outcome)
               then first_part CHR ''.'' (ao_action outcome) @ '' '' @ target
               else ao_action outcome @ '' on '' @ target)"

section \<open>The signals, in order of severity\<close>

definition breach_of :: "breaker_signal \<Rightarrow> rat \<Rightarrow> rat \<Rightarrow> string \<Rightarrow> breaker_breach" where
  "breach_of signal reached ceil reason =
     \<lparr>bb_signal = signal, bb_reached = reached, bb_ceiling = ceil, bb_reason = reason\<rparr>"

definition error_loop :: "breaker_thresholds \<Rightarrow> action_outcome \<Rightarrow> int \<Rightarrow> breaker_breach option" where
  "error_loop thresholds outcome same =
     (if \<not> ao_failed outcome \<or> same < bt_error_loop thresholds then None
      else Some (breach_of ERROR_LOOP (of_int same) (of_int (bt_error_loop thresholds))
        (command_of outcome @ '' has failed the same way '' @ int_text same @ '' times'' @
         (case ao_failure_kind outcome of None \<Rightarrow> [] | Some kind \<Rightarrow> '', exiting '' @ kind) @
         ''; retrying it again will fail the same way'')))"

definition no_progress :: "breaker_thresholds \<Rightarrow> session_state \<Rightarrow> breaker_breach option" where
  "no_progress thresholds state =
     (if bs_consecutive_failures state < bt_no_progress thresholds then None
      else Some (breach_of NO_PROGRESS (of_int (bs_consecutive_failures state))
        (of_int (bt_no_progress thresholds))
        (int_text (bs_consecutive_failures state) @
         '' actions in a row have failed and nothing has succeeded in between'')))"

definition action_explosion :: "breaker_thresholds \<Rightarrow> session_state \<Rightarrow> breaker_breach option" where
  "action_explosion thresholds state =
     (case bs_expected_actions state of
        None \<Rightarrow> None
      | Some expected \<Rightarrow>
          if expected \<le> 0 then None
          else (let ceil = expected * bt_explosion_factor thresholds in
                if bs_actions state \<le> ceil then None
                else Some (breach_of ACTION_EXPLOSION (of_int (bs_actions state)) (of_int ceil)
                  (''this was expected to take about '' @ int_text expected @
                   '' actions and has taken '' @ int_text (bs_actions state)))))"

definition scope_drift :: "breaker_thresholds \<Rightarrow> session_state \<Rightarrow> breaker_breach option" where
  "scope_drift thresholds state =
     (let ceil = bt_scope_drift thresholds in
      if ceil \<le> 0 \<or> bs_out_of_scope state < ceil then None
      else Some (breach_of SCOPE_DRIFT (of_int (bs_out_of_scope state)) (of_int ceil)
        (int_text (bs_out_of_scope state) @
         '' actions have been outside what this session was asked to do'')))"

definition spend :: "breaker_thresholds \<Rightarrow> session_state \<Rightarrow> breaker_breach option" where
  "spend thresholds state =
     (let ceil = bt_spend_ceiling_usd thresholds in
      if ceil \<le> 0 \<or> bs_spent_usd state \<le> ceil then None
      else Some (breach_of SPEND (round_to_cents (bs_spent_usd state)) ceil
        (''this session has spent $'' @ fixed2 (bs_spent_usd state) @ '' of its $'' @ fixed2 ceil)))"

definition observe ::
  "breaker_thresholds \<Rightarrow> circuit_breaker \<Rightarrow> action_outcome \<Rightarrow> breaker_breach option \<times> circuit_breaker" where
  "observe thresholds sessions outcome =
     (let (same, state) = record_outcome (state_of sessions (ao_session_id outcome)) outcome in
      (first_some (error_loop thresholds outcome same)
        (first_some (no_progress thresholds state)
          (first_some (action_explosion thresholds state)
            (first_some (scope_drift thresholds state) (spend thresholds state)))),
       AList.update (ao_session_id outcome) state sessions))"

definition observe_drift ::
  "breaker_thresholds \<Rightarrow> circuit_breaker \<Rightarrow> string \<Rightarrow> breaker_breach option \<times> circuit_breaker" where
  "observe_drift thresholds sessions session =
     (let state = state_of sessions session;
          drifted = state\<lparr>bs_out_of_scope := bs_out_of_scope state + 1\<rparr>
      in (scope_drift thresholds drifted, AList.update session drifted sessions))"

text \<open>Actions, failures in a row, actions out of scope, dollars.\<close>

definition counts :: "circuit_breaker \<Rightarrow> string \<Rightarrow> (int \<times> int \<times> int \<times> rat) option" where
  "counts sessions session =
     map_option (\<lambda>state.
       (bs_actions state, bs_consecutive_failures state, bs_out_of_scope state, bs_spent_usd state))
       (map_of sessions session)"

fun first_breach ::
  "breaker_thresholds \<Rightarrow> circuit_breaker \<Rightarrow> action_outcome list \<Rightarrow> breaker_breach option" where
  "first_breach thresholds sessions [] = None"
| "first_breach thresholds sessions (outcome # outcomes) =
     (case observe thresholds sessions outcome of
        (Some breach, _) \<Rightarrow> Some breach
      | (None, later) \<Rightarrow> first_breach thresholds later outcomes)"

definition breach_in ::
  "action_outcome list \<Rightarrow> breaker_thresholds \<Rightarrow> int option \<Rightarrow> breaker_breach option" where
  "breach_in outcomes thresholds expected =
     (let sessions = (case (outcomes, expected) of
            (first # _, Some n) \<Rightarrow> expect_actions [] (ao_session_id first) n
          | _ \<Rightarrow> [])
      in first_breach thresholds sessions outcomes)"

section \<open>The ledger replayed\<close>

datatype execution = COMPLETED | FAILED | BLOCKED | TIMED_OUT

text \<open>The fields of \<open>MemnoxEvent\<close> the replay reads.\<close>

record ledger_event =
  le_session_id :: string
  le_effect :: decision_effect
  le_operation :: string
  le_target :: "string option"
  le_at :: time
  le_execution :: "execution option"
  le_exit_code :: "int option"
  le_cost_usd :: "rat option"

definition did_fail :: "ledger_event \<Rightarrow> bool" where
  "did_fail event =
     (le_execution event = Some FAILED \<or>
      (case le_exit_code event of None \<Rightarrow> False | Some code \<Rightarrow> code \<noteq> 0))"

definition work_key :: "ledger_event \<Rightarrow> string" where
  "work_key event = le_operation event @ '':'' @ or_else (le_target event) []"

definition outcome_from :: "ledger_event \<Rightarrow> action_outcome" where
  "outcome_from event =
     \<lparr>ao_session_id = le_session_id event, ao_fingerprint = work_key event,
      ao_action = le_operation event, ao_target = le_target event, ao_at = le_at event,
      ao_failed = did_fail event,
      ao_failure_kind = (case le_exit_code event of
          None \<Rightarrow> None
        | Some code \<Rightarrow> if code = 0 then None else Some (le_operation event @ '':'' @ int_text code)),
      ao_out_of_scope = False, ao_cost_usd = le_cost_usd event\<rparr>"

definition outcomes_from :: "ledger_event list \<Rightarrow> action_outcome list" where
  "outcomes_from events =
     sort_key ao_at (map outcome_from (filter (\<lambda>event. le_effect event = ALLOW) events))"

section \<open>Strain\<close>

definition STRAIN_FAILURES :: int where "STRAIN_FAILURES = 3"

definition FAILING_SHOWN :: nat where "FAILING_SHOWN = 3"

record session_strain =
  sn_unresolved :: int
  sn_failing :: "string list"
  sn_recovered :: int

record standing_failure =
  sf_count :: int
  sf_command :: string
  sf_at :: time

definition strain_step ::
  "(string \<times> standing_failure) list \<times> int \<Rightarrow> action_outcome \<Rightarrow>
   (string \<times> standing_failure) list \<times> int" where
  "strain_step acc outcome =
     (let (standing, recovered) = acc; seen = map_of standing (ao_fingerprint outcome) in
      if \<not> ao_failed outcome then
        (AList.delete (ao_fingerprint outcome) standing,
         recovered + (case seen of None \<Rightarrow> 0 | Some s \<Rightarrow> sf_count s))
      else
        (AList.update (ao_fingerprint outcome)
           \<lparr>sf_count = (case seen of None \<Rightarrow> 0 | Some s \<Rightarrow> sf_count s) + 1,
            sf_command = command_of outcome, sf_at = ao_at outcome\<rparr> standing,
         recovered))"

definition strain_of :: "action_outcome list \<Rightarrow> session_strain" where
  "strain_of outcomes =
     (let (standing, recovered) = foldl strain_step ([], 0) (sort_key ao_at outcomes);
          still_open = sort_key (\<lambda>each. - sf_at each) (map snd standing)
      in \<lparr>sn_unresolved = sum_list (map sf_count still_open),
          sn_failing = map sf_command still_open, sn_recovered = recovered\<rparr>)"

definition is_strained :: "session_strain option \<Rightarrow> bool" where
  "is_strained strain =
     (case strain of None \<Rightarrow> False | Some s \<Rightarrow> sn_unresolved s \<ge> STRAIN_FAILURES)"

text \<open>\<open>redact\<close> stands for \<open>redactSecrets\<close> of \<open>domain/redact.ts\<close>, whatever it masks.\<close>

definition describe_strain :: "(string \<Rightarrow> string) \<Rightarrow> session_strain \<Rightarrow> string" where
  "describe_strain redact strain =
     (let named = join_with '', '' (take FAILING_SHOWN (sn_failing strain));
          more = int (length (sn_failing strain)) - int FAILING_SHOWN;
          listed = (if more > 0 then named @ '' and '' @ int_text more @ '' more'' else named)
      in redact (''this session has '' @ int_text (sn_unresolved strain) @
          '' failures it has not got past ('' @ listed @
          ''), so a person decides before it changes anything outside this machine or deletes anything''))"

section \<open>What the breaker counts\<close>

text \<open>Failures at the end of a history, and the failures of a key since its work last succeeded.\<close>

definition trailing_failures :: "action_outcome list \<Rightarrow> nat" where
  "trailing_failures os = length (takeWhile ao_failed (rev os))"

definition state_after :: "int option \<Rightarrow> action_outcome list \<Rightarrow> session_state" where
  "state_after expected os = foldl (\<lambda>st o'. snd (record_outcome st o')) (empty_state expected) os"

lemma state_after_Nil [simp]: "state_after expected [] = empty_state expected"
  by (simp add: state_after_def)

lemma state_after_snoc: "state_after expected (os @ [x]) = snd (record_outcome (state_after expected os) x)"
  by (simp add: state_after_def)

lemma record_outcome_fields:
  "bs_actions (snd (record_outcome st x)) = bs_actions st + 1"
  "bs_spent_usd (snd (record_outcome st x)) = bs_spent_usd st + or_else (ao_cost_usd x) 0"
  "bs_out_of_scope (snd (record_outcome st x)) = bs_out_of_scope st + (if ao_out_of_scope x then 1 else 0)"
  "bs_consecutive_failures (snd (record_outcome st x)) =
     (if ao_failed x then bs_consecutive_failures st + 1 else 0)"
  "bs_expected_actions (snd (record_outcome st x)) = bs_expected_actions st"
  by (simp_all add: record_outcome_def Let_def)

lemma state_after_counts:
  "bs_actions (state_after expected os) = int (length os)"
  "bs_consecutive_failures (state_after expected os) = int (trailing_failures os)"
  "bs_out_of_scope (state_after expected os) = int (length (filter ao_out_of_scope os))"
  "bs_spent_usd (state_after expected os) = sum_list (map (\<lambda>x. or_else (ao_cost_usd x) 0) os)"
  by (induction os rule: rev_induct)
     (simp_all add: state_after_snoc record_outcome_fields empty_state_def trailing_failures_def)

definition run_breaker :: "breaker_thresholds \<Rightarrow> action_outcome list \<Rightarrow> circuit_breaker" where
  "run_breaker thresholds os = foldl (\<lambda>sessions o'. snd (observe thresholds sessions o')) [] os"

definition of_session :: "string \<Rightarrow> action_outcome list \<Rightarrow> action_outcome list" where
  "of_session session os = filter (\<lambda>x. ao_session_id x = session) os"

lemma run_breaker_snoc:
  "run_breaker thresholds (os @ [x]) = snd (observe thresholds (run_breaker thresholds os) x)"
  by (simp add: run_breaker_def)

lemma map_of_observe:
  "map_of (snd (observe thresholds sessions x)) session =
     (if session = ao_session_id x
      then Some (snd (record_outcome (state_of sessions (ao_session_id x)) x))
      else map_of sessions session)"
  by (simp add: observe_def Let_def case_prod_unfold update_conv')

lemma run_breaker_state:
  "map_of (run_breaker thresholds os) session =
     (if of_session session os = [] then None else Some (state_after None (of_session session os)))"
proof (induction os arbitrary: session rule: rev_induct)
  case (snoc x os)
  have "state_of (run_breaker thresholds os) (ao_session_id x) =
      state_after None (of_session (ao_session_id x) os)"
    by (simp add: state_of_def snoc.IH)
  then show ?case
    by (auto simp: run_breaker_snoc map_of_observe snoc.IH of_session_def state_after_snoc)
qed (simp add: run_breaker_def of_session_def)

text \<open>
  The breaker counts what happened and nothing else: after any history, in any
  interleaving of sessions, the counts of a session are the number of its own outcomes, the
  length of the run of failures it ends in, its outcomes out of scope and the sum of its
  reported costs.
\<close>

theorem breaker_counts_history:
  "counts (run_breaker thresholds os) session =
     (let mine = filter (\<lambda>x. ao_session_id x = session) os in
      if mine = [] then None
      else Some (int (length mine), int (length (takeWhile ao_failed (rev mine))),
                 int (length (filter ao_out_of_scope mine)),
                 sum_list (map (\<lambda>x. or_else (ao_cost_usd x) 0) mine)))"
  by (simp add: counts_def run_breaker_state state_after_counts Let_def of_session_def
        trailing_failures_def)

section \<open>The error loop\<close>

text \<open>What failed since the work of a fingerprint last succeeded, latest first.\<close>

definition since_success :: "string \<Rightarrow> action_outcome list \<Rightarrow> action_outcome list" where
  "since_success fp os = takeWhile (\<lambda>x. ao_failed x \<or> ao_fingerprint x \<noteq> fp) (rev os)"

definition failed_same_way :: "action_outcome \<Rightarrow> action_outcome list \<Rightarrow> nat" where
  "failed_same_way o' os =
     length (filter (\<lambda>x. ao_failed x \<and> failure_key x = failure_key o')
       (since_success (ao_fingerprint o') os))"

text \<open>A success clears the keys of its own work and of no other.\<close>

definition keys_apart :: "action_outcome \<Rightarrow> action_outcome list \<Rightarrow> bool" where
  "keys_apart o' os =
     list_all (\<lambda>x. starts_with (ao_fingerprint x @ '':'') (failure_key o') =
                   (ao_fingerprint x = ao_fingerprint o')) os"

lemma map_of_filter_key:
  "map_of (filter (\<lambda>(k, n). good k) al) k = (if good k then map_of al k else None)"
  by (induction al) auto

lemma map_of_failures:
  "map_of (bs_failures (snd (record_outcome st x))) k =
     (if ao_failed x
      then (if k = failure_key x then Some (or_else (map_of (bs_failures st) k) 0 + 1)
            else map_of (bs_failures st) k)
      else if starts_with (ao_fingerprint x @ '':'') k then None else map_of (bs_failures st) k)"
  using map_of_filter_key [of "\<lambda>k. \<not> starts_with (ao_fingerprint x @ '':'') k" "bs_failures st" k]
  by (simp add: record_outcome_def Let_def update_conv')

lemma failures_count:
  "keys_apart o' os \<Longrightarrow>
     or_else (map_of (bs_failures (state_after expected os)) (failure_key o')) 0 =
     int (failed_same_way o' os)"
proof (induction os rule: rev_induct)
  case Nil
  show ?case by (simp add: empty_state_def failed_same_way_def since_success_def)
next
  case (snoc x os)
  from snoc.prems have apart: "keys_apart o' os"
    "starts_with (ao_fingerprint x @ '':'') (failure_key o') = (ao_fingerprint x = ao_fingerprint o')"
    by (simp_all add: keys_apart_def)
  show ?case
    using snoc.IH [OF apart(1)] apart(2)
    by (auto simp: state_after_snoc map_of_failures failed_same_way_def since_success_def)
qed

text \<open>
  An error loop is called exactly when the same work has failed the same way as
  often as the threshold says, counted since that work last succeeded, as long as the key of no
  other work of the session starts with this one's.
\<close>

theorem error_loop_counts_same_failures:
  assumes "keys_apart x (of_session (ao_session_id x) os)"
  shows "let (same, state) = record_outcome (state_of (run_breaker thresholds os) (ao_session_id x)) x
         in error_loop thresholds x same \<noteq> None \<longleftrightarrow>
            ao_failed x \<and>
            bt_error_loop thresholds \<le> int (failed_same_way x (of_session (ao_session_id x) os)) + 1"
proof -
  have "state_of (run_breaker thresholds os) (ao_session_id x) =
      state_after None (of_session (ao_session_id x) os)"
    by (simp add: state_of_def run_breaker_state)
  then show ?thesis
    using failures_count [OF assms, of None]
    by (simp add: record_outcome_def error_loop_def Let_def not_less)
qed

definition failing_test :: action_outcome where
  "failing_test = \<lparr>ao_session_id = ''s'', ao_fingerprint = ''npm.test'', ao_action = ''npm.test'',
     ao_target = None, ao_at = 0, ao_failed = True, ao_failure_kind = Some ''1'',
     ao_out_of_scope = False, ao_cost_usd = None\<rparr>"

theorem error_loop_counts_same_failures_witness:
  "let (same, state) = record_outcome
       (state_of (run_breaker DEFAULT_THRESHOLDS (replicate 4 failing_test)) ''s'') failing_test
   in error_loop DEFAULT_THRESHOLDS failing_test same \<noteq> None"
proof -
  have "keys_apart failing_test (of_session (ao_session_id failing_test) (replicate 4 failing_test))"
    by code_simp
  note loop = error_loop_counts_same_failures [OF this, of DEFAULT_THRESHOLDS]
  have "bt_error_loop DEFAULT_THRESHOLDS \<le>
      int (failed_same_way failing_test (of_session (ao_session_id failing_test) (replicate 4 failing_test))) + 1"
    by code_simp
  moreover have "ao_failed failing_test" "ao_session_id failing_test = ''s''" by code_simp+
  ultimately show ?thesis using loop by (auto simp: Let_def split: prod.splits)
qed

definition replayed_get :: "string \<Rightarrow> int \<Rightarrow> time \<Rightarrow> ledger_event" where
  "replayed_get target code at' =
     \<lparr>le_session_id = ''s'', le_effect = ALLOW, le_operation = ''http.request'',
      le_target = Some target, le_at = at', le_execution = Some COMPLETED,
      le_exit_code = Some code, le_cost_usd = None\<rparr>"

text \<open>
  The fingerprint of replayed work is its operation and target joined by a colon, so
  where one target is another and a colon more, a success on the first clears the failures of
  the second: the same request fails five times running with no success of its own in between,
  and no loop is called.
\<close>

theorem success_elsewhere_clears_failures:
  "breach_in (outcomes_from
      ([replayed_get ''localhost:3000'' 1 1, replayed_get ''localhost:3000'' 1 2,
        replayed_get ''localhost:3000'' 1 3, replayed_get ''localhost:3000'' 1 4] @
       [replayed_get ''localhost'' 0 5, replayed_get ''localhost:3000'' 1 6]))
      DEFAULT_THRESHOLDS None = None \<and>
   breach_in (outcomes_from
      ([replayed_get ''localhost:3000'' 1 1, replayed_get ''localhost:3000'' 1 2,
        replayed_get ''localhost:3000'' 1 3, replayed_get ''localhost:3000'' 1 4] @
       [replayed_get ''elsewhere'' 0 5, replayed_get ''localhost:3000'' 1 6]))
      DEFAULT_THRESHOLDS None \<noteq> None"
  by (intro conjI; code_simp)

section \<open>Strain counts what still stands\<close>

text \<open>The failures of a history no later success of the same work got past.\<close>

fun open_failures :: "action_outcome list \<Rightarrow> action_outcome list" where
  "open_failures [] = []"
| "open_failures (x # os) =
     (if ao_failed x \<and> \<not> list_ex (\<lambda>y. \<not> ao_failed y \<and> ao_fingerprint y = ao_fingerprint x) os
      then [x] else []) @ open_failures os"

lemma open_failures_snoc:
  "open_failures (os @ [x]) =
     (if ao_failed x then open_failures os @ [x]
      else filter (\<lambda>y. ao_fingerprint y \<noteq> ao_fingerprint x) (open_failures os))"
proof (induction os)
  case (Cons y os)
  then show ?case by (cases "ao_failed x"; cases "ao_fingerprint x = ao_fingerprint y") simp_all
qed simp

definition standing_total :: "(string \<times> standing_failure) list \<Rightarrow> int" where
  "standing_total st = sum_list (map (\<lambda>e. sf_count (snd e)) st)"

definition standing_count :: "(string \<times> standing_failure) list \<Rightarrow> string \<Rightarrow> int" where
  "standing_count st fp = (case map_of st fp of None \<Rightarrow> 0 | Some s \<Rightarrow> sf_count s)"

lemma standing_total_update:
  "distinct (map fst st) \<Longrightarrow>
     standing_total (AList.update fp s st) = standing_total st - standing_count st fp + sf_count s"
  by (induction st) (auto simp: standing_total_def standing_count_def)

lemma standing_total_delete:
  "distinct (map fst st) \<Longrightarrow> standing_total (AList.delete fp st) = standing_total st - standing_count st fp"
proof (induction st)
  case (Cons e st)
  have "AList.delete fp st = st" if "fp \<notin> fst ` set st"
    using that by (simp add: AList.delete_id)
  moreover have "standing_count st fp = 0" if "fp \<notin> fst ` set st"
    using that by (simp add: standing_count_def map_of_eq_None_iff [symmetric] option.case_eq_if)
  ultimately show ?case
    using Cons by (cases e) (auto simp: standing_total_def standing_count_def)
qed (simp add: standing_total_def standing_count_def)

definition strain_state :: "action_outcome list \<Rightarrow> (string \<times> standing_failure) list \<times> int" where
  "strain_state os = foldl strain_step ([], 0) os"

lemma strain_state_snoc: "strain_state (os @ [x]) = strain_step (strain_state os) x"
  by (simp add: strain_state_def)

lemma strain_step_sel:
  "fst (strain_step acc x) =
     (if ao_failed x
      then AList.update (ao_fingerprint x)
             \<lparr>sf_count = standing_count (fst acc) (ao_fingerprint x) + 1,
              sf_command = command_of x, sf_at = ao_at x\<rparr> (fst acc)
      else AList.delete (ao_fingerprint x) (fst acc))"
  "snd (strain_step acc x) =
     (if ao_failed x then snd acc else snd acc + standing_count (fst acc) (ao_fingerprint x))"
  by (simp_all add: strain_step_def standing_count_def Let_def case_prod_unfold)

lemma strain_distinct: "distinct (map fst (fst (strain_state os)))"
proof (induction os rule: rev_induct)
  case (snoc x os)
  then show ?case
    by (simp add: strain_state_snoc strain_step_sel distinct_update distinct_delete)
qed (simp add: strain_state_def)

lemma strain_counts:
  "standing_count (fst (strain_state os)) fp =
     int (length (filter (\<lambda>y. ao_fingerprint y = fp) (open_failures os)))"
proof (induction os arbitrary: fp rule: rev_induct)
  case (snoc x os)
  have "filter (\<lambda>y. ao_fingerprint y = fp) (filter (\<lambda>y. ao_fingerprint y \<noteq> fp) l) = []" for l
    by (induction l) auto
  then show ?case
    using snoc.IH [of fp]
    by (auto simp: strain_state_snoc strain_step_sel open_failures_snoc standing_count_def
          update_conv' delete_conv' snoc.IH [unfolded standing_count_def] conj_commute
          intro!: arg_cong [where f = length] filter_cong)
qed (simp add: strain_state_def standing_count_def)

lemma filter_split: "length (filter p l) + length (filter (\<lambda>x. \<not> p x) l) = length l"
  by (induction l) auto

lemma strain_total:
  "standing_total (fst (strain_state os)) = int (length (open_failures os)) \<and>
   standing_total (fst (strain_state os)) + snd (strain_state os) = int (length (filter ao_failed os))"
proof (induction os rule: rev_induct)
  case (snoc x os)
  have "length (open_failures os) =
      length (filter (\<lambda>y. ao_fingerprint y = ao_fingerprint x) (open_failures os)) +
      length (filter (\<lambda>y. ao_fingerprint y \<noteq> ao_fingerprint x) (open_failures os))"
    using filter_split [of "\<lambda>y. ao_fingerprint y = ao_fingerprint x" "open_failures os"] by simp
  then show ?case
    using snoc.IH strain_distinct [of os] strain_counts [of os "ao_fingerprint x"]
    by (simp add: strain_state_snoc strain_step_sel open_failures_snoc standing_total_update
          standing_total_delete)
qed (simp add: strain_state_def standing_total_def)

lemma sum_list_sort_key: "sum_list (map f (sort_key g xs)) = sum_list (map f (xs :: 'a list))"
  for f :: "'a \<Rightarrow> int"
proof -
  have "sum_list (map f (insort_key g x xs)) = f x + sum_list (map f xs)" for x xs
    by (induction xs) auto
  then show ?thesis by (induction xs) auto
qed

lemma strain_unresolved:
  "sn_unresolved (strain_of os) = int (length (open_failures (sort_key ao_at os)))"
  "sn_unresolved (strain_of os) + sn_recovered (strain_of os) =
     int (length (filter ao_failed (sort_key ao_at os)))"
proof -
  have "sn_unresolved (strain_of os) = standing_total (fst (strain_state (sort_key ao_at os)))"
    "sn_recovered (strain_of os) = snd (strain_state (sort_key ao_at os))"
    by (simp_all add: strain_of_def strain_state_def standing_total_def Let_def case_prod_unfold
          sum_list_sort_key comp_def)
  then show "sn_unresolved (strain_of os) = int (length (open_failures (sort_key ao_at os)))"
    "sn_unresolved (strain_of os) + sn_recovered (strain_of os) =
     int (length (filter ao_failed (sort_key ao_at os)))"
    using strain_total [of "sort_key ao_at os"] by simp_all
qed

text \<open>
  The strain of a session is what it failed at and has not got past: read in the
  order of time, exactly the failures no later success of the same work followed are counted,
  and every other failure counts as recovered, none lost and none twice.
\<close>

theorem strain_counts_standing_failures:
  "sn_unresolved (strain_of os) = int (length (open_failures (sort_key ao_at os))) \<and>
   sn_unresolved (strain_of os) + sn_recovered (strain_of os) =
     int (length (filter ao_failed (sort_key ao_at os)))"
  using strain_unresolved by blast

end
