(* ===== verification/RecordStore.thy ===== *)
theory RecordStore
  imports JsPrelude
begin

text \<open>
  \<open>packages/core/src/store/json-records.ts\<close>: a directory of JSON files, one per record, named by
  the record's id. The state is the files in the order they were made; a file whose text does
  not parse holds \<open>None\<close>, and reads as nothing there. The interface the stores of the program
  rely on is the locale below, interpreted on this directory.
\<close>

section \<open>A directory of records\<close>

type_synonym 'a record_dir = "(string \<times> 'a option) list"

definition dir_read :: "'a record_dir \<Rightarrow> string \<Rightarrow> 'a option" where
  "dir_read dir i = (case map_of dir i of None \<Rightarrow> None | Some file \<Rightarrow> file)"

fun dir_write :: "'a record_dir \<Rightarrow> string \<Rightarrow> 'a \<Rightarrow> 'a record_dir" where
  "dir_write [] i r = [(i, Some r)]"
| "dir_write ((j, file) # dir) i r =
     (if j = i then (i, Some r) # dir else (j, file) # dir_write dir i r)"

definition dir_remove :: "'a record_dir \<Rightarrow> string \<Rightarrow> 'a record_dir" where
  "dir_remove dir i = filter (\<lambda>(j, file). j \<noteq> i) dir"

text \<open>Every record that reads.\<close>

definition dir_all :: "'a record_dir \<Rightarrow> 'a list" where
  "dir_all dir = concat (map (\<lambda>(i, file). case file of None \<Rightarrow> [] | Some r \<Rightarrow> [r]) dir)"

section \<open>The interface of a store\<close>

locale record_store =
  fixes read_at :: "'s \<Rightarrow> string \<Rightarrow> 'a option"
    and write_at :: "'s \<Rightarrow> string \<Rightarrow> 'a \<Rightarrow> 's"
    and remove_at :: "'s \<Rightarrow> string \<Rightarrow> 's"
    and sound :: "'s \<Rightarrow> bool"
  assumes read_write: "sound s \<Longrightarrow> read_at (write_at s i r) j = (if j = i then Some r else read_at s j)"
    and read_remove: "sound s \<Longrightarrow> read_at (remove_at s i) j = (if j = i then None else read_at s j)"
    and sound_write: "sound s \<Longrightarrow> sound (write_at s i r)"
    and sound_remove: "sound s \<Longrightarrow> sound (remove_at s i)"
begin

lemma read_own: "sound s \<Longrightarrow> read_at (write_at s i r) i = Some r"
  by (simp add: read_write)

lemma read_other: "sound s \<Longrightarrow> j \<noteq> i \<Longrightarrow> read_at (write_at s i r) j = read_at s j"
  by (simp add: read_write)

lemma overwrite: "sound s \<Longrightarrow> read_at (write_at (write_at s i q) i r) j = read_at (write_at s i r) j"
  by (simp add: read_write sound_write)

lemma write_then_remove:
  "sound s \<Longrightarrow> read_at s i = None \<Longrightarrow> read_at (remove_at (write_at s i r) i) j = read_at s j"
  by (simp add: read_write read_remove sound_write)

lemma writes_commute:
  "sound s \<Longrightarrow> i \<noteq> k \<Longrightarrow>
     read_at (write_at (write_at s i q) k r) j = read_at (write_at (write_at s k r) i q) j"
  by (simp add: read_write sound_write)

end

section \<open>The directory is a store\<close>

definition dir_sound :: "'a record_dir \<Rightarrow> bool" where
  "dir_sound dir \<longleftrightarrow> distinct (map fst dir)"

lemma map_of_dir_write: "map_of (dir_write dir i r) j = (if j = i then Some (Some r) else map_of dir j)"
  by (induction dir i r rule: dir_write.induct) auto

lemma map_of_dir_remove: "map_of (dir_remove dir i) j = (if j = i then None else map_of dir j)"
  by (induction dir) (auto simp: dir_remove_def)

lemma fst_dir_write: "set (map fst (dir_write dir i r)) = insert i (set (map fst dir))"
  by (induction dir i r rule: dir_write.induct) auto

lemma dir_sound_Nil [simp]: "dir_sound []"
  by (simp add: dir_sound_def)

lemma dir_sound_write: "dir_sound dir \<Longrightarrow> dir_sound (dir_write dir i r)"
proof (induction dir i r rule: dir_write.induct)
  case (2 j f dir i r)
  then show ?case using fst_dir_write [of dir i r] by (auto simp: dir_sound_def)
qed (simp add: dir_sound_def)

lemma dir_sound_remove: "dir_sound dir \<Longrightarrow> dir_sound (dir_remove dir i)"
  by (auto simp: dir_sound_def dir_remove_def distinct_map intro: inj_on_subset)

interpretation record_dir: record_store dir_read dir_write dir_remove dir_sound
  by unfold_locales
    (auto simp: dir_read_def map_of_dir_write map_of_dir_remove dir_sound_write dir_sound_remove)

lemma dir_all_read:
  assumes "dir_sound dir"
  shows "r \<in> set (dir_all dir) \<longleftrightarrow> (\<exists>i. dir_read dir i = Some r)"
proof
  assume "r \<in> set (dir_all dir)"
  then obtain i where "(i, Some r) \<in> set dir"
    by (auto simp: dir_all_def split: option.splits)
  then have "map_of dir i = Some (Some r)"
    using assms by (simp add: dir_sound_def)
  then show "\<exists>i. dir_read dir i = Some r" by (metis dir_read_def option.simps(5))
next
  assume "\<exists>i. dir_read dir i = Some r"
  then obtain i where "map_of dir i = Some (Some r)"
    by (auto simp: dir_read_def split: option.splits)
  then have "(i, Some r) \<in> set dir" by (rule map_of_SomeD)
  then show "r \<in> set (dir_all dir)" by (force simp: dir_all_def)
qed

end
