(* ===== verification/SessionPauses.thy ===== *)
theory SessionPauses
  imports Breaker RecordStore
begin

text \<open>
  A session held for a person: \<open>packages/core/src/session/pause.ts\<close>, kept in a directory of
  records, and the pause a replayed history trips (\<open>session/breaker-pause.ts\<close>). The lock around
  \<open>pause\<close> makes its read and its write one step.
\<close>

section \<open>Pauses on disk\<close>

record session_pause =
  pz_session_id :: string
  pz_signal :: breaker_signal
  pz_reason :: string
  pz_reached :: rat
  pz_ceiling :: rat
  pz_paused_at :: time
  pz_last_action :: "string option"
  pz_resumed_at :: "time option"
  pz_resumed_by :: "string option"

type_synonym pauses = "session_pause record_dir"

definition pause_in_force :: "pauses \<Rightarrow> string \<Rightarrow> session_pause option" where
  "pause_in_force dir session =
     (case dir_read dir session of
        None \<Rightarrow> None
      | Some p \<Rightarrow> if pz_resumed_at p \<noteq> None then None else Some p)"

definition pause_session :: "pauses \<Rightarrow> session_pause \<Rightarrow> pauses" where
  "pause_session dir p =
     (if pause_in_force dir (pz_session_id p) \<noteq> None then dir
      else dir_write dir (pz_session_id p) p)"

definition pauses_all :: "pauses \<Rightarrow> session_pause list" where
  "pauses_all dir = sort_key pz_paused_at (dir_all dir)"

definition resume_session ::
  "pauses \<Rightarrow> string \<Rightarrow> string \<Rightarrow> time \<Rightarrow> session_pause option \<times> pauses" where
  "resume_session dir session who at' =
     (case pause_in_force dir session of
        None \<Rightarrow> (None, dir)
      | Some p \<Rightarrow>
          (let resumed = p\<lparr>pz_resumed_at := Some at', pz_resumed_by := Some who\<rparr> in
           (Some resumed, dir_write dir (pz_session_id resumed) resumed)))"

definition clear_session :: "pauses \<Rightarrow> string \<Rightarrow> pauses" where
  "clear_session dir session = dir_remove dir session"

definition describe_pause :: "session_pause \<Rightarrow> string" where
  "describe_pause p =
     join_with '' ''
       [''Memnox paused this session: '' @ pz_reason p @ ''.'',
        ''Nothing further will run until a person looks at it.'',
        ''A person can lift it with: memnox resume '' @ pz_session_id p @ '' --by <them>'']"

definition breaker_pause_for ::
  "string \<Rightarrow> ledger_event list \<Rightarrow> time \<Rightarrow> breaker_thresholds option \<Rightarrow> session_pause option" where
  "breaker_pause_for session events paused_at thresholds =
     (case breach_in (outcomes_from events) (or_else thresholds DEFAULT_THRESHOLDS) None of
        None \<Rightarrow> None
      | Some breach \<Rightarrow>
          Some \<lparr>pz_session_id = session, pz_signal = bb_signal breach, pz_reason = bb_reason breach,
                pz_reached = bb_reached breach, pz_ceiling = bb_ceiling breach,
                pz_paused_at = paused_at,
                pz_last_action = (if events = [] then None else Some (le_operation (last events))),
                pz_resumed_at = None, pz_resumed_by = None\<rparr>)"

section \<open>A pause holds until a person lifts it\<close>

datatype pause_op =
  Op_pause session_pause | Op_resume string string time | Op_clear string

fun pause_op_step :: "pauses \<Rightarrow> pause_op \<Rightarrow> pauses" where
  "pause_op_step dir (Op_pause p) = pause_session dir p"
| "pause_op_step dir (Op_resume session who at') = snd (resume_session dir session who at')"
| "pause_op_step dir (Op_clear session) = clear_session dir session"

text \<open>The operations that let a session go on.\<close>

fun lifts :: "string \<Rightarrow> pause_op \<Rightarrow> bool" where
  "lifts session (Op_pause p) = False"
| "lifts session (Op_resume s who at') = (s = session)"
| "lifts session (Op_clear s) = (s = session)"

definition run_pauses :: "pauses \<Rightarrow> pause_op list \<Rightarrow> pauses" where
  "run_pauses dir ops = foldl pause_op_step dir ops"

text \<open>Each file holds the record of the session it is named by.\<close>

definition filed :: "pauses \<Rightarrow> bool" where
  "filed dir \<longleftrightarrow> dir_sound dir \<and> (\<forall>i p. dir_read dir i = Some p \<longrightarrow> pz_session_id p = i)"

lemma pause_in_force_read:
  "pause_in_force dir s = Some p \<Longrightarrow> dir_read dir s = Some p \<and> pz_resumed_at p = None"
  by (auto simp: pause_in_force_def split: option.splits if_splits)

lemma filed_write: "filed dir \<Longrightarrow> pz_session_id p = i \<Longrightarrow> filed (dir_write dir i p)"
  by (auto simp: filed_def record_dir.read_write record_dir.sound_write split: if_splits)

lemma filed_remove: "filed dir \<Longrightarrow> filed (dir_remove dir i)"
  by (auto simp: filed_def record_dir.read_remove record_dir.sound_remove split: if_splits)

lemma filed_step: "filed dir \<Longrightarrow> filed (pause_op_step dir op')"
proof (cases op')
  case (Op_resume s who at')
  assume f: "filed dir"
  show ?thesis
  proof (cases "pause_in_force dir s")
    case (Some p)
    with f have "pz_session_id p = s" by (auto simp: filed_def dest: pause_in_force_read)
    with f Some Op_resume show ?thesis
      by (simp add: resume_session_def Let_def filed_write)
  qed (use f Op_resume in \<open>simp add: resume_session_def\<close>)
qed (auto simp: pause_session_def clear_session_def filed_write filed_remove)

lemma held_step:
  assumes "filed dir" and "pause_in_force dir s = Some p" and "\<not> lifts s op'"
  shows "pause_in_force (pause_op_step dir op') s = Some p"
proof (cases op')
  case (Op_pause q)
  with assms show ?thesis
    by (auto simp: pause_session_def filed_def pause_in_force_def record_dir.read_write)
next
  case (Op_resume t who at')
  with assms have "t \<noteq> s" by simp
  show ?thesis
  proof (cases "pause_in_force dir t")
    case (Some q)
    with assms(1) have "pz_session_id q = t" by (auto simp: filed_def dest: pause_in_force_read)
    with assms Op_resume Some \<open>t \<noteq> s\<close> show ?thesis
      by (simp add: resume_session_def Let_def filed_def pause_in_force_def record_dir.read_write)
  qed (use assms Op_resume in \<open>simp add: resume_session_def\<close>)
next
  case (Op_clear t)
  with assms show ?thesis
    by (simp add: clear_session_def filed_def pause_in_force_def record_dir.read_remove)
qed

lemma held_run:
  "filed dir \<Longrightarrow> pause_in_force dir s = Some p \<Longrightarrow> list_all (\<lambda>op'. \<not> lifts s op') ops \<Longrightarrow>
     pause_in_force (run_pauses dir ops) s = Some p"
proof (induction ops arbitrary: dir)
  case (Cons op' ops)
  then show ?case
    using held_step [of dir s p op'] filed_step [of dir op'] by (simp add: run_pauses_def)
qed (simp add: run_pauses_def)

lemma filed_Nil [simp]: "filed []"
  by (simp add: filed_def dir_read_def)

lemma filed_run: "filed dir \<Longrightarrow> filed (run_pauses dir ops)"
  by (induction ops arbitrary: dir) (simp_all add: run_pauses_def filed_step)

text \<open>
  A paused session stays paused, with the reason of the first pause, through any
  other operation on any session, later pauses of its own included, until somebody resumes it
  or clears it; resuming lifts it and leaves in the record who let it go on and when.
\<close>

theorem pause_holds_until_lifted:
  assumes "filed dir" and "pause_in_force dir s = Some p"
    and "list_all (\<lambda>op'. \<not> lifts s op') ops"
  shows "pause_in_force (run_pauses dir ops) s = Some p \<and>
    (let (answer, dir') = resume_session (run_pauses dir ops) s who at'
     in pause_in_force dir' s = None \<and>
        dir_read dir' s = Some (p\<lparr>pz_resumed_at := Some at', pz_resumed_by := Some who\<rparr>))"
proof -
  let ?d = "run_pauses dir ops"
  have held: "pause_in_force ?d s = Some p" by (rule held_run [OF assms])
  have f: "filed ?d" by (rule filed_run [OF assms(1)])
  with held have "pz_session_id p = s" by (auto simp: filed_def dest: pause_in_force_read)
  with held f show ?thesis
    by (simp add: resume_session_def Let_def filed_def pause_in_force_def record_dir.read_write)
qed

definition loop_pause :: "string \<Rightarrow> session_pause" where
  "loop_pause s = \<lparr>pz_session_id = s, pz_signal = ERROR_LOOP, pz_reason = ''the same command failed 5 times'',
     pz_reached = 5, pz_ceiling = 5, pz_paused_at = 0, pz_last_action = None,
     pz_resumed_at = None, pz_resumed_by = None\<rparr>"

theorem pause_holds_until_lifted_witness:
  "pause_in_force (run_pauses (pause_session [] (loop_pause ''a''))
     [Op_pause ((loop_pause ''a'')\<lparr>pz_reason := ''later''\<rparr>), Op_pause (loop_pause ''b''),
      Op_resume ''b'' ''ana'' 3, Op_clear ''c'']) ''a'' = Some (loop_pause ''a'')"
proof -
  have "filed (pause_session [] (loop_pause ''a''))"
    using filed_step [OF filed_Nil, of "Op_pause (loop_pause ''a'')"] by simp
  moreover have "pause_in_force (pause_session [] (loop_pause ''a'')) ''a'' = Some (loop_pause ''a'')"
    by code_simp
  moreover have "list_all (\<lambda>op'. \<not> lifts ''a'' op')
     [Op_pause ((loop_pause ''a'')\<lparr>pz_reason := ''later''\<rparr>), Op_pause (loop_pause ''b''),
      Op_resume ''b'' ''ana'' 3, Op_clear ''c'']" by simp
  ultimately show ?thesis
    using pause_holds_until_lifted by blast
qed

end
