(* ===== verification/SessionScope.thy ===== *)
theory SessionScope
  imports ActionTaxonomy Clock RecordStore
begin

text \<open>
  What somebody asked for, written down before the agent starts, and how a request sits against
  it: \<open>packages/core/src/domain/task.ts\<close> and \<open>packages/core/src/session/session-task.ts\<close>. The
  digest that names a repository's file is the parameter \<open>digest\<close>.
\<close>

section \<open>Comparing a request with the declared scope\<close>

definition DIMENSIONS ::
  "(scope_dimension \<times> (scope_subject \<Rightarrow> string option) \<times> (declared_scope \<Rightarrow> string list option)) list" where
  "DIMENSIONS =
     [(Dim_path, ss_path, ds_paths),
      (Dim_repository, ss_repository, ds_repositories),
      (Dim_service, ss_service, ds_services),
      (Dim_environment, ss_environment, ds_environments),
      (Dim_resource_kind, ss_resource_kind, ds_resource_kinds)]"

definition plain_comparison :: "scope_match \<Rightarrow> scope_comparison" where
  "plain_comparison m = \<lparr>sc_match = m, sc_dimension = None, sc_declared = None, sc_actual = None\<rparr>"

fun compare_from ::
  "bool \<Rightarrow> (scope_dimension \<times> (scope_subject \<Rightarrow> string option) \<times> (declared_scope \<Rightarrow> string list option)) list \<Rightarrow>
   declared_scope \<Rightarrow> scope_subject \<Rightarrow> (string list \<Rightarrow> string \<Rightarrow> bool) \<Rightarrow> scope_comparison" where
  "compare_from saw [] scope subject matches = plain_comparison (if saw then IN_SCOPE else UNDECLARED)"
| "compare_from saw ((d, actual_of, declared_of) # dims) scope subject matches =
     (case declared_of scope of
        None \<Rightarrow> compare_from saw dims scope subject matches
      | Some declared \<Rightarrow>
          if declared = [] then compare_from saw dims scope subject matches
          else (case actual_of subject of
                  None \<Rightarrow> compare_from saw dims scope subject matches
                | Some actual \<Rightarrow>
                    if matches declared actual then compare_from True dims scope subject matches
                    else \<lparr>sc_match = OUT_OF_SCOPE, sc_dimension = Some d,
                          sc_declared = Some declared, sc_actual = Some actual\<rparr>))"

definition compare_declared_scope ::
  "declared_scope \<Rightarrow> scope_subject \<Rightarrow> (string list \<Rightarrow> string \<Rightarrow> bool) \<Rightarrow> scope_comparison" where
  "compare_declared_scope scope subject matches = compare_from False DIMENSIONS scope subject matches"

section \<open>Tasks\<close>

datatype task_intent = TI_INVESTIGATE

record session_task =
  st_id :: string
  st_session_id :: string
  st_statement :: string
  st_scope :: declared_scope
  st_declared_at :: time
  st_expected_actions :: "nat option"
  st_intent :: "task_intent option"
  st_declared_by :: "string option"
  st_latest_ask :: "string option"

record task_declaration =
  td_session_id :: string
  td_statement :: string
  td_scope :: declared_scope
  td_expected_actions :: "nat option"
  td_intent :: "task_intent option"

definition task_for :: "task_declaration \<Rightarrow> time \<Rightarrow> session_task" where
  "task_for declaration now =
     \<lparr>st_id = ''tsk_'' @ int_radix_text 36 now, st_session_id = td_session_id declaration,
      st_statement = td_statement declaration, st_scope = td_scope declaration,
      st_declared_at = now, st_expected_actions = td_expected_actions declaration,
      st_intent = td_intent declaration, st_declared_by = None, st_latest_ask = None\<rparr>"

definition is_empty_scope :: "declared_scope \<Rightarrow> bool" where
  "is_empty_scope scope =
     list_all (\<lambda>each. case each of None \<Rightarrow> True | Some patterns \<Rightarrow> patterns = [])
       [ds_paths scope, ds_repositories scope, ds_services scope, ds_environments scope,
        ds_resource_kinds scope]"

definition subject_of :: "action_request \<Rightarrow> scope_subject" where
  "subject_of request =
     \<lparr>ss_path = rq_target request, ss_repository = rq_working_directory request,
      ss_service = rq_project_id request, ss_environment = rq_environment request,
      ss_resource_kind = Some (first_part CHR ''.'' (rq_action request))\<rparr>"

definition scope_of ::
  "session_task option \<Rightarrow> action_request \<Rightarrow> (string list \<Rightarrow> string \<Rightarrow> bool) \<Rightarrow> scope_comparison" where
  "scope_of task request matches =
     (case task of
        None \<Rightarrow> plain_comparison UNDECLARED
      | Some t \<Rightarrow> compare_declared_scope (st_scope t) (subject_of request) matches)"

fun dimension_text :: "scope_dimension \<Rightarrow> string" where
  "dimension_text Dim_path = ''path''"
| "dimension_text Dim_repository = ''repository''"
| "dimension_text Dim_service = ''service''"
| "dimension_text Dim_environment = ''environment''"
| "dimension_text Dim_resource_kind = ''resourceKind''"

definition describe_drift :: "session_task \<Rightarrow> scope_comparison \<Rightarrow> string" where
  "describe_drift task drift =
     (if sc_match drift \<noteq> OUT_OF_SCOPE then []
      else CHR 0x22 # st_statement task @ [CHR 0x22] @ '' declared '' @
           (case sc_dimension drift of None \<Rightarrow> ''undefined'' | Some d \<Rightarrow> dimension_text d) @ '' '' @
           join_with '', '' (or_else (sc_declared drift) []) @ ''; this touches '' @
           or_else (sc_actual drift) ''something else'')"

section \<open>Tasks of sessions and of repositories\<close>

definition tasks_declare :: "session_task record_dir \<Rightarrow> session_task \<Rightarrow> session_task record_dir" where
  "tasks_declare dir task = dir_write dir (st_session_id task) task"

definition tasks_read :: "session_task record_dir \<Rightarrow> string \<Rightarrow> session_task option" where
  "tasks_read dir session = dir_read dir session"

definition tasks_all :: "session_task record_dir \<Rightarrow> session_task list" where
  "tasks_all dir = sort_key st_declared_at (dir_all dir)"

definition tasks_clear :: "session_task record_dir \<Rightarrow> string \<Rightarrow> session_task record_dir" where
  "tasks_clear dir session = dir_remove dir session"

definition REPOSITORY_TASK_HOURS :: int where "REPOSITORY_TASK_HOURS = 12"

record repository_task =
  rt_task :: session_task
  rt_root :: string
  rt_until :: time

definition repository_task_for ::
  "string \<Rightarrow> task_declaration \<Rightarrow> time \<Rightarrow> int option \<Rightarrow> repository_task" where
  "repository_task_for repo declaration now hours =
     \<lparr>rt_task = task_for (declaration\<lparr>td_session_id := ''repo:'' @ repo\<rparr>) now, rt_root = repo,
      rt_until = now + or_else hours REPOSITORY_TASK_HOURS * HOUR_MS\<rparr>"

definition repo_declare ::
  "(string \<Rightarrow> string) \<Rightarrow> repository_task record_dir \<Rightarrow> string \<Rightarrow> task_declaration \<Rightarrow> time \<Rightarrow> int option \<Rightarrow>
   repository_task \<times> repository_task record_dir" where
  "repo_declare digest dir repo declaration now hours =
     (let task = repository_task_for repo declaration now hours in
      (task, dir_write dir (digest repo) task))"

definition repo_in_force ::
  "(string \<Rightarrow> string) \<Rightarrow> repository_task record_dir \<Rightarrow> string option \<Rightarrow> time \<Rightarrow> repository_task option" where
  "repo_in_force digest dir repo now =
     (case repo of
        None \<Rightarrow> None
      | Some r \<Rightarrow>
          (case dir_read dir (digest r) of
             None \<Rightarrow> None
           | Some task \<Rightarrow> if rt_until task > now then Some task else None))"

definition repo_clear ::
  "(string \<Rightarrow> string) \<Rightarrow> repository_task record_dir \<Rightarrow> string \<Rightarrow> repository_task record_dir" where
  "repo_clear digest dir repo = dir_remove dir (digest repo)"

section \<open>Scope is compared, not judged\<close>

text \<open>The dimensions both sides state: a declared pattern list that is not empty, and a value.\<close>

definition stated ::
  "(scope_dimension \<times> (scope_subject \<Rightarrow> string option) \<times> (declared_scope \<Rightarrow> string list option)) list \<Rightarrow>
   declared_scope \<Rightarrow> scope_subject \<Rightarrow> (scope_dimension \<times> string list \<times> string) list" where
  "stated dims scope subject =
     concat (map (\<lambda>(d, actual_of, declared_of).
       case (declared_of scope, actual_of subject) of
         (Some declared, Some actual) \<Rightarrow> if declared = [] then [] else [(d, declared, actual)]
       | _ \<Rightarrow> []) dims)"

definition judged :: "bool \<Rightarrow> (scope_dimension \<times> string list \<times> string) list \<Rightarrow>
   (string list \<Rightarrow> string \<Rightarrow> bool) \<Rightarrow> scope_comparison" where
  "judged saw sts matches =
     (case List.find (\<lambda>(d, declared, actual). \<not> matches declared actual) sts of
        Some (d, declared, actual) \<Rightarrow>
          \<lparr>sc_match = OUT_OF_SCOPE, sc_dimension = Some d, sc_declared = Some declared,
           sc_actual = Some actual\<rparr>
      | None \<Rightarrow> plain_comparison (if saw \<or> sts \<noteq> [] then IN_SCOPE else UNDECLARED))"

lemma compare_from_stated:
  "compare_from saw dims scope subject matches = judged saw (stated dims scope subject) matches"
  by (induction saw dims scope subject matches rule: compare_from.induct)
     (auto simp: stated_def judged_def split: option.splits)

text \<open>
  Scope is compared field by field and never guessed: a request is out of scope
  exactly for the first dimension, in the order path, repository, service, environment, kind,
  that the task and the request both state and no declared pattern matches; it is undeclared
  exactly when they state none in common, and in scope otherwise.
\<close>

theorem scope_is_first_mismatch:
  "scope_of (Some task) request matches =
     judged False (stated DIMENSIONS (st_scope task) (subject_of request)) matches"
  by (simp add: scope_of_def compare_declared_scope_def compare_from_stated)

definition narrow_scope :: declared_scope where
  "narrow_scope = \<lparr>ds_paths = Some [''src/*''], ds_repositories = None, ds_services = Some [],
     ds_environments = Some [''staging''], ds_resource_kinds = None\<rparr>"

text \<open>
  A task declared for a repository stands for the hours it was given, twelve where
  none were said, and then is gone by itself; declaring again replaces it, and clearing it ends
  it at once. Other repositories, whose digests differ, are not touched.
\<close>

theorem repository_task_lapses:
  assumes "dir_sound dir" and "digest other \<noteq> digest repo"
  shows "let (task, dir') = repo_declare digest dir repo declaration now hours
         in repo_in_force digest dir' (Some repo) t =
              (if t < now + or_else hours 12 * HOUR_MS then Some task else None) \<and>
            repo_in_force digest (repo_clear digest dir' repo) (Some repo) t = None \<and>
            repo_in_force digest dir' (Some other) t = repo_in_force digest dir (Some other) t"
  using assms record_dir.sound_write [OF assms(1)]
  unfolding repo_declare_def Let_def prod.case
  by (simp add: repo_in_force_def repo_clear_def record_dir.read_write
        record_dir.read_remove repository_task_for_def REPOSITORY_TASK_HOURS_def)

theorem repository_task_lapses_witness:
  "let (task, dir') = repo_declare id [] ''/repo''
        \<lparr>td_session_id = [], td_statement = ''s'', td_scope = narrow_scope, td_expected_actions = None,
         td_intent = None\<rparr> 0 None
   in repo_in_force id dir' (Some ''/repo'') (13 * HOUR_MS) = None"
proof -
  have "\<not> (13 * HOUR_MS < 0 + or_else None 12 * HOUR_MS)" by code_simp
  then show ?thesis
    using repository_task_lapses [of "[]" id "''/other''" "''/repo''"
      "\<lparr>td_session_id = [], td_statement = ''s'', td_scope = narrow_scope, td_expected_actions = None,
         td_intent = None\<rparr>" 0 None "13 * HOUR_MS"]
    by (simp add: Let_def split: prod.splits)
qed

end
