(* ===== verification/Allowances.thy ===== *)
theory Allowances
  imports PatternMatcher Clock Vocabulary
begin

text \<open>
  A scope a person allowed for a while: \<open>packages/core/src/gate/allowances.ts\<close>. The state of the
  store is the array its file holds; a file that is missing or torn holds the empty one.
\<close>

section \<open>Allowances\<close>

definition MOST_ALLOWANCE_MINUTES :: int where "MOST_ALLOWANCE_MINUTES = 8 * 60"

record allowance =
  aw_id :: string
  aw_actions :: "string list"
  aw_environments :: "string list option"
  aw_targets :: "string list option"
  aw_agents :: "string list option"
  aw_by :: string
  aw_reason :: "string option"
  aw_since :: time
  aw_until :: time
  aw_revoked_at :: "time option"

definition in_force_at :: "allowance \<Rightarrow> time \<Rightarrow> bool" where
  "in_force_at allowance now =
     (aw_revoked_at allowance = None \<and> aw_until allowance > now \<and> aw_since allowance \<le> now)"

definition covers :: "action_request \<Rightarrow> string \<Rightarrow> time \<Rightarrow> allowance \<Rightarrow> bool" where
  "covers request agent_name now each =
     (in_force_at each now \<and>
      matches_any (Some (aw_actions each)) (Some (rq_action request)) \<and>
      matches_any (aw_environments each) (rq_environment request) \<and>
      matches_any (aw_targets each) (rq_target request) \<and>
      matches_any (aw_agents each) (Some agent_name))"

definition allowance_for ::
  "allowance list \<Rightarrow> action_request \<Rightarrow> string \<Rightarrow> time \<Rightarrow> allowance option" where
  "allowance_for allowances request agent_name now =
     List.find (covers request agent_name now) allowances"

definition describe_allowance :: "allowance \<Rightarrow> string" where
  "describe_allowance allowance =
     aw_by allowance @ '' allowed this until '' @ iso_text (aw_until allowance) @
     (case aw_reason allowance of None \<Rightarrow> [] | Some reason \<Rightarrow> '' ('' @ reason @ '')'') @
     '', allowance '' @ aw_id allowance"

section \<open>The file of allowances\<close>

definition allowances_in_force :: "allowance list \<Rightarrow> time \<Rightarrow> allowance list" where
  "allowances_in_force file now = filter (\<lambda>each. in_force_at each now) file"

definition add_allowance :: "allowance list \<Rightarrow> allowance \<Rightarrow> allowance list" where
  "add_allowance file allowance =
     filter (\<lambda>each. aw_until each > aw_since allowance - 24 * 60 * 60 * 1000) file @ [allowance]"

definition revoke_allowance ::
  "allowance list \<Rightarrow> string \<Rightarrow> time \<Rightarrow> allowance option \<times> allowance list" where
  "revoke_allowance file i now =
     (case find_index (\<lambda>each. aw_id each = i) file of
        None \<Rightarrow> (None, file)
      | Some k \<Rightarrow>
          (let found = file ! k;
               revoked = found\<lparr>aw_revoked_at := Some (or_else (aw_revoked_at found) now)\<rparr>
           in (Some revoked, file[k := revoked])))"

section \<open>What an allowance is worth\<close>

lemma covers_in_force: "covers r a now x \<Longrightarrow> in_force_at x now"
  by (simp add: covers_def)

lemma allowance_for_Some:
  "allowance_for as r a now = Some x \<Longrightarrow> x \<in> set as \<and> covers r a now x"
  unfolding allowance_for_def by (rule find_in)

lemma revoke_sound:
  assumes "distinct (map aw_id file)" and "x \<in> set (snd (revoke_allowance file i now))" and "aw_id x = i"
  shows "aw_revoked_at x \<noteq> None"
proof (cases "find_index (\<lambda>each. aw_id each = i) file")
  case None
  with assms(2,3) show ?thesis by (auto simp: revoke_allowance_def find_index_None)
next
  case (Some k)
  then have k: "k < length file" "aw_id (file ! k) = i"
    using find_index_Some [OF Some] by auto
  let ?rev = "(file ! k)\<lparr>aw_revoked_at := Some (or_else (aw_revoked_at (file ! k)) now)\<rparr>"
  from Some assms(2) have "x \<in> set (file[k := ?rev])"
    by (simp add: revoke_allowance_def Let_def)
  then obtain j where j: "j < length file" "x = (file[k := ?rev]) ! j"
    by (auto simp: in_set_conv_nth)
  show ?thesis
  proof (cases "j = k")
    case True
    with j k show ?thesis by simp
  next
    case False
    with j have "x = file ! j" by simp
    with k j(1) assms(1,3) False have "j = k" by (auto simp: distinct_conv_nth)
    with False show ?thesis by simp
  qed
qed

text \<open>
  Debugging access never becomes standing authority: an allowance covers nothing
  before it begins, nothing from the moment it ends, whatever was added since, and once its id
  is revoked nothing at all.
\<close>

theorem allowance_ends_on_its_own:
  assumes "distinct (map aw_id file)"
  shows "list_all (\<lambda>x. now < aw_until x \<and> aw_since x \<le> now)
           (case allowance_for (add_allowance file new) r agent now of None \<Rightarrow> [] | Some x \<Rightarrow> [x]) \<and>
         list_all (\<lambda>x. aw_id x \<noteq> i)
           (case allowance_for (snd (revoke_allowance file i at')) r agent now of None \<Rightarrow> [] | Some x \<Rightarrow> [x])"
proof
  show "list_all (\<lambda>x. now < aw_until x \<and> aw_since x \<le> now)
      (case allowance_for (add_allowance file new) r agent now of None \<Rightarrow> [] | Some x \<Rightarrow> [x])"
    by (auto split: option.split dest!: allowance_for_Some simp: covers_def in_force_at_def)
  show "list_all (\<lambda>x. aw_id x \<noteq> i)
      (case allowance_for (snd (revoke_allowance file i at')) r agent now of None \<Rightarrow> [] | Some x \<Rightarrow> [x])"
  proof (cases "allowance_for (snd (revoke_allowance file i at')) r agent now")
    case (Some x)
    then have x: "x \<in> set (snd (revoke_allowance file i at'))" "aw_revoked_at x = None"
      by (auto dest!: allowance_for_Some simp: covers_def in_force_at_def)
    with revoke_sound [OF assms x(1)] have "aw_id x \<noteq> i" by blast
    with Some show ?thesis by simp
  qed simp
qed

definition staging_access :: allowance where
  "staging_access = \<lparr>aw_id = ''alw_1'', aw_actions = [''vercel.*''], aw_environments = Some [''staging''],
     aw_targets = None, aw_agents = Some [''claude-code''], aw_by = ''ana'', aw_reason = None,
     aw_since = 0, aw_until = 30 * MINUTE_MS, aw_revoked_at = None\<rparr>"

theorem allowance_ends_on_its_own_witness:
  "allowance_for (snd (revoke_allowance [staging_access] ''alw_1'' 5))
     ((bare_request ''vercel.deploy'')\<lparr>rq_environment := Some ''staging''\<rparr>) ''claude-code'' 10 = None \<and>
   allowance_for [staging_access]
     ((bare_request ''vercel.deploy'')\<lparr>rq_environment := Some ''staging''\<rparr>) ''claude-code'' 10 =
     Some staging_access"
proof
  let ?r = "(bare_request ''vercel.deploy'')\<lparr>rq_environment := Some ''staging''\<rparr>"
  have "distinct (map aw_id [staging_access])" by simp
  from allowance_ends_on_its_own [OF this, of 10 staging_access ?r "''claude-code''" "''alw_1''" 5]
  have "list_all (\<lambda>x. aw_id x \<noteq> ''alw_1'')
      (case allowance_for (snd (revoke_allowance [staging_access] ''alw_1'' 5)) ?r ''claude-code'' 10 of
         None \<Rightarrow> [] | Some x \<Rightarrow> [x])" by blast
  moreover have "\<And>x. x \<in> set (snd (revoke_allowance [staging_access] ''alw_1'' 5)) \<Longrightarrow> aw_id x = ''alw_1''"
    by (auto simp: revoke_allowance_def staging_access_def Let_def)
  ultimately show "allowance_for (snd (revoke_allowance [staging_access] ''alw_1'' 5)) ?r ''claude-code'' 10 = None"
    by (auto split: option.splits dest!: allowance_for_Some)
  show "allowance_for [staging_access] ?r ''claude-code'' 10 = Some staging_access" by code_simp
qed

end
