(* ===== verification/PosixPath.thy ===== *)
theory PosixPath
  imports JsPrelude
begin

text \<open>
  The functions of \<open>node:path\<close> the gate places a path with, on POSIX, and \<open>realPathOf\<close> of
  \<open>packages/core/src/gate/protected-paths.ts\<close>. What the file system says of links is a field
  of the environment: the answer of \<open>realpathSync.native\<close>, \<open>None\<close> where it throws.
\<close>

section \<open>Parts of a path\<close>

definition path_parts :: "string \<Rightarrow> string list" where
  "path_parts p = filter (\<lambda>s. s \<noteq> []) (split_on CHR ''/'' p)"

definition is_absolute :: "string \<Rightarrow> bool" where
  "is_absolute p = starts_with ''/'' p"

fun norm_abs :: "string list \<Rightarrow> string list \<Rightarrow> string list" where
  "norm_abs acc [] = rev acc"
| "norm_abs acc (p # ps) =
     (if p = ''.'' then norm_abs acc ps
      else if p = ''..'' then norm_abs (tl acc) ps
      else norm_abs (p # acc) ps)"

fun norm_rel :: "string list \<Rightarrow> string list \<Rightarrow> string list" where
  "norm_rel acc [] = rev acc"
| "norm_rel acc (p # ps) =
     (if p = ''.'' then norm_rel acc ps
      else if p = ''..'' \<and> acc \<noteq> [] \<and> hd acc \<noteq> ''..'' then norm_rel (tl acc) ps
      else norm_rel (p # acc) ps)"

definition absolute_text :: "string list \<Rightarrow> string" where
  "absolute_text parts = CHR ''/'' # join_with ''/'' parts"

text \<open>\<open>normalize(p)\<close>: dots resolved, a trailing slash kept.\<close>

definition normalize_path :: "string \<Rightarrow> string" where
  "normalize_path p =
     (let whole = is_absolute p; trailing = ends_with ''/'' p;
          text = join_with ''/'' (if whole then norm_abs [] (path_parts p) else norm_rel [] (path_parts p))
      in if text = [] then (if whole then ''/'' else if trailing then ''./'' else ''.'')
         else (if whole then ''/'' else []) @ text @ (if trailing then ''/'' else []))"

text \<open>\<open>join(...parts)\<close>.\<close>

definition join_paths :: "string list \<Rightarrow> string" where
  "join_paths parts =
     (let given = filter (\<lambda>s. s \<noteq> []) parts in
      if given = [] then ''.'' else normalize_path (join_with ''/'' given))"

text \<open>\<open>resolve(base, target)\<close> in a process whose directory is \<open>cwd\<close>.\<close>

definition resolve_parts :: "string \<Rightarrow> string \<Rightarrow> string \<Rightarrow> string list" where
  "resolve_parts cwd base target =
     norm_abs [] (if is_absolute target then path_parts target
       else if is_absolute base then path_parts base @ path_parts target
       else path_parts cwd @ path_parts base @ path_parts target)"

definition resolve_path :: "string \<Rightarrow> string \<Rightarrow> string \<Rightarrow> string" where
  "resolve_path cwd base target = absolute_text (resolve_parts cwd base target)"

fun common_dropped :: "string list \<Rightarrow> string list \<Rightarrow> string list \<times> string list" where
  "common_dropped (a # as) (b # bs) = (if a = b then common_dropped as bs else (a # as, b # bs))"
| "common_dropped as bs = (as, bs)"

text \<open>\<open>relative(from, to)\<close>.\<close>

definition relative_path :: "string \<Rightarrow> string \<Rightarrow> string \<Rightarrow> string" where
  "relative_path cwd base target =
     (let (up, down) = common_dropped (resolve_parts cwd [] base) (resolve_parts cwd [] target)
      in join_with ''/'' (replicate (length up) ''..'' @ down))"

section \<open>Where a path really lands\<close>

record fs_env =
  fe_cwd :: string
  fe_home :: string
  fe_realpath :: "string \<Rightarrow> string option"

text \<open>From the whole path up to the part of it that exists; the rest is joined back on.\<close>

fun real_from :: "(string \<Rightarrow> string option) \<Rightarrow> string \<Rightarrow> string list \<Rightarrow> string list \<Rightarrow> string" where
  "real_from realpath whole [] rest =
     (case realpath ''/'' of Some r \<Rightarrow> join_paths (r # rest) | None \<Rightarrow> whole)"
| "real_from realpath whole (p # up) rest =
     (case realpath (absolute_text (rev (p # up))) of
        Some r \<Rightarrow> join_paths (r # rest)
      | None \<Rightarrow> real_from realpath whole up (p # rest))"

definition at_home :: "string \<Rightarrow> string \<Rightarrow> string" where
  "at_home home target =
     (if target = ''~'' \<or> starts_with ''~/'' target then home @ drop 1 target else target)"

definition real_path_of :: "fs_env \<Rightarrow> string \<Rightarrow> string option \<Rightarrow> string" where
  "real_path_of env target cwd =
     (let parts = resolve_parts (fe_cwd env) (or_else cwd (fe_cwd env)) (at_home (fe_home env) target)
      in real_from (fe_realpath env) (absolute_text parts) (rev parts) [])"

section \<open>Facts\<close>

lemma norm_abs_plain:
  "list_all (\<lambda>p. p \<noteq> ''.'' \<and> p \<noteq> ''..'') ps \<Longrightarrow> norm_abs acc ps = rev acc @ ps"
  by (induction ps arbitrary: acc) auto

lemma set_norm_abs: "set (norm_abs acc ps) \<subseteq> set acc \<union> set ps"
proof (induction acc ps rule: norm_abs.induct)
  case (2 acc p ps)
  have "set (tl acc) \<subseteq> set acc" by (cases acc) auto
  with 2 show ?case by auto
qed simp

lemma norm_abs_no_dots:
  "list_all (\<lambda>p. p \<noteq> ''.'' \<and> p \<noteq> ''..'') acc \<Longrightarrow>
     list_all (\<lambda>p. p \<noteq> ''.'' \<and> p \<noteq> ''..'') (norm_abs acc ps)"
proof (induction acc ps rule: norm_abs.induct)
  case (2 acc p ps)
  have "list_all (\<lambda>p. p \<noteq> ''.'' \<and> p \<noteq> ''..'') (tl acc)" using "2.prems" by (cases acc) auto
  with 2 show ?case by auto
qed simp

lemma path_parts_facts: "s \<in> set (path_parts p) \<Longrightarrow> s \<noteq> [] \<and> CHR ''/'' \<notin> set s"
  by (auto simp: path_parts_def dest: split_on_parts)

lemma resolve_parts_facts:
  "s \<in> set (resolve_parts cwd base target) \<Longrightarrow> s \<noteq> [] \<and> CHR ''/'' \<notin> set s"
  using path_parts_facts
  by (fastforce simp: resolve_parts_def split: if_splits dest!: subsetD [OF set_norm_abs])

lemma path_parts_absolute_text:
  assumes "list_all (\<lambda>s. s \<noteq> [] \<and> CHR ''/'' \<notin> set s) ps"
  shows "path_parts (absolute_text ps) = ps"
proof (cases "ps = []")
  case False
  have "split_on CHR ''/'' (join_with ''/'' ps) = ps"
    using split_join [OF False, of "CHR ''/''"] assms by (simp add: list_all_iff)
  moreover have "filter (\<lambda>s. s \<noteq> []) ps = ps"
    using assms by (simp add: list_all_iff filter_id_conv)
  ultimately show ?thesis by (simp add: path_parts_def absolute_text_def)
qed (simp add: path_parts_def absolute_text_def)

lemma resolve_path_idem:
  "resolve_parts cwd base (resolve_path cwd' base' target) = resolve_parts cwd' base' target"
proof -
  let ?ps = "resolve_parts cwd' base' target"
  have ok: "list_all (\<lambda>s. s \<noteq> [] \<and> CHR ''/'' \<notin> set s) ?ps"
    using resolve_parts_facts by (auto simp: list_all_iff)
  have "norm_abs [] ?ps = ?ps"
    using norm_abs_plain [of ?ps "[]"] norm_abs_no_dots [of "[]"]
    by (simp add: resolve_parts_def)
  moreover have "is_absolute (absolute_text ?ps)"
    by (simp add: is_absolute_def absolute_text_def starts_with_def)
  ultimately show ?thesis
    unfolding resolve_path_def resolve_parts_def [of cwd base]
    by (simp add: path_parts_absolute_text [OF ok])
qed

lemma common_dropped_Nil: "fst (common_dropped xs ys) = [] \<longleftrightarrow> prefix xs ys"
  by (induction xs ys rule: common_dropped.induct) auto

end
