(* ===== verification/SelfProtection.thy ===== *)
theory SelfProtection
  imports PosixPath Vocabulary
begin

text \<open>
  Memnox's own rules and state are a person's to change: \<open>packages/core/src/gate/protected-paths.ts\<close>
  and \<open>packages/core/src/gate/self-protection.ts\<close>. The regular expressions of the sources are
  written out as tests on the ends of a path and on its last name.
\<close>

section \<open>Protected paths\<close>

text \<open>\<open>/(^|\/)suffix$/\<close> for a literal suffix.\<close>

definition ends_in_path :: "string \<Rightarrow> string \<Rightarrow> bool" where
  "ends_in_path tail path = (path = tail \<or> ends_with (CHR ''/'' # tail) path)"

definition is_claude_settings :: "string \<Rightarrow> bool" where
  "is_claude_settings path =
     (ends_in_path ''.claude/settings.json'' path \<or> ends_in_path ''.claude/settings.local.json'' path \<or>
      ends_in_path ''.claude.json'' path)"

definition binary_name :: "string \<Rightarrow> bool" where
  "binary_name name =
     (name = ''memnox'' \<or>
      (starts_with ''memnox-'' name \<and> length name > 7 \<and>
       list_all (\<lambda>c. is_word c \<or> c = CHR ''-'') (drop 7 name)))"

definition is_memnox_binary :: "string \<Rightarrow> bool" where
  "is_memnox_binary path =
     (let name = last_part CHR ''/'' path in
      binary_name name \<and> (ends_with (''/bin/'' @ name) path \<or> ends_with (''/.bin/'' @ name) path))"

definition is_rule_file :: "string \<Rightarrow> bool" where
  "is_rule_file name =
     (name \<in> set [''memnox.policies.toml'', ''memnox.policies.yaml'', ''memnox.policies.yml'',
                   ''memnox.policies.json''] \<or>
      ends_with ''.policies.toml'' name)"

definition slashed :: "string \<Rightarrow> string" where
  "slashed target = map (\<lambda>c. if c = char_of (92 :: nat) then CHR ''/'' else c) target"

definition is_protected_path :: "string \<Rightarrow> bool" where
  "is_protected_path target =
     (let path = slashed target in
      if includes_text ''/.memnox/'' path \<or> ends_with ''/.memnox'' path \<or> starts_with ''.memnox/'' path
      then True
      else if is_rule_file (last_part CHR ''/'' path) then True
      else is_claude_settings path \<or> is_memnox_binary path)"

definition touches_protected :: "fs_env \<Rightarrow> string \<Rightarrow> string option \<Rightarrow> bool" where
  "touches_protected env target cwd =
     (is_protected_path target \<or> is_protected_path (real_path_of env target cwd))"

text \<open>The alternatives of \<open>NAMES_PROTECTED\<close> that match at the start of a text, in their order.\<close>

definition at_word_end :: "string \<Rightarrow> bool" where
  "at_word_end rest = (case rest of [] \<Rightarrow> True | c # s \<Rightarrow> \<not> is_word c)"

definition names_here :: "string \<Rightarrow> string option" where
  "names_here s =
     List.find (\<lambda>name. starts_with name s \<and>
         (name \<in> set [''.memnox'', ''.policies.toml''] \<longrightarrow> at_word_end (drop (length name) s)))
       [''.memnox'', ''.policies.toml'', ''.claude/settings.local.json'', ''.claude/settings.json'',
        ''.claude.json'', ''disableAllHooks'', ''allowUnsandboxedCommands'']"

fun names_protected :: "string \<Rightarrow> string option" where
  "names_protected [] = names_here []"
| "names_protected (c # s) = first_some (names_here (c # s)) (names_protected s)"

section \<open>Refusing what would loosen the rules\<close>

definition SELF_PROTECTION_SIGNAL :: string where
  "SELF_PROTECTION_SIGNAL = ''self-protection''"

definition MEMNOX_ACTION_PREFIX :: string where
  "MEMNOX_ACTION_PREFIX = ''memnox.''"

definition LOOSENING :: "string list" where
  "LOOSENING = [''allow'', ''stop'', ''mode'', ''protect'', ''uninstall'', ''resume'', ''approve'',
     ''approvals'', ''trust'', ''repo'', ''task'', ''config'', ''agents'', ''mcp'', ''budget'',
     ''policy'', ''rewind'', ''voice'', ''pair'', ''devices'', ''signin'', ''signout'']"

definition READING :: "string list" where
  "READING = [''policy test'', ''policy check'', ''mode'', ''allow --list'', ''task show'',
     ''repo list'', ''approvals list'', ''config get'', ''agents list'', ''mcp list'',
     ''rewind --list'', ''devices list'']"

definition BARE_READS :: "string list" where
  "BARE_READS = [''mode'', ''voice'', ''devices'']"

definition WRITES :: "string list" where
  "WRITES = [FILESYSTEM_WRITE, FILESYSTEM_DELETE]"

text \<open>Why containment or protection spoke, and how strongly; the flags are absent as \<open>False\<close>.\<close>

record containment_ask =
  ck_reason :: string
  ck_signal :: string
  ck_refuses :: bool
  ck_checkpointed :: bool

definition loosens :: "string \<Rightarrow> bool" where
  "loosens command =
     (let words = (let parts = runs_off is_space (trim command) in if parts = [] then [[]] else parts);
          subcommand = hd words
      in if subcommand \<notin> set LOOSENING then False
         else (let spoken = join_with '' '' words in
               if subcommand \<in> set BARE_READS \<and> length words = 1 then False
               else \<not> list_ex (\<lambda>rd. rd \<noteq> ''mode'' \<and> starts_with rd spoken) READING))"

definition refusal :: "string \<Rightarrow> containment_ask" where
  "refusal reason =
     \<lparr>ck_reason = reason, ck_signal = SELF_PROTECTION_SIGNAL, ck_refuses = True,
      ck_checkpointed = False\<rparr>"

definition self_protection :: "fs_env \<Rightarrow> action_request \<Rightarrow> containment_ask option" where
  "self_protection env request =
     (if rq_action request \<in> set WRITES \<and> rq_target request \<noteq> None then
        (let target = or_else (rq_target request) [] in
         if \<not> touches_protected env target None then None
         else Some (refusal (target @ '' is Memnox's own rules or state, or the settings that install its hooks, which a person changes and an agent never does.'')))
      else if \<not> starts_with MEMNOX_ACTION_PREFIX (rq_action request) then None
      else (let said = or_else (rq_target request) (drop (length MEMNOX_ACTION_PREFIX) (rq_action request)) in
            if \<not> loosens said then None
            else Some (refusal (CHR 0x22 # ''memnox '' @ said @ CHR 0x22 #
              '' changes what agents may do, which is a person's to run and never an agent's.''))))"

lemma self_protection_refuses: "self_protection env r = Some ask \<Longrightarrow> ck_refuses ask \<and> \<not> ck_checkpointed ask"
  by (auto simp: self_protection_def refusal_def Let_def split: if_splits)

section \<open>Every spelling of a protected place\<close>

lemma includes_text_append: "includes_text p (s @ p @ t)"
proof (induction s)
  case Nil
  show ?case
  proof (cases "p @ t")
    case (Cons a l)
    then have "starts_with p (a # l)" by (metis starts_with_append)
    with Cons show ?thesis by simp
  qed simp
next
  case (Cons c s)
  then show ?case by simp
qed

lemma join_with_append:
  "xs \<noteq> [] \<Longrightarrow> ys \<noteq> [] \<Longrightarrow> join_with sep (xs @ ys) = join_with sep xs @ sep @ join_with sep ys"
proof (induction xs)
  case (Cons x xs)
  then show ?case by (cases "xs = []") (auto simp: join_with_Cons)
qed simp

text \<open>Below a slash, a part of a path shows as that part between slashes, or at its end.\<close>

lemma absolute_text_shows_part:
  assumes "p \<in> set ps"
  shows "includes_text (''/'' @ p @ ''/'') (absolute_text ps) \<or> ends_with (''/'' @ p) (absolute_text ps)"
proof -
  obtain xs ys where ps: "ps = xs @ p # ys" using assms by (meson split_list)
  define before where "before = (if xs = [] then [] else CHR ''/'' # join_with ''/'' xs)"
  have head: "absolute_text ps = before @ ''/'' @ join_with ''/'' (p # ys)"
    unfolding ps absolute_text_def before_def by (cases "xs = []") (simp_all add: join_with_append)
  show ?thesis
  proof (cases "ys = []")
    case True
    then have "absolute_text ps = before @ (''/'' @ p)" using head by simp
    then show ?thesis unfolding ends_with_iff by blast
  next
    case False
    then have "absolute_text ps = before @ (''/'' @ p @ ''/'') @ join_with ''/'' ys"
      using head by (simp add: join_with_Cons)
    then show ?thesis using includes_text_append [of "''/'' @ p @ ''/''"] by metis
  qed
qed

lemma slashed_fixed: "char_of (92 :: nat) \<notin> set p \<Longrightarrow> slashed p = p"
  by (induction p) (auto simp: slashed_def)

lemma slashed_append: "slashed (s @ t) = slashed s @ slashed t"
  by (simp add: slashed_def)

lemma includes_text_split: "includes_text p s \<Longrightarrow> \<exists>a b. s = a @ p @ b"
proof (induction s)
  case (Cons c s)
  show ?case
  proof (cases "starts_with p (c # s)")
    case True
    then obtain t where "c # s = p @ t" by (auto simp: starts_with_iff)
    then have "c # s = [] @ p @ t" by simp
    then show ?thesis by blast
  next
    case False
    with Cons obtain a b where "s = a @ p @ b" by auto
    then have "c # s = (c # a) @ p @ b" by simp
    then show ?thesis by blast
  qed
qed simp

lemma includes_text_iff: "includes_text p s \<longleftrightarrow> (\<exists>a b. s = a @ p @ b)"
  using includes_text_split includes_text_append by blast

lemma protected_part:
  assumes "''.memnox'' \<in> set ps"
  shows "is_protected_path (absolute_text ps)"
proof -
  have plain: "slashed ''/.memnox/'' = ''/.memnox/''" "slashed ''/.memnox'' = ''/.memnox''" by code_simp+
  from absolute_text_shows_part [OF assms]
  have "includes_text ''/.memnox/'' (slashed (absolute_text ps)) \<or>
      ends_with ''/.memnox'' (slashed (absolute_text ps))"
  proof
    assume "includes_text (''/'' @ ''.memnox'' @ ''/'') (absolute_text ps)"
    then obtain a b where "absolute_text ps = a @ ''/.memnox/'' @ b" by (auto simp: includes_text_iff)
    then have "slashed (absolute_text ps) = slashed a @ ''/.memnox/'' @ slashed b"
      using plain(1) by (metis slashed_append)
    then show ?thesis by (metis includes_text_append)
  next
    assume "ends_with (''/'' @ ''.memnox'') (absolute_text ps)"
    then obtain a where "absolute_text ps = a @ ''/.memnox''" by (auto simp: ends_with_iff)
    then have "slashed (absolute_text ps) = slashed a @ ''/.memnox''"
      using plain(2) by (metis slashed_append)
    then show ?thesis by (auto simp: ends_with_iff)
  qed
  then show ?thesis by (auto simp: is_protected_path_def Let_def)
qed

text \<open>
  However an agent spells it, with dots, a home shorthand, a directory above or a
  link, a write or a delete that really lands under a directory called \<open>.memnox\<close> is refused: the
  test is made on the path as written and on the place the file system says it is.
\<close>

theorem writes_under_memnox_are_refused:
  assumes "rq_action r = FILESYSTEM_WRITE \<or> rq_action r = FILESYSTEM_DELETE"
    and "rq_target r = Some target"
    and "real_path_of env target None = absolute_text landed" and "''.memnox'' \<in> set landed"
  shows "\<exists>ask. self_protection env r = Some ask \<and> ck_refuses ask \<and> \<not> ck_checkpointed ask"
proof -
  have "touches_protected env target None"
    using protected_part [OF assms(4)] by (simp add: touches_protected_def assms(3))
  moreover have "rq_action r \<in> set WRITES" using assms(1) by (auto simp: WRITES_def)
  ultimately have "self_protection env r \<noteq> None"
    using assms(2) by (simp add: self_protection_def Let_def)
  then obtain ask where "self_protection env r = Some ask" by auto
  with self_protection_refuses show ?thesis by blast
qed

text \<open>A home under \<open>/home/u\<close> where \<open>/tmp/notes\<close> is a link into the protected directory.\<close>

definition linked_env :: fs_env where
  "linked_env = \<lparr>fe_cwd = ''/repo'', fe_home = ''/home/u'',
     fe_realpath = (\<lambda>p. if p = ''/tmp/notes'' then Some ''/home/u/.memnox'' else if p = ''/'' then Some ''/'' else None)\<rparr>"

theorem writes_under_memnox_are_refused_witness:
  "\<exists>ask. self_protection linked_env
     ((bare_request FILESYSTEM_WRITE)\<lparr>rq_target := Some ''../tmp/./notes/policies.toml''\<rparr>) = Some ask \<and>
     ck_refuses ask \<and> \<not> ck_checkpointed ask"
proof (rule writes_under_memnox_are_refused)
  show "real_path_of linked_env ''../tmp/./notes/policies.toml'' None =
      absolute_text [''home'', ''u'', ''.memnox'', ''policies.toml'']" by code_simp
qed (simp_all add: bare_request_def)

end
