(* ===== verification/Containment.thy ===== *)
theory Containment
  imports SelfProtection PatternMatcher ActionTaxonomy
begin

text \<open>
  The layer under the rules nobody has to write: \<open>packages/core/src/gate/containment.ts\<close>. Three
  things it reads are fields of the environment: the file system (\<open>ge_fs\<close>), the host name
  \<open>new URL\<close> makes of a text (\<open>ge_hostname\<close>, \<open>None\<close> where it throws) and the class the verb tables
  give an action (\<open>ge_verb_class\<close>). The theorems hold for every environment.
\<close>

record gate_env =
  ge_fs :: fs_env
  ge_hostname :: "string \<Rightarrow> string option"
  ge_verb_class :: "string \<Rightarrow> string option"
  ge_redact :: "string \<Rightarrow> string"

section \<open>Classes and signals\<close>

datatype contained_class = CC_READ | CC_WRITE | CC_OUTWARD | CC_DESTRUCTIVE

fun contained_text :: "contained_class \<Rightarrow> string" where
  "contained_text CC_READ = ''read''"
| "contained_text CC_WRITE = ''write''"
| "contained_text CC_OUTWARD = ''outward''"
| "contained_text CC_DESTRUCTIVE = ''destructive''"

definition SIGNAL_BOUNDARY :: string where "SIGNAL_BOUNDARY = ''containment:boundary''"
definition SIGNAL_UNTRUSTED :: string where "SIGNAL_UNTRUSTED = ''containment:untrusted''"
definition SIGNAL_PROBATION :: string where "SIGNAL_PROBATION = ''containment:probation''"
definition SIGNAL_CHECKPOINTED :: string where "SIGNAL_CHECKPOINTED = ''containment:checkpointed''"

definition QUIET_DESTINATIONS :: "string list" where
  "QUIET_DESTINATIONS =
     [''registry.npmjs.org'', ''registry.yarnpkg.com'', ''pypi.org'', ''files.pythonhosted.org'',
      ''crates.io'', ''index.crates.io'', ''static.crates.io'', ''proxy.golang.org'',
      ''sum.golang.org'', ''rubygems.org'', ''repo.maven.apache.org'', ''repo1.maven.org'',
      ''api.anthropic.com'', ''api.openai.com'', ''chatgpt.com'',
      ''generativelanguage.googleapis.com'']"

record contained_probation =
  cp_name :: string
  cp_until :: string
  cp_trust_command :: string

record containment =
  cn_root :: "string option"
  cn_paths :: "string list option"
  cn_cwd :: "string option"
  cn_home :: "string option"
  cn_scratch :: "string list option"
  cn_untrusted :: bool
  cn_probation :: "contained_probation option"
  cn_quiet_hosts :: "string list option"

definition FILE_WRITES :: "string list" where
  "FILE_WRITES = [FILESYSTEM_WRITE, FILESYSTEM_DELETE]"

definition NETWORK :: "string list" where
  "NETWORK = [HTTP_REQUEST, HTTP_CONNECT]"

definition OUTWARD_ACTIONS :: "string list" where
  "OUTWARD_ACTIONS = [GIT_PUSH, BROWSER_NAVIGATE] @ NETWORK"

definition FILE_ACTIONS :: "string list" where
  "FILE_ACTIONS = FILESYSTEM_READ # FILE_WRITES"

definition from_tool_class :: "string \<Rightarrow> string option \<Rightarrow> contained_class option" where
  "from_tool_class action tool_class =
     (if tool_class = Some TC_READ then Some CC_READ
      else if tool_class = Some TC_DESTRUCTIVE then Some CC_DESTRUCTIVE
      else if tool_class = Some TC_COMMUNICATION then Some CC_OUTWARD
      else if tool_class \<noteq> Some TC_WRITE then None
      else Some (if first_part CHR ''.'' action \<in> set LOCAL_NAMESPACES then CC_WRITE else CC_OUTWARD))"

definition contained_class_of :: "gate_env \<Rightarrow> string \<Rightarrow> string option \<Rightarrow> contained_class" where
  "contained_class_of env action tool_class =
     (if action = FILESYSTEM_DELETE then CC_DESTRUCTIVE
      else if action = FILESYSTEM_WRITE then CC_WRITE
      else if action \<in> set OUTWARD_ACTIONS then CC_OUTWARD
      else (case from_tool_class action tool_class of
              Some stated \<Rightarrow> stated
            | None \<Rightarrow>
                (case ge_verb_class env action of
                   Some verb \<Rightarrow> or_else (from_tool_class action (Some verb)) CC_READ
                 | None \<Rightarrow>
                     (let c = classify_action_class action in
                      if ac_class c = DESTRUCTIVE_CLASS then CC_DESTRUCTIVE
                      else if ac_basis c = OUTWARD then CC_OUTWARD else CC_READ))))"

section \<open>Placing a path\<close>

definition absolute_of :: "gate_env \<Rightarrow> string \<Rightarrow> string \<Rightarrow> string option \<Rightarrow> string" where
  "absolute_of env target base home =
     (if home \<noteq> None \<and> (target = ''~'' \<or> starts_with ''~/'' target)
      then join_paths [or_else home [], drop 1 target]
      else if is_absolute target then resolve_path (fe_cwd (ge_fs env)) [] target
      else resolve_path (fe_cwd (ge_fs env)) base target)"

definition is_inside :: "gate_env \<Rightarrow> string \<Rightarrow> string \<Rightarrow> bool" where
  "is_inside env dir path =
     (let cwd = fe_cwd (ge_fs env);
          between = relative_path cwd (resolve_path cwd [] dir) (resolve_path cwd [] path)
      in between = [] \<or> (\<not> starts_with ''..'' between \<and> \<not> is_absolute between))"

definition base_of :: "action_request \<Rightarrow> containment \<Rightarrow> string \<Rightarrow> string" where
  "base_of request containment dir =
     or_else (rq_working_directory request) (or_else (cn_cwd containment) dir)"

definition boundary_ask ::
  "gate_env \<Rightarrow> action_request \<Rightarrow> containment \<Rightarrow> containment_ask option" where
  "boundary_ask env request containment =
     (case (cn_root containment, rq_target request) of
        (Some dir, Some target) \<Rightarrow>
          if rq_action request \<notin> set FILE_WRITES then None
          else
            (let path = absolute_of env target (base_of request containment dir) (cn_home containment);
                 real = real_path_of (ge_fs env) path None;
                 real_root = real_path_of (ge_fs env) dir None
             in if list_ex (\<lambda>d. is_inside env (real_path_of (ge_fs env) d None) real)
                     (or_else (cn_scratch containment) []) then None
                else if \<not> is_inside env real_root real then
                  Some \<lparr>ck_reason = path @ '' is outside '' @ dir @
                          '', where this session works, so a write there asks first.'',
                        ck_signal = SIGNAL_BOUNDARY, ck_refuses = False, ck_checkpointed = False\<rparr>
                else
                  (let declared = or_else (cn_paths containment) [];
                       cwd = fe_cwd (ge_fs env)
                   in if declared = [] then None
                      else if matches_any (Some declared) (Some (relative_path cwd real_root real)) \<or>
                              matches_any (Some declared) (Some real) then None
                      else Some \<lparr>ck_reason = relative_path cwd dir path @
                              '' is outside the paths this task declared ('' @ join_with '', '' declared @
                              ''), so a write there asks first.'',
                            ck_signal = SIGNAL_BOUNDARY, ck_refuses = False,
                            ck_checkpointed = False\<rparr>))
      | _ \<Rightarrow> None)"

definition stays_in_repository :: "gate_env \<Rightarrow> action_request \<Rightarrow> containment \<Rightarrow> bool" where
  "stays_in_repository env request containment =
     (case (cn_root containment, rq_target request) of
        (Some dir, Some target) \<Rightarrow>
          rq_action request \<in> set FILE_ACTIONS \<and>
          is_inside env dir
            (absolute_of env target (base_of request containment dir) (cn_home containment))
      | _ \<Rightarrow> False)"

section \<open>Untrusted repositories, probation, quiet hosts\<close>

definition is_key_file :: "string \<Rightarrow> bool" where
  "is_key_file name =
     (name = ''.env'' \<or>
      (starts_with ''.env.'' name \<and>
       (let rest = drop 5 name in
        rest \<noteq> [] \<and> rest \<notin> set [''example'', ''sample'', ''template''] \<and>
        list_all (\<lambda>c. is_word c \<or> c = CHR ''.'' \<or> c = CHR ''-'') rest)))"

definition untrusted_secret :: "action_request \<Rightarrow> containment \<Rightarrow> containment_ask option" where
  "untrusted_secret request containment =
     (if \<not> cn_untrusted containment \<or> rq_action request \<noteq> FILESYSTEM_READ then None
      else (let name = last_part CHR ''/'' (or_else (rq_target request) []) in
            if \<not> is_key_file name then None
            else Some \<lparr>ck_reason = name @ '' is a key file in an untrusted repository, so it is not read.'',
                   ck_signal = SIGNAL_UNTRUSTED, ck_refuses = True, ck_checkpointed = False\<rparr>))"

definition untrusted_ask :: "contained_class \<Rightarrow> containment \<Rightarrow> string \<Rightarrow> containment_ask option" where
  "untrusted_ask kind containment action =
     (if \<not> cn_untrusted containment then None
      else if kind \<noteq> CC_OUTWARD \<and> kind \<noteq> CC_DESTRUCTIVE then None
      else if starts_with ''mcp.'' action then
        Some \<lparr>ck_reason = ''This session runs an untrusted repository, so an MCP tool that changes something is refused; reading through it is not.'',
              ck_signal = SIGNAL_UNTRUSTED, ck_refuses = True, ck_checkpointed = False\<rparr>
      else Some \<lparr>ck_reason = ''This session runs an untrusted repository, so every '' @
                contained_text kind @ '' action asks first.'',
              ck_signal = SIGNAL_UNTRUSTED, ck_refuses = False, ck_checkpointed = False\<rparr>)"

definition undone_by_milestone :: "gate_env \<Rightarrow> action_request \<Rightarrow> containment \<Rightarrow> bool" where
  "undone_by_milestone env request containment =
     (if rq_action request \<noteq> FILESYSTEM_WRITE then False
      else (case (rq_target request, cn_root containment) of
              (Some target, Some dir) \<Rightarrow>
                is_inside env dir
                  (absolute_of env target (or_else (cn_cwd containment) dir) (cn_home containment))
            | _ \<Rightarrow> False))"

definition probation_ask ::
  "gate_env \<Rightarrow> action_request \<Rightarrow> containment \<Rightarrow> containment_ask option" where
  "probation_ask env request containment =
     (case cn_probation containment of
        None \<Rightarrow> None
      | Some probation \<Rightarrow>
          if undone_by_milestone env request containment then
            Some \<lparr>ck_reason = cp_name probation @
                    '' is on probation, so a milestone was kept before this write rather than asking: '' @
                    CHR 0x22 # ''memnox rewind'' @ CHR 0x22 # '' puts it back.'',
                  ck_signal = SIGNAL_CHECKPOINTED, ck_refuses = False, ck_checkpointed = True\<rparr>
          else
            Some \<lparr>ck_reason = cp_name probation @ '' is on probation until '' @
                    take 10 (cp_until probation) @ '', so its writes and outward actions ask first. '' @
                    CHR 0x22 # cp_trust_command probation @ CHR 0x22 # '' ends it now.'',
                  ck_signal = SIGNAL_PROBATION, ck_refuses = False, ck_checkpointed = False\<rparr>)"

definition unbracketed :: "string \<Rightarrow> string" where
  "unbracketed h =
     (let s = (if starts_with ''['' h then tl h else h) in
      if ends_with '']'' s then butlast s else s)"

definition host_of_destination :: "gate_env \<Rightarrow> string \<Rightarrow> string option" where
  "host_of_destination env target =
     (case ge_hostname env (if includes_text ''://'' target then target else ''https://'' @ target) of
        None \<Rightarrow> None
      | Some h \<Rightarrow> if h = [] then None else Some (unbracketed (to_lower h)))"

definition is_quiet :: "gate_env \<Rightarrow> action_request \<Rightarrow> containment \<Rightarrow> bool" where
  "is_quiet env request containment =
     (case rq_target request of
        None \<Rightarrow> False
      | Some target \<Rightarrow>
          rq_action request \<in> set NETWORK \<and>
          (case host_of_destination env target of
             None \<Rightarrow> False
           | Some host \<Rightarrow>
               list_ex (\<lambda>quiet. host = quiet \<or> ends_with (CHR ''.'' # quiet) host)
                 (or_else (cn_quiet_hosts containment) QUIET_DESTINATIONS)))"

definition containment_ask_for ::
  "gate_env \<Rightarrow> action_request \<Rightarrow> containment \<Rightarrow> string option \<Rightarrow> containment_ask option" where
  "containment_ask_for env request containment tool_class =
     (let kind = contained_class_of env (rq_action request) tool_class in
      case untrusted_secret request containment of
        Some secret \<Rightarrow> Some secret
      | None \<Rightarrow>
          if kind = CC_READ then None
          else if is_quiet env request containment then None
          else first_some (boundary_ask env request containment)
                 (first_some (untrusted_ask kind containment (rq_action request))
                   (probation_ask env request containment)))"

section \<open>Inside a directory\<close>

lemma relative_resolved:
  "relative_path cwd (resolve_path cwd [] a) (resolve_path cwd [] b) =
     join_with ''/'' (replicate (length (fst (common_dropped (resolve_parts cwd [] a) (resolve_parts cwd [] b)))) ''..'' @
       snd (common_dropped (resolve_parts cwd [] a) (resolve_parts cwd [] b)))"
  by (simp add: relative_path_def resolve_path_idem case_prod_unfold Let_def)

lemma resolve_parts_plain: "x \<in> set (resolve_parts cwd base t) \<Longrightarrow> x \<noteq> ''.''"
proof -
  have "list_all (\<lambda>p. p \<noteq> ''.'' \<and> p \<noteq> ''..'') (resolve_parts cwd base t)"
    unfolding resolve_parts_def by (rule norm_abs_no_dots) simp
  then show "x \<in> set (resolve_parts cwd base t) \<Longrightarrow> x \<noteq> ''.''" by (auto simp: list_all_iff)
qed

lemma join_starts_dots:
  assumes "x \<noteq> []" and "x \<noteq> ''.''" and "CHR ''/'' \<notin> set x"
  shows "starts_with ''..'' (join_with ''/'' (x # xs)) \<longleftrightarrow> starts_with ''..'' x"
    and "\<not> is_absolute (join_with ''/'' (x # xs))"
proof -
  obtain c t where x: "x = c # t" using assms(1) by (cases x) auto
  obtain w where w: "join_with ''/'' (x # xs) = x @ w \<and> (w = [] \<or> hd w = CHR ''/'')"
    by (cases "xs = []") (auto simp: join_with_Cons)
  show "\<not> is_absolute (join_with ''/'' (x # xs))"
    using w assms(3) x by (auto simp: is_absolute_def starts_with_def)
  show "starts_with ''..'' (join_with ''/'' (x # xs)) \<longleftrightarrow> starts_with ''..'' x"
  proof (cases t)
    case Nil
    with assms(2) x have "c \<noteq> CHR ''.''" by simp
    with w x Nil show ?thesis by (simp add: starts_with_def)
  next
    case (Cons d u)
    with w x show ?thesis by (simp add: starts_with_def)
  qed
qed

text \<open>The parts of a path below a directory, and none where it is not below it.\<close>

definition below :: "gate_env \<Rightarrow> string \<Rightarrow> string \<Rightarrow> string list option" where
  "below env dir path =
     (let cwd = fe_cwd (ge_fs env); ds = resolve_parts cwd [] dir; ps = resolve_parts cwd [] path in
      if take (length ds) ps = ds then Some (drop (length ds) ps) else None)"

lemma common_dropped_below:
  "take (length ds) ps = ds \<Longrightarrow> common_dropped ds ps = ([], drop (length ds) ps)"
proof (induction ds arbitrary: ps)
  case Nil
  show ?case by (cases ps) simp_all
next
  case (Cons d ds)
  then show ?case by (cases ps) simp_all
qed

lemma is_inside_below:
  "is_inside env dir path \<longleftrightarrow>
     (case below env dir path of
        None \<Rightarrow> False
      | Some rest \<Rightarrow> rest = [] \<or> \<not> starts_with ''..'' (hd rest))"
proof -
  define cwd where "cwd = fe_cwd (ge_fs env)"
  define ds where "ds = resolve_parts cwd [] dir"
  define ps where "ps = resolve_parts cwd [] path"
  define up where "up = fst (common_dropped ds ps)"
  define down where "down = snd (common_dropped ds ps)"
  have between: "is_inside env dir path =
      (let b = join_with ''/'' (replicate (length up) ''..'' @ down) in
       b = [] \<or> (\<not> starts_with ''..'' b \<and> \<not> is_absolute b))"
    unfolding is_inside_def relative_resolved cwd_def [symmetric] ds_def [symmetric]
      ps_def [symmetric] up_def [symmetric] down_def [symmetric] Let_def by (rule refl)
  show ?thesis
  proof (cases "take (length ds) ps = ds")
    case True
    then have parts: "up = []" "down = drop (length ds) ps"
      by (simp_all add: up_def down_def common_dropped_below)
    have b: "below env dir path = Some down"
      using True parts by (simp add: below_def cwd_def [symmetric] ds_def [symmetric] ps_def [symmetric] Let_def)
    show ?thesis
    proof (cases down)
      case Nil
      then show ?thesis by (simp add: between parts(1) b)
    next
      case (Cons x xs)
      then have "x \<in> set ps" using parts(2) by (metis in_set_dropD list.set_intros(1))
      then have x: "x \<noteq> []" "x \<noteq> ''.''" "CHR ''/'' \<notin> set x"
        using resolve_parts_facts resolve_parts_plain by (auto simp: ps_def)
      moreover have "join_with ''/'' (x # xs) \<noteq> []"
        using x(1) by (cases "xs = []") (simp_all add: join_with_Cons)
      ultimately show ?thesis
        using join_starts_dots [OF x, of xs] by (simp add: between parts(1) b Cons Let_def)
    qed
  next
    case False
    then have "up \<noteq> []"
      using common_dropped_Nil [of ds ps] by (auto simp: up_def prefix_def)
    then obtain n where n: "length up = Suc n" by (cases up) auto
    have "starts_with ''..'' (join_with ''/'' (''..'' # replicate n ''..'' @ down))"
      by (cases "replicate n ''..'' @ down = []") (simp_all add: join_with_Cons starts_with_def)
    moreover have "join_with ''/'' (''..'' # replicate n ''..'' @ down) \<noteq> []"
      by (cases "replicate n ''..'' @ down = []") (simp_all add: join_with_Cons)
    ultimately have "\<not> is_inside env dir path" by (simp add: between n Let_def)
    moreover have "below env dir path = None"
      using False by (simp add: below_def cwd_def [symmetric] ds_def [symmetric] ps_def [symmetric] Let_def)
    ultimately show ?thesis by simp
  qed
qed

text \<open>
  A path counts as inside a directory exactly when its parts, dots resolved, begin
  with the directory's and the part after them does not start with two dots. A file below the
  directory whose own name starts with two dots is therefore taken for one outside it.
\<close>

theorem is_inside_is_prefix:
  "is_inside env dir path \<longleftrightarrow>
     (let cwd = fe_cwd (ge_fs env); ds = resolve_parts cwd [] dir; ps = resolve_parts cwd [] path in
      take (length ds) ps = ds \<and>
      (drop (length ds) ps = [] \<or> \<not> starts_with ''..'' (hd (drop (length ds) ps))))"
  by (simp add: is_inside_below below_def Let_def)

definition plain_env :: gate_env where
  "plain_env =
     \<lparr>ge_fs = \<lparr>fe_cwd = ''/repo'', fe_home = ''/home/u'',
        fe_realpath = (\<lambda>p. if p = ''/repo/out'' then Some ''/etc'' else if p = ''/'' then Some ''/'' else None)\<rparr>,
      ge_hostname = (\<lambda>t. Some (takeWhile (\<lambda>c. c \<noteq> CHR ''/'') (drop 8 t))),
      ge_verb_class = (\<lambda>a. None), ge_redact = (\<lambda>t. t)\<rparr>"

text \<open>
  A file named with two leading dots right below the directory is not inside it,
  though a file of the same name one directory further down is.
\<close>

theorem dotted_name_is_outside:
  "\<not> is_inside plain_env ''/repo'' ''/repo/..cache'' \<and>
   is_inside plain_env ''/repo'' ''/repo/src/..cache''"
  by (intro conjI; code_simp)

section \<open>What containment never lets through in silence\<close>

lemma ask_for_write:
  assumes "rq_action r = FILESYSTEM_WRITE \<or> rq_action r = FILESYSTEM_DELETE"
  shows "containment_ask_for env r cn tc =
    first_some (boundary_ask env r cn)
      (first_some (untrusted_ask (contained_class_of env (rq_action r) tc) cn (rq_action r))
        (probation_ask env r cn))"
proof -
  have "untrusted_secret r cn = None" using assms by (auto simp: untrusted_secret_def)
  moreover have "contained_class_of env (rq_action r) tc \<noteq> CC_READ"
    using assms by (auto simp: contained_class_of_def)
  moreover have "\<not> is_quiet env r cn"
    using assms by (auto simp: is_quiet_def NETWORK_def split: option.split)
  ultimately show ?thesis by (simp add: containment_ask_for_def Let_def)
qed

text \<open>
  A write or a delete that really lands outside the repository, links followed, and
  in none of the scratch directories, is always put to a person, whatever class the caller
  states for it, probation and milestones included.
\<close>

theorem write_outside_repository_asks:
  assumes "rq_action r = FILESYSTEM_WRITE \<or> rq_action r = FILESYSTEM_DELETE"
    and "cn_root cn = Some dir" and "rq_target r = Some target"
    and "landed = real_path_of (ge_fs env) (absolute_of env target (base_of r cn dir) (cn_home cn)) None"
    and "\<not> is_inside env (real_path_of (ge_fs env) dir None) landed"
    and "list_all (\<lambda>d. \<not> is_inside env (real_path_of (ge_fs env) d None) landed)
           (or_else (cn_scratch cn) [])"
  shows "\<exists>ask. containment_ask_for env r cn tc = Some ask \<and> ck_signal ask = SIGNAL_BOUNDARY \<and>
    \<not> ck_checkpointed ask"
proof -
  have "rq_action r \<in> set FILE_WRITES" using assms(1) by (auto simp: FILE_WRITES_def)
  moreover have "\<not> list_ex (\<lambda>d. is_inside env (real_path_of (ge_fs env) d None) landed)
      (or_else (cn_scratch cn) [])"
    using assms(6) by (simp add: list_ex_iff list_all_iff)
  ultimately obtain ask where "boundary_ask env r cn = Some ask \<and> ck_signal ask = SIGNAL_BOUNDARY \<and>
      \<not> ck_checkpointed ask"
    using assms(2,3,5) unfolding assms(4) by (simp add: boundary_ask_def Let_def)
  then show ?thesis by (simp add: ask_for_write [OF assms(1)])
qed

definition bare_containment :: "string \<Rightarrow> containment" where
  "bare_containment dir =
     \<lparr>cn_root = Some dir, cn_paths = None, cn_cwd = None, cn_home = None, cn_scratch = Some [''/tmp''],
      cn_untrusted = False, cn_probation = None, cn_quiet_hosts = None\<rparr>"

theorem write_outside_repository_asks_witness:
  "\<exists>ask. containment_ask_for plain_env
     ((bare_request FILESYSTEM_WRITE)\<lparr>rq_target := Some ''out/passwd''\<rparr>)
     (bare_containment ''/repo'') (Some TC_READ) = Some ask \<and>
   ck_signal ask = SIGNAL_BOUNDARY \<and> \<not> ck_checkpointed ask"
proof (rule write_outside_repository_asks)
  let ?r = "(bare_request FILESYSTEM_WRITE)\<lparr>rq_target := Some ''out/passwd''\<rparr>"
  let ?cn = "bare_containment ''/repo''"
  show "rq_action ?r = FILESYSTEM_WRITE \<or> rq_action ?r = FILESYSTEM_DELETE"
    by (simp add: bare_request_def)
  show "cn_root ?cn = Some ''/repo''" by (simp add: bare_containment_def)
  show "rq_target ?r = Some ''out/passwd''" by simp
  show "''/etc/passwd'' = real_path_of (ge_fs plain_env)
      (absolute_of plain_env ''out/passwd'' (base_of ?r ?cn ''/repo'') (cn_home ?cn)) None"
    by code_simp
  show "\<not> is_inside plain_env (real_path_of (ge_fs plain_env) ''/repo'' None) ''/etc/passwd''"
    by code_simp
  show "list_all (\<lambda>d. \<not> is_inside plain_env (real_path_of (ge_fs plain_env) d None) ''/etc/passwd'')
      (or_else (cn_scratch ?cn) [])" by code_simp
qed

text \<open>
  In an untrusted repository every outward or destructive action that is not a
  request to a quiet host is put to a person, and an MCP tool that would do one is refused.
\<close>

theorem untrusted_repository_asks:
  assumes "cn_untrusted cn"
    and "contained_class_of env (rq_action r) tc \<in> {CC_OUTWARD, CC_DESTRUCTIVE}"
    and "\<not> is_quiet env r cn"
  shows "\<exists>ask. containment_ask_for env r cn tc = Some ask \<and> \<not> ck_checkpointed ask \<and>
    (starts_with ''mcp.'' (rq_action r) \<longrightarrow> ck_refuses ask)"
proof (cases "untrusted_secret r cn")
  case (Some ask)
  then have "ck_refuses ask \<and> \<not> ck_checkpointed ask"
    by (auto simp: untrusted_secret_def Let_def split: if_splits)
  with Some show ?thesis by (simp add: containment_ask_for_def Let_def)
next
  case None
  let ?k = "contained_class_of env (rq_action r) tc"
  have run: "containment_ask_for env r cn tc = first_some (boundary_ask env r cn)
      (first_some (untrusted_ask ?k cn (rq_action r)) (probation_ask env r cn))"
    using None assms(2,3) by (auto simp: containment_ask_for_def Let_def)
  have "untrusted_ask ?k cn (rq_action r) \<noteq> None"
    using assms(1,2) by (simp add: untrusted_ask_def)
  then obtain u where asked: "untrusted_ask ?k cn (rq_action r) = Some u" by blast
  then have u: "untrusted_ask ?k cn (rq_action r) = Some u" "\<not> ck_checkpointed u"
      "starts_with ''mcp.'' (rq_action r) \<longrightarrow> ck_refuses u"
    by (auto simp: untrusted_ask_def split: if_splits)
  show ?thesis
  proof (cases "boundary_ask env r cn")
    case None
    with run u show ?thesis by simp
  next
    case (Some b)
    then have "rq_action r \<in> set FILE_WRITES \<and> \<not> ck_checkpointed b"
      by (auto simp: boundary_ask_def Let_def split: option.splits if_splits)
    moreover have "\<not> starts_with ''mcp.'' FILESYSTEM_WRITE" "\<not> starts_with ''mcp.'' FILESYSTEM_DELETE"
      by code_simp+
    ultimately show ?thesis using run Some by (auto simp: FILE_WRITES_def)
  qed
qed

theorem untrusted_repository_asks_witness:
  "\<exists>ask. containment_ask_for plain_env (bare_request ''mcp.github.delete_repo'')
     ((bare_containment ''/repo'')\<lparr>cn_untrusted := True\<rparr>) (Some TC_DESTRUCTIVE) = Some ask \<and>
   ck_refuses ask"
proof -
  let ?r = "bare_request ''mcp.github.delete_repo''"
  let ?cn = "(bare_containment ''/repo'')\<lparr>cn_untrusted := True\<rparr>"
  have "cn_untrusted ?cn" by simp
  moreover have "contained_class_of plain_env (rq_action ?r) (Some TC_DESTRUCTIVE) \<in> {CC_OUTWARD, CC_DESTRUCTIVE}"
    by code_simp
  moreover have "\<not> is_quiet plain_env ?r ?cn" by code_simp
  ultimately have "\<exists>ask. containment_ask_for plain_env ?r ?cn (Some TC_DESTRUCTIVE) = Some ask \<and>
      \<not> ck_checkpointed ask \<and> (starts_with ''mcp.'' (rq_action ?r) \<longrightarrow> ck_refuses ask)"
    by (rule untrusted_repository_asks)
  moreover have "starts_with ''mcp.'' (rq_action ?r)" by code_simp
  ultimately show ?thesis by blast
qed

end
