(* ===== verification/LocalGate.thy ===== *)
theory LocalGate
  imports PolicyVerdict SessionScope Breaker Allowances Containment
begin

text \<open>
  \<open>packages/core/src/gate/local-gate.ts\<close>: the rules of this machine asked one action at a time,
  and what stands over them in a fixed order: self protection, code nobody could read, the
  intent of the task, strain, containment, and last the allowances. The moment of the decision
  is the argument \<open>at'\<close>; the noticing a seam attaches is an optional function on verdicts.
\<close>

section \<open>Options, verdicts, the gate\<close>

record local_gate_options =
  lo_agent_name :: string
  lo_agent_role :: "string option"
  lo_task :: "session_task option"
  lo_default_effect :: "decision_effect option"
  lo_state_facts :: "string list option"
  lo_containment :: "containment option"
  lo_parents :: "string list option"
  lo_allowances :: "allowance list option"
  lo_strain :: "session_strain option"

record local_verdict =
  lv_effect :: decision_effect
  lv_reason :: string
  lv_signals :: "string list"
  lv_matched_policies :: "matched_policy list"
  lv_shadow_effect :: "decision_effect option"
  lv_alternative :: "alternative option"
  lv_scope :: "scope_comparison option"

type_synonym notice_port = "action_request \<Rightarrow> local_verdict \<Rightarrow> local_verdict"

record local_gate =
  lg_engine :: policy_engine
  lg_options :: local_gate_options
  lg_notice :: "notice_port option"

definition new_local_gate ::
  "(policy list \<Rightarrow> string) \<Rightarrow> policy list \<Rightarrow> local_gate_options \<Rightarrow> local_gate" where
  "new_local_gate version_of policies options =
     \<lparr>lg_engine = new_engine version_of policies (Some (or_else (lo_default_effect options) ALLOW)),
      lg_options = options, lg_notice = None\<rparr>"

definition attach_notice :: "local_gate \<Rightarrow> notice_port \<Rightarrow> local_gate" where
  "attach_notice gate notice = gate\<lparr>lg_notice := Some notice\<rparr>"

definition gate_rules :: "local_gate \<Rightarrow> policy list" where
  "gate_rules gate = rules (lg_engine gate)"

section \<open>What stands over the rules\<close>

definition SIGNAL_POLICY_PREFIX :: string where "SIGNAL_POLICY_PREFIX = ''policy:''"

definition STRAIN_SIGNAL :: string where "STRAIN_SIGNAL = ''strain:failures''"

definition GATE_CHANGES :: "string list" where
  "GATE_CHANGES = [TC_WRITE, TC_DESTRUCTIVE, TC_COMMUNICATION]"

definition asking :: "string \<Rightarrow> string \<Rightarrow> bool \<Rightarrow> containment_ask" where
  "asking reason signal refuses =
     \<lparr>ck_reason = reason, ck_signal = signal, ck_refuses = refuses, ck_checkpointed = False\<rparr>"

definition effect_under :: "decision_effect \<Rightarrow> containment_ask option \<Rightarrow> decision_effect" where
  "effect_under effect held =
     (case held of
        None \<Rightarrow> effect
      | Some c \<Rightarrow> if ck_checkpointed c then effect else if ck_refuses c then DENY else ASK)"

definition off_intent ::
  "session_task option \<Rightarrow> action_request \<Rightarrow> decision_effect \<Rightarrow> containment_ask option" where
  "off_intent task request effect =
     (case task of
        None \<Rightarrow> None
      | Some t \<Rightarrow>
          if st_intent t \<noteq> Some TI_INVESTIGATE then None
          else if effect = DENY \<or> \<not> reaches_outside (rq_action request) then None
          else if or_else (rq_tool_class request) [] \<notin> set GATE_CHANGES then None
          else Some (asking (CHR 0x22 # st_statement t @ CHR 0x22 #
              '' is an investigation, and this changes something outside this machine.'')
              ''intent:investigate'' True))"

definition under_strain ::
  "gate_env \<Rightarrow> session_strain option \<Rightarrow> action_request \<Rightarrow> decision_effect \<Rightarrow> containment_ask option" where
  "under_strain env strain request effect =
     (if \<not> is_strained strain \<or> effect \<noteq> ALLOW then None
      else (let tool_class = or_else (rq_tool_class request) [];
                destroys = (tool_class = TC_DESTRUCTIVE);
                reaches_out = (tool_class \<in> set GATE_CHANGES \<and> reaches_outside (rq_action request))
            in if \<not> destroys \<and> \<not> reaches_out then None
               else Some (asking (describe_strain (ge_redact env) (the strain)) STRAIN_SIGNAL False)))"

definition hidden_code :: "action_request \<Rightarrow> containment_ask option" where
  "hidden_code request =
     (if rq_action request \<noteq> SHELL_HIDDEN then None
      else Some (asking ''this runs code nobody could read before it runs, so a person should look first''
             ''hidden-code'' False))"

definition contained_by ::
  "gate_env \<Rightarrow> local_gate_options \<Rightarrow> action_request \<Rightarrow> decision_effect \<Rightarrow> containment_ask option" where
  "contained_by env options request effect =
     (case lo_containment options of
        None \<Rightarrow> None
      | Some containment \<Rightarrow>
          if effect \<noteq> ALLOW then None
          else containment_ask_for env request containment (rq_tool_class request))"

definition asked_by_workspace :: "matched_policy list \<Rightarrow> bool" where
  "asked_by_workspace matched =
     list_ex (\<lambda>p. mp_workspace p \<and> \<not> mp_observed p \<and> mp_effect p = ASK) matched"

definition allowed_within ::
  "local_gate_options \<Rightarrow> action_request \<Rightarrow> decision_effect \<Rightarrow> matched_policy list \<Rightarrow> time \<Rightarrow> allowance option" where
  "allowed_within options request effect matched at' =
     (if effect \<noteq> ASK then None
      else if asked_by_workspace matched then None
      else allowance_for (or_else (lo_allowances options) []) request (lo_agent_name options) at')"

definition reason_of :: "allowance option \<Rightarrow> containment_ask option \<Rightarrow> string \<Rightarrow> string" where
  "reason_of allowed held ruled =
     (case allowed of
        Some a \<Rightarrow> describe_allowance a
      | None \<Rightarrow> (case held of None \<Rightarrow> ruled | Some c \<Rightarrow> ck_reason c))"

section \<open>The verdict\<close>

definition evaluated_as ::
  "local_gate \<Rightarrow> string \<Rightarrow> action_request \<Rightarrow> time \<Rightarrow> scope_comparison \<Rightarrow> evaluation_result" where
  "evaluated_as gate agent_name request at' drift =
     evaluate (lg_engine gate) request
       \<lparr>cx_agent_name = agent_name, cx_agent_role = lo_agent_role (lg_options gate),
        cx_now = Some at',
        cx_scope = (if sc_match drift = UNDECLARED then None else Some (sc_match drift)),
        cx_state = lo_state_facts (lg_options gate), cx_state_version = None\<rparr>"

definition stricter_of ::
  "local_gate \<Rightarrow> action_request \<Rightarrow> time \<Rightarrow> scope_comparison \<Rightarrow> evaluation_result \<Rightarrow> string \<Rightarrow> evaluation_result" where
  "stricter_of gate request at' drift strictest parent =
     (let theirs = evaluated_as gate parent request at' drift in
      if EFFECT_PRECEDENCE (er_effect theirs) \<le> EFFECT_PRECEDENCE (er_effect strictest) then strictest
      else theirs\<lparr>er_reason := parent @ '', which started this agent, may not do this: '' @ er_reason theirs\<rparr>)"

definition evaluated ::
  "local_gate \<Rightarrow> action_request \<Rightarrow> time \<Rightarrow> scope_comparison \<Rightarrow> evaluation_result" where
  "evaluated gate request at' drift =
     foldl (stricter_of gate request at' drift)
       (evaluated_as gate (lo_agent_name (lg_options gate)) request at' drift)
       (or_else (lo_parents (lg_options gate)) [])"

definition drift_of :: "local_gate \<Rightarrow> action_request \<Rightarrow> scope_comparison" where
  "drift_of gate request =
     scope_of (lo_task (lg_options gate)) request (\<lambda>patterns value. matches_any (Some patterns) (Some value))"

definition held_over ::
  "gate_env \<Rightarrow> local_gate \<Rightarrow> action_request \<Rightarrow> decision_effect \<Rightarrow> containment_ask option" where
  "held_over env gate request effect =
     first_some (self_protection (ge_fs env) request)
       (first_some (hidden_code request)
         (first_some (off_intent (lo_task (lg_options gate)) request effect)
           (first_some (under_strain env (lo_strain (lg_options gate)) request effect)
             (contained_by env (lg_options gate) request effect))))"

definition ruled :: "gate_env \<Rightarrow> local_gate \<Rightarrow> time \<Rightarrow> action_request \<Rightarrow> local_verdict" where
  "ruled env gate at' request =
     (let drift = drift_of gate request;
          evaluation = evaluated gate request at' drift;
          held = held_over env gate request (er_effect evaluation);
          effect = effect_under (er_effect evaluation) held;
          allowed = allowed_within (lg_options gate) request effect (er_matched_policies evaluation) at'
      in \<lparr>lv_effect = (if allowed = None then effect else ALLOW),
          lv_reason = reason_of allowed held (er_reason evaluation),
          lv_signals =
            map (\<lambda>p. SIGNAL_POLICY_PREFIX @ mp_name p) (er_matched_policies evaluation) @
            (case held of None \<Rightarrow> [] | Some c \<Rightarrow> [ck_signal c]) @
            (case allowed of None \<Rightarrow> [] | Some a \<Rightarrow> [''allowance:'' @ aw_id a]),
          lv_matched_policies = er_matched_policies evaluation,
          lv_shadow_effect = er_shadow_effect evaluation,
          lv_alternative = er_alternative evaluation,
          lv_scope = (if sc_match drift = UNDECLARED then None else Some drift)\<rparr>)"

definition gate_evaluate :: "gate_env \<Rightarrow> local_gate \<Rightarrow> time \<Rightarrow> action_request \<Rightarrow> local_verdict" where
  "gate_evaluate env gate at' request =
     (let verdict = ruled env gate at' request in
      case lg_notice gate of None \<Rightarrow> verdict | Some consider \<Rightarrow> consider request verdict)"

end
