(* ===== verification/GateGuarantees.thy ===== *)
theory GateGuarantees
  imports LocalGate
begin

text \<open>
  What a verdict of the local gate is worth, over any rules, options and environment: what no
  allowance and no rule lets through, what an allow stands on, and the places where a guard
  further down the order loosens what the rules said.
\<close>

section \<open>The shape of a verdict\<close>

lemma ruled_effect:
  "lv_effect (ruled env gate at' r) =
     (let ev = evaluated gate r at' (drift_of gate r);
          effect = effect_under (er_effect ev) (held_over env gate r (er_effect ev))
      in if allowed_within (lg_options gate) r effect (er_matched_policies ev) at' = None
         then effect else ALLOW)"
  by (simp add: ruled_def Let_def)

lemma allowed_only_over_ask:
  "allowed_within options r effect matched at' \<noteq> None \<Longrightarrow> effect = ASK \<and> \<not> asked_by_workspace matched"
  by (auto simp: allowed_within_def split: if_splits)

lemma effect_under_deny: "effect_under effect held = DENY \<Longrightarrow>
    (if allowed_within options r (effect_under effect held) matched at' = None
     then effect_under effect held else ALLOW) = DENY"
  by (simp add: allowed_within_def)

lemma ruled_denies:
  assumes "effect_under (er_effect (evaluated gate r at' (drift_of gate r)))
      (held_over env gate r (er_effect (evaluated gate r at' (drift_of gate r)))) = DENY"
  shows "lv_effect (ruled env gate at' r) = DENY"
  using assms by (simp add: ruled_effect Let_def allowed_within_def)

section \<open>What governs an agent is not the agent's to change\<close>

text \<open>
  Property C1. What self protection refuses is denied, ahead of every rule and every allowance:
  a write to the rules, or a command that loosens them, never runs for an agent.
\<close>

theorem self_protection_comes_first:
  assumes "self_protection (ge_fs env) r \<noteq> None"
  shows "lv_effect (ruled env gate at' r) = DENY"
proof (rule ruled_denies)
  obtain ask where "self_protection (ge_fs env) r = Some ask" using assms by auto
  with self_protection_refuses [OF this]
  show "effect_under (er_effect (evaluated gate r at' (drift_of gate r)))
      (held_over env gate r (er_effect (evaluated gate r at' (drift_of gate r)))) = DENY"
    by (simp add: held_over_def effect_under_def)
qed

definition open_options :: local_gate_options where
  "open_options =
     \<lparr>lo_agent_name = ''claude-code'', lo_agent_role = None, lo_task = None,
      lo_default_effect = None, lo_state_facts = None, lo_containment = None, lo_parents = None,
      lo_allowances = Some [staging_access\<lparr>aw_actions := [''*''], aw_environments := None,
        aw_agents := None, aw_until := 10\<rparr>], lo_strain = None\<rparr>"

theorem self_protection_comes_first_witness:
  "lv_effect (ruled plain_env (new_local_gate sample_version [allow_git] open_options) 5
     (bare_request ''memnox.allow'')) = DENY"
proof (rule self_protection_comes_first)
  show "self_protection (ge_fs plain_env) (bare_request ''memnox.allow'') \<noteq> None" by code_simp
qed

section \<open>A deny of the rules\<close>

lemma held_over_deny:
  assumes "rq_action r \<noteq> SHELL_HIDDEN"
  shows "effect_under DENY (held_over env gate r DENY) = DENY"
proof -
  have "off_intent t r DENY = None" for t
    by (simp add: off_intent_def split: option.split)
  moreover have "under_strain env s r DENY = None" for s by (simp add: under_strain_def)
  moreover have "contained_by env os r DENY = None" for os
    by (simp add: contained_by_def split: option.split)
  moreover have "hidden_code r = None" using assms by (simp add: hidden_code_def)
  ultimately show ?thesis
    using self_protection_refuses [of "ge_fs env" r]
    by (cases "self_protection (ge_fs env) r") (simp_all add: held_over_def effect_under_def)
qed

lemma evaluated_bound:
  "er_effect x \<le> er_effect (foldl (stricter_of gate r at' drift) x parents) \<and>
   (p \<in> set parents \<longrightarrow> er_effect (evaluated_as gate p r at' drift) \<le>
      er_effect (foldl (stricter_of gate r at' drift) x parents))"
proof (induction parents arbitrary: x)
  case (Cons q parents)
  have "er_effect x \<le> er_effect (stricter_of gate r at' drift x q)"
    "er_effect (evaluated_as gate q r at' drift) \<le> er_effect (stricter_of gate r at' drift x q)"
    by (auto simp: stricter_of_def Let_def less_eq_decision_effect_def)
  then show ?case using Cons [of "stricter_of gate r at' drift x q"] by (auto intro: order_trans)
qed simp

text \<open>
  Property C2. A child never does what its parent may not: where the rules deny an action to
  the agent itself or to any agent that started it, the verdict is a deny, whatever the rest of
  the gate says, for every action but running code nobody could read.
\<close>

theorem deny_for_self_or_parent_stands:
  assumes "agent = lo_agent_name (lg_options gate) \<or> agent \<in> set (or_else (lo_parents (lg_options gate)) [])"
    and "er_effect (evaluated_as gate agent r at' (drift_of gate r)) = DENY"
    and "rq_action r \<noteq> SHELL_HIDDEN"
  shows "lv_effect (ruled env gate at' r) = DENY"
proof (rule ruled_denies)
  have "DENY \<le> er_effect (evaluated gate r at' (drift_of gate r))"
    using assms(1,2) evaluated_bound [of "evaluated_as gate (lo_agent_name (lg_options gate)) r at' (drift_of gate r)"
        gate r at' "drift_of gate r" "or_else (lo_parents (lg_options gate)) []" agent]
    unfolding evaluated_def by (metis (no_types))
  then have "er_effect (evaluated gate r at' (drift_of gate r)) = DENY" by simp
  then show "effect_under (er_effect (evaluated gate r at' (drift_of gate r)))
      (held_over env gate r (er_effect (evaluated gate r at' (drift_of gate r)))) = DENY"
    using held_over_deny [OF assms(3)] by simp
qed

definition deny_codex_pushes :: policy where
  "deny_codex_pushes = plain_policy ''codex'' ((match_actions [''git.push*''])\<lparr>pm_agents := Some [''codex'']\<rparr>)
     (plain_decision DENY)"

theorem deny_for_self_or_parent_stands_witness:
  "lv_effect (ruled plain_env (new_local_gate sample_version [deny_codex_pushes]
     (open_options\<lparr>lo_parents := Some [''codex'']\<rparr>)) 5 (bare_request ''git.push'')) = DENY"
proof (rule deny_for_self_or_parent_stands)
  let ?g = "new_local_gate sample_version [deny_codex_pushes] (open_options\<lparr>lo_parents := Some [''codex'']\<rparr>)"
  show "''codex'' = lo_agent_name (lg_options ?g) \<or> ''codex'' \<in> set (or_else (lo_parents (lg_options ?g)) [])"
    by (simp add: new_local_gate_def)
  show "er_effect (evaluated_as ?g ''codex'' (bare_request ''git.push'') 5
      (drift_of ?g (bare_request ''git.push''))) = DENY" by code_simp
  show "rq_action (bare_request ''git.push'') \<noteq> SHELL_HIDDEN" by code_simp
qed

definition deny_shell :: policy where
  "deny_shell = plain_policy ''no-shell'' (match_actions [''shell.*'']) (plain_decision DENY)"

text \<open>
  For code nobody could read the guard further down replaces a deny of the rules:
  under a rule that denies every shell action the verdict on \<open>shell.hidden\<close> is a question, and
  under an allowance that covers it, an allow. An agent the workspace froze, whose every action
  the rules deny, gets the same.
\<close>

theorem hidden_code_loosens_a_deny:
  "er_effect (evaluated (new_local_gate sample_version [deny_shell] open_options)
     (bare_request SHELL_HIDDEN) 5 (plain_comparison UNDECLARED)) = DENY \<and>
   lv_effect (ruled plain_env (new_local_gate sample_version [deny_shell]
     (open_options\<lparr>lo_allowances := None\<rparr>)) 5 (bare_request SHELL_HIDDEN)) = ASK \<and>
   lv_effect (ruled plain_env (new_local_gate sample_version [deny_shell] open_options) 5
     (bare_request SHELL_HIDDEN)) = ALLOW \<and>
   lv_effect (ruled plain_env (new_local_gate sample_version []
     (open_options\<lparr>lo_state_facts := Some [''freeze:agent:claude-code'']\<rparr>)) 5
     (bare_request SHELL_HIDDEN)) = ALLOW"
  by (intro conjI; code_simp)

section \<open>What an allow stands on\<close>

lemma effect_under_allow:
  "effect_under effect held = ALLOW \<Longrightarrow>
     effect = ALLOW \<and> (case held of None \<Rightarrow> True | Some c \<Rightarrow> ck_checkpointed c)"
  by (auto simp: effect_under_def split: option.splits if_splits)

lemma not_checkpointed:
  "hidden_code r = Some c \<Longrightarrow> \<not> ck_checkpointed c"
  "off_intent t r e = Some c \<Longrightarrow> \<not> ck_checkpointed c"
  "under_strain env s r e = Some c \<Longrightarrow> \<not> ck_checkpointed c"
  by (auto simp: hidden_code_def off_intent_def under_strain_def asking_def Let_def
        split: option.splits if_splits)

text \<open>
  Property C3. An allow stands on one of two things: the rules allowed it and nothing over them
  spoke, a milestone that undoes the write aside, or an allowance in force covers it and no
  question of the workspace was among the rules matched. Self protection was silent either way.
\<close>

theorem allow_stands_on_rules_or_allowance:
  assumes "lv_effect (ruled env gate at' r) = ALLOW"
  shows "self_protection (ge_fs env) r = None \<and>
    (let ev = evaluated gate r at' (drift_of gate r) in
     er_effect ev = ALLOW \<and>
       (case held_over env gate r ALLOW of None \<Rightarrow> True | Some c \<Rightarrow> ck_checkpointed c) \<or>
     (\<exists>a. a \<in> set (or_else (lo_allowances (lg_options gate)) []) \<and>
        covers r (lo_agent_name (lg_options gate)) at' a \<and>
        \<not> asked_by_workspace (er_matched_policies ev)))"
proof -
  let ?ev = "evaluated gate r at' (drift_of gate r)"
  let ?effect = "effect_under (er_effect ?ev) (held_over env gate r (er_effect ?ev))"
  let ?al = "allowed_within (lg_options gate) r ?effect (er_matched_policies ?ev) at'"
  have sp: "self_protection (ge_fs env) r = None"
  proof (rule ccontr)
    assume "self_protection (ge_fs env) r \<noteq> None"
    then obtain ask where ask: "self_protection (ge_fs env) r = Some ask" by auto
    then have "?effect = DENY"
      using self_protection_refuses [OF ask] by (simp add: held_over_def effect_under_def)
    then have "lv_effect (ruled env gate at' r) = DENY" by (rule ruled_denies)
    with assms show False by simp
  qed
  show ?thesis
  proof (cases ?al)
    case None
    with assms have "?effect = ALLOW" by (simp add: ruled_effect Let_def)
    from effect_under_allow [OF this] have a: "er_effect ?ev = ALLOW"
      and b: "case held_over env gate r (er_effect ?ev) of None \<Rightarrow> True | Some c \<Rightarrow> ck_checkpointed c"
      by auto
    have "case held_over env gate r ALLOW of None \<Rightarrow> True | Some c \<Rightarrow> ck_checkpointed c"
      using b unfolding a .
    then show ?thesis using sp a by (simp add: Let_def)
  next
    case (Some a)
    then have "\<not> asked_by_workspace (er_matched_policies ?ev)"
      using allowed_only_over_ask [of "lg_options gate" r ?effect "er_matched_policies ?ev" at'] by simp
    moreover have "allowance_for (or_else (lo_allowances (lg_options gate)) []) r
        (lo_agent_name (lg_options gate)) at' = Some a"
      using Some by (auto simp: allowed_within_def split: if_splits)
    ultimately show ?thesis
      using sp allowance_for_Some unfolding Let_def by blast
  qed
qed

theorem allow_stands_on_rules_or_allowance_witness:
  "\<exists>a. a \<in> set (or_else (lo_allowances open_options) []) \<and>
       covers (bare_request ''git.push'') ''claude-code'' 5 a"
proof -
  let ?g = "new_local_gate sample_version [plain_policy ''ask'' (match_actions [''git.*'']) (plain_decision ASK)]
      open_options"
  have "lv_effect (ruled plain_env ?g 5 (bare_request ''git.push'')) = ALLOW" by code_simp
  from allow_stands_on_rules_or_allowance [OF this]
  have "er_effect (evaluated ?g (bare_request ''git.push'') 5 (drift_of ?g (bare_request ''git.push''))) = ALLOW \<or>
      (\<exists>a. a \<in> set (or_else (lo_allowances (lg_options ?g)) []) \<and>
        covers (bare_request ''git.push'') (lo_agent_name (lg_options ?g)) 5 a)"
    by (auto simp: Let_def)
  moreover have "er_effect (evaluated ?g (bare_request ''git.push'') 5
      (drift_of ?g (bare_request ''git.push''))) \<noteq> ALLOW" by code_simp
  ultimately show ?thesis by (simp add: new_local_gate_def open_options_def)
qed

section \<open>The question of a workspace\<close>

lemma effect_under_ask: "ASK \<le> effect \<Longrightarrow> held_over env gate r effect = Some c \<Longrightarrow> \<not> ck_checkpointed c"
  using self_protection_refuses [of "ge_fs env" r]
  by (auto simp: held_over_def under_strain_def contained_by_def not_checkpointed
        elim!: first_some_SomeE split: option.splits if_splits)

lemma ask_stays:
  assumes "ASK \<le> effect"
  shows "ASK \<le> effect_under effect (held_over env gate r effect)"
proof (cases "held_over env gate r effect")
  case (Some c)
  with effect_under_ask [OF assms Some] show ?thesis by (simp add: effect_under_def)
qed (use assms in \<open>simp add: effect_under_def\<close>)

text \<open>The context the rules see an agent's request in.\<close>

definition gate_context :: "local_gate \<Rightarrow> string \<Rightarrow> action_request \<Rightarrow> time \<Rightarrow> evaluation_context" where
  "gate_context gate agent r at' =
     (let drift = drift_of gate r in
      \<lparr>cx_agent_name = agent, cx_agent_role = lo_agent_role (lg_options gate), cx_now = Some at',
       cx_scope = (if sc_match drift = UNDECLARED then None else Some (sc_match drift)),
       cx_state = lo_state_facts (lg_options gate), cx_state_version = None\<rparr>)"

text \<open>
  Nothing on this machine answers a question of the workspace: for a session
  nothing else started, an enforced workspace rule that asks keeps the gate from allowing the
  action, whatever local rules, allowances and containment stand beside it, unless an allow the
  workspace published names it.
\<close>

theorem workspace_question_is_not_answered_here:
  assumes "p \<in> set ps" and "indexable p" and "enforced p" and "p_workspace p"
    and "pd_effect (p_decision p) = ASK"
    and "list_all (\<lambda>q. p_workspace q \<longrightarrow> p_name p \<notin> set (or_else (pd_relaxes (p_decision q)) [])) ps"
    and "lo_parents options = None"
    and "\<not> agent_frozen (lo_state_facts options) (lo_agent_name options)"
    and "policy_matches p (normalize_action_request r)
           (gate_context (new_local_gate v ps options) (lo_agent_name options) r at')"
  shows "lv_effect (ruled env (new_local_gate v ps options) at' r) \<noteq> ALLOW"
proof -
  let ?gate = "new_local_gate v ps options"
  let ?c = "gate_context ?gate (lo_agent_name options) r at'"
  let ?ev = "evaluate (new_engine v ps (Some (or_else (lo_default_effect options) ALLOW))) r ?c"
  have ev: "evaluated ?gate r at' (drift_of ?gate r) = ?ev"
    using assms(7) by (simp add: evaluated_def evaluated_as_def new_local_gate_def gate_context_def Let_def)
  have live: "\<not> agent_frozen (cx_state ?c) (cx_agent_name ?c)"
    using assms(8) by (simp add: gate_context_def new_local_gate_def Let_def)
  have strict: "ASK \<le> er_effect ?ev"
    by (rule workspace_ask_kept [OF assms(1-5,9,6)])
  have "to_matched_policy p \<in> set (er_matched_policies ?ev)"
    using applicable_one [OF assms(1,2,9)] by (simp add: evaluate_fields(1) [OF live])
  then have "asked_by_workspace (er_matched_policies ?ev)"
    using assms(3-5) unfolding asked_by_workspace_def list_ex_iff
    by (intro bexI [of _ "to_matched_policy p"]) simp_all
  then have "allowed_within (lg_options ?gate) r
      (effect_under (er_effect ?ev) (held_over env ?gate r (er_effect ?ev))) (er_matched_policies ?ev) at' = None"
    by (simp add: allowed_within_def)
  then have "lv_effect (ruled env ?gate at' r) =
      effect_under (er_effect ?ev) (held_over env ?gate r (er_effect ?ev))"
    by (simp add: ruled_effect Let_def ev)
  then show ?thesis using ask_stays [OF strict, of env ?gate r] by auto
qed

theorem workspace_question_is_not_answered_here_witness:
  "lv_effect (ruled plain_env (new_local_gate sample_version [local_allow_deploy, workspace_ask_deploy] open_options)
     5 (bare_request ''vercel.deploy'')) \<noteq> ALLOW"
proof (rule workspace_question_is_not_answered_here)
  show "workspace_ask_deploy \<in> set [local_allow_deploy, workspace_ask_deploy]" by simp
  show "indexable workspace_ask_deploy" by code_simp
  show "enforced workspace_ask_deploy" by code_simp
  show "p_workspace workspace_ask_deploy" by code_simp
  show "pd_effect (p_decision workspace_ask_deploy) = ASK" by code_simp
  show "list_all (\<lambda>q. p_workspace q \<longrightarrow>
      p_name workspace_ask_deploy \<notin> set (or_else (pd_relaxes (p_decision q)) []))
      [local_allow_deploy, workspace_ask_deploy]" by code_simp
  show "lo_parents open_options = None" by (simp add: open_options_def)
  show "\<not> agent_frozen (lo_state_facts open_options) (lo_agent_name open_options)" by code_simp
  show "policy_matches workspace_ask_deploy (normalize_action_request (bare_request ''vercel.deploy''))
      (gate_context (new_local_gate sample_version [local_allow_deploy, workspace_ask_deploy] open_options)
        (lo_agent_name open_options) (bare_request ''vercel.deploy'') 5)" by code_simp
qed

definition team_ask :: policy where
  "team_ask = (plain_policy ''team'' ((match_actions [''git.push''])\<lparr>pm_agents := Some [''codex'']\<rparr>)
     (plain_decision ASK))\<lparr>p_workspace := True\<rparr>"

definition own_ask :: policy where
  "own_ask = plain_policy ''mine'' ((match_actions [''git.push''])\<lparr>pm_agents := Some [''claude-code'']\<rparr>)
     (plain_decision ASK)"

text \<open>
  A question the workspace asks of the parent alone is lost behind a local question
  for the child: of two equal verdicts the gate keeps the child's, whose matched rules do not
  show the workspace's, and an allowance on this machine answers both. The parent itself is
  asked for the same action under the same allowance.
\<close>

theorem parents_workspace_question_is_lost:
  "lv_effect (ruled plain_env (new_local_gate sample_version [team_ask, own_ask]
     (open_options\<lparr>lo_parents := Some [''codex'']\<rparr>)) 5 (bare_request ''git.push'')) = ALLOW \<and>
   lv_effect (ruled plain_env (new_local_gate sample_version [team_ask, own_ask]
     (open_options\<lparr>lo_agent_name := ''codex''\<rparr>)) 5 (bare_request ''git.push'')) = ASK"
  by (intro conjI; code_simp)

section \<open>Investigations and strain\<close>

text \<open>
  A task declared as an investigation is held to reading: an action that reaches
  outside this machine, of a class that changes something, is denied whatever the rules, the
  allowances and the rest of the gate say.
\<close>

theorem investigation_is_held_to_reading:
  assumes "lo_task (lg_options gate) = Some t" and "st_intent t = Some TI_INVESTIGATE"
    and "reaches_outside (rq_action r)"
    and "rq_tool_class r \<in> {Some TC_WRITE, Some TC_DESTRUCTIVE, Some TC_COMMUNICATION}"
  shows "lv_effect (ruled env gate at' r) = DENY"
proof (rule ruled_denies)
  let ?e = "er_effect (evaluated gate r at' (drift_of gate r))"
  have local_shell: "\<not> reaches_outside SHELL_HIDDEN" by code_simp
  with assms(3) have shown: "rq_action r \<noteq> SHELL_HIDDEN" by auto
  show "effect_under ?e (held_over env gate r ?e) = DENY"
  proof (cases "?e = DENY")
    case True
    with held_over_deny [OF shown] show ?thesis by simp
  next
    case False
    with assms have "off_intent (lo_task (lg_options gate)) r ?e =
        Some (asking (CHR 0x22 # st_statement t @ CHR 0x22 #
              '' is an investigation, and this changes something outside this machine.'')
              ''intent:investigate'' True)"
      by (auto simp: off_intent_def GATE_CHANGES_def)
    then show ?thesis
      using shown self_protection_refuses [of "ge_fs env" r]
      by (cases "self_protection (ge_fs env) r")
         (simp_all add: held_over_def hidden_code_def effect_under_def asking_def)
  qed
qed

definition look_into_it :: session_task where
  "look_into_it = task_for \<lparr>td_session_id = ''s1'', td_statement = ''look into the failed payment'',
     td_scope = narrow_scope, td_expected_actions = None, td_intent = Some TI_INVESTIGATE\<rparr> 0"

theorem investigation_is_held_to_reading_witness:
  "lv_effect (ruled plain_env (new_local_gate sample_version [allow_git]
     (open_options\<lparr>lo_task := Some look_into_it\<rparr>)) 5
     ((bare_request ''stripe.refunds-create'')\<lparr>rq_tool_class := Some TC_WRITE\<rparr>)) = DENY"
proof (rule investigation_is_held_to_reading)
  show "lo_task (lg_options (new_local_gate sample_version [allow_git]
      (open_options\<lparr>lo_task := Some look_into_it\<rparr>))) = Some look_into_it"
    by (simp add: new_local_gate_def)
  show "st_intent look_into_it = Some TI_INVESTIGATE" by code_simp
  show "reaches_outside (rq_action ((bare_request ''stripe.refunds-create'')\<lparr>rq_tool_class := Some TC_WRITE\<rparr>))"
    by code_simp
qed simp

text \<open>
  A session that keeps failing asks before it broadens: while three or more of its
  failures stand, an action that destroys, or that changes something outside this machine, is
  allowed only by an allowance a person gave.
\<close>

theorem strained_session_asks:
  assumes "lo_strain (lg_options gate) = Some (strain_of os)"
    and "3 \<le> length (open_failures (sort_key ao_at os))"
    and "rq_tool_class r = Some TC_DESTRUCTIVE \<or>
         rq_tool_class r \<in> {Some TC_WRITE, Some TC_COMMUNICATION} \<and> reaches_outside (rq_action r)"
    and "lo_allowances (lg_options gate) = None"
  shows "lv_effect (ruled env gate at' r) \<noteq> ALLOW"
proof
  let ?e = "er_effect (evaluated gate r at' (drift_of gate r))"
  assume "lv_effect (ruled env gate at' r) = ALLOW"
  then have "effect_under ?e (held_over env gate r ?e) = ALLOW"
    using assms(4) by (auto simp: ruled_effect Let_def allowed_within_def allowance_for_def split: if_splits)
  note allow = effect_under_allow [OF this]
  have strained: "is_strained (lo_strain (lg_options gate))"
    using assms(1,2) strain_unresolved [of os] by (simp add: is_strained_def STRAIN_FAILURES_def)
  have "under_strain env (lo_strain (lg_options gate)) r ALLOW \<noteq> None"
    using strained assms(3) by (auto simp: under_strain_def GATE_CHANGES_def Let_def)
  then obtain c where "held_over env gate r ALLOW = Some c \<and> \<not> ck_checkpointed c"
    using self_protection_refuses [of "ge_fs env" r] not_checkpointed
    unfolding held_over_def by (metis first_some.simps option.exhaust)
  with allow show False by (metis option.simps(5))
qed

definition flaky :: "time \<Rightarrow> action_outcome" where
  "flaky at' = failing_test\<lparr>ao_at := at'\<rparr>"

theorem strained_session_asks_witness:
  "lv_effect (ruled plain_env (new_local_gate sample_version []
     (open_options\<lparr>lo_strain := Some (strain_of [flaky 3, flaky 1, flaky 2]), lo_allowances := None\<rparr>)) 5
     ((bare_request ''vercel.deploy'')\<lparr>rq_tool_class := Some TC_WRITE\<rparr>)) \<noteq> ALLOW"
proof (rule strained_session_asks)
  show "lo_strain (lg_options (new_local_gate sample_version []
     (open_options\<lparr>lo_strain := Some (strain_of [flaky 3, flaky 1, flaky 2]), lo_allowances := None\<rparr>))) =
     Some (strain_of [flaky 3, flaky 1, flaky 2])" by (simp add: new_local_gate_def)
  show "3 \<le> length (open_failures (sort_key ao_at [flaky 3, flaky 1, flaky 2]))" by code_simp
  show "rq_tool_class ((bare_request ''vercel.deploy'')\<lparr>rq_tool_class := Some TC_WRITE\<rparr>) = Some TC_DESTRUCTIVE \<or>
     rq_tool_class ((bare_request ''vercel.deploy'')\<lparr>rq_tool_class := Some TC_WRITE\<rparr>)
       \<in> {Some TC_WRITE, Some TC_COMMUNICATION} \<and>
     reaches_outside (rq_action ((bare_request ''vercel.deploy'')\<lparr>rq_tool_class := Some TC_WRITE\<rparr>))"
    by (rule disjI2, rule conjI, simp, code_simp)
qed (simp add: new_local_gate_def)

end
