(* ===== verification/Leases.thy ===== *)
theory Leases
  imports SelfProtection Clock
begin

text \<open>
  A lease on a path, so two agents in one repository stop being a coin flip:
  \<open>packages/core/src/coordination/lease.ts\<close>, and whether two of them meet
  (\<open>coordination/region-overlap.ts\<close>). Instants are milliseconds; the digest that ends a lease's
  id is the parameter \<open>digest\<close> and the liveness of a process the parameter \<open>alive\<close>.
\<close>

section \<open>Leases\<close>

definition NO_OWNER_PID :: nat where "NO_OWNER_PID = 1"

definition holder_pid :: "nat \<Rightarrow> nat \<Rightarrow> nat" where
  "holder_pid parent self = (if parent > NO_OWNER_PID then parent else self)"

record lease_holder =
  lh_agent :: string
  lh_session_id :: string
  lh_pid :: nat

record lease_takeover =
  lt_by :: lease_holder
  lt_at :: time
  lt_reason :: string

record line_range =
  lr_from :: nat
  lr_to :: nat

record written_region =
  wr_lines :: "line_range list"
  wr_symbols :: "string list"

record lease =
  ls_id :: string
  ls_path :: string
  ls_holder :: lease_holder
  ls_taken_at :: time
  ls_expires_at :: time
  ls_activity :: "string list"
  ls_released_at :: "time option"
  ls_taken_over :: "lease_takeover option"
  ls_repository :: "string option"
  ls_project :: "string option"
  ls_lines :: "line_range list option"
  ls_symbols :: "string list option"

datatype lease_state = LS_HELD | LS_RELEASED | LS_EXPIRED | LS_TAKEN_OVER | LS_ABANDONED

definition LEASE_MAX_WAIT_MS :: int where "LEASE_MAX_WAIT_MS = 60000"
definition DEFAULT_LEASE_MINUTES :: int where "DEFAULT_LEASE_MINUTES = 30"
definition MAX_LEASE_MINUTES :: int where "MAX_LEASE_MINUTES = 240"
definition LEASE_MAX_ACTIVITY :: nat where "LEASE_MAX_ACTIVITY = 20"

definition lease_state_of :: "lease \<Rightarrow> time \<Rightarrow> (nat \<Rightarrow> bool) \<Rightarrow> lease_state" where
  "lease_state_of l moment alive =
     (if ls_taken_over l \<noteq> None then LS_TAKEN_OVER
      else if ls_released_at l \<noteq> None then LS_RELEASED
      else if moment \<ge> ls_expires_at l then LS_EXPIRED
      else if \<not> alive (lh_pid (ls_holder l)) then LS_ABANDONED
      else LS_HELD)"

definition leases_in_force :: "lease list \<Rightarrow> time \<Rightarrow> (nat \<Rightarrow> bool) \<Rightarrow> lease list" where
  "leases_in_force leases moment alive =
     filter (\<lambda>l. lease_state_of l moment alive = LS_HELD) leases"

section \<open>Paths\<close>

fun lease_segments :: "string list \<Rightarrow> string list option" where
  "lease_segments [] = Some []"
| "lease_segments (s # ss) =
     (if s = [] \<or> s = ''.'' then lease_segments ss
      else if s = ''..'' then None
      else map_option (\<lambda>rest. s # rest) (lease_segments ss))"

definition normalize_lease_path :: "string \<Rightarrow> string option" where
  "normalize_lease_path raw =
     map_option (join_with ''/'') (lease_segments (split_on CHR ''/'' (trim (slashed raw))))"

definition path_contains :: "string \<Rightarrow> string \<Rightarrow> bool" where
  "path_contains outer inner =
     (if outer = [] then True
      else if inner = outer then True
      else starts_with (outer @ ''/'') inner)"

definition conflicts :: "string \<Rightarrow> string \<Rightarrow> bool" where
  "conflicts held wanted = (path_contains held wanted \<or> path_contains wanted held)"

definition same_holder :: "lease_holder \<Rightarrow> lease_holder \<Rightarrow> bool" where
  "same_holder a b = (lh_agent a = lh_agent b \<and> lh_session_id a = lh_session_id b)"

definition wait_for :: "lease \<Rightarrow> time \<Rightarrow> int \<Rightarrow> int" where
  "wait_for l moment ceil =
     (let remaining = ls_expires_at l - moment in
      if remaining \<le> 0 then 0 else min remaining ceil)"

section \<open>Making and keeping a lease\<close>

record lease_request =
  lq_path :: string
  lq_holder :: lease_holder
  lq_minutes :: "int option"
  lq_activity :: "string option"
  lq_region :: "written_region option"
  lq_repository :: "string option"
  lq_project :: "string option"

definition clamp_minutes :: "int \<Rightarrow> int" where
  "clamp_minutes minutes = min (max minutes 1) MAX_LEASE_MINUTES"

definition expiry_after :: "time \<Rightarrow> int \<Rightarrow> time" where
  "expiry_after now minutes = now + minutes_to_ms (clamp_minutes minutes)"

text \<open>The \<open>lines\<close> and \<open>symbols\<close> of a region as lease fields.\<close>

definition region_fields :: "written_region option \<Rightarrow> line_range list option \<times> string list option" where
  "region_fields region =
     (case region of
        None \<Rightarrow> (None, None)
      | Some r \<Rightarrow>
          if wr_lines r = [] then (None, None)
          else (Some (wr_lines r), if wr_symbols r = [] then None else Some (wr_symbols r)))"

definition lease_id ::
  "(string \<Rightarrow> string) \<Rightarrow> lease_request \<Rightarrow> time \<Rightarrow> string" where
  "lease_id digest request now =
     ''lse_'' @ int_radix_text 36 now @ ''_'' @ radix_text 36 (lh_pid (lq_holder request)) @ ''_'' @
     take 8 (digest (or_else (lq_repository request) [] @ [char_of (0 :: nat)] @
       lh_session_id (lq_holder request) @ [char_of (0 :: nat)] @ lq_path request))"

definition lease_for :: "(string \<Rightarrow> string) \<Rightarrow> lease_request \<Rightarrow> time \<Rightarrow> lease" where
  "lease_for digest request now =
     \<lparr>ls_id = lease_id digest request now, ls_path = lq_path request, ls_holder = lq_holder request,
      ls_taken_at = now,
      ls_expires_at = expiry_after now (or_else (lq_minutes request) DEFAULT_LEASE_MINUTES),
      ls_activity = (case lq_activity request of None \<Rightarrow> [] | Some a \<Rightarrow> [a]),
      ls_released_at = None, ls_taken_over = None, ls_repository = lq_repository request,
      ls_project = lq_project request, ls_lines = fst (region_fields (lq_region request)),
      ls_symbols = snd (region_fields (lq_region request))\<rparr>"

definition extended_to :: "lease \<Rightarrow> time \<Rightarrow> int \<Rightarrow> lease" where
  "extended_to l now minutes =
     (let wanted = expiry_after now minutes in
      if wanted > ls_expires_at l then l\<lparr>ls_expires_at := wanted\<rparr> else l)"

definition with_activity :: "lease \<Rightarrow> string \<Rightarrow> lease" where
  "with_activity l note =
     (if trim note = [] then l
      else (let whole = ls_activity l @ [note] in
            l\<lparr>ls_activity := drop (length whole - LEASE_MAX_ACTIVITY) whole\<rparr>))"

section \<open>A lease in words\<close>

definition part_held :: "line_range list option \<Rightarrow> string list option \<Rightarrow> string option" where
  "part_held lines symbols =
     (let spans = map (\<lambda>each. if lr_from each = lr_to each then ''line '' @ nat_text (lr_from each)
            else ''lines '' @ nat_text (lr_from each) @ '' to '' @ nat_text (lr_to each)) (or_else lines []);
          names = or_else symbols []
      in if spans = [] then None
         else if names = [] then Some (join_with '', '' spans)
         else Some (join_with '', '' names @ '' ('' @ join_with '', '' spans @ '')''))"

definition elsewhere :: "lease \<Rightarrow> string option \<Rightarrow> string" where
  "elsewhere l from =
     (case (from, ls_repository l) of
        (Some f, Some r) \<Rightarrow> if r = f then [] else '', in another checkout at '' @ r
      | _ \<Rightarrow> [])"

definition describe_lease :: "lease \<Rightarrow> time \<Rightarrow> string option \<Rightarrow> string" where
  "describe_lease l moment from =
     (let minutes = max 0 (ms_to_minutes (moment - ls_taken_at l));
          held = (if minutes < 1 then ''just now'' else describe_span (minutes_to_ms minutes) IN_MINUTES);
          path = (if ls_path l = [] then ''the repository root'' else ls_path l);
          since = ''('' @ held @ '', session '' @ lh_session_id (ls_holder l) @ elsewhere l from @ '')''
      in case part_held (ls_lines l) (ls_symbols l) of
           None \<Rightarrow> lh_agent (ls_holder l) @ '' has '' @ path @ '' '' @ since
         | Some part \<Rightarrow> lh_agent (ls_holder l) @ '' is editing '' @ part @ '' of '' @ path @ '' '' @
             since @ ''. The rest of the file is free'')"

section \<open>Whether two of them meet\<close>

record placed =
  pl_path :: string
  pl_repository :: "string option"
  pl_project :: "string option"
  pl_lines :: "line_range list option"
  pl_symbols :: "string list option"

definition placed_of :: "lease \<Rightarrow> placed" where
  "placed_of l = \<lparr>pl_path = ls_path l, pl_repository = ls_repository l, pl_project = ls_project l,
     pl_lines = ls_lines l, pl_symbols = ls_symbols l\<rparr>"

definition same_repository :: "string option \<Rightarrow> string option \<Rightarrow> bool" where
  "same_repository a b = (if a = None \<or> b = None then True else a = b)"

definition same_project :: "placed \<Rightarrow> placed \<Rightarrow> bool" where
  "same_project held wanted =
     (if pl_project held \<noteq> None \<and> pl_project wanted \<noteq> None then pl_project held = pl_project wanted
      else same_repository (pl_repository held) (pl_repository wanted))"

definition symbol_tail :: "string \<Rightarrow> string" where
  "symbol_tail symbol =
     (let parts = filter (\<lambda>each. each \<noteq> []) (split_on CHR ''.'' symbol) in
      if parts = [] then symbol else last parts)"

definition usable_symbols :: "string list option \<Rightarrow> string list" where
  "usable_symbols symbols = filter (\<lambda>each. each \<noteq> []) (map trim (or_else symbols []))"

definition same_code :: "string \<Rightarrow> string \<Rightarrow> bool" where
  "same_code a b =
     (if a = b then True
      else if starts_with (b @ ''.'') a \<or> starts_with (a @ ''.'') b then True
      else symbol_tail a = symbol_tail b)"

definition ranges_meet :: "line_range \<Rightarrow> line_range \<Rightarrow> bool" where
  "ranges_meet a b = (lr_from a \<le> lr_to b \<and> lr_from b \<le> lr_to a)"

definition regions_meet :: "placed \<Rightarrow> placed \<Rightarrow> bool" where
  "regions_meet held wanted =
     (if \<not> same_project held wanted then False
      else if \<not> conflicts (pl_path held) (pl_path wanted) then False
      else if pl_path held \<noteq> pl_path wanted then True
      else
        (let held_names = usable_symbols (pl_symbols held);
             wanted_names = usable_symbols (pl_symbols wanted)
         in if held_names \<noteq> [] \<and> wanted_names \<noteq> [] then
              list_ex (\<lambda>a. list_ex (same_code a) wanted_names) held_names
            else
              (let a = or_else (pl_lines held) []; b = or_else (pl_lines wanted) [] in
               if a = [] \<or> b = [] then True
               else list_ex (\<lambda>x. list_ex (ranges_meet x) b) a)))"

definition merged_region :: "placed \<Rightarrow> written_region option \<Rightarrow> written_region" where
  "merged_region held added =
     (case added of
        None \<Rightarrow> \<lparr>wr_lines = [], wr_symbols = []\<rparr>
      | Some new \<Rightarrow>
          (let held_lines = or_else (pl_lines held) [] in
           if held_lines = [] \<or> wr_lines new = [] then \<lparr>wr_lines = [], wr_symbols = []\<rparr>
           else
             (let held_names = usable_symbols (pl_symbols held);
                  added_names = usable_symbols (Some (wr_symbols new))
              in \<lparr>wr_lines = held_lines @ wr_lines new,
                  wr_symbols = (if held_names \<noteq> [] \<and> added_names \<noteq> []
                    then uniq (held_names @ added_names) else [])\<rparr>)))"

section \<open>Facts\<close>

lemma same_holder_sym: "same_holder a b = same_holder b a"
  by (auto simp: same_holder_def)

lemma same_holder_trans: "same_holder a b \<Longrightarrow> same_holder b c \<Longrightarrow> same_holder a c"
  by (simp add: same_holder_def)

lemma conflicts_sym: "conflicts a b = conflicts b a"
  by (auto simp: conflicts_def)

lemma same_project_sym: "same_project a b = same_project b a"
  by (auto simp: same_project_def same_repository_def)

lemma same_code_sym: "same_code a b = same_code b a"
  by (auto simp: same_code_def)

lemma ranges_meet_sym: "ranges_meet a b = ranges_meet b a"
  by (auto simp: ranges_meet_def)

lemma list_ex_swap: "list_ex (\<lambda>a. list_ex (p a) ys) xs = list_ex (\<lambda>b. list_ex (\<lambda>a. p a b) xs) ys"
  by (auto simp: list_ex_iff)

lemma regions_meet_sym: "regions_meet a b = regions_meet b a"
proof -
  have names: "list_ex (\<lambda>a. list_ex (same_code a) ys) xs = list_ex (\<lambda>b. list_ex (same_code b) xs) ys" for xs ys
    using same_code_sym by (auto simp: list_ex_iff)
  have lines: "list_ex (\<lambda>a. list_ex (ranges_meet a) ys) xs = list_ex (\<lambda>b. list_ex (ranges_meet b) xs) ys" for xs ys
    using ranges_meet_sym by (auto simp: list_ex_iff)
  show ?thesis
    unfolding regions_meet_def Let_def
    using names [of "usable_symbols (pl_symbols b)" "usable_symbols (pl_symbols a)"]
      lines [of "or_else (pl_lines b) []" "or_else (pl_lines a) []"]
      same_project_sym [of a b] conflicts_sym [of "pl_path a" "pl_path b"]
    by (auto simp: conj_commute)
qed

lemma path_contains_join:
  assumes "list_all (\<lambda>s. s \<noteq> [] \<and> CHR ''/'' \<notin> set s) xs"
    and "list_all (\<lambda>s. s \<noteq> [] \<and> CHR ''/'' \<notin> set s) ys"
  shows "path_contains (join_with ''/'' xs) (join_with ''/'' ys) \<longleftrightarrow> take (length xs) ys = xs"
proof (cases "xs = []")
  case True
  then show ?thesis by (simp add: path_contains_def)
next
  case False
  have sx: "split_on CHR ''/'' (join_with ''/'' xs) = xs"
    using split_join [OF False, of "CHR ''/''"] assms(1) by (simp add: list_all_iff)
  have nx: "join_with ''/'' xs \<noteq> []"
    using False assms(1) by (cases xs; cases "tl xs = []") (auto simp: join_with_Cons)
  show ?thesis
  proof (cases "ys = []")
    case True
    then show ?thesis using False nx by (auto simp: path_contains_def starts_with_def)
  next
    case ny: False
    have sy: "split_on CHR ''/'' (join_with ''/'' ys) = ys"
      using split_join [OF ny, of "CHR ''/''"] assms(2) by (simp add: list_all_iff)
    show ?thesis
    proof
      assume "path_contains (join_with ''/'' xs) (join_with ''/'' ys)"
      then consider "join_with ''/'' ys = join_with ''/'' xs"
        | t where "join_with ''/'' ys = join_with ''/'' xs @ ''/'' @ t"
        using nx by (auto simp: path_contains_def starts_with_iff split: if_splits)
      then show "take (length xs) ys = xs"
      proof cases
        case 1
        then have "ys = xs" using sx sy by metis
        then show ?thesis by simp
      next
        case 2
        have "join_with ''/'' ys = join_with ''/'' (xs @ split_on CHR ''/'' t)"
          using 2 False join_with_append [of xs "split_on CHR ''/'' t" "''/''"] join_split [of "CHR ''/''" t]
          by simp
        moreover have "split_on CHR ''/'' (join_with ''/'' (xs @ split_on CHR ''/'' t)) = xs @ split_on CHR ''/'' t"
          using False assms(1) split_on_parts [of _ "CHR ''/''" t]
          by (intro split_join) (auto simp: list_all_iff)
        ultimately have "ys = xs @ split_on CHR ''/'' t" using sy by simp
        then show ?thesis by simp
      qed
    next
      assume t: "take (length xs) ys = xs"
      define zs where "zs = drop (length xs) ys"
      have ys: "ys = xs @ zs" using t unfolding zs_def by (metis append_take_drop_id)
      show "path_contains (join_with ''/'' xs) (join_with ''/'' ys)"
      proof (cases "zs = []")
        case True
        with ys show ?thesis by (simp add: path_contains_def)
      next
        case nz: False
        have "join_with ''/'' ys = (join_with ''/'' xs @ ''/'') @ join_with ''/'' zs"
          unfolding ys using join_with_append [OF False nz, of "''/''"] by simp
        then have "starts_with (join_with ''/'' xs @ ''/'') (join_with ''/'' ys)"
          by (simp only: starts_with_append)
        then show ?thesis by (simp add: path_contains_def)
      qed
    qed
  qed
qed

lemma lease_segments_plain:
  "lease_segments ss = Some xs \<Longrightarrow> list_all (\<lambda>s. CHR ''/'' \<notin> set s) ss \<Longrightarrow>
     list_all (\<lambda>s. s \<noteq> [] \<and> s \<noteq> ''.'' \<and> s \<noteq> ''..'' \<and> CHR ''/'' \<notin> set s) xs"
  by (induction ss arbitrary: xs) (auto split: if_splits)

text \<open>The segments of a path as a lease holds it.\<close>

definition segments_of :: "string \<Rightarrow> string list option" where
  "segments_of raw = lease_segments (split_on CHR ''/'' (trim (slashed raw)))"

lemma segments_of_plain:
  assumes "segments_of raw = Some xs"
  shows "list_all (\<lambda>s. s \<noteq> [] \<and> CHR ''/'' \<notin> set s) xs"
proof -
  have "list_all (\<lambda>s. CHR ''/'' \<notin> set s) (split_on CHR ''/'' (trim (slashed raw)))"
    using split_on_parts by (auto simp: list_all_iff)
  from lease_segments_plain [OF assms [unfolded segments_of_def] this]
  show ?thesis by (auto simp: list_all_iff)
qed

text \<open>
  Two paths, however they were spelled, conflict exactly when the segments of one
  begin with the segments of the other: a path holds everything below it and nothing beside it,
  the root holds everything, and a path that walks out of the tree holds nothing.
\<close>

theorem conflicts_on_segment_boundaries:
  "(case (normalize_lease_path raw, normalize_lease_path raw') of
      (Some p, Some q) \<Rightarrow> conflicts p q
    | _ \<Rightarrow> False) =
   (case (segments_of raw, segments_of raw') of
      (Some xs, Some ys) \<Rightarrow> take (length xs) ys = xs \<or> take (length ys) xs = ys
    | _ \<Rightarrow> False)"
proof (cases "segments_of raw"; cases "segments_of raw'")
  fix xs ys
  assume s: "segments_of raw = Some xs" "segments_of raw' = Some ys"
  have "conflicts (join_with ''/'' xs) (join_with ''/'' ys) \<longleftrightarrow>
      take (length xs) ys = xs \<or> take (length ys) xs = ys"
    using path_contains_join [OF segments_of_plain [OF s(1)] segments_of_plain [OF s(2)]]
      path_contains_join [OF segments_of_plain [OF s(2)] segments_of_plain [OF s(1)]]
    by (simp add: conflicts_def)
  with s show ?thesis by (simp add: normalize_lease_path_def segments_of_def)
qed (simp_all add: normalize_lease_path_def segments_of_def split: option.split)

end
