(* ===== verification/LeaseStore.thy ===== *)
theory LeaseStore
  imports Leases RecordStore
begin

text \<open>
  The register of who holds which path, on one machine
  (\<open>packages/core/src/coordination/lease-store.ts\<close>). Every operation runs under the directory's
  mutex, so it is one step on the register; \<open>alive\<close> says whether a process is still there and
  \<open>digest\<close> is the digest in a lease's id.
\<close>

section \<open>The register\<close>

datatype take_result = TR_TAKEN lease | TR_HELD_BY_ANOTHER lease | TR_UNUSABLE_PATH

datatype lease_change = LC_TAKEN lease | LC_NOT_FOUND | LC_NOT_YOURS

definition lease_all :: "lease record_dir \<Rightarrow> lease list" where
  "lease_all dir = sort_key ls_taken_at (dir_all dir)"

definition lease_held :: "(nat \<Rightarrow> bool) \<Rightarrow> lease record_dir \<Rightarrow> time \<Rightarrow> lease list" where
  "lease_held alive dir moment = leases_in_force (lease_all dir) moment alive"

definition lease_write :: "lease record_dir \<Rightarrow> lease \<Rightarrow> lease record_dir" where
  "lease_write dir l = dir_write dir (ls_id l) l"

definition renewed :: "lease \<Rightarrow> lease_request \<Rightarrow> time \<Rightarrow> lease" where
  "renewed l request now =
     (let noted = (case lq_activity request of None \<Rightarrow> l | Some a \<Rightarrow> with_activity l a);
          grown = (if ls_path l = lq_path request
            then (let fields = region_fields (Some (merged_region (placed_of l) (lq_region request)))
                  in noted\<lparr>ls_lines := fst fields, ls_symbols := snd fields\<rparr>)
            else noted)
      in extended_to grown now (or_else (lq_minutes request) DEFAULT_LEASE_MINUTES))"

definition wanted_of :: "lease_request \<Rightarrow> placed" where
  "wanted_of request =
     \<lparr>pl_path = lq_path request, pl_repository = lq_repository request,
      pl_project = lq_project request, pl_lines = fst (region_fields (lq_region request)),
      pl_symbols = snd (region_fields (lq_region request))\<rparr>"

definition overlapping :: "lease list \<Rightarrow> lease_request \<Rightarrow> lease list" where
  "overlapping standing request =
     filter (\<lambda>l. regions_meet (placed_of l) (wanted_of request)) standing"

text \<open>The lease of the same holder a request renews.\<close>

definition mine_of :: "lease list \<Rightarrow> lease_request \<Rightarrow> lease option" where
  "mine_of standing request =
     first_some
       (find (\<lambda>l. same_holder (ls_holder l) (lq_holder request)) (overlapping standing request))
       (find (\<lambda>l. same_holder (ls_holder l) (lq_holder request) \<and> ls_path l = lq_path request \<and>
          ls_repository l = lq_repository request) standing)"

definition lease_take ::
  "(string \<Rightarrow> string) \<Rightarrow> (nat \<Rightarrow> bool) \<Rightarrow> lease record_dir \<Rightarrow> lease_request \<Rightarrow> time \<Rightarrow>
     take_result \<times> lease record_dir" where
  "lease_take digest alive dir request now =
     (let standing = leases_in_force (lease_all dir) now alive;
          meeting = overlapping standing request
      in case find (\<lambda>l. \<not> same_holder (ls_holder l) (lq_holder request)) meeting of
           Some blocking \<Rightarrow> (TR_HELD_BY_ANOTHER blocking, dir)
         | None \<Rightarrow>
             (let l = (case mine_of standing request of
                None \<Rightarrow> lease_for digest request now
              | Some mine \<Rightarrow> renewed mine request now)
              in (TR_TAKEN l, lease_write dir l)))"

definition lease_take_over ::
  "(string \<Rightarrow> string) \<Rightarrow> lease record_dir \<Rightarrow> string \<Rightarrow> lease_holder \<Rightarrow> string \<Rightarrow> time \<Rightarrow>
     lease_change \<times> lease record_dir" where
  "lease_take_over digest dir i holder reason now =
     (case dir_read dir i of
        None \<Rightarrow> (LC_NOT_FOUND, dir)
      | Some held \<Rightarrow>
          (let marked = lease_write dir
                 (held\<lparr>ls_taken_over := Some \<lparr>lt_by = holder, lt_at = now, lt_reason = reason\<rparr>\<rparr>);
               l = lease_for digest
                 \<lparr>lq_path = ls_path held, lq_holder = holder, lq_minutes = None, lq_activity = None,
                  lq_region = None, lq_repository = ls_repository held, lq_project = ls_project held\<rparr> now
           in (LC_TAKEN l, lease_write marked l)))"

definition lease_release ::
  "lease record_dir \<Rightarrow> string \<Rightarrow> lease_holder \<Rightarrow> time \<Rightarrow> lease_change \<times> lease record_dir" where
  "lease_release dir i holder now =
     (case dir_read dir i of
        None \<Rightarrow> (LC_NOT_FOUND, dir)
      | Some l \<Rightarrow>
          if \<not> same_holder (ls_holder l) holder then (LC_NOT_YOURS, dir)
          else (let released = l\<lparr>ls_released_at := Some now\<rparr>
                in (LC_TAKEN released, lease_write dir released)))"

definition session_done :: "lease list \<Rightarrow> string \<Rightarrow> time \<Rightarrow> lease list" where
  "session_done leases session_id now =
     map (\<lambda>l. l\<lparr>ls_released_at := Some now\<rparr>)
       (filter (\<lambda>l. lh_session_id (ls_holder l) = session_id \<and> ls_released_at l = None) leases)"

definition lease_release_session ::
  "lease record_dir \<Rightarrow> string \<Rightarrow> time \<Rightarrow> lease list \<times> lease record_dir" where
  "lease_release_session dir session_id now =
     (let released = session_done (lease_all dir) session_id now
      in (released, foldl lease_write dir released))"

definition lease_renew_session ::
  "(nat \<Rightarrow> bool) \<Rightarrow> lease record_dir \<Rightarrow> string \<Rightarrow> time \<Rightarrow> int \<Rightarrow> nat \<times> lease record_dir" where
  "lease_renew_session alive dir session_id now minutes =
     (let kept = map (\<lambda>l. extended_to l now minutes)
            (filter (\<lambda>l. lh_session_id (ls_holder l) = session_id)
              (leases_in_force (lease_all dir) now alive))
      in (length kept, foldl lease_write dir kept))"

definition lease_forget ::
  "(nat \<Rightarrow> bool) \<Rightarrow> lease record_dir \<Rightarrow> time \<Rightarrow> nat \<times> lease record_dir" where
  "lease_forget alive dir moment =
     (let gone = filter (\<lambda>l. leases_in_force [l] moment alive = []) (lease_all dir)
      in (length gone, foldl (\<lambda>d l. dir_remove d (ls_id l)) dir gone))"

section \<open>What a register holds\<close>

definition own_ids :: "lease record_dir \<Rightarrow> bool" where
  "own_ids dir \<longleftrightarrow> dir_sound dir \<and> (\<forall>i r. dir_read dir i = Some r \<longrightarrow> ls_id r = i)"

lemma own_ids_Nil [simp]: "own_ids []"
  by (simp add: own_ids_def dir_read_def)

lemma own_ids_write: "own_ids dir \<Longrightarrow> own_ids (lease_write dir l)"
  by (auto simp: own_ids_def lease_write_def record_dir.read_write record_dir.sound_write split: if_splits)

lemma own_ids_remove: "own_ids dir \<Longrightarrow> own_ids (dir_remove dir i)"
  by (auto simp: own_ids_def record_dir.read_remove record_dir.sound_remove split: if_splits)

lemma own_ids_writes: "own_ids dir \<Longrightarrow> own_ids (foldl lease_write dir ls)"
  by (induction ls arbitrary: dir) (auto simp: own_ids_write)

lemma own_ids_removes: "own_ids dir \<Longrightarrow> own_ids (foldl (\<lambda>d l. dir_remove d (ls_id l)) dir ls)"
  by (induction ls arbitrary: dir) (auto simp: own_ids_remove)

lemma in_lease_all: "own_ids dir \<Longrightarrow> l \<in> set (lease_all dir) \<longleftrightarrow> dir_read dir (ls_id l) = Some l"
  using dir_all_read [of dir l] by (auto simp: own_ids_def lease_all_def)

lemma in_lease_held:
  "own_ids dir \<Longrightarrow> l \<in> set (lease_held alive dir now) \<longleftrightarrow>
     dir_read dir (ls_id l) = Some l \<and> lease_state_of l now alive = LS_HELD"
  using in_lease_all by (auto simp: lease_held_def leases_in_force_def)

lemma in_lease_write:
  assumes "own_ids dir"
  shows "l \<in> set (lease_all (lease_write dir n)) \<longleftrightarrow>
    l = n \<or> ls_id l \<noteq> ls_id n \<and> l \<in> set (lease_all dir)"
  using assms in_lease_all [OF own_ids_write [OF assms]] in_lease_all [OF assms]
  by (auto simp: lease_write_def own_ids_def record_dir.read_write)

lemma in_lease_writes:
  assumes "own_ids dir" "l \<in> set (lease_all (foldl lease_write dir ns))"
  shows "l \<in> set ns \<or> l \<in> set (lease_all dir) \<and> ls_id l \<notin> ls_id ` set ns"
  using assms
proof (induction ns arbitrary: dir)
  case (Cons n ns)
  from Cons.IH [OF own_ids_write [OF Cons.prems(1)]] Cons.prems
  show ?case by (auto simp: in_lease_write)
qed simp

lemma in_lease_removes:
  assumes "own_ids dir" "l \<in> set (lease_all (foldl (\<lambda>d l. dir_remove d (ls_id l)) dir ns))"
  shows "l \<in> set (lease_all dir)"
  using assms
proof (induction ns arbitrary: dir)
  case (Cons n ns)
  then have i: "l \<in> set (lease_all (dir_remove dir (ls_id n)))" by (simp add: own_ids_remove)
  then have "dir_read (dir_remove dir (ls_id n)) (ls_id l) = Some l"
    using in_lease_all [OF own_ids_remove [OF Cons.prems(1)]] by blast
  moreover have "dir_sound dir" using Cons.prems(1) by (simp add: own_ids_def)
  ultimately have "dir_read dir (ls_id l) = Some l"
    by (simp add: record_dir.read_remove split: if_splits)
  then show ?case using in_lease_all [OF Cons.prems(1)] by blast
qed simp

section \<open>Leases of known checkouts\<close>

text \<open>
  A lease whose checkout is known, whose project is what its checkout says, and which names lines
  or the whole file; and the requests that make such leases.
\<close>

definition plain_placed :: "(string \<Rightarrow> string option) \<Rightarrow> placed \<Rightarrow> bool" where
  "plain_placed project_of p \<longleftrightarrow>
     pl_symbols p = None \<and>
     (case pl_repository p of None \<Rightarrow> False | Some repo \<Rightarrow> pl_project p = project_of repo)"

definition plain_request :: "(string \<Rightarrow> string option) \<Rightarrow> lease_request \<Rightarrow> bool" where
  "plain_request project_of q \<longleftrightarrow>
     (case lq_region q of None \<Rightarrow> True | Some region \<Rightarrow> wr_symbols region = []) \<and>
     (case lq_repository q of None \<Rightarrow> False | Some repo \<Rightarrow> lq_project q = project_of repo)"

definition lines_meet :: "line_range list option \<Rightarrow> line_range list option \<Rightarrow> bool" where
  "lines_meet a b \<longleftrightarrow> or_else a [] = [] \<or> or_else b [] = [] \<or>
     list_ex (\<lambda>x. list_ex (ranges_meet x) (or_else b [])) (or_else a [])"

lemma regions_meet_plain:
  "pl_symbols a = None \<Longrightarrow> regions_meet a b \<longleftrightarrow>
     same_project a b \<and> conflicts (pl_path a) (pl_path b) \<and>
     (pl_path a \<noteq> pl_path b \<or> lines_meet (pl_lines a) (pl_lines b))"
  by (auto simp: regions_meet_def usable_symbols_def lines_meet_def Let_def)

lemma same_project_known:
  assumes "same_project a w" "same_project a y"
    and "plain_placed project_of a" "plain_placed project_of w" "plain_placed project_of y"
  shows "same_project w y"
  using assms
  by (auto simp: same_project_def same_repository_def plain_placed_def split: if_splits option.splits)

lemma plain_wanted: "plain_request project_of q \<Longrightarrow> plain_placed project_of (wanted_of q)"
  by (auto simp: plain_request_def plain_placed_def wanted_of_def region_fields_def split: option.splits)

lemma extended_same [simp]:
  "placed_of (extended_to l now minutes) = placed_of l"
  "ls_holder (extended_to l now minutes) = ls_holder l"
  "ls_id (extended_to l now minutes) = ls_id l"
  "ls_released_at (extended_to l now minutes) = ls_released_at l"
  "ls_taken_over (extended_to l now minutes) = ls_taken_over l"
  by (auto simp: extended_to_def placed_of_def Let_def)

lemma with_activity_same [simp]:
  "placed_of (with_activity l note) = placed_of l"
  "ls_holder (with_activity l note) = ls_holder l"
  "ls_id (with_activity l note) = ls_id l"
  "ls_released_at (with_activity l note) = ls_released_at l"
  "ls_taken_over (with_activity l note) = ls_taken_over l"
  "ls_expires_at (with_activity l note) = ls_expires_at l"
  by (auto simp: with_activity_def placed_of_def Let_def)

lemma noted_same:
  "placed_of (case a of None \<Rightarrow> l | Some x \<Rightarrow> with_activity l x) = placed_of l"
  "ls_holder (case a of None \<Rightarrow> l | Some x \<Rightarrow> with_activity l x) = ls_holder l"
  "ls_id (case a of None \<Rightarrow> l | Some x \<Rightarrow> with_activity l x) = ls_id l"
  "ls_released_at (case a of None \<Rightarrow> l | Some x \<Rightarrow> with_activity l x) = ls_released_at l"
  "ls_taken_over (case a of None \<Rightarrow> l | Some x \<Rightarrow> with_activity l x) = ls_taken_over l"
  by (simp_all split: option.split)

lemma renewed_same [simp]:
  "ls_id (renewed l q now) = ls_id l"
  "ls_holder (renewed l q now) = ls_holder l"
  "ls_released_at (renewed l q now) = ls_released_at l"
  "ls_taken_over (renewed l q now) = ls_taken_over l"
  by (simp_all add: renewed_def Let_def noted_same)

lemma lease_for_same [simp]:
  "placed_of (lease_for digest q now) = wanted_of q"
  "ls_holder (lease_for digest q now) = lq_holder q"
  "ls_released_at (lease_for digest q now) = None"
  "ls_taken_over (lease_for digest q now) = None"
  by (simp_all add: lease_for_def placed_of_def wanted_of_def)

lemma renewed_placed:
  "placed_of (renewed l q now) =
     (if ls_path l = lq_path q
      then (let fields = region_fields (Some (merged_region (placed_of l) (lq_region q)))
            in (placed_of l)\<lparr>pl_lines := fst fields, pl_symbols := snd fields\<rparr>)
      else placed_of l)"
  unfolding renewed_def Let_def extended_same
  using noted_same(1) [of l "lq_activity q"] by (simp add: placed_of_def)

text \<open>What a grown lease meets, the lease or the new request met already.\<close>

lemma renewed_plain:
  assumes "plain_placed project_of (placed_of l)" "plain_request project_of q"
  shows "plain_placed project_of (placed_of (renewed l q now))"
proof -
  have "snd (region_fields (Some (merged_region (placed_of l) (lq_region q)))) = None"
    using assms by (auto simp: region_fields_def merged_region_def plain_placed_def usable_symbols_def
        Let_def split: option.splits)
  moreover have "pl_repository (placed_of (renewed l q now)) = pl_repository (placed_of l)"
    "pl_project (placed_of (renewed l q now)) = pl_project (placed_of l)"
    by (simp_all add: renewed_placed Let_def)
  moreover have "pl_symbols (placed_of (renewed l q now)) =
      (if ls_path l = lq_path q
       then snd (region_fields (Some (merged_region (placed_of l) (lq_region q))))
       else pl_symbols (placed_of l))"
    by (simp add: renewed_placed Let_def)
  ultimately show ?thesis using assms(1) by (simp add: plain_placed_def split: option.splits)
qed

lemma merged_lines:
  assumes "lines_meet (fst (region_fields (Some (merged_region p r)))) ys"
  shows "lines_meet (pl_lines p) ys \<or> lines_meet (fst (region_fields r)) ys"
  using assms
  by (cases r) (auto simp: lines_meet_def merged_region_def region_fields_def Let_def split: if_splits)

lemma renewed_meets:
  assumes l: "plain_placed project_of (placed_of l)" and q: "plain_request project_of q"
    and y: "plain_placed project_of y"
    and same: "ls_path l = lq_path q \<Longrightarrow> same_project (placed_of l) (wanted_of q)"
    and meets: "regions_meet (placed_of (renewed l q now)) y"
  shows "regions_meet (placed_of l) y \<or> regions_meet (wanted_of q) y"
proof (cases "ls_path l = lq_path q")
  case False
  with meets show ?thesis by (simp add: renewed_placed)
next
  case True
  let ?m = "placed_of (renewed l q now)"
  have sym: "pl_symbols ?m = None" "pl_symbols (placed_of l) = None" "pl_symbols (wanted_of q) = None"
    using renewed_plain [OF l q] l plain_wanted [OF q] by (simp_all add: plain_placed_def)
  have m: "pl_path ?m = lq_path q" "same_project ?m y = same_project (placed_of l) y"
    "pl_lines ?m = fst (region_fields (Some (merged_region (placed_of l) (lq_region q))))"
    using True by (simp_all add: renewed_placed Let_def same_project_def) (simp add: placed_of_def)
  have p: "pl_path (placed_of l) = lq_path q" "pl_path (wanted_of q) = lq_path q"
    "pl_lines (wanted_of q) = fst (region_fields (lq_region q))"
    using True by (simp_all add: placed_of_def wanted_of_def)
  have "same_project (placed_of l) y" using meets sym(1) m(2) by (simp add: regions_meet_plain)
  moreover from this have "same_project (wanted_of q) y"
    using same_project_known [OF same [OF True] _ l plain_wanted [OF q] y] by simp
  moreover have "conflicts (lq_path q) (pl_path y)"
    "lq_path q \<noteq> pl_path y \<or> lines_meet (pl_lines ?m) (pl_lines y)"
    using meets sym(1) m(1) by (simp_all add: regions_meet_plain)
  ultimately show ?thesis
    using merged_lines [of "placed_of l" "lq_region q" "pl_lines y"]
    unfolding regions_meet_plain [OF sym(2)] regions_meet_plain [OF sym(3)] p m(3) by blast
qed

section \<open>No two holders on one piece of code\<close>

definition exclusive :: "(nat \<Rightarrow> bool) \<Rightarrow> lease record_dir \<Rightarrow> time \<Rightarrow> bool" where
  "exclusive alive dir now \<longleftrightarrow>
     (\<forall>a\<in>set (lease_held alive dir now). \<forall>b\<in>set (lease_held alive dir now).
        regions_meet (placed_of a) (placed_of b) \<longrightarrow> same_holder (ls_holder a) (ls_holder b))"

definition register_ok ::
  "(string \<Rightarrow> string option) \<Rightarrow> (nat \<Rightarrow> bool) \<Rightarrow> lease record_dir \<Rightarrow> time \<Rightarrow> bool" where
  "register_ok project_of alive dir now \<longleftrightarrow>
     own_ids dir \<and> (\<forall>l\<in>set (lease_all dir). plain_placed project_of (placed_of l)) \<and>
     exclusive alive dir now"

text \<open>A register whose leases in force all stood before, on the same places, stays exclusive.\<close>

lemma exclusive_shrinks:
  assumes "exclusive alive dir now"
    and "\<And>a. a \<in> set (lease_held alive' dir' now') \<Longrightarrow>
      \<exists>a0\<in>set (lease_held alive dir now). placed_of a0 = placed_of a \<and> ls_holder a0 = ls_holder a"
  shows "exclusive alive' dir' now'"
  unfolding exclusive_def
proof (intro ballI impI)
  fix a b
  assume "a \<in> set (lease_held alive' dir' now')" "b \<in> set (lease_held alive' dir' now')"
    and m: "regions_meet (placed_of a) (placed_of b)"
  then obtain a0 b0 where "a0 \<in> set (lease_held alive dir now)" "b0 \<in> set (lease_held alive dir now)"
    and "placed_of a0 = placed_of a" "ls_holder a0 = ls_holder a"
    and "placed_of b0 = placed_of b" "ls_holder b0 = ls_holder b"
    using assms(2) by metis
  with assms(1) m show "same_holder (ls_holder a) (ls_holder b)"
    unfolding exclusive_def by metis
qed

text \<open>One more lease keeps it exclusive when what it meets is its own holder's.\<close>

lemma exclusive_grows:
  assumes own: "own_ids dir" and ex: "exclusive alive dir now"
    and new: "\<And>y. y \<in> set (lease_held alive dir now) \<Longrightarrow> ls_id y \<noteq> ls_id n \<Longrightarrow>
      regions_meet (placed_of n) (placed_of y) \<Longrightarrow> same_holder (ls_holder n) (ls_holder y)"
  shows "exclusive alive (lease_write dir n) now"
  unfolding exclusive_def
proof (intro ballI impI)
  have held: "x \<in> set (lease_held alive (lease_write dir n) now) \<Longrightarrow>
      x = n \<or> ls_id x \<noteq> ls_id n \<and> x \<in> set (lease_held alive dir now)" for x
    using in_lease_write [OF own] by (auto simp: lease_held_def leases_in_force_def)
  fix a b
  assume "a \<in> set (lease_held alive (lease_write dir n) now)"
    "b \<in> set (lease_held alive (lease_write dir n) now)"
    and m: "regions_meet (placed_of a) (placed_of b)"
  from held [OF this(1)] held [OF this(2)]
  consider "a = n" "b = n"
    | "a = n" "ls_id b \<noteq> ls_id n" "b \<in> set (lease_held alive dir now)"
    | "ls_id a \<noteq> ls_id n" "a \<in> set (lease_held alive dir now)" "b = n"
    | "a \<in> set (lease_held alive dir now)" "b \<in> set (lease_held alive dir now)"
    by blast
  then show "same_holder (ls_holder a) (ls_holder b)"
  proof cases
    case 1 then show ?thesis by (simp add: same_holder_def)
  next
    case 2 with new [OF 2(3,2)] m show ?thesis by simp
  next
    case 3
    with new [OF 3(2,1)] m show ?thesis using regions_meet_sym same_holder_sym by metis
  next
    case 4 with ex m show ?thesis unfolding exclusive_def by blast
  qed
qed

section \<open>Steps of the register\<close>

lemma mine_of_facts:
  assumes "mine_of standing q = Some l"
  shows "l \<in> set standing" "same_holder (ls_holder l) (lq_holder q)"
    and "regions_meet (placed_of l) (wanted_of q) \<or> ls_path l = lq_path q \<and> ls_repository l = lq_repository q"
proof -
  from assms consider "find (\<lambda>l. same_holder (ls_holder l) (lq_holder q)) (overlapping standing q) = Some l"
    | "find (\<lambda>l. same_holder (ls_holder l) (lq_holder q) \<and> ls_path l = lq_path q \<and>
          ls_repository l = lq_repository q) standing = Some l"
    by (auto simp: mine_of_def elim!: first_some.elims)
  then have "l \<in> set standing \<and> same_holder (ls_holder l) (lq_holder q) \<and>
    (regions_meet (placed_of l) (wanted_of q) \<or> ls_path l = lq_path q \<and> ls_repository l = lq_repository q)"
    by cases (auto dest!: find_in simp: overlapping_def)
  then show "l \<in> set standing" "same_holder (ls_holder l) (lq_holder q)"
    "regions_meet (placed_of l) (wanted_of q) \<or> ls_path l = lq_path q \<and> ls_repository l = lq_repository q"
    by blast+
qed

lemma same_project_of_mine:
  assumes "mine_of standing q = Some l" "plain_placed project_of (placed_of l)" "plain_request project_of q"
  shows "same_project (placed_of l) (wanted_of q)"
  using mine_of_facts(3) [OF assms(1)]
proof
  assume "regions_meet (placed_of l) (wanted_of q)"
  then show ?thesis by (simp add: regions_meet_def split: if_splits)
next
  assume "ls_path l = lq_path q \<and> ls_repository l = lq_repository q"
  then have "pl_repository (placed_of l) = pl_repository (wanted_of q)"
    by (simp add: placed_of_def wanted_of_def)
  moreover from this have "pl_project (placed_of l) = pl_project (wanted_of q)"
    using assms(2) plain_wanted [OF assms(3)] by (simp add: plain_placed_def split: option.splits)
  ultimately show ?thesis by (simp add: same_project_def same_repository_def)
qed

lemma take_keeps_register:
  assumes ok: "register_ok project_of alive dir now" and q: "plain_request project_of q"
  shows "register_ok project_of alive (snd (lease_take digest alive dir q now)) now"
proof (cases "find (\<lambda>l. \<not> same_holder (ls_holder l) (lq_holder q))
    (overlapping (lease_held alive dir now) q)")
  case (Some b)
  with ok show ?thesis by (simp add: lease_take_def Let_def lease_held_def)
next
  case None
  have own: "own_ids dir" and plain: "\<And>l. l \<in> set (lease_all dir) \<Longrightarrow> plain_placed project_of (placed_of l)"
    and ex: "exclusive alive dir now"
    using ok by (simp_all add: register_ok_def)
  let ?held = "lease_held alive dir now"
  have in_all: "y \<in> set ?held \<Longrightarrow> y \<in> set (lease_all dir)" for y
    by (simp add: lease_held_def leases_in_force_def)
  have free: "y \<in> set ?held \<Longrightarrow> regions_meet (wanted_of q) (placed_of y) \<Longrightarrow>
      same_holder (lq_holder q) (ls_holder y)" for y
    using None regions_meet_sym same_holder_sym by (auto simp: find_None_iff overlapping_def)
  define n where "n = (case mine_of ?held q of None \<Rightarrow> lease_for digest q now | Some l \<Rightarrow> renewed l q now)"
  have "plain_placed project_of (placed_of n) \<and> (\<forall>y\<in>set ?held. regions_meet (placed_of n) (placed_of y) \<longrightarrow>
      same_holder (ls_holder n) (ls_holder y))"
  proof (cases "mine_of ?held q")
    case None
    then show ?thesis using plain_wanted [OF q] free by (simp add: n_def)
  next
    case (Some l)
    have l: "l \<in> set ?held" "same_holder (ls_holder l) (lq_holder q)"
      using mine_of_facts(1,2) [OF Some] by simp_all
    have pl: "plain_placed project_of (placed_of l)" using plain in_all l(1) by blast
    have "same_holder (ls_holder l) (ls_holder y)"
      if y: "y \<in> set ?held" "regions_meet (placed_of n) (placed_of y)" for y
    proof -
      have "regions_meet (placed_of l) (placed_of y) \<or> regions_meet (wanted_of q) (placed_of y)"
        using renewed_meets [OF pl q plain [OF in_all [OF y(1)]] same_project_of_mine [OF Some pl q], of now]
          y(2) Some by (simp add: n_def)
      then show ?thesis
        using ex l y(1) free same_holder_trans [OF l(2)] unfolding exclusive_def by blast
    qed
    then show ?thesis using renewed_plain [OF pl q] Some by (simp add: n_def)
  qed
  then have "exclusive alive (lease_write dir n) now"
    and "plain_placed project_of (placed_of n)"
    using exclusive_grows [OF own ex] by blast+
  then have "register_ok project_of alive (lease_write dir n) now"
    using own_ids_write [OF own] in_lease_write [OF own] plain by (auto simp: register_ok_def)
  moreover have "snd (lease_take digest alive dir q now) = lease_write dir n"
    using None by (simp add: lease_take_def Let_def n_def lease_held_def)
  ultimately show ?thesis by simp
qed

text \<open>Records written over their own leases, each as it was or no longer in force.\<close>

lemma rewrites_keep_register:
  assumes ok: "register_ok project_of alive dir now"
    and ns: "\<And>n. n \<in> set ns \<Longrightarrow> \<exists>l\<in>set (lease_all dir). placed_of n = placed_of l \<and>
      (lease_state_of n now alive = LS_HELD \<longrightarrow>
         lease_state_of l now alive = LS_HELD \<and> ls_holder n = ls_holder l)"
  shows "register_ok project_of alive (foldl lease_write dir ns) now"
proof -
  have own: "own_ids dir" and plain: "\<And>l. l \<in> set (lease_all dir) \<Longrightarrow> plain_placed project_of (placed_of l)"
    and ex: "exclusive alive dir now"
    using ok by (simp_all add: register_ok_def)
  have "plain_placed project_of (placed_of l)" if "l \<in> set (lease_all (foldl lease_write dir ns))" for l
    using in_lease_writes [OF own that] ns plain by metis
  moreover have "exclusive alive (foldl lease_write dir ns) now"
  proof (rule exclusive_shrinks [OF ex])
    fix a
    assume a: "a \<in> set (lease_held alive (foldl lease_write dir ns) now)"
    then have h: "lease_state_of a now alive = LS_HELD"
      and "a \<in> set (lease_all (foldl lease_write dir ns))"
      by (simp_all add: lease_held_def leases_in_force_def)
    from in_lease_writes [OF own this(2)] ns [of a] h
    show "\<exists>a0\<in>set (lease_held alive dir now). placed_of a0 = placed_of a \<and> ls_holder a0 = ls_holder a"
      by (fastforce simp: lease_held_def leases_in_force_def)
  qed
  ultimately show ?thesis using own_ids_writes [OF own] by (simp add: register_ok_def)
qed

lemma subset_keeps_register:
  assumes ok: "register_ok project_of alive dir now" and own: "own_ids dir'"
    and sub: "\<And>l. l \<in> set (lease_all dir') \<Longrightarrow> l \<in> set (lease_all dir)"
    and held: "\<And>l. l \<in> set (lease_all dir') \<Longrightarrow> lease_state_of l now' alive' = LS_HELD \<Longrightarrow>
      lease_state_of l now alive = LS_HELD"
  shows "register_ok project_of alive' dir' now'"
proof -
  have "exclusive alive' dir' now'"
    by (rule exclusive_shrinks [of alive dir now])
      (use ok sub held in \<open>auto simp: register_ok_def lease_held_def leases_in_force_def\<close>)
  with ok own sub show ?thesis by (auto simp: register_ok_def)
qed

lemma later_still_held:
  assumes "lease_state_of l now' alive' = LS_HELD" "now \<le> now'"
    and "alive' (lh_pid (ls_holder l)) \<Longrightarrow> alive (lh_pid (ls_holder l))"
  shows "lease_state_of l now alive = LS_HELD"
  using assms by (auto simp: lease_state_of_def split: if_splits)

lemma ended_facts [simp]:
  "placed_of (l\<lparr>ls_released_at := r\<rparr>) = placed_of l"
  "placed_of (l\<lparr>ls_taken_over := t\<rparr>) = placed_of l"
  "lease_state_of (l\<lparr>ls_released_at := Some now\<rparr>) moment alive \<noteq> LS_HELD"
  "lease_state_of (l\<lparr>ls_taken_over := Some over\<rparr>) moment alive \<noteq> LS_HELD"
  by (simp_all add: placed_of_def lease_state_of_def)

lemma release_keeps_register:
  assumes "register_ok project_of alive dir now"
  shows "register_ok project_of alive (snd (lease_release dir i holder now)) now"
proof -
  have "register_ok project_of alive (lease_write dir (l\<lparr>ls_released_at := Some now\<rparr>)) now"
    if "dir_read dir i = Some l" for l
  proof -
    have "l \<in> set (lease_all dir)"
      using that assms dir_all_read [of dir l] by (auto simp: register_ok_def own_ids_def lease_all_def)
    then show ?thesis
      using rewrites_keep_register [OF assms, of "[l\<lparr>ls_released_at := Some now\<rparr>]"]
      by auto
  qed
  with assms show ?thesis by (auto simp: lease_release_def Let_def split: option.split)
qed

lemma release_session_keeps_register:
  assumes "register_ok project_of alive dir now"
  shows "register_ok project_of alive (snd (lease_release_session dir session_id now)) now"
proof -
  have "register_ok project_of alive (foldl lease_write dir (session_done (lease_all dir) session_id now)) now"
    by (rule rewrites_keep_register [OF assms])
      (auto simp: session_done_def)
  then show ?thesis by (simp add: lease_release_session_def Let_def)
qed

lemma renew_session_keeps_register:
  assumes "register_ok project_of alive dir now"
  shows "register_ok project_of alive (snd (lease_renew_session alive dir session_id now minutes)) now"
proof -
  have "register_ok project_of alive (foldl lease_write dir (map (\<lambda>l. extended_to l now minutes)
      (filter (\<lambda>l. lh_session_id (ls_holder l) = session_id) (leases_in_force (lease_all dir) now alive)))) now"
    by (rule rewrites_keep_register [OF assms]) (auto simp: leases_in_force_def)
  then show ?thesis by (simp add: lease_renew_session_def Let_def)
qed

lemma forget_keeps_register:
  assumes "register_ok project_of alive dir now"
  shows "register_ok project_of alive (snd (lease_forget alive dir now)) now"
proof -
  have own: "own_ids dir" using assms by (simp add: register_ok_def)
  show ?thesis
    using subset_keeps_register [OF assms own_ids_removes [OF own] in_lease_removes [OF own]]
    by (simp add: lease_forget_def Let_def)
qed

lemma take_over_keeps_register:
  assumes ok: "register_ok project_of alive dir now"
    and l: "l \<in> set (lease_held alive dir now)" "ls_lines l = None"
    and alone: "\<And>y. y \<in> set (lease_held alive dir now) \<Longrightarrow> ls_id y \<noteq> ls_id l \<Longrightarrow>
      \<not> regions_meet (placed_of l) (placed_of y)"
  shows "register_ok project_of alive (snd (lease_take_over digest dir (ls_id l) holder reason now)) now"
proof -
  have own: "own_ids dir" and plain: "\<And>l. l \<in> set (lease_all dir) \<Longrightarrow> plain_placed project_of (placed_of l)"
    using ok by (simp_all add: register_ok_def)
  have la: "l \<in> set (lease_all dir)" using l(1) by (simp add: lease_held_def leases_in_force_def)
  define m where "m = l\<lparr>ls_taken_over := Some \<lparr>lt_by = holder, lt_at = now, lt_reason = reason\<rparr>\<rparr>"
  define n where "n = lease_for digest
    \<lparr>lq_path = ls_path l, lq_holder = holder, lq_minutes = None, lq_activity = None,
     lq_region = None, lq_repository = ls_repository l, lq_project = ls_project l\<rparr> now"
  have ok': "register_ok project_of alive (lease_write dir m) now"
    using rewrites_keep_register [OF ok, of "[m]"] la
    by (auto simp: m_def)
  have placed: "placed_of n = placed_of l"
    using plain [OF la] l(2) unfolding n_def lease_for_same
    by (simp add: wanted_of_def placed_of_def region_fields_def plain_placed_def)
  have "exclusive alive (lease_write (lease_write dir m) n) now"
  proof (rule exclusive_grows)
    show "own_ids (lease_write dir m)" "exclusive alive (lease_write dir m) now"
      using ok' by (simp_all add: register_ok_def)
    fix y
    assume y: "y \<in> set (lease_held alive (lease_write dir m) now)"
      and meets: "regions_meet (placed_of n) (placed_of y)"
    have "y \<noteq> m" using y by (auto simp: m_def lease_held_def leases_in_force_def lease_state_of_def)
    then have "y \<in> set (lease_held alive dir now)" "ls_id y \<noteq> ls_id l"
      using y in_lease_write [OF own, of y m] by (auto simp: lease_held_def leases_in_force_def m_def)
    with alone meets placed show "same_holder (ls_holder n) (ls_holder y)" by simp
  qed
  then have "register_ok project_of alive (lease_write (lease_write dir m) n) now"
    using ok' placed plain [OF la] own_ids_write in_lease_write [of "lease_write dir m"]
    by (auto simp: register_ok_def)
  moreover have "dir_read dir (ls_id l) = Some l" using la own in_lease_all by blast
  ultimately show ?thesis by (simp add: lease_take_over_def Let_def m_def n_def)
qed

text \<open>
  What a person may take over without there being two holders after: a lease in force, held as a whole, with
  nothing else in force on its place. The code takes over any lease there is.
\<close>

definition orderly_take_over :: "(nat \<Rightarrow> bool) \<Rightarrow> lease record_dir \<Rightarrow> time \<Rightarrow> string \<Rightarrow> bool" where
  "orderly_take_over alive dir now i \<longleftrightarrow>
     (case dir_read dir i of
        None \<Rightarrow> True
      | Some l \<Rightarrow> lease_state_of l now alive = LS_HELD \<and> ls_lines l = None \<and>
          list_all (\<lambda>y. ls_id y = i \<or> \<not> regions_meet (placed_of l) (placed_of y)) (lease_held alive dir now))"

text \<open>
  The register after any run of its operations, with any requests, take-overs, processes and times. The
  flag says whether the run was orderly: requests that name no declarations and know their repository and the
  project it belongs to, take-overs as above, time that does not run backwards, and no process that is gone
  coming back.
\<close>

inductive register_reached ::
  "(string \<Rightarrow> string) \<Rightarrow> (string \<Rightarrow> string option) \<Rightarrow> bool \<Rightarrow> (nat \<Rightarrow> bool) \<Rightarrow> lease record_dir \<Rightarrow> time \<Rightarrow> bool"
  for digest :: "string \<Rightarrow> string" and project_of :: "string \<Rightarrow> string option" where
  reg_start: "register_reached digest project_of True alive [] now"
| reg_pass: "register_reached digest project_of ok alive dir now \<Longrightarrow>
    register_reached digest project_of (ok \<and> now \<le> now' \<and>
      list_all (\<lambda>l. alive' (lh_pid (ls_holder l)) \<longrightarrow> alive (lh_pid (ls_holder l))) (lease_all dir)) alive' dir now'"
| reg_take: "register_reached digest project_of ok alive dir now \<Longrightarrow>
    register_reached digest project_of (ok \<and> plain_request project_of request) alive
      (snd (lease_take digest alive dir request now)) now"
| reg_release: "register_reached digest project_of ok alive dir now \<Longrightarrow>
    register_reached digest project_of ok alive (snd (lease_release dir i holder now)) now"
| reg_release_session: "register_reached digest project_of ok alive dir now \<Longrightarrow>
    register_reached digest project_of ok alive (snd (lease_release_session dir session_id now)) now"
| reg_renew_session: "register_reached digest project_of ok alive dir now \<Longrightarrow>
    register_reached digest project_of ok alive (snd (lease_renew_session alive dir session_id now minutes)) now"
| reg_forget: "register_reached digest project_of ok alive dir now \<Longrightarrow>
    register_reached digest project_of ok alive (snd (lease_forget alive dir now)) now"
| reg_take_over: "register_reached digest project_of ok alive dir now \<Longrightarrow>
    register_reached digest project_of (ok \<and> orderly_take_over alive dir now i) alive
      (snd (lease_take_over digest dir i holder reason now)) now"

lemma register_reached_own: "register_reached digest project_of ok alive dir now \<Longrightarrow> own_ids dir"
proof (induction rule: register_reached.induct)
  case (reg_take ok alive dir now request)
  then show ?case by (auto simp: lease_take_def Let_def own_ids_write split: option.split)
next
  case (reg_release ok alive dir now i holder)
  then show ?case by (auto simp: lease_release_def Let_def own_ids_write split: option.split)
next
  case (reg_take_over ok alive dir now i holder reason)
  then show ?case by (auto simp: lease_take_over_def Let_def own_ids_write split: option.split)
qed (simp_all add: lease_release_session_def lease_renew_session_def lease_forget_def Let_def own_ids_writes own_ids_removes)

lemma any_take_over_keeps_register:
  assumes ok: "register_ok project_of alive dir now" and orderly: "orderly_take_over alive dir now i"
  shows "register_ok project_of alive (snd (lease_take_over digest dir i holder reason now)) now"
proof (cases "dir_read dir i")
  case None
  with ok show ?thesis by (simp add: lease_take_over_def)
next
  case (Some l)
  have own: "own_ids dir" using ok by (simp add: register_ok_def)
  then have i: "ls_id l = i" using Some by (simp add: own_ids_def)
  then have "l \<in> set (lease_all dir)" using Some in_lease_all [OF own] by simp
  then have "l \<in> set (lease_held alive dir now)" "ls_lines l = None"
    using orderly Some by (simp_all add: orderly_take_over_def lease_held_def leases_in_force_def)
  then show ?thesis
    using take_over_keeps_register [OF ok, of l digest holder reason] orderly Some
    by (auto simp: orderly_take_over_def list_all_iff i)
qed

lemma register_reached_ok:
  assumes "register_reached digest project_of ok alive dir now" and ok
  shows "register_ok project_of alive dir now"
  using assms
proof (induction rule: register_reached.induct)
  case (reg_start alive now)
  show ?case by (simp add: register_ok_def exclusive_def lease_held_def leases_in_force_def lease_all_def dir_all_def)
next
  case (reg_pass ok alive dir now now' alive')
  then have r: "register_ok project_of alive dir now" by blast
  show ?case
  proof (rule subset_keeps_register [OF r])
    show "own_ids dir" using r by (simp add: register_ok_def)
    show "lease_state_of l now alive = LS_HELD"
      if "l \<in> set (lease_all dir)" "lease_state_of l now' alive' = LS_HELD" for l
      using later_still_held [OF that(2), of now] reg_pass.prems that(1) by (auto simp: list_all_iff)
  qed
qed (simp_all add: take_keeps_register release_keeps_register release_session_keeps_register
    renew_session_keeps_register forget_keeps_register any_take_over_keeps_register)

text \<open>
  Property C26. After any orderly run of the register's operations from an empty one, two leases in force that
  meet, by checkout or project, path and lines, are of one holder: no two agents hold one piece of code. A
  run is orderly when its requests name no declarations and know their repository and project, a lease is
  taken over only while it is in force, whole and with nothing else in force on its place, the clock moves
  on and no process that is gone comes back.
\<close>

theorem one_holder_per_region:
  assumes "register_reached digest project_of True alive dir now"
    and "a \<in> set (lease_held alive dir now)" "b \<in> set (lease_held alive dir now)"
    and "regions_meet (placed_of a) (placed_of b)"
  shows "same_holder (ls_holder a) (ls_holder b)"
  using register_reached_ok [OF assms(1)] assms(2-4) unfolding register_ok_def exclusive_def by blast

section \<open>What taking a path answers\<close>

lemma expiry_later: "now < expiry_after now minutes"
proof -
  have "(0 :: int) < 60000 * min (max minutes 1) 240" by simp
  then show ?thesis
    by (simp add: expiry_after_def clamp_minutes_def minutes_to_ms_def MINUTE_MS_def SECOND_MS_def
        MAX_LEASE_MINUTES_def mult.commute)
qed

lemma extended_expires: "now < ls_expires_at (extended_to l now minutes)"
  using expiry_later [of now minutes] by (auto simp: extended_to_def Let_def)

lemma renewed_expires: "now < ls_expires_at (renewed l q now)"
  by (simp add: renewed_def Let_def extended_expires)

lemma renewed_held:
  "lease_state_of l now alive = LS_HELD \<Longrightarrow> lease_state_of (renewed l q now) now alive = LS_HELD"
  using renewed_expires [of now l q] by (auto simp: lease_state_of_def split: if_splits)

lemma lease_for_held:
  "alive (lh_pid (lq_holder q)) \<Longrightarrow> lease_state_of (lease_for digest q now) now alive = LS_HELD"
  using expiry_later [of now] by (auto simp: lease_state_of_def lease_for_def not_le)

lemma take_answer:
  assumes own: "own_ids dir"
  shows "case lease_take digest alive dir q now of
      (TR_TAKEN l, dir') \<Rightarrow>
        l \<in> set (lease_all dir') \<and> same_holder (ls_holder l) (lq_holder q) \<and>
        (alive (lh_pid (lq_holder q)) \<longrightarrow> l \<in> set (lease_held alive dir' now)) \<and>
        (\<forall>y\<in>set (lease_held alive dir now). regions_meet (placed_of y) (wanted_of q) \<longrightarrow>
           same_holder (ls_holder y) (lq_holder q))
    | (TR_HELD_BY_ANOTHER y, dir') \<Rightarrow>
        dir' = dir \<and> y \<in> set (lease_held alive dir now) \<and>
        regions_meet (placed_of y) (wanted_of q) \<and> \<not> same_holder (ls_holder y) (lq_holder q)
    | (TR_UNUSABLE_PATH, dir') \<Rightarrow> False"
proof (cases "find (\<lambda>l. \<not> same_holder (ls_holder l) (lq_holder q)) (overlapping (lease_held alive dir now) q)")
  case (Some y)
  moreover have "y \<in> set (lease_held alive dir now) \<and> regions_meet (placed_of y) (wanted_of q) \<and>
      \<not> same_holder (ls_holder y) (lq_holder q)"
    using find_in [OF Some] by (simp add: overlapping_def)
  ultimately show ?thesis by (simp add: lease_take_def Let_def lease_held_def)
next
  case None
  define n where "n = (case mine_of (lease_held alive dir now) q of
      None \<Rightarrow> lease_for digest q now | Some l \<Rightarrow> renewed l q now)"
  have answer: "lease_take digest alive dir q now = (TR_TAKEN n, lease_write dir n)"
    using None by (simp add: lease_take_def Let_def n_def lease_held_def)
  have free: "\<forall>y\<in>set (lease_held alive dir now). regions_meet (placed_of y) (wanted_of q) \<longrightarrow>
      same_holder (ls_holder y) (lq_holder q)"
    using None by (auto simp: find_None overlapping_def)
  have n: "same_holder (ls_holder n) (lq_holder q) \<and>
      (alive (lh_pid (lq_holder q)) \<longrightarrow> lease_state_of n now alive = LS_HELD)"
  proof (cases "mine_of (lease_held alive dir now) q")
    case None
    then show ?thesis by (simp add: n_def lease_for_held same_holder_def)
  next
    case (Some l)
    then have "lease_state_of l now alive = LS_HELD" "same_holder (ls_holder l) (lq_holder q)"
      using mine_of_facts [OF Some] by (simp_all add: lease_held_def leases_in_force_def)
    with Some show ?thesis by (simp add: n_def renewed_held)
  qed
  have stored: "n \<in> set (lease_all (lease_write dir n))" using in_lease_write [OF own] by blast
  with n have "alive (lh_pid (lq_holder q)) \<longrightarrow> n \<in> set (lease_held alive (lease_write dir n) now)"
    by (simp add: lease_held_def leases_in_force_def)
  with n stored free show ?thesis unfolding answer by simp
qed

text \<open>
  Property C27. Taking a path answers with a lease of the asker that is in the register, in force
  while the asker's process lives, and then every lease in force that meets the request is the
  asker's own; or it answers with a lease in force of somebody else that meets the request, and
  changes nothing. It never answers that the path is unusable.
\<close>

theorem take_answers_soundly:
  assumes "register_reached digest project_of orderly alive dir now"
  shows "case lease_take digest alive dir q now of
      (TR_TAKEN l, dir') \<Rightarrow>
        l \<in> set (lease_all dir') \<and> same_holder (ls_holder l) (lq_holder q) \<and>
        (alive (lh_pid (lq_holder q)) \<longrightarrow> l \<in> set (lease_held alive dir' now)) \<and>
        (\<forall>y\<in>set (lease_held alive dir now). regions_meet (placed_of y) (wanted_of q) \<longrightarrow>
           same_holder (ls_holder y) (lq_holder q))
    | (TR_HELD_BY_ANOTHER y, dir') \<Rightarrow>
        dir' = dir \<and> y \<in> set (lease_held alive dir now) \<and>
        regions_meet (placed_of y) (wanted_of q) \<and> \<not> same_holder (ls_holder y) (lq_holder q)
    | (TR_UNUSABLE_PATH, dir') \<Rightarrow> False"
  using register_reached_own [OF assms] by (intro take_answer)

section \<open>Runs of the register\<close>

definition a_holder :: "string \<Rightarrow> nat \<Rightarrow> lease_holder" where
  "a_holder agent pid = \<lparr>lh_agent = agent, lh_session_id = agent @ ''-1'', lh_pid = pid\<rparr>"

definition a_request :: "string \<Rightarrow> lease_holder \<Rightarrow> lease_request" where
  "a_request path holder = \<lparr>lq_path = path, lq_holder = holder, lq_minutes = None,
     lq_activity = None, lq_region = None, lq_repository = Some ''/work'', lq_project = None\<rparr>"

definition first_dir :: "lease record_dir" where
  "first_dir = snd (lease_take (\<lambda>s. ''d'') (\<lambda>p. True) []
     (a_request ''src/billing/invoice.ts'' (a_holder ''claude'' 10)) 10)"

lemma first_dir_reached: "register_reached (\<lambda>s. ''d'') (\<lambda>r. None) True (\<lambda>p. True) first_dir 10"
  using reg_take [OF reg_start, where digest = "\<lambda>s. ''d''" and project_of = "\<lambda>r. None" and alive = "\<lambda>p. True" and now = 10
      and request = "a_request ''src/billing/invoice.ts'' (a_holder ''claude'' 10)"]
  unfolding first_dir_def by (simp add: plain_request_def a_request_def)

definition first_lease :: lease where
  "first_lease = lease_for (\<lambda>s. ''d'') (a_request ''src/billing/invoice.ts'' (a_holder ''claude'' 10)) 10"

lemma first_held: "lease_held (\<lambda>p. True) first_dir 10 = [first_lease]"
  by code_simp

lemma one_holder_per_region_witness:
  "first_lease \<in> set (lease_held (\<lambda>p. True) first_dir 10) \<and>
   regions_meet (placed_of first_lease) (placed_of first_lease) \<and>
   same_holder (ls_holder first_lease) (ls_holder first_lease)"
proof -
  have h: "first_lease \<in> set (lease_held (\<lambda>p. True) first_dir 10)" by (simp add: first_held)
  have m: "regions_meet (placed_of first_lease) (placed_of first_lease)" by code_simp
  show ?thesis using one_holder_per_region [OF first_dir_reached h h m] h m by simp
qed

lemma take_answers_soundly_witness:
  "case lease_take (\<lambda>s. ''d'') (\<lambda>p. True) first_dir (a_request ''src'' (a_holder ''codex'' 11)) 10 of
     (TR_HELD_BY_ANOTHER y, dir') \<Rightarrow> dir' = first_dir \<and> y = first_lease
   | _ \<Rightarrow> False"
proof -
  have "lease_take (\<lambda>s. ''d'') (\<lambda>p. True) first_dir (a_request ''src'' (a_holder ''codex'' 11)) 10 =
      (TR_HELD_BY_ANOTHER first_lease, first_dir)"
    by code_simp
  with take_answers_soundly [OF first_dir_reached, of "a_request ''src'' (a_holder ''codex'' 11)"]
  show ?thesis by simp
qed

section \<open>Where the register gives one path to two\<close>

definition answered_taken :: "take_result \<Rightarrow> bool" where
  "answered_taken answer = (case answer of TR_TAKEN l \<Rightarrow> True | _ \<Rightarrow> False)"

definition wide_request :: lease_request where
  "wide_request = a_request ''src/billing'' (a_holder ''claude'' 10)"

definition other_request :: lease_request where
  "other_request = a_request ''src/billing/refund.ts'' (a_holder ''codex'' 11)"

definition kept_lease :: lease where "kept_lease = renewed first_lease wide_request 20"

definition wide_lease :: lease where "wide_lease = lease_for (\<lambda>s. ''d'') wide_request 20"

lemma take_new:
  assumes "lease_held alive dir now = standing"
    and "find (\<lambda>l. \<not> same_holder (ls_holder l) (lq_holder q)) (overlapping standing q) = None"
    and "mine_of standing q = None"
  shows "lease_take digest alive dir q now =
    (TR_TAKEN (lease_for digest q now), lease_write dir (lease_for digest q now))"
  using assms by (simp add: lease_take_def Let_def lease_held_def)

lemma take_mine:
  assumes "lease_held alive dir now = standing"
    and "find (\<lambda>l. \<not> same_holder (ls_holder l) (lq_holder q)) (overlapping standing q) = None"
    and "mine_of standing q = Some l"
  shows "lease_take digest alive dir q now =
    (TR_TAKEN (renewed l q now), lease_write dir (renewed l q now))"
  using assms by (simp add: lease_take_def Let_def lease_held_def)

lemma take_blocked:
  assumes "lease_held alive dir now = standing"
    and "find (\<lambda>l. \<not> same_holder (ls_holder l) (lq_holder q)) (overlapping standing q) = Some y"
  shows "lease_take digest alive dir q now = (TR_HELD_BY_ANOTHER y, dir)"
  using assms by (simp add: lease_take_def Let_def lease_held_def)

lemma wide_taken:
  "lease_take (\<lambda>s. ''d'') (\<lambda>p. True) first_dir wide_request 20 =
     (TR_TAKEN kept_lease, lease_write first_dir kept_lease)"
  unfolding kept_lease_def by (rule take_mine [where standing = "[first_lease]"]) code_simp+

lemma kept_held:
  "lease_held (\<lambda>p. True) (lease_write first_dir kept_lease) 20 = [kept_lease]"
  "lease_held (\<lambda>p. True) (lease_write first_dir kept_lease) 30 = [kept_lease]"
  "ls_path kept_lease = ''src/billing/invoice.ts''"
  by code_simp+

lemma other_taken:
  "fst (lease_take (\<lambda>s. ''d'') (\<lambda>p. True) (lease_write first_dir kept_lease) other_request 30) =
     TR_TAKEN (lease_for (\<lambda>s. ''d'') other_request 30)"
proof -
  have "find (\<lambda>l. \<not> same_holder (ls_holder l) (lq_holder other_request)) (overlapping [kept_lease] other_request) = None"
    and "mine_of [kept_lease] other_request = None"
    by code_simp+
  from take_new [OF kept_held(2) this] show ?thesis by simp
qed

lemma straight_taken:
  "lease_take (\<lambda>s. ''d'') (\<lambda>p. True) [] wide_request 20 = (TR_TAKEN wide_lease, [(ls_id wide_lease, Some wide_lease)])"
  by (simp add: lease_take_def lease_all_def dir_all_def leases_in_force_def overlapping_def mine_of_def
      lease_write_def wide_lease_def Let_def)

lemma other_refused:
  "fst (lease_take (\<lambda>s. ''d'') (\<lambda>p. True) [(ls_id wide_lease, Some wide_lease)] other_request 30) =
     TR_HELD_BY_ANOTHER wide_lease"
proof -
  have "lease_held (\<lambda>p. True) [(ls_id wide_lease, Some wide_lease)] 30 = [wide_lease]"
    and "find (\<lambda>l. \<not> same_holder (ls_holder l) (lq_holder other_request)) (overlapping [wide_lease] other_request) = Some wide_lease"
    by code_simp+
  from take_blocked [OF this] show ?thesis by simp
qed

text \<open>
  An agent holding one file asks for its directory and is told it has taken it, while
  the register still holds only the file: another agent then takes another file of that directory.
  With the directory asked for first, the other agent is refused.
\<close>

theorem widening_is_not_recorded:
  "let wide = lease_take (\<lambda>s. ''d'') (\<lambda>p. True) first_dir wide_request 20;
       other = lease_take (\<lambda>s. ''d'') (\<lambda>p. True) (snd wide) other_request 30;
       straight = lease_take (\<lambda>s. ''d'') (\<lambda>p. True) [] wide_request 20;
       refused = lease_take (\<lambda>s. ''d'') (\<lambda>p. True) (snd straight) other_request 30
   in answered_taken (fst wide) \<and> answered_taken (fst other) \<and>
      map ls_path (lease_held (\<lambda>p. True) (snd wide) 20) = [''src/billing/invoice.ts''] \<and>
      answered_taken (fst straight) \<and> \<not> answered_taken (fst refused)"
  by (simp add: Let_def wide_taken other_taken straight_taken other_refused kept_held answered_taken_def)

definition later_alive :: "nat \<Rightarrow> bool" where "later_alive p \<longleftrightarrow> p \<noteq> 10"

definition second_request :: lease_request where
  "second_request = a_request ''src/billing/invoice.ts'' (a_holder ''codex'' 11)"

definition second_lease :: lease where "second_lease = lease_for (\<lambda>s. ''d'') second_request 40"

lemma second_taken:
  "lease_take (\<lambda>s. ''d'') later_alive first_dir second_request 40 =
     (TR_TAKEN second_lease, lease_write first_dir second_lease)"
  unfolding second_lease_def by (rule take_new [where standing = "[]"]) code_simp+

definition marked_lease :: lease where
  "marked_lease = first_lease\<lparr>ls_taken_over :=
     Some \<lparr>lt_by = a_holder ''gemini'' 12, lt_at = 40, lt_reason = ''mine now''\<rparr>\<rparr>"

definition third_lease :: lease where
  "third_lease = lease_for (\<lambda>s. ''d'')
     \<lparr>lq_path = ''src/billing/invoice.ts'', lq_holder = a_holder ''gemini'' 12, lq_minutes = None,
      lq_activity = None, lq_region = None, lq_repository = Some ''/work'', lq_project = None\<rparr> 40"

lemma taken_from_gone:
  "lease_take_over (\<lambda>s. ''d'') (lease_write first_dir second_lease) (ls_id first_lease)
     (a_holder ''gemini'' 12) ''mine now'' 40 =
   (LC_TAKEN third_lease, lease_write (lease_write (lease_write first_dir second_lease) marked_lease) third_lease)"
proof -
  have "dir_read (lease_write first_dir second_lease) (ls_id first_lease) = Some first_lease"
    by code_simp
  moreover have "ls_path first_lease = ''src/billing/invoice.ts''" "ls_repository first_lease = Some ''/work''"
    "ls_project first_lease = None"
    by (simp_all add: first_lease_def lease_for_def a_request_def)
  ultimately show ?thesis
    by (simp add: lease_take_over_def Let_def marked_lease_def third_lease_def)
qed

lemma both_held:
  "map (\<lambda>l. (ls_path l, lh_agent (ls_holder l))) (lease_held later_alive
     (lease_write (lease_write (lease_write first_dir second_lease) marked_lease) third_lease) 40) =
   [(''src/billing/invoice.ts'', ''codex''), (''src/billing/invoice.ts'', ''gemini'')]"
  by code_simp

text \<open>
  A lease whose holder's process is gone, and whose path somebody else took since, can
  still be taken over by its id: two different agents then hold one path.
\<close>

theorem take_over_of_a_dead_lease:
  "let second = lease_take (\<lambda>s. ''d'') later_alive first_dir second_request 40;
       third = lease_take_over (\<lambda>s. ''d'') (snd second) (ls_id first_lease) (a_holder ''gemini'' 12)
         ''mine now'' 40
   in answered_taken (fst second) \<and>
      map (\<lambda>l. (ls_path l, lh_agent (ls_holder l))) (lease_held later_alive (snd third) 40) =
        [(''src/billing/invoice.ts'', ''codex''), (''src/billing/invoice.ts'', ''gemini'')]"
  by (simp add: Let_def second_taken taken_from_gone both_held answered_taken_def)

end
