(* ===== verification/LeaseGate.thy ===== *)
theory LeaseGate
  imports LeaseStore
begin

text \<open>
  What happens when somebody else already holds the path a write needs
  (\<open>packages/core/src/coordination/lease-gate.ts\<close>). The world of a claim is the register and the
  clock; sleeping, asking a person and the workspace's register are parameters that take the world
  to another one, since other agents go on while they last. A parameter that throws answers \<open>None\<close>.
\<close>

section \<open>The gate and what it relies on\<close>

datatype lease_answer = LA_WAIT | LA_TAKE | LA_REFUSE

record lease_asked =
  la_answer :: lease_answer
  la_reason :: "string option"

record lease_world =
  lw_dir :: "lease record_dir"
  lw_now :: time

text \<open>A time somebody else reported: its text, and the instant it reads as, if it reads.\<close>

record reported_time =
  rt_text :: string
  rt_instant :: "time option"

record held_by_another =
  he_holder :: string
  he_machine :: "string option"
  he_path :: string
  he_region :: "written_region option"
  he_last_active :: "reported_time option"
  he_until :: "reported_time option"
  he_lease_id :: "string option"

datatype shared_take = SH_TAKEN lease | SH_HELD_BY_ANOTHER held_by_another | SH_UNKNOWN string

datatype lease_gate_outcome = LG_TAKEN | LG_WAITED | LG_TOOK_OVER | LG_REFUSED | LG_TIMED_OUT

record lease_verdict =
  lv_outcome :: lease_gate_outcome
  lv_lease :: "lease option"
  lv_holding :: "lease option"
  lv_message :: "string option"
  lv_shared_lease_id :: "string option"
  lv_asked :: "string option"

definition lease_verdict_of :: "lease_gate_outcome \<Rightarrow> lease_verdict" where
  "lease_verdict_of outcome =
     \<lparr>lv_outcome = outcome, lv_lease = None, lv_holding = None, lv_message = None,
      lv_shared_lease_id = None, lv_asked = None\<rparr>"

definition proceeds :: "lease_verdict \<Rightarrow> bool" where
  "proceeds v = (lv_outcome v = LG_TAKEN \<or> lv_outcome v = LG_WAITED \<or> lv_outcome v = LG_TOOK_OVER)"

record lease_gate_deps =
  lg_digest :: "string \<Rightarrow> string"
  lg_alive :: "nat \<Rightarrow> bool"
  lg_shared :: "(string \<Rightarrow> lease_holder \<Rightarrow> int \<Rightarrow> written_region option \<Rightarrow> lease_world \<Rightarrow>
     shared_take \<times> lease_world) option"
  lg_prompt :: "(lease \<Rightarrow> string \<Rightarrow> time \<Rightarrow> int \<Rightarrow> string option \<Rightarrow> lease_world \<Rightarrow>
     lease_asked option option \<times> lease_world) option"
  lg_region :: "(string \<Rightarrow> written_region option) option"
  lg_repository :: "string option"
  lg_project :: "string option"
  lg_sleep :: "int \<Rightarrow> lease_world \<Rightarrow> lease_world"
  lg_ceiling_ms :: "int option"
  lg_poll_ms :: "int option"

definition DEFAULT_POLL_MS :: int where "DEFAULT_POLL_MS = 500"
definition DEFAULT_SHARED_MINUTES :: int where "DEFAULT_SHARED_MINUTES = 30"
definition QUIET_AFTER_MS :: int where "QUIET_AFTER_MS = minutes_to_ms 2"
definition SHORT_ID :: nat where "SHORT_ID = 8"

section \<open>The refusal in words\<close>

definition short_machine :: "string \<Rightarrow> string" where
  "short_machine machine =
     (if length machine \<ge> 16 \<and>
         list_all (\<lambda>c. is_digit c \<or> lower_char c \<in> set ''abcdef'' \<or> c = CHR ''-'') machine
      then take SHORT_ID machine else machine)"

definition clock_text :: "reported_time \<Rightarrow> string" where
  "clock_text r =
     (case rt_instant r of
        None \<Rightarrow> rt_text r
      | Some t \<Rightarrow> take 5 (drop 11 (iso_text t)) @ '' UTC'')"

definition quiet_text :: "held_by_another \<Rightarrow> time \<Rightarrow> string" where
  "quiet_text h now =
     (case he_last_active h of
        None \<Rightarrow> []
      | Some since \<Rightarrow>
          (case rt_instant since of
             None \<Rightarrow> []
           | Some t \<Rightarrow>
               (let idle = now - t in
                if idle < QUIET_AFTER_MS then []
                else '' It has been quiet for '' @ int_text (ms_to_whole_minutes idle) @ '' minutes'' @
                  (case he_until h of
                     None \<Rightarrow> []
                   | Some until \<Rightarrow> '', so they free up at '' @ clock_text until) @
                  '' unless it comes back.'')))"

definition describe_region :: "written_region option \<Rightarrow> string option" where
  "describe_region region =
     (case region of
        None \<Rightarrow> None
      | Some r \<Rightarrow>
          (let spans = map (\<lambda>each. if lr_from each = lr_to each then ''line '' @ nat_text (lr_from each)
                 else ''lines '' @ nat_text (lr_from each) @ '' to '' @ nat_text (lr_to each)) (wr_lines r);
               names = wr_symbols r
           in if names = [] \<and> spans = [] then None
              else if names = [] then Some (join_with '', '' spans)
              else (let named = join_with '', '' names in
                    Some (if spans = [] then named else named @ '' ('' @ join_with '', '' spans @ '')''))))"

definition held_elsewhere :: "held_by_another \<Rightarrow> time \<Rightarrow> string" where
  "held_elsewhere h now =
     (let where_text = (case he_machine h of None \<Rightarrow> [] | Some m \<Rightarrow> '' on '' @ short_machine m);
          path = (if he_path h = [] then ''this repository'' else he_path h);
          held = (case describe_region (he_region h) of
              None \<Rightarrow> he_holder h @ where_text @ '' is writing '' @ path @ ''.''
            | Some part \<Rightarrow> he_holder h @ where_text @ '' is editing '' @ part @ '' of '' @ path @
                ''. The rest of the file is free.'');
          free = (case he_lease_id h of
              None \<Rightarrow> []
            | Some i \<Rightarrow> '' A person can free them now by running `memnox lock --free '' @ i @ ''`.'')
      in held @ quiet_text h now @ free)"

definition without_lease :: "held_by_another \<Rightarrow> held_by_another" where
  "without_lease h = h\<lparr>he_lease_id := None\<rparr>"

section \<open>The question a second writer is asked\<close>

definition ACTIVITY_SHOWN :: nat where "ACTIVITY_SHOWN = 3"

definition ms_to_seconds :: "int \<Rightarrow> int" where
  "ms_to_seconds n = round_div n SECOND_MS"

definition lease_answer_key :: "string \<Rightarrow> lease_answer" where
  "lease_answer_key raw =
     (case to_lower (trim raw) of
        [] \<Rightarrow> LA_WAIT
      | c # _ \<Rightarrow>
          if c = CHR ''w'' then LA_WAIT
          else if c = CHR ''t'' then LA_TAKE
          else if c = CHR ''d'' \<or> c = CHR ''n'' then LA_REFUSE
          else LA_WAIT)"

text \<open>What is answered, of what the person typed to each question in time.\<close>

definition terminal_answer :: "string option \<Rightarrow> string option \<Rightarrow> lease_asked" where
  "terminal_answer typed reason =
     (case typed of
        None \<Rightarrow> \<lparr>la_answer = LA_WAIT, la_reason = None\<rparr>
      | Some raw \<Rightarrow>
          (let answer = lease_answer_key raw
           in if answer \<noteq> LA_TAKE then \<lparr>la_answer = answer, la_reason = None\<rparr>
              else (case reason of
                      None \<Rightarrow> \<lparr>la_answer = LA_WAIT, la_reason = None\<rparr>
                    | Some text \<Rightarrow> \<lparr>la_answer = LA_TAKE, la_reason = Some (trim text)\<rparr>)))"

definition held_question_for :: "lease \<Rightarrow> string \<Rightarrow> time \<Rightarrow> int \<Rightarrow> string option \<Rightarrow> string" where
  "held_question_for held wanted moment wait_ms from =
     (let seconds = max 1 (ms_to_seconds wait_ms);
          notes = drop (length (ls_activity held) - ACTIVITY_SHOWN) (ls_activity held);
          lines = [[], ''  MEMNOX  '' @ (if wanted = [] then ''this repository'' else wanted) @ '' is held'',
              ''          '' @ describe_lease held moment from] @
            (if ls_activity held = [] then [] else [] # map (\<lambda>note. ''          '' @ note) notes) @
            [[], ''  [w] wait up to '' @ int_text seconds @ ''s   [t] take it anyway   [d] don'' @
               [char_of (39 :: nat)] @ ''t'', ''  > '']
      in join_with [char_of (10 :: nat)] lines)"

section \<open>A claim\<close>

definition registry_take :: "lease_gate_deps \<Rightarrow> lease_request \<Rightarrow> lease_world \<Rightarrow> take_result \<times> lease_world" where
  "registry_take deps request w =
     (let (answer, dir) = lease_take (lg_digest deps) (lg_alive deps) (lw_dir w) request (lw_now w)
      in (answer, w\<lparr>lw_dir := dir\<rparr>))"

definition region_of :: "lease_gate_deps \<Rightarrow> string \<Rightarrow> written_region option" where
  "region_of deps path = (case lg_region deps of None \<Rightarrow> None | Some read \<Rightarrow> read path)"

definition claim_request ::
  "lease_gate_deps \<Rightarrow> string \<Rightarrow> lease_holder \<Rightarrow> string \<Rightarrow> int option \<Rightarrow> lease_request" where
  "claim_request deps path holder activity minutes =
     \<lparr>lq_path = path, lq_holder = holder, lq_minutes = minutes, lq_activity = Some activity,
      lq_region = region_of deps path, lq_repository = lg_repository deps, lq_project = lg_project deps\<rparr>"

definition claim_shared ::
  "lease_gate_deps \<Rightarrow> lease_request \<Rightarrow> lease_world \<Rightarrow> lease_verdict option \<times> lease_world" where
  "claim_shared deps request w =
     (case lg_shared deps of
        None \<Rightarrow> (None, w)
      | Some shared \<Rightarrow>
          (let (answer, w1) = shared (lq_path request) (lq_holder request)
                 (or_else (lq_minutes request) DEFAULT_SHARED_MINUTES) (lq_region request) w
           in case answer of
                SH_HELD_BY_ANOTHER h \<Rightarrow>
                  (Some ((lease_verdict_of LG_REFUSED)\<lparr>lv_message := Some (held_elsewhere h (lw_now w1)),
                     lv_asked := Some (held_elsewhere (without_lease h) (lw_now w1)),
                     lv_shared_lease_id := he_lease_id h\<rparr>), w1)
              | _ \<Rightarrow> (None, w1)))"

definition confirm_shared ::
  "lease_gate_deps \<Rightarrow> lease_request \<Rightarrow> lease \<Rightarrow> lease_world \<Rightarrow> lease_verdict \<times> lease_world" where
  "confirm_shared deps request l w =
     (case claim_shared deps request w of
        (None, w1) \<Rightarrow> ((lease_verdict_of LG_TAKEN)\<lparr>lv_lease := Some l\<rparr>, w1)
      | (Some denied, w1) \<Rightarrow>
          (denied, w1\<lparr>lw_dir := snd (lease_release (lw_dir w1) (ls_id l) (lq_holder request) (lw_now w1))\<rparr>))"

definition ask_holder ::
  "lease_gate_deps \<Rightarrow> lease \<Rightarrow> string \<Rightarrow> int \<Rightarrow> lease_world \<Rightarrow> lease_asked option \<times> lease_world" where
  "ask_holder deps holding path budget w =
     (case lg_prompt deps of
        None \<Rightarrow> (None, w)
      | Some prompt \<Rightarrow>
          (let (answer, w1) = prompt holding path (lw_now w) budget (lg_repository deps) w
           in (or_else answer None, w1)))"

text \<open>
  How often a wait tries again: \<open>None\<close> is without end, which a poll of no time gives; nothing
  divided by nothing is no number, and the loop then does not run.
\<close>

definition wait_attempts :: "int \<Rightarrow> int \<Rightarrow> nat option" where
  "wait_attempts budget poll =
     (if poll = 0 then (if budget > 0 then None else if budget = 0 then Some 0 else Some 1)
      else Some (nat (max 1 (- ((- budget) div poll)))))"

partial_function (option) wait_loop ::
  "lease_gate_deps \<Rightarrow> lease_request \<Rightarrow> time \<Rightarrow> int \<Rightarrow> nat option \<Rightarrow> nat \<Rightarrow> lease_world \<Rightarrow>
     (lease option \<times> lease_world) option" where
  "wait_loop deps request deadline poll attempts attempt w =
     (if (case attempts of None \<Rightarrow> False | Some n \<Rightarrow> n \<le> attempt) then Some (None, w)
      else if lw_now w \<ge> deadline then Some (None, w)
      else (case registry_take deps request (lg_sleep deps poll w) of
              (TR_TAKEN l, w1) \<Rightarrow> Some (Some l, w1)
            | (TR_HELD_BY_ANOTHER h, w1) \<Rightarrow> wait_loop deps request deadline poll attempts (Suc attempt) w1
            | (TR_UNUSABLE_PATH, w1) \<Rightarrow> wait_loop deps request deadline poll attempts (Suc attempt) w1))"

declare wait_loop.simps [code]

definition wait_out ::
  "lease_gate_deps \<Rightarrow> lease_request \<Rightarrow> lease \<Rightarrow> int \<Rightarrow> lease_world \<Rightarrow> (lease_verdict \<times> lease_world) option" where
  "wait_out deps request holding budget w =
     (let poll = or_else (lg_poll_ms deps) DEFAULT_POLL_MS;
          deadline = lw_now w + budget
      in case wait_loop deps request deadline poll (wait_attempts budget poll) 0 w of
           None \<Rightarrow> None
         | Some (Some l, w1) \<Rightarrow> Some ((lease_verdict_of LG_WAITED)\<lparr>lv_lease := Some l\<rparr>, w1)
         | Some (None, w1) \<Rightarrow>
             Some ((lease_verdict_of LG_TIMED_OUT)\<lparr>lv_holding := Some holding,
               lv_message := Some (describe_lease holding (lw_now w1) (lg_repository deps) @
                 '' and did not let go. Wait, or take it with \"memnox lock '' @ lq_path request @ ''\".'')\<rparr>, w1))"

definition gate_take_over ::
  "lease_gate_deps \<Rightarrow> lease_request \<Rightarrow> lease \<Rightarrow> string \<Rightarrow> lease_world \<Rightarrow> lease_verdict \<times> lease_world" where
  "gate_take_over deps request holding reason w =
     (if trim reason = [] then
        ((lease_verdict_of LG_REFUSED)\<lparr>lv_holding := Some holding,
          lv_message := Some ''Taking a held path needs a reason, so the record says why.''\<rparr>, w)
      else
        (let w1 = w\<lparr>lw_dir := snd (lease_take_over (lg_digest deps) (lw_dir w) (ls_id holding)
               (lq_holder request) reason (lw_now w))\<rparr>;
             (mine, w2) = registry_take deps request w1
         in ((lease_verdict_of LG_TOOK_OVER)\<lparr>lv_holding := Some holding,
              lv_lease := (case mine of TR_TAKEN l \<Rightarrow> Some l | _ \<Rightarrow> None),
              lv_message := Some (''Took '' @ ls_path holding @ '' from '' @ lh_agent (ls_holder holding) @
                '': '' @ reason)\<rparr>, w2)))"

definition claim ::
  "lease_gate_deps \<Rightarrow> string \<Rightarrow> lease_holder \<Rightarrow> string \<Rightarrow> int option \<Rightarrow> lease_world \<Rightarrow>
     (lease_verdict \<times> lease_world) option" where
  "claim deps path holder activity minutes w =
     (let request = claim_request deps path holder activity minutes
      in case registry_take deps request w of
           (TR_TAKEN l, w1) \<Rightarrow> Some (confirm_shared deps request l w1)
         | (TR_UNUSABLE_PATH, w1) \<Rightarrow> Some (lease_verdict_of LG_TAKEN, w1)
         | (TR_HELD_BY_ANOTHER holding, w1) \<Rightarrow>
             (let budget = wait_for holding (lw_now w1) (or_else (lg_ceiling_ms deps) LEASE_MAX_WAIT_MS);
                  (asked, w2) = ask_holder deps holding path budget w1
              in case asked of
                   None \<Rightarrow> wait_out deps request holding budget w2
                 | Some a \<Rightarrow>
                     (case la_answer a of
                        LA_WAIT \<Rightarrow> wait_out deps request holding budget w2
                      | LA_TAKE \<Rightarrow> Some (gate_take_over deps request holding (or_else (la_reason a) []) w2)
                      | LA_REFUSE \<Rightarrow>
                          Some ((lease_verdict_of LG_REFUSED)\<lparr>lv_holding := Some holding,
                            lv_message := Some (''Stood down: '' @
                              describe_lease holding (lw_now w2) (lg_repository deps))\<rparr>, w2))))"

section \<open>A wait ends\<close>

lemma wait_attempts_finite: "poll \<noteq> 0 \<Longrightarrow> \<exists>n. wait_attempts budget poll = Some n"
  by (simp add: wait_attempts_def)

lemma registry_take_now [simp]: "lw_now (snd (registry_take deps q w)) = lw_now w"
  by (simp add: registry_take_def split: prod.split)

lemma wait_loop_returns:
  assumes sleeps: "\<And>w. lw_now (lg_sleep deps poll w) \<le> lw_now w + late" and "0 \<le> late"
  shows "\<exists>r w'. wait_loop deps q deadline poll (Some n) attempt w = Some (r, w') \<and>
    lw_now w' \<le> max (lw_now w) (deadline + late)"
proof (induction "n - attempt" arbitrary: attempt w)
  case 0
  then show ?case by (subst wait_loop.simps) simp
next
  case (Suc k)
  let ?r = "registry_take deps q (lg_sleep deps poll w)"
  have clock: "lw_now (snd ?r) \<le> lw_now w + late" using sleeps by simp
  show ?case
  proof (cases "deadline \<le> lw_now w")
    case True
    then show ?thesis by (subst wait_loop.simps) simp
  next
    case False
    have again: "\<exists>r w'. wait_loop deps q deadline poll (Some n) (Suc attempt) (snd ?r) = Some (r, w') \<and>
        lw_now w' \<le> max (lw_now w) (deadline + late)"
      using Suc.hyps(1) [of "Suc attempt" "snd ?r"] Suc.hyps(2) clock False by fastforce
    obtain a w1 where r: "?r = (a, w1)" by fastforce
    have more: "\<not> n \<le> attempt" using Suc.hyps(2) by simp
    have step: "wait_loop deps q deadline poll (Some n) attempt w =
        (case a of TR_TAKEN l \<Rightarrow> Some (Some l, w1)
         | _ \<Rightarrow> wait_loop deps q deadline poll (Some n) (Suc attempt) w1)"
      using False more r by (subst wait_loop.simps) (simp split: take_result.split)
    show ?thesis
      using step again clock r False by (cases a) auto
  qed
qed

lemma wait_out_returns:
  assumes "\<And>w. lw_now (lg_sleep deps (or_else (lg_poll_ms deps) DEFAULT_POLL_MS) w) \<le> lw_now w + late"
    and "0 \<le> late" "or_else (lg_poll_ms deps) DEFAULT_POLL_MS \<noteq> 0" "0 \<le> budget"
  shows "\<exists>v w'. wait_out deps q holding budget w = Some (v, w') \<and> lw_now w' \<le> lw_now w + budget + late"
proof -
  let ?poll = "or_else (lg_poll_ms deps) DEFAULT_POLL_MS"
  obtain n where n: "wait_attempts budget ?poll = Some n"
    using wait_attempts_finite [OF assms(3)] by blast
  obtain r w' where "wait_loop deps q (lw_now w + budget) ?poll (Some n) 0 w = Some (r, w')"
    and "lw_now w' \<le> max (lw_now w) (lw_now w + budget + late)"
    using wait_loop_returns [OF assms(1,2)] by blast
  with n assms(2,4) show ?thesis
    by (cases r) (auto simp: wait_out_def Let_def)
qed

lemma wait_for_bounds:
  "0 \<le> ceil \<Longrightarrow> 0 \<le> wait_for l moment ceil \<and> wait_for l moment ceil \<le> ceil"
  by (auto simp: wait_for_def Let_def)

text \<open>
  Property C28. A claim nobody can be asked about, on a path another agent holds, always answers,
  whatever the other agents do to the register meanwhile and even if the clock stands still, and
  answers no later than the ceiling of a minute after it was made, give or take one sleep: it waits
  and gets the path, or times out naming the holder. The poll is not zero.
\<close>

theorem unattended_claim_answers:
  assumes "lg_prompt deps = None" "lg_ceiling_ms deps = None"
    and "\<And>w. lw_now (lg_sleep deps (or_else (lg_poll_ms deps) DEFAULT_POLL_MS) w) \<le> lw_now w + late"
    and "0 \<le> late" "or_else (lg_poll_ms deps) DEFAULT_POLL_MS \<noteq> 0"
    and held: "fst (registry_take deps (claim_request deps path holder activity minutes) w) =
      TR_HELD_BY_ANOTHER holding"
  shows "\<exists>v w'. claim deps path holder activity minutes w = Some (v, w') \<and>
    lw_now w' \<le> lw_now w + LEASE_MAX_WAIT_MS + late \<and>
    (lv_outcome v = LG_WAITED \<or> lv_outcome v = LG_TIMED_OUT \<and> lv_holding v = Some holding)"
proof -
  let ?q = "claim_request deps path holder activity minutes"
  obtain w1 where r: "registry_take deps ?q w = (TR_HELD_BY_ANOTHER holding, w1)"
    using held by (cases "registry_take deps ?q w") simp
  have n: "lw_now w1 = lw_now w" using registry_take_now [of deps ?q w] r by simp
  let ?b = "wait_for holding (lw_now w1) LEASE_MAX_WAIT_MS"
  have b: "0 \<le> ?b" "?b \<le> LEASE_MAX_WAIT_MS"
    using wait_for_bounds [of LEASE_MAX_WAIT_MS] by (simp_all add: LEASE_MAX_WAIT_MS_def)
  obtain v w' where "wait_out deps ?q holding ?b w1 = Some (v, w')" "lw_now w' \<le> lw_now w1 + ?b + late"
    using wait_out_returns [OF assms(3,4,5) b(1)] by blast
  moreover from this(1) have "lv_outcome v = LG_WAITED \<or> lv_outcome v = LG_TIMED_OUT \<and> lv_holding v = Some holding"
    by (auto simp: wait_out_def lease_verdict_of_def Let_def split: option.splits)
  moreover have "claim deps path holder activity minutes w = wait_out deps ?q holding ?b w1"
    using assms(1,2) r by (simp add: claim_def Let_def ask_holder_def)
  ultimately show ?thesis using b(2) n by auto
qed

section \<open>Overrides and refusals\<close>

text \<open>
  A claim answered with taking the path anyway and no reason, or a blank one, is
  refused naming the holder, and leaves the register as it was.
\<close>

theorem take_over_needs_a_reason:
  assumes "fst (registry_take deps (claim_request deps path holder activity minutes) w) =
      TR_HELD_BY_ANOTHER holding"
    and "\<And>budget w. ask_holder deps holding path budget w = (Some \<lparr>la_answer = LA_TAKE, la_reason = reason\<rparr>, w)"
    and "trim (or_else reason []) = []"
  shows "\<exists>v. claim deps path holder activity minutes w = Some (v, w) \<and>
    \<not> proceeds v \<and> lv_holding v = Some holding"
proof -
  let ?q = "claim_request deps path holder activity minutes"
  have "lease_take (lg_digest deps) (lg_alive deps) (lw_dir w) ?q (lw_now w) = (TR_HELD_BY_ANOTHER holding, lw_dir w)"
    using assms(1) by (auto simp: registry_take_def lease_take_def Let_def split: prod.splits option.splits)
  then have "registry_take deps ?q w = (TR_HELD_BY_ANOTHER holding, w)"
    by (simp add: registry_take_def)
  then show ?thesis
    using assms(2,3) by (simp add: claim_def Let_def gate_take_over_def proceeds_def lease_verdict_of_def)
qed

lemma released_not_held:
  assumes "own_ids dir" "dir_read dir i = Some l" "same_holder (ls_holder l) holder"
    and "a \<in> set (lease_held alive (snd (lease_release dir i holder now)) moment)"
  shows "ls_id a \<noteq> i"
proof -
  have "ls_id l = i" using assms(1,2) by (simp add: own_ids_def)
  moreover have "snd (lease_release dir i holder now) = lease_write dir (l\<lparr>ls_released_at := Some now\<rparr>)"
    using assms(2,3) by (simp add: lease_release_def Let_def)
  ultimately show ?thesis
    using assms(1,4) in_lease_write [of dir a "l\<lparr>ls_released_at := Some now\<rparr>"]
    by (auto simp: lease_held_def leases_in_force_def)
qed

text \<open>
  When the workspace's register answers that another machine holds the path, the claim
  does not proceed, and the lease this machine just took for it is not left in force: neither now
  nor at any later moment.
\<close>

theorem refused_elsewhere_gives_back:
  assumes own: "own_ids (lw_dir w)"
    and taken: "registry_take deps (claim_request deps path holder activity minutes) w = (TR_TAKEN l, w1)"
    and shared: "claim_shared deps (claim_request deps path holder activity minutes) w1 = (Some v, w2)"
    and still: "lw_dir w2 = lw_dir w1"
  shows "\<exists>w'. claim deps path holder activity minutes w = Some (v, w') \<and> \<not> proceeds v \<and>
    (\<forall>a moment. a \<in> set (lease_held (lg_alive deps) (lw_dir w') moment) \<longrightarrow> ls_id a \<noteq> ls_id l)"
proof -
  let ?q = "claim_request deps path holder activity minutes"
  obtain dir where t: "lease_take (lg_digest deps) (lg_alive deps) (lw_dir w) ?q (lw_now w) = (TR_TAKEN l, dir)"
    and w1: "w1 = w\<lparr>lw_dir := dir\<rparr>"
    using taken by (auto simp: registry_take_def split: prod.splits)
  have "dir = lease_write (lw_dir w) l"
    using t by (auto simp: lease_take_def Let_def split: option.splits)
  then have own1: "own_ids dir" and read: "dir_read dir (ls_id l) = Some l"
    using own_ids_write [OF own] in_lease_write [OF own, of l l] in_lease_all [of dir l] by simp_all
  have same: "same_holder (ls_holder l) holder"
    using take_answer [OF own, where digest = "lg_digest deps" and alive = "lg_alive deps" and q = ?q and now = "lw_now w"] t
    by (simp add: claim_request_def)
  have "lv_outcome v = LG_REFUSED"
    using shared by (auto simp: claim_shared_def lease_verdict_of_def Let_def split: option.splits prod.splits shared_take.splits)
  moreover have "lq_holder ?q = holder" by (simp add: claim_request_def)
  ultimately show ?thesis
    using taken shared released_not_held [OF own1 read same] w1 still
    by (auto simp: claim_def Let_def confirm_shared_def proceeds_def)
qed

section \<open>Where a claim proceeds past a holder\<close>

definition gate_deps :: lease_gate_deps where
  "gate_deps = \<lparr>lg_digest = (\<lambda>s. ''d''), lg_alive = (\<lambda>p. True),
     lg_shared = Some (\<lambda>path holder minutes region w. (SH_HELD_BY_ANOTHER
       \<lparr>he_holder = ''cursor'', he_machine = None, he_path = path, he_region = None,
        he_last_active = None, he_until = None, he_lease_id = None\<rparr>, w)),
     lg_prompt = None, lg_region = None, lg_repository = Some ''/work'', lg_project = None,
     lg_sleep = (\<lambda>ms w. w\<lparr>lw_dir := snd (lease_release (lw_dir w) (ls_id first_lease) (a_holder ''claude'' 10) 20)\<rparr>),
     lg_ceiling_ms = None, lg_poll_ms = None\<rparr>"

definition freed_dir :: "lease record_dir" where
  "freed_dir = snd (lease_release first_dir (ls_id first_lease) (a_holder ''claude'' 10) 20)"

definition claimed :: lease_request where
  "claimed = claim_request gate_deps ''src/billing/invoice.ts'' (a_holder ''codex'' 11) ''edit'' None"

definition claimed_lease :: lease where "claimed_lease = lease_for (\<lambda>s. ''d'') claimed 20"

lemma claim_blocked:
  "registry_take gate_deps claimed \<lparr>lw_dir = first_dir, lw_now = 20\<rparr> =
     (TR_HELD_BY_ANOTHER first_lease, \<lparr>lw_dir = first_dir, lw_now = 20\<rparr>)"
proof -
  have "lease_take (\<lambda>s. ''d'') (\<lambda>p. True) first_dir claimed 20 = (TR_HELD_BY_ANOTHER first_lease, first_dir)"
    by (rule take_blocked [where standing = "[first_lease]"]) code_simp+
  then show ?thesis by (simp add: registry_take_def gate_deps_def)
qed

lemma claim_free:
  "registry_take gate_deps claimed \<lparr>lw_dir = freed_dir, lw_now = 20\<rparr> =
     (TR_TAKEN claimed_lease, \<lparr>lw_dir = lease_write freed_dir claimed_lease, lw_now = 20\<rparr>)"
proof -
  have "lease_take (\<lambda>s. ''d'') (\<lambda>p. True) freed_dir claimed 20 =
      (TR_TAKEN claimed_lease, lease_write freed_dir claimed_lease)"
    unfolding claimed_lease_def by (rule take_new [where standing = "[]"]) code_simp+
  then show ?thesis by (simp add: registry_take_def gate_deps_def)
qed

lemma deps_parts:
  "lg_prompt gate_deps = None" "lg_ceiling_ms gate_deps = None" "lg_poll_ms gate_deps = None"
  "lg_repository gate_deps = Some ''/work''"
  "lg_sleep gate_deps ms w = w\<lparr>lw_dir := snd (lease_release (lw_dir w) (ls_id first_lease) (a_holder ''claude'' 10) 20)\<rparr>"
  by (simp_all add: gate_deps_def)

text \<open>
  With the path free on this machine, a claim the workspace answers for another machine
  is refused; with the path held here and let go during the wait, the same claim proceeds, since the
  workspace is not asked again after a wait.
\<close>

theorem waited_claim_skips_workspace:
  "map_option (\<lambda>(v, w). (lv_outcome v, proceeds v)) (claim gate_deps ''src/billing/invoice.ts''
     (a_holder ''codex'' 11) ''edit'' None \<lparr>lw_dir = freed_dir, lw_now = 20\<rparr>) = Some (LG_REFUSED, False) \<and>
   map_option (\<lambda>(v, w). (lv_outcome v, proceeds v)) (claim gate_deps ''src/billing/invoice.ts''
     (a_holder ''codex'' 11) ''edit'' None \<lparr>lw_dir = first_dir, lw_now = 20\<rparr>) = Some (LG_WAITED, True)"
proof
  have "\<exists>v w. claim_shared gate_deps claimed \<lparr>lw_dir = lease_write freed_dir claimed_lease, lw_now = 20\<rparr> = (Some v, w) \<and>
      lv_outcome v = LG_REFUSED"
    by (simp add: claim_shared_def gate_deps_def lease_verdict_of_def)
  then show "map_option (\<lambda>(v, w). (lv_outcome v, proceeds v)) (claim gate_deps ''src/billing/invoice.ts''
     (a_holder ''codex'' 11) ''edit'' None \<lparr>lw_dir = freed_dir, lw_now = 20\<rparr>) = Some (LG_REFUSED, False)"
    using claim_free
    by (auto simp: claim_def claimed_def [symmetric] confirm_shared_def proceeds_def)
next
  have budget: "wait_for first_lease 20 LEASE_MAX_WAIT_MS = 60000"
    by code_simp
  have attempts: "wait_attempts 60000 500 = Some 120" by (simp add: wait_attempts_def)
  have "wait_loop gate_deps claimed 60020 500 (Some 120) 0 \<lparr>lw_dir = first_dir, lw_now = 20\<rparr> =
      Some (Some claimed_lease, \<lparr>lw_dir = lease_write freed_dir claimed_lease, lw_now = 20\<rparr>)"
    using claim_free by (subst wait_loop.simps) (simp add: deps_parts freed_dir_def [symmetric])
  then show "map_option (\<lambda>(v, w). (lv_outcome v, proceeds v)) (claim gate_deps ''src/billing/invoice.ts''
     (a_holder ''codex'' 11) ''edit'' None \<lparr>lw_dir = first_dir, lw_now = 20\<rparr>) = Some (LG_WAITED, True)"
    using claim_blocked budget attempts
    by (simp add: claim_def claimed_def [symmetric] ask_holder_def deps_parts wait_out_def
        DEFAULT_POLL_MS_def proceeds_def lease_verdict_of_def Let_def)
qed

text \<open>Two agents with a file each under \<open>src\<close>, and a third that wants all of \<open>src\<close>.\<close>

definition left_lease :: lease where
  "left_lease = lease_for (\<lambda>s. ''d'') (a_request ''src/a.ts'' (a_holder ''claude'' 10)) 10"

definition right_lease :: lease where
  "right_lease = lease_for (\<lambda>s. ''d'') (a_request ''src/b.ts'' (a_holder ''gemini'' 12)) 10"

definition both_dir :: "lease record_dir" where
  "both_dir = lease_write (lease_write [] left_lease) right_lease"

definition all_of_src :: lease_request where
  "all_of_src = claim_request gate_deps ''src'' (a_holder ''codex'' 11) ''move'' None"

definition taking_deps :: "string \<Rightarrow> lease_gate_deps" where
  "taking_deps reason = gate_deps\<lparr>lg_prompt := Some (\<lambda>held wanted moment ms from w.
     (Some (Some \<lparr>la_answer = LA_TAKE, la_reason = Some reason\<rparr>), w))\<rparr>"

definition left_marked :: lease where
  "left_marked = left_lease\<lparr>ls_taken_over :=
     Some \<lparr>lt_by = a_holder ''codex'' 11, lt_at = 20, lt_reason = ''urgent''\<rparr>\<rparr>"

definition left_new :: lease where
  "left_new = lease_for (\<lambda>s. ''d'')
     \<lparr>lq_path = ''src/a.ts'', lq_holder = a_holder ''codex'' 11, lq_minutes = None,
      lq_activity = None, lq_region = None, lq_repository = Some ''/work'', lq_project = None\<rparr> 20"

definition left_taken :: "lease record_dir" where
  "left_taken = lease_write (lease_write both_dir left_marked) left_new"

lemma left_take_over:
  "lease_take_over (\<lambda>s. ''d'') both_dir (ls_id left_lease) (a_holder ''codex'' 11) ''urgent'' 20 =
     (LC_TAKEN left_new, left_taken)"
proof -
  have "dir_read both_dir (ls_id left_lease) = Some left_lease" by code_simp
  moreover have "ls_path left_lease = ''src/a.ts''" "ls_repository left_lease = Some ''/work''"
    "ls_project left_lease = None"
    by (simp_all add: left_lease_def lease_for_def a_request_def)
  ultimately show ?thesis
    by (simp add: lease_take_over_def Let_def left_marked_def left_new_def left_taken_def)
qed

lemma src_blocked:
  "lease_take (\<lambda>s. ''d'') (\<lambda>p. True) both_dir all_of_src 20 = (TR_HELD_BY_ANOTHER left_lease, both_dir)"
  by (rule take_blocked [where standing = "[left_lease, right_lease]"]) code_simp+

lemma src_still_blocked:
  "lease_take (\<lambda>s. ''d'') (\<lambda>p. True) left_taken all_of_src 20 = (TR_HELD_BY_ANOTHER right_lease, left_taken)"
  by (rule take_blocked [where standing = "[right_lease, left_new]"]) code_simp+

lemma right_held: "right_lease \<in> set (lease_held (\<lambda>p. True) left_taken 20)"
proof -
  have "lease_held (\<lambda>p. True) left_taken 20 = [right_lease, left_new]" by code_simp
  then show ?thesis by simp
qed

text \<open>
  A claim on a directory in which two agents hold a file each, answered with taking it
  anyway, takes the first agent's file only; it proceeds with no lease on the directory while the
  second agent's lease on a file of it stands.
\<close>

theorem took_over_past_another:
  "case claim (taking_deps ''urgent'') ''src'' (a_holder ''codex'' 11) ''move'' None
          \<lparr>lw_dir = both_dir, lw_now = 20\<rparr> of
     Some (v, w) \<Rightarrow> proceeds v \<and> lv_outcome v = LG_TOOK_OVER \<and> lv_lease v = None \<and>
       right_lease \<in> set (lease_held (\<lambda>p. True) (lw_dir w) 20) \<and>
       regions_meet (placed_of right_lease) (wanted_of all_of_src) \<and>
       \<not> same_holder (ls_holder right_lease) (a_holder ''codex'' 11)
   | None \<Rightarrow> False"
proof -
  have q: "claim_request (taking_deps ''urgent'') ''src'' (a_holder ''codex'' 11) ''move'' None = all_of_src"
    by (simp add: all_of_src_def claim_request_def taking_deps_def region_of_def gate_deps_def)
  have meets: "regions_meet (placed_of right_lease) (wanted_of all_of_src)"
    "\<not> same_holder (ls_holder right_lease) (a_holder ''codex'' 11)"
    by code_simp+
  have reason: "trim ''urgent'' \<noteq> []" by code_simp
  have holder: "lq_holder all_of_src = a_holder ''codex'' 11"
    by (simp add: all_of_src_def claim_request_def)
  have parts: "lg_digest (taking_deps ''urgent'') = (\<lambda>s. ''d'')" "lg_alive (taking_deps ''urgent'') = (\<lambda>p. True)"
    "\<And>h p b w. ask_holder (taking_deps ''urgent'') h p b w =
       (Some \<lparr>la_answer = LA_TAKE, la_reason = Some ''urgent''\<rparr>, w)"
    by (simp_all add: taking_deps_def gate_deps_def ask_holder_def)
  show ?thesis
    by (simp add: claim_def q registry_take_def parts src_blocked gate_take_over_def reason holder
        left_take_over src_still_blocked proceeds_def lease_verdict_of_def right_held meets Let_def)
qed

section \<open>Claims as they run\<close>

lemma own_ids_release: "own_ids dir \<Longrightarrow> own_ids (snd (lease_release dir i holder now))"
  by (auto simp: lease_release_def Let_def own_ids_write split: option.split)

lemma freed_own: "own_ids freed_dir"
  using register_reached_own [OF first_dir_reached] unfolding freed_dir_def
  by (rule own_ids_release)

lemma unattended_claim_answers_witness:
  "lg_prompt gate_deps = None \<and>
   fst (registry_take gate_deps claimed \<lparr>lw_dir = first_dir, lw_now = 20\<rparr>) = TR_HELD_BY_ANOTHER first_lease \<and>
   (\<exists>v w'. claim gate_deps ''src/billing/invoice.ts'' (a_holder ''codex'' 11) ''edit'' None
      \<lparr>lw_dir = first_dir, lw_now = 20\<rparr> = Some (v, w') \<and> lw_now w' \<le> 60020)"
proof -
  have "fst (registry_take gate_deps (claim_request gate_deps ''src/billing/invoice.ts'' (a_holder ''codex'' 11) ''edit'' None)
      \<lparr>lw_dir = first_dir, lw_now = 20\<rparr>) = TR_HELD_BY_ANOTHER first_lease"
    using claim_blocked by (simp add: claimed_def)
  then show ?thesis
    using unattended_claim_answers [of gate_deps 0 "''src/billing/invoice.ts''" "a_holder ''codex'' 11" "''edit''" None
        "\<lparr>lw_dir = first_dir, lw_now = 20\<rparr>" first_lease] claim_blocked
    by (simp add: deps_parts DEFAULT_POLL_MS_def LEASE_MAX_WAIT_MS_def) blast
qed

lemma refused_elsewhere_gives_back_witness:
  "\<exists>v w'. claim gate_deps ''src/billing/invoice.ts'' (a_holder ''codex'' 11) ''edit'' None
      \<lparr>lw_dir = freed_dir, lw_now = 20\<rparr> = Some (v, w') \<and> \<not> proceeds v \<and>
    claimed_lease \<notin> set (lease_held (\<lambda>p. True) (lw_dir w') 20)"
proof -
  let ?w1 = "\<lparr>lw_dir = lease_write freed_dir claimed_lease, lw_now = 20\<rparr>"
  obtain v where v: "claim_shared gate_deps claimed ?w1 = (Some v, ?w1)"
    by (simp add: claim_shared_def gate_deps_def)
  have own: "own_ids (lw_dir \<lparr>lw_dir = freed_dir, lw_now = 20\<rparr>)" by (simp add: freed_own)
  have alive: "lg_alive gate_deps = (\<lambda>p. True)" by (simp add: gate_deps_def)
  show ?thesis
    using refused_elsewhere_gives_back [OF own claim_free [unfolded claimed_def] v [unfolded claimed_def]]
    unfolding alive by fastforce
qed

lemma take_over_needs_a_reason_witness:
  "\<exists>v. claim (taking_deps ''  '') ''src/billing/invoice.ts'' (a_holder ''codex'' 11) ''edit'' None
      \<lparr>lw_dir = first_dir, lw_now = 20\<rparr> = Some (v, \<lparr>lw_dir = first_dir, lw_now = 20\<rparr>) \<and> \<not> proceeds v"
proof -
  have q: "claim_request (taking_deps ''  '') ''src/billing/invoice.ts'' (a_holder ''codex'' 11) ''edit'' None = claimed"
    by (simp add: claimed_def claim_request_def taking_deps_def region_of_def gate_deps_def)
  have t: "registry_take (taking_deps ''  '') = registry_take gate_deps"
    by (intro ext) (simp add: registry_take_def taking_deps_def)
  have blocked: "fst (registry_take (taking_deps ''  '')
      (claim_request (taking_deps ''  '') ''src/billing/invoice.ts'' (a_holder ''codex'' 11) ''edit'' None)
      \<lparr>lw_dir = first_dir, lw_now = 20\<rparr>) = TR_HELD_BY_ANOTHER first_lease"
    unfolding q t using claim_blocked by simp
  have ask: "ask_holder (taking_deps ''  '') first_lease ''src/billing/invoice.ts'' budget w =
      (Some \<lparr>la_answer = LA_TAKE, la_reason = Some ''  ''\<rparr>, w)" for budget w
    by (simp add: ask_holder_def taking_deps_def)
  have blank: "trim (or_else (Some ''  '') []) = []" by code_simp
  from take_over_needs_a_reason [OF blocked ask blank] show ?thesis by blast
qed

end
