(* ===== verification/ShellWords.thy ===== *)
theory ShellWords
  imports Clock
begin

text \<open>
  \<open>packages/core/src/domain/shell-words.ts\<close>: the words of one shell line. The loops over an index are
  recursions over the text that is left; a regular expression is the function that matches it.
\<close>

section \<open>Where a line splits\<close>

definition QUOTE :: char where "QUOTE = char_of (39 :: nat)"
definition DQUOTE :: char where "DQUOTE = char_of (34 :: nat)"
definition BACKSLASH :: char where "BACKSLASH = char_of (92 :: nat)"
definition NEWLINE :: char where "NEWLINE = char_of (10 :: nat)"
definition TAB :: char where "TAB = char_of (9 :: nat)"
definition NUL :: char where "NUL = char_of (0 :: nat)"

lemma char_codes [code]:
  "QUOTE = CHR 0x27" "DQUOTE = CHR 0x22" "BACKSLASH = CHR 0x5C" "NEWLINE = CHR 0x0A" "TAB = CHR 0x09" "NUL = CHR 0x00"
  by (simp_all add: QUOTE_def DQUOTE_def BACKSLASH_def NEWLINE_def TAB_def NUL_def char_of_def bit_0)

definition slice :: "nat \<Rightarrow> nat \<Rightarrow> string \<Rightarrow> string" where
  "slice from until s = take (until - from) (drop from s)"

text \<open>The character before, if any, and the text from the index on.\<close>

definition separator_width :: "char option \<Rightarrow> string \<Rightarrow> nat" where
  "separator_width preceding s =
     (if take 2 s = ''&&'' \<or> take 2 s = ''||'' then 2
      else (case s of
              [] \<Rightarrow> 0
            | c # cs \<Rightarrow>
                if c = CHR ''|'' then (if preceding = Some (CHR ''>'') then 0 else 1)
                else if c = CHR '';'' \<or> c = NEWLINE then 1 else 0))"

fun separators_from :: "nat \<Rightarrow> char option \<Rightarrow> char option \<Rightarrow> string \<Rightarrow> (nat \<times> nat) list" where
  "separators_from i quote preceding [] = []"
| "separators_from i quote preceding (c # cs) =
     (if c = BACKSLASH \<and> quote \<noteq> Some QUOTE then
        (case cs of [] \<Rightarrow> [] | d # ds \<Rightarrow> separators_from (i + 2) quote (Some d) ds)
      else if quote \<noteq> None then
        separators_from (i + 1) (if quote = Some c then None else quote) (Some c) cs
      else if c = DQUOTE \<or> c = QUOTE then separators_from (i + 1) (Some c) (Some c) cs
      else
        (let width = separator_width preceding (c # cs) in
         if width = 0 then separators_from (i + 1) quote (Some c) cs
         else (i, width) #
           (if width = 1 then separators_from (i + 1) quote (Some c) cs
            else (case cs of [] \<Rightarrow> [] | d # ds \<Rightarrow> separators_from (i + 2) quote (Some d) ds))))"

definition separators_in :: "string \<Rightarrow> (nat \<times> nat) list" where
  "separators_in input = separators_from 0 None None input"

fun parts_from :: "string \<Rightarrow> nat \<Rightarrow> (nat \<times> nat) list \<Rightarrow> (string \<times> string) list" where
  "parts_from input start [] = [(drop start input, [])]"
| "parts_from input start ((i, w) # rest) =
     (slice start i input, slice i (i + w) input) # parts_from input (i + w) rest"

text \<open>Each part and the separator after it.\<close>

definition split_with_separators :: "string \<Rightarrow> (string \<times> string) list" where
  "split_with_separators input = parts_from input 0 (separators_in input)"

section \<open>Heredocs\<close>

definition HEREDOC_MARK :: string where "HEREDOC_MARK = NUL # ''heredoc''"

definition is_letter_or_line :: "char \<Rightarrow> bool" where
  "is_letter_or_line c = (is_upper c \<or> is_lower c \<or> c = CHR ''_'')"

text \<open>The closing word of a heredoc, up to the quote that opened it, and the rest.\<close>

definition heredoc_word :: "char option \<Rightarrow> string \<Rightarrow> (string \<times> string) option" where
  "heredoc_word quote s =
     (case s of
        [] \<Rightarrow> None
      | c # cs \<Rightarrow>
          if \<not> is_letter_or_line c then None
          else
            (let name = c # takeWhile (\<lambda>x. is_word x \<or> x = CHR ''-'') cs;
                 rest = dropWhile (\<lambda>x. is_word x \<or> x = CHR ''-'') cs
             in case quote of
                  None \<Rightarrow> Some (name, rest)
                | Some q \<Rightarrow> (case rest of
                      x # after \<Rightarrow> if x = q then Some (name, after) else None
                    | [] \<Rightarrow> None)))"

definition opening_quote :: "string \<Rightarrow> char option" where
  "opening_quote s =
     (case s of c # cs \<Rightarrow> (if c = QUOTE \<or> c = DQUOTE then Some c else None) | [] \<Rightarrow> None)"

text \<open>What \<open>HEREDOC\<close> reads after its two signs: whether tabs are stripped, the closing word, and the rest.\<close>

definition heredoc_tail :: "string \<Rightarrow> (bool \<times> string \<times> string) option" where
  "heredoc_tail s =
     (let dash = starts_with ''-'' s;
          s1 = dropWhile (\<lambda>c. c = CHR '' '' \<or> c = TAB) (drop (if dash then 1 else 0) s);
          quote = opening_quote s1
      in map_option (\<lambda>found. (dash, found)) (heredoc_word quote (drop (if quote = None then 0 else 1) s1)))"

lemma heredoc_word_shorter: "heredoc_word quote s = Some (name, rest) \<Longrightarrow> length rest < length s"
  using length_dropWhile_le [of "\<lambda>x. is_word x \<or> x = CHR ''-''" "tl s"]
  by (auto simp: heredoc_word_def Let_def split: list.splits if_splits option.splits)

lemma heredoc_tail_shorter: "heredoc_tail s = Some (dash, name, rest) \<Longrightarrow> length rest < length s"
  using length_dropWhile_le [of "\<lambda>c. c = CHR '' '' \<or> c = TAB" "drop (if starts_with ''-'' s then 1 else 0) s"]
  by (auto simp: heredoc_tail_def Let_def dest!: heredoc_word_shorter split: if_splits)

text \<open>\<open>HEREDOC\<close> at one place: the character before the signs, if any, and what it read.\<close>

definition heredoc_at :: "bool \<Rightarrow> string \<Rightarrow> (string \<times> bool \<times> string \<times> string) option" where
  "heredoc_at start s =
     first_some
       (if start \<and> starts_with ''<<'' s
        then map_option (\<lambda>found. ([], found)) (heredoc_tail (drop 2 s)) else None)
       (case s of
          [] \<Rightarrow> None
        | c # cs \<Rightarrow>
            if c \<noteq> CHR ''<'' \<and> starts_with ''<<'' cs
            then map_option (\<lambda>found. ([c], found)) (heredoc_tail (drop 2 cs)) else None)"

lemma heredoc_at_shorter:
  assumes "heredoc_at start s = Some (preceding, dash, name, rest)"
  shows "length rest < length s"
proof -
  from assms [unfolded heredoc_at_def] show ?thesis
  proof (cases rule: first_some_SomeE)
    case 1
    then show ?thesis by (auto dest!: heredoc_tail_shorter split: if_splits)
  next
    case 2
    then show ?thesis by (auto dest!: heredoc_tail_shorter split: if_splits list.splits)
  qed
qed

text \<open>
  One line with its heredocs replaced by marks that count on from \<open>n\<close>, and the heredocs it opens.
\<close>

function replace_heredocs :: "bool \<Rightarrow> nat \<Rightarrow> string \<Rightarrow> string \<times> (bool \<times> string) list" where
  "replace_heredocs start n [] = ([], [])"
| "replace_heredocs start n (c # cs) =
     (case heredoc_at start (c # cs) of
        Some (preceding, dash, name, rest) \<Rightarrow>
          (let (out, opened) = replace_heredocs False (n + 1) rest
           in (preceding @ '' '' @ HEREDOC_MARK @ nat_text n @ '' '' @ out, (dash, name) # opened))
      | None \<Rightarrow>
          (let (out, opened) = replace_heredocs False n cs in (c # out, opened)))"
  by pat_completeness auto
termination
  by (relation "measure (\<lambda>(start, n, s). length s)") (auto dest: heredoc_at_shorter)

text \<open>The lines of a body, and the lines after its closing word.\<close>

fun body_from :: "bool \<Rightarrow> string \<Rightarrow> string list \<Rightarrow> string list \<times> string list" where
  "body_from strip delimiter [] = ([], [])"
| "body_from strip delimiter (line # lines) =
     (if trim (if strip then dropWhile (\<lambda>c. c = TAB) line else line) = delimiter then ([], lines)
      else (let (body, rest) = body_from strip delimiter lines in (line # body, rest)))"

fun bodies_from :: "(bool \<times> string) list \<Rightarrow> string list \<Rightarrow> string list \<times> string list" where
  "bodies_from [] lines = ([], lines)"
| "bodies_from ((strip, delimiter) # opened) lines =
     (let (body, rest) = body_from strip delimiter lines;
          (bodies, left) = bodies_from opened rest
      in (join_with [NEWLINE] body # bodies, left))"

lemma body_from_shorter: "length (snd (body_from strip delimiter lines)) \<le> length lines"
  by (induction strip delimiter lines rule: body_from.induct) (auto split: prod.splits)

lemma bodies_from_shorter: "length (snd (bodies_from opened lines)) \<le> length lines"
proof (induction opened lines rule: bodies_from.induct)
  case (2 strip delimiter opened lines)
  then show ?case using body_from_shorter [of strip delimiter lines]
    by (fastforce split: prod.splits)
qed simp

function lift_lines :: "nat \<Rightarrow> string list \<Rightarrow> string list \<times> string list" where
  "lift_lines n [] = ([], [])"
| "lift_lines n (line # lines) =
     (let (text, opened) = replace_heredocs True n line;
          (bodies, rest) = bodies_from opened lines;
          (texts, more) = lift_lines (n + length opened) rest
      in (text # texts, bodies @ more))"
  by pat_completeness auto
termination
  by (relation "measure (\<lambda>(n, lines). length lines)")
    (auto simp: le_imp_less_Suc bodies_from_shorter dest!: arg_cong [where f = "\<lambda>p. length (snd p)"])

text \<open>The line with each heredoc body taken out, and the bodies.\<close>

definition lift_heredocs :: "string \<Rightarrow> string \<times> string list" where
  "lift_heredocs raw =
     (if \<not> includes_text ''<<'' raw then (raw, [])
      else (let (lines, bodies) = lift_lines 0 (split_on NEWLINE raw)
            in (join_with [NEWLINE] lines, bodies)))"

section \<open>Words\<close>

record token =
  tk_text :: string
  tk_quoted :: bool

fun tokenize_from :: "token option \<Rightarrow> char option \<Rightarrow> string \<Rightarrow> token list" where
  "tokenize_from current quote [] = (case current of None \<Rightarrow> [] | Some t \<Rightarrow> [t])"
| "tokenize_from current (Some q) (c # cs) =
     (if c = q then tokenize_from current None cs
      else tokenize_from (map_option (\<lambda>t. t\<lparr>tk_text := tk_text t @ [c]\<rparr>) current) (Some q) cs)"
| "tokenize_from current None (c # cs) =
     (if c = DQUOTE \<or> c = QUOTE then
        tokenize_from (Some ((or_else current \<lparr>tk_text = [], tk_quoted = False\<rparr>)\<lparr>tk_quoted := True\<rparr>)) (Some c) cs
      else if is_space c then
        (case current of None \<Rightarrow> [] | Some t \<Rightarrow> [t]) @ tokenize_from None None cs
      else
        (let t = or_else current \<lparr>tk_text = [], tk_quoted = False\<rparr> in
         tokenize_from (Some (t\<lparr>tk_text := tk_text t @ [c]\<rparr>)) None cs))"

definition tokenize_quoted :: "string \<Rightarrow> token list" where
  "tokenize_quoted input = tokenize_from None None input"

definition plain_char :: "char \<Rightarrow> bool" where
  "plain_char c = (is_word c \<or> c \<in> set ''@%+=:,./~-'')"

text \<open>\<open>PLAIN_WORD\<close>.\<close>

definition plain_word :: "string \<Rightarrow> bool" where
  "plain_word word = (word \<noteq> [] \<and> list_all plain_char word)"

text \<open>A quote inside single quotes: closed, double quoted and reopened.\<close>

fun quote_inside :: "string \<Rightarrow> string" where
  "quote_inside [] = []"
| "quote_inside (c # cs) =
     (if c = QUOTE then [QUOTE, DQUOTE, QUOTE, DQUOTE, QUOTE] @ quote_inside cs else c # quote_inside cs)"

definition quote_shell_word :: "string \<Rightarrow> string" where
  "quote_shell_word word =
     (if plain_word word then word else [QUOTE] @ quote_inside word @ [QUOTE])"

definition quote_shell_words :: "string list \<Rightarrow> string" where
  "quote_shell_words words = join_with '' '' (map quote_shell_word words)"

section \<open>Redirects\<close>

record redirects =
  rd_writes :: "string list"
  rd_reads :: "string list"

record redirect =
  re_writes :: bool
  re_target :: string
  re_uses_next :: bool

text \<open>\<open>WRITE_REDIRECT\<close>: what follows \<open>>\<close> or \<open>>>\<close>; the third spelling \<open>>|\<close> is tried after \<open>>\<close> matched.\<close>

definition write_redirect :: "string \<Rightarrow> string option" where
  "write_redirect s =
     (let after_digits = dropWhile is_digit s;
          rest = (if starts_with ''&'' s \<and> \<not> starts_with ''>'' after_digits then tl s else after_digits)
      in if starts_with ''>>'' rest then Some (drop 2 rest)
         else if starts_with ''>'' rest then Some (drop 1 rest) else None)"

definition read_redirect :: "string \<Rightarrow> string option" where
  "read_redirect s =
     (let rest = dropWhile is_digit s in
      if starts_with ''<'' rest \<and> \<not> starts_with ''<<'' rest \<and> \<not> starts_with ''<&'' rest
      then Some (drop 1 rest) else None)"

definition device :: "string \<Rightarrow> bool" where
  "device s =
     (s \<in> set [''/dev/null'', ''/dev/stdout'', ''/dev/stderr'', ''/dev/tty''] \<or>
      starts_with ''/dev/fd/'' s \<and> drop 8 s \<noteq> [] \<and> list_all is_digit (drop 8 s))"

definition redirect_of :: "token \<Rightarrow> token option \<Rightarrow> redirect option" where
  "redirect_of t next_token =
     (if tk_quoted t then None
      else
        (let write = write_redirect (tk_text t);
             read = (if write = None then read_redirect (tk_text t) else None)
         in case first_some write read of
              None \<Rightarrow> None
            | Some joined \<Rightarrow>
                if starts_with ''('' joined then None
                else if joined \<noteq> [] then
                  Some \<lparr>re_writes = (write \<noteq> None), re_target = joined, re_uses_next = False\<rparr>
                else
                  Some \<lparr>re_writes = (write \<noteq> None),
                    re_target = (case next_token of None \<Rightarrow> [] | Some n \<Rightarrow> tk_text n), re_uses_next = True\<rparr>))"

text \<open>The number a mark ends with; the marks are written by \<open>lift_lines\<close> and end with digits.\<close>

definition mark_number :: "string \<Rightarrow> nat option" where
  "mark_number digits =
     (if list_all is_digit digits then Some (foldl (\<lambda>n c. 10 * n + (of_char c - 48)) 0 digits) else None)"

definition body_at :: "string list \<Rightarrow> string \<Rightarrow> string" where
  "body_at bodies digits =
     (case mark_number digits of None \<Rightarrow> [] | Some n \<Rightarrow> or_else (elem_at bodies n) [])"

definition next_token :: "token list \<Rightarrow> token option" where
  "next_token tokens = (case tokens of [] \<Rightarrow> None | t # ts \<Rightarrow> Some t)"

fun take_redirects ::
  "string list \<Rightarrow> token list \<Rightarrow> redirects \<Rightarrow> string option \<Rightarrow> token list \<times> string option \<times> redirects" where
  "take_redirects bodies [] found stdin = ([], stdin, found)"
| "take_redirects bodies (t # ts) found stdin =
     (if \<not> tk_quoted t \<and> starts_with HEREDOC_MARK (tk_text t) then
        take_redirects bodies ts found (Some (body_at bodies (drop (length HEREDOC_MARK) (tk_text t))))
      else
        (let stdin' = (if \<not> tk_quoted t \<and> tk_text t = ''<<<''
               then first_some (map_option tk_text (next_token ts)) stdin else stdin);
             redirect = (if tk_text t = ''<<<'' then None else redirect_of t (next_token ts))
         in case redirect of
              None \<Rightarrow>
                (let (kept, rest) = take_redirects bodies ts found stdin' in (t # kept, rest))
            | Some r \<Rightarrow>
                (let target = re_target r;
                     found' = (if target = [] \<or> starts_with ''&'' target \<or> device target then found
                       else if re_writes r then found\<lparr>rd_writes := rd_writes found @ [target]\<rparr>
                       else found\<lparr>rd_reads := rd_reads found @ [target]\<rparr>)
                 in if re_uses_next r then
                      (case ts of [] \<Rightarrow> ([], stdin', found')
                       | u # us \<Rightarrow> take_redirects bodies us found' stdin')
                    else take_redirects bodies ts found' stdin')))"

section \<open>Splitting loses nothing\<close>

fun in_order :: "nat \<Rightarrow> nat \<Rightarrow> (nat \<times> nat) list \<Rightarrow> bool" where
  "in_order start end_at [] = (start \<le> end_at)"
| "in_order start end_at ((i, w) # rest) = (start \<le> i \<and> in_order (i + w) end_at rest)"

lemma in_order_earlier: "in_order start end_at seps \<Longrightarrow> start' \<le> start \<Longrightarrow> in_order start' end_at seps"
  by (cases seps) auto

lemma in_order_end: "in_order start end_at seps \<Longrightarrow> start \<le> end_at"
  by (induction seps arbitrary: start) force+

lemma separator_width_cases: "separator_width preceding s \<in> {0, 1, 2}"
  by (auto simp: separator_width_def split: list.split)

lemma separator_width_two: "separator_width preceding [c] \<noteq> 2"
  by (auto simp: separator_width_def)

lemma separators_in_order: "in_order i (i + length s) (separators_from i quote preceding s)"
proof (induction i quote preceding s rule: separators_from.induct)
  case (2 i quote preceding c cs)
  consider "c = BACKSLASH \<and> quote \<noteq> Some QUOTE" | "\<not> (c = BACKSLASH \<and> quote \<noteq> Some QUOTE)" "quote \<noteq> None"
    | "\<not> (c = BACKSLASH \<and> quote \<noteq> Some QUOTE)" "quote = None" "c = DQUOTE \<or> c = QUOTE"
    | "\<not> (c = BACKSLASH \<and> quote \<noteq> Some QUOTE)" "quote = None" "\<not> (c = DQUOTE \<or> c = QUOTE)"
    by blast
  then show ?case
  proof cases
    case 1
    then show ?thesis using "2.IH"(1) by (cases cs) (auto intro: in_order_earlier)
  next
    case 2
    then show ?thesis using "2.IH"(2) by (auto intro: in_order_earlier)
  next
    case 3
    then show ?thesis using "2.IH"(3) by (auto intro: in_order_earlier)
  next
    case 4
    have w: "separator_width preceding (c # cs) \<in> {0, 1, 2}" by (rule separator_width_cases)
    then consider "separator_width preceding (c # cs) = 0" | "separator_width preceding (c # cs) = 1"
      | d ds where "separator_width preceding (c # cs) = 2" "cs = d # ds"
      using separator_width_two by (cases cs) auto
    then show ?thesis
    proof cases
      case 1
      then show ?thesis using "2.IH"(4) [OF 4(1) _ 4(3)] 4 by (auto intro: in_order_earlier)
    next
      case w1: 2
      then show ?thesis using "2.IH"(5) [OF 4(1) _ 4(3)] 4 by auto
    next
      case w2: (3 d ds)
      then show ?thesis using "2.IH"(6) [OF 4(1) _ 4(3)] 4 by auto
    qed
  qed
qed simp

lemma drop_slice: "a \<le> b \<Longrightarrow> slice a b s @ drop b s = drop a s"
  by (metis append_take_drop_id drop_drop le_add_diff_inverse2 slice_def)

lemma parts_from_text:
  "in_order start (length input) seps \<Longrightarrow>
     concat (map (\<lambda>(text, sep). text @ sep) (parts_from input start seps)) = drop start input"
proof (induction seps arbitrary: start)
  case (Cons p seps)
  obtain i w where p: "p = (i, w)" by fastforce
  show ?case using Cons.prems Cons.IH [of "i + w"] drop_slice [of start i input] drop_slice [of i "i + w" input]
    by (simp add: p)
qed simp

text \<open>
  Splitting a line into its parts and separators loses and changes nothing: the parts
  with the separators after them, put together, are the line.
\<close>

theorem split_keeps_the_line:
  "concat (map (\<lambda>(text, sep). text @ sep) (split_with_separators input)) = input"
  using parts_from_text [OF separators_in_order [of 0 input None None, simplified]]
  by (simp add: split_with_separators_def separators_in_def)

section \<open>Words quoted and read back\<close>

lemma plain_char_facts:
  assumes "plain_char c"
  shows "c \<noteq> QUOTE" "c \<noteq> DQUOTE" "c \<noteq> BACKSLASH" "\<not> is_space c"
    "c \<noteq> CHR ''&''" "c \<noteq> CHR ''|''" "c \<noteq> CHR '';''" "c \<noteq> NEWLINE"
proof -
  have "\<not> plain_char QUOTE" "\<not> plain_char DQUOTE" "\<not> plain_char BACKSLASH" "\<not> plain_char CHR ''&''"
    "\<not> plain_char CHR ''|''" "\<not> plain_char CHR '';''" "\<not> plain_char NEWLINE"
    by code_simp+
  then show "c \<noteq> QUOTE" "c \<noteq> DQUOTE" "c \<noteq> BACKSLASH" "c \<noteq> CHR ''&''" "c \<noteq> CHR ''|''" "c \<noteq> CHR '';''" "c \<noteq> NEWLINE"
    using assms by blast+
  show "\<not> is_space c"
  proof
    assume s: "is_space c"
    from assms have "is_word c \<or> c \<in> set ''@%+=:,./~-''" by (simp add: plain_char_def)
    then show False
      using s by (elim disjE) (auto simp: js_defs Let_def)
  qed
qed

definition token_of :: "string \<Rightarrow> token" where
  "token_of word = \<lparr>tk_text = word, tk_quoted = \<not> plain_word word\<rparr>"

lemma tokenize_plain:
  "list_all plain_char w \<Longrightarrow>
     tokenize_from (Some t) None (w @ rest) = tokenize_from (Some (t\<lparr>tk_text := tk_text t @ w\<rparr>)) None rest"
proof (induction w arbitrary: t)
  case (Cons c w)
  then show ?case using plain_char_facts [of c] by simp
qed simp

lemma tokenize_inside:
  "tk_quoted t \<Longrightarrow>
     tokenize_from (Some t) (Some QUOTE) (quote_inside w @ QUOTE # rest) =
     tokenize_from (Some (t\<lparr>tk_text := tk_text t @ w\<rparr>)) None rest"
proof (induction w arbitrary: t)
  case (Cons c w)
  obtain x where t: "t = \<lparr>tk_text = x, tk_quoted = True\<rparr>" using Cons.prems by (cases t) simp
  have qd: "QUOTE \<noteq> DQUOTE" "DQUOTE \<noteq> QUOTE" by (simp_all add: QUOTE_def DQUOTE_def)
  show ?case using Cons.IH qd by (simp add: t)
qed simp

lemma tokenize_word: "tokenize_from None None (quote_shell_word w @ rest) = tokenize_from (Some (token_of w)) None rest"
proof (cases "plain_word w")
  case True
  then obtain c cs where w: "w = c # cs" "plain_char c" "list_all plain_char cs"
    by (cases w) (auto simp: plain_word_def)
  then show ?thesis using True plain_char_facts [of c] tokenize_plain [of cs]
    by (simp add: quote_shell_word_def token_of_def)
next
  case False
  then show ?thesis using tokenize_inside [of "\<lparr>tk_text = [], tk_quoted = True\<rparr>"]
    by (simp add: quote_shell_word_def token_of_def)
qed

lemma tokenize_words: "tokenize_quoted (quote_shell_words ws) = map token_of ws"
proof (induction ws)
  case Nil
  show ?case by (simp add: tokenize_quoted_def quote_shell_words_def)
next
  case (Cons w ws)
  have space: "is_space (CHR '' '')" "CHR '' '' \<noteq> QUOTE" "CHR '' '' \<noteq> DQUOTE" by code_simp+
  show ?case
  proof (cases ws)
    case Nil
    then show ?thesis using tokenize_word [of w "[]"] by (simp add: tokenize_quoted_def quote_shell_words_def)
  next
    case (Cons v vs)
    then show ?thesis using Cons.IH tokenize_word [of w "'' '' @ join_with '' '' (map quote_shell_word ws)"] space
      by (simp add: tokenize_quoted_def quote_shell_words_def)
  qed
qed

text \<open>A text in which nothing separates, wherever it stands outside quotes.\<close>

definition unsplit :: "string \<Rightarrow> bool" where
  "unsplit s \<longleftrightarrow> (\<forall>i preceding. separators_from i None preceding s = [])"

lemma unsplit_plain: "list_all plain_char w \<Longrightarrow> unsplit rest \<Longrightarrow> unsplit (w @ rest)"
proof (induction w)
  case (Cons c w)
  then have "take 2 (c # w @ rest) \<noteq> ''&&''" "take 2 (c # w @ rest) \<noteq> ''||''"
    using plain_char_facts [of c] by auto
  then show ?case using Cons plain_char_facts [of c]
    by (simp add: unsplit_def separator_width_def)
qed simp

lemma unsplit_inside:
  assumes "unsplit rest"
  shows "separators_from i (Some QUOTE) preceding (quote_inside w @ QUOTE # rest) = []"
proof -
  have q: "QUOTE \<noteq> DQUOTE" "DQUOTE \<noteq> QUOTE" "QUOTE \<noteq> BACKSLASH" "DQUOTE \<noteq> BACKSLASH"
    by (simp_all add: QUOTE_def DQUOTE_def BACKSLASH_def)
  show ?thesis
    using assms q by (induction w arbitrary: i preceding) (auto simp: unsplit_def)
qed

lemma unsplit_word: "unsplit rest \<Longrightarrow> unsplit (quote_shell_word w @ rest)"
proof (cases "plain_word w")
  case True
  then show "unsplit rest \<Longrightarrow> ?thesis"
    using unsplit_plain [of w rest] by (simp add: quote_shell_word_def plain_word_def)
next
  case False
  assume "unsplit rest"
  moreover have "QUOTE \<noteq> BACKSLASH" by (simp add: QUOTE_def BACKSLASH_def)
  ultimately show ?thesis using False unsplit_inside [of rest]
    by (simp add: quote_shell_word_def unsplit_def)
qed

lemma unsplit_words: "unsplit (quote_shell_words ws)"
proof (induction ws)
  case Nil
  show ?case by (simp add: unsplit_def quote_shell_words_def)
next
  case (Cons w ws)
  have space: "unsplit ('' '' @ s)" if "unsplit s" for s
  proof -
    have "CHR '' '' \<noteq> BACKSLASH" "CHR '' '' \<noteq> QUOTE" "CHR '' '' \<noteq> DQUOTE" "CHR '' '' \<noteq> NEWLINE"
      by code_simp+
    then show ?thesis using that by (simp add: unsplit_def separator_width_def)
  qed
  have nil: "unsplit []" by (simp add: unsplit_def)
  show ?case
  proof (cases ws)
    case Nil
    then show ?thesis using unsplit_word [OF nil, of w] by (simp add: quote_shell_words_def)
  next
    case (Cons v vs)
    then show ?thesis using unsplit_word [OF space [OF Cons.IH], of w] by (simp add: quote_shell_words_def)
  qed
qed

lemma split_words: "split_with_separators (quote_shell_words ws) = [(quote_shell_words ws, [])]"
  using unsplit_words [of ws] by (simp add: split_with_separators_def separators_in_def unsplit_def)

text \<open>
  Property C34. Words quoted into one line are read back as the same words, each marked quoted
  exactly when it is not plain, and the line is one command whatever separators the words hold.
\<close>

theorem argv_round_trip:
  "split_with_separators (quote_shell_words words) = [(quote_shell_words words, [])] \<and>
   tokenize_quoted (quote_shell_words words) =
     map (\<lambda>word. \<lparr>tk_text = word, tk_quoted = \<not> plain_word word\<rparr>) words"
  using tokenize_words [of words] by (simp add: split_words token_of_def)

section \<open>Where a redirect is misread\<close>

text \<open>
  A redirect that clobbers, \<open>>|\<close>, is read as a write to a file whose name starts with
  the bar, or to the bar itself when the file is the next word, and never as a write to the file.
\<close>

theorem clobbering_redirect_is_misread:
  "rd_writes (snd (snd (take_redirects [] (tokenize_quoted ''echo x >|f'') \<lparr>rd_writes = [], rd_reads = []\<rparr> None))) = [''|f''] \<and>
   rd_writes (snd (snd (take_redirects [] (tokenize_quoted ''echo x >| f'') \<lparr>rd_writes = [], rd_reads = []\<rparr> None))) = [''|''] \<and>
   rd_writes (snd (snd (take_redirects [] (tokenize_quoted ''echo x >f'') \<lparr>rd_writes = [], rd_reads = []\<rparr> None))) = [''f'']"
  by code_simp

end
