(* ===== verification/ShellCommands.thy ===== *)
theory ShellCommands
  imports ShellWords "HOL-Library.List_Lexorder" "HOL-Library.Char_ord"
begin

text \<open>
  What a shell line really runs: \<open>packages/core/src/domain/shell-runners.ts\<close> and
  \<open>domain/shell-normalizer.ts\<close>. Texts sort by their characters, as JavaScript sorts strings;
  \<open>base64_text\<close> is the runtime's decoder, \<open>Buffer.from(value, 'base64').toString('utf8')\<close>. The levels a
  walk may still go down are its first argument, so that a walk past \<open>MAX_DEPTH\<close> has none left.
\<close>

section \<open>What runs what\<close>

definition INTERPRETERS :: "string list" where
  "INTERPRETERS = [''sh'', ''bash'', ''zsh'', ''ksh'', ''dash'']"
definition DOWNLOADERS :: "string list" where "DOWNLOADERS = [''curl'', ''wget'', ''fetch'']"
definition PREFIX_LAYERS :: nat where "PREFIX_LAYERS = 4"
definition LANGUAGES :: "string list" where
  "LANGUAGES = [''python'', ''node'', ''ruby'', ''perl'', ''fish'', ''pwsh'']"
definition LANGUAGE_CODE_FLAGS :: "string list" where
  "LANGUAGE_CODE_FLAGS = [''-c'', ''-m'', ''-e'', ''-E'', ''-p'', ''--eval'', ''--print'']"
definition PIPE_PREFIXES :: "string list" where "PIPE_PREFIXES = [''sudo'', ''env'', ''doas'', ''command'']"
definition RUNS_ARGUMENT :: "string list" where "RUNS_ARGUMENT = [''eval'', ''source'', ''.'']"

definition PREFIXES :: "(string \<times> string list) list" where
  "PREFIXES =
     [(''env'', [''-u'', ''--unset'', ''-C'', ''--chdir'', ''-S'']),
      (''sudo'', [''-u'', ''-g'', ''-C'', ''-h'', ''-p'', ''-U'', ''-r'', ''-t'', ''-D'']),
      (''doas'', [''-u'', ''-C'']),
      (''command'', []),
      (''nohup'', []),
      (''time'', []),
      (''nice'', [''-n'']),
      (''ionice'', [''-c'', ''-n'', ''-p'']),
      (''stdbuf'', [''-i'', ''-o'', ''-e'']),
      (''xargs'', [''-n'', ''-I'', ''-L'', ''-P'', ''-s'', ''-d'', ''-E'', ''-a''])]"

text \<open>A name before an equals sign, and what follows the sign.\<close>

definition name_and_value :: "string \<Rightarrow> (string \<times> string) option" where
  "name_and_value s =
     (case s of
        [] \<Rightarrow> None
      | c # cs \<Rightarrow>
          if \<not> is_letter_or_line c then None
          else (case dropWhile is_word cs of
                  [] \<Rightarrow> None
                | d # ds \<Rightarrow> if d = CHR ''='' then Some (c # takeWhile is_word cs, ds) else None))"

definition env_assignment :: "string \<Rightarrow> bool" where
  "env_assignment word =
     (case name_and_value word of None \<Rightarrow> False | Some (name, v) \<Rightarrow> list_all (\<lambda>c. \<not> is_space c) v)"

text \<open>\<open>LANGUAGE_INTERPRETER\<close>: a language and perhaps a version, dotted digits.\<close>

definition version_digits :: "string \<Rightarrow> bool" where
  "version_digits s = list_all (\<lambda>part. part \<noteq> [] \<and> list_all is_digit part) (split_on CHR ''.'' s)"

definition language_interpreter :: "string \<Rightarrow> bool" where
  "language_interpreter binary =
     list_ex (\<lambda>language. starts_with language binary \<and>
       (let rest = drop (length language) binary in rest = [] \<or> version_digits rest)) LANGUAGES"

fun past_options :: "string list \<Rightarrow> string list \<Rightarrow> string list" where
  "past_options valued [] = []"
| "past_options valued (word # words) =
     (if word \<in> set valued then (case words of [] \<Rightarrow> [] | value # rest \<Rightarrow> past_options valued rest)
      else if starts_with ''-'' word \<or> env_assignment word then past_options valued words
      else word # words)"

definition after_prefix :: "string \<Rightarrow> string list \<Rightarrow> string option" where
  "after_prefix binary words =
     (case map_of PREFIXES binary of
        None \<Rightarrow> None
      | Some valued \<Rightarrow>
          (let rest = past_options valued (drop 1 words) in
           if rest = [] then None else Some (join_with '' '' rest)))"

definition base_name :: "string \<Rightarrow> string" where
  "base_name word = last_part CHR ''/'' word"

definition first_word :: "string list \<Rightarrow> string" where
  "first_word words = (case words of [] \<Rightarrow> [] | w # ws \<Rightarrow> w)"

definition strip_env_tokens :: "token list \<Rightarrow> token list" where
  "strip_env_tokens tokens = dropWhile (\<lambda>t. env_assignment (tk_text t)) tokens"

text \<open>The words behind the prefixes of a piped interpreter; nothing where a prefix runs nothing.\<close>

fun past_prefixes :: "nat \<Rightarrow> string list \<Rightarrow> string list option" where
  "past_prefixes 0 words = Some words"
| "past_prefixes (Suc layers) words =
     (let binary = base_name (first_word words) in
      if binary \<notin> set PIPE_PREFIXES then Some words
      else (case after_prefix binary words of
              None \<Rightarrow> None
            | Some rest \<Rightarrow> past_prefixes layers (map tk_text (tokenize_quoted rest))))"

fun program_from_stdin :: "string list \<Rightarrow> bool" where
  "program_from_stdin [] = True"
| "program_from_stdin (word # words) =
     (if word = ''-'' then True
      else if word \<in> set LANGUAGE_CODE_FLAGS \<or> to_lower word = ''-command'' \<or> to_lower word = ''-file'' then False
      else if \<not> starts_with ''-'' word then False
      else program_from_stdin words)"

definition reads_program_from_stdin :: "string list \<Rightarrow> bool" where
  "reads_program_from_stdin words = program_from_stdin (drop 1 words)"

definition ends_in_interpreter :: "string list \<Rightarrow> bool" where
  "ends_in_interpreter pipeline =
     (if pipeline = [] then False
      else
        (case past_prefixes PREFIX_LAYERS
           (map tk_text (strip_env_tokens (tokenize_quoted (last pipeline)))) of
           None \<Rightarrow> False
         | Some words \<Rightarrow>
             (let binary = base_name (first_word words) in
              if binary \<in> set INTERPRETERS then True
              else language_interpreter binary \<and> reads_program_from_stdin words)))"

definition runs_code :: "string \<Rightarrow> bool" where
  "runs_code binary =
     (binary \<in> set INTERPRETERS \<or> language_interpreter binary \<or> binary \<in> set RUNS_ARGUMENT)"

definition downloads :: "string \<Rightarrow> bool" where
  "downloads body =
     (base_name (first_word (map tk_text (strip_env_tokens (tokenize_quoted (trim body))))) \<in> set DOWNLOADERS)"

section \<open>What a line expands\<close>

definition EXPANSION :: string where "EXPANSION = ''shell-expansion''"
definition UNDECODABLE :: string where "UNDECODABLE = ''undecodable-payload''"
definition REMOTE_SOURCE :: string where "REMOTE_SOURCE = ''remote-source''"
definition TOO_DEEP :: string where "TOO_DEEP = ''nesting-too-deep''"
definition MAX_DEPTH :: nat where "MAX_DEPTH = 4"

definition BACKTICK :: char where "BACKTICK = char_of (96 :: nat)"

definition expands_name :: "string \<Rightarrow> bool" where
  "expands_name s = (case s of [] \<Rightarrow> False | c # cs \<Rightarrow> is_letter_or_line c \<or> c = CHR ''('')"

fun expansion :: "string \<Rightarrow> bool" where
  "expansion [] = False"
| "expansion (c # cs) =
     (c = BACKTICK \<or>
      c = CHR ''$'' \<and> (expands_name cs \<or> starts_with ''{'' cs \<and> expands_name (drop 1 cs)) \<or>
      expansion cs)"

fun outside_from :: "char option \<Rightarrow> string \<Rightarrow> string" where
  "outside_from quote [] = []"
| "outside_from quote (c # cs) =
     (if c = BACKSLASH \<and> quote \<noteq> Some QUOTE then
        (case cs of [] \<Rightarrow> [c] | d # ds \<Rightarrow> c # d # outside_from quote ds)
      else if quote = Some QUOTE then outside_from (if c = QUOTE then None else quote) cs
      else if quote = None \<and> c = QUOTE then outside_from (Some QUOTE) cs
      else c # outside_from (if c = DQUOTE then (if quote = Some DQUOTE then None else Some DQUOTE) else quote) cs)"

definition outside_single_quotes :: "string \<Rightarrow> string" where
  "outside_single_quotes part = outside_from None part"

text \<open>The text up to the parenthesis that closes the depth, and the text after it.\<close>

fun close_paren :: "nat \<Rightarrow> string \<Rightarrow> (string \<times> string) option" where
  "close_paren depth [] = None"
| "close_paren depth (c # cs) =
     (let depth' = (if c = CHR ''('' then depth + 1 else if c = CHR '')'' then depth - 1 else depth) in
      if depth' = 0 then Some ([], cs)
      else map_option (\<lambda>(body, rest). (c # body, rest)) (close_paren depth' cs))"

lemma close_paren_shorter: "close_paren depth s = Some (body, rest) \<Longrightarrow> length rest < length s"
  by (induction depth s arbitrary: body rule: close_paren.induct)
    (auto simp: Let_def split: if_splits, force+)

function substitutions_in :: "string \<Rightarrow> string list" where
  "substitutions_in [] = []"
| "substitutions_in (c # cs) =
     (if c = BACKTICK then
        (if BACKTICK \<notin> set cs then []
         else takeWhile (\<lambda>x. x \<noteq> BACKTICK) cs # substitutions_in (drop 1 (dropWhile (\<lambda>x. x \<noteq> BACKTICK) cs)))
      else if (c = CHR ''$'' \<or> c = CHR ''<'' \<or> c = CHR ''>'') \<and> starts_with ''('' cs \<and> \<not> starts_with ''(('' cs then
        (case close_paren 1 (drop 1 cs) of
           None \<Rightarrow> substitutions_in cs
         | Some (body, rest) \<Rightarrow> body # substitutions_in rest)
      else substitutions_in cs)"
  by pat_completeness auto
termination
proof (relation "measure length", goal_cases)
  case (2 c cs)
  show ?case using length_dropWhile_le [of "\<lambda>x. x \<noteq> BACKTICK" cs] by simp
next
  case (4 c cs found body rest)
  then show ?case using close_paren_shorter [of 1 "drop 1 cs" body rest] by simp
qed auto

section \<open>Variables a line sets itself\<close>

definition CARRIES :: "string list" where "CARRIES = ['';'', [NEWLINE], ''&&'']"
definition HIDDEN_ASSIGNERS :: "string list" where "HIDDEN_ASSIGNERS = [''eval'', ''source'', ''.'']"

text \<open>\<open>LITERAL_BINDING\<close>.\<close>

definition literal_binding :: "string \<Rightarrow> (string \<times> string) option" where
  "literal_binding s =
     (case name_and_value s of
        None \<Rightarrow> None
      | Some (name, v) \<Rightarrow> if list_all plain_char v then Some (name, v) else None)"

text \<open>How often a name stands bare: after no word character, dollar or brace, and before no word character.\<close>

fun bare_count :: "char option \<Rightarrow> string \<Rightarrow> string \<Rightarrow> nat" where
  "bare_count preceding name [] = 0"
| "bare_count preceding name (c # cs) =
     (if (case preceding of None \<Rightarrow> True | Some b \<Rightarrow> \<not> is_word b \<and> b \<noteq> CHR ''$'' \<and> b \<noteq> CHR ''{'') \<and>
         starts_with name (c # cs) \<and>
         (case drop (length name) (c # cs) of [] \<Rightarrow> True | d # ds \<Rightarrow> \<not> is_word d)
      then 1 else 0) + bare_count (Some c) name cs"

definition bindable_names :: "string \<Rightarrow> string list \<Rightarrow> string list" where
  "bindable_names text pipeline =
     (if list_ex (\<lambda>part. first_word (map tk_text (strip_env_tokens (tokenize_quoted part))) \<in> set HIDDEN_ASSIGNERS) pipeline
      then []
      else filter (\<lambda>name. bare_count None name text = 1)
        (map fst (concat (map (\<lambda>part. concat (map (\<lambda>t. case literal_binding (tk_text t) of None \<Rightarrow> [] | Some b \<Rightarrow> [b])
          (tokenize_quoted part))) pipeline))))"

definition remember ::
  "token list \<Rightarrow> string \<Rightarrow> string list \<Rightarrow> (string \<times> string) list \<Rightarrow> (string \<times> string) list" where
  "remember assigned sep bindable known =
     (if sep \<notin> set CARRIES then known
      else foldl (\<lambda>known t.
        case literal_binding (tk_text t) of
          None \<Rightarrow> known
        | Some (name, v) \<Rightarrow>
            if tk_quoted t \<or> name \<notin> set bindable then known else (name, v) # known) known assigned)"

text \<open>The name a dollar refers to, of the text after it, and what follows the reference.\<close>

definition reference :: "string \<Rightarrow> (string \<times> string) option" where
  "reference s =
     (let braced = starts_with ''{'' s; s1 = (if braced then drop 1 s else s) in
      case s1 of
        [] \<Rightarrow> None
      | c # cs \<Rightarrow>
          if \<not> is_letter_or_line c then None
          else
            (let name = c # takeWhile is_word cs; rest = dropWhile is_word cs in
             if braced then (if starts_with ''}'' rest then Some (name, drop 1 rest) else None)
             else Some (name, rest)))"

lemma reference_shorter: "reference s = Some (name, rest) \<Longrightarrow> length rest < length s"
proof -
  assume r: "reference s = Some (name, rest)"
  define s1 where "s1 = (if starts_with ''{'' s then drop 1 s else s)"
  obtain c cs where s1: "s1 = c # cs"
    using r by (cases s1) (simp_all add: reference_def Let_def s1_def [symmetric])
  have "length rest \<le> length (dropWhile is_word cs)"
    using r s1 by (auto simp: reference_def Let_def s1_def [symmetric] split: if_splits)
  moreover have "length (dropWhile is_word cs) \<le> length cs" by (rule length_dropWhile_le)
  moreover have "length s1 \<le> length s" by (simp add: s1_def)
  ultimately show ?thesis using s1 by simp
qed

function substitute_from :: "(string \<times> string) list \<Rightarrow> char option \<Rightarrow> string \<Rightarrow> string" where
  "substitute_from known quote [] = []"
| "substitute_from known quote (c # cs) =
     (if c = BACKSLASH \<and> quote \<noteq> Some QUOTE then
        (case cs of [] \<Rightarrow> [c] | d # ds \<Rightarrow> c # d # substitute_from known quote ds)
      else
        (let quote' = (if quote = Some c then None
               else if quote = None \<and> (c = QUOTE \<or> c = DQUOTE) then Some c else quote)
         in case (if c = CHR ''$'' \<and> quote' \<noteq> Some QUOTE then reference cs else None) of
              None \<Rightarrow> c # substitute_from known quote' cs
            | Some (name, rest) \<Rightarrow>
                (case map_of known name of
                   None \<Rightarrow> c # substitute_from known quote' cs
                 | Some v \<Rightarrow> v @ substitute_from known quote' rest)))"
  by pat_completeness auto
termination
  by (relation "measure (\<lambda>(known, quote, s). length s)")
    (auto dest: reference_shorter split: if_splits intro: less_trans)

definition substitute_known :: "string \<Rightarrow> (string \<times> string) list \<Rightarrow> string" where
  "substitute_known part known = (if known = [] then part else substitute_from known None part)"

section \<open>What a wrapper runs\<close>

definition text_or_none :: "string \<Rightarrow> string option" where
  "text_or_none s = (if s = [] then None else Some s)"

definition after_timeout :: "string list \<Rightarrow> string option" where
  "after_timeout words =
     (let rest = drop 1 (dropWhile (starts_with ''-'') (drop 1 words)) in
      if rest = [] then None else Some (join_with '' '' rest))"

definition find_runs :: "string list \<Rightarrow> string option" where
  "find_runs words =
     (case find_index (\<lambda>w. w \<in> set [''-exec'', ''-execdir'', ''-ok'']) words of
        Some e \<Rightarrow> text_or_none (join_with '' ''
          (takeWhile (\<lambda>w. w \<notin> set ['';'', BACKSLASH # '';'', ''+'']) (drop (e + 1) words)))
      | None \<Rightarrow>
          if ''-delete'' \<in> set words then
            (let start = (case elem_at words 1 of
                 Some w \<Rightarrow> if starts_with ''-'' w then ''.'' else w | None \<Rightarrow> ''.'')
             in Some (''rm -rf '' @ start))
          else None)"

text \<open>The body of an alias that runs a shell: \<open>alias.x=!body\<close>, one line of it.\<close>

definition alias_body :: "string \<Rightarrow> string option" where
  "alias_body word =
     (if \<not> starts_with ''alias.'' word then None
      else
        (let s = drop 6 word; key = takeWhile (\<lambda>c. c \<noteq> CHR ''='') s; rest = dropWhile (\<lambda>c. c \<noteq> CHR ''='') s in
         if key = [] \<or> \<not> starts_with ''=!'' rest then None
         else
           (let body = drop 2 rest in
            if body = [] \<or> NEWLINE \<in> set body \<or> char_of (13 :: nat) \<in> set body then None else Some body)))"

fun git_alias_from :: "string list \<Rightarrow> string option" where
  "git_alias_from (flag # word # words) =
     (if flag = ''-c'' \<and> alias_body word \<noteq> None then alias_body word else git_alias_from (word # words))"
| "git_alias_from words = None"

definition git_alias_runs :: "string list \<Rightarrow> string option" where
  "git_alias_runs words = git_alias_from (drop 1 words)"

definition code_flag :: "string \<Rightarrow> bool" where
  "code_flag word =
     (case word of
        [] \<Rightarrow> False
      | c # cs \<Rightarrow> c = CHR ''-'' \<and> list_all is_lower cs \<and> CHR ''c'' \<in> set cs)"

definition CODE_FLAG_RUNNERS :: "(string \<times> string) list" where
  "CODE_FLAG_RUNNERS =
     [(''python'', ''-c''), (''python3'', ''-c''), (''perl'', ''-e''), (''ruby'', ''-e''), (''node'', ''-e'')]"

definition DECODERS :: "string list" where "DECODERS = [''base64'', ''openssl'']"

definition is_decoding :: "string list \<Rightarrow> bool" where
  "is_decoding words = list_ex (\<lambda>w. w \<in> set [''-d'', ''--decode'', ''-D'']) words"

definition decode_base64 :: "(string \<Rightarrow> string) \<Rightarrow> string \<Rightarrow> string option" where
  "decode_base64 base64_text v =
     (if v = [] \<or> \<not> list_all (\<lambda>c. is_alnum c \<or> c \<in> set ''+/='' \<or> is_space c) v \<or> length v < 4 then None
      else
        (let decoded = base64_text v in
         if decoded \<noteq> [] \<and> list_all (\<lambda>c. 32 \<le> (of_char c :: nat) \<and> (of_char c :: nat) \<le> 126 \<or> is_space c) decoded \<and>
            trim decoded \<noteq> []
         then Some decoded else None))"

definition looks_like_flag :: "string \<Rightarrow> bool" where
  "looks_like_flag word = starts_with ''-'' word"

text \<open>The word after the first one that the test picks, from the second word on.\<close>

definition word_after :: "nat option \<Rightarrow> string list \<Rightarrow> string option" where
  "word_after i words = (case i of None \<Rightarrow> None | Some n \<Rightarrow> elem_at words (n + 1))"

definition unwrap_decoder :: "(string \<Rightarrow> string) \<Rightarrow> string list \<Rightarrow> string option \<times> string list" where
  "unwrap_decoder base64_text words =
     (let literal = last words in
      if words = [] \<or> literal = ''-'' \<or> looks_like_flag literal then (None, [UNDECODABLE])
      else (case decode_base64 base64_text literal of
              None \<Rightarrow> (None, [UNDECODABLE])
            | Some decoded \<Rightarrow> (Some decoded, [])))"

text \<open>The wrapped command, and what could not be resolved on the way.\<close>

definition unwrap :: "(string \<Rightarrow> string) \<Rightarrow> string \<Rightarrow> string list \<Rightarrow> string option \<times> string list" where
  "unwrap base64_text binary words =
     (if binary = ''eval'' \<or> binary = ''exec'' then (Some (join_with '' '' (drop 1 words)), [])
      else if binary = ''timeout'' then (after_timeout words, [])
      else if binary = ''find'' then (find_runs words, [])
      else if binary = ''git'' then (git_alias_runs words, [])
      else if after_prefix binary words \<noteq> None then (after_prefix binary words, [])
      else if binary \<in> set INTERPRETERS then
        (word_after (map_option Suc (find_index code_flag (drop 1 words))) words, [])
      else
        (case map_of CODE_FLAG_RUNNERS binary of
           Some flag \<Rightarrow> (word_after (find_index (\<lambda>w. w = flag) words) words, [])
         | None \<Rightarrow>
             if binary \<in> set DECODERS \<and> is_decoding words then unwrap_decoder base64_text words
             else (None, [])))"

fun flags_of :: "string list \<Rightarrow> string list" where
  "flags_of [] = []"
| "flags_of (word # words) =
     (if starts_with ''--'' word then word # flags_of words
      else if starts_with ''-'' word \<and> length word > 1 then map (\<lambda>c. [CHR ''-'', c]) (drop 1 word) @ flags_of words
      else flags_of words)"

fun operands_of :: "string list \<Rightarrow> string list" where
  "operands_of [] = []"
| "operands_of (word # words) =
     (if starts_with ''--'' word \<or> starts_with ''-'' word \<and> length word > 1 then operands_of words
      else word # operands_of words)"

definition canonicalize :: "string list \<Rightarrow> string" where
  "canonicalize words =
     join_with '' '' (base_name (first_word words) # sort (uniq (flags_of (drop 1 words))) @ operands_of (drop 1 words))"

section \<open>Walking a line\<close>

record parsed_command =
  pc_argv :: "string list"
  pc_stdin :: "string option"
  pc_writes :: "string list"

record found_command =
  fc_canonical :: string
  fc_literal :: string
  fc_parsed :: parsed_command

record walk_state =
  wk_found :: "found_command list"
  wk_opaque :: "string list"
  wk_redirects :: redirects

definition add_opaque :: "string list \<Rightarrow> walk_state \<Rightarrow> walk_state" where
  "add_opaque reasons st = st\<lparr>wk_opaque := uniq (wk_opaque st @ reasons)\<rparr>"

definition add_redirects :: "redirects \<Rightarrow> walk_state \<Rightarrow> walk_state" where
  "add_redirects own st =
     st\<lparr>wk_redirects := \<lparr>rd_writes = rd_writes (wk_redirects st) @ rd_writes own,
        rd_reads = rd_reads (wk_redirects st) @ rd_reads own\<rparr>\<rparr>"

definition found_of :: "string list \<Rightarrow> string option \<Rightarrow> redirects \<Rightarrow> found_command" where
  "found_of words stdin own =
     \<lparr>fc_canonical = canonicalize words, fc_literal = join_with '' '' words,
      fc_parsed = \<lparr>pc_argv = words, pc_stdin = stdin, pc_writes = rd_writes own\<rparr>\<rparr>"

text \<open>
  What is noted of a command before it is looked into: its expansions, what its substitutions run,
  downloads run as code, and what could not be unwrapped. \<open>deeper\<close> walks one level down.
\<close>

definition before_unwrap ::
  "(string \<Rightarrow> string) \<Rightarrow> (string \<Rightarrow> walk_state \<Rightarrow> walk_state) \<Rightarrow> bool \<Rightarrow> string \<Rightarrow> string list \<Rightarrow> walk_state \<Rightarrow> walk_state" where
  "before_unwrap base64_text deeper pipes part words st1 =
     (let st2 = (if expansion (outside_single_quotes part) then add_opaque [EXPANSION] st1 else st1);
          st3 = foldl (\<lambda>s body. deeper body s) st2 (substitutions_in part);
          binary = base_name (first_word words);
          st4 = (if pipes \<and> binary \<in> set DOWNLOADERS then add_opaque [REMOTE_SOURCE] st3 else st3);
          st5 = (if runs_code binary \<and> list_ex downloads (substitutions_in part)
            then add_opaque [REMOTE_SOURCE] st4 else st4)
      in add_opaque (snd (unwrap base64_text binary words)) st5)"

definition walk_command ::
  "(string \<Rightarrow> string) \<Rightarrow> (string \<Rightarrow> walk_state \<Rightarrow> walk_state) \<Rightarrow> string list \<Rightarrow> bool \<Rightarrow> string \<Rightarrow> token list \<Rightarrow>
     walk_state \<Rightarrow> walk_state" where
  "walk_command base64_text deeper bodies pipes part tokens st =
     (case take_redirects bodies tokens \<lparr>rd_writes = [], rd_reads = []\<rparr> None of (kept, stdin, own) \<Rightarrow>
        let st1 = add_redirects own st; words = map tk_text kept
        in if words = [] then st1
           else
             (let st6 = before_unwrap base64_text deeper pipes part words st1
              in case fst (unwrap base64_text (base_name (first_word words)) words) of
                   Some command \<Rightarrow> deeper command st6
                 | None \<Rightarrow> st6\<lparr>wk_found := wk_found st6 @ [found_of words stdin own]\<rparr>))"

text \<open>One part of a line, with what the line has set so far.\<close>

definition walk_part ::
  "(string \<Rightarrow> string) \<Rightarrow> (string \<Rightarrow> walk_state \<Rightarrow> walk_state) \<Rightarrow> string list \<Rightarrow> bool \<Rightarrow> string list \<Rightarrow>
     (string \<times> string) list \<times> walk_state \<Rightarrow> string \<times> string \<Rightarrow> (string \<times> string) list \<times> walk_state" where
  "walk_part base64_text deeper bodies pipes_into_interpreter bindable = (\<lambda>(known, st) (written, sep).
     if written = [] then (known, st)
     else
       (let part = substitute_known written known;
            assigned = tokenize_quoted part;
            tokens = strip_env_tokens assigned
        in if tokens = [] then
             (remember assigned sep bindable known, foldl (\<lambda>s body. deeper body s) st (substitutions_in part))
           else (known, walk_command base64_text deeper bodies pipes_into_interpreter part tokens st)))"

definition walk_line ::
  "(string \<Rightarrow> string) \<Rightarrow> (string \<Rightarrow> walk_state \<Rightarrow> walk_state) \<Rightarrow> string \<Rightarrow> walk_state \<Rightarrow> walk_state" where
  "walk_line base64_text deeper raw st =
     (let (text, bodies) = lift_heredocs raw;
          split = split_with_separators text;
          pipeline = map (\<lambda>(part, sep). trim part) split;
          pipes = (length pipeline > 1 \<and> ends_in_interpreter pipeline)
      in snd (foldl (walk_part base64_text deeper bodies pipes (bindable_names text pipeline)) ([], st)
           (zip pipeline (map snd split))))"

primrec walk :: "nat \<Rightarrow> (string \<Rightarrow> string) \<Rightarrow> string \<Rightarrow> walk_state \<Rightarrow> walk_state" where
  "walk 0 base64_text = (\<lambda>raw st. add_opaque [TOO_DEEP] st)"
| "walk (Suc levels) base64_text = walk_line base64_text (walk levels base64_text)"

section \<open>The command\<close>

record normalized_command =
  nc_segments :: "string list"
  nc_commands :: "string list"
  nc_opaque :: "string list"
  nc_parsed :: "parsed_command list"
  nc_redirects :: redirects

definition command_key :: "found_command \<Rightarrow> string" where
  "command_key c =
     fc_canonical c @ [NUL] @ or_else (pc_stdin (fc_parsed c)) [] @ [NUL] @
     join_with [NUL] (pc_writes (fc_parsed c))"

fun distinct_commands :: "string list \<Rightarrow> found_command list \<Rightarrow> found_command list" where
  "distinct_commands seen [] = []"
| "distinct_commands seen (c # cs) =
     (if fc_canonical c = [] \<or> command_key c \<in> set seen then distinct_commands seen cs
      else c # distinct_commands (command_key c # seen) cs)"

definition empty_walk :: walk_state where
  "empty_walk = \<lparr>wk_found = [], wk_opaque = [], wk_redirects = \<lparr>rd_writes = [], rd_reads = []\<rparr>\<rparr>"

definition normalize_shell_command :: "(string \<Rightarrow> string) \<Rightarrow> string \<Rightarrow> normalized_command" where
  "normalize_shell_command base64_text raw =
     (let st = walk (MAX_DEPTH + 1) base64_text raw empty_walk;
          commands = distinct_commands [] (wk_found st)
      in \<lparr>nc_segments = map fc_canonical commands, nc_commands = map fc_literal commands,
          nc_opaque = sort (wk_opaque st), nc_parsed = map fc_parsed commands,
          nc_redirects = \<lparr>rd_writes = uniq (rd_writes (wk_redirects st)), rd_reads = uniq (rd_reads (wk_redirects st))\<rparr>\<rparr>)"

section \<open>What a walk keeps\<close>

definition grows :: "walk_state \<Rightarrow> walk_state \<Rightarrow> bool" where
  "grows st st' \<longleftrightarrow> set (wk_opaque st) \<subseteq> set (wk_opaque st') \<and> set (wk_found st) \<subseteq> set (wk_found st')"

lemma grows_refl [simp]: "grows st st"
  by (simp add: grows_def)

lemma grows_trans: "grows a b \<Longrightarrow> grows b c \<Longrightarrow> grows a c"
  by (auto simp: grows_def)

lemma grows_opaque [simp]: "grows st (add_opaque reasons st)"
  by (auto simp: grows_def add_opaque_def)

lemma grows_redirects [simp]: "grows st (add_redirects own st)"
  by (simp add: grows_def add_redirects_def)

lemma grows_found [simp]: "grows st (st\<lparr>wk_found := wk_found st @ cs\<rparr>)"
  by (simp add: grows_def)

lemma grows_if: "grows a b \<Longrightarrow> grows a (if c then add_opaque reasons b else b)"
  by (auto intro: grows_trans)

lemma grows_not_opaque: "grows a b \<Longrightarrow> reason \<notin> set (wk_opaque b) \<Longrightarrow> reason \<notin> set (wk_opaque a)"
  by (auto simp: grows_def)

text \<open>Walkers one level down: one that only adds, and two that agree where nothing was too deep.\<close>

definition adds :: "(string \<Rightarrow> walk_state \<Rightarrow> walk_state) \<Rightarrow> bool" where
  "adds deeper \<longleftrightarrow> (\<forall>body st. grows st (deeper body st))"

definition agree :: "(string \<Rightarrow> walk_state \<Rightarrow> walk_state) \<Rightarrow> (string \<Rightarrow> walk_state \<Rightarrow> walk_state) \<Rightarrow> bool" where
  "agree deeper deeper' \<longleftrightarrow>
     (\<forall>body st. TOO_DEEP \<notin> set (wk_opaque (deeper body st)) \<longrightarrow> deeper' body st = deeper body st)"

lemma grows_fold: "adds deeper \<Longrightarrow> grows st (foldl (\<lambda>s body. deeper body s) st bodies)"
proof (induction bodies arbitrary: st)
  case (Cons b bodies)
  then show ?case using grows_trans [of st "deeper b st"] by (simp add: adds_def)
qed simp

lemma agree_fold:
  "adds deeper \<Longrightarrow> agree deeper deeper' \<Longrightarrow>
     TOO_DEEP \<notin> set (wk_opaque (foldl (\<lambda>s body. deeper body s) st bodies)) \<Longrightarrow>
     foldl (\<lambda>s body. deeper' body s) st bodies = foldl (\<lambda>s body. deeper body s) st bodies"
proof (induction bodies arbitrary: st)
  case (Cons b bodies)
  have "TOO_DEEP \<notin> set (wk_opaque (deeper b st))"
    using grows_not_opaque [OF grows_fold [OF Cons.prems(1)]] Cons.prems(3) by simp
  then have "deeper' b st = deeper b st" using Cons.prems(2) by (simp add: agree_def)
  then show ?case using Cons by simp
qed simp

lemma grows_before_unwrap:
  assumes "adds deeper"
  shows "grows (foldl (\<lambda>s body. deeper body s)
      (if expansion (outside_single_quotes part) then add_opaque [EXPANSION] st else st) (substitutions_in part))
    (before_unwrap base64_text deeper pipes part words st)"
    and "grows st (before_unwrap base64_text deeper pipes part words st)"
proof -
  let ?s2 = "if expansion (outside_single_quotes part) then add_opaque [EXPANSION] st else st"
  let ?s3 = "foldl (\<lambda>s body. deeper body s) ?s2 (substitutions_in part)"
  show *: "grows ?s3 (before_unwrap base64_text deeper pipes part words st)"
    unfolding before_unwrap_def Let_def
    by (rule grows_trans [OF _ grows_opaque], intro grows_if grows_refl)
  have "grows st ?s2" by simp
  then show "grows st (before_unwrap base64_text deeper pipes part words st)"
    using grows_trans [OF grows_trans [OF _ grows_fold [OF assms]] *] by blast
qed

lemma agree_before_unwrap:
  assumes "adds deeper" "agree deeper deeper'"
    and "TOO_DEEP \<notin> set (wk_opaque (before_unwrap base64_text deeper pipes part words st))"
  shows "before_unwrap base64_text deeper' pipes part words st = before_unwrap base64_text deeper pipes part words st"
  using agree_fold [OF assms(1,2) grows_not_opaque [OF grows_before_unwrap(1) [OF assms(1)] assms(3)]]
  by (simp add: before_unwrap_def Let_def)

lemma grows_walk_command:
  assumes "adds deeper"
  shows "grows st (walk_command base64_text deeper bodies pipes part tokens st)"
proof -
  have "grows st (before_unwrap base64_text deeper pipes part words (add_redirects own st))" for words own
    by (rule grows_trans [OF grows_redirects grows_before_unwrap(2) [OF assms]])
  moreover from this have "grows st (deeper command (before_unwrap base64_text deeper pipes part words (add_redirects own st)))"
    for command words own
    using assms grows_trans unfolding adds_def by blast
  ultimately show ?thesis
    using grows_trans [OF _ grows_found] unfolding walk_command_def Let_def
    by (auto split: prod.split option.split)
qed

lemma agree_walk_command:
  assumes "adds deeper" "agree deeper deeper'"
    and deep: "TOO_DEEP \<notin> set (wk_opaque (walk_command base64_text deeper bodies pipes part tokens st))"
  shows "walk_command base64_text deeper' bodies pipes part tokens st =
    walk_command base64_text deeper bodies pipes part tokens st"
proof -
  obtain kept stdin own where t: "take_redirects bodies tokens \<lparr>rd_writes = [], rd_reads = []\<rparr> None = (kept, stdin, own)"
    by (metis prod_cases3)
  let ?words = "map tk_text kept" and ?s = "add_redirects own st"
  let ?b = "before_unwrap base64_text deeper pipes part ?words ?s"
  let ?inner = "fst (unwrap base64_text (base_name (first_word ?words)) ?words)"
  show ?thesis
  proof (cases "?words = []")
    case True
    then show ?thesis by (simp add: walk_command_def t Let_def)
  next
    case False
    have w: "walk_command base64_text deeper bodies pipes part tokens st =
        (case ?inner of Some command \<Rightarrow> deeper command ?b
         | None \<Rightarrow> ?b\<lparr>wk_found := wk_found ?b @ [found_of ?words stdin own]\<rparr>)"
      using False by (simp add: walk_command_def t Let_def)
    have "grows ?b (walk_command base64_text deeper bodies pipes part tokens st)"
      using assms(1) unfolding w adds_def by (simp split: option.split)
    then have b: "before_unwrap base64_text deeper' pipes part ?words ?s = ?b"
      using agree_before_unwrap [OF assms(1,2)] grows_not_opaque deep by blast
    have "deeper' command ?b = deeper command ?b" if "?inner = Some command" for command
      using assms(2) deep that unfolding w agree_def by simp
    then show ?thesis using False w b
      by (simp add: walk_command_def [of base64_text deeper'] t Let_def split: option.split)
  qed
qed

lemma grows_walk_part:
  assumes "adds deeper"
  shows "grows (snd acc) (snd (walk_part base64_text deeper bodies pipes bindable acc piece))"
  using grows_fold [OF assms] grows_walk_command [OF assms]
  by (cases acc; cases piece) (simp add: walk_part_def Let_def)

lemma grows_walk_parts:
  assumes "adds deeper"
  shows "grows (snd acc) (snd (foldl (walk_part base64_text deeper bodies pipes bindable) acc pieces))"
proof (induction pieces arbitrary: acc)
  case (Cons p pieces)
  show ?case
    using grows_trans [OF grows_walk_part [OF assms] Cons.IH] by simp
qed simp

lemma agree_walk_parts:
  assumes "adds deeper" "agree deeper deeper'"
  shows "TOO_DEEP \<notin> set (wk_opaque (snd (foldl (walk_part base64_text deeper bodies pipes bindable) acc pieces))) \<Longrightarrow>
    foldl (walk_part base64_text deeper' bodies pipes bindable) acc pieces =
    foldl (walk_part base64_text deeper bodies pipes bindable) acc pieces"
proof (induction pieces arbitrary: acc)
  case (Cons p pieces)
  have "TOO_DEEP \<notin> set (wk_opaque (snd (walk_part base64_text deeper bodies pipes bindable acc p)))"
    using grows_not_opaque [OF grows_walk_parts [OF assms(1)]] Cons.prems by simp
  then have "walk_part base64_text deeper' bodies pipes bindable acc p =
      walk_part base64_text deeper bodies pipes bindable acc p"
    using agree_fold [OF assms] agree_walk_command [OF assms]
    by (cases acc; cases p) (auto simp: walk_part_def Let_def split: if_splits)
  then show ?case using Cons by simp
qed simp

lemma grows_walk_line: "adds deeper \<Longrightarrow> grows st (walk_line base64_text deeper raw st)"
  using grows_walk_parts [of deeper "([], st)"] by (simp add: walk_line_def Let_def split: prod.split)

lemma agree_walk_line:
  assumes "adds deeper" "agree deeper deeper'"
  shows "agree (walk_line base64_text deeper) (walk_line base64_text deeper')"
  unfolding agree_def
proof (intro allI impI)
  fix raw st
  assume "TOO_DEEP \<notin> set (wk_opaque (walk_line base64_text deeper raw st))"
  then show "walk_line base64_text deeper' raw st = walk_line base64_text deeper raw st"
    using agree_walk_parts [OF assms] by (simp add: walk_line_def Let_def split: prod.splits)
qed

lemma walk_adds: "adds (walk levels base64_text)"
proof (induction levels)
  case 0
  show ?case by (simp add: adds_def)
next
  case (Suc levels)
  then show ?case using grows_walk_line by (simp add: adds_def)
qed

lemma walk_agree: "agree (walk levels base64_text) (walk (levels + extra) base64_text)"
proof (induction levels)
  case 0
  show ?case by (simp add: agree_def add_opaque_def)
next
  case (Suc levels)
  then show ?case using agree_walk_line [OF walk_adds] by simp
qed

text \<open>
  Property C37. The bound on nesting hides nothing without saying so: a line that is not reported as
  nested too deep was read to the bottom, and walking it with any number of further levels gives the
  same commands, reasons and redirects.
\<close>

theorem depth_bound_is_reported:
  assumes "TOO_DEEP \<notin> set (wk_opaque (walk (MAX_DEPTH + 1) base64_text raw empty_walk))"
  shows "walk (MAX_DEPTH + 1 + extra) base64_text raw empty_walk = walk (MAX_DEPTH + 1) base64_text raw empty_walk"
  using walk_agree [of "MAX_DEPTH + 1" base64_text extra] assms unfolding agree_def by blast

lemma depth_bound_is_reported_witness:
  "walk 9 (\<lambda>s. s) ''sudo env ls'' empty_walk = walk 5 (\<lambda>s. s) ''sudo env ls'' empty_walk"
proof -
  have "TOO_DEEP \<notin> set (wk_opaque (walk (MAX_DEPTH + 1) (\<lambda>s. s) ''sudo env ls'' empty_walk))"
    by code_simp
  from depth_bound_is_reported [OF this, of 4] show ?thesis by (simp add: MAX_DEPTH_def del: walk.simps)
qed

end
