(* ===== verification/ShellArgv.thy ===== *)
theory ShellArgv
  imports ShellCommands
begin

text \<open>
  What the reading of a shell line guarantees: a command given as words is read as exactly that
  command, the lists of a normalized line agree, and the runs where the reading goes wrong.
\<close>

section \<open>Words as one command\<close>

lemma plain_char_quiet:
  assumes "plain_char c"
  shows "c \<noteq> CHR ''$''" "c \<noteq> BACKTICK" "c \<noteq> CHR ''<''" "c \<noteq> CHR ''>''" "c \<noteq> NUL"
proof -
  have "\<not> plain_char CHR ''$''" "\<not> plain_char BACKTICK" "\<not> plain_char CHR ''<''" "\<not> plain_char CHR ''>''"
    "\<not> plain_char NUL"
    by code_simp+
  then show "c \<noteq> CHR ''$''" "c \<noteq> BACKTICK" "c \<noteq> CHR ''<''" "c \<noteq> CHR ''>''" "c \<noteq> NUL"
    using assms by blast+
qed

lemma quiet_no_expansion: "CHR ''$'' \<notin> set s \<Longrightarrow> BACKTICK \<notin> set s \<Longrightarrow> \<not> expansion s"
  by (induction s) auto

definition quiet :: "string \<Rightarrow> bool" where
  "quiet s \<longleftrightarrow> CHR ''$'' \<notin> set (outside_from None s) \<and> BACKTICK \<notin> set (outside_from None s)"

lemma quiet_plain: "list_all plain_char w \<Longrightarrow> quiet rest \<Longrightarrow> quiet (w @ rest)"
proof (induction w)
  case (Cons c w)
  then show ?case using plain_char_facts [of c] plain_char_quiet [of c] by (simp add: quiet_def)
qed simp

lemma quiet_inside:
  "CHR ''$'' \<notin> set (outside_from None rest) \<Longrightarrow> BACKTICK \<notin> set (outside_from None rest) \<Longrightarrow>
     CHR ''$'' \<notin> set (outside_from (Some QUOTE) (quote_inside w @ QUOTE # rest)) \<and>
     BACKTICK \<notin> set (outside_from (Some QUOTE) (quote_inside w @ QUOTE # rest))"
proof (induction w)
  case (Cons c w)
  have q: "QUOTE \<noteq> BACKSLASH" "DQUOTE \<noteq> BACKSLASH" "QUOTE \<noteq> DQUOTE" "DQUOTE \<noteq> QUOTE" "QUOTE \<noteq> BACKTICK"
    "BACKTICK \<noteq> QUOTE" "DQUOTE \<noteq> BACKTICK" "BACKTICK \<noteq> DQUOTE"
    "QUOTE \<noteq> CHR ''$''" "DQUOTE \<noteq> CHR ''$''" "CHR ''$'' \<noteq> QUOTE" "CHR ''$'' \<noteq> DQUOTE"
    by code_simp+
  show ?case using Cons q by (cases "c = QUOTE") auto
qed simp

lemma quiet_word: "quiet rest \<Longrightarrow> quiet (quote_shell_word w @ rest)"
proof (cases "plain_word w")
  case True
  then show "quiet rest \<Longrightarrow> ?thesis" using quiet_plain [of w rest] by (simp add: quote_shell_word_def plain_word_def)
next
  case False
  have "QUOTE \<noteq> BACKSLASH" by code_simp
  then show "quiet rest \<Longrightarrow> ?thesis"
    using False quiet_inside [of rest w] by (simp add: quote_shell_word_def quiet_def)
qed

lemma quiet_words: "quiet (quote_shell_words ws)"
proof (induction ws)
  case Nil
  show ?case by (simp add: quiet_def quote_shell_words_def)
next
  case (Cons w ws)
  have "CHR '' '' \<noteq> BACKSLASH" "CHR '' '' \<noteq> QUOTE" "CHR '' '' \<noteq> DQUOTE" "BACKTICK \<noteq> CHR '' ''" by code_simp+
  then have space: "quiet ('' '' @ s)" if "quiet s" for s
    using that by (auto simp: quiet_def)
  have nil: "quiet []" by (simp add: quiet_def)
  show ?case
    using quiet_word [OF nil, of w] quiet_word [OF space [OF Cons.IH], of w]
    by (cases ws) (simp_all add: quote_shell_words_def)
qed

lemma quote_word_ends:
  "quote_shell_word w \<noteq> [] \<and> \<not> is_space (hd (quote_shell_word w)) \<and> \<not> is_space (last (quote_shell_word w))"
proof -
  have "\<not> is_space QUOTE" by code_simp
  moreover have "\<not> is_space (hd w)" "\<not> is_space (last w)" "w \<noteq> []" if "plain_word w"
    using that plain_char_facts(4) by (auto simp: plain_word_def list_all_iff)
  ultimately show ?thesis by (simp add: quote_shell_word_def)
qed

lemma quote_words_ends:
  "ws \<noteq> [] \<Longrightarrow> quote_shell_words ws \<noteq> [] \<and> \<not> is_space (hd (quote_shell_words ws)) \<and>
     \<not> is_space (last (quote_shell_words ws))"
proof (induction ws)
  case (Cons w ws)
  then show ?case using quote_word_ends [of w] by (cases ws) (auto simp: quote_shell_words_def)
qed simp

lemma trim_at_ends: "s \<noteq> [] \<Longrightarrow> \<not> is_space (hd s) \<Longrightarrow> \<not> is_space (last s) \<Longrightarrow> trim s = s"
proof -
  assume s: "s \<noteq> []" "\<not> is_space (hd s)" "\<not> is_space (last s)"
  then have "dropWhile is_space s = s" by (cases s) simp_all
  moreover have "dropWhile is_space (rev s) = rev s" using s by (cases s rule: rev_cases) simp_all
  ultimately show ?thesis by (simp add: trim_def)
qed

lemma plain_word_no_redirect:
  assumes "plain_word w"
  shows "write_redirect w = None" "read_redirect w = None" "\<not> starts_with HEREDOC_MARK w"
proof -
  have all: "\<And>c. c \<in> set w \<Longrightarrow> plain_char c" using assms by (simp add: plain_word_def list_all_iff)
  have free: "CHR ''>'' \<notin> set w" "CHR ''<'' \<notin> set w" "NUL \<notin> set w"
    using all plain_char_quiet(3) [of "CHR ''<''"] plain_char_quiet(4) [of "CHR ''>''"] plain_char_quiet(5) [of NUL]
    by auto
  have drop: "c \<notin> set (dropWhile is_digit w)" if "c \<notin> set w" for c
    using that set_dropWhileD by fastforce
  have starts: "\<not> starts_with (c # t) s" if "c \<notin> set s" for c t s
    using that by (auto simp: starts_with_iff)
  have "CHR ''>'' \<notin> set (tl w)" using free(1) by (cases w) auto
  then show "write_redirect w = None"
    using starts drop free by (auto simp: write_redirect_def Let_def)
  show "read_redirect w = None" using starts drop free by (auto simp: read_redirect_def Let_def)
  show "\<not> starts_with HEREDOC_MARK w" using starts free by (simp add: HEREDOC_MARK_def)
qed

lemma take_redirects_words: "take_redirects bodies (map token_of ws) found stdin = (map token_of ws, stdin, found)"
proof (induction ws)
  case (Cons w ws)
  have "\<not> plain_word ''<<<''" by code_simp
  then show ?case using Cons plain_word_no_redirect [of w]
    by (cases "plain_word w") (auto simp: token_of_def redirect_of_def Let_def)
qed simp

lemma argv_normalized:
  assumes "ws \<noteq> []" "\<not> env_assignment (hd ws)"
    and "\<not> includes_text ''<<'' (quote_shell_words ws)"
    and "substitutions_in (quote_shell_words ws) = []"
    and "unwrap base64_text (base_name (hd ws)) ws = (None, [])"
    and "canonicalize ws \<noteq> []"
  shows "normalize_shell_command base64_text (quote_shell_words ws) =
    \<lparr>nc_segments = [canonicalize ws], nc_commands = [join_with '' '' ws], nc_opaque = [],
     nc_parsed = [\<lparr>pc_argv = ws, pc_stdin = None, pc_writes = []\<rparr>],
     nc_redirects = \<lparr>rd_writes = [], rd_reads = []\<rparr>\<rparr>"
proof -
  let ?raw = "quote_shell_words ws" and ?deeper = "walk MAX_DEPTH base64_text"
  let ?own = "\<lparr>rd_writes = [], rd_reads = []\<rparr>"
  have trim: "trim ?raw = ?raw" "?raw \<noteq> []" using quote_words_ends [OF assms(1)] trim_at_ends by blast+
  have first: "first_word ws = hd ws" using assms(1) by (cases ws) (simp_all add: first_word_def)
  have tokens: "strip_env_tokens (tokenize_quoted ?raw) = map token_of ws"
    using assms(1,2) by (cases ws) (simp_all add: tokenize_words strip_env_tokens_def token_of_def)
  have words: "map (tk_text \<circ> token_of) ws = ws" by (simp add: token_of_def comp_def)
  have lift: "lift_heredocs ?raw = (?raw, [])" using assms(3) by (simp add: lift_heredocs_def)
  have "\<not> expansion (outside_single_quotes ?raw)"
    using quiet_words [of ws] quiet_no_expansion by (simp add: quiet_def outside_single_quotes_def)
  then have inside: "before_unwrap base64_text ?deeper False ?raw ws empty_walk = empty_walk"
    using assms(4,5) by (simp add: before_unwrap_def Let_def first add_opaque_def empty_walk_def uniq_def)
  have "add_redirects ?own empty_walk = empty_walk" by (simp add: add_redirects_def empty_walk_def)
  then have "walk_command base64_text ?deeper [] False ?raw (map token_of ws) empty_walk =
      empty_walk\<lparr>wk_found := [found_of ws None ?own]\<rparr>"
    using inside assms(1,5) by (simp add: walk_command_def take_redirects_words words Let_def first)
      (simp add: empty_walk_def)
  then have "walk (MAX_DEPTH + 1) base64_text ?raw empty_walk = empty_walk\<lparr>wk_found := [found_of ws None ?own]\<rparr>"
    using assms(1) trim
    by (simp add: walk_line_def lift split_words walk_part_def substitute_known_def tokens Let_def)
  then show ?thesis
    using assms(6) by (simp add: normalize_shell_command_def Let_def empty_walk_def found_of_def uniq_def)
qed

text \<open>
  Property C33. A command written as its words are quoted is read back as exactly that command and nothing
  else, one canonical form, the words as they were, no redirect and no reason to doubt, when its first word is
  no assignment and no wrapper, its canonical form is not empty, and the quoted line holds no \<open><<\<close> and
  nothing that reads as a substitution. Spaces, quotes, semicolons and pipes in the words change nothing; the
  two characters of a heredoc do (\<open>quoted_heredoc_hides_commands\<close>).
\<close>

theorem argv_is_read_as_itself:
  assumes "ws \<noteq> []" "\<not> env_assignment (hd ws)"
    and "\<not> includes_text ''<<'' (quote_shell_words ws)"
    and "substitutions_in (quote_shell_words ws) = []"
    and "unwrap base64_text (base_name (hd ws)) ws = (None, [])"
    and "canonicalize ws \<noteq> []"
  shows "normalize_shell_command base64_text (quote_shell_words ws) =
    \<lparr>nc_segments = [canonicalize ws], nc_commands = [join_with '' '' ws], nc_opaque = [],
     nc_parsed = [\<lparr>pc_argv = ws, pc_stdin = None, pc_writes = []\<rparr>],
     nc_redirects = \<lparr>rd_writes = [], rd_reads = []\<rparr>\<rparr>"
  by (rule argv_normalized [OF assms])

lemma argv_is_read_as_itself_witness:
  "nc_segments (normalize_shell_command (\<lambda>s. s) (quote_shell_words [''/bin/rm'', ''-rf'', ''my dir; ls''])) =
     [''rm -f -r my dir; ls'']"
proof -
  let ?ws = "[''/bin/rm'', ''-rf'', ''my dir; ls'']"
  have "\<not> env_assignment (hd ?ws)" "\<not> includes_text ''<<'' (quote_shell_words ?ws)"
    "substitutions_in (quote_shell_words ?ws) = []"
    "unwrap (\<lambda>s. s) (base_name (hd ?ws)) ?ws = (None, [])" "canonicalize ?ws = ''rm -f -r my dir; ls''"
    by code_simp+
  then show ?thesis using argv_is_read_as_itself [of ?ws "\<lambda>s. s"] by simp
qed

section \<open>The lists of a normalized line\<close>

lemma distinct_commands_facts:
  "distinct (map command_key (distinct_commands seen cs)) \<and>
   set (map command_key (distinct_commands seen cs)) \<inter> set seen = {} \<and>
   [] \<notin> set (map fc_canonical (distinct_commands seen cs)) \<and>
   set (distinct_commands seen cs) \<subseteq> set cs"
  by (induction seen cs rule: distinct_commands.induct) auto

lemma distinct_commands_keep:
  "c \<in> set cs \<Longrightarrow> fc_canonical c \<noteq> [] \<Longrightarrow>
     command_key c \<in> set seen \<union> set (map command_key (distinct_commands seen cs))"
  by (induction seen cs rule: distinct_commands.induct) auto

lemma kept_keys:
  "set (map command_key (distinct_commands [] cs)) = command_key ` {c \<in> set cs. fc_canonical c \<noteq> []}"
proof
  show "set (map command_key (distinct_commands [] cs)) \<subseteq> command_key ` {c \<in> set cs. fc_canonical c \<noteq> []}"
    using distinct_commands_facts [of "[]" cs] by force
  show "command_key ` {c \<in> set cs. fc_canonical c \<noteq> []} \<subseteq> set (map command_key (distinct_commands [] cs))"
    using distinct_commands_keep [of _ cs "[]"] by auto
qed

lemma keys_of_lists:
  "map (\<lambda>(canonical, parsed). canonical @ [NUL] @ or_else (pc_stdin parsed) [] @ [NUL] @
     join_with [NUL] (pc_writes parsed)) (zip (map fc_canonical cs) (map fc_parsed cs)) = map command_key cs"
  by (induction cs) (simp_all add: command_key_def)

text \<open>
  The lists of a normalized line name the same commands: they are of one length, no
  canonical form is empty, no two commands agree in canonical form, input and files written, and
  every command the walk found with a canonical form is among them up to those three.
\<close>

theorem normalized_lists_agree:
  "let st = walk (MAX_DEPTH + 1) base64_text raw empty_walk; n = normalize_shell_command base64_text raw in
   length (nc_commands n) = length (nc_segments n) \<and> length (nc_parsed n) = length (nc_segments n) \<and>
   [] \<notin> set (nc_segments n) \<and>
   (let keys = map (\<lambda>(canonical, parsed). canonical @ [NUL] @ or_else (pc_stdin parsed) [] @ [NUL] @
          join_with [NUL] (pc_writes parsed)) (zip (nc_segments n) (nc_parsed n))
    in distinct keys \<and> set keys = command_key ` {c \<in> set (wk_found st). fc_canonical c \<noteq> []})"
proof -
  define st where "st = walk (MAX_DEPTH + 1) base64_text raw empty_walk"
  show ?thesis
    using kept_keys [of "wk_found st"] distinct_commands_facts [of "[]" "wk_found st"]
    unfolding normalize_shell_command_def Let_def st_def [symmetric] normalized_command.simps keys_of_lists
    by simp
qed

section \<open>Where a command goes unread\<close>

text \<open>
  A single ampersand does not separate: the command after it is read as words of the
  command before it, so a removal behind \<open>sleep 1 &\<close> is no removal.
\<close>

theorem background_command_is_unread:
  "nc_parsed (normalize_shell_command base64_text ''sleep 1 & rm -rf /x'') =
     [\<lparr>pc_argv = [''sleep'', ''1'', ''&'', ''rm'', ''-rf'', ''/x''], pc_stdin = None, pc_writes = []\<rparr>] \<and>
   nc_segments (normalize_shell_command base64_text ''sleep 1; rm -rf /x'') = [''sleep 1'', ''rm -f -r /x'']"
  by code_simp

text \<open>
  A quoted heredoc sign opens a heredoc all the same: the line after it is taken for its
  body, so a command there is no command, and nothing is reported as unread.
\<close>

theorem quoted_heredoc_hides_commands:
  "let line = ''echo '' @ [QUOTE] @ ''<<E'' @ [QUOTE] @ [NEWLINE] @ ''rm -rf /x'' @ [NEWLINE] @ ''E'';
       n = normalize_shell_command base64_text line
   in map (\<lambda>p. hd (pc_argv p)) (nc_parsed n) = [''echo''] \<and> nc_opaque n = []"
  by code_simp

text \<open>
  A part of a line that is only a redirect to a quoted substitution is passed over: what
  the substitution runs is no command, and no expansion is reported.
\<close>

theorem redirect_substitution_is_unread:
  "let line = ''> '' @ [DQUOTE] @ ''$(rm -rf /x)'' @ [DQUOTE]; n = normalize_shell_command base64_text line
   in nc_parsed n = [] \<and> nc_opaque n = [] \<and> rd_writes (nc_redirects n) = [''$(rm -rf /x)'']"
  by code_simp

lemma shell_alone_is_read:
  "wk_found (walk (MAX_DEPTH + 1) base64_text (''sh -c '' @ [QUOTE] @ ''rm /x'' @ [QUOTE]) empty_walk) =
     [found_of [''rm'', ''/x''] None \<lparr>rd_writes = [], rd_reads = []\<rparr>]"
  by code_simp

lemma shell_behind_prefix_is_cut:
  "wk_found (walk (MAX_DEPTH + 1) base64_text (''sudo sh -c '' @ [QUOTE] @ ''rm /x'' @ [QUOTE]) empty_walk) =
     [found_of [''rm''] None \<lparr>rd_writes = [], rd_reads = []\<rparr>]"
  by code_simp

text \<open>
  Behind a prefix the quoting of the words is lost: the words are joined with spaces and
  read again, so the code of \<open>sudo sh -c 'rm /x'\<close> is cut to its first word. The line is read as a
  bare \<open>rm\<close>, where the same shell without the prefix is read as the removal it is.
\<close>

theorem prefixed_shell_is_cut_short:
  "nc_parsed (normalize_shell_command base64_text (''sudo sh -c '' @ [QUOTE] @ ''rm /x'' @ [QUOTE])) =
     [\<lparr>pc_argv = [''rm''], pc_stdin = None, pc_writes = []\<rparr>] \<and>
   nc_parsed (normalize_shell_command base64_text (''sh -c '' @ [QUOTE] @ ''rm /x'' @ [QUOTE])) =
     [\<lparr>pc_argv = [''rm'', ''/x''], pc_stdin = None, pc_writes = []\<rparr>]"
proof -
  have "canonicalize [''rm''] \<noteq> []" "canonicalize [''rm'', ''/x''] \<noteq> []" by code_simp+
  then show ?thesis
    unfolding normalize_shell_command_def Let_def shell_alone_is_read shell_behind_prefix_is_cut
    by (simp add: found_of_def)
qed

end
