(* ===== verification/SessionGrants.thy ===== *)
theory SessionGrants
  imports RecordStore PosixPath ShellCommands
begin

text \<open>
  What a person already said yes to in one session (\<open>packages/core/src/gate/session-grants.ts\<close>):
  what a yes covers, how two yeses teach a session to stop asking, single yeses spent once, and
  the two keepers of these records, in memory and in one file per session. The changes of the
  file keeper run under the lock of the directory, so each is one step. Counts of approvals are kept for
  the operations that have them; the names an object of the language is born with, such as constructor, are
  taken as having none. The sweep that removes the files of old sessions is no step of a history.
\<close>

section \<open>What a yes is about\<close>

definition LEARN_AFTER_APPROVALS :: nat where "LEARN_AFTER_APPROVALS = 2"

record grant_subject =
  gs_session :: string
  gs_operation :: string
  gs_fingerprint :: string
  gs_class :: "string option"

record grant_record =
  gr_operations :: "string list"
  gr_fingerprints :: "string list"
  gr_approvals :: "string \<Rightarrow> nat option"
  gr_once :: "((string \<times> string) \<times> time) list"

definition empty_grants :: grant_record where
  "empty_grants = \<lparr>gr_operations = [], gr_fingerprints = [], gr_approvals = (\<lambda>_. None), gr_once = []\<rparr>"

definition once_key :: "grant_subject \<Rightarrow> string \<times> string" where
  "once_key subject = (gs_operation subject, gs_fingerprint subject)"

definition grants_by_name :: "grant_subject \<Rightarrow> bool" where
  "grants_by_name subject \<longleftrightarrow> gs_class subject \<noteq> Some TC_DESTRUCTIVE"

definition covered_by :: "grant_record \<Rightarrow> grant_subject \<Rightarrow> bool" where
  "covered_by r subject \<longleftrightarrow>
     gs_fingerprint subject \<in> set (gr_fingerprints r) \<or>
     (grants_by_name subject \<and> gs_operation subject \<in> set (gr_operations r))"

definition with_grant :: "grant_record \<Rightarrow> grant_subject \<Rightarrow> grant_record" where
  "with_grant r subject =
     (if grants_by_name subject then r\<lparr>gr_operations := uniq (gr_operations r @ [gs_operation subject])\<rparr>
      else r\<lparr>gr_fingerprints := uniq (gr_fingerprints r @ [gs_fingerprint subject])\<rparr>)"

definition with_approval :: "grant_record \<Rightarrow> grant_subject \<Rightarrow> bool \<times> grant_record" where
  "with_approval r subject =
     (let yeses = or_else (gr_approvals r (gs_operation subject)) 0 + 1;
          counted = r\<lparr>gr_approvals := (gr_approvals r)(gs_operation subject \<mapsto> yeses)\<rparr>;
          learns = grants_by_name subject \<and> yeses \<ge> LEARN_AFTER_APPROVALS \<and> \<not> covered_by r subject
      in if learns then (True, with_grant counted subject) else (False, counted))"

section \<open>What a yes reaches\<close>

definition PROGRAM_SCOPED :: "string list" where
  "PROGRAM_SCOPED = [''shell.execute'', ''process.exec'']"

definition grant_program_of :: "string \<Rightarrow> string" where
  "grant_program_of line =
     base_name (or_else (find (\<lambda>word. name_and_value word = None) (runs_off is_space line)) [])"

text \<open>The folder, or the nearest directory above it that holds a repository and is no home and no root.\<close>

fun place_from :: "(string \<Rightarrow> bool) \<Rightarrow> string \<Rightarrow> string \<Rightarrow> string list \<Rightarrow> string" where
  "place_from exists_at home folder [] = folder"
| "place_from exists_at home folder (p # higher) =
     (let here = absolute_text (rev (p # higher)) in
      if exists_at (join_paths [here, ''.git'']) then (if here = home then folder else here)
      else place_from exists_at home folder higher)"

definition folder_of :: "string \<Rightarrow> string \<Rightarrow> string list" where
  "folder_of cwd target =
     butlast (resolve_parts cwd [] (map (\<lambda>c. if c = BACKSLASH then CHR ''/'' else c) target))"

definition grant_place_of :: "(string \<Rightarrow> bool) \<Rightarrow> string \<Rightarrow> string \<Rightarrow> string \<Rightarrow> string" where
  "grant_place_of exists_at home cwd target =
     (let parts = folder_of cwd target in place_from exists_at home (absolute_text parts) (rev parts))"

text \<open>The places found so far are kept by folder for as long as the process lives.\<close>

definition grant_place_kept ::
  "(string \<Rightarrow> bool) \<Rightarrow> string \<Rightarrow> string \<Rightarrow> (string \<Rightarrow> string option) \<Rightarrow> string \<Rightarrow> string \<times> (string \<Rightarrow> string option)" where
  "grant_place_kept exists_at home cwd place_of target =
     (let folder = absolute_text (folder_of cwd target) in
      case place_of folder of
        Some known \<Rightarrow> (known, place_of)
      | None \<Rightarrow> (let place = grant_place_of exists_at home cwd target in (place, place_of(folder \<mapsto> place))))"

definition grant_key_for :: "(string \<Rightarrow> string) \<Rightarrow> string \<Rightarrow> string option \<Rightarrow> string" where
  "grant_key_for place action target =
     (if starts_with ''http.'' action then action @ '' '' @ or_else target []
      else case target of
        None \<Rightarrow> action
      | Some t \<Rightarrow>
          if t = [] then action
          else if starts_with ''filesystem.'' action then action @ '' '' @ place t
          else if action \<in> set PROGRAM_SCOPED then action @ '' '' @ grant_program_of t
          else action)"

section \<open>In memory\<close>

type_synonym memory_grants = "string \<Rightarrow> grant_record option"

definition memory_record :: "memory_grants \<Rightarrow> string \<Rightarrow> grant_record" where
  "memory_record records i = or_else (records i) empty_grants"

definition memory_covers :: "memory_grants \<Rightarrow> grant_subject \<Rightarrow> bool" where
  "memory_covers records subject = covered_by (memory_record records (gs_session subject)) subject"

definition memory_grant :: "memory_grants \<Rightarrow> grant_subject \<Rightarrow> memory_grants" where
  "memory_grant records subject =
     records(gs_session subject \<mapsto> with_grant (memory_record records (gs_session subject)) subject)"

definition memory_approved :: "memory_grants \<Rightarrow> grant_subject \<Rightarrow> bool \<times> memory_grants" where
  "memory_approved records subject =
     (let (learned, r) = with_approval (memory_record records (gs_session subject)) subject
      in (learned, records(gs_session subject \<mapsto> r)))"

definition memory_forget :: "memory_grants \<Rightarrow> string \<Rightarrow> memory_grants" where
  "memory_forget records i = records(i := None)"

section \<open>In files\<close>

type_synonym file_grants = "grant_record record_dir"

definition file_name_char :: "char \<Rightarrow> bool" where
  "file_name_char c \<longleftrightarrow> is_word c \<or> c = CHR ''.'' \<or> c = CHR ''-''"

text \<open>The name of the file of a session: what could climb out of the directory is an underscore.\<close>

definition grants_file :: "string \<Rightarrow> string" where
  "grants_file i = map (\<lambda>c. if file_name_char c then c else CHR ''_'') i"

definition file_read :: "file_grants \<Rightarrow> string \<Rightarrow> grant_record" where
  "file_read dir i = or_else (dir_read dir (grants_file i)) empty_grants"

definition file_write :: "file_grants \<Rightarrow> string \<Rightarrow> grant_record \<Rightarrow> file_grants" where
  "file_write dir i r = dir_write dir (grants_file i) r"

definition file_covers :: "file_grants \<Rightarrow> grant_subject \<Rightarrow> bool" where
  "file_covers dir subject = covered_by (file_read dir (gs_session subject)) subject"

definition file_grant :: "file_grants \<Rightarrow> grant_subject \<Rightarrow> file_grants" where
  "file_grant dir subject =
     file_write dir (gs_session subject) (with_grant (file_read dir (gs_session subject)) subject)"

definition file_approved :: "file_grants \<Rightarrow> grant_subject \<Rightarrow> bool \<times> file_grants" where
  "file_approved dir subject =
     (let (learned, r) = with_approval (file_read dir (gs_session subject)) subject
      in (learned, file_write dir (gs_session subject) r))"

definition allow_once :: "file_grants \<Rightarrow> grant_subject \<Rightarrow> time \<Rightarrow> file_grants" where
  "allow_once dir subject until =
     (let r = file_read dir (gs_session subject)
      in file_write dir (gs_session subject) (r\<lparr>gr_once := gr_once r @ [(once_key subject, until)]\<rparr>))"

text \<open>\<open>live.filter((_, index) => index !== at)\<close>.\<close>

definition without_index :: "nat \<Rightarrow> 'a list \<Rightarrow> 'a list" where
  "without_index i xs = take i xs @ drop (i + 1) xs"

definition spend_once :: "file_grants \<Rightarrow> grant_subject \<Rightarrow> time \<Rightarrow> bool \<times> file_grants" where
  "spend_once dir subject now =
     (let i = gs_session subject; r = file_read dir i;
          live = filter (\<lambda>(key, until). until > now) (gr_once r)
      in case find_index (\<lambda>(key, until). key = once_key subject) live of
           None \<Rightarrow>
             (False, if length live \<noteq> length (gr_once r) then file_write dir i (r\<lparr>gr_once := live\<rparr>) else dir)
         | Some at_index \<Rightarrow> (True, file_write dir i (r\<lparr>gr_once := without_index at_index live\<rparr>)))"

section \<open>The interface of a keeper of grants\<close>

datatype grant_step = GRANT_FOR_SESSION grant_subject | APPROVED grant_subject

definition step_of ::
  "('s \<Rightarrow> grant_subject \<Rightarrow> 's) \<Rightarrow> ('s \<Rightarrow> grant_subject \<Rightarrow> bool \<times> 's) \<Rightarrow> 's \<Rightarrow> grant_step \<Rightarrow> 's" where
  "step_of grant approved s step =
     (case step of GRANT_FOR_SESSION x \<Rightarrow> grant s x | APPROVED x \<Rightarrow> snd (approved s x))"

definition steps_of ::
  "('s \<Rightarrow> grant_subject \<Rightarrow> 's) \<Rightarrow> ('s \<Rightarrow> grant_subject \<Rightarrow> bool \<times> 's) \<Rightarrow> 's \<Rightarrow> grant_step list \<Rightarrow> 's" where
  "steps_of grant approved s steps = foldl (step_of grant approved) s steps"

locale grant_keeper =
  fixes record_of :: "'s \<Rightarrow> string \<Rightarrow> grant_record"
    and covers :: "'s \<Rightarrow> grant_subject \<Rightarrow> bool"
    and grant :: "'s \<Rightarrow> grant_subject \<Rightarrow> 's"
    and approved :: "'s \<Rightarrow> grant_subject \<Rightarrow> bool \<times> 's"
    and sound :: "'s \<Rightarrow> bool"
    and shared :: "string \<Rightarrow> string \<Rightarrow> bool"
  assumes covers_record: "covers s x = covered_by (record_of s (gs_session x)) x"
    and grant_record: "sound s \<Longrightarrow> record_of (grant s x) i =
      (if shared (gs_session x) i then with_grant (record_of s i) x else record_of s i)"
    and approved_record: "sound s \<Longrightarrow> record_of (snd (approved s x)) i =
      (if shared (gs_session x) i then snd (with_approval (record_of s i) x) else record_of s i)"
    and approved_answer: "sound s \<Longrightarrow> fst (approved s x) = fst (with_approval (record_of s (gs_session x)) x)"
    and sound_grant: "sound s \<Longrightarrow> sound (grant s x)"
    and sound_approved: "sound s \<Longrightarrow> sound (snd (approved s x))"
    and shared_refl: "shared i i"
begin

lemma sound_steps: "sound s \<Longrightarrow> sound (steps_of grant approved s steps)"
  unfolding steps_of_def
  by (induction steps arbitrary: s) (auto simp: step_of_def sound_grant sound_approved split: grant_step.splits)

end

section \<open>What the records keep\<close>

lemma with_grant_fields:
  "set (gr_operations (with_grant r x)) =
     (if grants_by_name x then insert (gs_operation x) (set (gr_operations r)) else set (gr_operations r))"
  "set (gr_fingerprints (with_grant r x)) =
     (if grants_by_name x then set (gr_fingerprints r) else insert (gs_fingerprint x) (set (gr_fingerprints r)))"
  "gr_approvals (with_grant r x) = gr_approvals r"
  "gr_once (with_grant r x) = gr_once r"
  by (auto simp: with_grant_def)

lemma with_approval_fields:
  "set (gr_operations (snd (with_approval r x))) =
     (if fst (with_approval r x) then insert (gs_operation x) (set (gr_operations r)) else set (gr_operations r))"
  "gr_fingerprints (snd (with_approval r x)) = gr_fingerprints r"
  "gr_approvals (snd (with_approval r x)) =
     (gr_approvals r)(gs_operation x \<mapsto> or_else (gr_approvals r (gs_operation x)) 0 + 1)"
  "gr_once (snd (with_approval r x)) = gr_once r"
  "fst (with_approval r x) \<Longrightarrow> grants_by_name x"
  by (auto simp: with_approval_def Let_def with_grant_def split: if_splits)

lemmas grant_fields = with_grant_fields with_approval_fields

lemma covered_stays:
  "covered_by r y \<Longrightarrow> covered_by (with_grant r x) y"
  "covered_by r y \<Longrightarrow> covered_by (snd (with_approval r x)) y"
  by (auto simp: covered_by_def grant_fields)

lemma granted_is_covered: "covered_by (with_grant r x) x"
  by (auto simp: covered_by_def grant_fields)

lemma second_yes_covers:
  "grants_by_name x \<Longrightarrow> or_else (gr_approvals r (gs_operation x)) 0 \<ge> 1 \<Longrightarrow>
     covered_by (snd (with_approval r x)) x"
  by (auto simp: covered_by_def with_approval_def Let_def with_grant_def LEARN_AFTER_APPROVALS_def)

context grant_keeper begin

lemma covers_after_grant: "sound s \<Longrightarrow> covers (grant s x) x"
  by (simp add: covers_record grant_record shared_refl granted_is_covered)

lemma covers_step: "sound s \<Longrightarrow> covers s y \<Longrightarrow> covers (step_of grant approved s step) y"
  by (auto simp: covers_record step_of_def grant_record approved_record covered_stays split: grant_step.splits)

lemma covers_steps: "sound s \<Longrightarrow> covers s y \<Longrightarrow> covers (steps_of grant approved s steps) y"
proof (induction steps arbitrary: s)
  case (Cons step steps)
  have "sound (step_of grant approved s step)" using sound_steps [of s "[step]"] Cons.prems by (simp add: steps_of_def)
  then show ?case using Cons covers_step by (simp add: steps_of_def)
qed (simp add: steps_of_def)

lemma approvals_step:
  "sound s \<Longrightarrow> or_else (gr_approvals (record_of s i) k) 0 \<le> or_else (gr_approvals (record_of (step_of grant approved s step) i) k) 0"
  by (auto simp: step_of_def grant_record approved_record grant_fields split: grant_step.splits)

lemma approvals_steps:
  "sound s \<Longrightarrow> or_else (gr_approvals (record_of s i) k) 0 \<le> or_else (gr_approvals (record_of (steps_of grant approved s steps) i) k) 0"
proof (induction steps arbitrary: s)
  case (Cons step steps)
  have "sound (step_of grant approved s step)" using sound_steps [of s "[step]"] Cons.prems by (simp add: steps_of_def)
  then show ?case using Cons.IH [of "step_of grant approved s step"] approvals_step [OF Cons.prems, of i k step]
    by (simp add: steps_of_def)
qed (simp add: steps_of_def)

text \<open>Two yeses to the same action, and the third is not asked.\<close>

lemma third_is_not_asked:
  assumes "sound s" "grants_by_name y" "gs_operation x = gs_operation y" "gs_session x = gs_session y"
  shows "covers (steps_of grant approved s (APPROVED x # between @ APPROVED y # after)) y"
proof -
  let ?s1 = "snd (approved s x)"
  let ?s2 = "steps_of grant approved ?s1 between"
  have s1: "sound ?s1" by (rule sound_approved) (rule assms)
  then have s2: "sound ?s2" by (rule sound_steps)
  have "or_else (gr_approvals (record_of ?s1 (gs_session y)) (gs_operation y)) 0 \<ge> 1"
    using assms by (simp add: approved_record shared_refl grant_fields)
  then have "or_else (gr_approvals (record_of ?s2 (gs_session y)) (gs_operation y)) 0 \<ge> 1"
    using approvals_steps [OF s1] order_trans by blast
  then have "covers (snd (approved ?s2 y)) y"
    using s2 assms(2) by (simp add: covers_record approved_record shared_refl second_yes_covers)
  then have "covers (steps_of grant approved (snd (approved ?s2 y)) after) y"
    using s2 by (intro covers_steps sound_approved)
  then show ?thesis by (simp add: steps_of_def step_of_def)
qed

text \<open>The exact calls on record are those a person granted for the session.\<close>

lemma fingerprints_of_steps:
  "sound s \<Longrightarrow> set (gr_fingerprints (record_of (steps_of grant approved s steps) i)) =
     set (gr_fingerprints (record_of s i)) \<union>
     gs_fingerprint ` {x. GRANT_FOR_SESSION x \<in> set steps \<and> \<not> grants_by_name x \<and> shared (gs_session x) i}"
proof (induction steps arbitrary: s)
  case (Cons step steps)
  have "sound (step_of grant approved s step)" using sound_steps [of s "[step]"] Cons.prems by (simp add: steps_of_def)
  from Cons.IH [OF this] show ?case using Cons.prems
    by (cases step) (auto simp: steps_of_def step_of_def grant_record approved_record grant_fields)
qed (simp add: steps_of_def)

lemma destructive_only_exactly:
  assumes "sound s" "record_of s (gs_session y) = empty_grants" "\<not> grants_by_name y"
  shows "covers (steps_of grant approved s steps) y \<longleftrightarrow>
     (\<exists>x. GRANT_FOR_SESSION x \<in> set steps \<and> \<not> grants_by_name x \<and> gs_fingerprint x = gs_fingerprint y \<and>
        shared (gs_session x) (gs_session y))"
proof -
  have "covers (steps_of grant approved s steps) y \<longleftrightarrow>
      gs_fingerprint y \<in> gs_fingerprint ` {x. GRANT_FOR_SESSION x \<in> set steps \<and> \<not> grants_by_name x \<and>
        shared (gs_session x) (gs_session y)}"
    using assms fingerprints_of_steps [OF assms(1), of steps "gs_session y"]
    by (simp add: covers_record covered_by_def empty_grants_def)
  then show ?thesis by (auto simp: image_iff eq_commute)
qed

end

section \<open>Both keepers are keepers\<close>

interpretation in_memory: grant_keeper memory_record memory_covers memory_grant memory_approved "\<lambda>_. True" "(=)"
  by unfold_locales (auto simp: memory_record_def memory_covers_def memory_grant_def memory_approved_def split: prod.splits)

definition same_file :: "string \<Rightarrow> string \<Rightarrow> bool" where
  "same_file i j \<longleftrightarrow> grants_file i = grants_file j"

lemma file_read_write:
  "dir_sound dir \<Longrightarrow> file_read (file_write dir i r) j = (if same_file i j then r else file_read dir j)"
  by (auto simp: file_read_def file_write_def same_file_def record_dir.read_write)

lemma same_file_read: "same_file i j \<Longrightarrow> file_read dir i = file_read dir j"
  by (simp add: file_read_def same_file_def)

lemma dir_sound_file_write [simp]: "dir_sound dir \<Longrightarrow> dir_sound (file_write dir i r)"
  by (simp add: file_write_def dir_sound_write)

interpretation in_files: grant_keeper file_read file_covers file_grant file_approved dir_sound same_file
proof unfold_locales
  fix dir :: file_grants and x i
  assume sound: "dir_sound dir"
  show "file_read (file_grant dir x) i =
      (if same_file (gs_session x) i then with_grant (file_read dir i) x else file_read dir i)"
    using sound same_file_read by (auto simp: file_grant_def file_read_write)
  show "file_read (snd (file_approved dir x)) i =
      (if same_file (gs_session x) i then snd (with_approval (file_read dir i) x) else file_read dir i)"
    using sound same_file_read by (auto simp: file_approved_def file_read_write split: prod.splits)
qed (auto simp: file_covers_def file_grant_def file_approved_def same_file_def split: prod.splits)

section \<open>What a yes promises\<close>

text \<open>
  Property C31. A yes for the session to something that destroys covers that one call and nothing
  else: in any history of grants and approvals, none of whose files was swept away, a destructive call is
  covered exactly when a person granted a destructive call with its fingerprint, for a session whose id names the
  same file. Two sessions can name one file (\<open>renamed_sessions_share_yeses\<close>).
\<close>

theorem delete_is_granted_exactly:
  assumes "gs_class y = Some TC_DESTRUCTIVE"
  shows "file_covers (steps_of file_grant file_approved [] steps) y \<longleftrightarrow>
    (\<exists>x. GRANT_FOR_SESSION x \<in> set steps \<and> gs_class x = Some TC_DESTRUCTIVE \<and>
       gs_fingerprint x = gs_fingerprint y \<and> grants_file (gs_session x) = grants_file (gs_session y))"
proof -
  have "file_read [] i = empty_grants" for i by (simp add: file_read_def dir_read_def)
  then show ?thesis
    using in_files.destructive_only_exactly [of "[]" y steps] assms
    by (simp add: grants_by_name_def same_file_def)
qed

definition subject_of :: "string \<Rightarrow> string \<Rightarrow> string \<Rightarrow> string \<Rightarrow> grant_subject" where
  "subject_of session operation fingerprint class =
     \<lparr>gs_session = session, gs_operation = operation, gs_fingerprint = fingerprint, gs_class = Some class\<rparr>"

lemma delete_is_granted_exactly_witness:
  "file_covers (steps_of file_grant file_approved [] [GRANT_FOR_SESSION (subject_of ''s'' ''rm'' ''f1'' TC_DESTRUCTIVE)])
     (subject_of ''s'' ''rm'' ''f1'' TC_DESTRUCTIVE)"
  using delete_is_granted_exactly [of "subject_of ''s'' ''rm'' ''f1'' TC_DESTRUCTIVE"
      "[GRANT_FOR_SESSION (subject_of ''s'' ''rm'' ''f1'' TC_DESTRUCTIVE)]"]
  by (simp add: subject_of_def)

text \<open>
  Two yeses to the same action, and the third is not asked: whatever was answered
  before, between and after, an action that does not destroy is covered once it was approved twice
  in its session.
\<close>

theorem two_yeses_teach_the_session:
  assumes "dir_sound dir" "gs_class y \<noteq> Some TC_DESTRUCTIVE"
    and "gs_operation x = gs_operation y" "gs_session x = gs_session y"
  shows "file_covers (steps_of file_grant file_approved dir (APPROVED x # between @ APPROVED y # after)) y"
  using in_files.third_is_not_asked [OF assms(1)] assms by (simp add: grants_by_name_def)

lemma two_yeses_teach_the_session_witness:
  "file_covers (steps_of file_grant file_approved []
       ([APPROVED (subject_of ''s'' ''git.push'' ''f1'' TC_WRITE)] @ [] @
        [APPROVED (subject_of ''s'' ''git.push'' ''f2'' TC_WRITE)]))
     (subject_of ''s'' ''git.push'' ''f2'' TC_WRITE)"
  using two_yeses_teach_the_session [of "[]" "subject_of ''s'' ''git.push'' ''f2'' TC_WRITE"
      "subject_of ''s'' ''git.push'' ''f1'' TC_WRITE" "[]" "[]"]
  by (simp add: subject_of_def)

section \<open>Single yeses\<close>

datatype once_step = ALLOW_ONCE grant_subject time | TAKE_ONCE grant_subject time | OTHER_YES grant_step

fun once_run :: "file_grants \<Rightarrow> once_step list \<Rightarrow> (once_step \<times> bool) list \<times> file_grants" where
  "once_run dir [] = ([], dir)"
| "once_run dir (step # steps) =
     (let (answer, dir') = (case step of
          ALLOW_ONCE x until \<Rightarrow> (True, allow_once dir x until)
        | TAKE_ONCE x now \<Rightarrow> spend_once dir x now
        | OTHER_YES s \<Rightarrow> (True, step_of file_grant file_approved dir s));
        (rest, final) = once_run dir' steps
      in ((step, answer) # rest, final))"

text \<open>The single yeses given that hold past an instant, and the calls they let through from it on.\<close>

definition yeses_given :: "string \<Rightarrow> string \<times> string \<Rightarrow> time \<Rightarrow> (once_step \<times> bool) list \<Rightarrow> nat" where
  "yeses_given i key t run = length (filter (\<lambda>(step, answer). case step of
     ALLOW_ONCE x until \<Rightarrow> same_file (gs_session x) i \<and> once_key x = key \<and> until > t | _ \<Rightarrow> False) run)"

definition yeses_spent :: "string \<Rightarrow> string \<times> string \<Rightarrow> time \<Rightarrow> (once_step \<times> bool) list \<Rightarrow> nat" where
  "yeses_spent i key t run = length (filter (\<lambda>(step, answer). case step of
     TAKE_ONCE x now \<Rightarrow> answer \<and> same_file (gs_session x) i \<and> once_key x = key \<and> now \<ge> t | _ \<Rightarrow> False) run)"

definition yeses_kept :: "string \<times> string \<Rightarrow> time \<Rightarrow> grant_record \<Rightarrow> nat" where
  "yeses_kept key t r = length (filter (\<lambda>(k, until). k = key \<and> until > t) (gr_once r))"

lemma length_filter_without:
  assumes "k < length xs"
  shows "length (filter p xs) = length (filter p (without_index k xs)) + (if p (xs ! k) then 1 else 0)"
proof -
  have "xs = take k xs @ xs ! k # drop (Suc k) xs" using assms by (rule id_take_nth_drop)
  then have "length (filter p xs) = length (filter p (take k xs @ xs ! k # drop (Suc k) xs))" by simp
  then show ?thesis by (simp add: without_index_def)
qed

lemma length_filter_again: "length (filter p (filter q xs)) \<le> length (filter p xs)"
  by (induction xs) auto

lemma sound_spend: "dir_sound dir \<Longrightarrow> dir_sound (snd (spend_once dir x now))"
  by (simp add: spend_once_def Let_def split: option.splits)

lemma spend_unless_shared:
  "dir_sound dir \<Longrightarrow> \<not> same_file (gs_session x) i \<Longrightarrow> file_read (snd (spend_once dir x now)) i = file_read dir i"
  by (simp add: spend_once_def Let_def file_read_write split: option.splits)

lemma spend_takes_one:
  assumes "dir_sound dir" "same_file (gs_session x) i"
  shows "yeses_kept key t (file_read (snd (spend_once dir x now)) i) +
      (if fst (spend_once dir x now) \<and> once_key x = key \<and> now \<ge> t then 1 else 0) \<le> yeses_kept key t (file_read dir i)"
proof -
  let ?r = "file_read dir (gs_session x)"
  let ?p = "\<lambda>(k, until). k = key \<and> until > t"
  let ?live = "filter (\<lambda>(key, until). until > now) (gr_once ?r)"
  have r: "file_read dir i = ?r" using assms(2) same_file_read by metis
  have live: "length (filter ?p ?live) \<le> length (filter ?p (gr_once ?r))"
    by (rule length_filter_again)
  show ?thesis
  proof (cases "find_index (\<lambda>(key, until). key = once_key x) ?live")
    case None
    then show ?thesis using assms live by (auto simp: spend_once_def Let_def file_read_write yeses_kept_def r)
  next
    case (Some k)
    then have k: "k < length ?live" "fst (?live ! k) = once_key x"
      using find_index_Some [OF Some] by (auto simp: case_prod_beta)
    then have "?live ! k \<in> set ?live" using nth_mem by blast
    then have "snd (?live ! k) > now" by (auto simp: case_prod_beta)
    then have "?p (?live ! k)" if "once_key x = key" "now \<ge> t" using that k(2) by (auto simp: case_prod_beta)
    then show ?thesis
      using assms live Some length_filter_without [OF k(1), of ?p]
      by (auto simp: spend_once_def Let_def file_read_write yeses_kept_def r)
  qed
qed

lemma kept_other_yes: "dir_sound dir \<Longrightarrow>
    yeses_kept key t (file_read (step_of file_grant file_approved dir s) i) = yeses_kept key t (file_read dir i)"
  by (cases s) (auto simp: step_of_def yeses_kept_def in_files.grant_record in_files.approved_record grant_fields)

lemma kept_allow_once: "dir_sound dir \<Longrightarrow>
    yeses_kept key t (file_read (allow_once dir x until) i) = yeses_kept key t (file_read dir i) +
      (if same_file (gs_session x) i \<and> once_key x = key \<and> until > t then 1 else 0)"
  using same_file_read [of "gs_session x" i dir]
  by (auto simp: allow_once_def Let_def file_read_write yeses_kept_def)

lemma sound_other_yes: "dir_sound dir \<Longrightarrow> dir_sound (step_of file_grant file_approved dir s)"
  using in_files.sound_steps [of dir "[s]"] by (simp add: steps_of_def)

lemma run_counts:
  "dir_sound dir \<Longrightarrow>
     yeses_spent i key t (fst (once_run dir steps)) + yeses_kept key t (file_read (snd (once_run dir steps)) i)
       \<le> yeses_given i key t (fst (once_run dir steps)) + yeses_kept key t (file_read dir i)"
proof (induction steps arbitrary: dir)
  case Nil
  then show ?case by (simp add: yeses_spent_def yeses_given_def)
next
  case (Cons step steps)
  show ?case
  proof (cases step)
    case (ALLOW_ONCE x until)
    have "dir_sound (allow_once dir x until)" using Cons.prems by (simp add: allow_once_def Let_def)
    from Cons.IH [OF this] show ?thesis using Cons.prems ALLOW_ONCE
      by (auto simp: kept_allow_once yeses_spent_def yeses_given_def split: prod.splits)
  next
    case (TAKE_ONCE x now)
    note ih = Cons.IH [OF sound_spend [OF Cons.prems, of x now]]
    have "yeses_kept key t (file_read (snd (spend_once dir x now)) i) +
        (if fst (spend_once dir x now) \<and> same_file (gs_session x) i \<and> once_key x = key \<and> now \<ge> t then 1 else 0)
        \<le> yeses_kept key t (file_read dir i)"
      using spend_takes_one [OF Cons.prems, of x i key t now] spend_unless_shared [OF Cons.prems, of x i now]
      by (cases "same_file (gs_session x) i") auto
    then show ?thesis using ih TAKE_ONCE by (auto simp: yeses_spent_def yeses_given_def split: prod.splits if_splits)
  next
    case (OTHER_YES s)
    from Cons.IH [OF sound_other_yes [OF Cons.prems, of s]] show ?thesis using Cons.prems OTHER_YES
      by (auto simp: kept_other_yes yeses_spent_def yeses_given_def split: prod.splits)
  qed
qed

text \<open>
  A single yes lets one call through, and only before the question would have run out:
  in any history, with other yeses between, the calls of one action and fingerprint let through from
  an instant on are at most the single yeses given for them that hold past that instant.
\<close>

theorem single_yes_is_spent_once:
  "yeses_spent i key t (fst (once_run [] steps)) \<le> yeses_given i key t (fst (once_run [] steps))"
  using run_counts [of "[]" i key t steps] by (simp add: file_read_def dir_read_def empty_grants_def yeses_kept_def)

section \<open>The files and the memory say the same\<close>

datatype grant_call = ASK_COVERED grant_subject | ASK_GRANT grant_subject | ASK_APPROVED grant_subject

fun call_session :: "grant_call \<Rightarrow> string" where
  "call_session (ASK_COVERED x) = gs_session x"
| "call_session (ASK_GRANT x) = gs_session x"
| "call_session (ASK_APPROVED x) = gs_session x"

fun answers_of ::
  "('s \<Rightarrow> grant_subject \<Rightarrow> bool) \<Rightarrow> ('s \<Rightarrow> grant_subject \<Rightarrow> 's) \<Rightarrow> ('s \<Rightarrow> grant_subject \<Rightarrow> bool \<times> 's) \<Rightarrow> 's \<Rightarrow> grant_call list \<Rightarrow> bool list" where
  "answers_of covers grant approved s [] = []"
| "answers_of covers grant approved s (ASK_COVERED x # cs) = covers s x # answers_of covers grant approved s cs"
| "answers_of covers grant approved s (ASK_GRANT x # cs) = answers_of covers grant approved (grant s x) cs"
| "answers_of covers grant approved s (ASK_APPROVED x # cs) =
     (let (learned, s') = approved s x in learned # answers_of covers grant approved s' cs)"

definition plain_session :: "string \<Rightarrow> bool" where
  "plain_session i \<longleftrightarrow> list_all file_name_char i"

lemma plain_session_file: "plain_session i \<Longrightarrow> grants_file i = i"
  unfolding plain_session_def grants_file_def by (induction i) auto

definition agrees :: "file_grants \<Rightarrow> memory_grants \<Rightarrow> bool" where
  "agrees dir records \<longleftrightarrow> dir_sound dir \<and> (\<forall>i. plain_session i \<longrightarrow> file_read dir i = memory_record records i)"

lemma agrees_grant:
  assumes "agrees dir records" "plain_session (gs_session x)"
  shows "agrees (file_grant dir x) (memory_grant records x)"
  using assms
  by (auto simp: agrees_def in_files.grant_record in_memory.grant_record in_files.sound_grant same_file_def plain_session_file)

lemma agrees_approved:
  assumes "agrees dir records" "plain_session (gs_session x)"
  shows "agrees (snd (file_approved dir x)) (snd (memory_approved records x)) \<and>
    fst (file_approved dir x) = fst (memory_approved records x)"
  using assms
  by (auto simp: agrees_def in_files.approved_record in_memory.approved_record in_files.approved_answer
      in_memory.approved_answer in_files.sound_approved same_file_def plain_session_file)

lemma agrees_answers:
  "agrees dir records \<Longrightarrow> \<forall>c \<in> set calls. plain_session (call_session c) \<Longrightarrow>
     answers_of file_covers file_grant file_approved dir calls =
     answers_of memory_covers memory_grant memory_approved records calls"
proof (induction calls arbitrary: dir records)
  case (Cons c calls)
  show ?case
  proof (cases c)
    case (ASK_COVERED x)
    then show ?thesis using Cons by (simp add: in_files.covers_record in_memory.covers_record agrees_def)
  next
    case (ASK_GRANT x)
    then show ?thesis using Cons agrees_grant [of dir records x] by simp
  next
    case (ASK_APPROVED x)
    then show ?thesis using Cons agrees_approved [of dir records x] by (simp add: case_prod_beta Let_def)
  qed
qed simp

text \<open>
  Property C32. The files of grants answer as the memory does: over any calls whose sessions are named
  by letters, digits, dots, dashes and underscores, every answer of the one is the answer of the
  other.
\<close>

theorem files_refine_memory:
  assumes "\<forall>c \<in> set calls. plain_session (call_session c)"
  shows "answers_of file_covers file_grant file_approved [] calls =
    answers_of memory_covers memory_grant memory_approved (\<lambda>_. None) calls"
  by (rule agrees_answers)
    (use assms in \<open>auto simp: agrees_def file_read_def dir_read_def memory_record_def\<close>)

lemma files_refine_memory_witness:
  "answers_of file_covers file_grant file_approved []
       [ASK_APPROVED (subject_of ''s1'' ''git.push'' ''f'' TC_WRITE), ASK_APPROVED (subject_of ''s1'' ''git.push'' ''g'' TC_WRITE)]
   = [False, True]"
proof -
  have "\<forall>c \<in> set [ASK_APPROVED (subject_of ''s1'' ''git.push'' ''f'' TC_WRITE),
      ASK_APPROVED (subject_of ''s1'' ''git.push'' ''g'' TC_WRITE)]. plain_session (call_session c)"
    by code_simp
  from files_refine_memory [OF this] show ?thesis
    by (simp add: memory_approved_def memory_record_def with_approval_def empty_grants_def covered_by_def
        grants_by_name_def subject_of_def LEARN_AFTER_APPROVALS_def Let_def)
qed

text \<open>
  Two sessions whose names differ only in the characters a file name leaves out share one file, so a
  yes in the one answers for the other: the memory tells them apart.
\<close>

theorem renamed_sessions_share_yeses:
  "answers_of file_covers file_grant file_approved []
     [ASK_GRANT (subject_of ''a/b'' ''git.push'' ''f'' TC_WRITE), ASK_COVERED (subject_of ''a_b'' ''git.push'' ''g'' TC_WRITE)]
     = [True] \<and>
   answers_of memory_covers memory_grant memory_approved (\<lambda>_. None)
     [ASK_GRANT (subject_of ''a/b'' ''git.push'' ''f'' TC_WRITE), ASK_COVERED (subject_of ''a_b'' ''git.push'' ''g'' TC_WRITE)]
     = [False]"
proof -
  have "grants_file ''a/b'' = grants_file ''a_b''" by code_simp
  then show ?thesis
    by (simp add: file_grant_def file_covers_def file_read_def file_write_def dir_read_def with_grant_def
        grants_by_name_def subject_of_def covered_by_def uniq_def memory_covers_def memory_grant_def memory_record_def
        empty_grants_def)
qed

section \<open>Where a file yes reaches\<close>

lemma place_from_cases:
  "place_from exists_at home folder up = folder \<or>
   (\<exists>k < length up. place_from exists_at home folder up = absolute_text (rev (drop k up)) \<and>
      exists_at (join_paths [absolute_text (rev (drop k up)), ''.git'']) \<and> absolute_text (rev (drop k up)) \<noteq> home \<and>
      (\<forall>j < k. \<not> exists_at (join_paths [absolute_text (rev (drop j up)), ''.git''])))"
proof (induction up)
  case (Cons p up)
  let ?here = "absolute_text (rev (p # up))"
  show ?case
  proof (cases "exists_at (join_paths [?here, ''.git''])")
    case True
    then show ?thesis by (auto simp: Let_def intro!: exI [of _ 0])
  next
    case False
    from Cons show ?thesis
    proof
      assume "place_from exists_at home folder up = folder"
      then show ?thesis using False by (simp add: Let_def)
    next
      assume "\<exists>k < length up. place_from exists_at home folder up = absolute_text (rev (drop k up)) \<and>
          exists_at (join_paths [absolute_text (rev (drop k up)), ''.git'']) \<and> absolute_text (rev (drop k up)) \<noteq> home \<and>
          (\<forall>j < k. \<not> exists_at (join_paths [absolute_text (rev (drop j up)), ''.git'']))"
      then obtain k where k: "k < length up" "place_from exists_at home folder up = absolute_text (rev (drop k up))"
        "exists_at (join_paths [absolute_text (rev (drop k up)), ''.git''])" "absolute_text (rev (drop k up)) \<noteq> home"
        "\<forall>j < k. \<not> exists_at (join_paths [absolute_text (rev (drop j up)), ''.git''])" by blast
      have "\<not> exists_at (join_paths [absolute_text (rev (drop j (p # up))), ''.git''])" if "j < Suc k" for j
        using that False k(5) by (cases j) simp_all
      then show ?thesis using k False by (intro disjI2 exI [of _ "Suc k"]) (simp add: Let_def)
    qed
  qed
qed simp

text \<open>
  A yes to a file reaches its own folder, or the nearest directory at or above it that
  holds a repository: never the home directory's repository and never the root's.
\<close>

theorem file_yes_reaches_its_repository:
  "let parts = folder_of cwd target; place = grant_place_of exists_at home cwd target;
       holds = (\<lambda>n. exists_at (join_paths [absolute_text (take n parts), ''.git'']))
   in place = absolute_text parts \<or>
      (\<exists>n. 0 < n \<and> n \<le> length parts \<and> place = absolute_text (take n parts) \<and> holds n \<and> place \<noteq> home \<and>
         list_all (\<lambda>m. \<not> holds m) [n + 1 ..< length parts + 1])"
proof -
  let ?parts = "folder_of cwd target"
  have take: "rev (drop k (rev ?parts)) = take (length ?parts - k) ?parts" for k
    by (simp add: rev_drop)
  from place_from_cases [of exists_at home "absolute_text ?parts" "rev ?parts"] show ?thesis
    unfolding Let_def grant_place_of_def take
  proof (rule disj_forward)
    assume "\<exists>k < length (rev ?parts). place_from exists_at home (absolute_text ?parts) (rev ?parts) =
        absolute_text (take (length ?parts - k) ?parts) \<and>
        exists_at (join_paths [absolute_text (take (length ?parts - k) ?parts), ''.git'']) \<and>
        absolute_text (take (length ?parts - k) ?parts) \<noteq> home \<and>
        (\<forall>j < k. \<not> exists_at (join_paths [absolute_text (take (length ?parts - j) ?parts), ''.git'']))"
    then obtain k where k: "k < length ?parts" "place_from exists_at home (absolute_text ?parts) (rev ?parts) =
        absolute_text (take (length ?parts - k) ?parts)"
        "exists_at (join_paths [absolute_text (take (length ?parts - k) ?parts), ''.git''])"
        "absolute_text (take (length ?parts - k) ?parts) \<noteq> home"
        "\<forall>j < k. \<not> exists_at (join_paths [absolute_text (take (length ?parts - j) ?parts), ''.git''])" by auto
    have "\<not> exists_at (join_paths [absolute_text (take m ?parts), ''.git''])"
      if "m \<le> length ?parts" "length ?parts - k < m" for m
      using k(5) [rule_format, of "length ?parts - m"] that by simp
    then have rest: "list_all (\<lambda>m. \<not> exists_at (join_paths [absolute_text (take m ?parts), ''.git'']))
        [length ?parts - k + 1 ..< length ?parts + 1]"
      unfolding list_all_iff set_upt by auto
    show "\<exists>n. 0 < n \<and> n \<le> length ?parts \<and>
        place_from exists_at home (absolute_text ?parts) (rev ?parts) = absolute_text (take n ?parts) \<and>
        exists_at (join_paths [absolute_text (take n ?parts), ''.git'']) \<and>
        place_from exists_at home (absolute_text ?parts) (rev ?parts) \<noteq> home \<and>
        list_all (\<lambda>m. \<not> exists_at (join_paths [absolute_text (take m ?parts), ''.git''])) [n + 1 ..< length ?parts + 1]"
      using k rest by (intro exI [of _ "length ?parts - k"]) simp
  qed
qed

text \<open>While the directories stay as they are, keeping the places found changes no answer.\<close>

definition places_sound :: "(string \<Rightarrow> bool) \<Rightarrow> string \<Rightarrow> string \<Rightarrow> (string \<Rightarrow> string option) \<Rightarrow> bool" where
  "places_sound exists_at home cwd place_of \<longleftrightarrow>
     (\<forall>target place. place_of (absolute_text (folder_of cwd target)) = Some place \<longrightarrow>
        place = grant_place_of exists_at home cwd target)"

lemma kept_places_are_right:
  assumes "places_sound exists_at home cwd place_of"
  shows "fst (grant_place_kept exists_at home cwd place_of target) = grant_place_of exists_at home cwd target \<and>
    places_sound exists_at home cwd (snd (grant_place_kept exists_at home cwd place_of target))"
proof -
  have same: "grant_place_of exists_at home cwd t = grant_place_of exists_at home cwd target"
    if "absolute_text (folder_of cwd t) = absolute_text (folder_of cwd target)" for t
  proof -
    have "list_all (\<lambda>s. s \<noteq> [] \<and> CHR ''/'' \<notin> set s) (folder_of cwd u)" for u
      using resolve_parts_facts in_set_butlastD unfolding folder_of_def list_all_iff by metis
    then have "folder_of cwd t = folder_of cwd target" using that path_parts_absolute_text by metis
    then show ?thesis by (simp add: grant_place_of_def)
  qed
  show ?thesis
  proof (cases "place_of (absolute_text (folder_of cwd target))")
    case None
    let ?folder = "absolute_text (folder_of cwd target)" and ?place = "grant_place_of exists_at home cwd target"
    have "places_sound exists_at home cwd (place_of(?folder \<mapsto> ?place))"
      unfolding places_sound_def
    proof (intro allI impI)
      fix t place
      assume found: "(place_of(?folder \<mapsto> ?place)) (absolute_text (folder_of cwd t)) = Some place"
      show "place = grant_place_of exists_at home cwd t"
      proof (cases "absolute_text (folder_of cwd t) = ?folder")
        case True
        then show ?thesis using found same [OF True] by simp
      next
        case False
        then show ?thesis using found assms unfolding places_sound_def by (metis map_upd_Some_unfold)
      qed
    qed
    then show ?thesis using None by (simp add: grant_place_kept_def Let_def)
  next
    case (Some known)
    then have "known = grant_place_of exists_at home cwd target"
      using assms unfolding places_sound_def by blast
    then show ?thesis using Some assms by (simp add: grant_place_kept_def Let_def)
  qed
qed

end
