(* ===== verification/HoldService.thy ===== *)
theory HoldService
  imports SessionGrants
begin

text \<open>
  Holding a call for a person (\<open>packages/core/src/gate/hold.ts\<close>): every path ends in a decision.
  What the prompt came back with is the argument \<open>reply\<close>; the keeper of grants is given by its
  three operations, as the service is given a \<open>SessionGrants\<close>.
\<close>

section \<open>Requests and results\<close>

datatype hold_answer = ANSWER_ONCE | ANSWER_SESSION | ANSWER_DENY | ANSWER_EDIT

datatype hold_outcome = HELD_ALLOWED | HELD_DENIED | HELD_EDITED | HELD_TIMED_OUT | HELD_UNATTENDED | HELD_PARKED

definition DEFAULT_HOLD_TIMEOUT_MS :: int where "DEFAULT_HOLD_TIMEOUT_MS = 2 * MINUTE_MS"
definition DEFAULT_UNATTENDED_HOLD_TIMEOUT_MS :: int where
  "DEFAULT_UNATTENDED_HOLD_TIMEOUT_MS = 10 * MINUTE_MS"

record hold_request =
  hr_session :: string
  hr_agent :: string
  hr_operation :: string
  hr_target :: "string option"
  hr_fingerprint :: string
  hr_reason :: string
  hr_evidence :: "string list"
  hr_command :: "string option"
  hr_class :: "string option"
  hr_grant_key :: "string option"
  hr_approval_id :: "string option"
  hr_rule :: "string option"
  hr_within_session :: bool

record hold_asked =
  ha_answer :: hold_answer
  ha_command :: "string option"
  ha_by :: "string option"

text \<open>
  What came back from asking: the prompt failed, there was nobody to ask, nobody answered in time
  (and perhaps the question is kept), or an answer.
\<close>

datatype hold_reply =
    REPLY_FAILED
  | REPLY_NOBODY
  | REPLY_UNANSWERED hold_outcome "string option"
  | REPLY_ASKED hold_asked

record hold_result =
  hd_outcome :: hold_outcome
  hd_answer :: "hold_answer option"
  hd_from_grant :: bool
  hd_edited :: "string option"
  hd_learned :: bool
  hd_by :: "string option"
  hd_approval_id :: "string option"

definition hold_result_of :: "hold_outcome \<Rightarrow> hold_answer option \<Rightarrow> hold_result" where
  "hold_result_of outcome answer =
     \<lparr>hd_outcome = outcome, hd_answer = answer, hd_from_grant = False, hd_edited = None, hd_learned = False,
      hd_by = None, hd_approval_id = None\<rparr>"

definition hold_allowed :: "hold_result \<Rightarrow> bool" where
  "hold_allowed result \<longleftrightarrow> hd_outcome result = HELD_ALLOWED"

section \<open>Holding a call\<close>

definition hold_grant_subject :: "hold_request \<Rightarrow> grant_subject" where
  "hold_grant_subject request =
     \<lparr>gs_session = hr_session request, gs_operation = or_else (hr_grant_key request) (hr_operation request),
      gs_fingerprint = hr_fingerprint request, gs_class = hr_class request\<rparr>"

definition edited_result :: "hold_asked \<Rightarrow> hold_request \<Rightarrow> hold_result" where
  "edited_result asked request =
     (let edited = trim (or_else (ha_command asked) []) in
      if edited = [] \<or> Some edited = hr_command request then hold_result_of HELD_DENIED (Some ANSWER_DENY)
      else (hold_result_of HELD_EDITED (Some ANSWER_EDIT))\<lparr>hd_edited := Some edited\<rparr>)"

definition result_of ::
  "('s \<Rightarrow> grant_subject \<Rightarrow> 's) \<Rightarrow> ('s \<Rightarrow> grant_subject \<Rightarrow> bool \<times> 's) \<Rightarrow> 's \<Rightarrow> hold_asked \<Rightarrow> hold_request \<Rightarrow>
     hold_result \<times> 's" where
  "result_of grant approved s asked request =
     (case ha_answer asked of
        ANSWER_DENY \<Rightarrow> ((hold_result_of HELD_DENIED (Some ANSWER_DENY))\<lparr>hd_by := ha_by asked\<rparr>, s)
      | ANSWER_EDIT \<Rightarrow> (edited_result asked request, s)
      | answer \<Rightarrow>
          (let subject = hold_grant_subject request;
               granted = (if answer = ANSWER_SESSION then grant s subject else s);
               (learned, s') = approved granted subject
           in ((hold_result_of HELD_ALLOWED (Some answer))\<lparr>hd_learned := learned, hd_by := ha_by asked\<rparr>, s')))"

definition hold ::
  "('s \<Rightarrow> grant_subject \<Rightarrow> bool) \<Rightarrow> ('s \<Rightarrow> grant_subject \<Rightarrow> 's) \<Rightarrow> ('s \<Rightarrow> grant_subject \<Rightarrow> bool \<times> 's) \<Rightarrow>
     's \<Rightarrow> hold_request \<Rightarrow> hold_reply \<Rightarrow> hold_result \<times> 's" where
  "hold covers grant approved s request reply =
     (if covers s (hold_grant_subject request)
      then ((hold_result_of HELD_ALLOWED (Some ANSWER_SESSION))\<lparr>hd_from_grant := True\<rparr>, s)
      else (case reply of
          REPLY_FAILED \<Rightarrow> (hold_result_of HELD_UNATTENDED None, s)
        | REPLY_NOBODY \<Rightarrow> (hold_result_of HELD_UNATTENDED None, s)
        | REPLY_UNANSWERED outcome i \<Rightarrow> ((hold_result_of outcome None)\<lparr>hd_approval_id := i\<rparr>, s)
        | REPLY_ASKED asked \<Rightarrow> result_of grant approved s asked request))"

section \<open>What the caller is told\<close>

definition describe_held_call :: "string \<Rightarrow> string option \<Rightarrow> string" where
  "describe_held_call operation target =
     (case target of None \<Rightarrow> operation | Some t \<Rightarrow> operation @ '' '' @ t)"

definition describe_parked :: "string \<Rightarrow> string option \<Rightarrow> string" where
  "describe_parked what approval_id =
     (let i = (case approval_id of None \<Rightarrow> [] | Some a \<Rightarrow> '' as '' @ a) in
      ''Nobody is here to answer, so '' @ what @ '' is parked'' @ i @
      '' until a person decides. It did not run. Carry on with the parts of the task that do not need it, '' @
      ''say in your summary that it is waiting, and try it again later: it goes through once they say yes. '' @
      ''Do not reach the same result another way.'')"

definition describe_hold :: "hold_result \<Rightarrow> hold_request \<Rightarrow> string" where
  "describe_hold result request =
     (let what = describe_held_call (hr_operation request) (hr_target request) in
      case hd_outcome result of
        HELD_DENIED \<Rightarrow>
          (case hd_by result of None \<Rightarrow> ''A person'' | Some by_whom \<Rightarrow> ''A person, '' @ by_whom @ '','') @
          '' denied '' @ what @ ''.''
      | HELD_EDITED \<Rightarrow> ''A person replaced that command with: '' @ or_else (hd_edited result) []
      | HELD_PARKED \<Rightarrow> describe_parked what (hd_approval_id result)
      | HELD_TIMED_OUT \<Rightarrow>
          ''Nobody answered in time, so '' @ what @ '' did not run. Ask again when someone is at the keyboard.''
      | _ \<Rightarrow> what @ '' needs a person to approve it and there is no terminal to ask at. Run the agent under '' @
          [DQUOTE] @ ''memnox run'' @ [DQUOTE] @ '', or add a rule that allows it.'')"

section \<open>A hold fails closed\<close>

text \<open>A reply the prompt may give: an unanswered one is timed out or parked.\<close>

fun proper_reply :: "hold_reply \<Rightarrow> bool" where
  "proper_reply (REPLY_UNANSWERED outcome i) \<longleftrightarrow> outcome = HELD_TIMED_OUT \<or> outcome = HELD_PARKED"
| "proper_reply r \<longleftrightarrow> True"

fun says_yes :: "hold_reply \<Rightarrow> bool" where
  "says_yes (REPLY_ASKED asked) \<longleftrightarrow> ha_answer asked = ANSWER_ONCE \<or> ha_answer asked = ANSWER_SESSION"
| "says_yes r \<longleftrightarrow> False"

lemma hold_allowed_iff:
  "proper_reply reply \<Longrightarrow> hold_allowed (fst (hold covers grant approved s request reply)) \<longleftrightarrow>
     covers s (hold_grant_subject request) \<or> says_yes reply"
  by (cases reply)
    (auto simp: hold_def hold_allowed_def hold_result_of_def result_of_def edited_result_def Let_def
       split: hold_answer.splits prod.splits)

lemma hold_keeps_grants:
  "\<not> says_yes reply \<or> covers s (hold_grant_subject request) \<Longrightarrow>
     snd (hold covers grant approved s request reply) = s"
  by (cases reply) (auto simp: hold_def result_of_def split: hold_answer.splits)

lemma hold_edited:
  "hd_edited (fst (hold covers grant approved s request reply)) = Some c \<Longrightarrow>
     c \<noteq> [] \<and> Some c \<noteq> hr_command request \<and>
     \<not> hold_allowed (fst (hold covers grant approved s request reply))"
  by (cases reply)
    (auto simp: hold_def hold_allowed_def hold_result_of_def result_of_def edited_result_def Let_def
       split: hold_answer.splits prod.splits if_splits)

text \<open>
  A hold fails closed, whatever keeps the grants: a call is allowed exactly when a grant
  covers it or a person said yes to it; without a yes no grant changes; and what a person typed in
  its place is never empty and never the command itself, so an edit approves nothing.
\<close>

theorem hold_fails_closed:
  assumes "proper_reply reply"
  shows "let (result, s') = hold covers grant approved s request reply in
    (hold_allowed result \<longleftrightarrow> covers s (hold_grant_subject request) \<or> says_yes reply) \<and>
    (says_yes reply \<or> s' = s) \<and>
    (case hd_edited result of None \<Rightarrow> True | Some c \<Rightarrow>
       c \<noteq> [] \<and> Some c \<noteq> hr_command request \<and> \<not> hold_allowed result)"
  using hold_allowed_iff [OF assms, of covers grant approved s request]
    hold_keeps_grants [of reply covers s request grant approved] hold_edited [of covers grant approved s request reply]
  unfolding case_prod_beta Let_def by (auto split: option.splits)

definition asking_request :: "string \<Rightarrow> string \<Rightarrow> string \<Rightarrow> hold_request" where
  "asking_request session operation class =
     \<lparr>hr_session = session, hr_agent = ''a'', hr_operation = operation, hr_target = None, hr_fingerprint = ''f'',
      hr_reason = [], hr_evidence = [], hr_command = None, hr_class = Some class, hr_grant_key = None,
      hr_approval_id = None, hr_rule = None, hr_within_session = False\<rparr>"

lemma hold_fails_closed_witness:
  "\<not> hold_allowed (fst (hold file_covers file_grant file_approved [] (asking_request ''s'' ''git.push'' TC_WRITE)
     (REPLY_UNANSWERED HELD_TIMED_OUT None)))"
  using hold_fails_closed [of "REPLY_UNANSWERED HELD_TIMED_OUT None" file_covers file_grant file_approved "[]"
      "asking_request ''s'' ''git.push'' TC_WRITE"]
  by (simp add: hold_def file_covers_def file_read_def dir_read_def empty_grants_def covered_by_def
      hold_grant_subject_def hold_result_of_def case_prod_beta)

text \<open>
  "For this session" is answered once: after that answer to an action that does not
  destroy, every later hold of the same action in the session is allowed with nobody asked, whatever
  other yeses were given between and whatever a prompt would have said.
\<close>

theorem session_yes_answers_later_holds:
  assumes "dir_sound dir" "\<not> file_covers dir (hold_grant_subject request)" "ha_answer asked = ANSWER_SESSION"
    and "hr_class request \<noteq> Some TC_DESTRUCTIVE"
    and "hold_grant_subject later = (hold_grant_subject request)\<lparr>gs_fingerprint := fingerprint\<rparr>"
  shows "let after_yes = snd (hold file_covers file_grant file_approved dir request (REPLY_ASKED asked));
      now = steps_of file_grant file_approved after_yes steps
    in hold file_covers file_grant file_approved now later reply =
         ((hold_result_of HELD_ALLOWED (Some ANSWER_SESSION))\<lparr>hd_from_grant := True\<rparr>, now)"
proof -
  let ?x = "hold_grant_subject request" and ?y = "hold_grant_subject later"
  let ?granted = "file_grant dir ?x"
  have named: "grants_by_name ?y" "grants_by_name ?x"
    using assms(4,5) by (simp_all add: grants_by_name_def hold_grant_subject_def)
  have sound: "dir_sound ?granted" using assms(1) by (rule in_files.sound_grant)
  have "file_covers ?granted ?y"
    using named assms(5) in_files.grant_record [OF assms(1), of ?x "gs_session ?x"] in_files.shared_refl
    by (simp add: file_covers_def covered_by_def with_grant_def grants_by_name_def)
  then have "file_covers (steps_of file_grant file_approved (snd (file_approved ?granted ?x)) steps) ?y"
    using in_files.covers_steps [OF sound, of ?y "APPROVED ?x # steps"] by (simp add: steps_of_def step_of_def)
  moreover have "snd (hold file_covers file_grant file_approved dir request (REPLY_ASKED asked)) =
      snd (file_approved ?granted ?x)"
    using assms(2,3) by (simp add: hold_def result_of_def case_prod_beta Let_def)
  ultimately show ?thesis by (simp add: hold_def Let_def)
qed

lemma session_yes_answers_later_holds_witness:
  "let request = asking_request ''s'' ''git.push'' TC_WRITE;
       after_yes = snd (hold file_covers file_grant file_approved [] request
         (REPLY_ASKED \<lparr>ha_answer = ANSWER_SESSION, ha_command = None, ha_by = None\<rparr>))
   in hold_allowed (fst (hold file_covers file_grant file_approved after_yes request REPLY_NOBODY))"
  using session_yes_answers_later_holds [of "[]" "asking_request ''s'' ''git.push'' TC_WRITE"
      "\<lparr>ha_answer = ANSWER_SESSION, ha_command = None, ha_by = None\<rparr>" "asking_request ''s'' ''git.push'' TC_WRITE" "''f''"
      "[]" REPLY_NOBODY]
  by (simp add: asking_request_def hold_grant_subject_def file_covers_def file_read_def dir_read_def empty_grants_def
      covered_by_def Let_def steps_of_def hold_allowed_def hold_result_of_def)

end
