(* ===== verification/Pending.thy ===== *)
theory Pending
  imports HoldService
begin

text \<open>
  Questions written down so that anything can answer them (\<open>packages/core/src/gate/pending.ts\<close>):
  the records of the held calls, the claim files beside them, and the grants an answer writes. An
  answer is several file operations, and the phone, the workspace and a second terminal may all be
  in the middle of one; the steps below are those operations, the relation is any interleaving.
\<close>

section \<open>Held calls\<close>

datatype answer_place = PLACE_MAC | PLACE_PAIRED

datatype approval_route = ROUTE_SESSION | ROUTE_BOTH

record plain_ask =
  pk_summary :: string
  pk_doing :: "string option"
  pk_why :: string
  pk_task :: "string option"

record pending_approval =
  pa_id :: string
  pa_request :: hold_request
  pa_asked_at :: time
  pa_expires_at :: time
  pa_answer :: "hold_answer option"
  pa_answered_at :: "time option"
  pa_answered_by :: "string option"
  pa_route :: "approval_route option"
  pa_told_agent_at :: "time option"
  pa_plain :: "plain_ask option"
  pa_parked_at :: "time option"
  pa_also_on :: "answer_place list"

definition PARKED_HOURS :: int where "PARKED_HOURS = 16"

definition goes_to_workspace :: "pending_approval \<Rightarrow> bool" where
  "goes_to_workspace pending \<longleftrightarrow> pa_route pending \<noteq> Some ROUTE_SESSION"

definition pending_id_for :: "hold_request \<Rightarrow> time \<Rightarrow> string" where
  "pending_id_for request at_time =
     ''apr_'' @ int_radix_text 36 at_time @ ''_'' @ take 8 (hr_fingerprint request)"

text \<open>The files of a home that answering touches.\<close>

record approvals_home =
  ph_records :: "pending_approval record_dir"
  ph_claims :: "string list"
  ph_grants :: file_grants

datatype answer_result = NOT_HELD | ANSWERED pending_approval | ALREADY_ANSWERED pending_approval

section \<open>The operations\<close>

definition pending_read :: "approvals_home \<Rightarrow> string \<Rightarrow> pending_approval option" where
  "pending_read h i = dir_read (ph_records h) i"

definition pending_keep :: "approvals_home \<Rightarrow> pending_approval \<Rightarrow> approvals_home" where
  "pending_keep h p = h\<lparr>ph_records := dir_write (ph_records h) (pa_id p) p\<rparr>"

definition pending_raise ::
  "approvals_home \<Rightarrow> hold_request \<Rightarrow> time \<Rightarrow> int \<Rightarrow> approval_route option \<Rightarrow> pending_approval \<times> approvals_home" where
  "pending_raise h request asked_at timeout_ms route =
     (let p = \<lparr>pa_id = pending_id_for request asked_at, pa_request = request, pa_asked_at = asked_at,
        pa_expires_at = asked_at + timeout_ms, pa_answer = None, pa_answered_at = None, pa_answered_by = None,
        pa_route = route, pa_told_agent_at = None, pa_plain = None, pa_parked_at = None, pa_also_on = []\<rparr>
      in (p, pending_keep h p))"

definition pending_list :: "approvals_home \<Rightarrow> time \<Rightarrow> pending_approval list" where
  "pending_list h moment = sort_key pa_asked_at (filter (\<lambda>p. pa_expires_at p > moment) (dir_all (ph_records h)))"

definition claim_answer :: "approvals_home \<Rightarrow> string \<Rightarrow> bool \<times> approvals_home" where
  "claim_answer h i = (if i \<in> set (ph_claims h) then (False, h) else (True, h\<lparr>ph_claims := i # ph_claims h\<rparr>))"

definition answered_with :: "pending_approval \<Rightarrow> hold_answer \<Rightarrow> string \<Rightarrow> time \<Rightarrow> pending_approval" where
  "answered_with p answer by_whom at_time =
     p\<lparr>pa_answer := Some answer, pa_answered_at := Some at_time, pa_answered_by := Some by_whom\<rparr>"

text \<open>What an answer writes into the grants.\<close>

definition grant_answered :: "approvals_home \<Rightarrow> pending_approval \<Rightarrow> hold_answer \<Rightarrow> approvals_home" where
  "grant_answered h p answer =
     (case answer of
        ANSWER_SESSION \<Rightarrow> h\<lparr>ph_grants := file_grant (ph_grants h) (hold_grant_subject (pa_request p))\<rparr>
      | ANSWER_ONCE \<Rightarrow>
          h\<lparr>ph_grants := allow_once (ph_grants h) (hold_grant_subject (pa_request p)) (pa_expires_at p)\<rparr>
      | _ \<Rightarrow> h)"

definition pending_answer ::
  "approvals_home \<Rightarrow> string \<Rightarrow> hold_answer \<Rightarrow> string \<Rightarrow> time \<Rightarrow> answer_result \<times> approvals_home" where
  "pending_answer h i answer by_whom at_time =
     (case pending_read h i of
        None \<Rightarrow> (NOT_HELD, h)
      | Some p \<Rightarrow>
          if pa_answer p \<noteq> None then (ALREADY_ANSWERED p, h)
          else (let (taken, h1) = claim_answer h i in
            if \<not> taken then (case pending_read h1 i of None \<Rightarrow> (NOT_HELD, h1) | Some q \<Rightarrow> (ALREADY_ANSWERED q, h1))
            else (let answered = answered_with p answer by_whom at_time;
                      h2 = h1\<lparr>ph_records := dir_write (ph_records h1) i answered\<rparr>
                  in (ANSWERED answered, grant_answered h2 p answer))))"

definition pending_clear :: "approvals_home \<Rightarrow> string \<Rightarrow> approvals_home" where
  "pending_clear h i =
     h\<lparr>ph_claims := removeAll i (ph_claims h), ph_records := dir_remove (ph_records h) i\<rparr>"

definition forget_expired :: "approvals_home \<Rightarrow> time \<Rightarrow> approvals_home" where
  "forget_expired h moment =
     foldl (\<lambda>g p. if pa_parked_at p \<noteq> None \<and> pa_expires_at p \<le> moment then pending_clear g (pa_id p) else g)
       h (dir_all (ph_records h))"

definition parked_with :: "pending_approval \<Rightarrow> time \<Rightarrow> time \<Rightarrow> pending_approval" where
  "parked_with p at_time until = p\<lparr>pa_parked_at := Some at_time, pa_expires_at := until\<rparr>"

definition pending_park ::
  "approvals_home \<Rightarrow> string \<Rightarrow> time \<Rightarrow> time \<Rightarrow> pending_approval option \<times> approvals_home" where
  "pending_park h i at_time until =
     (let h1 = forget_expired h at_time in
      case pending_read h1 i of
        None \<Rightarrow> (None, h1)
      | Some p \<Rightarrow> (let parked = parked_with p at_time until in
          (Some parked, h1\<lparr>ph_records := dir_write (ph_records h1) i parked\<rparr>)))"

definition parked_for :: "approvals_home \<Rightarrow> string \<Rightarrow> string \<Rightarrow> time \<Rightarrow> pending_approval option" where
  "parked_for h session fingerprint moment =
     find (\<lambda>p. pa_parked_at p \<noteq> None \<and> pa_expires_at p > moment \<and> hr_session (pa_request p) = session \<and>
       hr_fingerprint (pa_request p) = fingerprint) (dir_all (ph_records h))"

text \<open>
  Polling for an answer: \<open>clock n\<close> is the clock at the \<open>n\<close>th look, \<open>seen n\<close> what the record holds then.
\<close>

partial_function (option) wait_for_answer ::
  "(nat \<Rightarrow> int) \<Rightarrow> (nat \<Rightarrow> pending_approval option) \<Rightarrow> int \<Rightarrow> nat \<Rightarrow> hold_answer option option" where
  "wait_for_answer clock seen deadline n =
     (if clock n < deadline then
        (case seen n of
           None \<Rightarrow> Some None
         | Some p \<Rightarrow> (case pa_answer p of
              Some answer \<Rightarrow> Some (Some answer)
            | None \<Rightarrow> wait_for_answer clock seen deadline (Suc n)))
      else Some None)"

declare wait_for_answer.simps [code]

definition describe_pending :: "pending_approval \<Rightarrow> time \<Rightarrow> string" where
  "describe_pending p moment =
     (let waited = describe_span (max 0 (moment - pa_asked_at p)) IN_SECONDS_THEN_MINUTES_THEN_HOURS;
          what = describe_held_call (hr_operation (pa_request p)) (hr_target (pa_request p));
          parked = (if pa_parked_at p = None then [] else '', parked while it works on'')
      in pa_id p @ ''  '' @ hr_agent (pa_request p) @ '' wants to '' @ what @ ''  ('' @ waited @ '' ago'' @ parked @ '')'')"

section \<open>One file operation at a time\<close>

datatype answer_stage =
    AT_START
  | AT_READ pending_approval
  | AT_BEATEN
  | AT_CLAIMED pending_approval
  | AT_WRITTEN pending_approval
  | AT_DONE answer_result

record answerer =
  aw_id :: string
  aw_answer :: hold_answer
  aw_by :: string
  aw_at :: time
  aw_stage :: answer_stage

definition answer_step :: "approvals_home \<Rightarrow> answerer \<Rightarrow> answerer \<times> approvals_home" where
  "answer_step h a =
     (let i = aw_id a in
      case aw_stage a of
        AT_START \<Rightarrow>
          (case pending_read h i of
             None \<Rightarrow> (a\<lparr>aw_stage := AT_DONE NOT_HELD\<rparr>, h)
           | Some p \<Rightarrow> (a\<lparr>aw_stage := if pa_answer p \<noteq> None then AT_DONE (ALREADY_ANSWERED p) else AT_READ p\<rparr>, h))
      | AT_READ p \<Rightarrow>
          (let (taken, h1) = claim_answer h i in (a\<lparr>aw_stage := if taken then AT_CLAIMED p else AT_BEATEN\<rparr>, h1))
      | AT_BEATEN \<Rightarrow>
          (case pending_read h i of
             None \<Rightarrow> (a\<lparr>aw_stage := AT_DONE NOT_HELD\<rparr>, h)
           | Some q \<Rightarrow> (a\<lparr>aw_stage := AT_DONE (ALREADY_ANSWERED q)\<rparr>, h))
      | AT_CLAIMED p \<Rightarrow>
          (a\<lparr>aw_stage := AT_WRITTEN p\<rparr>,
           h\<lparr>ph_records := dir_write (ph_records h) i (answered_with p (aw_answer a) (aw_by a) (aw_at a))\<rparr>)
      | AT_WRITTEN p \<Rightarrow>
          (a\<lparr>aw_stage := AT_DONE (ANSWERED (answered_with p (aw_answer a) (aw_by a) (aw_at a)))\<rparr>,
           grant_answered h p (aw_answer a))
      | AT_DONE r \<Rightarrow> (a, h))"

fun answer_steps :: "nat \<Rightarrow> approvals_home \<Rightarrow> answerer \<Rightarrow> answerer \<times> approvals_home" where
  "answer_steps 0 h a = (a, h)"
| "answer_steps (Suc n) h a = (let (a', h') = answer_step h a in answer_steps n h' a')"

text \<open>
  Any interleaving of the answers under way, with any other process rewriting a record or clearing a
  call between two of their operations. A clear takes the claim away and then the record, each a file operation
  of its own; \<open>gone\<close> has the calls whose claim was taken away so far.
\<close>

definition clear_claim :: "approvals_home \<Rightarrow> string \<Rightarrow> approvals_home" where
  "clear_claim h i = h\<lparr>ph_claims := removeAll i (ph_claims h)\<rparr>"

definition clear_record :: "approvals_home \<Rightarrow> string \<Rightarrow> approvals_home" where
  "clear_record h i = h\<lparr>ph_records := dir_remove (ph_records h) i\<rparr>"

lemma clear_is_its_steps: "pending_clear h i = clear_record (clear_claim h i) i"
  by (simp add: pending_clear_def clear_claim_def clear_record_def)

inductive answering ::
    "approvals_home \<Rightarrow> answerer list \<Rightarrow> string list \<Rightarrow> approvals_home \<Rightarrow> answerer list \<Rightarrow> bool"
  for h0 :: approvals_home and as0 :: "answerer list" where
  answering_start: "answering h0 as0 [] h0 as0"
| answering_step: "answering h0 as0 gone h as \<Longrightarrow> k < length as \<Longrightarrow> answer_step h (as ! k) = (a', h') \<Longrightarrow>
    answering h0 as0 gone h' (as[k := a'])"
| answering_rewrite: "answering h0 as0 gone h as \<Longrightarrow> answering h0 as0 gone (pending_keep h p) as"
| answering_unclaim: "answering h0 as0 gone h as \<Longrightarrow> answering h0 as0 (i # gone) (clear_claim h i) as"
| answering_unrecord: "answering h0 as0 gone h as \<Longrightarrow> answering h0 as0 gone (clear_record h i) as"

lemma answering_clear: "answering h0 as0 gone h as \<Longrightarrow> answering h0 as0 (i # gone) (pending_clear h i) as"
  unfolding clear_is_its_steps by (intro answering_unrecord answering_unclaim)

section \<open>The first answer wins\<close>

lemma length_filter_update:
  "k < length xs \<Longrightarrow> length (filter p (xs[k := y])) + (if p (xs ! k) then 1 else 0) =
     length (filter p xs) + (if p y then 1 else 0)"
proof (induction xs arbitrary: k)
  case (Cons x xs)
  then show ?case using Cons.IH [of "k - 1"] by (cases k) (auto split: if_splits)
qed simp

text \<open>An answer on its own is its operations in order.\<close>

lemma answer_is_its_steps:
  "let a = \<lparr>aw_id = i, aw_answer = answer, aw_by = by_whom, aw_at = at_time, aw_stage = AT_START\<rparr> in
   answer_steps 4 h a = (let (r, h') = pending_answer h i answer by_whom at_time in (a\<lparr>aw_stage := AT_DONE r\<rparr>, h'))"
  by (simp add: numeral_eq_Suc answer_step_def pending_answer_def Let_def claim_answer_def pending_read_def
      split: option.splits)

definition won :: "answer_stage \<Rightarrow> bool" where
  "won stage = (case stage of AT_CLAIMED p \<Rightarrow> True | AT_WRITTEN p \<Rightarrow> True | AT_DONE (ANSWERED p) \<Rightarrow> True | _ \<Rightarrow> False)"

definition winners :: "string \<Rightarrow> answerer list \<Rightarrow> nat" where
  "winners i as = length (filter (\<lambda>a. aw_id a = i \<and> won (aw_stage a)) as)"

lemma step_keeps_id: "answer_step h a = (a', h') \<Longrightarrow> aw_id a' = aw_id a"
  by (auto simp: answer_step_def Let_def claim_answer_def split: answer_stage.splits option.splits if_splits)

lemma grant_answered_fields [simp]:
  "ph_claims (grant_answered h p answer) = ph_claims h" "ph_records (grant_answered h p answer) = ph_records h"
  by (auto simp: grant_answered_def split: hold_answer.splits)

lemma step_winner:
  assumes "answer_step h a = (a', h')"
  shows "set (ph_claims h) \<subseteq> set (ph_claims h')"
    and "won (aw_stage a') \<Longrightarrow> won (aw_stage a) \<or> (aw_id a \<notin> set (ph_claims h) \<and> aw_id a \<in> set (ph_claims h'))"
  using assms
  by (auto simp: answer_step_def Let_def claim_answer_def won_def split: answer_stage.splits option.splits if_splits)

lemma keep_claims [simp]: "ph_claims (pending_keep h p) = ph_claims h"
  by (simp add: pending_keep_def)

lemma winners_claimed:
  assumes "answering h0 as0 gone h as" and "list_all (\<lambda>a. aw_stage a = AT_START) as0"
  shows "winners i as \<le> (if i \<in> set (ph_claims h) then 1 else 0) + count_list gone i"
  using assms(1)
proof (induction rule: answering.induct)
  case answering_start
  have "filter (\<lambda>a. aw_id a = i \<and> won (aw_stage a)) as0 = []"
    using assms(2) by (auto simp: filter_empty_conv won_def list_all_iff)
  then show ?case by (simp add: winners_def)
next
  case (answering_step gone h as k a' h')
  let ?p = "\<lambda>a. aw_id a = i \<and> won (aw_stage a)"
  have "length (filter ?p (as[k := a'])) + (if ?p (as ! k) then 1 else 0) =
      length (filter ?p as) + (if ?p a' then 1 else 0)"
    by (rule length_filter_update) (rule answering_step.hyps)
  moreover have "?p a' \<Longrightarrow> ?p (as ! k) \<or> (i \<notin> set (ph_claims h) \<and> i \<in> set (ph_claims h'))"
    using step_winner(2) [OF answering_step.hyps(3)] step_keeps_id [OF answering_step.hyps(3)] by auto
  ultimately show ?case
    using answering_step.IH step_winner(1) [OF answering_step.hyps(3)]
    by (auto simp: winners_def split: if_splits)
next
  case (answering_unclaim gone h as j)
  then show ?case by (auto simp: clear_claim_def split: if_splits)
qed (simp_all add: clear_record_def)

definition taken_as_answer :: "answer_stage \<Rightarrow> bool" where
  "taken_as_answer stage = (case stage of AT_DONE (ANSWERED p) \<Rightarrow> True | _ \<Rightarrow> False)"

text \<open>
  Property C30. The first answer wins between clears: however the operations of any number of answers
  interleave, whoever else rewrites the record between two of them and whenever calls are cleared, at most one
  answer to a held call is taken as its answer while it is not cleared, and each time it is cleared at most one
  more.
\<close>

theorem one_answer_is_taken:
  assumes "answering h0 as0 gone h as" and "list_all (\<lambda>a. aw_stage a = AT_START) as0"
  shows "length (filter (\<lambda>a. aw_id a = i \<and> taken_as_answer (aw_stage a)) as) \<le> Suc (count_list gone i)"
proof -
  have "taken_as_answer stage \<Longrightarrow> won stage" for stage
    by (auto simp: taken_as_answer_def won_def split: answer_stage.splits answer_result.splits)
  then have "length (filter (\<lambda>a. aw_id a = i \<and> taken_as_answer (aw_stage a)) as) \<le> winners i as"
    unfolding winners_def by (induction as) auto
  with winners_claimed [OF assms, of i] show ?thesis by (simp split: if_splits)
qed

text \<open>Answers one after another: the first stands, and a later one is told it.\<close>

lemma later_answer_is_told:
  assumes "dir_sound (ph_records h)" "pending_answer h i answer by_whom at_time = (ANSWERED p, h')"
  shows "pa_answer p = Some answer" "pending_answer h' i other by_other at_other = (ALREADY_ANSWERED p, h')"
proof -
  obtain q where q: "pending_read h i = Some q" "pa_answer q = None" "i \<notin> set (ph_claims h)"
    "p = answered_with q answer by_whom at_time"
    "ph_records h' = dir_write (ph_records h) i p"
    using assms(2) by (auto simp: pending_answer_def claim_answer_def Let_def split: option.splits if_splits)
  show "pa_answer p = Some answer" using q by (simp add: answered_with_def)
  have "pending_read h' i = Some p" using assms(1) q by (simp add: pending_read_def record_dir.read_own)
  then show "pending_answer h' i other by_other at_other = (ALREADY_ANSWERED p, h')"
    using q by (simp add: pending_answer_def answered_with_def)
qed

section \<open>Waiting for an answer\<close>

lemma wait_reaches:
  "clock m \<ge> deadline \<Longrightarrow> n \<le> m \<Longrightarrow>
     \<exists>r. wait_for_answer clock seen deadline n = Some r \<and>
       (\<forall>answer. r = Some answer \<longrightarrow> (\<exists>k p. clock k < deadline \<and> seen k = Some p \<and> pa_answer p = Some answer))"
proof (induction "m - n" arbitrary: n)
  case 0
  then show ?case by (subst wait_for_answer.simps) simp
next
  case (Suc d)
  note ih = Suc.hyps(1) [of "Suc n"]
  show ?case
  proof (cases "clock n < deadline \<and> (\<exists>p. seen n = Some p \<and> pa_answer p = None)")
    case True
    then have "wait_for_answer clock seen deadline n = wait_for_answer clock seen deadline (Suc n)"
      by (subst wait_for_answer.simps) auto
    then show ?thesis using ih Suc by simp
  next
    case False
    then show ?thesis
      by (subst wait_for_answer.simps) (auto split: option.splits)
  qed
qed

text \<open>
  Waiting for an answer ends: once the clock reaches the deadline at some look, the wait
  returns, and an answer it returns is one the record held at a look before the deadline.
\<close>

theorem wait_for_answer_returns:
  assumes "clock m \<ge> deadline"
  shows "\<exists>r. wait_for_answer clock seen deadline 0 = Some r \<and>
    (case r of None \<Rightarrow> True | Some answer \<Rightarrow>
       \<exists>k p. clock k < deadline \<and> seen k = Some p \<and> pa_answer p = Some answer)"
  using wait_reaches [of deadline clock m 0 seen] assms by (fastforce split: option.splits)

lemma wait_for_answer_returns_witness:
  "\<exists>r. wait_for_answer (\<lambda>n. 400 * int n) (\<lambda>_. None) 1000 0 = Some r"
  using wait_for_answer_returns [of 1000 "\<lambda>n. 400 * int n" 3 "\<lambda>_. None"] by auto

section \<open>Where an answer goes wrong\<close>

definition asked_question :: pending_approval where
  "asked_question = fst (pending_raise \<lparr>ph_records = [], ph_claims = [], ph_grants = []\<rparr>
     (asking_request ''s'' ''git.push'' TC_WRITE) 0 60 None)"

definition asking_home :: approvals_home where
  "asking_home = \<lparr>ph_records = [(pa_id asked_question, Some asked_question)], ph_claims = [], ph_grants = []\<rparr>"

definition answering_by :: "string \<Rightarrow> hold_answer \<Rightarrow> answerer" where
  "answering_by by_whom answer =
     \<lparr>aw_id = pa_id asked_question, aw_answer = answer, aw_by = by_whom, aw_at = 5, aw_stage = AT_START\<rparr>"

lemma answering_alone:
  "answering h0 as0 gone h as \<Longrightarrow> k < length as \<Longrightarrow> answer_steps n h (as ! k) = (a', h') \<Longrightarrow>
     answering h0 as0 gone h' (as[k := a'])"
proof (induction n arbitrary: h as)
  case (Suc n)
  obtain a1 h1 where one: "answer_step h (as ! k) = (a1, h1)" by fastforce
  have "answering h0 as0 gone h1 (as[k := a1])" by (rule answering_step) (use Suc.prems one in auto)
  from Suc.IH [OF this] show ?case using Suc.prems one by simp
qed (metis answer_steps.simps(1) list_update_id prod.inject)

theorem one_answer_is_taken_witness:
  "\<exists>h as p. answering asking_home [answering_by ''phone'' ANSWER_DENY, answering_by ''terminal'' ANSWER_ONCE] [] h as \<and>
     aw_stage (as ! 0) = AT_DONE (ANSWERED p) \<and>
     length (filter (\<lambda>a. aw_id a = pa_id asked_question \<and> taken_as_answer (aw_stage a)) as) \<le> 1"
proof -
  let ?a = "answering_by ''phone'' ANSWER_DENY" and ?b = "answering_by ''terminal'' ANSWER_ONCE"
  have none: "pa_answer asked_question = None" by (simp add: asked_question_def pending_raise_def Let_def)
  obtain p h where p: "pending_answer asking_home (pa_id asked_question) ANSWER_DENY ''phone'' 5 = (ANSWERED p, h)"
    using none by (auto simp: pending_answer_def asking_home_def pending_read_def dir_read_def claim_answer_def Let_def)
  have "answer_steps 4 asking_home ?a = (?a\<lparr>aw_stage := AT_DONE (ANSWERED p)\<rparr>, h)"
    using answer_is_its_steps [of "pa_id asked_question" ANSWER_DENY "''phone''" 5 asking_home] p
    by (simp add: answering_by_def)
  with answering_alone [OF answering_start, of 0 "[?a, ?b]" 4 asking_home]
  have run: "answering asking_home [?a, ?b] [] h [?a\<lparr>aw_stage := AT_DONE (ANSWERED p)\<rparr>, ?b]" by simp
  have "list_all (\<lambda>a. aw_stage a = AT_START) [?a, ?b]" by (simp add: answering_by_def)
  from one_answer_is_taken [OF run this, of "pa_id asked_question"]
  have "length (filter (\<lambda>a. aw_id a = pa_id asked_question \<and> taken_as_answer (aw_stage a))
      [?a\<lparr>aw_stage := AT_DONE (ANSWERED p)\<rparr>, ?b]) \<le> 1" by simp
  with run show ?thesis by (intro exI conjI) (assumption, simp_all)
qed

text \<open>
  The prompt clears a call, its claim with its record, as soon as it has its answer. Somebody
  who read the question before and answers after is then the first again: both are told theirs was taken, the
  question is on disk once more, and a yes for the session is granted though the call was refused.
\<close>

definition slow_phone :: "answerer \<times> approvals_home" where
  "slow_phone = answer_step asking_home (answering_by ''phone'' ANSWER_SESSION)"

definition quick_terminal :: "answerer \<times> approvals_home" where
  "quick_terminal = answer_steps 4 (snd slow_phone) (answering_by ''terminal'' ANSWER_DENY)"

definition phone_after :: "answerer \<times> approvals_home" where
  "phone_after = answer_steps 3 (pending_clear (snd quick_terminal) (pa_id asked_question)) (fst slow_phone)"

lemma both_told_taken:
  "taken_as_answer (aw_stage (fst quick_terminal)) \<and> taken_as_answer (aw_stage (fst phone_after)) \<and>
   file_covers (ph_grants (snd phone_after)) (hold_grant_subject (pa_request asked_question))"
  by code_simp

theorem answer_after_a_clear_is_taken:
  "\<exists>h as. answering asking_home [answering_by ''phone'' ANSWER_SESSION, answering_by ''terminal'' ANSWER_DENY]
      [pa_id asked_question] h as \<and>
    list_all (\<lambda>a. taken_as_answer (aw_stage a)) as \<and>
    file_covers (ph_grants h) (hold_grant_subject (pa_request asked_question))"
proof -
  let ?a = "answering_by ''phone'' ANSWER_SESSION" and ?b = "answering_by ''terminal'' ANSWER_DENY"
  obtain a1 h1 b h2 a2 h3 where runs: "slow_phone = (a1, h1)" "quick_terminal = (b, h2)" "phone_after = (a2, h3)"
    by (metis prod.exhaust)
  then have steps: "answer_steps 4 h1 ?b = (b, h2)" "answer_steps 3 (pending_clear h2 (pa_id asked_question)) a1 = (a2, h3)"
    by (metis fst_conv snd_conv quick_terminal_def phone_after_def)+
  have "answering asking_home [?a, ?b] [] h1 [a1, ?b]"
    using answering_step [OF answering_start, of 0 "[?a, ?b]" asking_home a1 h1] runs(1) by (simp add: slow_phone_def)
  then have "answering asking_home [?a, ?b] [] h2 [a1, b]"
    using answering_alone [of asking_home "[?a, ?b]" "[]" h1 "[a1, ?b]" 1 4 b h2] steps(1) by simp
  then have "answering asking_home [?a, ?b] [pa_id asked_question] (pending_clear h2 (pa_id asked_question)) [a1, b]"
    by (rule answering_clear)
  then have "answering asking_home [?a, ?b] [pa_id asked_question] h3 [a2, b]"
    using answering_alone [of asking_home "[?a, ?b]" "[pa_id asked_question]" "pending_clear h2 (pa_id asked_question)" "[a1, b]" 0 3 a2 h3]
      steps(2) by simp
  moreover have "taken_as_answer (aw_stage b)" "taken_as_answer (aw_stage a2)"
    "file_covers (ph_grants h3) (hold_grant_subject (pa_request asked_question))"
    using both_told_taken unfolding runs by simp_all
  ultimately show ?thesis by (intro exI [of _ h3] exI [of _ "[a2, b]"]) simp
qed

text \<open>
  A question past its deadline is not answerable, says the list of what waits; an answer to it by its
  name is taken all the same, and one for the session is granted for its rest.
\<close>

theorem expired_question_is_answered:
  assumes "dir_sound (ph_records h)" "pending_read h i = Some p" "pa_answer p = None" "i \<notin> set (ph_claims h)"
    and "pa_expires_at p \<le> at_time"
  shows "p \<notin> set (pending_list h at_time)"
    and "\<exists>q h'. pending_answer h i ANSWER_SESSION by_whom at_time = (ANSWERED q, h') \<and>
      ph_grants h' = file_grant (ph_grants h) (hold_grant_subject (pa_request p))"
  using assms
  by (auto simp: pending_list_def pending_answer_def claim_answer_def Let_def grant_answered_def pending_read_def)

text \<open>
  Keeping a question for later reads its record and writes it back. An answer given between is
  written over, and as its claim stands no later answer is ever taken: each is told the question
  was answered, by a record with no answer.
\<close>

theorem parking_over_an_answer_loses_it:
  assumes "dir_sound (ph_records h)" "pending_read h i = Some p" "pa_answer p = None" "pa_id p = i"
    and "pending_answer h i answer by_whom at_time = (ANSWERED q, h1)"
    and h2_def: "h2 = pending_keep h1 (parked_with p at_time until)"
  shows "pending_read h2 i = Some (parked_with p at_time until)" "pa_answer (parked_with p at_time until) = None"
    and "pending_answer h2 i other by_other at_other = (ALREADY_ANSWERED (parked_with p at_time until), h2)"
proof -
  have h1: "ph_records h1 = dir_write (ph_records h) i q" "i \<in> set (ph_claims h1)"
    using assms(2-5) by (auto simp: pending_answer_def claim_answer_def Let_def split: if_splits)
  have "dir_sound (ph_records h1)" using h1 assms(1) by (simp add: dir_sound_write)
  then show read: "pending_read h2 i = Some (parked_with p at_time until)"
    using assms(4) by (simp add: h2_def pending_read_def pending_keep_def parked_with_def record_dir.read_own)
  show none: "pa_answer (parked_with p at_time until) = None" using assms(3) by (simp add: parked_with_def)
  have "i \<in> set (ph_claims h2)" using h1 by (simp add: h2_def)
  then show "pending_answer h2 i other by_other at_other = (ALREADY_ANSWERED (parked_with p at_time until), h2)"
    using read none by (simp add: pending_answer_def claim_answer_def)
qed

end
