(* ===== verification/RoutedPrompt.thy ===== *)
theory RoutedPrompt
  imports Pending
begin

text \<open>
  A held call put to a person by every route at once
  (\<open>packages/core/src/gate/routed-prompt.ts\<close>): the record somebody elsewhere may answer and the
  terminal beside it. What happens while the call is held is a list of events in order of time: the
  looks of the wait, the terminal's return, and answers given elsewhere.
\<close>

section \<open>The routes\<close>

datatype ask_event =
    EV_LOOK time
  | EV_TERMINAL "hold_asked option" time
  | EV_ELSEWHERE hold_answer string time

definition TERMINAL_NAME :: string where "TERMINAL_NAME = ''the terminal''"

text \<open>
  The first real answer of the two routes; \<open>None\<close> inside when both have given up, \<open>None\<close> outside while
  the call is still held after the events. \<open>waiting\<close> and \<open>terminal\<close> are the routes still open.
\<close>

fun first_answer ::
  "string \<Rightarrow> time \<Rightarrow> bool \<Rightarrow> bool \<Rightarrow> approvals_home \<Rightarrow> ask_event list \<Rightarrow> (hold_asked option \<times> approvals_home) option" where
  "first_answer i deadline waiting terminal h [] = (if waiting \<or> terminal then None else Some (None, h))"
| "first_answer i deadline waiting terminal h (e # es) =
     (if \<not> waiting \<and> \<not> terminal then Some (None, h)
      else case e of
        EV_LOOK now \<Rightarrow>
          if \<not> waiting then first_answer i deadline waiting terminal h es
          else if now \<ge> deadline then first_answer i deadline False terminal h es
          else (case pending_read h i of
                  None \<Rightarrow> first_answer i deadline False terminal h es
                | Some p \<Rightarrow> (case pa_answer p of
                    None \<Rightarrow> first_answer i deadline waiting terminal h es
                  | Some answer \<Rightarrow> Some (Some \<lparr>ha_answer = answer, ha_command = None, ha_by = None\<rparr>, h)))
      | EV_TERMINAL reply now \<Rightarrow>
          if \<not> terminal then first_answer i deadline waiting terminal h es
          else (case reply of
                  None \<Rightarrow> first_answer i deadline waiting False h es
                | Some asked \<Rightarrow> Some (Some asked, snd (pending_answer h i (ha_answer asked) TERMINAL_NAME now)))
      | EV_ELSEWHERE answer by_whom at_time \<Rightarrow>
          first_answer i deadline waiting terminal (snd (pending_answer h i answer by_whom at_time)) es)"

section \<open>Asking\<close>

definition from_parked :: "approvals_home \<Rightarrow> hold_request \<Rightarrow> time \<Rightarrow> (hold_reply \<times> approvals_home) option" where
  "from_parked h request moment =
     (case parked_for h (hr_session request) (hr_fingerprint request) moment of
        None \<Rightarrow> None
      | Some parked \<Rightarrow>
          (case pa_answer parked of
             None \<Rightarrow> Some (REPLY_UNANSWERED HELD_PARKED (Some (pa_id parked)), h)
           | Some answer \<Rightarrow>
               Some (REPLY_ASKED \<lparr>ha_answer = answer, ha_command = None, ha_by = pa_answered_by parked\<rparr>,
                 pending_clear h (pa_id parked))))"

definition settled_reply ::
  "int option \<Rightarrow> string \<Rightarrow> time \<Rightarrow> hold_asked option \<Rightarrow> approvals_home \<Rightarrow> hold_reply \<times> approvals_home" where
  "settled_reply park_ms i ended answer h =
     (case (answer, park_ms) of
        (None, Some ms) \<Rightarrow> (REPLY_UNANSWERED HELD_PARKED (Some i), snd (pending_park h i ended (ended + ms)))
      | (None, None) \<Rightarrow> (REPLY_UNANSWERED HELD_TIMED_OUT None, pending_clear h i)
      | (Some asked, _) \<Rightarrow>
          (REPLY_ASKED (case Option.bind (pending_read h i) pa_answered_by of
               None \<Rightarrow> asked | Some by_whom \<Rightarrow> asked\<lparr>ha_by := Some by_whom\<rparr>),
           pending_clear h i))"

text \<open>
  \<open>asked_at\<close> is the clock when the call is held, \<open>started\<close> when the wait begins and \<open>ended\<close> when the
  routes have settled.
\<close>

definition routed_ask ::
  "bool \<Rightarrow> approval_route option \<Rightarrow> int option \<Rightarrow> approvals_home \<Rightarrow> hold_request \<Rightarrow> int \<Rightarrow> time \<Rightarrow> time \<Rightarrow> time \<Rightarrow> ask_event list \<Rightarrow>
     (hold_reply \<times> approvals_home) option" where
  "routed_ask has_terminal route park_ms h request timeout_ms asked_at started ended events =
     (case from_parked h request asked_at of
        Some reply \<Rightarrow> Some reply
      | None \<Rightarrow>
          (let (pending, h1) = pending_raise h request asked_at timeout_ms route; i = pa_id pending in
           case first_answer i (started + timeout_ms) True has_terminal h1 events of
             None \<Rightarrow> None
           | Some (answer, h2) \<Rightarrow> Some (settled_reply park_ms i ended answer h2)))"

definition announced :: "string \<Rightarrow> hold_request \<Rightarrow> int \<Rightarrow> string" where
  "announced i request timeout_ms =
     (let what = describe_held_call (hr_operation request) (hr_target request) in
      ''held '' @ what @ '' for a person ('' @ int_text (round_div timeout_ms SECOND_MS) @ ''s): memnox approve '' @ i @
      ''  |  memnox deny '' @ i)"

section \<open>An answer is a person's\<close>

text \<open>Whoever answers, the record holds an answer only once one was given elsewhere.\<close>

fun given_by :: "ask_event \<Rightarrow> hold_answer option" where
  "given_by (EV_LOOK now) = None"
| "given_by (EV_TERMINAL reply now) = map_option ha_answer reply"
| "given_by (EV_ELSEWHERE answer by_whom at_time) = Some answer"

definition recorded_within :: "approvals_home \<Rightarrow> string \<Rightarrow> hold_answer set \<Rightarrow> bool" where
  "recorded_within h i answers \<longleftrightarrow>
     dir_sound (ph_records h) \<and>
     (case pending_read h i of None \<Rightarrow> True | Some p \<Rightarrow> (case pa_answer p of None \<Rightarrow> True | Some a \<Rightarrow> a \<in> answers))"

lemma recorded_answer:
  "recorded_within h i answers \<Longrightarrow> recorded_within (snd (pending_answer h i answer by_whom at_time)) i (insert answer answers)"
  by (auto simp: recorded_within_def pending_answer_def pending_read_def claim_answer_def Let_def answered_with_def
      dir_sound_write record_dir.read_own split: option.splits)

lemma recorded_more: "recorded_within h i answers \<Longrightarrow> answers \<subseteq> more_answers \<Longrightarrow> recorded_within h i more_answers"
  by (auto simp: recorded_within_def split: option.splits)

lemma first_answer_given:
  "recorded_within h i answers \<Longrightarrow> first_answer i deadline waiting terminal h es = Some (Some asked, h') \<Longrightarrow>
     ha_answer asked \<in> answers \<union> {a. \<exists>e \<in> set es. given_by e = Some a}"
proof (induction es arbitrary: waiting terminal h answers)
  case (Cons e es)
  have open_route: "waiting \<or> terminal" using Cons.prems(2) by (auto split: if_splits)
  show ?case
  proof (cases e)
    case (EV_LOOK now)
    have rest: ?thesis if "first_answer i deadline w terminal h es = Some (Some asked, h')" for w
      using Cons.IH [OF Cons.prems(1) that] by auto
    show ?thesis using Cons.prems EV_LOOK open_route rest
      by (auto simp: recorded_within_def split: if_splits option.splits)
  next
    case (EV_TERMINAL reply now)
    have rest: ?thesis if "first_answer i deadline waiting t h es = Some (Some asked, h')" for t
      using Cons.IH [OF Cons.prems(1) that] by auto
    show ?thesis using Cons.prems(2) EV_TERMINAL open_route rest by (auto split: if_splits option.splits)
  next
    case (EV_ELSEWHERE answer by_whom at_time)
    with Cons.prems(2) open_route
    have "first_answer i deadline waiting terminal (snd (pending_answer h i answer by_whom at_time)) es =
        Some (Some asked, h')" by (auto split: if_splits)
    from Cons.IH [OF recorded_answer [OF Cons.prems(1)] this] EV_ELSEWHERE show ?thesis by auto
  qed
qed (auto split: if_splits)

lemma settled_answer:
  "fst (settled_reply park_ms i ended answer h) = REPLY_ASKED asked \<Longrightarrow>
     \<exists>given. answer = Some given \<and> ha_answer asked = ha_answer given"
  by (auto simp: settled_reply_def split: option.splits)

text \<open>
  Nobody's silence is a yes: a held call that was not kept from before comes back with
  an answer only if the terminal or somebody elsewhere gave that very answer while it was held.
\<close>

theorem reply_was_given:
  assumes "dir_sound (ph_records h)" "from_parked h request asked_at = None"
    and "routed_ask has_terminal route park_ms h request timeout_ms asked_at started ended events =
      Some (REPLY_ASKED asked, h')"
  shows "\<exists>e \<in> set events. given_by e = Some (ha_answer asked)"
proof -
  let ?p = "fst (pending_raise h request asked_at timeout_ms route)"
  let ?h1 = "pending_keep h ?p"
  obtain answer h2 where first: "first_answer (pa_id ?p) (started + timeout_ms) True has_terminal ?h1 events = Some (answer, h2)"
    and settled: "settled_reply park_ms (pa_id ?p) ended answer h2 = (REPLY_ASKED asked, h')"
    using assms(2,3) by (auto simp: routed_ask_def pending_raise_def Let_def split: option.splits)
  then obtain given where given: "answer = Some given" "ha_answer asked = ha_answer given"
    using settled_answer [of park_ms "pa_id ?p" ended answer h2 asked] by auto
  have "pa_answer ?p = None" by (simp add: pending_raise_def Let_def)
  then have "recorded_within ?h1 (pa_id ?p) {}"
    using assms(1) by (simp add: recorded_within_def pending_keep_def pending_read_def dir_sound_write record_dir.read_own)
  then show ?thesis using first_answer_given first given by fastforce
qed

fun yes :: "hold_answer \<Rightarrow> bool" where
  "yes ANSWER_ONCE \<longleftrightarrow> True"
| "yes ANSWER_SESSION \<longleftrightarrow> True"
| "yes answer \<longleftrightarrow> False"

lemma says_yes_iff: "says_yes reply \<longleftrightarrow> (\<exists>asked. reply = REPLY_ASKED asked \<and> yes (ha_answer asked))"
proof (cases reply)
  case (REPLY_ASKED asked)
  then show ?thesis by (cases "ha_answer asked") auto
qed auto

lemma routed_reply_proper:
  "routed_ask has_terminal route park_ms h request timeout_ms asked_at started ended events = Some (reply, h') \<Longrightarrow>
     proper_reply reply"
proof (cases "from_parked h request asked_at")
  case None
  have "proper_reply (fst (settled_reply park_ms i ended answer g))" for i answer g
    by (auto simp: settled_reply_def split: option.splits)
  with None show "routed_ask has_terminal route park_ms h request timeout_ms asked_at started ended events = Some (reply, h') \<Longrightarrow>
      proper_reply reply"
    by (auto simp: routed_ask_def Let_def split: option.splits prod.splits) (metis fst_conv)+
next
  case (Some r)
  then show "routed_ask has_terminal route park_ms h request timeout_ms asked_at started ended events = Some (reply, h') \<Longrightarrow>
      proper_reply reply"
    by (auto simp: routed_ask_def from_parked_def split: option.splits)
qed

text \<open>
  Property C29. An agent is not let on by anything but a yes: a call held with a terminal and the
  records of its home is allowed only if a grant covers it, a question kept from before was
  answered yes, or a yes was given while it was held.
\<close>

theorem held_call_needs_a_yes:
  assumes "dir_sound (ph_records h)"
    and "routed_ask has_terminal route park_ms h request timeout_ms asked_at started ended events = Some (reply, h')"
    and "hold_allowed (fst (hold covers grant approved s request reply))"
  shows "covers s (hold_grant_subject request) \<or>
    (\<exists>p a. parked_for h (hr_session request) (hr_fingerprint request) asked_at = Some p \<and> pa_answer p = Some a \<and> yes a) \<or>
    (\<exists>e \<in> set events. \<exists>a. given_by e = Some a \<and> yes a)"
proof (cases "covers s (hold_grant_subject request)")
  case False
  then have "says_yes reply"
    using hold_allowed_iff [OF routed_reply_proper [OF assms(2)], of covers grant approved s request] assms(3) by simp
  then obtain asked where asked: "reply = REPLY_ASKED asked" "yes (ha_answer asked)" using says_yes_iff by blast
  show ?thesis
  proof (cases "from_parked h request asked_at")
    case None
    have "\<exists>e \<in> set events. given_by e = Some (ha_answer asked)"
      by (rule reply_was_given [OF assms(1) None]) (use assms(2) asked in simp)
    then show ?thesis using asked(2) by blast
  next
    case (Some r)
    then have "r = (reply, h')" using assms(2) by (simp add: routed_ask_def)
    then show ?thesis using Some asked by (auto simp: from_parked_def split: option.splits)
  qed
qed simp

section \<open>A held call ends\<close>

lemma first_answer_ends:
  assumes "waiting \<Longrightarrow> \<exists>now. EV_LOOK now \<in> set es \<and> deadline \<le> now"
    and "terminal \<Longrightarrow> \<exists>reply now. EV_TERMINAL reply now \<in> set es"
  shows "first_answer i deadline waiting terminal h es \<noteq> None"
  using assms
proof (induction es arbitrary: waiting terminal h)
  case (Cons e es)
  have ended: ?case if "\<not> waiting" "\<not> terminal" using that by simp
  show ?case
  proof (cases e)
    case (EV_LOOK now)
    have "first_answer i deadline False terminal h es \<noteq> None"
      using Cons.IH [of False terminal h] Cons.prems(2) EV_LOOK by auto
    moreover have "first_answer i deadline waiting terminal h es \<noteq> None" if "\<not> waiting \<or> now < deadline"
    proof -
      have "waiting \<Longrightarrow> \<exists>later. EV_LOOK later \<in> set es \<and> deadline \<le> later" using Cons.prems(1) EV_LOOK that by force
      then show ?thesis using Cons.IH [of waiting terminal h] Cons.prems(2) EV_LOOK by auto
    qed
    ultimately show ?thesis using EV_LOOK by (auto split: option.splits)
  next
    case (EV_TERMINAL reply now)
    have "first_answer i deadline waiting False h es \<noteq> None"
      using Cons.IH [of waiting False h] Cons.prems(1) EV_TERMINAL by auto
    then show ?thesis using EV_TERMINAL by (cases terminal) (auto split: option.splits)
  next
    case (EV_ELSEWHERE answer by_whom at_time)
    then show ?thesis using Cons.IH [of waiting terminal] Cons.prems by auto
  qed
qed auto

lemma cleared_is_gone: "dir_sound (ph_records h) \<Longrightarrow> pending_read (pending_clear h i) i = None"
  by (simp add: pending_clear_def pending_read_def record_dir.read_remove)

lemma sound_answer: "dir_sound (ph_records h) \<Longrightarrow> dir_sound (ph_records (snd (pending_answer h i answer by_whom at_time)))"
  by (auto simp: pending_answer_def claim_answer_def Let_def dir_sound_write split: option.splits)

lemma sound_first_answer:
  "dir_sound (ph_records h) \<Longrightarrow> first_answer i deadline waiting terminal h es = Some (answer, h') \<Longrightarrow>
     dir_sound (ph_records h')"
proof (induction es arbitrary: waiting terminal h)
  case (Cons e es)
  show ?case
  proof (cases e)
    case (EV_ELSEWHERE answer by_whom at_time)
    then show ?thesis using Cons.IH [OF sound_answer [OF Cons.prems(1)]] Cons.prems by (auto split: if_splits)
  qed (use Cons in \<open>auto simp: sound_answer split: if_splits option.splits\<close>)
qed (auto split: if_splits)

text \<open>
  A held call ends: once the wait has looked at the deadline and the terminal, where there
  is one, has returned, the call has its reply, and unless its question is kept for later the
  question is gone, so nobody answers it for a command long gone.
\<close>

theorem held_call_ends:
  assumes "dir_sound (ph_records h)" "from_parked h request asked_at = None"
    and "EV_LOOK now \<in> set events" "started + timeout_ms \<le> now"
    and "has_terminal \<longrightarrow> (\<exists>reply at_time. EV_TERMINAL reply at_time \<in> set events)"
  shows "\<exists>reply h'. routed_ask has_terminal route park_ms h request timeout_ms asked_at started ended events = Some (reply, h') \<and>
    (pending_read h' (pending_id_for request asked_at) = None \<or>
     reply = REPLY_UNANSWERED HELD_PARKED (Some (pending_id_for request asked_at)))"
proof -
  obtain p h1 where raised: "pending_raise h request asked_at timeout_ms route = (p, h1)" by fastforce
  then have i: "pa_id p = pending_id_for request asked_at" and h1: "h1 = pending_keep h p"
    by (auto simp: pending_raise_def Let_def)
  obtain answer h2 where first: "first_answer (pa_id p) (started + timeout_ms) True has_terminal h1 events = Some (answer, h2)"
    using first_answer_ends [of True events "started + timeout_ms" has_terminal "pa_id p" h1] assms(3-5) by auto
  obtain reply h' where settled: "settled_reply park_ms (pa_id p) ended answer h2 = (reply, h')" by fastforce
  have "dir_sound (ph_records h1)" using assms(1) by (simp add: h1 pending_keep_def dir_sound_write)
  then have "dir_sound (ph_records h2)" using sound_first_answer first by blast
  then have "pending_read h' (pa_id p) = None \<or> reply = REPLY_UNANSWERED HELD_PARKED (Some (pa_id p))"
    using settled by (auto simp: settled_reply_def cleared_is_gone split: option.splits)
  moreover have "routed_ask has_terminal route park_ms h request timeout_ms asked_at started ended events = Some (reply, h')"
    using assms(2) first settled raised by (simp add: routed_ask_def)
  ultimately show ?thesis unfolding i by blast
qed

section \<open>Runs\<close>

definition nothing_held :: approvals_home where
  "nothing_held = \<lparr>ph_records = [], ph_claims = [], ph_grants = []\<rparr>"

definition held_request :: hold_request where
  "held_request = asking_request ''s'' ''git.push'' TC_WRITE"

definition saying :: "hold_answer \<Rightarrow> hold_asked" where
  "saying answer = \<lparr>ha_answer = answer, ha_command = None, ha_by = None\<rparr>"

lemma terminal_yes_run:
  "fst (the (routed_ask True None None nothing_held held_request 60 0 0 9 [EV_LOOK 1, EV_TERMINAL (Some (saying ANSWER_ONCE)) 5])) =
     REPLY_ASKED \<lparr>ha_answer = ANSWER_ONCE, ha_command = None, ha_by = Some TERMINAL_NAME\<rparr>"
  by code_simp

lemma nothing_parked: "from_parked nothing_held held_request 0 = None"
  by code_simp

lemma reply_was_given_witness:
  "\<exists>e \<in> {EV_LOOK 1, EV_TERMINAL (Some (saying ANSWER_ONCE)) 5}. given_by e = Some ANSWER_ONCE"
proof -
  let ?run = "routed_ask True None None nothing_held held_request 60 0 0 9 [EV_LOOK 1, EV_TERMINAL (Some (saying ANSWER_ONCE)) 5]"
  have "?run \<noteq> None" by code_simp
  then obtain h' where "?run = Some (REPLY_ASKED \<lparr>ha_answer = ANSWER_ONCE, ha_command = None, ha_by = Some TERMINAL_NAME\<rparr>, h')"
    using terminal_yes_run by force
  from reply_was_given [OF _ nothing_parked this] show ?thesis by (simp add: nothing_held_def)
qed

lemma held_call_needs_a_yes_witness:
  "\<exists>e \<in> {EV_LOOK 1, EV_TERMINAL (Some (saying ANSWER_ONCE)) 5}. \<exists>a. given_by e = Some a \<and> yes a"
proof -
  let ?run = "routed_ask True None None nothing_held held_request 60 0 0 9 [EV_LOOK 1, EV_TERMINAL (Some (saying ANSWER_ONCE)) 5]"
  let ?reply = "REPLY_ASKED \<lparr>ha_answer = ANSWER_ONCE, ha_command = None, ha_by = Some TERMINAL_NAME\<rparr>"
  have "?run \<noteq> None" by code_simp
  then obtain h' where run: "?run = Some (?reply, h')" using terminal_yes_run by force
  have "hold_allowed (fst (hold file_covers file_grant file_approved [] held_request ?reply))" by code_simp
  from held_call_needs_a_yes [OF _ run this]
  have "file_covers [] (hold_grant_subject held_request) \<or>
      (\<exists>p a. parked_for nothing_held (hr_session held_request) (hr_fingerprint held_request) 0 = Some p \<and> pa_answer p = Some a \<and> yes a) \<or>
      (\<exists>e \<in> set [EV_LOOK 1, EV_TERMINAL (Some (saying ANSWER_ONCE)) 5]. \<exists>a. given_by e = Some a \<and> yes a)"
    by (simp add: nothing_held_def)
  moreover have "\<not> file_covers [] (hold_grant_subject held_request)" by code_simp
  moreover have "parked_for nothing_held (hr_session held_request) (hr_fingerprint held_request) 0 = None" by code_simp
  ultimately show ?thesis by simp
qed

lemma held_call_ends_witness:
  "\<exists>reply h'. routed_ask False None None nothing_held held_request 60 0 0 70 [EV_LOOK 1, EV_LOOK 61] = Some (reply, h') \<and>
    (pending_read h' (pending_id_for held_request 0) = None \<or>
     reply = REPLY_UNANSWERED HELD_PARKED (Some (pending_id_for held_request 0)))"
  by (rule held_call_ends [of _ _ _ 61]) (simp_all add: nothing_parked, simp add: nothing_held_def)

text \<open>
  The first answer does not win at a terminal: a refusal recorded from a phone is in the
  record, and the terminal's yes after it, before the wait looks again, lets the call through, told
  as the phone's.
\<close>

theorem terminal_overrides_recorded_refusal:
  "let events = [EV_LOOK 1, EV_ELSEWHERE ANSWER_DENY ''phone'' 2, EV_TERMINAL (Some (saying ANSWER_ONCE)) 3];
       reply = fst (the (routed_ask True None None nothing_held held_request 60 0 0 9 events))
   in reply = REPLY_ASKED \<lparr>ha_answer = ANSWER_ONCE, ha_command = None, ha_by = Some ''phone''\<rparr> \<and>
      hold_allowed (fst (hold file_covers file_grant file_approved [] held_request reply))"
  by code_simp

end
