(* ===== verification/ChatReply.thy ===== *)
theory ChatReply
  imports RoutedPrompt
begin

text \<open>
  A held question in the words of a session (\<open>packages/core/src/gate/chat-approval.ts\<close>,
  \<open>gate/plain-ask.ts\<close>): how it is worded, what the person's typed reply is read as, and which
  question a yes is spent on. The digest and the redaction of secrets are arguments.
\<close>

section \<open>The question in plain words\<close>

definition PRODUCT_NAMES :: "(string \<times> string) list" where
  "PRODUCT_NAMES =
     [(''claude-code'', ''Claude Code''), (''claude-desktop'', ''Claude Desktop''), (''codex-cli'', ''Codex''),
      (''cursor'', ''Cursor''), (''cline'', ''Cline''), (''vscode'', ''VS Code''), (''gemini-cli'', ''Gemini CLI''),
      (''windsurf'', ''Windsurf''), (''hermes'', ''Hermes''), (''openclaw'', ''OpenClaw''), (''ruflo'', ''Ruflo''),
      (''github-actions'', ''GitHub Actions'')]"

definition agent_shown :: "string \<Rightarrow> string" where
  "agent_shown agent =
     (let bare = (if starts_with ''agt_'' agent then drop 4 agent else agent) in
      if bare = [] \<or> bare = ''an agent'' then ''An agent'' else or_else (map_of PRODUCT_NAMES bare) bare)"

definition DOING :: "(string \<times> string) list" where
  "DOING =
     [(FILESYSTEM_READ, ''read''), (FILESYSTEM_WRITE, ''edit''), (FILESYSTEM_DELETE, ''delete''),
      (''environment.read'', ''read the secrets in''), (''shell.execute'', ''run''), (''process.exec'', ''run''),
      (HTTP_REQUEST, ''connect to''), (GIT_PUSH, ''push''),
      (''git.push-force'', ''force-push, overwriting the remote history of''),
      (''git.push-f'', ''force-push, overwriting the remote history of''), (''git.reset'', ''reset''),
      (''git.reset-hard'', ''throw away uncommitted changes with a hard reset of''),
      (''git.clean'', ''delete untracked files in''), (''git.clean-fd'', ''delete untracked files and folders in''),
      (''git.clean-f'', ''delete untracked files in''), (''git.merge'', ''merge''), (''git.commit'', ''commit to''),
      (''git.branch-d'', ''delete the branch'')]"

text \<open>\<open>/^\$\{?\w+\}?$/\<close>.\<close>

definition bare_variable :: "string \<Rightarrow> bool" where
  "bare_variable s =
     (case s of
        [] \<Rightarrow> False
      | c # cs \<Rightarrow> c = CHR ''$'' \<and>
          (let named = (if starts_with ''{'' cs then drop 1 cs else cs); rest = dropWhile is_word named in
           takeWhile is_word named \<noteq> [] \<and> (rest = [] \<or> rest = ''}'')))"

definition target_shown :: "string \<Rightarrow> string" where
  "target_shown target =
     (if bare_variable (trim target)
      then ''a path its command keeps in '' @ trim target @ '', which only resolves when it runs''
      else target)"

definition without_link_word :: "string \<Rightarrow> string" where
  "without_link_word verb =
     (if ends_with '' of'' verb \<or> ends_with '' in'' verb \<or> ends_with '' to'' verb then take (length verb - 3) verb
      else verb)"

definition doing_of :: "string \<Rightarrow> string option \<Rightarrow> string" where
  "doing_of operation given =
     (let target = map_option target_shown given in
      if starts_with ''mcp.'' operation then
        (let parts = split_on CHR ''.'' operation; tool = last parts in
         if length parts > 2 then ''use '' @ tool @ '' on '' @ parts ! 1 else ''use the tool '' @ tool)
      else case map_of DOING operation of
        None \<Rightarrow> ''do '' @ operation @ (case target of None \<Rightarrow> [] | Some t \<Rightarrow> '' on '' @ t)
      | Some verb \<Rightarrow>
          (case target of
             None \<Rightarrow> (let bare = without_link_word verb in if bare = ''run'' then ''run a command'' else bare)
           | Some t \<Rightarrow> verb @ '' '' @ t))"

definition REASON_OPENINGS :: "(string \<times> string) list" where
  "REASON_OPENINGS =
     [(''you chose to be asked about this:'', ''You asked to check this yourself: ''),
      (''you chose to deny this:'', ''You chose to block this: '')]"

text \<open>The upper case of the letters whose upper case is in the range.\<close>

definition upper_char :: "char \<Rightarrow> char" where
  "upper_char c = (let n = of_char c :: nat in
     if (97 \<le> n \<and> n \<le> 122) \<or> (224 \<le> n \<and> n \<le> 254 \<and> n \<noteq> 247) then char_of (n - 32) else c)"

definition why_shown :: "string \<Rightarrow> string" where
  "why_shown reason =
     (let trimmed = trim reason;
          said = (case find (\<lambda>(opening, plain). starts_with opening (to_lower trimmed)) REASON_OPENINGS of
              Some (opening, plain) \<Rightarrow> plain @ dropWhile is_space (drop (length opening) trimmed)
            | None \<Rightarrow>
                if to_lower trimmed = ''you chose to be asked about this'' \<or>
                   to_lower trimmed = ''you chose to be asked about this.''
                then ''You asked to check this yourself.'' else trimmed)
      in if said = [] then ''A rule on this machine asks a person first.''
         else (let sentence = upper_char (hd said) # tl said in
           if last sentence \<in> {CHR ''.'', CHR ''!'', CHR ''?''} then sentence else sentence @ ''.''))"

definition TASK_SHOWN_CHARS :: nat where "TASK_SHOWN_CHARS = 120"

text \<open>\<open>flat.lastIndexOf(' ')\<close> of a text with a space in it, and the cut with the ellipsis given.\<close>

definition task_shown :: "string \<Rightarrow> string \<Rightarrow> string option" where
  "task_shown ellipsis statement =
     (let flat = join_with '' '' (runs_off is_space statement) in
      if flat = [] then None
      else if length flat \<le> TASK_SHOWN_CHARS then Some flat
      else (let cut = take TASK_SHOWN_CHARS flat;
                words = split_on CHR '' '' cut;
                upto = length cut - length (last words) - 1;
                kept = (if length words > 1 \<and> 2 * upto > TASK_SHOWN_CHARS then take upto cut else cut)
            in Some (rev (dropWhile is_space (rev kept)) @ ellipsis)))"

definition plain_ask_of :: "(string \<Rightarrow> string) \<Rightarrow> string \<Rightarrow> hold_request \<Rightarrow> string option \<Rightarrow> plain_ask" where
  "plain_ask_of redact ellipsis request task =
     (let action = redact (doing_of (hr_operation request) (hr_target request)) in
      \<lparr>pk_summary = agent_shown (hr_agent request) @ '' wants to '' @ action @ ''.'', pk_doing = Some action,
       pk_why = redact (why_shown (hr_reason request)),
       pk_task = Option.bind task (\<lambda>t. task_shown ellipsis (redact t))\<rparr>)"

section \<open>The question as it is held\<close>

definition CHAT_APPROVAL_MS :: int where "CHAT_APPROVAL_MS = 30 * 60 * 1000"

record chat_question =
  cq_session :: string
  cq_agent :: string
  cq_action :: string
  cq_target :: "string option"
  cq_class :: string
  cq_reason :: string
  cq_task :: "string option"
  cq_within_session :: bool
  cq_rule :: "string option"

definition chat_key :: "(string \<Rightarrow> string) \<Rightarrow> chat_question \<Rightarrow> string" where
  "chat_key place question = grant_key_for place (cq_action question) (cq_target question)"

definition chat_fingerprint :: "(string \<Rightarrow> string) \<Rightarrow> (string \<Rightarrow> string) \<Rightarrow> chat_question \<Rightarrow> string" where
  "chat_fingerprint digest place question =
     (let key = chat_key place question in
      if cq_class question \<noteq> TC_DESTRUCTIVE then digest (cq_session question @ [NUL] @ key)
      else digest (cq_session question @ [NUL] @ key @ [NUL] @ or_else (cq_target question) []))"

definition grant_subject_for :: "(string \<Rightarrow> string) \<Rightarrow> (string \<Rightarrow> string) \<Rightarrow> chat_question \<Rightarrow> grant_subject" where
  "grant_subject_for digest place question =
     \<lparr>gs_session = cq_session question, gs_operation = chat_key place question,
      gs_fingerprint = chat_fingerprint digest place question, gs_class = Some (cq_class question)\<rparr>"

definition open_question_for ::
  "(string \<Rightarrow> string) \<Rightarrow> (string \<Rightarrow> string) \<Rightarrow> approvals_home \<Rightarrow> chat_question \<Rightarrow> time \<Rightarrow> pending_approval option" where
  "open_question_for digest place h question moment =
     find (\<lambda>p. hr_session (pa_request p) = cq_session question \<and>
       hr_fingerprint (pa_request p) = chat_fingerprint digest place question) (pending_list h moment)"

definition chat_request :: "(string \<Rightarrow> string) \<Rightarrow> (string \<Rightarrow> string) \<Rightarrow> chat_question \<Rightarrow> hold_request" where
  "chat_request digest place question =
     \<lparr>hr_session = cq_session question, hr_agent = cq_agent question, hr_operation = cq_action question,
      hr_target = cq_target question, hr_fingerprint = chat_fingerprint digest place question,
      hr_reason = cq_reason question, hr_evidence = [], hr_command = None, hr_class = Some (cq_class question),
      hr_grant_key = Some (chat_key place question), hr_approval_id = None, hr_rule = cq_rule question,
      hr_within_session = cq_within_session question\<rparr>"

definition hold_in_chat ::
  "(string \<Rightarrow> string) \<Rightarrow> (string \<Rightarrow> string) \<Rightarrow> (string \<Rightarrow> string) \<Rightarrow> string \<Rightarrow> approvals_home \<Rightarrow> chat_question \<Rightarrow> approval_route \<Rightarrow> time \<Rightarrow>
     pending_approval \<times> approvals_home" where
  "hold_in_chat digest place redact ellipsis h question route moment =
     (case open_question_for digest place h question moment of
        Some p \<Rightarrow> (p, h)
      | None \<Rightarrow>
          (let request = chat_request digest place question;
               (raised, h1) = pending_raise h request moment CHAT_APPROVAL_MS None;
               routed = raised\<lparr>pa_route := Some route, pa_plain := Some (plain_ask_of redact ellipsis request (cq_task question))\<rparr>
           in (routed, pending_keep h1 routed)))"

section \<open>What a reply says\<close>

definition MOST_REPLY_CHARS :: nat where "MOST_REPLY_CHARS = 80"

definition lower_alnum :: "char \<Rightarrow> bool" where
  "lower_alnum c \<longleftrightarrow> is_digit c \<or> is_lower c"

definition ends_word :: "string \<Rightarrow> bool" where
  "ends_word rest \<longleftrightarrow> (case rest of [] \<Rightarrow> True | c # cs \<Rightarrow> \<not> is_word c)"

text \<open>\<open>apr_[a-z0-9]+_[a-z0-9]+\b\<close> at the start of a text in lower case.\<close>

definition held_id_here :: "string \<Rightarrow> string option" where
  "held_id_here s =
     (if \<not> starts_with ''apr_'' s then None
      else (let s1 = drop 4 s; moment = takeWhile lower_alnum s1; s2 = dropWhile lower_alnum s1 in
        if moment = [] \<or> \<not> starts_with ''_'' s2 then None
        else (let s3 = drop 1 s2; print = takeWhile lower_alnum s3; s4 = dropWhile lower_alnum s3 in
          if print = [] \<or> \<not> ends_word s4 then None else Some (''apr_'' @ moment @ ''_'' @ print))))"

text \<open>The first held id of a text, and the text without it.\<close>

fun held_id_from :: "bool \<Rightarrow> string \<Rightarrow> (string \<times> string) option" where
  "held_id_from inside [] = None"
| "held_id_from inside (c # s) =
     (case (if inside then None else held_id_here (c # s)) of
        Some i \<Rightarrow> Some (i, drop (length i) (c # s))
      | None \<Rightarrow> map_option (\<lambda>(i, rest). (i, c # rest)) (held_id_from (is_word c) s))"

definition FOR_SESSION :: "string list" where
  "FOR_SESSION = [''for this session'', ''for the session'', ''this session'', ''every time'', ''always'']"

definition REFUSING :: "string list" where
  "REFUSING = [''no'', ''nope'', ''deny'', ''denied'', ''dont'', ''don'' @ [QUOTE] @ ''t'', ''do not'', ''refuse'',
     ''reject'', ''stop'', ''cancel'']"

definition ALLOWING :: "string list" where
  "ALLOWING = [''yes'', ''y'', ''yep'', ''yeah'', ''ok'', ''okay'', ''allow'', ''allowed'', ''approve'', ''approved'',
     ''go ahead'', ''go'', ''sure'', ''do it'', ''proceed'']"

definition opens_with :: "string list \<Rightarrow> string \<Rightarrow> bool" where
  "opens_with openings s = list_ex (\<lambda>w. starts_with w s \<and> ends_word (drop (length w) s)) openings"

fun mentions_from :: "string list \<Rightarrow> bool \<Rightarrow> string \<Rightarrow> bool" where
  "mentions_from phrases inside [] = False"
| "mentions_from phrases inside (c # s) =
     ((\<not> inside \<and> opens_with phrases (c # s)) \<or> mentions_from phrases (is_word c) s)"

definition NUMBERED :: "(string \<times> hold_answer) list" where
  "NUMBERED = [(''1'', ANSWER_ONCE), (''2'', ANSWER_SESSION), (''3'', ANSWER_DENY)]"

definition answer_of :: "string \<Rightarrow> hold_answer option" where
  "answer_of said =
     (let bare = (if said \<noteq> [] \<and> last said \<in> {CHR ''.'', CHR '')''} then butlast said else said) in
      case map_of NUMBERED bare of
        Some numbered \<Rightarrow> Some numbered
      | None \<Rightarrow>
          if opens_with REFUSING said then Some ANSWER_DENY
          else if \<not> opens_with ALLOWING said then None
          else Some (if mentions_from FOR_SESSION False said then ANSWER_SESSION else ANSWER_ONCE))"

definition reply_of :: "string \<Rightarrow> pending_approval list \<Rightarrow> (string \<times> hold_answer) option" where
  "reply_of prompt waiting =
     (let text_said = to_lower (trim prompt) in
      if text_said = [] \<or> length text_said > MOST_REPLY_CHARS then None
      else (let named = held_id_from False text_said;
                rest = (case named of None \<Rightarrow> text_said | Some (i, without) \<Rightarrow> without);
                said = join_with '' '' (runs_off is_space rest)
            in case answer_of said of
                 None \<Rightarrow> None
               | Some answer \<Rightarrow>
                   (case named of
                      Some (i, without) \<Rightarrow>
                        map_option (\<lambda>p. (pa_id p, answer)) (find (\<lambda>p. to_lower (pa_id p) = i) waiting)
                    | None \<Rightarrow> (case waiting of [only] \<Rightarrow> Some (pa_id only, answer) | _ \<Rightarrow> None))))"

function held_ids_from :: "bool \<Rightarrow> string \<Rightarrow> string list" where
  "held_ids_from inside [] = []"
| "held_ids_from inside (c # s) =
     (case (if inside then None else held_id_here (c # s)) of
        Some i \<Rightarrow> i # held_ids_from True (drop (length i - 1) s)
      | None \<Rightarrow> held_ids_from (is_word c) s)"
  by pat_completeness auto
termination
  by (relation "measure (\<lambda>(inside, s). length s)") auto

definition held_ids_in :: "string \<Rightarrow> string list" where
  "held_ids_in s = held_ids_from False (to_lower s)"

section \<open>The questions of a session\<close>

definition open_in_session :: "approvals_home \<Rightarrow> string \<Rightarrow> time \<Rightarrow> pending_approval list" where
  "open_in_session h session moment =
     filter (\<lambda>p. hr_session (pa_request p) = session \<and> pa_answer p = None) (pending_list h moment)"

definition answered_untold :: "approvals_home \<Rightarrow> string \<Rightarrow> time \<Rightarrow> pending_approval list" where
  "answered_untold h session moment =
     filter (\<lambda>p. hr_session (pa_request p) = session \<and> pa_answer p \<noteq> None \<and> pa_told_agent_at p = None)
       (pending_list h moment)"

definition mark_told :: "approvals_home \<Rightarrow> pending_approval list \<Rightarrow> time \<Rightarrow> approvals_home" where
  "mark_told h held moment = foldl (\<lambda>g p. pending_keep g (p\<lparr>pa_told_agent_at := Some moment\<rparr>)) h held"

definition answered_away :: "pending_approval \<Rightarrow> bool" where
  "answered_away held \<longleftrightarrow> pa_route held = Some ROUTE_BOTH \<or> pa_also_on held \<noteq> []"

definition waiting_on_dm :: "approvals_home \<Rightarrow> string \<Rightarrow> time \<Rightarrow> bool" where
  "waiting_on_dm h session moment = list_ex answered_away (open_in_session h session moment)"

section \<open>What a yes covers, in words\<close>

definition LABEL_ONCE :: string where "LABEL_ONCE = ''Allow once''"
definition LABEL_SESSION :: string where "LABEL_SESSION = ''Allow for this session''"
definition LABEL_DENY :: string where "LABEL_DENY = ''Deny''"

definition covers_one_target :: "pending_approval \<Rightarrow> bool" where
  "covers_one_target held \<longleftrightarrow> hr_class (pa_request held) = Some TC_DESTRUCTIVE \<and> hr_target (pa_request held) \<noteq> None"

definition plain_of :: "(string \<Rightarrow> string) \<Rightarrow> pending_approval \<Rightarrow> plain_ask" where
  "plain_of redact held = or_else (pa_plain held) (plain_ask_of redact [] (pa_request held) None)"

definition action_word :: "(string \<Rightarrow> string) \<Rightarrow> pending_approval \<Rightarrow> string" where
  "action_word redact held =
     first_part CHR '' '' (or_else (pk_doing (plain_of redact held)) (hr_operation (pa_request held)))"

definition covered_folder :: "(string \<Rightarrow> string) \<Rightarrow> pending_approval \<Rightarrow> string option" where
  "covered_folder place held =
     (if covers_one_target held then None
      else Option.bind (hr_target (pa_request held))
        (\<lambda>t. if starts_with ''filesystem.'' (hr_operation (pa_request held)) then Some (place t) else None))"

definition covered_program :: "(string \<Rightarrow> string) \<Rightarrow> pending_approval \<Rightarrow> string option" where
  "covered_program place held =
     (let operation = hr_operation (pa_request held) in
      Option.bind (hr_target (pa_request held))
        (\<lambda>t. if grant_key_for place operation (Some t) = operation then None
            else if starts_with ''filesystem.'' operation \<or> starts_with ''http.'' operation then None
            else Some (grant_program_of t)))"

definition session_note :: "(string \<Rightarrow> string) \<Rightarrow> (string \<Rightarrow> string) \<Rightarrow> pending_approval \<Rightarrow> string option" where
  "session_note redact place held =
     (if covers_one_target held
      then Some (''this '' @ or_else (hr_target (pa_request held)) ''target'' @ '' only; any other '' @
        action_word redact held @ '' still asks'')
      else case covered_folder place held of
        Some folder \<Rightarrow> Some (''only in '' @ folder @ ''; anywhere else still asks'')
      | None \<Rightarrow> map_option (\<lambda>program. ''only '' @ program @ '' commands; any other still asks'')
                 (covered_program place held))"

definition choices :: "string option \<Rightarrow> string list" where
  "choices note =
     [''  1. '' @ LABEL_ONCE,
      ''  2. '' @ (case note of None \<Rightarrow> LABEL_SESSION | Some n \<Rightarrow> LABEL_SESSION @ '' ('' @ n @ '')''),
      ''  3. '' @ LABEL_DENY]"

definition has_picker :: "pending_approval \<Rightarrow> bool" where
  "has_picker held \<longleftrightarrow> hr_agent (pa_request held) = ''claude-code'' \<and> \<not> answered_away held"

definition elsewhere :: "pending_approval \<Rightarrow> string \<Rightarrow> string \<Rightarrow> string option" where
  "elsewhere held whose joined =
     (let places = (if PLACE_MAC \<in> set (pa_also_on held) then [''the Memnox Mac app''] else []) @
            (if PLACE_PAIRED \<in> set (pa_also_on held) then [whose @ '' paired phone''] else []) @
            (if pa_route held = Some ROUTE_BOTH then [whose @ '' Slack or Discord DM''] else [])
      in if places = [] then None
         else if butlast places = [] then Some (last places)
         else Some (join_with '', '' (butlast places) @ '' '' @ joined @ '' '' @ last places))"

definition picker_question :: "(string \<Rightarrow> string) \<Rightarrow> pending_approval \<Rightarrow> string" where
  "picker_question redact held = pk_summary (plain_of redact held) @ '' Allow it? ('' @ pa_id held @ '')''"

definition picker_options :: "string option \<Rightarrow> (string \<times> string option) list" where
  "picker_options note = [(LABEL_ONCE, None), (LABEL_SESSION, note), (LABEL_DENY, None)]"

definition picked_answer :: "string \<Rightarrow> hold_answer option" where
  "picked_answer label =
     (if label = LABEL_ONCE then Some ANSWER_ONCE
      else if label = LABEL_SESSION then Some ANSWER_SESSION
      else if label = LABEL_DENY then Some ANSWER_DENY
      else None)"

definition held_notice :: "(string \<Rightarrow> string) \<Rightarrow> (string \<Rightarrow> string) \<Rightarrow> pending_approval \<Rightarrow> string" where
  "held_notice redact place held =
     (let plain = plain_of redact held; q = [DQUOTE];
          dm = (case elsewhere held ''your'' ''and'' of None \<Rightarrow> []
            | Some away \<Rightarrow> '' It was also sent to '' @ away @ '': answer there and the agent carries on by itself.'')
      in join_with [NEWLINE]
        ([''Memnox needs your OK ('' @ pa_id held @ '')'', pk_summary plain] @
         (case pk_task plain of None \<Rightarrow> [] | Some task \<Rightarrow> [''While working on: '' @ q @ task @ q]) @
         [''Why you are asked: '' @ pk_why plain] @ choices (session_note redact place held) @
         [''Reply here with 1, 2 or 3, or in words.'' @ dm]))"

definition answered_text :: "(string \<Rightarrow> string) \<Rightarrow> (string \<Rightarrow> string) \<Rightarrow> pending_approval \<Rightarrow> string" where
  "answered_text redact place held =
     (let what = or_else (pk_doing (plain_of redact held)) (hr_operation (pa_request held));
          by_whom = or_else (pa_answered_by held) ''Your person''
      in case pa_answer held of
        Some ANSWER_ONCE \<Rightarrow> ''Memnox: '' @ by_whom @ '' said yes, once: you may '' @ what @ '' ('' @ pa_id held @
          ''). Try the same call again now and carry on.''
      | Some ANSWER_SESSION \<Rightarrow>
          (let reach = (if covers_one_target held
               then '' Any other '' @ action_word redact held @ '' still needs their OK.''
               else case covered_folder place held of
                 Some folder \<Rightarrow> '' That covers '' @ folder @ '' only; anywhere else still needs their OK.''
               | None \<Rightarrow> (case covered_program place held of
                   Some program \<Rightarrow> '' That covers '' @ program @ '' commands only; any other command still needs their OK.''
                 | None \<Rightarrow> []))
           in ''Memnox: '' @ by_whom @ '' said yes for the rest of this session: you may '' @ what @ '' ('' @ pa_id held @
              '').'' @ reach @ '' Try the same call again now and carry on.'')
      | _ \<Rightarrow> ''Memnox: '' @ by_whom @ '' said no: do not '' @ what @ '', and do not get the same result another way ('' @
          pa_id held @ ''). Carry on without it, or tell them what you need instead.'')"

section \<open>Which question a reply answers\<close>

lemma first_held_id:
  "held_id_from inside s = Some (i, rest) \<Longrightarrow> i \<in> set (held_ids_from inside s)"
proof (induction inside s arbitrary: rest rule: held_ids_from.induct)
  case (2 inside c s)
  then show ?case by (auto split: option.splits if_splits)
qed simp

text \<open>
  A yes is never spent on something the person was not looking at: a reply answers a
  question that waits, and either it is the only one or the reply names it by its id.
\<close>

theorem reply_answers_what_was_asked:
  assumes "reply_of prompt waiting = Some (i, answer)"
  shows "\<exists>p \<in> set waiting. pa_id p = i \<and> (waiting = [p] \<or> to_lower i \<in> set (held_ids_in (trim prompt)))"
proof (cases "held_id_from False (to_lower (trim prompt))")
  case None
  then show ?thesis using assms by (auto simp: reply_of_def Let_def split: if_splits option.splits list.splits)
next
  case (Some found)
  then obtain j rest where found: "held_id_from False (to_lower (trim prompt)) = Some (j, rest)" by (cases found) auto
  then obtain p where p: "find (\<lambda>p. to_lower (pa_id p) = j) waiting = Some p" "pa_id p = i"
    using assms by (auto simp: reply_of_def Let_def split: if_splits option.splits)
  then show ?thesis using find_in [OF p(1)] first_held_id [OF found] by (auto simp: held_ids_in_def)
qed

definition waiting_question :: "string \<Rightarrow> pending_approval" where
  "waiting_question i = asked_question\<lparr>pa_id := i\<rparr>"

lemma reply_answers_what_was_asked_witness:
  "\<exists>p \<in> {waiting_question ''apr_1_a'', waiting_question ''apr_2_b''}. pa_id p = ''apr_2_b'' \<and>
     (False \<or> ''apr_2_b'' \<in> set (held_ids_in ''Yes, APR_2_b''))"
proof -
  let ?waiting = "[waiting_question ''apr_1_a'', waiting_question ''apr_2_b'']"
  have "reply_of ''Yes, APR_2_b'' ?waiting = Some (''apr_2_b'', ANSWER_ONCE)" by code_simp
  from reply_answers_what_was_asked [OF this] show ?thesis
    by (simp add: trim_def is_space_def) (simp add: to_lower_def lower_char_def)
qed

text \<open>
  Typed or picked, an answer means the same: the labels a picker offers are read back in
  their order as once, for the session and no, and so are the numbers and the labels typed in reply
  to the one question that waits.
\<close>

theorem choices_read_back:
  "map (\<lambda>(label, description). picked_answer label) (picker_options note) =
     [Some ANSWER_ONCE, Some ANSWER_SESSION, Some ANSWER_DENY] \<and>
   map (\<lambda>typed. reply_of typed [held]) [''1'', ''2'', ''3''] =
     map (\<lambda>answer. Some (pa_id held, answer)) [ANSWER_ONCE, ANSWER_SESSION, ANSWER_DENY] \<and>
   map (\<lambda>(label, description). reply_of label [held]) (picker_options note) =
     map (\<lambda>answer. Some (pa_id held, answer)) [ANSWER_ONCE, ANSWER_SESSION, ANSWER_DENY]"
  by code_simp

section \<open>Which question a yes is spent on\<close>

lemma nul_split: "NUL \<notin> set a \<Longrightarrow> NUL \<notin> set b \<Longrightarrow> a @ NUL # s = b @ NUL # t \<Longrightarrow> a = b \<and> s = t"
  by (metis first_part_append_free same_append_eq list.inject)

text \<open>
  An answer about one thing is never spent on another: where the digest tells texts
  apart and no name holds the separator, the question found for a call was held for the same
  session and the same reach, and for a deletion it was held for a deletion of the same target.
\<close>

theorem answer_is_spent_on_its_question:
  assumes "inj digest" and "pa_request p = chat_request digest place asked"
    and "open_question_for digest place h question moment = Some p"
    and "NUL \<notin> set (cq_session asked)" "NUL \<notin> set (cq_session question)"
    and "NUL \<notin> set (chat_key place asked)" "NUL \<notin> set (chat_key place question)"
  shows "cq_session asked = cq_session question \<and> chat_key place asked = chat_key place question \<and>
    (cq_class question = TC_DESTRUCTIVE \<longrightarrow>
       cq_class asked = TC_DESTRUCTIVE \<and> or_else (cq_target asked) [] = or_else (cq_target question) [])"
proof -
  have session: "cq_session asked = cq_session question"
    and prints: "chat_fingerprint digest place asked = chat_fingerprint digest place question"
    using find_in [OF assms(3) [unfolded open_question_for_def]] assms(2) by (auto simp: chat_request_def)
  have mixed: "k @ NUL # s \<noteq> l" if "NUL \<notin> set l" for k s l using that by auto
  show ?thesis
  proof (cases "cq_class asked = TC_DESTRUCTIVE"; cases "cq_class question = TC_DESTRUCTIVE")
    assume both: "cq_class asked = TC_DESTRUCTIVE" "cq_class question = TC_DESTRUCTIVE"
    then have "chat_key place asked @ NUL # or_else (cq_target asked) [] =
        chat_key place question @ NUL # or_else (cq_target question) []"
      using injD [OF assms(1)] prints session by (auto simp: chat_fingerprint_def Let_def)
    then show ?thesis using nul_split [OF assms(6,7)] session both by simp
  next
    assume "cq_class asked = TC_DESTRUCTIVE" "cq_class question \<noteq> TC_DESTRUCTIVE"
    then have "chat_key place asked @ NUL # or_else (cq_target asked) [] = chat_key place question"
      using injD [OF assms(1)] prints session by (auto simp: chat_fingerprint_def Let_def)
    then show ?thesis using mixed [OF assms(7)] by metis
  next
    assume "cq_class asked \<noteq> TC_DESTRUCTIVE" "cq_class question = TC_DESTRUCTIVE"
    then have "chat_key place asked = chat_key place question @ NUL # or_else (cq_target question) []"
      using injD [OF assms(1)] prints session by (auto simp: chat_fingerprint_def Let_def)
    then show ?thesis using mixed [OF assms(6)] by metis
  next
    assume other: "cq_class asked \<noteq> TC_DESTRUCTIVE" "cq_class question \<noteq> TC_DESTRUCTIVE"
    then have "chat_key place asked = chat_key place question"
      using injD [OF assms(1)] prints session by (auto simp: chat_fingerprint_def Let_def)
    then show ?thesis using session other by simp
  qed
qed

definition deleting :: chat_question where
  "deleting = \<lparr>cq_session = ''s'', cq_agent = ''a'', cq_action = FILESYSTEM_DELETE, cq_target = Some ''f'',
     cq_class = TC_DESTRUCTIVE, cq_reason = [], cq_task = None, cq_within_session = False, cq_rule = None\<rparr>"

lemma answer_is_spent_on_its_question_witness:
  "chat_key (\<lambda>t. ''/w'') deleting = chat_key (\<lambda>t. ''/w'') deleting \<and> cq_class deleting = TC_DESTRUCTIVE"
proof -
  let ?place = "\<lambda>t. ''/w''" and ?digest = "\<lambda>t. t"
  let ?run = "hold_in_chat ?digest ?place (\<lambda>t. t) [] nothing_held deleting ROUTE_SESSION 5"
  have run: "pa_request (fst ?run) = chat_request ?digest ?place deleting"
    "open_question_for ?digest ?place (snd ?run) deleting 6 = Some (fst ?run)"
    "NUL \<notin> set (cq_session deleting)" "NUL \<notin> set (chat_key ?place deleting)"
    by code_simp+
  have "inj ?digest" by (simp add: inj_def)
  from answer_is_spent_on_its_question [OF this run(1,2,3,3,4,4)] show ?thesis by (simp add: deleting_def)
qed

text \<open>
  A yes that rules the session out is a yes for the session: the phrase is looked for
  anywhere in the reply, whatever stands before it.
\<close>

theorem not_for_this_session_is_for_the_session:
  "reply_of ''Yes, but not for this session'' [held] = Some (pa_id held, ANSWER_SESSION) \<and>
   reply_of ''Ok, once. Not always'' [held] = Some (pa_id held, ANSWER_SESSION)"
  by code_simp

end
