(* ===== verification/Budgets.thy ===== *)
theory Budgets
  imports Clock PatternMatcher
begin

text \<open>
  Caps on what may happen again (\<open>packages/core/src/session/budget.ts\<close>,
  \<open>session/budget-store.ts\<close>), counted over the rows of the ledger (\<open>event/event.ts\<close>). Amounts
  are exact numbers, where the program's are doubles.
\<close>

section \<open>Rows of the ledger\<close>

datatype actor_type = ACTOR_AGENT | ACTOR_HUMAN | ACTOR_AUTOMATION

datatype execution = EX_COMPLETED | EX_FAILED | EX_BLOCKED | EX_TIMED_OUT

record event_rule_ref =
  er_ref_name :: string
  er_ref_layer :: string
  er_ref_file :: string
  er_ref_line :: "nat option"

record memnox_event =
  ev_id :: string
  ev_at :: time
  ev_session :: string
  ev_agent :: string
  ev_actor_type :: actor_type
  ev_principal :: "string option"
  ev_subagent :: "string option"
  ev_subagent_type :: "string option"
  ev_surface :: string
  ev_operation :: string
  ev_target :: "string option"
  ev_class :: string
  ev_effect :: decision_effect
  ev_shadow_effect :: "decision_effect option"
  ev_mode :: enforcement_mode
  ev_reason :: string
  ev_rule :: "event_rule_ref option"
  ev_alternative :: "alternative option"
  ev_policy_hash :: "string option"
  ev_bundle_hash :: "string option"
  ev_conditions :: "string list option"
  ev_decision_ids :: "string list option"
  ev_args_digest :: "string option"
  ev_execution :: "execution option"
  ev_exit_code :: "int option"
  ev_duration_ms :: "int option"
  ev_output_digest :: "string option"
  ev_authorized_by :: "string option"
  ev_cost_usd :: "rat option"

definition event_of :: "time \<Rightarrow> string \<Rightarrow> string \<Rightarrow> string \<Rightarrow> decision_effect \<Rightarrow> memnox_event" where
  "event_of at_time session operation class effect =
     \<lparr>ev_id = [], ev_at = at_time, ev_session = session, ev_agent = [], ev_actor_type = ACTOR_AGENT,
      ev_principal = None, ev_subagent = None, ev_subagent_type = None, ev_surface = ''shell'',
      ev_operation = operation, ev_target = None, ev_class = class, ev_effect = effect, ev_shadow_effect = None,
      ev_mode = ENFORCE, ev_reason = [], ev_rule = None, ev_alternative = None, ev_policy_hash = None,
      ev_bundle_hash = None, ev_conditions = None, ev_decision_ids = None, ev_args_digest = None,
      ev_execution = None, ev_exit_code = None, ev_duration_ms = None, ev_output_digest = None,
      ev_authorized_by = None, ev_cost_usd = None\<rparr>"

section \<open>Budgets\<close>

datatype budget_window = WINDOW_DAY | WINDOW_HOUR | WINDOW_SESSION

datatype budget_unit = UNIT_CALLS | UNIT_USD

record budget =
  bd_name :: string
  bd_actions :: "string list"
  bd_limit :: rat
  bd_window :: budget_window
  bd_unit :: budget_unit
  bd_fleet :: bool

record fleet_spend =
  fl_name :: string
  fl_spent :: rat
  fl_at :: time

record budget_spend =
  bs_budget :: budget
  bs_spent :: rat
  bs_remaining :: rat

record budget_breach =
  bb_budget :: budget
  bb_spent :: rat

fun WINDOW_MS :: "budget_window \<Rightarrow> int" where
  "WINDOW_MS WINDOW_HOUR = HOUR_MS"
| "WINDOW_MS WINDOW_DAY = DAY_MS"
| "WINDOW_MS WINDOW_SESSION = 0"

definition covers_action :: "budget \<Rightarrow> string \<Rightarrow> bool" where
  "covers_action b action = matches_any (Some (bd_actions b)) (Some action)"

definition window_of :: "budget \<Rightarrow> memnox_event list \<Rightarrow> time \<Rightarrow> string option \<Rightarrow> memnox_event list" where
  "window_of b events now session =
     (if bd_window b = WINDOW_SESSION
      then (case session of None \<Rightarrow> [] | Some s \<Rightarrow> filter (\<lambda>e. ev_session e = s) events)
      else filter (\<lambda>e. ev_at e \<ge> now - WINDOW_MS (bd_window b)) events)"

definition reported_cost :: "memnox_event \<Rightarrow> rat" where
  "reported_cost e = or_else (ev_cost_usd e) 0"

definition did_happen :: "memnox_event \<Rightarrow> bool" where
  "did_happen e \<longleftrightarrow> ev_effect e = ALLOW"

definition spent_on ::
  "(memnox_event \<Rightarrow> rat) \<Rightarrow> budget \<Rightarrow> memnox_event list \<Rightarrow> time \<Rightarrow> string option \<Rightarrow> rat" where
  "spent_on cost_of b events now session =
     (let in_window = filter (\<lambda>e. covers_action b (ev_operation e) \<and> did_happen e) (window_of b events now session)
      in if bd_unit b = UNIT_CALLS then of_nat (length in_window)
         else foldl (\<lambda>total e. total + cost_of e) 0 in_window)"

definition spend_report ::
  "(memnox_event \<Rightarrow> rat) \<Rightarrow> budget list \<Rightarrow> memnox_event list \<Rightarrow> time \<Rightarrow> string option \<Rightarrow> budget_spend list" where
  "spend_report cost_of budgets events now session =
     map (\<lambda>b. let spent = spent_on cost_of b events now session
       in \<lparr>bs_budget = b, bs_spent = spent, bs_remaining = max 0 (bd_limit b - spent)\<rparr>) budgets"

definition spent_elsewhere :: "budget \<Rightarrow> fleet_spend list \<Rightarrow> rat" where
  "spent_elsewhere b fleet =
     (if \<not> bd_fleet b then 0
      else (case find (\<lambda>f. fl_name f = bd_name b) fleet of None \<Rightarrow> 0 | Some f \<Rightarrow> fl_spent f))"

fun exhausted_by ::
  "(memnox_event \<Rightarrow> rat) \<Rightarrow> budget list \<Rightarrow> memnox_event list \<Rightarrow> time \<Rightarrow> string option \<Rightarrow> fleet_spend list \<Rightarrow> rat option \<Rightarrow> string \<Rightarrow>
     budget_breach option" where
  "exhausted_by cost_of [] events now session fleet would_spend action = None"
| "exhausted_by cost_of (b # budgets) events now session fleet would_spend action =
     (if \<not> covers_action b action then exhausted_by cost_of budgets events now session fleet would_spend action
      else (let spent = spent_on cost_of b events now session + spent_elsewhere b fleet;
                wants = (if bd_unit b = UNIT_USD then or_else would_spend 1 else 1)
            in if spent + wants \<le> bd_limit b
               then exhausted_by cost_of budgets events now session fleet would_spend action
               else Some \<lparr>bb_budget = b, bb_spent = spent\<rparr>))"

text \<open>A budget as a file gives it, its limit \<open>None\<close> inside where it is no finite number.\<close>

definition validate_budget :: "string option \<Rightarrow> string list option \<Rightarrow> rat option option \<Rightarrow> string list" where
  "validate_budget named actions limit =
     (if trim (or_else named []) = [] then [''a budget needs a name somebody would recognise''] else []) @
     (if or_else actions [] = [] then [''a budget must name the actions it covers''] else []) @
     (case limit of
        Some None \<Rightarrow> [''a budget limit must be a number, like 50'']
      | None \<Rightarrow> [''a budget of zero is a deny rule; write it as one'']
      | Some (Some l) \<Rightarrow> if l \<le> 0 then [''a budget of zero is a deny rule; write it as one''] else [])"

definition fleet_budgets :: "budget list \<Rightarrow> budget list" where
  "fleet_budgets budgets = filter bd_fleet budgets"

fun window_hours :: "budget_window \<Rightarrow> nat" where
  "window_hours WINDOW_HOUR = 1"
| "window_hours WINDOW_DAY = 24"
| "window_hours WINDOW_SESSION = 0"

definition window_hours_of :: "budget \<Rightarrow> nat" where
  "window_hours_of b = window_hours (bd_window b)"

definition suggested :: "string \<Rightarrow> string list \<Rightarrow> rat \<Rightarrow> budget" where
  "suggested named actions limit =
     \<lparr>bd_name = named, bd_actions = actions, bd_limit = limit, bd_window = WINDOW_DAY, bd_unit = UNIT_CALLS,
      bd_fleet = False\<rparr>"

definition suggested_budgets :: "budget list" where
  "suggested_budgets =
     [suggested ''production deploys'' [''deploy.*'', ''*.deploy'', ''vercel.deploy-production''] 5,
      suggested ''pull requests'' [''gh.pr-create'', ''github.create*''] 20,
      suggested ''outbound messages'' [''*.send*'', ''email.*'', ''slack.post*''] 50,
      suggested ''database writes'' [''psql.*'', ''mysql.*'', ''mongosh.*''] 500]"

section \<open>A budget holds\<close>

text \<open>
  Calls put to the budgets one after another, each an instant, a session and an action; what fits is
  recorded as having happened and what does not as refused.
\<close>

definition budget_call ::
  "(memnox_event \<Rightarrow> rat) \<Rightarrow> budget list \<Rightarrow> memnox_event list \<Rightarrow> time \<times> string \<times> string \<Rightarrow> memnox_event list" where
  "budget_call cost_of budgets events call =
     (let (now, session, action) = call;
          effect = (if exhausted_by cost_of budgets events now (Some session) [] None action = None then ALLOW else DENY)
      in events @ [event_of now session action TC_WRITE effect])"

definition budget_run ::
  "(memnox_event \<Rightarrow> rat) \<Rightarrow> budget list \<Rightarrow> memnox_event list \<Rightarrow> (time \<times> string \<times> string) list \<Rightarrow> memnox_event list" where
  "budget_run cost_of budgets events calls = foldl (budget_call cost_of budgets) events calls"

lemma fits_every_budget:
  "exhausted_by cost_of budgets events now session fleet would_spend action = None \<Longrightarrow> b \<in> set budgets \<Longrightarrow>
     covers_action b action \<Longrightarrow>
     spent_on cost_of b events now session + spent_elsewhere b fleet +
       (if bd_unit b = UNIT_USD then or_else would_spend 1 else 1) \<le> bd_limit b"
  by (induction budgets) (auto simp: Let_def split: if_splits)

lemma spent_calls: "bd_unit b = UNIT_CALLS \<Longrightarrow>
    spent_on cost_of b events now session =
      of_nat (length (filter (\<lambda>e. covers_action b (ev_operation e) \<and> did_happen e) (window_of b events now session)))"
  by (simp add: spent_on_def)

lemma window_of_append: "window_of b (xs @ ys) now session = window_of b xs now session @ window_of b ys now session"
  by (simp add: window_of_def split: option.splits)

text \<open>A later window holds no more of the rows there are.\<close>

lemma length_filter_mono: "(\<And>x. p x \<Longrightarrow> q x) \<Longrightarrow> length (filter p xs) \<le> length (filter q xs)"
  by (induction xs) auto

lemma window_shrinks:
  assumes "now \<le> later"
  shows "length (filter p (window_of b events later session)) \<le> length (filter p (window_of b events now session))"
  using assms by (cases "bd_window b = WINDOW_SESSION") (auto simp: window_of_def intro!: length_filter_mono)

lemma window_any_session:
  "bd_window b \<noteq> WINDOW_SESSION \<Longrightarrow> spent_on cost_of b events now s = spent_on cost_of b events now s'"
  by (simp add: spent_on_def window_of_def)

lemma spent_shrinks:
  "bd_unit b = UNIT_CALLS \<Longrightarrow> now \<le> later \<Longrightarrow>
     spent_on cost_of b events later session \<le> spent_on cost_of b events now session"
  using window_shrinks by (simp add: spent_calls)

definition ends_by :: "time \<Rightarrow> memnox_event list \<Rightarrow> bool" where
  "ends_by t events \<longleftrightarrow> (\<forall>e \<in> set events. ev_at e \<le> t)"

lemma budget_run_holds:
  assumes "b \<in> set budgets" "bd_unit b = UNIT_CALLS" "0 \<le> bd_limit b"
  shows "sorted (map fst calls) \<Longrightarrow> ends_by t (budget_run cost_of budgets [] calls) \<Longrightarrow>
    spent_on cost_of b (budget_run cost_of budgets [] calls) t (Some s) \<le> bd_limit b"
proof (induction calls arbitrary: t rule: rev_induct)
  case Nil
  then show ?case using assms by (simp add: budget_run_def spent_calls window_of_def)
next
  case (snoc call calls)
  obtain now session action where call: "call = (now, session, action)" by (cases call)
  let ?events = "budget_run cost_of budgets [] calls"
  let ?fits = "exhausted_by cost_of budgets ?events now (Some session) [] None action = None"
  let ?e = "event_of now session action TC_WRITE (if ?fits then ALLOW else DENY)"
  have run: "budget_run cost_of budgets [] (calls @ [call]) = ?events @ [?e]"
    by (simp add: budget_run_def budget_call_def call Let_def)
  have now: "now \<le> t" using snoc.prems(2) by (simp add: run ends_by_def event_of_def)
  have "ends_by t ?events" using snoc.prems(2) by (simp add: run ends_by_def)
  moreover have "sorted (map fst calls)" using snoc.prems(1) by (simp add: sorted_append)
  ultimately have held: "spent_on cost_of b ?events t (Some s) \<le> bd_limit b" by (rule snoc.IH [rotated])
  have "length (window_of b [?e] t (Some s)) \<le> 1" by (simp add: window_of_def)
  show ?case
  proof (cases "?fits \<and> covers_action b action \<and> window_of b [?e] t (Some s) \<noteq> []")
    case True
    have "spent_on cost_of b ?events now (Some session) + 1 \<le> bd_limit b"
      using fits_every_budget [of cost_of budgets ?events now "Some session" "[]" None action b] True assms
      by (simp add: spent_elsewhere_def split: if_splits)
    moreover have "spent_on cost_of b ?events t (Some s) \<le> spent_on cost_of b ?events now (Some session)"
    proof (cases "bd_window b = WINDOW_SESSION")
      case True
      then have "session = s" using \<open>?fits \<and> covers_action b action \<and> window_of b [?e] t (Some s) \<noteq> []\<close>
        by (simp add: window_of_def event_of_def split: if_splits)
      then show ?thesis using spent_shrinks [OF assms(2) now] by simp
    next
      case False
      then show ?thesis using spent_shrinks [OF assms(2) now] window_any_session by metis
    qed
    moreover have "spent_on cost_of b (?events @ [?e]) t (Some s) \<le> spent_on cost_of b ?events t (Some s) + 1"
      using assms(2) by (simp add: spent_calls window_of_append) (simp add: window_of_def)
    ultimately show ?thesis by (simp add: run)
  next
    case False
    then have "spent_on cost_of b (?events @ [?e]) t (Some s) = spent_on cost_of b ?events t (Some s)"
      using assms(2)
      by (auto simp: spent_calls window_of_append) (auto simp: window_of_def event_of_def did_happen_def split: if_splits)
    then show ?thesis using held by (simp add: run)
  qed
qed

text \<open>
  Property C38. A budget of calls is never exceeded: whatever calls are put to it in the order of time,
  at no instant from the last on have more of the calls it covers happened in its window, or in one
  session, than its limit.
\<close>

theorem call_budget_is_never_exceeded:
  assumes "b \<in> set budgets" "bd_unit b = UNIT_CALLS" "0 \<le> bd_limit b"
    and "sorted (map fst calls)" "\<forall>call \<in> set calls. fst call \<le> t"
  shows "of_nat (length (filter (\<lambda>e. covers_action b (ev_operation e) \<and> did_happen e)
      (window_of b (budget_run cost_of budgets [] calls) t (Some s)))) \<le> bd_limit b"
proof -
  have "ev_at ` set (budget_call cost_of budgets events call) = insert (fst call) (ev_at ` set events)" for events call
    by (cases call) (simp add: budget_call_def event_of_def Let_def)
  then have "ev_at ` set (budget_run cost_of budgets [] calls) \<subseteq> fst ` set calls" for calls
    by (induction calls rule: rev_induct) (auto simp: budget_run_def)
  then have "ends_by t (budget_run cost_of budgets [] calls)" using assms(5) by (fastforce simp: ends_by_def)
  then show ?thesis using budget_run_holds [OF assms(1-3,4)] assms(2) by (simp add: spent_calls)
qed

lemma call_budget_is_never_exceeded_witness:
  "of_nat (length (filter (\<lambda>e. covers_action (suggested ''d'' [''deploy.*''] 1) (ev_operation e) \<and> did_happen e)
      (window_of (suggested ''d'' [''deploy.*''] 1)
        (budget_run reported_cost [suggested ''d'' [''deploy.*''] 1] [] [(1, ''s'', ''deploy.app''), (2, ''s'', ''deploy.app'')])
        2 (Some ''s'')))) \<le> (1 :: rat)"
  using call_budget_is_never_exceeded [of "suggested ''d'' [''deploy.*''] 1" "[suggested ''d'' [''deploy.*''] 1]"
      "[(1, ''s'', ''deploy.app''), (2, ''s'', ''deploy.app'')]" 2 reported_cost "''s''"]
  by (simp add: suggested_def)

end
