(* ===== verification/Autonomy.thy ===== *)
theory Autonomy
  imports Budgets Enforcement "HOL-Library.AList" "HOL-Library.List_Lexorder"
begin

text \<open>
  What could be handed over next, from what a person has approved
  (\<open>packages/core/src/session/autonomy.ts\<close>), and the rule that hands it over
  (\<open>packages/cli/src/protect/written-rules.ts\<close>). How the host's language sorts words is the
  argument \<open>collate\<close>.
\<close>

section \<open>The ladder\<close>

datatype autonomy_level = AUTONOMY_OBSERVE | AUTONOMY_ASSIST | AUTONOMY_SUPERVISED | AUTONOMY_AUTONOMOUS | AUTONOMY_TRUSTED

definition AUTONOMY_ORDER :: "autonomy_level list" where
  "AUTONOMY_ORDER = [AUTONOMY_OBSERVE, AUTONOMY_ASSIST, AUTONOMY_SUPERVISED, AUTONOMY_AUTONOMOUS, AUTONOMY_TRUSTED]"

definition PROMOTION_THRESHOLD :: nat where "PROMOTION_THRESHOLD = 5"
definition MINIMUM_EVIDENCE :: nat where "MINIMUM_EVIDENCE = 50"
definition MOST_HANDED_TARGETS :: nat where "MOST_HANDED_TARGETS = 20"
definition PATTERN_MARKS :: "string list" where "PATTERN_MARKS = [''*'', ''!'', ''{workspace}'']"

record delegation =
  dg_action :: string
  dg_approvals :: nat
  dg_denials :: nat
  dg_last_at :: time
  dg_class :: string
  dg_targets :: "string list"
  dg_recommendation :: autonomy_level
  dg_because :: string

definition CEILING :: "(string \<times> autonomy_level) list" where
  "CEILING =
     [(TC_READ, AUTONOMY_TRUSTED), (TC_WRITE, AUTONOMY_AUTONOMOUS), (TC_COMMUNICATION, AUTONOMY_SUPERVISED),
      (TC_DESTRUCTIVE, AUTONOMY_SUPERVISED), (TC_UNKNOWN, AUTONOMY_SUPERVISED)]"

definition ceiling_for :: "string \<Rightarrow> autonomy_level" where
  "ceiling_for class = or_else (map_of CEILING class) AUTONOMY_SUPERVISED"

record tally =
  ty_approvals :: nat
  ty_denials :: nat
  ty_last_at :: time
  ty_class :: string
  ty_targets :: "string list"

definition CLASS_REACH :: "(string \<times> nat) list" where
  "CLASS_REACH = [(TC_READ, 0), (TC_WRITE, 1), (TC_COMMUNICATION, 2), (TC_UNKNOWN, 2), (TC_DESTRUCTIVE, 3)]"

definition class_reach :: "string \<Rightarrow> nat" where
  "class_reach class = or_else (map_of CLASS_REACH class) 2"

definition wider_class :: "string \<Rightarrow> string \<Rightarrow> string" where
  "wider_class held seen = (if class_reach seen > class_reach held then seen else held)"

section \<open>What a person decided\<close>

definition asked_event :: "memnox_event \<Rightarrow> bool" where "asked_event e \<longleftrightarrow> ev_effect e = ASK"
definition denied_event :: "memnox_event \<Rightarrow> bool" where "denied_event e \<longleftrightarrow> ev_effect e = DENY"

definition counted :: "tally option \<Rightarrow> memnox_event \<Rightarrow> tally" where
  "counted held e =
     (let t = or_else held
            \<lparr>ty_approvals = 0, ty_denials = 0, ty_last_at = ev_at e, ty_class = ev_class e, ty_targets = []\<rparr>;
          yes = asked_event e \<and> ev_authorized_by e \<noteq> None;
          targets = (case ev_target e of None \<Rightarrow> ty_targets t
            | Some target \<Rightarrow> if yes \<and> target \<noteq> [] then uniq (ty_targets t @ [target]) else ty_targets t)
      in \<lparr>ty_approvals = ty_approvals t + (if yes then 1 else 0),
          ty_denials = ty_denials t + (if asked_event e then 0 else 1),
          ty_last_at = (if ev_at e > ty_last_at t then ev_at e else ty_last_at t),
          ty_class = wider_class (ty_class t) (ev_class e), ty_targets = targets\<rparr>)"

definition tally_event :: "(string \<times> tally) list \<Rightarrow> memnox_event \<Rightarrow> (string \<times> tally) list" where
  "tally_event tallies e =
     (if \<not> asked_event e \<and> \<not> denied_event e then tallies
      else AList.update (ev_operation e) (counted (map_of tallies (ev_operation e)) e) tallies)"

definition tallies_of :: "memnox_event list \<Rightarrow> (string \<times> tally) list" where
  "tallies_of events = foldl tally_event [] events"

definition recommend :: "tally \<Rightarrow> nat \<Rightarrow> autonomy_level \<times> string" where
  "recommend t threshold =
     (if ty_denials t > 0
      then (AUTONOMY_ASSIST, ''refused '' @ nat_text (ty_denials t) @ '' time(s); keep asking'')
      else if ty_approvals t < threshold
      then (AUTONOMY_ASSIST, ''approved '' @ nat_text (ty_approvals t) @ '' time(s), fewer than the '' @
        nat_text threshold @ '' that would make this a habit'')
      else (let ceiling = ceiling_for (ty_class t) in
        (ceiling,
         if ceiling = AUTONOMY_SUPERVISED
         then ''approved '' @ nat_text (ty_approvals t) @ '' times, and stays supervised because it is '' @ ty_class t
         else ''approved '' @ nat_text (ty_approvals t) @ '' times with no refusal'')))"

definition delegation_of :: "nat \<Rightarrow> string \<times> tally \<Rightarrow> delegation" where
  "delegation_of threshold entry =
     (let (action, t) = entry; (recommendation, because) = recommend t threshold
      in \<lparr>dg_action = action, dg_approvals = ty_approvals t, dg_denials = ty_denials t, dg_last_at = ty_last_at t,
          dg_class = ty_class t, dg_targets = sort (ty_targets t), dg_recommendation = recommendation,
          dg_because = because\<rparr>)"

text \<open>Most approvals first, and among as many by the name of the action.\<close>

definition delegations :: "(string \<Rightarrow> string) \<Rightarrow> memnox_event list \<Rightarrow> nat \<Rightarrow> delegation list" where
  "delegations collate events threshold =
     sort_key (\<lambda>d. - int (dg_approvals d)) (sort_key (\<lambda>d. collate (dg_action d))
       (map (delegation_of threshold) (tallies_of events)))"

section \<open>What keeps an action a question\<close>

datatype hold_back_kind = KEPT_REFUSED | KEPT_TOO_FEW | KEPT_CEILING | KEPT_WIDER

definition wider_than_approved :: "delegation \<Rightarrow> (hold_back_kind \<times> string) option" where
  "wider_than_approved seen =
     (case find (\<lambda>target. list_ex (\<lambda>mark. includes_text mark target) PATTERN_MARKS) (dg_targets seen) of
        Some patterned \<Rightarrow> Some (KEPT_WIDER, ''it was approved on '' @ patterned @
          '', which a rule would read as a pattern and so allow more than that'')
      | None \<Rightarrow>
          if length (dg_targets seen) > MOST_HANDED_TARGETS
          then Some (KEPT_WIDER, ''it was approved on '' @ nat_text (length (dg_targets seen)) @
            '' different targets, more than one rule should list; hand over the ones you mean with memnox protect'')
          else None)"

definition hold_back_of :: "delegation \<Rightarrow> nat \<Rightarrow> (hold_back_kind \<times> string) option" where
  "hold_back_of seen threshold =
     (if dg_denials seen > 0
      then Some (KEPT_REFUSED, ''somebody refused it '' @ nat_text (dg_denials seen) @ '' time(s), so it stays a question'')
      else if dg_approvals seen < threshold
      then Some (KEPT_TOO_FEW, ''approved '' @ nat_text (dg_approvals seen) @ '' time(s), fewer than the '' @
        nat_text threshold @ '' that make it a habit'')
      else if dg_recommendation seen = AUTONOMY_ASSIST then Some (KEPT_TOO_FEW, dg_because seen)
      else if dg_recommendation seen = AUTONOMY_SUPERVISED
      then Some (KEPT_CEILING, ''it is '' @ dg_class seen @ '', which stays supervised however routine it became'')
      else wider_than_approved seen)"

definition handable :: "delegation \<Rightarrow> nat \<Rightarrow> bool" where
  "handable d threshold \<longleftrightarrow> hold_back_of d threshold = None"

definition promotable :: "delegation list \<Rightarrow> nat \<Rightarrow> delegation list" where
  "promotable found threshold =
     filter (\<lambda>d. case hold_back_of d threshold of None \<Rightarrow> True
       | Some (kind, because) \<Rightarrow> kind = KEPT_CEILING \<or> kind = KEPT_WIDER) found"

datatype hand_over_verdict = HAND_OVER_READY string delegation | HAND_OVER_KEPT string string

definition hand_over_verdict :: "string \<Rightarrow> delegation list \<Rightarrow> nat \<Rightarrow> hand_over_verdict" where
  "hand_over_verdict action found threshold =
     (case find (\<lambda>d. dg_action d = action) found of
        None \<Rightarrow> HAND_OVER_KEPT action ''nothing has been held for it, so there is no yes to stop asking for''
      | Some seen \<Rightarrow>
          (case hold_back_of seen threshold of
             Some (kind, because) \<Rightarrow> HAND_OVER_KEPT action because
           | None \<Rightarrow> HAND_OVER_READY action seen))"

definition describe_handed_reach :: "delegation \<Rightarrow> string" where
  "describe_handed_reach d =
     (if dg_targets d = [] then ''no approval named a target, so it allows the action wherever it runs''
      else ''only on the '' @
        (if length (dg_targets d) = 1 then ''target'' else nat_text (length (dg_targets d)) @ '' targets'') @
        '' it was approved for'')"

section \<open>How often somebody is interrupted\<close>

definition interrupts :: "time \<Rightarrow> memnox_event list \<Rightarrow> memnox_event list" where
  "interrupts since events = filter (\<lambda>e. ev_effect e = ASK \<and> \<not> ev_at e < since) events"

definition interruptions :: "memnox_event list \<Rightarrow> time \<Rightarrow> nat \<times> (string \<times> nat) list" where
  "interruptions events since =
     (let asks = interrupts since events;
          counts = foldl (\<lambda>cs e. AList.update (ev_operation e) (or_else (map_of cs (ev_operation e)) 0 + 1) cs) [] asks
      in (length asks, sort_key (\<lambda>(action, n). - int n) counts))"

definition standing_of :: "bool \<Rightarrow> nat \<Rightarrow> nat \<Rightarrow> nat \<Rightarrow> autonomy_level" where
  "standing_of enforcing rule_count asks actions =
     (if \<not> enforcing \<or> rule_count = 0 then AUTONOMY_OBSERVE
      else if actions = 0 then AUTONOMY_ASSIST
      else if 5 * asks > actions then AUTONOMY_ASSIST
      else if 50 * asks > actions then AUTONOMY_SUPERVISED
      else if actions < MINIMUM_EVIDENCE then AUTONOMY_SUPERVISED
      else if asks > 0 then AUTONOMY_AUTONOMOUS
      else AUTONOMY_TRUSTED)"

fun describe_level :: "autonomy_level \<Rightarrow> string" where
  "describe_level AUTONOMY_OBSERVE = ''watching, enforcing nothing''"
| "describe_level AUTONOMY_ASSIST = ''asking about most things that change something''"
| "describe_level AUTONOMY_SUPERVISED = ''routine work runs, the rest is held''"
| "describe_level AUTONOMY_AUTONOMOUS = ''running inside a boundary you wrote''"
| "describe_level AUTONOMY_TRUSTED = ''running, and the boundary has caught nothing''"

section \<open>The rule that hands an action over\<close>

definition allow_rule_name :: "string \<Rightarrow> string" where
  "allow_rule_name action = ''allow-'' @ join_with ''-'' (runs_off (\<lambda>c. \<not> is_alnum c) action)"

definition handed_rule :: "policy list \<Rightarrow> delegation \<Rightarrow> policy" where
  "handed_rule standing d =
     (let relaxing = asks_to_relax standing (dg_action d);
          named = plain_policy (allow_rule_name (dg_action d))
            ((match_actions [dg_action d])\<lparr>pm_targets := if dg_targets d = [] then None else Some (dg_targets d)\<rparr>)
            ((plain_decision ALLOW)\<lparr>pd_reason := Some (dg_because d),
               pd_relaxes := if relaxing = [] then None else Some relaxing\<rparr>)
      in named\<lparr>p_description := Some (''Handed over after '' @ nat_text (dg_approvals d) @
           '' approvals and no refusal, '' @ describe_handed_reach d @ ''.'')\<rparr>)"

definition new_allow_rules :: "policy list \<Rightarrow> delegation list \<Rightarrow> policy list \<Rightarrow> policy list" where
  "new_allow_rules existing handing standing =
     map (handed_rule standing) (filter (\<lambda>d. allow_rule_name (dg_action d) \<notin> p_name ` set existing) handing)"

section \<open>What a tally holds\<close>

definition authorized :: "string \<Rightarrow> memnox_event \<Rightarrow> bool" where
  "authorized action e \<longleftrightarrow> ev_operation e = action \<and> ev_effect e = ASK \<and> ev_authorized_by e \<noteq> None"

definition held_for :: "string \<Rightarrow> memnox_event \<Rightarrow> bool" where
  "held_for action e \<longleftrightarrow> ev_operation e = action \<and> ev_effect e \<noteq> ALLOW"

definition tally_right :: "string \<Rightarrow> memnox_event list \<Rightarrow> tally \<Rightarrow> bool" where
  "tally_right action events t \<longleftrightarrow>
     ty_approvals t = length (filter (authorized action) events) \<and>
     ty_denials t = length (filter (\<lambda>e. ev_operation e = action \<and> ev_effect e = DENY) events) \<and>
     set (ty_targets t) = {x. x \<noteq> [] \<and> (\<exists>e \<in> set events. authorized action e \<and> ev_target e = Some x)} \<and>
     (\<forall>e \<in> set events. held_for action e \<longrightarrow> class_reach (ev_class e) \<le> class_reach (ty_class t))"

lemma wider_class_reach:
  "class_reach held \<le> class_reach (wider_class held seen)" "class_reach seen \<le> class_reach (wider_class held seen)"
  by (auto simp: wider_class_def)

definition no_tally :: "memnox_event \<Rightarrow> tally" where
  "no_tally e = \<lparr>ty_approvals = 0, ty_denials = 0, ty_last_at = ev_at e, ty_class = ev_class e, ty_targets = []\<rparr>"

lemma counted_right:
  assumes "tally_right action events (or_else held (no_tally e))" "held_for action e"
  shows "tally_right action (events @ [e]) (counted held e)"
proof -
  let ?t = "or_else held (no_tally e)"
  have c: "counted held e = \<lparr>ty_approvals = ty_approvals ?t + (if authorized action e then 1 else 0),
      ty_denials = ty_denials ?t + (if ev_effect e = DENY then 1 else 0),
      ty_last_at = (if ev_at e > ty_last_at ?t then ev_at e else ty_last_at ?t),
      ty_class = wider_class (ty_class ?t) (ev_class e),
      ty_targets = (case ev_target e of None \<Rightarrow> ty_targets ?t
        | Some x \<Rightarrow> if authorized action e \<and> x \<noteq> [] then uniq (ty_targets ?t @ [x]) else ty_targets ?t)\<rparr>"
    using assms(2)
    by (cases "ev_effect e") (auto simp: counted_def Let_def asked_event_def held_for_def authorized_def no_tally_def
         split: option.splits)
  have "class_reach (ev_class x) \<le> class_reach (ty_class (counted held e))"
    if "x \<in> set (events @ [e])" "held_for action x" for x
    using that assms(1) wider_class_reach order_trans unfolding c tally_right_def by fastforce
  moreover have "set (ty_targets (counted held e)) =
      {x. x \<noteq> [] \<and> (\<exists>f \<in> set (events @ [e]). authorized action f \<and> ev_target f = Some x)}"
    using assms(1) unfolding c tally_right_def by (auto split: option.splits)
  ultimately show ?thesis using assms unfolding tally_right_def by (simp add: c held_for_def)
qed

lemma other_event_right:
  "tally_right action events t \<Longrightarrow> \<not> held_for action e \<Longrightarrow> tally_right action (events @ [e]) t"
  by (auto simp: tally_right_def held_for_def authorized_def)

lemma nothing_held_right:
  "\<forall>e \<in> set events. \<not> held_for action e \<Longrightarrow> tally_right action events (no_tally f)"
  by (auto simp: tally_right_def no_tally_def held_for_def authorized_def filter_empty_conv)

lemma distinct_tallies: "distinct (map fst (tallies_of events))"
  unfolding tallies_of_def
  by (induction events rule: rev_induct) (simp_all add: tally_event_def distinct_update)

lemma tallies_right:
  "case map_of (tallies_of events) action of
      None \<Rightarrow> (\<forall>e \<in> set events. \<not> held_for action e)
    | Some t \<Rightarrow> tally_right action events t"
proof (induction events rule: rev_induct)
  case (snoc e events)
  let ?ts = "tallies_of events"
  have step: "tallies_of (events @ [e]) = tally_event ?ts e" by (simp add: tallies_of_def)
  have held: "held_for (ev_operation e) e \<longleftrightarrow> asked_event e \<or> denied_event e"
    by (cases "ev_effect e") (auto simp: held_for_def asked_event_def denied_event_def)
  show ?case
  proof (cases "held_for action e")
    case True
    then have "tallies_of (events @ [e]) = AList.update action (counted (map_of ?ts action) e) ?ts"
      using held by (auto simp: step tally_event_def held_for_def)
    moreover have "tally_right action events (or_else (map_of ?ts action) (no_tally e))"
      using snoc.IH nothing_held_right by (auto split: option.splits)
    ultimately show ?thesis using counted_right [OF _ True] by (simp add: update_conv')
  next
    case False
    then have "map_of (tallies_of (events @ [e])) action = map_of ?ts action"
      using held by (auto simp: step tally_event_def update_conv' held_for_def)
    then show ?thesis using snoc.IH False other_event_right by (auto split: option.splits)
  qed
qed (simp add: tallies_of_def)

lemma delegation_on_record:
  assumes "d \<in> set (delegations collate events threshold)"
  shows "\<exists>t. d = delegation_of threshold (dg_action d, t) \<and> tally_right (dg_action d) events t"
proof -
  obtain a t where at: "(a, t) \<in> set (tallies_of events)" "d = delegation_of threshold (a, t)"
    using assms by (auto simp: delegations_def)
  have "map_of (tallies_of events) a = Some t" using distinct_tallies at(1) by (rule map_of_is_SomeI)
  then have "tally_right a events t" using tallies_right [of events a] by simp
  moreover have "dg_action d = a" by (simp add: at(2) delegation_of_def case_prod_beta)
  ultimately show ?thesis using at(2) by auto
qed

section \<open>What is handed over\<close>

lemma ceiling_reach: "ceiling_for class \<noteq> AUTONOMY_SUPERVISED \<Longrightarrow> class_reach class \<le> 1"
  by (auto simp: ceiling_for_def CEILING_def class_reach_def CLASS_REACH_def split: if_splits)

lemma class_reach_low: "class_reach class \<le> 1 \<Longrightarrow> class = TC_READ \<or> class = TC_WRITE"
  by (auto simp: class_reach_def CLASS_REACH_def split: if_splits)

lemma ready_facts:
  assumes "hand_over_verdict action (delegations collate events threshold) threshold = HAND_OVER_READY a d"
  shows "d \<in> set (delegations collate events threshold)" "dg_action d = action" "hold_back_of d threshold = None"
  using assms find_in [of "\<lambda>d. dg_action d = action" "delegations collate events threshold"]
  by (auto simp: hand_over_verdict_def split: option.splits)

lemma handed_over_targets:
  assumes "hand_over_verdict action (delegations collate events threshold) threshold = HAND_OVER_READY a d"
  shows "set (dg_targets d) = {x. x \<noteq> [] \<and> (\<exists>e \<in> set events. authorized action e \<and> ev_target e = Some x)}"
proof -
  note ready = ready_facts [OF assms]
  obtain t where t: "d = delegation_of threshold (action, t)" "tally_right action events t"
    using delegation_on_record [OF ready(1)] ready(2) by auto
  then show ?thesis by (simp add: delegation_of_def case_prod_beta tally_right_def)
qed

text \<open>
  Property C39. An action is handed over only on its record: nobody refused it once, a person said yes
  to it as often as the threshold, every time it was held it read or wrote and did no more, and the
  targets it is handed over for are exactly those of the yeses.
\<close>

theorem handed_over_on_its_record:
  assumes "hand_over_verdict action (delegations collate events threshold) threshold = HAND_OVER_READY a d"
  shows "filter (\<lambda>e. ev_operation e = action \<and> ev_effect e = DENY) events = [] \<and>
    threshold \<le> length (filter (authorized action) events) \<and>
    (\<forall>e \<in> set events. held_for action e \<longrightarrow> ev_class e \<in> {TC_READ, TC_WRITE}) \<and>
    set (dg_targets d) = {x. x \<noteq> [] \<and> (\<exists>e \<in> set events. authorized action e \<and> ev_target e = Some x)}"
proof -
  note ready = ready_facts [OF assms]
  obtain t where t: "d = delegation_of threshold (action, t)" "tally_right action events t"
    using delegation_on_record [OF ready(1)] ready(2) by auto
  have clear: "ty_denials t = 0" "threshold \<le> ty_approvals t" "ceiling_for (ty_class t) \<noteq> AUTONOMY_SUPERVISED"
    using ready(3) by (auto simp: t(1) delegation_of_def hold_back_of_def recommend_def Let_def split: if_splits)
  have "ev_class e \<in> {TC_READ, TC_WRITE}" if "e \<in> set events" "held_for action e" for e
  proof -
    have "class_reach (ev_class e) \<le> class_reach (ty_class t)" using t(2) that unfolding tally_right_def by blast
    then have "class_reach (ev_class e) \<le> 1" using ceiling_reach [OF clear(3)] by simp
    then show ?thesis using class_reach_low by blast
  qed
  moreover have "length (filter (\<lambda>e. ev_operation e = action \<and> ev_effect e = DENY) events) = 0"
    "threshold \<le> length (filter (authorized action) events)"
    using t(2) clear by (auto simp only: tally_right_def)
  ultimately show ?thesis using handed_over_targets [OF assms] by simp
qed

definition said_yes :: "string \<Rightarrow> memnox_event" where
  "said_yes target =
     (event_of 1 ''s'' ''fs.write'' TC_WRITE ASK)\<lparr>ev_target := Some target, ev_authorized_by := Some ''me''\<rparr>"

lemma handed_over_on_its_record_witness:
  "\<exists>d. hand_over_verdict ''fs.write'' (delegations (\<lambda>a. a) [said_yes ''/w/a'', said_yes ''/w/b''] 2) 2 =
     HAND_OVER_READY ''fs.write'' d \<and> set (dg_targets d) = {''/w/a'', ''/w/b''}"
proof -
  let ?events = "[said_yes ''/w/a'', said_yes ''/w/b'']"
  let ?v = "hand_over_verdict ''fs.write'' (delegations (\<lambda>a. a) ?events 2) 2"
  have "case ?v of HAND_OVER_READY a d \<Rightarrow> a = ''fs.write'' | HAND_OVER_KEPT a b \<Rightarrow> False" by code_simp
  then obtain d where d: "?v = HAND_OVER_READY ''fs.write'' d" by (auto split: hand_over_verdict.splits)
  from handed_over_on_its_record [OF d] have "set (dg_targets d) = {''/w/a'', ''/w/b''}"
    by (auto simp: authorized_def said_yes_def event_of_def)
  with d show ?thesis by blast
qed

lemma unmarked:
  assumes "wider_than_approved d = None" "x \<in> set (dg_targets d)"
  shows "WILDCARD \<notin> set x" "\<not> is_exclusion x" "\<not> includes_text WORKSPACE_TOKEN x"
proof -
  have none: "\<not> includes_text mark x" if "mark \<in> set PATTERN_MARKS" for mark
    using assms that by (auto simp: wider_than_approved_def find_None list_ex_iff split: option.splits if_splits)
  have single: "c \<in> set s \<longleftrightarrow> includes_text [c] s" for c s
    by (induction s) (auto simp: starts_with_def)
  show "WILDCARD \<notin> set x" using none [of "''*''"] single [of WILDCARD x] by (simp add: PATTERN_MARKS_def WILDCARD_def)
  have "includes_text EXCLUDE x" if "starts_with EXCLUDE x" using that by (cases x) (auto simp: EXCLUDE_def starts_with_def)
  then show "\<not> is_exclusion x" using none [of "''!''"] by (auto simp: PATTERN_MARKS_def is_exclusion_def EXCLUDE_def)
  show "\<not> includes_text WORKSPACE_TOKEN x"
    using none [of "''{workspace}''"] by (simp add: PATTERN_MARKS_def WORKSPACE_TOKEN_def)
qed

lemma literal_targets:
  assumes "ts \<noteq> []" "\<forall>x \<in> set ts. WILDCARD \<notin> set x \<and> \<not> is_exclusion x"
  shows "matches_any (Some ts) v \<longleftrightarrow> (\<exists>x \<in> set ts. \<exists>t. v = Some t \<and> to_lower t = to_lower x)"
proof (cases v)
  case None
  have "[WILDCARD] \<notin> set ts" using assms(2) by fastforce
  then show ?thesis using assms None by (cases ts) (auto simp: matches_any_unreported only_exclusions_def)
next
  case (Some t)
  have "\<not> only_exclusions ts" using assms by (cases ts) (auto simp: only_exclusions_def)
  then show ?thesis using assms(2) Some matches_literal
    by (auto simp: matches_any_Some excludes_def admits_def)
qed

lemma handed_rule_match [simp]:
  "pm_actions (p_match (handed_rule standing d)) = [dg_action d]"
  "pm_targets (p_match (handed_rule standing d)) = (if dg_targets d = [] then None else Some (dg_targets d))"
  by (simp_all add: handed_rule_def Let_def plain_policy_def match_actions_def)

text \<open>
  The rule that hands an action over reaches no further than the yeses did: where the
  action's name is no pattern, a request the rule matches is that action up to case, and where the
  yeses named targets it is on one of them up to case.
\<close>

theorem handed_rule_reaches_what_was_approved:
  assumes "hand_over_verdict action (delegations collate events threshold) threshold = HAND_OVER_READY a d"
    and "policy_matches (handed_rule standing d) request context"
    and "WILDCARD \<notin> set action" "\<not> is_exclusion action"
  shows "to_lower (rq_action request) = to_lower action \<and>
    (dg_targets d = [] \<or> (\<exists>e \<in> set events. \<exists>x t. authorized action e \<and> ev_target e = Some x \<and>
       rq_target request = Some t \<and> to_lower t = to_lower x))"
proof -
  note ready = ready_facts [OF assms(1)]
  have wide: "wider_than_approved d = None" using ready(3) by (simp add: hold_back_of_def split: if_splits)
  have "matches_any (Some [action]) (Some (rq_action request))"
    using assms(2) ready(2) by (simp add: policy_matches_def Let_def)
  then have named: "to_lower (rq_action request) = to_lower action"
    using assms(3,4) literal_targets [of "[action]" "Some (rq_action request)"] by simp
  have "\<exists>e \<in> set events. \<exists>x t. authorized action e \<and> ev_target e = Some x \<and>
      rq_target request = Some t \<and> to_lower t = to_lower x" if some: "dg_targets d \<noteq> []"
  proof -
    have "\<not> list_ex (includes_text WORKSPACE_TOKEN) (dg_targets d)" using unmarked(3) [OF wide] by (auto simp: list_ex_iff)
    then have "matches_any (Some (dg_targets d)) (rq_target request)"
      using assms(2) some by (simp add: policy_matches_def Let_def with_workspace_def)
    then obtain x t where x: "x \<in> set (dg_targets d)" "rq_target request = Some t" "to_lower t = to_lower x"
      using literal_targets [OF some, of "rq_target request"] unmarked(1,2) [OF wide] by auto
    then obtain e where "e \<in> set events" "authorized action e" "ev_target e = Some x"
      using handed_over_targets [OF assms(1)] by auto
    then show ?thesis using x by blast
  qed
  then show ?thesis using named by blast
qed

definition writing_to :: "string \<Rightarrow> action_request" where
  "writing_to target = (bare_request ''fs.write'')\<lparr>rq_target := Some target\<rparr>"

lemma handed_rule_reaches_what_was_approved_witness:
  "\<exists>d. policy_matches (handed_rule [] d) (writing_to ''/W/a'') (plain_context ''a'') \<and>
     (dg_targets d = [] \<or> (\<exists>e \<in> {said_yes ''/w/a''}. \<exists>x t. authorized ''fs.write'' e \<and> ev_target e = Some x \<and>
       rq_target (writing_to ''/W/a'') = Some t \<and> to_lower t = to_lower x))"
proof -
  let ?v = "hand_over_verdict ''fs.write'' (delegations (\<lambda>a. a) [said_yes ''/w/a''] 1) 1"
  have "case ?v of HAND_OVER_KEPT a b \<Rightarrow> False
      | HAND_OVER_READY a d \<Rightarrow> a = ''fs.write'' \<and> policy_matches (handed_rule [] d) (writing_to ''/W/a'') (plain_context ''a'')"
    by code_simp
  then obtain d where d: "?v = HAND_OVER_READY ''fs.write'' d"
    "policy_matches (handed_rule [] d) (writing_to ''/W/a'') (plain_context ''a'')" by (auto split: hand_over_verdict.splits)
  have "WILDCARD \<notin> set ''fs.write''" "\<not> is_exclusion ''fs.write''" by code_simp+
  with handed_rule_reaches_what_was_approved [OF d] d(2) show ?thesis by auto
qed

text \<open>
  The targets of a handed-over rule are kept from reading as patterns, its action is not: yeses to one
  tool whose name holds a star hand over a rule that allows every tool the name matches.
\<close>

definition star_tool_yes :: memnox_event where
  "star_tool_yes = (event_of 1 ''s'' ''mcp.s.get*'' TC_READ ASK)\<lparr>ev_authorized_by := Some ''me''\<rparr>"

theorem starred_action_is_handed_over_wide:
  "case hand_over_verdict ''mcp.s.get*'' (delegations (\<lambda>a. a) (replicate 5 star_tool_yes) PROMOTION_THRESHOLD) PROMOTION_THRESHOLD of
     HAND_OVER_READY a d \<Rightarrow>
       policy_matches (handed_rule [] d) (bare_request ''mcp.s.get_and_delete'') (plain_context ''a'')
   | HAND_OVER_KEPT a because \<Rightarrow> False"
  by code_simp

end
