(* ===== verification/Probation.thy ===== *)
theory Probation
  imports RecordStore Clock
begin

text \<open>
  Something new asks before it writes or reaches out until its period ends or a person trusts it
  (\<open>packages/core/src/session/probation.ts\<close>), the hosts each agent was seen to reach
  (\<open>session/destinations.ts\<close>), and what a session was started inside
  (\<open>session/session-containment.ts\<close>).
\<close>

section \<open>Probation\<close>

datatype probation_kind = PROBATION_AGENT | PROBATION_MCP_SERVER | PROBATION_REPOSITORY

definition PROBATION_DAYS :: int where "PROBATION_DAYS = 7"

record probation_entry =
  pb_kind :: probation_kind
  pb_name :: string
  pb_label :: "string option"
  pb_since :: time
  pb_until :: time
  pb_trusted_at :: "time option"

fun trust_command_for :: "probation_kind \<Rightarrow> string \<Rightarrow> string" where
  "trust_command_for PROBATION_REPOSITORY n = ''memnox repo trust '' @ n"
| "trust_command_for PROBATION_AGENT n = ''memnox agents trust '' @ n"
| "trust_command_for PROBATION_MCP_SERVER n = ''memnox mcp trust '' @ n"

text \<open>The letters and digits of a name in lower case.\<close>

definition bare_name :: "string \<Rightarrow> string" where
  "bare_name n = filter (\<lambda>c. is_digit c \<or> is_lower c) (to_lower n)"

definition named_by :: "probation_entry \<Rightarrow> string \<Rightarrow> bool" where
  "named_by e n \<longleftrightarrow>
     bare_name (pb_name e) = bare_name n \<or>
     (case pb_label e of None \<Rightarrow> False | Some l \<Rightarrow> bare_name l = bare_name n)"

definition entry_for :: "probation_entry list \<Rightarrow> probation_kind \<Rightarrow> string \<Rightarrow> probation_entry option" where
  "entry_for entries kind n = find (\<lambda>e. pb_kind e = kind \<and> named_by e n) entries"

definition probation_of :: "probation_entry list \<Rightarrow> probation_kind \<Rightarrow> string \<Rightarrow> time \<Rightarrow> probation_entry option" where
  "probation_of entries kind n now =
     (case entry_for entries kind n of
        None \<Rightarrow> None
      | Some e \<Rightarrow> if pb_trusted_at e \<noteq> None then None else if pb_until e > now then Some e else None)"

definition probations_in_force :: "probation_entry list \<Rightarrow> time \<Rightarrow> probation_entry list" where
  "probations_in_force entries now =
     sort_key pb_until (filter (\<lambda>e. probation_of [e] (pb_kind e) (pb_name e) now \<noteq> None) entries)"

definition probation_start ::
  "probation_entry list \<Rightarrow> probation_kind \<Rightarrow> string \<Rightarrow> string option \<Rightarrow> time \<Rightarrow> int \<Rightarrow>
     probation_entry option \<times> probation_entry list" where
  "probation_start entries kind n label now days =
     (if list_ex (\<lambda>e. pb_kind e = kind \<and> named_by e n) entries then (None, entries)
      else (let e = \<lparr>pb_kind = kind, pb_name = n, pb_label = label, pb_since = now, pb_until = now + days * DAY_MS,
                     pb_trusted_at = None\<rparr>
            in (Some e, entries @ [e])))"

text \<open>The first element that passes, replaced.\<close>

fun replace_first :: "('a \<Rightarrow> bool) \<Rightarrow> ('a \<Rightarrow> 'a) \<Rightarrow> 'a list \<Rightarrow> 'a list" where
  "replace_first p f [] = []"
| "replace_first p f (x # xs) = (if p x then f x # xs else x # replace_first p f xs)"

definition trusted_entry :: "time \<Rightarrow> probation_entry \<Rightarrow> probation_entry" where
  "trusted_entry now e = e\<lparr>pb_trusted_at := Some (or_else (pb_trusted_at e) now)\<rparr>"

definition probation_trust ::
  "probation_entry list \<Rightarrow> probation_kind \<Rightarrow> string \<Rightarrow> time \<Rightarrow> probation_entry option \<times> probation_entry list" where
  "probation_trust entries kind n now =
     (case entry_for entries kind n of
        None \<Rightarrow> (None, entries)
      | Some e \<Rightarrow> (Some (trusted_entry now e),
          replace_first (\<lambda>e. pb_kind e = kind \<and> named_by e n) (trusted_entry now) entries))"

section \<open>Destinations\<close>

definition MOST_DESTINATIONS :: nat where "MOST_DESTINATIONS = 500"

record destination_seen =
  ds_host :: string
  ds_first :: time
  ds_last :: time
  ds_count :: nat

record agent_destinations =
  ad_agent :: string
  ad_hosts :: "destination_seen list"

definition is_new_destination :: "agent_destinations \<Rightarrow> string \<Rightarrow> bool" where
  "is_new_destination r host \<longleftrightarrow> \<not> list_ex (\<lambda>d. ds_host d = to_lower host) (ad_hosts r)"

definition note_destination :: "agent_destinations \<Rightarrow> string \<Rightarrow> time \<Rightarrow> agent_destinations \<times> bool" where
  "note_destination r host at_time =
     (let wanted = to_lower host;
          known = find (\<lambda>d. ds_host d = wanted) (ad_hosts r);
          seen = (case known of
              None \<Rightarrow> \<lparr>ds_host = wanted, ds_first = at_time, ds_last = at_time, ds_count = 1\<rparr>
            | Some d \<Rightarrow> d\<lparr>ds_last := at_time, ds_count := ds_count d + 1\<rparr>);
          others = filter (\<lambda>d. ds_host d \<noteq> wanted) (ad_hosts r);
          hosts = take MOST_DESTINATIONS (sort_key (\<lambda>d. - ds_last d) (others @ [seen]))
      in (\<lparr>ad_agent = ad_agent r, ad_hosts = hosts\<rparr>, known = None))"

text \<open>Each run of other characters is one underscore.\<close>

fun underscored :: "(char \<Rightarrow> bool) \<Rightarrow> bool \<Rightarrow> string \<Rightarrow> string" where
  "underscored keep inside [] = []"
| "underscored keep inside (c # s) =
     (if keep c then c # underscored keep False s
      else if inside then underscored keep True s
      else CHR ''_'' # underscored keep True s)"

definition file_id_of :: "string \<Rightarrow> string" where
  "file_id_of agent =
     underscored (\<lambda>c. is_digit c \<or> is_lower c \<or> c \<in> {CHR ''.'', CHR ''_'', CHR ''-''}) False (to_lower agent)"

type_synonym destinations_dir = "agent_destinations record_dir"

definition destinations_read :: "destinations_dir \<Rightarrow> string \<Rightarrow> agent_destinations" where
  "destinations_read dir agent = or_else (dir_read dir (file_id_of agent)) \<lparr>ad_agent = agent, ad_hosts = []\<rparr>"

definition destinations_write :: "destinations_dir \<Rightarrow> string \<Rightarrow> agent_destinations \<Rightarrow> destinations_dir" where
  "destinations_write dir agent r = dir_write dir (file_id_of agent) r"

definition destinations_record :: "destinations_dir \<Rightarrow> string \<Rightarrow> string \<Rightarrow> time \<Rightarrow> bool \<times> destinations_dir" where
  "destinations_record dir agent host at_time =
     (let (r, new_host) = note_destination (destinations_read dir agent) host at_time
      in (new_host, destinations_write dir agent r))"

section \<open>What a session was started inside\<close>

record session_containment =
  sc_session :: string
  sc_agent :: string
  sc_root :: "string option"
  sc_untrusted :: bool
  sc_started_at :: time

definition containment_declare :: "session_containment record_dir \<Rightarrow> session_containment \<Rightarrow> session_containment record_dir" where
  "containment_declare dir r = dir_write dir (sc_session r) r"

definition containment_read :: "session_containment record_dir \<Rightarrow> string \<Rightarrow> session_containment option" where
  "containment_read dir session = dir_read dir session"

definition containment_clear :: "session_containment record_dir \<Rightarrow> string \<Rightarrow> session_containment record_dir" where
  "containment_clear dir session = dir_remove dir session"

section \<open>Trust is kept\<close>

datatype probation_op = OP_START probation_kind string "string option" time int | OP_TRUST probation_kind string time

definition probation_step :: "probation_entry list \<Rightarrow> probation_op \<Rightarrow> probation_entry list" where
  "probation_step entries op =
     (case op of
        OP_START kind n label now days \<Rightarrow> snd (probation_start entries kind n label now days)
      | OP_TRUST kind n now \<Rightarrow> snd (probation_trust entries kind n now))"

definition probation_run :: "probation_entry list \<Rightarrow> probation_op list \<Rightarrow> probation_entry list" where
  "probation_run entries ops = foldl probation_step entries ops"

lemma trusted_entry_fields [simp]:
  "pb_kind (trusted_entry now e) = pb_kind e" "named_by (trusted_entry now e) n \<longleftrightarrow> named_by e n"
  "pb_until (trusted_entry now e) = pb_until e" "pb_trusted_at (trusted_entry now e) \<noteq> None"
  "pb_trusted_at e = Some t \<Longrightarrow> pb_trusted_at (trusted_entry now e) = Some t"
  by (auto simp: trusted_entry_def named_by_def)

lemma entry_for_append:
  "entry_for (entries @ more_entries) kind n = first_some (entry_for entries kind n) (entry_for more_entries kind n)"
  unfolding entry_for_def by (induction entries) auto

text \<open>An entry found stays the one found, and once trusted stays so.\<close>

definition same_entry :: "probation_entry \<Rightarrow> probation_entry \<Rightarrow> bool" where
  "same_entry e f \<longleftrightarrow> pb_kind f = pb_kind e \<and> pb_until f = pb_until e \<and> pb_since f = pb_since e \<and>
     (pb_trusted_at e \<noteq> None \<longrightarrow> pb_trusted_at f = pb_trusted_at e)"

lemma same_entry_refl [simp]: "same_entry e e"
  by (simp add: same_entry_def)

lemma same_entry_trans: "same_entry e f \<Longrightarrow> same_entry f g \<Longrightarrow> same_entry e g"
  by (auto simp: same_entry_def)

lemma replaced_entry:
  "entry_for entries kind n = Some e \<Longrightarrow>
     \<exists>f. entry_for (replace_first p (trusted_entry now) entries) kind n = Some f \<and> same_entry e f"
  unfolding entry_for_def
proof (induction entries)
  case (Cons x xs)
  have "same_entry x (trusted_entry now x)" by (auto simp: same_entry_def trusted_entry_def)
  then show ?case using Cons by (auto split: if_splits)
qed simp

lemma step_keeps_entry:
  assumes "entry_for entries kind n = Some e"
  shows "\<exists>f. entry_for (probation_step entries op) kind n = Some f \<and> same_entry e f"
proof (cases op)
  case (OP_START k m label now days)
  then show ?thesis using assms by (auto simp: probation_step_def probation_start_def entry_for_append Let_def)
next
  case (OP_TRUST k m now)
  then show ?thesis using assms replaced_entry [OF assms]
    by (auto simp: probation_step_def probation_trust_def split: option.splits)
qed

lemma run_keeps_entry:
  "entry_for entries kind n = Some e \<Longrightarrow>
     \<exists>f. entry_for (probation_run entries ops) kind n = Some f \<and> same_entry e f"
  unfolding probation_run_def
proof (induction ops arbitrary: entries e)
  case (Cons op ops)
  then obtain f where "entry_for (probation_step entries op) kind n = Some f" "same_entry e f"
    using step_keeps_entry by blast
  then show ?case using Cons.IH [of "probation_step entries op" f] same_entry_trans by (auto; blast)
qed simp

lemma trust_marks:
  assumes "entry_for entries kind n = Some e"
  shows "\<exists>f. entry_for (snd (probation_trust entries kind n now)) kind n = Some f \<and> pb_trusted_at f \<noteq> None"
proof -
  have "\<exists>f. entry_for (replace_first (\<lambda>e. pb_kind e = kind \<and> named_by e n) (trusted_entry now) xs) kind n = Some f \<and>
      pb_trusted_at f \<noteq> None" if "entry_for xs kind n = Some e" for xs e
    using that unfolding entry_for_def
    by (induction xs) (auto split: if_splits, simp add: trusted_entry_def)
  then show ?thesis using assms by (simp add: probation_trust_def)
qed

text \<open>
  Trust is kept: once a person has trusted a name on probation, whatever is started or
  trusted after, at no time is that name on probation again, and starting it again does nothing.
\<close>

theorem trusted_is_never_on_probation:
  assumes "entry_for entries kind n = Some e"
  shows "let later = probation_run (snd (probation_trust entries kind n now)) ops in
    probation_of later kind n moment = None \<and> probation_start later kind n label now' days = (None, later)"
proof -
  obtain f where f: "entry_for (snd (probation_trust entries kind n now)) kind n = Some f" "pb_trusted_at f \<noteq> None"
    using trust_marks [OF assms] by blast
  then obtain g where g: "entry_for (probation_run (snd (probation_trust entries kind n now)) ops) kind n = Some g"
    "same_entry f g" using run_keeps_entry by blast
  have "pb_trusted_at g \<noteq> None" using f(2) g(2) by (auto simp: same_entry_def)
  moreover have "list_ex (\<lambda>e. pb_kind e = kind \<and> named_by e n) (probation_run (snd (probation_trust entries kind n now)) ops)"
    using find_in [OF g(1) [unfolded entry_for_def]] by (auto simp: list_ex_iff)
  ultimately show ?thesis using g(1) by (simp add: Let_def probation_of_def probation_start_def)
qed

lemma starts_keep_untrusted:
  "entry_for entries kind n = Some e \<Longrightarrow> pb_trusted_at e = None \<Longrightarrow>
     list_all (\<lambda>op. case op of OP_TRUST k m now \<Rightarrow> False | _ \<Rightarrow> True) ops \<Longrightarrow>
     entry_for (probation_run entries ops) kind n = Some e"
  unfolding probation_run_def
proof (induction ops arbitrary: entries)
  case (Cons op ops)
  then have "entry_for (probation_step entries op) kind n = Some e"
    by (auto simp: probation_step_def probation_start_def entry_for_append Let_def split: probation_op.splits)
  then show ?case using Cons by simp
qed simp

text \<open>
  Nothing new is skipped: a name not known before is on probation from its start for the
  days given, whatever else is started, until a person trusts it.
\<close>

theorem new_name_is_on_probation:
  assumes "entry_for entries kind n = None" "moment < now + days * DAY_MS"
    and "list_all (\<lambda>op. case op of OP_TRUST k m t \<Rightarrow> False | _ \<Rightarrow> True) ops"
  shows "\<exists>e. probation_of (probation_run (snd (probation_start entries kind n label now days)) ops) kind n moment = Some e \<and>
    pb_name e = n \<and> pb_until e = now + days * DAY_MS"
proof -
  let ?e = "\<lparr>pb_kind = kind, pb_name = n, pb_label = label, pb_since = now, pb_until = now + days * DAY_MS, pb_trusted_at = None\<rparr>"
  have "\<not> list_ex (\<lambda>e. pb_kind e = kind \<and> named_by e n) entries"
    using assms(1) by (auto simp: entry_for_def find_None list_ex_iff)
  then have "snd (probation_start entries kind n label now days) = entries @ [?e]" by (simp add: probation_start_def Let_def)
  moreover have "entry_for (entries @ [?e]) kind n = Some ?e"
    using assms(1) by (simp add: entry_for_append) (simp add: entry_for_def named_by_def)
  ultimately have "entry_for (probation_run (snd (probation_start entries kind n label now days)) ops) kind n = Some ?e"
    using starts_keep_untrusted assms(3) by simp
  then show ?thesis using assms(2) by (simp add: probation_of_def)
qed

definition on_probation :: "string \<Rightarrow> probation_entry" where
  "on_probation n =
     \<lparr>pb_kind = PROBATION_REPOSITORY, pb_name = n, pb_label = None, pb_since = 0, pb_until = 10, pb_trusted_at = None\<rparr>"

lemma trusted_is_never_on_probation_witness:
  "probation_of (probation_run (snd (probation_trust [on_probation ''/w/a''] PROBATION_REPOSITORY ''/w/a'' 1))
     [OP_START PROBATION_REPOSITORY ''/w/b'' None 2 7]) PROBATION_REPOSITORY ''/w/a'' 3 = None"
proof -
  have "entry_for [on_probation ''/w/a''] PROBATION_REPOSITORY ''/w/a'' = Some (on_probation ''/w/a'')"
    by (simp add: entry_for_def on_probation_def named_by_def)
  from trusted_is_never_on_probation [OF this, of 1 "[OP_START PROBATION_REPOSITORY ''/w/b'' None 2 7]" 3 None 4 7]
  show ?thesis by (simp add: Let_def)
qed

lemma new_name_is_on_probation_witness:
  "\<exists>e. probation_of (probation_run (snd (probation_start [on_probation ''/w/a''] PROBATION_REPOSITORY ''/w/b'' None 0 1)) [])
     PROBATION_REPOSITORY ''/w/b'' 5 = Some e \<and> pb_name e = ''/w/b'' \<and> pb_until e = 0 + 1 * DAY_MS"
proof (rule new_name_is_on_probation)
  show "entry_for [on_probation ''/w/a''] PROBATION_REPOSITORY ''/w/b'' = None" by code_simp
  show "(5 :: int) < 0 + 1 * DAY_MS" by (simp add: DAY_MS_def HOURS_IN_A_DAY_def HOUR_MS_def MINUTE_MS_def SECOND_MS_def)
qed simp

section \<open>Names that are one\<close>

text \<open>
  A name is compared by its letters and digits. Repositories go by their paths, and two paths that
  differ in a slash are one: with the one trusted, a clone at the other is never put on probation.
\<close>

theorem paths_that_read_as_one:
  "let entries = snd (probation_trust [on_probation ''/home/me/a/b''] PROBATION_REPOSITORY ''/home/me/a/b'' 1);
       (started, later) = probation_start entries PROBATION_REPOSITORY ''/home/me/ab'' None 2 7
   in started = None \<and> probation_of later PROBATION_REPOSITORY ''/home/me/ab'' 3 = None"
  by code_simp

lemma names_without_letters_are_one:
  "list_all (\<lambda>c. \<not> is_alnum c) n \<Longrightarrow> list_all (\<lambda>c. \<not> is_alnum c) m \<Longrightarrow> bare_name n = bare_name m"
proof -
  have "bare_name s = []" if "list_all (\<lambda>c. \<not> is_alnum c) s" for s
  proof -
    have "\<not> (is_digit (lower_char c) \<or> is_lower (lower_char c))" if "\<not> is_alnum c" for c
      using that by (auto simp: is_alnum_def is_digit_def is_lower_def is_upper_def lower_char_def Let_def split: if_splits)
    then show ?thesis using that by (auto simp: bare_name_def to_lower_def filter_empty_conv list_all_iff)
  qed
  then show "list_all (\<lambda>c. \<not> is_alnum c) n \<Longrightarrow> list_all (\<lambda>c. \<not> is_alnum c) m \<Longrightarrow> ?thesis" by simp
qed

section \<open>The record of destinations\<close>

definition destinations_sound :: "agent_destinations \<Rightarrow> bool" where
  "destinations_sound r \<longleftrightarrow>
     distinct (map ds_host (ad_hosts r)) \<and> length (ad_hosts r) \<le> MOST_DESTINATIONS \<and>
     sorted (map (\<lambda>d. - ds_last d) (ad_hosts r)) \<and> list_all (\<lambda>d. ds_first d \<le> ds_last d \<and> 1 \<le> ds_count d) (ad_hosts r)"

lemma sort_key_newest: "sorted (map f xs) \<Longrightarrow> \<forall>x \<in> set xs. f y < f x \<Longrightarrow> sort_key f (xs @ [y]) = y # xs"
proof (induction xs)
  case (Cons x xs)
  then have "sort_key f ((x # xs) @ [y]) = insort_key f x (y # xs)" by simp
  also have "\<dots> = y # x # xs" using Cons.prems insort_is_Cons [of xs f x] by auto
  finally show ?case .
qed simp

lemma sound_take:
  assumes "ad_hosts r = take MOST_DESTINATIONS hosts" "sorted (map (\<lambda>d. - ds_last d) hosts)" "distinct (map ds_host hosts)"
    and "list_all (\<lambda>d. ds_first d \<le> ds_last d \<and> 1 \<le> ds_count d) hosts"
  shows "destinations_sound r"
  using assms
  by (auto simp: destinations_sound_def take_map [symmetric] sorted_wrt_take distinct_take list_all_iff dest: in_set_takeD)

text \<open>
  The record of the hosts an agent reached stays in shape: at most five hundred hosts, each
  once, the last seen first, each first seen no later than last; and a host just reached is not new.
\<close>

theorem destinations_stay_sound:
  assumes "destinations_sound r" "\<forall>d \<in> set (ad_hosts r). ds_last d < at_time"
  shows "destinations_sound (fst (note_destination r host at_time)) \<and>
    \<not> is_new_destination (fst (note_destination r host at_time)) host"
proof -
  let ?others = "filter (\<lambda>d. ds_host d \<noteq> to_lower host) (ad_hosts r)"
  define seen where "seen = (case find (\<lambda>d. ds_host d = to_lower host) (ad_hosts r) of
      None \<Rightarrow> \<lparr>ds_host = to_lower host, ds_first = at_time, ds_last = at_time, ds_count = 1\<rparr>
    | Some d \<Rightarrow> d\<lparr>ds_last := at_time, ds_count := ds_count d + 1\<rparr>)"
  have ok: "list_all (\<lambda>d. ds_first d \<le> ds_last d \<and> 1 \<le> ds_count d) (ad_hosts r)"
    using assms(1) by (simp add: destinations_sound_def)
  have seen: "ds_host seen = to_lower host" "ds_last seen = at_time" "ds_first seen \<le> at_time" "1 \<le> ds_count seen"
    using ok assms(2) by (auto simp: seen_def list_all_iff split: option.splits dest!: find_in) fastforce
  have others: "sorted (map (\<lambda>d. - ds_last d) ?others)" "distinct (map ds_host ?others)" "to_lower host \<notin> ds_host ` set ?others"
    using assms(1) by (auto simp: destinations_sound_def sorted_filter distinct_map_filter)
  have "sort_key (\<lambda>d. - ds_last d) (?others @ [seen]) = seen # ?others"
    using others(1) assms(2) seen(2) by (intro sort_key_newest) auto
  then have noted: "ad_hosts (fst (note_destination r host at_time)) = take MOST_DESTINATIONS (seen # ?others)"
    by (simp add: note_destination_def Let_def seen_def)
  have "sorted (map (\<lambda>d. - ds_last d) (seen # ?others))" "distinct (map ds_host (seen # ?others))"
    "list_all (\<lambda>d. ds_first d \<le> ds_last d \<and> 1 \<le> ds_count d) (seen # ?others)"
    using others seen ok assms(2) by (auto simp: list_all_iff less_imp_le)
  then have "destinations_sound (fst (note_destination r host at_time))" by (rule sound_take [OF noted])
  moreover have "seen \<in> set (take MOST_DESTINATIONS (seen # ?others))" by (simp add: MOST_DESTINATIONS_def)
  ultimately show ?thesis using seen(1) noted by (auto simp: is_new_destination_def list_ex_iff)
qed

lemma destinations_stay_sound_witness:
  "\<not> is_new_destination (fst (note_destination \<lparr>ad_agent = ''a'', ad_hosts = []\<rparr> ''Example.com'' 5)) ''Example.com''"
proof -
  have "destinations_sound \<lparr>ad_agent = ''a'', ad_hosts = []\<rparr>" by (simp add: destinations_sound_def)
  from destinations_stay_sound [OF this] show ?thesis by simp
qed

text \<open>
  A visit is read, changed and written back with nothing held. Two visits at once lose more than a count:
  a host seen by the one is not in the record the other leaves.
\<close>

theorem lost_race_loses_a_host:
  "let read = destinations_read [] ''a'';
       first = fst (note_destination read ''a.example'' 1); second = fst (note_destination read ''b.example'' 2);
       dir = destinations_write (destinations_write [] ''a'' first) ''a'' second
   in is_new_destination (destinations_read dir ''a'') ''a.example''"
  by code_simp

end
