(* ===== verification/Sql.thy ===== *)
theory Sql
  imports ShellWords Vocabulary
begin

text \<open>
  \<open>intercept/sql.ts\<close>: what a statement given to a database client does. Strings and comments are taken
  out, each statement is read by its keywords, most dangerous first, and a script is as
  dangerous as its worst statement. The properties: a script without quotes and comments ranks as its worst statement,
  and what stands inside a closed string decides nothing.
\<close>

section \<open>Risks and findings\<close>

datatype sql_risk = RISK_DROPS | RISK_UNBOUNDED | RISK_WRITES | RISK_READS | RISK_UNKNOWN

record sql_finding =
  sf_risk :: sql_risk
  sf_class :: string
  sf_because :: string
  sf_statement :: string

definition STATEMENT_FLAGS :: "(string \<times> string list) list" where
  "STATEMENT_FLAGS =
     [(''psql'', [''-c'', ''--command'']), (''pgcli'', [''-c'', ''--command'']), (''mysql'', [''-e'', ''--execute'']),
      (''mariadb'', [''-e'', ''--execute'']), (''mycli'', [''-e'', ''--execute'']), (''mongosh'', [''--eval'']),
      (''sqlite3'', [])]"

fun risk_rank :: "sql_risk \<Rightarrow> nat" where
  "risk_rank RISK_UNKNOWN = 0"
| "risk_rank RISK_READS = 1"
| "risk_rank RISK_WRITES = 2"
| "risk_rank RISK_UNBOUNDED = 3"
| "risk_rank RISK_DROPS = 4"

section \<open>Strings and comments taken out\<close>

text \<open>
  What follows a string once its quote is open: two quotes stand for one while a later quote closes the
  string, and for its close where none does. \<open>None\<close> when no quote is left.
\<close>

fun after_literal :: "char \<Rightarrow> string \<Rightarrow> string option" where
  "after_literal q [] = None"
| "after_literal q [c] = (if c = q then Some [] else None)"
| "after_literal q (c # d # s) =
     (if c \<noteq> q then after_literal q (d # s)
      else if d = q then (case after_literal q s of Some rest \<Rightarrow> Some rest | None \<Rightarrow> Some (d # s))
      else Some (d # s))"

lemma after_literal_length: "after_literal q s = Some rest \<Longrightarrow> length rest < length s"
  by (induction q s arbitrary: rest rule: after_literal.induct) (auto split: if_splits option.splits; fastforce)+

function empty_literals :: "char \<Rightarrow> string \<Rightarrow> string" where
  "empty_literals q [] = []"
| "empty_literals q (c # s) =
     (if c \<noteq> q then c # empty_literals q s
      else (case after_literal q s of
          Some rest \<Rightarrow> q # q # empty_literals q rest
        | None \<Rightarrow> c # empty_literals q s))"
  by pat_completeness auto
termination
  by (relation "measure (\<lambda>(q, s). length s)") (auto dest: after_literal_length)

text \<open>\<open>/--[^\n]*/g\<close> and \<open>/\/\*[\s\S]*?\*\//g\<close>.\<close>

function without_line_comments :: "string \<Rightarrow> string \<Rightarrow> string" where
  "without_line_comments mark s =
     (if s = [] \<or> mark = [] then s
      else if starts_with mark s then
        CHR '' '' # without_line_comments mark (dropWhile (\<lambda>c. c \<noteq> NEWLINE) (drop (length mark) s))
      else hd s # without_line_comments mark (tl s))"
  by pat_completeness auto
termination
proof (relation "measure (\<lambda>(mark, s). length s)", goal_cases)
  case (2 mark s)
  have "length (dropWhile (\<lambda>c. c \<noteq> NEWLINE) (drop (length mark) s)) \<le> length (drop (length mark) s)"
    by (rule length_dropWhile_le)
  then show ?case using 2 by (cases mark; cases s) auto
qed auto

declare without_line_comments.simps [simp del]

fun after_comment :: "string \<Rightarrow> string option" where
  "after_comment [] = None"
| "after_comment (c # s) = (if starts_with ''*/'' (c # s) then Some (drop 1 s) else after_comment s)"

lemma after_comment_length: "after_comment s = Some rest \<Longrightarrow> length rest < length s"
  by (induction s) (auto split: if_splits)

function without_block_comments :: "string \<Rightarrow> string" where
  "without_block_comments [] = []"
| "without_block_comments (c # s) =
     (if starts_with ''/*'' (c # s) then
        (case after_comment (drop 1 s) of
           Some rest \<Rightarrow> CHR '' '' # without_block_comments rest
         | None \<Rightarrow> c # without_block_comments s)
      else c # without_block_comments s)"
  by pat_completeness auto
termination
  by (relation "measure length") (auto dest!: after_comment_length)

text \<open>\<open>s.replace(/\s+/g, ' ')\<close>.\<close>

fun one_space :: "bool \<Rightarrow> string \<Rightarrow> string" where
  "one_space spaced [] = []"
| "one_space spaced (c # s) =
     (if is_space c then (if spaced then one_space True s else CHR '' '' # one_space True s) else c # one_space False s)"

definition scrub :: "string \<Rightarrow> string" where
  "scrub sql =
     trim (one_space False (without_block_comments (without_line_comments ''--''
       (empty_literals DQUOTE (empty_literals QUOTE sql)))))"

section \<open>Keywords\<close>

text \<open>
  A keyword between word boundaries is a whole run of word characters. The runs of a text, each with
  the text that follows it; the sources compare keywords in any case.
\<close>

function word_runs :: "string \<Rightarrow> (string \<times> string) list" where
  "word_runs [] = []"
| "word_runs (c # s) =
     (if is_word c then (c # takeWhile is_word s, dropWhile is_word s) # word_runs (dropWhile is_word s)
      else word_runs s)"
  by pat_completeness auto
termination
  by (relation "measure length") (auto simp: le_imp_less_Suc length_dropWhile_le)

definition has_keyword :: "string list \<Rightarrow> string \<Rightarrow> bool" where
  "has_keyword keywords sql = list_ex (\<lambda>(word, rest). to_lower word \<in> set keywords) (word_runs sql)"

text \<open>\<open>\s+\<close> and then a keyword that ends at a word boundary.\<close>

definition then_keyword :: "string \<Rightarrow> string \<Rightarrow> bool" where
  "then_keyword keyword rest =
     (let body = dropWhile is_space rest
      in rest \<noteq> [] \<and> is_space (hd rest) \<and> to_lower (takeWhile is_word body) = keyword)"

definition has_phrase :: "string \<Rightarrow> string \<Rightarrow> string \<Rightarrow> bool" where
  "has_phrase first second sql = list_ex (\<lambda>(word, rest). to_lower word = first \<and> then_keyword second rest) (word_runs sql)"

text \<open>\<open>SELECT\b[^;]*\bINTO\b\<close>.\<close>

definition select_into :: "string \<Rightarrow> bool" where
  "select_into sql =
     list_ex (\<lambda>(word, rest). to_lower word = ''select'' \<and> has_keyword [''into''] (takeWhile (\<lambda>c. c \<noteq> CHR '';'') rest))
       (word_runs sql)"

text \<open>\<open>(\s*\([^)]*\))?\s+FROM\b\<close>, and \<open>COPY\s+\S+\<close> before it: the name may end at any of its characters.\<close>

definition columns_then_from :: "string \<Rightarrow> bool" where
  "columns_then_from rest =
     (then_keyword ''from'' rest \<or>
      (let body = dropWhile is_space rest; tail = dropWhile (\<lambda>c. c \<noteq> CHR '')'') body
       in starts_with ''('' body \<and> tail \<noteq> [] \<and> then_keyword ''from'' (tl tail)))"

definition copies_from :: "string \<Rightarrow> bool" where
  "copies_from rest =
     (let body = dropWhile is_space rest; name = takeWhile (\<lambda>c. \<not> is_space c) body
      in rest \<noteq> [] \<and> is_space (hd rest) \<and>
         list_ex (\<lambda>n. columns_then_from (drop n body)) [1 ..< length name + 1])"

definition WRITING_WORDS :: "string list" where
  "WRITING_WORDS =
     [''insert'', ''alter'', ''create'', ''grant'', ''revoke'', ''replace'', ''merge'', ''do'', ''call'', ''exec'',
      ''execute'', ''vacuum'', ''reindex'', ''cluster'', ''refresh'', ''lock'', ''import'', ''load'']"

definition writing :: "string \<Rightarrow> bool" where
  "writing sql =
     (has_keyword WRITING_WORDS sql \<or> has_phrase ''comment'' ''on'' sql \<or> has_phrase ''security'' ''label'' sql \<or>
      select_into sql \<or> list_ex (\<lambda>(word, rest). to_lower word = ''copy'' \<and> copies_from rest) (word_runs sql))"

definition READING_WORDS :: "string list" where
  "READING_WORDS =
     [''select'', ''show'', ''explain'', ''describe'', ''desc'', ''with'', ''table'', ''values'', ''copy'']"

text \<open>A meta-command of \<open>psql\<close>: \<open>/^\\[a-z]/i\<close>.\<close>

definition meta_command :: "string \<Rightarrow> bool" where
  "meta_command sql = (case sql of c # d # _ \<Rightarrow> c = BACKSLASH \<and> (is_lower d \<or> is_upper d) | _ \<Rightarrow> False)"

definition dropping :: "string \<Rightarrow> bool" where "dropping sql = has_keyword [''drop'', ''truncate''] sql"
definition deleting :: "string \<Rightarrow> bool" where "deleting sql = has_phrase ''delete'' ''from'' sql"
definition updating :: "string \<Rightarrow> bool" where "updating sql = has_keyword [''update''] sql"
definition reading :: "string \<Rightarrow> bool" where "reading sql = (has_keyword READING_WORDS sql \<or> meta_command sql)"
definition has_where :: "string \<Rightarrow> bool" where "has_where sql = has_keyword [''where''] sql"

record sql_rule =
  sr_applies :: "string \<Rightarrow> bool"
  sr_risk :: sql_risk
  sr_class :: string
  sr_because :: "string \<Rightarrow> string"

definition is_unbounded :: "(string \<Rightarrow> bool) \<Rightarrow> string \<Rightarrow> bool" where
  "is_unbounded pattern sql = (pattern sql \<and> \<not> has_where sql)"

definition it_is_a :: "string \<Rightarrow> string" where "it_is_a statement = ''it is a '' @ statement"

definition SQL_RULES :: "sql_rule list" where
  "SQL_RULES =
     [\<lparr>sr_applies = dropping, sr_risk = RISK_DROPS, sr_class = TC_DESTRUCTIVE,
       sr_because = (\<lambda>_. ''it drops or truncates, and no transaction brings that back'')\<rparr>,
      \<lparr>sr_applies = is_unbounded deleting, sr_risk = RISK_UNBOUNDED, sr_class = TC_DESTRUCTIVE,
       sr_because = (\<lambda>_. ''a DELETE with no WHERE is every row'')\<rparr>,
      \<lparr>sr_applies = is_unbounded updating, sr_risk = RISK_UNBOUNDED, sr_class = TC_DESTRUCTIVE,
       sr_because = (\<lambda>_. ''an UPDATE with no WHERE is every row'')\<rparr>,
      \<lparr>sr_applies = (\<lambda>sql. deleting sql \<or> updating sql \<or> writing sql), sr_risk = RISK_WRITES, sr_class = TC_WRITE,
       sr_because = it_is_a\<rparr>,
      \<lparr>sr_applies = reading, sr_risk = RISK_READS, sr_class = TC_READ, sr_because = it_is_a\<rparr>]"

text \<open>\<open>toUpperCase\<close> on the letters a statement begins with, \<open>/^[A-Za-z]+/\<close>.\<close>

definition capital :: "char \<Rightarrow> char" where
  "capital c = (if is_lower c then char_of (of_char c - 32 :: nat) else c)"

definition unknown_finding :: "string \<Rightarrow> sql_finding" where
  "unknown_finding statement =
     \<lparr>sf_risk = RISK_UNKNOWN, sf_class = TC_UNKNOWN, sf_because = ''no statement here was recognised'',
      sf_statement = statement\<rparr>"

definition inspect_one :: "string \<Rightarrow> sql_finding" where
  "inspect_one sql =
     (let letters = takeWhile (\<lambda>c. is_lower c \<or> is_upper c) sql;
          statement = map capital (if letters = [] then ''unknown'' else letters)
      in case List.find (\<lambda>rule. sr_applies rule sql) SQL_RULES of
           None \<Rightarrow> unknown_finding statement
         | Some rule \<Rightarrow>
             \<lparr>sf_risk = sr_risk rule, sf_class = sr_class rule, sf_because = sr_because rule statement,
              sf_statement = statement\<rparr>)"

definition statements_of :: "string \<Rightarrow> string list" where
  "statements_of raw = filter (\<lambda>part. part \<noteq> []) (map trim (split_on (CHR '';'') (scrub raw)))"

definition worse_of :: "sql_finding \<Rightarrow> string \<Rightarrow> sql_finding" where
  "worse_of worst statement =
     (let found = inspect_one statement
      in if risk_rank (sf_risk found) > risk_rank (sf_risk worst) then found else worst)"

definition inspect_sql :: "string \<Rightarrow> sql_finding" where
  "inspect_sql raw =
     (case statements_of raw of
        [] \<Rightarrow> inspect_one []
      | first # others \<Rightarrow> foldl worse_of (inspect_one first) others)"

section \<open>Statements on a command line\<close>

text \<open>What one argument gives: the flag alone takes the next one, or the value is joined or run on.\<close>

datatype flag_reading = TAKES_NEXT | GIVES string | NO_FLAG

fun read_flag :: "string list \<Rightarrow> string \<Rightarrow> flag_reading" where
  "read_flag [] arg = NO_FLAG"
| "read_flag (flag # flags) arg =
     (if arg = flag then TAKES_NEXT
      else if starts_with (flag @ ''='') arg then GIVES (drop (length flag + 1) arg)
      else if length flag = 2 \<and> starts_with flag arg \<and> length arg > 2 then GIVES (drop 2 arg)
      else read_flag flags arg)"

fun flagged_statements :: "string list \<Rightarrow> string list \<Rightarrow> string list" where
  "flagged_statements flags [] = []"
| "flagged_statements flags (arg # args) =
     (case read_flag flags arg of
        TAKES_NEXT \<Rightarrow> (case args of [] \<Rightarrow> [] | val # rest \<Rightarrow> val # flagged_statements flags rest)
      | GIVES val \<Rightarrow> val # flagged_statements flags args
      | NO_FLAG \<Rightarrow> flagged_statements flags args)"

definition statement_in :: "string \<Rightarrow> string list \<Rightarrow> string option \<Rightarrow> string option" where
  "statement_in binary args stdin =
     (case map_of STATEMENT_FLAGS binary of
        None \<Rightarrow> None
      | Some flags \<Rightarrow>
          (let positional = filter (\<lambda>arg. \<not> starts_with ''-'' arg) args;
               statements = flagged_statements flags args @
                 (if binary = ''sqlite3'' \<and> length positional > 1 then [positional ! 1] else []) @
                 (case stdin of None \<Rightarrow> [] | Some input \<Rightarrow> if trim input \<noteq> [] then [input] else [])
           in if statements = [] then None else Some (join_with [CHR '';'', NEWLINE] statements)))"

section \<open>The scripts of mongosh\<close>

text \<open>The close of a string where a backslash escapes the next character, with what follows it.\<close>

fun after_escaped :: "char \<Rightarrow> string \<Rightarrow> string option" where
  "after_escaped q [] = None"
| "after_escaped q [c] = (if c = q \<and> c \<noteq> BACKSLASH then Some [] else None)"
| "after_escaped q (c # d # s) =
     (if c = BACKSLASH then after_escaped q s
      else if c = q then Some (d # s) else after_escaped q (d # s))"

lemma after_escaped_length: "after_escaped q s = Some rest \<Longrightarrow> length rest < length s"
  by (induction q s arbitrary: rest rule: after_escaped.induct) (auto split: if_splits; fastforce)+

function emptied_strings :: "char \<Rightarrow> string \<Rightarrow> string" where
  "emptied_strings q [] = []"
| "emptied_strings q (c # s) =
     (if c \<noteq> q then c # emptied_strings q s
      else (case after_escaped q s of
          None \<Rightarrow> c # s
        | Some rest \<Rightarrow> q # q # emptied_strings q rest))"
  by pat_completeness auto
termination
  by (relation "measure (\<lambda>(q, s). length s)") (auto dest: after_escaped_length)

text \<open>Every \<open>.name(\<close> of a script, with the text after the bracket.\<close>

fun method_calls :: "string \<Rightarrow> (string \<times> string) list" where
  "method_calls [] = []"
| "method_calls (c # s) =
     (let name = takeWhile is_word s; rest = dropWhile is_space (dropWhile is_word s)
      in (if c = CHR ''.'' \<and> name \<noteq> [] \<and> starts_with ''('' rest then [(name, tl rest)] else []) @ method_calls s)"

definition calls_any :: "(string \<Rightarrow> bool) \<Rightarrow> string \<Rightarrow> bool" where
  "calls_any wanted script = list_ex (\<lambda>(name, rest). wanted name) (method_calls script)"

definition mongo_drops :: "string \<Rightarrow> bool" where
  "mongo_drops = calls_any (\<lambda>name. name \<in> set [''drop'', ''dropDatabase'', ''dropIndex'', ''dropIndexes'', ''dropUser'',
     ''dropAllUsers''])"

text \<open>\<open>\s*(\{\s*\})?\s*[,)]\<close>.\<close>

definition empty_filter :: "string \<Rightarrow> bool" where
  "empty_filter rest =
     (let body = dropWhile is_space rest; inside = dropWhile is_space (drop 1 body);
          past = dropWhile is_space (if starts_with ''{'' body \<and> starts_with ''}'' inside then tl inside else body)
      in starts_with '','' past \<or> starts_with '')'' past)"

definition mongo_unbounded :: "string \<Rightarrow> bool" where
  "mongo_unbounded script =
     list_ex (\<lambda>(name, rest). name \<in> set [''deleteMany'', ''remove'', ''updateMany''] \<and> empty_filter rest)
       (method_calls script)"

definition writing_method :: "string \<Rightarrow> bool" where
  "writing_method name =
     (list_ex (\<lambda>stem. starts_with stem name) [''insert'', ''update'', ''delete'', ''create'', ''rename'', ''grant'', ''revoke''] \<or>
      name \<in> set [''remove'', ''replaceOne'', ''findAndModify'', ''bulkWrite'', ''save'', ''runCommand'', ''adminCommand'',
        ''eval''] \<or>
      starts_with ''findOneAnd'' name \<and> length name > length ''findOneAnd'')"

text \<open>\<open>\$(out|merge)\b\<close>.\<close>

fun output_stage :: "string \<Rightarrow> bool" where
  "output_stage [] = False"
| "output_stage (c # s) =
     (c = CHR ''$'' \<and> takeWhile is_word s \<in> set [''out'', ''merge''] \<or> output_stage s)"

definition mongo_writes :: "string \<Rightarrow> bool" where
  "mongo_writes script = (calls_any writing_method script \<or> output_stage script)"

definition reading_method :: "string \<Rightarrow> bool" where
  "reading_method name =
     (starts_with ''count'' name \<or>
      name \<in> set [''find'', ''findOne'', ''aggregate'', ''estimatedDocumentCount'', ''distinct'', ''getCollectionNames'',
        ''getCollectionInfos'', ''getIndexes'', ''stats'', ''explain'', ''listCollections'', ''serverStatus'', ''version'',
        ''hostInfo''])"

text \<open>The beginnings of the lines of a text, and \<open>\s*$\<close> with \<open>$\<close> at the end of a line.\<close>

definition ends_line :: "char \<Rightarrow> bool" where
  "ends_line c = (c = NEWLINE \<or> c = CHR 0x0D)"

fun line_starts :: "string \<Rightarrow> string list" where
  "line_starts [] = []"
| "line_starts (c # s) = (if ends_line c then s # line_starts s else line_starts s)"

definition line_over :: "string \<Rightarrow> bool" where
  "line_over rest =
     (dropWhile is_space rest = [] \<or> list_ex ends_line (takeWhile is_space rest))"

definition shows_or_uses :: "string \<Rightarrow> bool" where
  "shows_or_uses line =
     (let body = dropWhile is_space line; word = takeWhile is_word body; rest = dropWhile is_word body;
          object = dropWhile is_space rest; spaced = (rest \<noteq> [] \<and> is_space (hd rest));
          named = (spaced \<and> object \<noteq> [] \<and> is_word (hd object));
          over = (\<lambda>r. line_over r \<or> starts_with '';'' (dropWhile is_space r) \<and> line_over (tl (dropWhile is_space r)))
      in word = ''show'' \<and> named \<or> word = ''db'' \<and> over rest \<or>
         word = ''use'' \<and> named \<and> over (dropWhile is_word object))"

definition mongo_reads :: "string \<Rightarrow> bool" where
  "mongo_reads script = (calls_any reading_method script \<or> list_ex shows_or_uses (script # line_starts script))"

definition it_calls :: "string \<Rightarrow> string" where "it_calls statement = ''it calls '' @ statement"

definition MONGO_RULES :: "sql_rule list" where
  "MONGO_RULES =
     [\<lparr>sr_applies = mongo_drops, sr_risk = RISK_DROPS, sr_class = TC_DESTRUCTIVE,
       sr_because = (\<lambda>_. ''it drops a collection or a database'')\<rparr>,
      \<lparr>sr_applies = mongo_unbounded, sr_risk = RISK_UNBOUNDED, sr_class = TC_DESTRUCTIVE,
       sr_because = (\<lambda>_. ''an empty filter is every document'')\<rparr>,
      \<lparr>sr_applies = mongo_writes, sr_risk = RISK_WRITES, sr_class = TC_WRITE, sr_because = it_calls\<rparr>,
      \<lparr>sr_applies = mongo_reads, sr_risk = RISK_READS, sr_class = TC_READ, sr_because = it_calls\<rparr>]"

definition inspect_mongo :: "string \<Rightarrow> sql_finding" where
  "inspect_mongo raw =
     (let script = without_line_comments ''//'' (emptied_strings DQUOTE (emptied_strings QUOTE raw));
          statement = (case method_calls script of [] \<Rightarrow> ''unknown'' | (name, rest) # others \<Rightarrow> name)
      in case List.find (\<lambda>rule. sr_applies rule script) MONGO_RULES of
           None \<Rightarrow> unknown_finding statement
         | Some rule \<Rightarrow>
             \<lparr>sf_risk = sr_risk rule, sf_class = sr_class rule, sf_because = sr_because rule statement,
              sf_statement = statement\<rparr>)"

definition inspect_statement :: "string \<Rightarrow> string \<Rightarrow> sql_finding" where
  "inspect_statement binary statement =
     (if binary = ''mongosh'' then inspect_mongo statement else inspect_sql statement)"

definition is_database_client :: "string \<Rightarrow> bool" where
  "is_database_client binary = (map_of STATEMENT_FLAGS binary \<noteq> None)"

section \<open>Whose data it is\<close>

definition HOST_FLAGS :: "string list" where "HOST_FLAGS = [''-h'', ''--host'']"

definition LOCAL_HOSTS :: "string list" where
  "LOCAL_HOSTS = [''localhost'', ''127.0.0.1'', ''::1'', ''0.0.0.0'']"

fun host_flag_in :: "string list \<Rightarrow> string option" where
  "host_flag_in [] = None"
| "host_flag_in (arg # args) =
     (if arg \<in> set HOST_FLAGS then (case args of [] \<Rightarrow> None | val # _ \<Rightarrow> Some val)
      else if starts_with ''--host='' arg then Some (drop (length ''--host='') arg)
      else host_flag_in args)"

text \<open>
  \<open>new URL\<close> is the platform's: \<open>url_hostname\<close> gives the host name of a URL, or nothing for a text it
  does not take.
\<close>

definition with_scheme :: "string \<Rightarrow> bool" where
  "with_scheme target =
     (takeWhile is_word target \<noteq> [] \<and> starts_with ''://'' (dropWhile is_word target))"

definition hostname_of :: "(string \<Rightarrow> string option) \<Rightarrow> string \<Rightarrow> string" where
  "hostname_of url_hostname target = (if \<not> with_scheme target then target else or_else (url_hostname target) target)"

definition non_local_host ::
  "(string \<Rightarrow> string option) \<Rightarrow> string list \<Rightarrow> (string \<Rightarrow> string option) \<Rightarrow> string option" where
  "non_local_host url_hostname args env =
     (case first_some (host_flag_in args) (first_some (env ''DATABASE_URL'') (env ''MONGODB_URI'')) of
        None \<Rightarrow> None
      | Some target \<Rightarrow>
          (let host = hostname_of url_hostname target in if host \<in> set LOCAL_HOSTS then None else Some host))"

section \<open>A script is its worst statement\<close>

lemma worse_of_bound:
  "let worst = foldl worse_of found others
   in (worst = found \<or> (\<exists>st \<in> set others. worst = inspect_one st)) \<and>
      risk_rank (sf_risk found) \<le> risk_rank (sf_risk worst) \<and>
      (\<forall>st \<in> set others. risk_rank (sf_risk (inspect_one st)) \<le> risk_rank (sf_risk worst))"
proof (induction others arbitrary: found)
  case (Cons st others)
  from Cons.IH [of "worse_of found st"] show ?case
    by (auto simp: Let_def worse_of_def split: if_splits)
qed simp

text \<open>A text with no quote and no opening of a comment is scrubbed of white space alone.\<close>

definition uncommented :: "string \<Rightarrow> bool" where
  "uncommented raw \<longleftrightarrow> QUOTE \<notin> set raw \<and> DQUOTE \<notin> set raw \<and> \<not> includes_text ''--'' raw \<and> \<not> includes_text ''/*'' raw"

lemma empty_literals_free: "q \<notin> set s \<Longrightarrow> empty_literals q s = s"
  by (induction s) auto

lemma line_comments_free: "\<not> includes_text mark s \<Longrightarrow> without_line_comments mark s = s"
proof (induction s)
  case (Cons c s)
  then have "\<not> starts_with mark (c # s)" "without_line_comments mark s = s" by auto
  then show ?case by (subst without_line_comments.simps) simp
qed (simp add: without_line_comments.simps)

lemma block_comments_free: "\<not> includes_text ''/*'' s \<Longrightarrow> without_block_comments s = s"
  by (induction s) auto

lemma scrub_plain: "uncommented raw \<Longrightarrow> scrub raw = trim (one_space False raw)"
  by (simp add: uncommented_def scrub_def empty_literals_free line_comments_free block_comments_free)

lemma set_one_space: "set (one_space spaced s) \<subseteq> insert (CHR '' '') (set s)"
  by (induction s arbitrary: spaced) auto

lemma one_space_append:
  "\<not> is_space c \<Longrightarrow> one_space spaced (p @ c # s) = one_space spaced p @ c # one_space False s"
  by (induction p arbitrary: spaced) auto

lemma split_one_space: "split_on (CHR '';'') (one_space False s) = map (one_space False) (split_on (CHR '';'') s)"
proof (induction "length s" arbitrary: s rule: less_induct)
  case less
  show ?case
  proof (cases "CHR '';'' \<in> set s")
    case True
    then obtain p r where s: "s = p @ CHR '';'' # r" "CHR '';'' \<notin> set p" using split_list_first by fast
    have "CHR '';'' \<notin> set (one_space False p)" using s(2) set_one_space [of False p] by auto
    moreover have "\<not> is_space (CHR '';'')" by code_simp
    ultimately show ?thesis using s less [of r] by (simp add: one_space_append split_on_append_free)
  next
    case False
    then have "CHR '';'' \<notin> set (one_space False s)" using set_one_space [of False s] by auto
    with False show ?thesis by (simp add: split_on_free)
  qed
qed

lemma trim_Cons_space: "is_space c \<Longrightarrow> trim (c # s) = trim s"
  by (simp add: trim_def)

lemma trim_snoc_space:
  assumes "is_space c"
  shows "trim (s @ [c]) = trim s"
proof (cases "list_all is_space s")
  case True
  then have "\<forall>x\<in>set s. is_space x" "\<forall>x\<in>set (s @ [c]). is_space x" using assms by (auto simp: list_all_iff)
  then have "dropWhile is_space s = []" "dropWhile is_space (s @ [c]) = []"
    using dropWhile_eq_Nil_conv by blast+
  then show ?thesis by (simp only: trim_def rev.simps(1) dropWhile.simps(1))
next
  case False
  then have "dropWhile is_space (s @ [c]) = dropWhile is_space s @ [c]" by (auto simp: list_all_iff intro: dropWhile_append1)
  with assms show ?thesis by (simp add: trim_def)
qed

lemma split_on_Cons: "c \<noteq> d \<Longrightarrow> split_on d (c # s) = (c # hd (split_on d s)) # tl (split_on d s)"
  by (cases "split_on d s") (simp_all split: list.split)

lemma split_on_snoc: "c \<noteq> d \<Longrightarrow> split_on d (s @ [c]) = butlast (split_on d s) @ [last (split_on d s) @ [c]]"
proof (induction "length s" arbitrary: s rule: less_induct)
  case less
  show ?case
  proof (cases "d \<in> set s")
    case True
    then obtain p r where s: "s = p @ d # r" "d \<notin> set p" using split_list_first by fast
    then show ?thesis using less.hyps [of r] less.prems by (simp add: split_on_append_free)
  next
    case False
    with less.prems show ?thesis by (simp add: split_on_free)
  qed
qed

lemma trimmed_parts_front: "\<not> is_space d \<Longrightarrow> map trim (split_on d (dropWhile is_space s)) = map trim (split_on d s)"
proof (induction s)
  case (Cons c s)
  show ?case
  proof (cases "is_space c")
    case True
    with Cons.prems have "c \<noteq> d" by auto
    then have "map trim (split_on d (c # s)) = trim (c # hd (split_on d s)) # map trim (tl (split_on d s))"
      by (simp add: split_on_Cons del: split_on.simps)
    also have "\<dots> = map trim (split_on d s)"
      using True by (cases "split_on d s") (simp_all add: trim_Cons_space)
    finally show ?thesis using True Cons by simp
  qed simp
qed simp

lemma trimmed_parts_back: "\<not> is_space d \<Longrightarrow> map trim (split_on d (rev (dropWhile is_space (rev s)))) = map trim (split_on d s)"
proof (induction s rule: rev_induct)
  case (snoc c s)
  show ?case
  proof (cases "is_space c")
    case True
    with snoc.prems have "c \<noteq> d" by auto
    then have "map trim (split_on d (s @ [c])) = map trim (butlast (split_on d s)) @ [trim (last (split_on d s) @ [c])]"
      by (simp add: split_on_snoc)
    also have "\<dots> = map trim (butlast (split_on d s) @ [last (split_on d s)])"
      by (simp only: trim_snoc_space [OF True] map_append list.map)
    also have "\<dots> = map trim (split_on d s)" by (simp only: append_butlast_last_id [OF split_on_not_Nil])
    finally show ?thesis using True snoc by simp
  qed simp
qed simp

lemma trimmed_parts: "\<not> is_space d \<Longrightarrow> map trim (split_on d (trim s)) = map trim (split_on d s)"
  unfolding trim_def using trimmed_parts_back [of d "dropWhile is_space s"] trimmed_parts_front [of d s]
  by (simp add: trim_def [abs_def])

lemma includes_inside: "includes_text what s \<Longrightarrow> includes_text what (a @ s @ b)"
proof -
  have "includes_text what s \<Longrightarrow> includes_text what (s @ b)"
  proof (induction s)
    case Nil
    then show ?case by (cases b) auto
  next
    case (Cons c s)
    have "starts_with what (c # s) \<Longrightarrow> starts_with what (c # s @ b)"
      using starts_with_trans [of what "c # s" "c # s @ b"] starts_with_append [of "c # s" b] by simp
    with Cons show ?case by auto
  qed
  moreover have "includes_text what t \<Longrightarrow> includes_text what (a @ t)" for t by (induction a) auto
  ultimately show "includes_text what s \<Longrightarrow> includes_text what (a @ s @ b)" by blast
qed

lemma part_inside: "part \<in> set (split_on d s) \<Longrightarrow> \<exists>a b. s = a @ part @ b"
proof (induction "length s" arbitrary: s rule: less_induct)
  case less
  show ?case
  proof (cases "d \<in> set s")
    case True
    then obtain p r where s: "s = p @ d # r" "d \<notin> set p" using split_list_first by fast
    with less.prems have "part = p \<or> part \<in> set (split_on d r)" by (simp add: split_on_append_free)
    then show ?thesis
    proof
      assume "part = p"
      with s show ?thesis by (metis append_Nil)
    next
      assume "part \<in> set (split_on d r)"
      with less.hyps [of r] s obtain a b where "r = a @ part @ b" by auto
      with s have "s = (p @ d # a) @ part @ b" by simp
      then show ?thesis by blast
    qed
  next
    case False
    with less.prems have "s = [] @ part @ []" by (simp add: split_on_free)
    then show ?thesis by blast
  qed
qed

lemma uncommented_part:
  assumes "uncommented raw" "part \<in> set (split_on (CHR '';'') raw)"
  shows "uncommented part"
proof -
  obtain a b where raw: "raw = a @ part @ b" using part_inside [OF assms(2)] by blast
  with assms(1) includes_inside [of _ part a b] show ?thesis by (auto simp: uncommented_def)
qed

lemma statements_of_script:
  assumes "uncommented raw"
  shows "statements_of raw = filter (\<lambda>part. part \<noteq> []) (map scrub (split_on (CHR '';'') raw))"
proof -
  have "\<not> is_space (CHR '';'')" by code_simp
  then have "map trim (split_on (CHR '';'') (scrub raw)) = map trim (map (one_space False) (split_on (CHR '';'') raw))"
    using trimmed_parts by (simp add: scrub_plain [OF assms] split_one_space)
  also have "\<dots> = map scrub (split_on (CHR '';'') raw)"
    using scrub_plain uncommented_part [OF assms] by simp
  finally show ?thesis by (simp add: statements_of_def)
qed

lemma inspect_statement_alone:
  assumes "uncommented part" "CHR '';'' \<notin> set part"
  shows "inspect_sql part = inspect_one (scrub part)"
  using statements_of_script [OF assms(1)] assms(2) by (simp add: inspect_sql_def split_on_free)

lemma worst_statement:
  assumes "statements_of raw \<noteq> []"
  shows "inspect_sql raw \<in> set (map inspect_one (statements_of raw)) \<and>
    list_all (\<lambda>st. risk_rank (sf_risk (inspect_one st)) \<le> risk_rank (sf_risk (inspect_sql raw))) (statements_of raw)"
proof -
  obtain first others where parts: "statements_of raw = first # others" using assms by (cases "statements_of raw") auto
  from worse_of_bound [of "inspect_one first" others] show ?thesis
    by (auto simp: inspect_sql_def parts Let_def list_all_iff)
qed

lemma nothing_is_unknown: "risk_rank (sf_risk (inspect_one [])) = 0"
  by code_simp

text \<open>
  Property C20. A script with no quotes and no comments is as dangerous as the worst of the statements
  between its semicolons, each inspected as a script of its own: none of them is more dangerous than
  the script, and the script is as one of them. A harmless statement beside a drop, or a condition in
  another statement, hides nothing; strings and comments are left out, where an apostrophe in a comment
  does hide one.
\<close>

theorem script_is_its_worst_statement:
  assumes "uncommented raw"
  shows "list_all (\<lambda>part. risk_rank (sf_risk (inspect_sql part)) \<le> risk_rank (sf_risk (inspect_sql raw)))
      (split_on (CHR '';'') raw) \<and>
    inspect_sql raw \<in> set (map inspect_sql (split_on (CHR '';'') raw))"
proof -
  let ?parts = "split_on (CHR '';'') raw"
  have alone: "inspect_sql part = inspect_one (scrub part)" if "part \<in> set ?parts" for part
    using inspect_statement_alone uncommented_part [OF assms that] split_on_parts [OF that] by blast
  note parts = statements_of_script [OF assms]
  show ?thesis
  proof (cases "statements_of raw = []")
    case True
    then have none: "scrub part = []" if "part \<in> set ?parts" for part using parts that by (auto simp: filter_empty_conv)
    have "hd ?parts \<in> set ?parts" by simp
    moreover have "inspect_sql raw = inspect_one []" using True by (simp add: inspect_sql_def)
    ultimately have "inspect_sql raw = inspect_sql (hd ?parts)" using alone none by metis
    moreover have "inspect_sql part = inspect_one []" if "part \<in> set ?parts" for part using alone none that by metis
    ultimately show ?thesis using \<open>hd ?parts \<in> set ?parts\<close> \<open>inspect_sql raw = inspect_one []\<close>
      unfolding list_all_iff by (metis (no_types) imageI order_refl set_map)
  next
    case False
    note worst = worst_statement [OF False]
    from worst obtain part where "part \<in> set ?parts" "inspect_sql raw = inspect_one (scrub part)"
      unfolding parts by auto
    then have some_part: "inspect_sql raw \<in> set (map inspect_sql ?parts)" using alone by force
    have "risk_rank (sf_risk (inspect_sql part)) \<le> risk_rank (sf_risk (inspect_sql raw))" if "part \<in> set ?parts" for part
    proof (cases "scrub part = []")
      case True
      then show ?thesis using alone [OF that] nothing_is_unknown by simp
    next
      case False
      then have "scrub part \<in> set (statements_of raw)" using parts that by auto
      with worst show ?thesis using alone [OF that] by (simp add: list_all_iff)
    qed
    with some_part show ?thesis by (simp add: list_all_iff)
  qed
qed

theorem script_is_its_worst_statement_witness:
  "risk_rank (sf_risk (inspect_sql ''SELECT 1 WHERE a; DELETE FROM t'')) \<ge> risk_rank (sf_risk (inspect_sql '' DELETE FROM t''))"
proof -
  have "uncommented ''SELECT 1 WHERE a; DELETE FROM t''" by code_simp
  moreover have "split_on (CHR '';'') ''SELECT 1 WHERE a; DELETE FROM t'' = [''SELECT 1 WHERE a'', '' DELETE FROM t'']"
    by code_simp
  ultimately show ?thesis using script_is_its_worst_statement [of "''SELECT 1 WHERE a; DELETE FROM t''"] by simp
qed

section \<open>A value decides nothing\<close>

lemma after_literal_body:
  "q \<notin> set body \<Longrightarrow> rest = [] \<or> hd rest \<noteq> q \<Longrightarrow> after_literal q (body @ q # rest) = Some rest"
proof (induction body)
  case Nil
  then show ?case by (cases rest) auto
next
  case (Cons c body)
  then show ?case by (cases "body @ q # rest") auto
qed

lemma empty_literals_before:
  "q \<notin> set before_text \<Longrightarrow> empty_literals q (before_text @ s) = before_text @ empty_literals q s"
  by (induction before_text) auto

lemma empty_literals_body:
  assumes "q \<notin> set before_text" "q \<notin> set body" "rest = [] \<or> hd rest \<noteq> q"
  shows "empty_literals q (before_text @ q # body @ q # rest) = before_text @ q # q # empty_literals q rest"
  using empty_literals_before [OF assms(1)] after_literal_body [OF assms(2,3)] by simp

text \<open>
  What stands inside a closed string decides nothing: two statements that differ only in the text
  of one string are read the same, whatever keywords, comments or semicolons the text holds.
\<close>

theorem string_decides_nothing:
  assumes "QUOTE \<notin> set before_text" and "QUOTE \<notin> set body" and "QUOTE \<notin> set other"
    and "rest = [] \<or> hd rest \<noteq> QUOTE"
  shows "inspect_sql (before_text @ QUOTE # body @ QUOTE # rest) = inspect_sql (before_text @ QUOTE # other @ QUOTE # rest)"
  by (simp add: inspect_sql_def statements_of_def scrub_def empty_literals_body [OF assms(1,2,4)]
      empty_literals_body [OF assms(1,3,4)])

theorem string_decides_nothing_witness:
  "inspect_sql (''SELECT '' @ QUOTE # ''x; DROP TABLE t --'' @ QUOTE # '' AS a'') =
   inspect_sql (''SELECT '' @ QUOTE # ''y'' @ QUOTE # '' AS a'')"
proof (rule string_decides_nothing)
  show "QUOTE \<notin> set ''SELECT ''" "QUOTE \<notin> set ''x; DROP TABLE t --''" "QUOTE \<notin> set ''y''" by code_simp+
  show "'' AS a'' = [] \<or> hd '' AS a'' \<noteq> QUOTE" by code_simp
qed

section \<open>Where a drop is hidden\<close>

text \<open>
  Strings are emptied before comments are, so an apostrophe in one comment opens a string that an
  apostrophe in the next one closes: the drop between them is taken for the string's text, and
  the script for a read.
\<close>

definition commented_drop :: string where
  "commented_drop = ''SELECT 1; -- it'' @ [QUOTE] @ ''s'' @ [NEWLINE] @ ''DROP TABLE t; -- it'' @ [QUOTE] @ ''s''"

theorem apostrophes_hide_a_drop:
  "sf_risk (inspect_sql commented_drop) = RISK_READS \<and> sf_risk (inspect_sql ''SELECT 1; DROP TABLE t'') = RISK_DROPS"
  by code_simp

text \<open>
  A condition anywhere in the statement counts, so one inside a subquery bounds a delete of every row.
\<close>

theorem where_elsewhere_bounds_a_delete:
  "sf_risk (inspect_sql ''WITH x AS (SELECT 1 WHERE true) DELETE FROM t'') = RISK_WRITES \<and>
   sf_risk (inspect_sql ''WITH x AS (SELECT 1) DELETE FROM t'') = RISK_UNBOUNDED"
  by code_simp

end
