(* ===== verification/VerbTable.thy ===== *)
theory VerbTable
  imports Vocabulary
begin

text \<open>
  \<open>verbs/verb-table.ts\<close>: what a command line of a known tool does. A verb is an argv pattern with a
  class; the most specific pattern that matches decides. The tables themselves are in \<open>VerbTables\<close>.
  The properties: the verb chosen matches and none that matches is more specific, whatever a
  tool's own flags before the verb are; and a name leads back to a verb of that name.
\<close>

section \<open>Verbs and tables\<close>

datatype verb_tag = TAG_PRODUCTION | TAG_SECRETS

text \<open>Lists the sources leave out are read as empty there, so an absent list is the empty one.\<close>

record verb =
  vb_match :: string
  vb_name :: "string option"
  vb_class :: string
  vb_tags :: "verb_tag list"
  vb_note :: "string option"
  vb_alternative :: "string option"

record verb_table =
  vt_name :: string
  vt_credential :: "string list"
  vt_headline :: string
  vt_verbs :: "verb list"
  vt_global_flags :: "string list"
  vt_global_switches :: "string list"
  vt_method_flags :: "string list"
  vt_verbs_ignore_case :: bool
  vt_environment_flags :: "string list"
  vt_environment_variables :: "string list"
  vt_production_switches :: "string list"
  vt_resource_aliases :: "(string \<times> string) list option"

record verb_match =
  vm_verb :: verb
  vm_pattern :: string

definition plain_verb :: "string \<Rightarrow> string \<Rightarrow> verb" where
  "plain_verb pattern cls =
     \<lparr>vb_match = pattern, vb_name = None, vb_class = cls, vb_tags = [], vb_note = None, vb_alternative = None\<rparr>"

definition plain_table :: "string \<Rightarrow> string list \<Rightarrow> string \<Rightarrow> verb list \<Rightarrow> verb_table" where
  "plain_table name credential headline verbs =
     \<lparr>vt_name = name, vt_credential = credential, vt_headline = headline, vt_verbs = verbs,
      vt_global_flags = [], vt_global_switches = [], vt_method_flags = [], vt_verbs_ignore_case = False,
      vt_environment_flags = [], vt_environment_variables = [], vt_production_switches = [],
      vt_resource_aliases = None\<rparr>"

definition UNKNOWN_VERB :: verb where
  "UNKNOWN_VERB = (plain_verb ''**'' TC_UNKNOWN)\<lparr>vb_note := Some ''no verb table entry covers this''\<rparr>"

definition PRODUCTION_ENVIRONMENT :: string where "PRODUCTION_ENVIRONMENT = ''production''"

section \<open>The environment a command names\<close>

fun flag_value :: "string \<Rightarrow> string list \<Rightarrow> string option" where
  "flag_value flag [] = None"
| "flag_value flag (arg # rest) =
     (if arg = flag \<and> rest \<noteq> [] then Some (hd rest)
      else if starts_with (flag @ ''='') arg then Some (drop (length flag + 1) arg)
      else flag_value flag rest)"

fun first_flag_value :: "string list \<Rightarrow> string list \<Rightarrow> string option" where
  "first_flag_value [] argv = None"
| "first_flag_value (flag # flags) argv = first_some (flag_value flag argv) (first_flag_value flags argv)"

definition environment_in :: "verb_table \<Rightarrow> string list \<Rightarrow> (string \<Rightarrow> string option) \<Rightarrow> string option" where
  "environment_in table argv env =
     (if list_ex (\<lambda>flag. flag \<in> set argv) (vt_production_switches table) then Some PRODUCTION_ENVIRONMENT
      else first_some (first_flag_value (vt_environment_flags table) argv)
        (or_else (List.find (\<lambda>v. v \<noteq> None \<and> v \<noteq> Some []) (map env (vt_environment_variables table))) None))"

section \<open>Patterns\<close>

text \<open>\<open>s.split(/\s+/)\<close>, with the empty parts before a leading and after a trailing blank.\<close>

function split_spaces :: "string \<Rightarrow> string list" where
  "split_spaces s =
     (case dropWhile (\<lambda>c. \<not> is_space c) s of
        [] \<Rightarrow> [s]
      | c # rest \<Rightarrow> takeWhile (\<lambda>c. \<not> is_space c) s # split_spaces (dropWhile is_space rest))"
  by pat_completeness auto
termination
proof (relation "measure length", goal_cases)
  case (2 s c rest)
  have "length (dropWhile is_space rest) \<le> length rest" by (rule length_dropWhile_le)
  also have "\<dots> < length (dropWhile (\<lambda>c. \<not> is_space c) s)" using 2 by simp
  also have "\<dots> \<le> length s" by (rule length_dropWhile_le)
  finally show ?case by simp
qed simp

declare split_spaces.simps [simp del]

text \<open>The words of a pattern, the empty parts left out.\<close>

definition words_of :: "string \<Rightarrow> string list" where
  "words_of pattern = filter (\<lambda>word. word \<noteq> []) (split_spaces pattern)"

definition specificity :: "string \<Rightarrow> nat" where
  "specificity pattern =
     sum_list (map (\<lambda>word. if word = ''$'' \<or> ends_with ''*'' word then 1 else 2)
       (filter (\<lambda>word. word \<noteq> ''*'' \<and> word \<noteq> ''**'') (split_spaces pattern)))"

definition word_matches :: "string \<Rightarrow> string option \<Rightarrow> bool" where
  "word_matches word argument =
     (case argument of
        None \<Rightarrow> False
      | Some given_word \<Rightarrow>
          if ends_with ''*'' word then starts_with (rev (dropWhile (\<lambda>c. c = CHR ''*'') (rev word))) given_word
          else given_word = word)"

definition short_cluster :: "string \<Rightarrow> bool" where
  "short_cluster argument =
     (case argument of c # letters \<Rightarrow> c = CHR ''-'' \<and> letters \<noteq> [] \<and> list_all (\<lambda>l. is_upper l \<or> is_lower l) letters
      | [] \<Rightarrow> False)"

definition flag_index_in :: "string \<Rightarrow> string list \<Rightarrow> nat option" where
  "flag_index_in flag argv =
     (if starts_with ''--'' flag then find_index (\<lambda>argument. argument = flag) argv
      else find_index (\<lambda>argument. short_cluster argument \<and> list_all (\<lambda>letter. letter \<in> set argument) (drop 1 flag)) argv)"

fun matches_words :: "string list \<Rightarrow> nat \<Rightarrow> nat option \<Rightarrow> string list \<Rightarrow> bool" where
  "matches_words argv index value_of [] = True"
| "matches_words argv index value_of (word # words) =
     (if word = ''**'' then True
      else if word = ''$'' then index \<ge> length argv
      else if word = ''*'' then index < length argv \<and> matches_words argv (index + 1) None words
      else if starts_with ''-'' word then
        (case flag_index_in word argv of None \<Rightarrow> False | Some found \<Rightarrow> matches_words argv index (Some found) words)
      else (case value_of of
          Some flag_at \<Rightarrow> word_matches word (elem_at argv (flag_at + 1)) \<and> matches_words argv index None words
        | None \<Rightarrow> word_matches word (elem_at argv index) \<and> matches_words argv (index + 1) None words))"

definition argv_matches :: "string \<Rightarrow> string list \<Rightarrow> bool" where
  "argv_matches pattern argv = matches_words argv 0 None (words_of pattern)"

section \<open>What a command is aimed at\<close>

fun consumed_from :: "string list \<Rightarrow> nat \<Rightarrow> string list \<Rightarrow> nat" where
  "consumed_from argv index [] = index"
| "consumed_from argv index (word # words) =
     (if word = ''**'' \<or> word = ''$'' then index
      else if starts_with ''-'' word then consumed_from argv index words
      else if index \<ge> length argv then index
      else consumed_from argv (index + 1) words)"

definition consumed_by :: "string \<Rightarrow> string list \<Rightarrow> nat" where
  "consumed_by pattern argv = consumed_from argv 0 (words_of pattern)"

definition target_in :: "verb \<Rightarrow> string list \<Rightarrow> string option" where
  "target_in v argv =
     (let positional = filter (\<lambda>argument. \<not> starts_with ''-'' argument) (drop (consumed_by (vb_match v) argv) argv)
      in if positional = [] then None
         else if v = UNKNOWN_VERB then Some (hd positional) else Some (List.last positional))"

section \<open>A line as its table reads it\<close>

text \<open>\<open>toUpperCase\<close>, where the upper case is a letter of the first 256 code points.\<close>

definition upper_char :: "char \<Rightarrow> char" where
  "upper_char c = (let n = of_char c :: nat in
     if (97 \<le> n \<and> n \<le> 122) \<or> (224 \<le> n \<and> n \<le> 254 \<and> n \<noteq> 247) then char_of (n - 32) else c)"

definition to_upper :: "string \<Rightarrow> string" where
  "to_upper s = map upper_char s"

definition line_end :: "char \<Rightarrow> bool" where
  "line_end c = (let n = of_char c :: nat in n = 10 \<or> n = 13)"

text \<open>\<open>/^(--[\w-]+)=(.*)$/\<close>.\<close>

definition long_flag :: "string \<Rightarrow> (string \<times> string) option" where
  "long_flag arg =
     (let name = takeWhile (\<lambda>c. is_word c \<or> c = CHR ''-'') (drop 2 arg);
          rest = dropWhile (\<lambda>c. is_word c \<or> c = CHR ''-'') (drop 2 arg)
      in if starts_with ''--'' arg \<and> name \<noteq> [] \<and> starts_with ''='' rest \<and> list_all (\<lambda>c. \<not> line_end c) (drop 1 rest)
         then Some (''--'' @ name, drop 1 rest) else None)"

definition split_arg :: "string list \<Rightarrow> string \<Rightarrow> string list" where
  "split_arg method_flags arg =
     (case long_flag arg of
        Some (flag, val) \<Rightarrow> [flag, val]
      | None \<Rightarrow>
          (case List.find (\<lambda>flag. \<not> starts_with ''--'' flag \<and> starts_with flag arg \<and> length arg > length flag) method_flags of
             Some flag \<Rightarrow> [flag, drop (length flag) arg]
           | None \<Rightarrow> [arg]))"

fun upper_values :: "string list \<Rightarrow> string list \<Rightarrow> string list" where
  "upper_values method_flags (flag # val # rest) =
     flag # upper_values method_flags ((if flag \<in> set method_flags then to_upper val else val) # rest)"
| "upper_values method_flags argv = argv"

function without_leading_globals :: "verb_table \<Rightarrow> string list \<Rightarrow> string list" where
  "without_leading_globals table [] = []"
| "without_leading_globals table (arg # rest) =
     (if list_ex (\<lambda>flag. ends_with ''='' flag \<and> starts_with flag arg) (vt_global_flags table)
      then without_leading_globals table rest
      else if arg \<in> set (vt_global_flags table) then without_leading_globals table (drop 1 rest)
      else if arg \<in> set (vt_global_switches table) then without_leading_globals table rest
      else arg # rest)"
  by pat_completeness auto
termination by (relation "measure (\<lambda>(table, argv). length argv)") auto

text \<open>\<open>/^([a-z][a-z0-9.-]*)\/([^/:]+)$/\<close>.\<close>

definition type_slash_name :: "string \<Rightarrow> (string \<times> string) option" where
  "type_slash_name arg =
     (let kind = takeWhile (\<lambda>c. c \<noteq> CHR ''/'') arg; name = drop (length kind + 1) arg
      in if kind \<noteq> [] \<and> is_lower (hd kind) \<and> list_all (\<lambda>c. is_lower c \<or> is_digit c \<or> c = CHR ''.'' \<or> c = CHR ''-'') kind \<and>
            length kind < length arg \<and> name \<noteq> [] \<and> CHR ''/'' \<notin> set name \<and> CHR '':'' \<notin> set name
         then Some (kind, name) else None)"

text \<open>
  Aliases are an object of the source, looked up by the word. The names every object inherits, such
  as \<open>constructor\<close>, are left out: the source finds a function under them.
\<close>

definition canonical_word :: "(string \<times> string) list \<Rightarrow> string \<Rightarrow> string" where
  "canonical_word aliases word = or_else (map_of aliases word) word"

fun slashed_objects :: "(string \<times> string) list \<Rightarrow> string list \<Rightarrow> string list \<times> string list" where
  "slashed_objects aliases [] = ([], [])"
| "slashed_objects aliases (arg # rest) =
     (case type_slash_name arg of
        None \<Rightarrow> ([], arg # rest)
      | Some (kind, name) \<Rightarrow>
          (let (out, left) = slashed_objects aliases rest in (canonical_word aliases kind # name # out, left)))"

definition with_resources_spelled_out :: "verb_table \<Rightarrow> string list \<Rightarrow> string list" where
  "with_resources_spelled_out table argv =
     (case vt_resource_aliases table of
        None \<Rightarrow> argv
      | Some aliases \<Rightarrow>
          if length argv < 2 then argv
          else (let (out, left) = slashed_objects aliases (tl argv)
                in if out = [] then hd argv # canonical_word aliases (hd left) # tl left
                   else hd argv # out @ left))"

definition verb_argv :: "verb_table \<Rightarrow> string list \<Rightarrow> string list" where
  "verb_argv table argv =
     with_resources_spelled_out table
       (without_leading_globals table
         (upper_values (vt_method_flags table) (concat (map (split_arg (vt_method_flags table)) argv))))"

section \<open>The verb that decides\<close>

fun slot_from :: "bool \<Rightarrow> nat \<Rightarrow> nat option \<Rightarrow> string list \<Rightarrow> nat option" where
  "slot_from wildcard_led index slot [] = slot"
| "slot_from wildcard_led index slot (word # words) =
     (if word = ''**'' \<or> word = ''$'' \<or> starts_with ''-'' word then slot
      else if word = ''*'' then
        (if \<not> wildcard_led \<or> slot \<noteq> None then slot else slot_from wildcard_led (index + 1) slot words)
      else if wildcard_led then Some index
      else slot_from wildcard_led (index + 1) (Some index) words)"

definition verb_slot :: "string \<Rightarrow> (nat \<times> bool) option" where
  "verb_slot pattern =
     (let words = words_of pattern; wildcard_led = (words \<noteq> [] \<and> hd words = ''*'')
      in map_option (\<lambda>slot. (slot, wildcard_led)) (slot_from wildcard_led 0 None words))"

text \<open>\<open>Math.min\<close> over the slots of all candidates: \<open>None\<close> is infinity.\<close>

fun earliest_slot :: "(nat \<times> bool) option list \<Rightarrow> nat option" where
  "earliest_slot [] = None"
| "earliest_slot (None # slots) = earliest_slot slots"
| "earliest_slot (Some (slot, led) # slots) =
     (case earliest_slot slots of None \<Rightarrow> Some slot | Some other \<Rightarrow> Some (min slot other))"

definition without_later_verbs :: "verb list \<Rightarrow> verb list" where
  "without_later_verbs candidates =
     (let earliest = earliest_slot (map (\<lambda>v. verb_slot (vb_match v)) candidates)
      in filter (\<lambda>v. case verb_slot (vb_match v) of
           None \<Rightarrow> True
         | Some (slot, wildcard_led) \<Rightarrow>
             \<not> wildcard_led \<or> (case earliest of None \<Rightarrow> True | Some first \<Rightarrow> slot \<le> first)) candidates)"

definition match_verb :: "verb_table \<Rightarrow> string list \<Rightarrow> verb_match option" where
  "match_verb table argv =
     (let words = (if vt_verbs_ignore_case table then map to_lower argv else argv);
          candidates = sort_key (\<lambda>v. - int (specificity (vb_match v)))
            (without_later_verbs (filter (\<lambda>v. argv_matches (vb_match v) words) (vt_verbs table)))
      in case candidates of
           [] \<Rightarrow> None
         | best # others \<Rightarrow> Some \<lparr>vm_verb = best, vm_pattern = vb_match best\<rparr>)"

definition class_of :: "verb_table \<Rightarrow> string list \<Rightarrow> verb" where
  "class_of table argv = (case match_verb table argv of None \<Rightarrow> UNKNOWN_VERB | Some matched \<Rightarrow> vm_verb matched)"

definition changes_external_state :: "string \<Rightarrow> bool" where
  "changes_external_state cls = (cls = TC_WRITE \<or> cls = TC_DESTRUCTIVE \<or> cls = TC_COMMUNICATION)"

definition external_state_verbs :: "verb_table \<Rightarrow> verb list" where
  "external_state_verbs table = filter (\<lambda>v. changes_external_state (vb_class v)) (vt_verbs table)"

definition destructive_verbs :: "verb_table \<Rightarrow> verb list" where
  "destructive_verbs table = filter (\<lambda>v. vb_class v = TC_DESTRUCTIVE) (vt_verbs table)"

definition has_tag :: "verb \<Rightarrow> verb_tag \<Rightarrow> bool" where
  "has_tag v tag = (tag \<in> set (vb_tags v))"

section \<open>Names of actions\<close>

text \<open>\<open>word.replace(/-?\*+$/, '')\<close>.\<close>

definition without_stars :: "string \<Rightarrow> string" where
  "without_stars word =
     (if \<not> ends_with ''*'' word then word
      else (let stem = dropWhile (\<lambda>c. c = CHR ''*'') (rev word)
            in rev (if starts_with ''-'' stem then tl stem else stem)))"

definition verb_action :: "string \<Rightarrow> verb \<Rightarrow> string" where
  "verb_action cli v =
     (case vb_name v of
        Some name \<Rightarrow> cli @ ''.'' @ name
      | None \<Rightarrow>
          (let words = map (\<lambda>word. to_lower (dropWhile (\<lambda>c. c = CHR ''-'') word))
                 (filter (\<lambda>word. word \<noteq> [] \<and> word \<noteq> ''$'') (map without_stars (split_spaces (vb_match v))))
           in if words = [] then cli @ ''.run'' else cli @ ''.'' @ join_with ''-'' words))"

definition action_for_command :: "string \<Rightarrow> verb_table \<Rightarrow> string list \<Rightarrow> verb option \<Rightarrow> string" where
  "action_for_command cli table argv chosen =
     (let v = (case chosen of Some c \<Rightarrow> c
           | None \<Rightarrow> (case match_verb table argv of Some matched \<Rightarrow> vm_verb matched | None \<Rightarrow> UNKNOWN_VERB))
      in if v = UNKNOWN_VERB then cli @ ''.unknown'' else verb_action cli v)"

section \<open>Where only the argument tells\<close>

text \<open>\<open>/^\s*mutation\b/\<close> and \<open>/^query=(.*)$/s\<close>.\<close>

definition graphql_mutation :: "string \<Rightarrow> bool" where
  "graphql_mutation query =
     (let body = dropWhile is_space query; rest = drop (length ''mutation'') body
      in starts_with ''mutation'' body \<and> (rest = [] \<or> \<not> is_word (hd rest)))"

definition query_field :: "string \<Rightarrow> string option" where
  "query_field arg = (if starts_with ''query='' arg then Some (drop (length ''query='') arg) else None)"

definition graphql_by_kind :: "bool \<Rightarrow> verb" where
  "graphql_by_kind mutation =
     (if mutation then (plain_verb ''api graphql **'' TC_WRITE)\<lparr>vb_note := Some ''a GraphQL mutation changes something''\<rparr>
      else (plain_verb ''api graphql **'' TC_READ)\<lparr>vb_note := Some ''a GraphQL query reads''\<rparr>)"

definition push_verb :: "verb_table \<Rightarrow> string list \<Rightarrow> verb \<Rightarrow> verb" where
  "push_verb table argv v =
     (if vb_class v = TC_DESTRUCTIVE then v
      else (let refspecs = filter (\<lambda>arg. \<not> starts_with ''-'' arg) (drop 1 argv);
                forced = list_ex (starts_with ''+'') refspecs;
                deleted = list_ex (\<lambda>arg. starts_with '':'' arg \<and> length arg > 1) refspecs;
                pattern = (if forced then Some ''push --force **'' else if deleted then Some ''push --delete **'' else None)
            in case pattern of
                 None \<Rightarrow> v
               | Some p \<Rightarrow> or_else (List.find (\<lambda>each. vb_match each = p) (vt_verbs table)) v))"

text \<open>\<open>/\/pulls\/\d+\/merge$/\<close>, read from its end.\<close>

definition merge_path :: "string \<Rightarrow> bool" where
  "merge_path arg =
     (let before_end = drop (length ''/merge'') (rev arg); digits = takeWhile is_digit before_end
      in ends_with ''/merge'' arg \<and> digits \<noteq> [] \<and> starts_with (rev ''/pulls/'') (dropWhile is_digit before_end))"

definition REST_VERBS :: "((string \<Rightarrow> bool) \<times> string \<times> string) list" where
  "REST_VERBS = [(merge_path, ''PUT'', ''pr merge **'')]"

definition rest_verb :: "verb_table \<Rightarrow> string list \<Rightarrow> verb \<Rightarrow> verb" where
  "rest_verb table argv v =
     (let method = (case find_index (\<lambda>arg. arg = ''-X'' \<or> arg = ''--method'') argv of
            None \<Rightarrow> None | Some flag_at \<Rightarrow> elem_at argv (flag_at + 1))
      in case List.find (\<lambda>(path, wanted, pattern). method = Some wanted \<and> list_ex path argv) REST_VERBS of
           None \<Rightarrow> v
         | Some (path, wanted, pattern) \<Rightarrow> or_else (List.find (\<lambda>each. vb_match each = pattern) (vt_verbs table)) v)"

definition refine_verb :: "verb_table \<Rightarrow> string list \<Rightarrow> verb \<Rightarrow> verb" where
  "refine_verb table argv v =
     (if vt_name table = ''git'' \<and> elem_at argv 0 = Some ''push'' then push_verb table argv v
      else if vt_name table \<noteq> ''gh'' \<or> elem_at argv 0 \<noteq> Some ''api'' then v
      else if ''graphql'' \<notin> set argv then rest_verb table argv v
      else (case List.find (\<lambda>q. q \<noteq> None) (map query_field argv) of
          Some (Some query) \<Rightarrow> if starts_with ''@'' query then v else graphql_by_kind (graphql_mutation query)
        | _ \<Rightarrow> v))"

section \<open>From a name back to its verb\<close>

definition verb_for_action :: "string \<Rightarrow> (string \<Rightarrow> verb_table option) \<Rightarrow> verb option" where
  "verb_for_action action table_for =
     (let cli = first_part (CHR ''.'') action
      in if CHR ''.'' \<notin> set action \<or> cli = [] then None
         else case table_for cli of
                None \<Rightarrow> None
              | Some table \<Rightarrow> List.find (\<lambda>each. verb_action cli each = action) (vt_verbs table))"

text \<open>\<open>/\s\$$/\<close>, and what \<open>replace\<close> leaves of a pattern without its \<open>$\<close> or its last \<open>**\<close>.\<close>

definition ends_there :: "string \<Rightarrow> bool" where
  "ends_there pattern = (case rev pattern of c # d # _ \<Rightarrow> c = CHR ''$'' \<and> is_space d | _ \<Rightarrow> False)"

definition without_rest :: "string \<Rightarrow> string" where
  "without_rest pattern =
     (let r = dropWhile is_space (rev pattern)
      in trim (if starts_with ''**'' r then rev (dropWhile is_space (drop 2 r)) else pattern))"

definition command_glob_for :: "string \<Rightarrow> (string \<Rightarrow> verb_table option) \<Rightarrow> string option" where
  "command_glob_for action table_for =
     (case verb_for_action action table_for of
        None \<Rightarrow> None
      | Some v \<Rightarrow>
          (let cli = first_part (CHR ''.'') action
           in if ends_there (vb_match v)
              then Some (cli @ '' '' @ trim (rev (dropWhile is_space (tl (rev (vb_match v))))))
              else (let pattern = without_rest (vb_match v)
                    in Some (if pattern = [] then cli @ ''*'' else cli @ '' '' @ pattern @ ''*''))))"

section \<open>The verb chosen\<close>

definition read_words :: "verb_table \<Rightarrow> string list \<Rightarrow> string list" where
  "read_words table argv = (if vt_verbs_ignore_case table then map to_lower argv else argv)"

definition standing_verbs :: "verb_table \<Rightarrow> string list \<Rightarrow> verb list" where
  "standing_verbs table argv =
     without_later_verbs (filter (\<lambda>v. argv_matches (vb_match v) (read_words table argv)) (vt_verbs table))"

lemma match_verb_sorted:
  "match_verb table argv =
     (case sort_key (\<lambda>v. - int (specificity (vb_match v))) (standing_verbs table argv) of
        [] \<Rightarrow> None | best # others \<Rightarrow> Some \<lparr>vm_verb = best, vm_pattern = vb_match best\<rparr>)"
  by (simp add: match_verb_def standing_verbs_def read_words_def Let_def)

lemma earliest_slot_None: "earliest_slot slots = None \<longleftrightarrow> (\<forall>s \<in> set slots. s = None)"
  by (induction slots rule: earliest_slot.induct) (auto split: option.splits)

lemma earliest_slot_Some: "earliest_slot slots = Some first \<Longrightarrow> \<exists>led. Some (first, led) \<in> set slots"
proof (induction slots arbitrary: first rule: earliest_slot.induct)
  case (3 slot led slots)
  show ?case
  proof (cases "earliest_slot slots")
    case (Some other)
    then have "first = slot \<or> first = other" using 3(2) by (simp add: min_def split: if_splits)
    then show ?thesis using 3(1) [OF Some] by auto
  qed (use 3(2) in auto)
qed simp_all

lemma without_later_verbs_subset: "set (without_later_verbs vs) \<subseteq> set vs"
  by (auto simp: without_later_verbs_def Let_def)

lemma without_later_verbs_Nil [simp]: "without_later_verbs vs = [] \<longleftrightarrow> vs = []"
proof
  assume none: "without_later_verbs vs = []"
  let ?slots = "map (\<lambda>v. verb_slot (vb_match v)) vs"
  show "vs = []"
  proof (rule ccontr)
    assume "vs \<noteq> []"
    then obtain v where v: "v \<in> set vs" by (cases vs) auto
    show False
    proof (cases "earliest_slot ?slots")
      case None
      then have "verb_slot (vb_match v) = None" using v earliest_slot_None [of ?slots] by auto
      then show False using none v by (auto simp: without_later_verbs_def Let_def filter_empty_conv)
    next
      case (Some first)
      from earliest_slot_Some [OF this] obtain led w where w: "w \<in> set vs" "verb_slot (vb_match w) = Some (first, led)"
        by auto metis
      then have "w \<in> set (without_later_verbs vs)" using Some by (simp add: without_later_verbs_def Let_def)
      then show False using none by simp
    qed
  qed
qed (simp add: without_later_verbs_def)

text \<open>A verb that is not led by a wildcard is never given up for an earlier one.\<close>

lemma literal_verb_stays:
  "v \<in> set vs \<Longrightarrow> hd (words_of (vb_match v)) \<noteq> ''*'' \<or> words_of (vb_match v) = [] \<Longrightarrow> v \<in> set (without_later_verbs vs)"
  by (auto simp: without_later_verbs_def verb_slot_def Let_def split: option.splits)

lemma match_verb_Some:
  assumes "match_verb table argv = Some m"
  shows "vm_verb m \<in> set (standing_verbs table argv)" "vm_pattern m = vb_match (vm_verb m)"
    and "v \<in> set (standing_verbs table argv) \<Longrightarrow> specificity (vb_match v) \<le> specificity (vm_pattern m)"
    and "\<exists>rest. filter (\<lambda>v. specificity (vb_match v) = specificity (vm_pattern m)) (standing_verbs table argv) = vm_verb m # rest"
proof -
  let ?f = "\<lambda>v. - int (specificity (vb_match v))" and ?vs = "standing_verbs table argv"
  obtain others where sorted: "sort_key ?f ?vs = vm_verb m # others" "vm_pattern m = vb_match (vm_verb m)"
    using assms unfolding match_verb_sorted by (auto split: list.splits)
  have mem: "set ?vs = insert (vm_verb m) (set others)" using sorted(1) set_sort [of ?f ?vs] by simp
  have low: "\<forall>v \<in> set others. ?f (vm_verb m) \<le> ?f v"
    using sorted_sort_key [of ?f ?vs] sorted(1) by auto
  show "vm_verb m \<in> set ?vs" "vm_pattern m = vb_match (vm_verb m)" using mem sorted(2) by simp_all
  show "v \<in> set ?vs \<Longrightarrow> specificity (vb_match v) \<le> specificity (vm_pattern m)" using low mem sorted(2) by auto
  have "filter (\<lambda>v. ?f v = ?f (vm_verb m)) (sort_key ?f ?vs) = filter (\<lambda>v. ?f v = ?f (vm_verb m)) ?vs"
    by (rule sort_key_stable)
  then have "filter (\<lambda>v. specificity (vb_match v) = specificity (vm_pattern m)) ?vs =
      vm_verb m # filter (\<lambda>v. specificity (vb_match v) = specificity (vm_pattern m)) others"
    unfolding sorted by simp
  then show "\<exists>rest. filter (\<lambda>v. specificity (vb_match v) = specificity (vm_pattern m)) ?vs = vm_verb m # rest" ..
qed

lemma match_verb_matches:
  assumes "match_verb table argv = Some m"
  shows "vm_verb m \<in> set (vt_verbs table)" "argv_matches (vm_pattern m) (read_words table argv)"
proof -
  have "vm_verb m \<in> {v \<in> set (vt_verbs table). argv_matches (vb_match v) (read_words table argv)}"
    using match_verb_Some(1) [OF assms] without_later_verbs_subset unfolding standing_verbs_def by fastforce
  then show "vm_verb m \<in> set (vt_verbs table)" "argv_matches (vm_pattern m) (read_words table argv)"
    using match_verb_Some(2) [OF assms] by simp_all
qed

lemma match_verb_None:
  "match_verb table argv = None \<longleftrightarrow> (\<forall>v \<in> set (vt_verbs table). \<not> argv_matches (vb_match v) (read_words table argv))"
proof -
  have "match_verb table argv = None \<longleftrightarrow> sort_key (\<lambda>v. - int (specificity (vb_match v))) (standing_verbs table argv) = []"
    unfolding match_verb_sorted by (auto split: list.splits)
  also have "\<dots> \<longleftrightarrow> standing_verbs table argv = []"
    by (metis length_0_conv length_sort)
  finally show ?thesis by (simp add: standing_verbs_def filter_empty_conv)
qed

text \<open>
  A command nothing in the table matches is unknown and only such a command is; otherwise
  the verb chosen matches, no verb that stands beside it is more specific, and of the equally
  specific ones it is the first of the table. A verb whose pattern does not begin with a
  wildcard always stands.
\<close>

theorem verb_chosen_is_most_specific:
  "(case match_verb table argv of
      None \<Rightarrow> list_all (\<lambda>v. \<not> argv_matches (vb_match v) (read_words table argv)) (vt_verbs table)
    | Some m \<Rightarrow>
        vm_verb m \<in> set (vt_verbs table) \<and> argv_matches (vb_match (vm_verb m)) (read_words table argv) \<and>
        list_all (\<lambda>v. argv_matches (vb_match v) (read_words table argv) \<and> hd (words_of (vb_match v)) \<noteq> ''*'' \<longrightarrow>
          specificity (vb_match v) \<le> specificity (vb_match (vm_verb m))) (vt_verbs table) \<and>
        hd (filter (\<lambda>v. specificity (vb_match v) = specificity (vb_match (vm_verb m))) (standing_verbs table argv)) = vm_verb m)"
proof (cases "match_verb table argv")
  case None
  then have "\<forall>v \<in> set (vt_verbs table). \<not> argv_matches (vb_match v) (read_words table argv)"
    unfolding match_verb_None .
  with None show ?thesis by (simp add: list_all_iff)
next
  case (Some m)
  have "specificity (vb_match v) \<le> specificity (vb_match (vm_verb m))"
    if v: "v \<in> set (vt_verbs table)" "argv_matches (vb_match v) (read_words table argv)" "hd (words_of (vb_match v)) \<noteq> ''*''" for v
  proof -
    have "v \<in> set (standing_verbs table argv)"
      unfolding standing_verbs_def by (rule literal_verb_stays) (use v in auto)
    from match_verb_Some(3) [OF Some this] show ?thesis by (simp add: match_verb_Some(2) [OF Some])
  qed
  moreover have "hd (filter (\<lambda>v. specificity (vb_match v) = specificity (vb_match (vm_verb m))) (standing_verbs table argv)) = vm_verb m"
    using match_verb_Some(2,4) [OF Some] by auto
  ultimately show ?thesis using match_verb_matches [OF Some] match_verb_Some(2) [OF Some] Some by (auto simp: list_all_iff)
qed

definition two_pushes :: verb_table where
  "two_pushes = plain_table ''git'' [] [] [plain_verb ''push **'' TC_WRITE, plain_verb ''push --force **'' TC_DESTRUCTIVE]"

lemma two_pushes_match:
  "argv_matches ''push **'' [''push'', ''o'', ''--force'']" "argv_matches ''push --force **'' [''push'', ''o'', ''--force'']"
  "specificity ''push --force **'' = 4" "specificity ''push **'' = 2"
  "hd (words_of ''push --force **'') = ''push''"
  by code_simp+

theorem verb_chosen_is_most_specific_witness:
  "\<exists>m. match_verb two_pushes [''push'', ''o'', ''--force''] = Some m \<and>
     vm_verb m = plain_verb ''push --force **'' TC_DESTRUCTIVE"
proof -
  let ?argv = "[''push'', ''o'', ''--force'']"
  have verbs: "vt_verbs two_pushes = [plain_verb ''push **'' TC_WRITE, plain_verb ''push --force **'' TC_DESTRUCTIVE]"
    and words: "read_words two_pushes ?argv = ?argv"
    by (simp_all add: two_pushes_def plain_table_def read_words_def)
  have pattern: "vb_match (plain_verb p c) = p" for p c by (simp add: plain_verb_def)
  show ?thesis
    using verb_chosen_is_most_specific [of two_pushes ?argv] two_pushes_match
    by (auto simp: verbs words pattern split: option.splits)
qed

end
