(* ===== verification/VerbTables.thy ===== *)
theory VerbTables
  imports VerbTable
begin

text \<open>
  \<open>verbs/tables/\<close> and \<open>verbs/tables.ts\<close>: the tables of the tools whose command lines are
    read, row by
  row, and the table of a binary.
\<close>

section \<open>\<open>verbs/tables/cloud.ts\<close>\<close>

definition aws_verbs :: "verb list" where
  "aws_verbs =
    [(plain_verb ''s3 rb **'' TC_DESTRUCTIVE)\<lparr>vb_alternative := Some
      ''aws s3 ls, then remove by hand''\<rparr>,
     (plain_verb ''s3 rm --recursive **'' TC_DESTRUCTIVE)\<lparr>vb_alternative := Some
       ''aws s3 rm one key at a time''\<rparr>,
     (plain_verb ''iam delete-**'' TC_DESTRUCTIVE)\<lparr>vb_tags := [TAG_SECRETS]\<rparr>,
     (plain_verb ''iam get-**'' TC_READ)\<lparr>vb_tags := [TAG_SECRETS]\<rparr>,
     (plain_verb ''iam list-**'' TC_READ)\<lparr>vb_tags := [TAG_SECRETS]\<rparr>,
     (plain_verb ''iam **'' TC_WRITE)\<lparr>vb_tags := [TAG_SECRETS], vb_note := Some
       ''changes who can do what''\<rparr>,
     plain_verb ''ec2 terminate-instances **'' TC_DESTRUCTIVE,
     plain_verb ''rds delete-**'' TC_DESTRUCTIVE,
     plain_verb ''cloudformation delete-stack **'' TC_DESTRUCTIVE,
     (plain_verb ''secretsmanager get-secret-value **'' TC_READ)\<lparr>vb_tags := [TAG_SECRETS], vb_note := Some
       ''reads a secret value''\<rparr>,
     (plain_verb ''sts get-caller-identity'' TC_READ)\<lparr>vb_note := Some ''who am I''\<rparr>,
     plain_verb ''s3 ls **'' TC_READ,
     plain_verb ''s3 presign **'' TC_READ,
     plain_verb ''s3 rm **'' TC_DESTRUCTIVE,
     (plain_verb ''s3 cp **'' TC_WRITE)\<lparr>vb_note := Some
       ''an upload changes the bucket, and argv order is all that says which way''\<rparr>,
     plain_verb ''s3 mv **'' TC_WRITE,
     plain_verb ''s3 sync **'' TC_WRITE,
     plain_verb ''s3 mb **'' TC_WRITE,
     plain_verb ''* describe-**'' TC_READ,
     plain_verb ''* list-**'' TC_READ,
     plain_verb ''* get-**'' TC_READ,
     plain_verb ''* delete-**'' TC_DESTRUCTIVE,
     plain_verb ''* terminate-**'' TC_DESTRUCTIVE,
     plain_verb ''* create-**'' TC_WRITE,
     plain_verb ''* put-**'' TC_WRITE,
     plain_verb ''* update-**'' TC_WRITE,
     plain_verb ''* modify-**'' TC_WRITE,
     plain_verb ''* run-**'' TC_WRITE,
     plain_verb ''* start-**'' TC_WRITE,
     plain_verb ''* stop-**'' TC_WRITE,
     plain_verb ''* reboot-**'' TC_WRITE,
     plain_verb ''* attach-**'' TC_WRITE,
     plain_verb ''* detach-**'' TC_WRITE,
     plain_verb ''* associate-**'' TC_WRITE,
     plain_verb ''* disassociate-**'' TC_WRITE,
     plain_verb ''* register-**'' TC_WRITE,
     plain_verb ''* deregister-**'' TC_WRITE,
     plain_verb ''* add-**'' TC_WRITE,
     plain_verb ''* remove-**'' TC_WRITE,
     plain_verb ''* set-**'' TC_WRITE,
     plain_verb ''* enable-**'' TC_WRITE,
     plain_verb ''* disable-**'' TC_WRITE,
     plain_verb ''* tag-**'' TC_WRITE,
     plain_verb ''* untag-**'' TC_WRITE,
     plain_verb ''* authorize-**'' TC_WRITE,
     plain_verb ''* revoke-**'' TC_WRITE,
     plain_verb ''* restore-**'' TC_WRITE,
     plain_verb ''* copy-**'' TC_WRITE,
     plain_verb ''* import-**'' TC_WRITE,
     (plain_verb ''* invoke **'' TC_WRITE)\<lparr>vb_note := Some ''runs a function''\<rparr>,
     plain_verb ''* publish **'' TC_COMMUNICATION,
     plain_verb ''* send-**'' TC_COMMUNICATION]"

definition aws_table :: verb_table where
  "aws_table =
     (plain_table ''aws'' [''~/.aws/credentials'', ''~/.aws/config'', ''AWS_ACCESS_KEY_ID'']
       ''can modify infrastructure'' aws_verbs)
     \<lparr>vt_global_flags := [''--profile'', ''--region'', ''--output'', ''--endpoint-url'', ''--query'',
       ''--color''],
      vt_global_switches := [''--debug'', ''--no-verify-ssl'', ''--no-paginate'', ''--no-cli-pager''],
      vt_environment_flags := [''--profile''],
      vt_environment_variables := [''AWS_PROFILE'']\<rparr>"

definition gcloud_verbs :: "verb list" where
  "gcloud_verbs =
    [plain_verb ''projects delete **'' TC_DESTRUCTIVE,
     plain_verb ''sql instances delete **'' TC_DESTRUCTIVE,
     plain_verb ''compute instances delete **'' TC_DESTRUCTIVE,
     plain_verb ''deploy **'' TC_WRITE,
     plain_verb ''auth list'' TC_READ,
     plain_verb ''config list'' TC_READ,
     plain_verb ''storage rm **'' TC_DESTRUCTIVE,
     (plain_verb ''secrets versions access **'' TC_READ)\<lparr>vb_tags := [TAG_SECRETS], vb_note := Some
       ''reads a secret value''\<rparr>,
     plain_verb ''* delete **'' TC_DESTRUCTIVE,
     plain_verb ''* * delete **'' TC_DESTRUCTIVE,
     plain_verb ''* * * delete **'' TC_DESTRUCTIVE,
     plain_verb ''* list **'' TC_READ,
     plain_verb ''* * list **'' TC_READ,
     plain_verb ''* * * list **'' TC_READ,
     plain_verb ''* describe **'' TC_READ,
     plain_verb ''* * describe **'' TC_READ,
     plain_verb ''* * * describe **'' TC_READ]"

definition gcloud_table :: verb_table where
  "gcloud_table =
     (plain_table ''gcloud'' [''~/.config/gcloud''] ''can modify cloud projects'' gcloud_verbs)
     \<lparr>vt_global_flags := [''--project'', ''--account'', ''--configuration'', ''--verbosity'', ''--format''],
      vt_global_switches := [''--quiet'', ''-q''],
      vt_environment_flags := [''--project'', ''--configuration''],
      vt_environment_variables := [''CLOUDSDK_CORE_PROJECT'', ''CLOUDSDK_ACTIVE_CONFIG_NAME'']\<rparr>"

definition az_verbs :: "verb list" where
  "az_verbs =
    [plain_verb ''group delete **'' TC_DESTRUCTIVE,
     plain_verb ''vm delete **'' TC_DESTRUCTIVE,
     plain_verb ''deployment **'' TC_WRITE,
     plain_verb ''account show'' TC_READ,
     (plain_verb ''keyvault secret show **'' TC_READ)\<lparr>vb_tags := [TAG_SECRETS], vb_note := Some
       ''reads a secret value''\<rparr>,
     (plain_verb ''storage account keys list **'' TC_READ)\<lparr>vb_tags := [TAG_SECRETS], vb_note := Some
       ''reads an account key''\<rparr>,
     plain_verb ''* delete **'' TC_DESTRUCTIVE,
     plain_verb ''* * delete **'' TC_DESTRUCTIVE,
     plain_verb ''* * * delete **'' TC_DESTRUCTIVE,
     plain_verb ''* list **'' TC_READ,
     plain_verb ''* * list **'' TC_READ,
     plain_verb ''* * * list **'' TC_READ,
     plain_verb ''* show **'' TC_READ,
     plain_verb ''* * show **'' TC_READ,
     plain_verb ''* * * show **'' TC_READ]"

definition az_table :: verb_table where
  "az_table =
     (plain_table ''az'' [''~/.azure/azureProfile.json''] ''can modify subscriptions'' az_verbs)
     \<lparr>vt_global_flags := [''--subscription'', ''--output'', ''-o''],
      vt_global_switches := [''--only-show-errors'', ''--verbose'', ''--debug''],
      vt_environment_flags := [''--subscription'']\<rparr>"

definition kubectl_verbs :: "verb list" where
  "kubectl_verbs =
    [plain_verb ''delete namespace **'' TC_DESTRUCTIVE,
     plain_verb ''delete deployment **'' TC_DESTRUCTIVE,
     (plain_verb ''delete pvc **'' TC_DESTRUCTIVE)\<lparr>vb_note := Some ''takes the volume with it''\<rparr>,
     plain_verb ''delete **'' TC_DESTRUCTIVE,
     plain_verb ''drain **'' TC_DESTRUCTIVE,
     plain_verb ''apply **'' TC_WRITE,
     plain_verb ''rollout restart **'' TC_WRITE,
     (plain_verb ''exec **'' TC_WRITE)\<lparr>vb_note := Some ''a shell inside the cluster''\<rparr>,
     plain_verb ''create **'' TC_WRITE,
     plain_verb ''replace **'' TC_WRITE,
     plain_verb ''patch **'' TC_WRITE,
     plain_verb ''edit **'' TC_WRITE,
     plain_verb ''scale **'' TC_WRITE,
     plain_verb ''autoscale **'' TC_WRITE,
     plain_verb ''set **'' TC_WRITE,
     plain_verb ''label **'' TC_WRITE,
     plain_verb ''annotate **'' TC_WRITE,
     plain_verb ''expose **'' TC_WRITE,
     plain_verb ''run **'' TC_WRITE,
     plain_verb ''cordon **'' TC_WRITE,
     plain_verb ''uncordon **'' TC_WRITE,
     plain_verb ''taint **'' TC_WRITE,
     plain_verb ''cp **'' TC_WRITE,
     (plain_verb ''debug **'' TC_WRITE)\<lparr>vb_note := Some ''a shell inside the cluster''\<rparr>,
     plain_verb ''attach **'' TC_WRITE,
     (plain_verb ''port-forward **'' TC_WRITE)\<lparr>vb_note := Some ''opens a way in''\<rparr>,
     (plain_verb ''proxy **'' TC_WRITE)\<lparr>vb_note := Some ''opens a way in''\<rparr>,
     plain_verb ''rollout undo **'' TC_WRITE,
     plain_verb ''rollout pause **'' TC_WRITE,
     plain_verb ''rollout resume **'' TC_WRITE,
     plain_verb ''rollout status **'' TC_READ,
     plain_verb ''rollout history **'' TC_READ,
     plain_verb ''config view **'' TC_READ,
     plain_verb ''config get-contexts **'' TC_READ,
     plain_verb ''config current-context'' TC_READ,
     (plain_verb ''config use-context **'' TC_WRITE)\<lparr>vb_note := Some ''local''\<rparr>,
     (plain_verb ''config **'' TC_WRITE)\<lparr>vb_note := Some ''local''\<rparr>,
     plain_verb ''diff **'' TC_READ,
     plain_verb ''top **'' TC_READ,
     plain_verb ''explain **'' TC_READ,
     plain_verb ''events **'' TC_READ,
     plain_verb ''api-resources **'' TC_READ,
     plain_verb ''api-versions'' TC_READ,
     plain_verb ''cluster-info **'' TC_READ,
     plain_verb ''version **'' TC_READ,
     plain_verb ''auth can-i **'' TC_READ,
     plain_verb ''get **'' TC_READ,
     plain_verb ''describe **'' TC_READ,
     plain_verb ''logs **'' TC_READ]"

definition kubectl_table :: verb_table where
  "kubectl_table =
     (plain_table ''kubectl'' [''~/.kube/config''] ''can change what runs in your clusters'' kubectl_verbs)
     \<lparr>vt_global_flags := [''--context'', ''--namespace'', ''-n'', ''--kubeconfig'', ''--cluster'', ''--user'',
       ''-s'', ''--server'', ''--as'', ''--as-group'', ''--request-timeout'', ''-v'', ''--v''],
      vt_global_switches := [''--insecure-skip-tls-verify'', ''-A'', ''--all-namespaces''],
      vt_environment_flags := [''--context''],
      vt_resource_aliases := Some [(''ns'', ''namespace''), (''namespaces'', ''namespace''), (''deploy'',
        ''deployment''), (''deployments'', ''deployment''), (''deployment.apps'', ''deployment''),
        (''deployments.apps'', ''deployment''), (''persistentvolumeclaim'', ''pvc''), (''persistentvolumeclaims'',
        ''pvc'')]\<rparr>"

definition terraform_verbs :: "verb list" where
  "terraform_verbs =
    [(plain_verb ''destroy **'' TC_DESTRUCTIVE)\<lparr>vb_alternative := Some
      ''terraform plan -destroy, and read it''\<rparr>,
     (plain_verb ''state rm **'' TC_DESTRUCTIVE)\<lparr>vb_note := Some
       ''the resource survives and is forgotten''\<rparr>,
     (plain_verb ''apply **'' TC_WRITE)\<lparr>vb_alternative := Some ''terraform plan''\<rparr>,
     plain_verb ''import **'' TC_WRITE,
     plain_verb ''plan **'' TC_READ,
     plain_verb ''show **'' TC_READ,
     plain_verb ''state mv **'' TC_WRITE,
     plain_verb ''state push **'' TC_WRITE,
     plain_verb ''state replace-provider **'' TC_WRITE,
     plain_verb ''state list **'' TC_READ,
     plain_verb ''state show **'' TC_READ,
     plain_verb ''state pull **'' TC_READ,
     plain_verb ''taint **'' TC_WRITE,
     plain_verb ''untaint **'' TC_WRITE,
     plain_verb ''force-unlock **'' TC_WRITE,
     plain_verb ''workspace delete **'' TC_DESTRUCTIVE,
     plain_verb ''workspace new **'' TC_WRITE,
     (plain_verb ''workspace select **'' TC_WRITE)\<lparr>vb_note := Some ''local''\<rparr>,
     plain_verb ''workspace list **'' TC_READ,
     plain_verb ''workspace show **'' TC_READ,
     plain_verb ''output **'' TC_READ,
     plain_verb ''validate **'' TC_READ,
     (plain_verb ''fmt **'' TC_WRITE)\<lparr>vb_note := Some ''local''\<rparr>,
     (plain_verb ''init **'' TC_WRITE)\<lparr>vb_note := Some ''local''\<rparr>,
     plain_verb ''providers **'' TC_READ,
     plain_verb ''graph **'' TC_READ,
     plain_verb ''version **'' TC_READ]"

definition terraform_table :: verb_table where
  "terraform_table =
     (plain_table ''terraform'' [''~/.terraform.d/credentials.tfrc.json''] ''can apply infrastructure changes''
       terraform_verbs)
     \<lparr>vt_global_flags := [''-chdir=''],
      vt_environment_variables := [''TF_WORKSPACE'']\<rparr>"

definition docker_verbs :: "verb list" where
  "docker_verbs =
    [plain_verb ''system prune -a'' TC_DESTRUCTIVE,
     plain_verb ''rmi -f **'' TC_DESTRUCTIVE,
     plain_verb ''rmi **'' TC_DESTRUCTIVE,
     plain_verb ''rm **'' TC_DESTRUCTIVE,
     plain_verb ''container rm **'' TC_DESTRUCTIVE,
     plain_verb ''image rm **'' TC_DESTRUCTIVE,
     plain_verb ''volume rm **'' TC_DESTRUCTIVE,
     plain_verb ''volume prune **'' TC_DESTRUCTIVE,
     plain_verb ''system prune **'' TC_DESTRUCTIVE,
     plain_verb ''image prune **'' TC_DESTRUCTIVE,
     plain_verb ''container prune **'' TC_DESTRUCTIVE,
     plain_verb ''network rm **'' TC_DESTRUCTIVE,
     (plain_verb ''compose down -v **'' TC_DESTRUCTIVE)\<lparr>vb_name := Some ''compose-down-volumes''\<rparr>,
     (plain_verb ''compose down --volumes **'' TC_DESTRUCTIVE)\<lparr>vb_name := Some
       ''compose-down-volumes''\<rparr>,
     plain_verb ''compose down **'' TC_WRITE,
     plain_verb ''compose up **'' TC_WRITE,
     plain_verb ''run **'' TC_WRITE,
     plain_verb ''exec **'' TC_WRITE,
     (plain_verb ''tag **'' TC_WRITE)\<lparr>vb_note := Some ''local''\<rparr>,
     plain_verb ''stop **'' TC_WRITE,
     plain_verb ''kill **'' TC_WRITE,
     (plain_verb ''login **'' TC_WRITE)\<lparr>vb_tags := [TAG_SECRETS], vb_note := Some
       ''stores a registry credential''\<rparr>,
     (plain_verb ''push **'' TC_WRITE)\<lparr>vb_tags := [TAG_PRODUCTION]\<rparr>,
     (plain_verb ''build **'' TC_WRITE)\<lparr>vb_note := Some ''local''\<rparr>,
     plain_verb ''ps **'' TC_READ,
     plain_verb ''images **'' TC_READ,
     plain_verb ''logs **'' TC_READ,
     plain_verb ''inspect **'' TC_READ,
     plain_verb ''version **'' TC_READ,
     plain_verb ''info **'' TC_READ,
     (plain_verb ''pull **'' TC_READ)\<lparr>vb_note := Some ''local''\<rparr>]"

definition docker_table :: verb_table where
  "docker_table =
     (plain_table ''docker'' [''~/.docker/config.json''] ''can push images to your registries'' docker_verbs)
     \<lparr>vt_global_flags := [''--context'', ''-c'', ''-H'', ''--host'', ''--config'', ''--log-level'', ''-l''],
      vt_global_switches := [''-D'', ''--debug'', ''--tls'', ''--tlsverify''],
      vt_environment_flags := [''--context'', ''-c''],
      vt_environment_variables := [''DOCKER_CONTEXT'']\<rparr>"

definition CLOUD_TABLES :: "verb_table list" where
  "CLOUD_TABLES = [aws_table, gcloud_table, az_table, kubectl_table, terraform_table, docker_table]"

section \<open>\<open>verbs/tables/code.ts\<close>\<close>

definition gh_verbs :: "verb list" where
  "gh_verbs =
    [plain_verb ''repo delete **'' TC_DESTRUCTIVE,
     plain_verb ''release delete **'' TC_DESTRUCTIVE,
     plain_verb ''issue delete **'' TC_DESTRUCTIVE,
     plain_verb ''label delete **'' TC_DESTRUCTIVE,
     plain_verb ''api -X DELETE **'' TC_DESTRUCTIVE,
     plain_verb ''api --method DELETE **'' TC_DESTRUCTIVE,
     plain_verb ''api -X POST **'' TC_WRITE,
     plain_verb ''api -X PUT **'' TC_WRITE,
     plain_verb ''api -X PATCH **'' TC_WRITE,
     plain_verb ''api --method POST **'' TC_WRITE,
     plain_verb ''api --method PUT **'' TC_WRITE,
     plain_verb ''api --method PATCH **'' TC_WRITE,
     (plain_verb ''api -f **'' TC_WRITE)\<lparr>vb_note := Some ''a field is sent as a POST''\<rparr>,
     (plain_verb ''api -F **'' TC_WRITE)\<lparr>vb_note := Some ''a field is sent as a POST''\<rparr>,
     (plain_verb ''api --field **'' TC_WRITE)\<lparr>vb_note := Some ''a field is sent as a POST''\<rparr>,
     (plain_verb ''api --raw-field **'' TC_WRITE)\<lparr>vb_note := Some ''a field is sent as a POST''\<rparr>,
     (plain_verb ''api --input **'' TC_WRITE)\<lparr>vb_note := Some ''a body is sent as a POST''\<rparr>,
     plain_verb ''api -X GET **'' TC_READ,
     plain_verb ''api --method GET **'' TC_READ,
     plain_verb ''api -X HEAD **'' TC_READ,
     plain_verb ''api --method HEAD **'' TC_READ,
     (plain_verb ''api graphql **'' TC_READ)\<lparr>vb_note := Some ''a GraphQL query reads''\<rparr>,
     (plain_verb ''pr merge **'' TC_WRITE)\<lparr>vb_alternative := Some
       ''gh pr view, and let a person merge''\<rparr>,
     (plain_verb ''pr review --approve **'' TC_WRITE)\<lparr>vb_note := Some
       ''an approval is what lets a merge through'', vb_alternative := Some
       ''gh pr review --comment, and let a person approve''\<rparr>,
     (plain_verb ''pr review -a **'' TC_WRITE)\<lparr>vb_note := Some
       ''an approval is what lets a merge through''\<rparr>,
     (plain_verb ''pr checkout **'' TC_WRITE)\<lparr>vb_note := Some ''local''\<rparr>,
     plain_verb ''pr lock **'' TC_WRITE,
     plain_verb ''pr unlock **'' TC_WRITE,
     plain_verb ''issue transfer **'' TC_WRITE,
     plain_verb ''issue pin **'' TC_WRITE,
     plain_verb ''issue unpin **'' TC_WRITE,
     plain_verb ''issue lock **'' TC_WRITE,
     plain_verb ''issue develop **'' TC_WRITE,
     plain_verb ''release edit **'' TC_WRITE,
     plain_verb ''release upload **'' TC_WRITE,
     plain_verb ''repo fork **'' TC_WRITE,
     plain_verb ''repo rename **'' TC_WRITE,
     plain_verb ''repo archive **'' TC_WRITE,
     plain_verb ''repo sync **'' TC_WRITE,
     (plain_verb ''repo clone **'' TC_READ)\<lparr>vb_note := Some ''a local copy''\<rparr>,
     plain_verb ''repo list **'' TC_READ,
     plain_verb ''workflow enable **'' TC_WRITE,
     plain_verb ''workflow disable **'' TC_WRITE,
     plain_verb ''workflow view **'' TC_READ,
     plain_verb ''run delete **'' TC_DESTRUCTIVE,
     plain_verb ''run download **'' TC_READ,
     plain_verb ''run watch **'' TC_READ,
     plain_verb ''cache delete **'' TC_DESTRUCTIVE,
     plain_verb ''cache list **'' TC_READ,
     (plain_verb ''secret delete **'' TC_DESTRUCTIVE)\<lparr>vb_tags := [TAG_SECRETS]\<rparr>,
     (plain_verb ''secret list **'' TC_READ)\<lparr>vb_tags := [TAG_SECRETS], vb_note := Some ''names only''\<rparr>,
     plain_verb ''variable set **'' TC_WRITE,
     plain_verb ''variable delete **'' TC_DESTRUCTIVE,
     plain_verb ''variable list **'' TC_READ,
     plain_verb ''variable get **'' TC_READ,
     plain_verb ''label edit **'' TC_WRITE,
     plain_verb ''label list **'' TC_READ,
     plain_verb ''gist delete **'' TC_DESTRUCTIVE,
     plain_verb ''gist edit **'' TC_WRITE,
     plain_verb ''gist view **'' TC_READ,
     plain_verb ''gist list **'' TC_READ,
     plain_verb ''ruleset list **'' TC_READ,
     plain_verb ''ruleset view **'' TC_READ,
     plain_verb ''ruleset check **'' TC_READ,
     plain_verb ''search **'' TC_READ,
     plain_verb ''browse **'' TC_READ,
     plain_verb ''status **'' TC_READ,
     plain_verb ''project list **'' TC_READ,
     plain_verb ''project view **'' TC_READ,
     plain_verb ''project item-list **'' TC_READ,
     (plain_verb ''project **'' TC_WRITE)\<lparr>vb_note := Some ''edits a project board''\<rparr>,
     plain_verb ''codespace list **'' TC_READ,
     plain_verb ''codespace delete **'' TC_DESTRUCTIVE,
     plain_verb ''codespace **'' TC_WRITE,
     (plain_verb ''auth token **'' TC_READ)\<lparr>vb_tags := [TAG_SECRETS], vb_note := Some
       ''prints the token''\<rparr>,
     (plain_verb ''auth login **'' TC_WRITE)\<lparr>vb_tags := [TAG_SECRETS]\<rparr>,
     plain_verb ''auth logout **'' TC_WRITE,
     (plain_verb ''release create **'' TC_WRITE)\<lparr>vb_tags := [TAG_PRODUCTION]\<rparr>,
     (plain_verb ''secret set **'' TC_WRITE)\<lparr>vb_tags := [TAG_SECRETS]\<rparr>,
     plain_verb ''repo edit **'' TC_WRITE,
     (plain_verb ''pr create **'' TC_WRITE)\<lparr>vb_note := Some ''opens a PR, merges nothing''\<rparr>,
     plain_verb ''pr close **'' TC_WRITE,
     plain_verb ''pr reopen **'' TC_WRITE,
     plain_verb ''pr comment **'' TC_COMMUNICATION,
     plain_verb ''pr review **'' TC_COMMUNICATION,
     plain_verb ''pr edit **'' TC_WRITE,
     plain_verb ''pr ready **'' TC_WRITE,
     plain_verb ''issue create **'' TC_WRITE,
     plain_verb ''issue close **'' TC_WRITE,
     plain_verb ''issue reopen **'' TC_WRITE,
     plain_verb ''issue edit **'' TC_WRITE,
     plain_verb ''issue comment **'' TC_COMMUNICATION,
     plain_verb ''workflow run **'' TC_WRITE,
     plain_verb ''run rerun **'' TC_WRITE,
     plain_verb ''run cancel **'' TC_WRITE,
     plain_verb ''repo create **'' TC_WRITE,
     plain_verb ''label create **'' TC_WRITE,
     plain_verb ''gist create **'' TC_WRITE,
     plain_verb ''auth status'' TC_READ,
     plain_verb ''pr view **'' TC_READ,
     plain_verb ''pr list **'' TC_READ,
     plain_verb ''pr diff **'' TC_READ,
     plain_verb ''pr checks **'' TC_READ,
     plain_verb ''pr status **'' TC_READ,
     plain_verb ''issue view **'' TC_READ,
     plain_verb ''issue list **'' TC_READ,
     plain_verb ''run view **'' TC_READ,
     plain_verb ''run list **'' TC_READ,
     plain_verb ''workflow list **'' TC_READ,
     plain_verb ''repo view **'' TC_READ,
     plain_verb ''release list **'' TC_READ,
     (plain_verb ''api **'' TC_READ)\<lparr>vb_note := Some
       ''a GET unless a method or a field says otherwise''\<rparr>]"

definition gh_table :: verb_table where
  "gh_table =
     (plain_table ''gh'' [''~/.config/gh/hosts.yml'', ''GH_TOKEN'', ''GITHUB_TOKEN'']
       ''can merge pull requests and delete branches'' gh_verbs)
     \<lparr>vt_global_flags := [''-R'', ''--repo''],
      vt_method_flags := [''-X'', ''--method'']\<rparr>"

definition git_verbs :: "verb list" where
  "git_verbs =
    [(plain_verb ''push --force **'' TC_DESTRUCTIVE)\<lparr>vb_note := Some
      ''rewrites history somebody may have pulled'', vb_alternative := Some ''push a branch and open a PR''\<rparr>,
     (plain_verb ''push -f **'' TC_DESTRUCTIVE)\<lparr>vb_alternative := Some ''push a branch and open a PR''\<rparr>,
     (plain_verb ''reset --hard **'' TC_DESTRUCTIVE)\<lparr>vb_note := Some ''discards uncommitted work''\<rparr>,
     plain_verb ''branch -D **'' TC_DESTRUCTIVE,
     plain_verb ''clean -fd **'' TC_DESTRUCTIVE,
     (plain_verb ''clean -f **'' TC_DESTRUCTIVE)\<lparr>vb_note := Some ''deletes untracked files''\<rparr>,
     (plain_verb ''clean --force **'' TC_DESTRUCTIVE)\<lparr>vb_note := Some ''deletes untracked files''\<rparr>,
     plain_verb ''branch --delete --force **'' TC_DESTRUCTIVE,
     (plain_verb ''push --delete **'' TC_DESTRUCTIVE)\<lparr>vb_note := Some
       ''deletes a branch on the remote''\<rparr>,
     (plain_verb ''push -d **'' TC_DESTRUCTIVE)\<lparr>vb_name := Some ''push-delete''\<rparr>,
     (plain_verb ''reflog expire **'' TC_DESTRUCTIVE)\<lparr>vb_note := Some
       ''drops the way back to lost commits''\<rparr>,
     (plain_verb ''reflog delete **'' TC_DESTRUCTIVE)\<lparr>vb_note := Some
       ''drops the way back to lost commits''\<rparr>,
     (plain_verb ''stash clear **'' TC_DESTRUCTIVE)\<lparr>vb_note := Some ''discards every stash''\<rparr>,
     (plain_verb ''stash drop **'' TC_DESTRUCTIVE)\<lparr>vb_note := Some ''discards a stash''\<rparr>,
     (plain_verb ''filter-branch **'' TC_DESTRUCTIVE)\<lparr>vb_note := Some ''rewrites history''\<rparr>,
     (plain_verb ''filter-repo **'' TC_DESTRUCTIVE)\<lparr>vb_note := Some ''rewrites history''\<rparr>,
     (plain_verb ''gc --prune now **'' TC_DESTRUCTIVE)\<lparr>vb_note := Some
       ''drops unreachable commits now''\<rparr>,
     plain_verb ''push **'' TC_WRITE,
     (plain_verb ''commit **'' TC_WRITE)\<lparr>vb_note := Some ''local''\<rparr>,
     (plain_verb ''add **'' TC_WRITE)\<lparr>vb_note := Some ''local''\<rparr>,
     (plain_verb ''rm **'' TC_WRITE)\<lparr>vb_note := Some ''local''\<rparr>,
     (plain_verb ''mv **'' TC_WRITE)\<lparr>vb_note := Some ''local''\<rparr>,
     (plain_verb ''merge **'' TC_WRITE)\<lparr>vb_note := Some ''local''\<rparr>,
     (plain_verb ''rebase **'' TC_WRITE)\<lparr>vb_note := Some ''rewrites local history''\<rparr>,
     (plain_verb ''cherry-pick **'' TC_WRITE)\<lparr>vb_note := Some ''local''\<rparr>,
     (plain_verb ''revert **'' TC_WRITE)\<lparr>vb_note := Some ''local''\<rparr>,
     (plain_verb ''am **'' TC_WRITE)\<lparr>vb_note := Some ''local''\<rparr>,
     (plain_verb ''apply **'' TC_WRITE)\<lparr>vb_note := Some ''local''\<rparr>,
     (plain_verb ''checkout **'' TC_WRITE)\<lparr>vb_note := Some ''local''\<rparr>,
     (plain_verb ''switch **'' TC_WRITE)\<lparr>vb_note := Some ''local''\<rparr>,
     (plain_verb ''restore **'' TC_WRITE)\<lparr>vb_note := Some ''local''\<rparr>,
     (plain_verb ''stash **'' TC_WRITE)\<lparr>vb_note := Some ''local''\<rparr>,
     plain_verb ''stash list **'' TC_READ,
     plain_verb ''stash show **'' TC_READ,
     (plain_verb ''tag **'' TC_WRITE)\<lparr>vb_note := Some ''local''\<rparr>,
     plain_verb ''tag -l **'' TC_READ,
     plain_verb ''tag --list **'' TC_READ,
     (plain_verb ''tag $'' TC_READ)\<lparr>vb_name := Some ''tag-list''\<rparr>,
     (plain_verb ''branch **'' TC_WRITE)\<lparr>vb_note := Some ''local''\<rparr>,
     (plain_verb ''branch $'' TC_READ)\<lparr>vb_name := Some ''branch-list''\<rparr>,
     plain_verb ''branch -a **'' TC_READ,
     plain_verb ''branch -r **'' TC_READ,
     plain_verb ''branch -v **'' TC_READ,
     plain_verb ''branch --list **'' TC_READ,
     plain_verb ''branch --show-current'' TC_READ,
     (plain_verb ''pull **'' TC_WRITE)\<lparr>vb_note := Some ''changes the working tree''\<rparr>,
     (plain_verb ''init **'' TC_WRITE)\<lparr>vb_note := Some ''local''\<rparr>,
     (plain_verb ''worktree **'' TC_WRITE)\<lparr>vb_note := Some ''local''\<rparr>,
     plain_verb ''worktree list **'' TC_READ,
     (plain_verb ''config **'' TC_WRITE)\<lparr>vb_note := Some ''local''\<rparr>,
     plain_verb ''config --get **'' TC_READ,
     plain_verb ''config --get-all **'' TC_READ,
     plain_verb ''config --get-regexp **'' TC_READ,
     plain_verb ''config --list **'' TC_READ,
     plain_verb ''config -l **'' TC_READ,
     (plain_verb ''remote **'' TC_WRITE)\<lparr>vb_note := Some ''local''\<rparr>,
     plain_verb ''remote -v'' TC_READ,
     (plain_verb ''remote $'' TC_READ)\<lparr>vb_name := Some ''remote-list''\<rparr>,
     plain_verb ''remote show **'' TC_READ,
     plain_verb ''remote get-url **'' TC_READ,
     (plain_verb ''fetch **'' TC_READ)\<lparr>vb_note := Some ''downloads, changes no branch''\<rparr>,
     (plain_verb ''clone **'' TC_READ)\<lparr>vb_note := Some ''a local copy''\<rparr>,
     plain_verb ''status **'' TC_READ,
     plain_verb ''log **'' TC_READ,
     plain_verb ''diff **'' TC_READ,
     plain_verb ''show **'' TC_READ,
     plain_verb ''blame **'' TC_READ,
     plain_verb ''grep **'' TC_READ,
     plain_verb ''ls-files **'' TC_READ,
     plain_verb ''ls-tree **'' TC_READ,
     plain_verb ''ls-remote **'' TC_READ,
     plain_verb ''rev-parse **'' TC_READ,
     plain_verb ''rev-list **'' TC_READ,
     plain_verb ''describe **'' TC_READ,
     plain_verb ''shortlog **'' TC_READ,
     plain_verb ''reflog **'' TC_READ,
     plain_verb ''cat-file **'' TC_READ,
     plain_verb ''merge-base **'' TC_READ,
     plain_verb ''name-rev **'' TC_READ,
     plain_verb ''for-each-ref **'' TC_READ,
     plain_verb ''whatchanged **'' TC_READ,
     plain_verb ''range-diff **'' TC_READ,
     plain_verb ''version'' TC_READ,
     plain_verb ''help **'' TC_READ]"

definition git_table :: verb_table where
  "git_table =
     (plain_table ''git'' [''~/.git-credentials'', ''~/.netrc''] ''can push to your repositories'' git_verbs)
     \<lparr>vt_global_flags := [''-C'', ''-c'', ''--git-dir'', ''--work-tree'', ''--namespace'', ''--exec-path=''],
      vt_global_switches := [''--no-pager'', ''-p'', ''--paginate'', ''--bare'', ''--no-replace-objects'', ''-P'',
        ''--no-optional-locks'', ''--literal-pathspecs'', ''--glob-pathspecs'', ''--noglob-pathspecs'',
        ''--icase-pathspecs'', ''--no-lazy-fetch'', ''--no-advice'']\<rparr>"

definition npm_verbs :: "verb list" where
  "npm_verbs =
    [plain_verb ''unpublish **'' TC_DESTRUCTIVE,
     (plain_verb ''publish **'' TC_WRITE)\<lparr>vb_tags := [TAG_PRODUCTION], vb_note := Some
       ''everyone can install it''\<rparr>,
     (plain_verb ''deprecate **'' TC_WRITE)\<lparr>vb_tags := [TAG_PRODUCTION]\<rparr>,
     (plain_verb ''dist-tag add **'' TC_WRITE)\<lparr>vb_tags := [TAG_PRODUCTION]\<rparr>,
     (plain_verb ''dist-tag rm **'' TC_WRITE)\<lparr>vb_tags := [TAG_PRODUCTION]\<rparr>,
     plain_verb ''dist-tag ls **'' TC_READ,
     plain_verb ''owner add **'' TC_WRITE,
     plain_verb ''owner rm **'' TC_WRITE,
     plain_verb ''owner ls **'' TC_READ,
     plain_verb ''access **'' TC_WRITE,
     (plain_verb ''token **'' TC_WRITE)\<lparr>vb_tags := [TAG_SECRETS]\<rparr>,
     (plain_verb ''install **'' TC_WRITE)\<lparr>vb_note := Some ''runs install scripts''\<rparr>,
     (plain_verb ''i **'' TC_WRITE)\<lparr>vb_note := Some ''runs install scripts''\<rparr>,
     (plain_verb ''add **'' TC_WRITE)\<lparr>vb_note := Some ''runs install scripts''\<rparr>,
     (plain_verb ''ci **'' TC_WRITE)\<lparr>vb_note := Some ''runs install scripts''\<rparr>,
     (plain_verb ''update **'' TC_WRITE)\<lparr>vb_note := Some ''runs install scripts''\<rparr>,
     (plain_verb ''rebuild **'' TC_WRITE)\<lparr>vb_note := Some ''runs install scripts''\<rparr>,
     plain_verb ''uninstall **'' TC_WRITE,
     plain_verb ''remove **'' TC_WRITE,
     (plain_verb ''audit fix **'' TC_WRITE)\<lparr>vb_note := Some ''changes the lockfile''\<rparr>,
     plain_verb ''dedupe **'' TC_WRITE,
     plain_verb ''prune **'' TC_WRITE,
     plain_verb ''link **'' TC_WRITE,
     plain_verb ''pkg set **'' TC_WRITE,
     plain_verb ''pkg delete **'' TC_WRITE,
     (plain_verb ''version **'' TC_WRITE)\<lparr>vb_note := Some ''bumps and tags''\<rparr>,
     plain_verb ''init **'' TC_WRITE,
     (plain_verb ''exec **'' TC_WRITE)\<lparr>vb_note := Some ''runs a package''\<rparr>,
     (plain_verb ''x **'' TC_WRITE)\<lparr>vb_note := Some ''runs a package''\<rparr>,
     plain_verb ''run **'' TC_WRITE,
     plain_verb ''run-script **'' TC_WRITE,
     (plain_verb ''test **'' TC_WRITE)\<lparr>vb_note := Some ''runs a script''\<rparr>,
     (plain_verb ''start **'' TC_WRITE)\<lparr>vb_note := Some ''runs a script''\<rparr>,
     plain_verb ''ls **'' TC_READ,
     plain_verb ''list **'' TC_READ,
     plain_verb ''view **'' TC_READ,
     plain_verb ''info **'' TC_READ,
     plain_verb ''show **'' TC_READ,
     plain_verb ''outdated **'' TC_READ,
     plain_verb ''audit **'' TC_READ,
     plain_verb ''search **'' TC_READ,
     plain_verb ''explain **'' TC_READ,
     plain_verb ''why **'' TC_READ,
     plain_verb ''query **'' TC_READ,
     plain_verb ''pkg get **'' TC_READ,
     plain_verb ''config get **'' TC_READ,
     plain_verb ''config list **'' TC_READ,
     (plain_verb ''config **'' TC_WRITE)\<lparr>vb_note := Some ''local''\<rparr>,
     plain_verb ''whoami **'' TC_READ,
     plain_verb ''ping **'' TC_READ,
     plain_verb ''doctor **'' TC_READ,
     (plain_verb ''pack **'' TC_READ)\<lparr>vb_note := Some ''a local tarball''\<rparr>,
     plain_verb ''help **'' TC_READ,
     plain_verb ''root **'' TC_READ,
     plain_verb ''prefix **'' TC_READ]"

definition npm_table :: verb_table where
  "npm_table =
     (plain_table ''npm'' [''~/.npmrc'', ''NPM_TOKEN''] ''can publish packages'' npm_verbs)
     \<lparr>vt_global_flags := [''--prefix'', ''--workspace'', ''-w'', ''--registry'', ''--userconfig''],
      vt_global_switches := [''-g'', ''--global'', ''-s'', ''--silent'', ''-y'', ''--yes'', ''--workspaces'',
        ''-ws'']\<rparr>"

definition playwright_verbs :: "verb list" where
  "playwright_verbs =
    [(plain_verb ''test **'' TC_WRITE)\<lparr>vb_note := Some ''drives a browser''\<rparr>,
     (plain_verb ''**'' TC_WRITE)\<lparr>vb_note := Some ''drives a browser''\<rparr>]"

definition playwright_table :: verb_table where
  "playwright_table =
     plain_table ''playwright'' [] ''can act on websites as you'' playwright_verbs"

definition CODE_TABLES :: "verb_table list" where
  "CODE_TABLES = [gh_table, git_table, npm_table, playwright_table]"

section \<open>\<open>verbs/tables/data.ts\<close>\<close>

definition psql_verbs :: "verb list" where
  "psql_verbs =
    [(plain_verb ''-c **'' TC_WRITE)\<lparr>vb_note := Some ''statement is read from the argument''\<rparr>,
     (plain_verb ''**'' TC_WRITE)\<lparr>vb_note := Some ''an interactive session can do anything''\<rparr>]"

definition psql_table :: verb_table where
  "psql_table =
     plain_table ''psql'' [''~/.pgpass'', ''DATABASE_URL'', ''PGPASSWORD''] ''can reach a database'' psql_verbs"

definition mysql_verbs :: "verb list" where
  "mysql_verbs =
    [(plain_verb ''-e **'' TC_WRITE)\<lparr>vb_note := Some ''statement is read from the argument''\<rparr>,
     plain_verb ''**'' TC_WRITE]"

definition mysql_table :: verb_table where
  "mysql_table =
     plain_table ''mysql'' [''~/.my.cnf'', ''MYSQL_PWD'', ''DATABASE_URL''] ''can reach a database'' mysql_verbs"

definition mariadb_verbs :: "verb list" where
  "mariadb_verbs =
    [(plain_verb ''-e **'' TC_WRITE)\<lparr>vb_note := Some ''statement is read from the argument''\<rparr>,
     (plain_verb ''**'' TC_WRITE)\<lparr>vb_note := Some ''an interactive session can do anything''\<rparr>]"

definition mariadb_table :: verb_table where
  "mariadb_table =
     plain_table ''mariadb'' [''~/.my.cnf'', ''MYSQL_PWD'', ''DATABASE_URL''] ''can reach a database'' mariadb_verbs"

definition mycli_verbs :: "verb list" where
  "mycli_verbs =
    [(plain_verb ''-e **'' TC_WRITE)\<lparr>vb_note := Some ''statement is read from the argument''\<rparr>,
     (plain_verb ''**'' TC_WRITE)\<lparr>vb_note := Some ''an interactive session can do anything''\<rparr>]"

definition mycli_table :: verb_table where
  "mycli_table =
     plain_table ''mycli'' [''~/.myclirc'', ''~/.my.cnf'', ''MYSQL_PWD'', ''DATABASE_URL''] ''can reach a database''
       mycli_verbs"

definition pgcli_verbs :: "verb list" where
  "pgcli_verbs =
    [(plain_verb ''-c **'' TC_WRITE)\<lparr>vb_note := Some ''statement is read from the argument''\<rparr>,
     (plain_verb ''**'' TC_WRITE)\<lparr>vb_note := Some ''an interactive session can do anything''\<rparr>]"

definition pgcli_table :: verb_table where
  "pgcli_table =
     plain_table ''pgcli'' [''~/.pgpass'', ''~/.config/pgcli/config'', ''DATABASE_URL'', ''PGPASSWORD'']
       ''can reach a database'' pgcli_verbs"

definition redis_cli_verbs :: "verb list" where
  "redis_cli_verbs =
    [(plain_verb ''flushall **'' TC_DESTRUCTIVE)\<lparr>vb_note := Some
      ''empties every database on the server''\<rparr>,
     (plain_verb ''flushdb **'' TC_DESTRUCTIVE)\<lparr>vb_note := Some ''empties the selected database''\<rparr>,
     plain_verb ''del **'' TC_DESTRUCTIVE,
     plain_verb ''unlink **'' TC_DESTRUCTIVE,
     plain_verb ''config set **'' TC_WRITE,
     plain_verb ''set **'' TC_WRITE,
     plain_verb ''get **'' TC_READ,
     plain_verb ''keys **'' TC_READ,
     plain_verb ''scan **'' TC_READ,
     plain_verb ''info **'' TC_READ,
     (plain_verb ''**'' TC_WRITE)\<lparr>vb_note := Some ''an interactive session can do anything''\<rparr>]"

definition redis_cli_table :: verb_table where
  "redis_cli_table =
     (plain_table ''redis-cli'' [''REDIS_URL'', ''REDISCLI_AUTH''] ''can reach a key-value store'' redis_cli_verbs)
     \<lparr>vt_verbs_ignore_case := True\<rparr>"

definition mongosh_verbs :: "verb list" where
  "mongosh_verbs =
    [plain_verb ''--eval **'' TC_WRITE,
     plain_verb ''**'' TC_WRITE]"

definition mongosh_table :: verb_table where
  "mongosh_table =
     plain_table ''mongosh'' [''MONGODB_URI'', ''DATABASE_URL''] ''can reach a database'' mongosh_verbs"

definition stripe_verbs :: "verb list" where
  "stripe_verbs =
    [plain_verb ''customers delete **'' TC_DESTRUCTIVE,
     (plain_verb ''refunds create **'' TC_WRITE)\<lparr>vb_tags := [TAG_PRODUCTION], vb_note := Some ''moves money'',
       vb_alternative := Some ''stripe charges retrieve, and let a person refund''\<rparr>,
     (plain_verb ''charges create **'' TC_WRITE)\<lparr>vb_tags := [TAG_PRODUCTION], vb_note := Some
       ''moves money''\<rparr>,
     (plain_verb ''charges capture **'' TC_WRITE)\<lparr>vb_tags := [TAG_PRODUCTION], vb_note := Some
       ''moves money''\<rparr>,
     (plain_verb ''payment_intents create **'' TC_WRITE)\<lparr>vb_tags := [TAG_PRODUCTION], vb_note := Some
       ''moves money''\<rparr>,
     (plain_verb ''payment_intents confirm **'' TC_WRITE)\<lparr>vb_tags := [TAG_PRODUCTION], vb_note := Some
       ''moves money''\<rparr>,
     (plain_verb ''payment_intents capture **'' TC_WRITE)\<lparr>vb_tags := [TAG_PRODUCTION], vb_note := Some
       ''moves money''\<rparr>,
     (plain_verb ''payouts create **'' TC_WRITE)\<lparr>vb_tags := [TAG_PRODUCTION], vb_note := Some
       ''moves money''\<rparr>,
     (plain_verb ''transfers create **'' TC_WRITE)\<lparr>vb_tags := [TAG_PRODUCTION], vb_note := Some
       ''moves money''\<rparr>,
     (plain_verb ''invoices pay **'' TC_WRITE)\<lparr>vb_tags := [TAG_PRODUCTION], vb_note := Some
       ''moves money''\<rparr>,
     (plain_verb ''subscriptions cancel **'' TC_WRITE)\<lparr>vb_tags := [TAG_PRODUCTION]\<rparr>,
     plain_verb ''get **'' TC_READ,
     (plain_verb ''post **'' TC_WRITE)\<lparr>vb_alternative := Some ''stripe get, to read it''\<rparr>,
     (plain_verb ''delete **'' TC_DESTRUCTIVE)\<lparr>vb_alternative := Some ''stripe get, to read it''\<rparr>,
     (plain_verb ''trigger **'' TC_WRITE)\<lparr>vb_note := Some ''creates test objects''\<rparr>,
     (plain_verb ''fixtures **'' TC_WRITE)\<lparr>vb_note := Some ''creates test objects''\<rparr>,
     (plain_verb ''events resend **'' TC_WRITE)\<lparr>vb_note := Some ''redelivers a webhook''\<rparr>,
     plain_verb ''listen **'' TC_READ,
     plain_verb ''logs tail **'' TC_READ,
     plain_verb ''status **'' TC_READ,
     plain_verb ''version **'' TC_READ,
     plain_verb ''open **'' TC_READ,
     plain_verb ''config --list **'' TC_READ,
     (plain_verb ''config **'' TC_WRITE)\<lparr>vb_note := Some ''local''\<rparr>,
     (plain_verb ''login **'' TC_WRITE)\<lparr>vb_tags := [TAG_SECRETS]\<rparr>,
     plain_verb ''logout **'' TC_WRITE,
     (plain_verb ''samples **'' TC_WRITE)\<lparr>vb_note := Some ''local''\<rparr>,
     plain_verb ''* list **'' TC_READ,
     plain_verb ''* retrieve **'' TC_READ,
     plain_verb ''* search **'' TC_READ,
     plain_verb ''* upcoming **'' TC_READ,
     plain_verb ''* list_line_items **'' TC_READ,
     plain_verb ''* * list **'' TC_READ,
     plain_verb ''* * retrieve **'' TC_READ,
     plain_verb ''* delete **'' TC_DESTRUCTIVE,
     plain_verb ''* * delete **'' TC_DESTRUCTIVE,
     plain_verb ''* create **'' TC_WRITE,
     plain_verb ''* update **'' TC_WRITE,
     plain_verb ''* cancel **'' TC_WRITE,
     (plain_verb ''* capture **'' TC_WRITE)\<lparr>vb_tags := [TAG_PRODUCTION], vb_note := Some
       ''moves money''\<rparr>,
     (plain_verb ''* confirm **'' TC_WRITE)\<lparr>vb_tags := [TAG_PRODUCTION], vb_note := Some
       ''moves money''\<rparr>,
     (plain_verb ''* pay **'' TC_WRITE)\<lparr>vb_tags := [TAG_PRODUCTION], vb_note := Some ''moves money''\<rparr>,
     plain_verb ''* void_invoice **'' TC_WRITE,
     plain_verb ''* finalize_invoice **'' TC_WRITE,
     plain_verb ''* send_invoice **'' TC_COMMUNICATION,
     plain_verb ''* mark_uncollectible **'' TC_WRITE,
     (plain_verb ''* reverse **'' TC_WRITE)\<lparr>vb_tags := [TAG_PRODUCTION], vb_note := Some
       ''moves money''\<rparr>,
     plain_verb ''* resume **'' TC_WRITE,
     plain_verb ''* close **'' TC_WRITE,
     plain_verb ''* expire **'' TC_WRITE,
     plain_verb ''* verify **'' TC_WRITE,
     plain_verb ''* attach **'' TC_WRITE,
     plain_verb ''* detach **'' TC_WRITE,
     plain_verb ''* * create **'' TC_WRITE,
     plain_verb ''* * update **'' TC_WRITE]"

definition stripe_table :: verb_table where
  "stripe_table =
     (plain_table ''stripe'' [''~/.config/stripe/config.toml'', ''STRIPE_API_KEY''] ''can move money'' stripe_verbs)
     \<lparr>vt_global_flags := [''--api-key'', ''--project-name'', ''-p'', ''--device-name'', ''--color'',
       ''--log-level'', ''--config''],
      vt_production_switches := [''--live'']\<rparr>"

definition DATA_TABLES :: "verb_table list" where
  "DATA_TABLES = [psql_table, mysql_table, mariadb_table, mycli_table, pgcli_table, redis_cli_table, mongosh_table,
    stripe_table]"

section \<open>\<open>verbs/tables/deploy.ts\<close>\<close>

definition vercel_verbs :: "verb list" where
  "vercel_verbs =
    [(plain_verb ''deploy --prod'' TC_WRITE)\<lparr>vb_tags := [TAG_PRODUCTION], vb_note := Some
      ''production deploy''\<rparr>,
     (plain_verb ''--prod'' TC_WRITE)\<lparr>vb_tags := [TAG_PRODUCTION], vb_note := Some
       ''production deploy''\<rparr>,
     (plain_verb ''env rm **'' TC_DESTRUCTIVE)\<lparr>vb_tags := [TAG_SECRETS]\<rparr>,
     plain_verb ''domains rm **'' TC_DESTRUCTIVE,
     plain_verb ''project rm **'' TC_DESTRUCTIVE,
     (plain_verb ''rm **'' TC_DESTRUCTIVE)\<lparr>vb_note := Some ''removes deployments''\<rparr>,
     (plain_verb ''remove **'' TC_DESTRUCTIVE)\<lparr>vb_note := Some ''removes deployments''\<rparr>,
     plain_verb ''dns rm **'' TC_DESTRUCTIVE,
     (plain_verb ''env add **'' TC_WRITE)\<lparr>vb_tags := [TAG_SECRETS]\<rparr>,
     (plain_verb ''env pull **'' TC_WRITE)\<lparr>vb_tags := [TAG_SECRETS], vb_note := Some
       ''writes every secret to a file''\<rparr>,
     (plain_verb ''promote **'' TC_WRITE)\<lparr>vb_tags := [TAG_PRODUCTION]\<rparr>,
     (plain_verb ''rollback **'' TC_WRITE)\<lparr>vb_tags := [TAG_PRODUCTION]\<rparr>,
     (plain_verb ''redeploy **'' TC_WRITE)\<lparr>vb_tags := [TAG_PRODUCTION]\<rparr>,
     plain_verb ''alias **'' TC_WRITE,
     (plain_verb ''deploy'' TC_WRITE)\<lparr>vb_note := Some ''preview deploy''\<rparr>,
     (plain_verb ''$'' TC_WRITE)\<lparr>vb_name := Some ''deploy'', vb_note := Some ''preview deploy''\<rparr>,
     (plain_verb ''env ls **'' TC_READ)\<lparr>vb_tags := [TAG_SECRETS]\<rparr>,
     plain_verb ''whoami'' TC_READ,
     plain_verb ''ls'' TC_READ,
     plain_verb ''list'' TC_READ,
     plain_verb ''inspect **'' TC_READ,
     plain_verb ''logs **'' TC_READ]"

definition vercel_table :: verb_table where
  "vercel_table =
     (plain_table ''vercel'' [''~/.vercel/auth.json'', ''VERCEL_TOKEN''] ''can deploy to production'' vercel_verbs)
     \<lparr>vt_global_flags := [''--scope'', ''-S'', ''--token'', ''-t'', ''--cwd'', ''-A'', ''--local-config'',
       ''-Q'', ''--global-config''],
      vt_global_switches := [''--debug'', ''-d''],
      vt_environment_flags := [''--target'', ''--environment''],
      vt_production_switches := [''--prod'']\<rparr>"

definition railway_verbs :: "verb list" where
  "railway_verbs =
    [(plain_verb ''delete **'' TC_DESTRUCTIVE)\<lparr>vb_alternative := Some
      ''railway status, and let a person delete it''\<rparr>,
     (plain_verb ''down **'' TC_DESTRUCTIVE)\<lparr>vb_note := Some ''removes the latest deployment'', vb_alternative
       := Some ''railway logs, and let a person roll back''\<rparr>,
     plain_verb ''volume delete **'' TC_DESTRUCTIVE,
     plain_verb ''environment delete **'' TC_DESTRUCTIVE,
     (plain_verb ''up **'' TC_WRITE)\<lparr>vb_tags := [TAG_PRODUCTION], vb_alternative := Some
       ''railway status''\<rparr>,
     (plain_verb ''redeploy **'' TC_WRITE)\<lparr>vb_tags := [TAG_PRODUCTION], vb_alternative := Some
       ''railway logs, and let the deploy pipeline redeploy''\<rparr>,
     (plain_verb ''deploy **'' TC_WRITE)\<lparr>vb_note := Some ''deploys a template''\<rparr>,
     (plain_verb ''restart **'' TC_WRITE)\<lparr>vb_tags := [TAG_PRODUCTION]\<rparr>,
     (plain_verb ''scale **'' TC_WRITE)\<lparr>vb_tags := [TAG_PRODUCTION]\<rparr>,
     (plain_verb ''variables --set **'' TC_WRITE)\<lparr>vb_tags := [TAG_SECRETS], vb_alternative := Some
       ''railway variables --kv, to read them''\<rparr>,
     (plain_verb ''variables -s **'' TC_WRITE)\<lparr>vb_tags := [TAG_SECRETS]\<rparr>,
     (plain_verb ''variable set **'' TC_WRITE)\<lparr>vb_tags := [TAG_SECRETS]\<rparr>,
     (plain_verb ''variable delete **'' TC_DESTRUCTIVE)\<lparr>vb_tags := [TAG_SECRETS]\<rparr>,
     (plain_verb ''variables **'' TC_READ)\<lparr>vb_tags := [TAG_SECRETS], vb_note := Some
       ''prints the values''\<rparr>,
     (plain_verb ''variable list **'' TC_READ)\<lparr>vb_tags := [TAG_SECRETS], vb_note := Some
       ''prints the values''\<rparr>,
     plain_verb ''environment new **'' TC_WRITE,
     plain_verb ''volume add **'' TC_WRITE,
     plain_verb ''volume update **'' TC_WRITE,
     plain_verb ''volume attach **'' TC_WRITE,
     plain_verb ''volume detach **'' TC_WRITE,
     plain_verb ''volume list **'' TC_READ,
     (plain_verb ''domain **'' TC_WRITE)\<lparr>vb_note := Some ''adds a domain''\<rparr>,
     (plain_verb ''add **'' TC_WRITE)\<lparr>vb_note := Some ''adds a service or a database''\<rparr>,
     (plain_verb ''init **'' TC_WRITE)\<lparr>vb_note := Some ''creates a project''\<rparr>,
     (plain_verb ''connect **'' TC_WRITE)\<lparr>vb_note := Some ''a database shell can do anything''\<rparr>,
     (plain_verb ''ssh **'' TC_WRITE)\<lparr>vb_note := Some ''a shell inside the deployed service''\<rparr>,
     (plain_verb ''run **'' TC_WRITE)\<lparr>vb_tags := [TAG_SECRETS], vb_note := Some
       ''runs a local command with the environment variables''\<rparr>,
     (plain_verb ''shell **'' TC_WRITE)\<lparr>vb_tags := [TAG_SECRETS], vb_note := Some
       ''a local shell with the environment variables''\<rparr>,
     (plain_verb ''link **'' TC_WRITE)\<lparr>vb_note := Some ''local''\<rparr>,
     (plain_verb ''unlink **'' TC_WRITE)\<lparr>vb_note := Some ''local''\<rparr>,
     (plain_verb ''service **'' TC_WRITE)\<lparr>vb_note := Some ''local''\<rparr>,
     (plain_verb ''environment **'' TC_WRITE)\<lparr>vb_note := Some ''local''\<rparr>,
     plain_verb ''logs **'' TC_READ,
     plain_verb ''status **'' TC_READ,
     plain_verb ''list **'' TC_READ,
     plain_verb ''whoami **'' TC_READ,
     plain_verb ''open **'' TC_READ,
     plain_verb ''docs **'' TC_READ,
     plain_verb ''version **'' TC_READ,
     plain_verb ''help **'' TC_READ]"

definition railway_table :: verb_table where
  "railway_table =
     (plain_table ''railway'' [''~/.railway/config.json''] ''can deploy'' railway_verbs)
     \<lparr>vt_environment_flags := [''-e'', ''--environment''],
      vt_environment_variables := [''RAILWAY_ENVIRONMENT'', ''RAILWAY_ENVIRONMENT_NAME'']\<rparr>"

definition fly_verbs :: "verb list" where
  "fly_verbs =
    [plain_verb ''apps destroy **'' TC_DESTRUCTIVE,
     (plain_verb ''deploy **'' TC_WRITE)\<lparr>vb_tags := [TAG_PRODUCTION]\<rparr>,
     plain_verb ''status'' TC_READ]"

definition fly_table :: verb_table where
  "fly_table =
     plain_table ''fly'' [''~/.fly/config.yml''] ''can deploy'' fly_verbs"

definition heroku_verbs :: "verb list" where
  "heroku_verbs =
    [plain_verb ''apps:destroy **'' TC_DESTRUCTIVE,
     (plain_verb ''releases:rollback **'' TC_WRITE)\<lparr>vb_tags := [TAG_PRODUCTION]\<rparr>,
     plain_verb ''ps **'' TC_READ]"

definition heroku_table :: verb_table where
  "heroku_table =
     plain_table ''heroku'' [''~/.heroku''] ''can deploy'' heroku_verbs"

definition netlify_verbs :: "verb list" where
  "netlify_verbs =
    [plain_verb ''sites:delete **'' TC_DESTRUCTIVE,
     (plain_verb ''deploy --prod'' TC_WRITE)\<lparr>vb_tags := [TAG_PRODUCTION]\<rparr>,
     plain_verb ''deploy **'' TC_WRITE,
     plain_verb ''status'' TC_READ]"

definition netlify_table :: verb_table where
  "netlify_table =
     (plain_table ''netlify'' [''~/.netlify''] ''can deploy'' netlify_verbs)
     \<lparr>vt_environment_flags := [''--context''],
      vt_production_switches := [''--prod'']\<rparr>"

definition DEPLOY_TABLES :: "verb_table list" where
  "DEPLOY_TABLES = [vercel_table, railway_table, fly_table, heroku_table, netlify_table]"

section \<open>\<open>verbs/tables.ts\<close>\<close>

definition ALL_TABLES :: "verb_table list" where
  "ALL_TABLES = CLOUD_TABLES @ CODE_TABLES @ DATA_TABLES @ DEPLOY_TABLES"

definition TABLE_ORDER :: "string list" where
  "TABLE_ORDER = [''aws'', ''gcloud'', ''az'', ''gh'', ''kubectl'', ''terraform'', ''docker'', ''vercel'',
    ''railway'', ''fly'', ''heroku'', ''netlify'', ''psql'', ''pgcli'', ''mysql'', ''mariadb'', ''mycli'',
    ''redis-cli'', ''mongosh'', ''npm'', ''stripe'', ''git'', ''playwright'']"

text \<open>A name of the order with no table throws as the module loads: \<open>None\<close>.\<close>

definition tables_in_order :: "verb_table list option" where
  "tables_in_order = those (map (\<lambda>name. List.find (\<lambda>each. vt_name each = name) ALL_TABLES)
    TABLE_ORDER)"

definition VERB_TABLES :: "verb_table list" where
  "VERB_TABLES = or_else tables_in_order []"

definition verb_table_for :: "string \<Rightarrow> verb_table option" where
  "verb_table_for binary = List.find (\<lambda>table. vt_name table = binary) VERB_TABLES"

definition verb_table_names :: "string list" where
  "verb_table_names = map vt_name VERB_TABLES"

lemma table_names [simp]:
  "vt_name aws_table = ''aws''"
  "vt_name gcloud_table = ''gcloud''"
  "vt_name az_table = ''az''"
  "vt_name gh_table = ''gh''"
  "vt_name kubectl_table = ''kubectl''"
  "vt_name terraform_table = ''terraform''"
  "vt_name docker_table = ''docker''"
  "vt_name vercel_table = ''vercel''"
  "vt_name railway_table = ''railway''"
  "vt_name fly_table = ''fly''"
  "vt_name heroku_table = ''heroku''"
  "vt_name netlify_table = ''netlify''"
  "vt_name psql_table = ''psql''"
  "vt_name pgcli_table = ''pgcli''"
  "vt_name mysql_table = ''mysql''"
  "vt_name mariadb_table = ''mariadb''"
  "vt_name mycli_table = ''mycli''"
  "vt_name redis_cli_table = ''redis-cli''"
  "vt_name mongosh_table = ''mongosh''"
  "vt_name npm_table = ''npm''"
  "vt_name stripe_table = ''stripe''"
  "vt_name git_table = ''git''"
  "vt_name playwright_table = ''playwright''"
  by (simp_all add: plain_table_def aws_table_def gcloud_table_def az_table_def gh_table_def kubectl_table_def
    terraform_table_def docker_table_def vercel_table_def railway_table_def fly_table_def heroku_table_def
    netlify_table_def psql_table_def pgcli_table_def mysql_table_def mariadb_table_def mycli_table_def
    redis_cli_table_def mongosh_table_def npm_table_def stripe_table_def git_table_def playwright_table_def)

lemmas all_tables_defs = ALL_TABLES_def CLOUD_TABLES_def CODE_TABLES_def DATA_TABLES_def DEPLOY_TABLES_def

lemma all_table_names: "map vt_name ALL_TABLES = [''aws'', ''gcloud'', ''az'', ''kubectl'', ''terraform'', ''docker'', ''gh'', ''git'', ''npm'', ''playwright'', ''psql'', ''mysql'', ''mariadb'', ''mycli'', ''pgcli'', ''redis-cli'', ''mongosh'', ''stripe'', ''vercel'', ''railway'', ''fly'', ''heroku'', ''netlify'']"
  by (simp add: all_tables_defs table_names)

lemma find_by_index: "List.find (\<lambda>each. f each = n) ts = map_option ((!) ts) (find_index (\<lambda>m. m = n) (map f ts))"
  by (induction ts) (auto simp: option.map_comp comp_def)

lemma order_indices:
  "map (\<lambda>name. find_index (\<lambda>m. m = name) [''aws'', ''gcloud'', ''az'', ''kubectl'', ''terraform'', ''docker'', ''gh'', ''git'', ''npm'', ''playwright'', ''psql'', ''mysql'', ''mariadb'', ''mycli'', ''pgcli'', ''redis-cli'', ''mongosh'', ''stripe'', ''vercel'', ''railway'', ''fly'', ''heroku'', ''netlify'']) TABLE_ORDER =
     [Some 0, Some 1, Some 2, Some 6, Some 3, Some 4, Some 5, Some 18, Some 19, Some 20, Some 21, Some 22, Some 10, Some 14, Some 11, Some 12, Some 13, Some 15, Some 16, Some 8, Some 17, Some 7, Some 9]"
  by code_simp

lemma tables_in_order_indices:
  "tables_in_order = those (map (map_option ((!) ALL_TABLES)) [Some 0, Some 1, Some 2, Some 6, Some 3, Some 4, Some 5, Some 18, Some 19, Some 20, Some 21, Some 22, Some 10, Some 14, Some 11, Some 12, Some 13, Some 15, Some 16, Some 8, Some 17, Some 7, Some 9])"
  unfolding tables_in_order_def find_by_index all_table_names order_indices [symmetric] by (simp add: comp_def)

lemma tables_in_order_all:
  "tables_in_order = Some [aws_table, gcloud_table, az_table, gh_table, kubectl_table, terraform_table, docker_table,
    vercel_table, railway_table, fly_table, heroku_table, netlify_table, psql_table, pgcli_table, mysql_table,
    mariadb_table, mycli_table, redis_cli_table, mongosh_table, npm_table, stripe_table, git_table, playwright_table]"
  unfolding tables_in_order_indices by (simp add: all_tables_defs)

lemma VERB_TABLES_all: "VERB_TABLES = [aws_table, gcloud_table, az_table, gh_table, kubectl_table, terraform_table,
  docker_table, vercel_table, railway_table, fly_table, heroku_table, netlify_table, psql_table, pgcli_table,
  mysql_table, mariadb_table, mycli_table, redis_cli_table, mongosh_table, npm_table, stripe_table, git_table,
  playwright_table]"
  by (simp add: VERB_TABLES_def tables_in_order_all)

end
