(* ===== verification/BinaryClass.thy ===== *)
theory BinaryClass
  imports VerbTables ShellWords
begin

text \<open>
  \<open>intercept/binary-class.ts\<close> and \<open>intercept/writers.ts\<close>: what one command asks for, read from its words,
  for the programs that have no table of verbs: removers, fetchers, package managers, readers and
  writers of files. Parsing a URL is the platform's, and a parameter here.
\<close>

section \<open>Commands\<close>

datatype command_class = CLASS_NORMAL | CLASS_DESTRUCTIVE | CLASS_NETWORK | CLASS_PACKAGE_INSTALL

fun command_class_text :: "command_class \<Rightarrow> string" where
  "command_class_text CLASS_NORMAL = ''normal''"
| "command_class_text CLASS_DESTRUCTIVE = ''destructive''"
| "command_class_text CLASS_NETWORK = ''network''"
| "command_class_text CLASS_PACKAGE_INSTALL = ''package-install''"

record binary_verdict =
  bv_action :: string
  bv_class :: command_class
  bv_target :: "string option"
  bv_because :: string
  bv_method :: "string option"

definition plain_verdict :: "string \<Rightarrow> command_class \<Rightarrow> string option \<Rightarrow> string \<Rightarrow> binary_verdict" where
  "plain_verdict action cls target because =
     \<lparr>bv_action = action, bv_class = cls, bv_target = target, bv_because = because, bv_method = None\<rparr>"

definition ROOTS :: "string list" where
  "ROOTS = [''/'', ''/'' @ ''*'', ''~'', ''~/'', ''.'', ''./'']"

definition first_non_flag :: "string list \<Rightarrow> string option" where
  "first_non_flag args = List.find (\<lambda>arg. \<not> starts_with ''-'' arg) args"

text \<open>\<open>/^[\w.-]+\.[a-z]{2,}/i\<close>.\<close>

definition bare_host :: "string \<Rightarrow> bool" where
  "bare_host candidate =
     (let run = takeWhile (\<lambda>c. is_word c \<or> c = CHR ''.'' \<or> c = CHR ''-'') candidate; letter = (\<lambda>c. is_lower c \<or> is_upper c)
      in list_ex (\<lambda>i. case drop i run of d # a # b # _ \<Rightarrow> d = CHR ''.'' \<and> letter a \<and> letter b | _ \<Rightarrow> False)
           [1 ..< length run])"

definition host_of_candidate :: "(string \<Rightarrow> string option) \<Rightarrow> string \<Rightarrow> string option" where
  "host_of_candidate url_host candidate =
     (case url_host candidate of
        Some host \<Rightarrow> Some host
      | None \<Rightarrow> if bare_host candidate then Some (first_part (CHR ''/'') candidate) else None)"

section \<open>Removing and raw writing\<close>

fun rm_flags :: "string list \<Rightarrow> string list" where
  "rm_flags [] = []"
| "rm_flags (arg # args) =
     (if arg = ''--'' then []
      else (if starts_with ''--'' arg then [arg]
            else if starts_with ''-'' arg then map (\<lambda>letter. [letter]) (drop 1 arg) else []) @ rm_flags args)"

definition describe_rm :: "string list \<Rightarrow> string option \<Rightarrow> string" where
  "describe_rm args target =
     (if (case target of None \<Rightarrow> False | Some t \<Rightarrow> t \<in> set ROOTS) then ''a recursive delete at a filesystem root''
      else (let flags = rm_flags args;
                recursive = (''r'' \<in> set flags \<or> ''R'' \<in> set flags \<or> ''--recursive'' \<in> set flags);
                forced = (''f'' \<in> set flags \<or> ''--force'' \<in> set flags)
            in if recursive \<and> forced then ''a recursive, forced delete'' else ''a delete''))"

definition classify_rm :: "string list \<Rightarrow> binary_verdict" where
  "classify_rm args =
     plain_verdict FILESYSTEM_DELETE CLASS_DESTRUCTIVE (first_non_flag args) (describe_rm args (first_non_flag args))"

definition classify_dd :: "string list \<Rightarrow> binary_verdict" where
  "classify_dd args =
     plain_verdict FILESYSTEM_WRITE CLASS_DESTRUCTIVE (List.find (starts_with ''of='') args)
       ''dd writes raw blocks and does not ask twice''"

definition classify_ssh :: "string list \<Rightarrow> binary_verdict" where
  "classify_ssh args = plain_verdict ''network.ssh'' CLASS_NETWORK (first_non_flag args) ''ssh reaches another machine''"

section \<open>Requests\<close>

definition CURL_VALUE_FLAGS :: "string list" where
  "CURL_VALUE_FLAGS =
     [''-H'', ''--header'', ''-d'', ''--data'', ''-o'', ''--output'', ''-u'', ''--user'', ''-A'', ''--user-agent'', ''-b'',
      ''--cookie'', ''-e'', ''--referer'', ''-X'', ''--request'', ''-F'', ''--form'', ''-T'', ''--upload-file'']"

fun positional_args :: "string list \<Rightarrow> string list \<Rightarrow> string list" where
  "positional_args value_flags [] = []"
| "positional_args value_flags [arg] =
     (if arg \<in> set value_flags \<or> starts_with ''-'' arg then [] else [arg])"
| "positional_args value_flags (arg # val # rest) =
     (if arg \<in> set value_flags then positional_args value_flags rest
      else if starts_with ''-'' arg then positional_args value_flags (val # rest)
      else arg # positional_args value_flags (val # rest))"

definition METHOD_FLAGS :: "string list" where "METHOD_FLAGS = [''-X'', ''--request'', ''--method'']"

definition BODY_FLAGS :: "string list" where
  "BODY_FLAGS =
     [''-d'', ''--data'', ''--data-raw'', ''--data-binary'', ''--data-urlencode'', ''--json'', ''-F'', ''--form'', ''-T'',
      ''--upload-file'', ''--post-data'', ''--post-file'', ''--body-data'', ''--body-file'']"

definition HEAD_FLAGS :: "string list" where "HEAD_FLAGS = [''-I'', ''--head'', ''--spider'']"
definition GET_FLAGS :: "string list" where "GET_FLAGS = [''-G'', ''--get'']"

fun named_method :: "string list \<Rightarrow> string option" where
  "named_method [] = None"
| "named_method (arg # args) =
     (if arg \<in> set METHOD_FLAGS then (case args of [] \<Rightarrow> None | val # _ \<Rightarrow> Some val)
      else (case List.find (\<lambda>flag. starts_with (flag @ ''='') arg) METHOD_FLAGS of
          Some flag \<Rightarrow> Some (drop (length flag + 1) arg)
        | None \<Rightarrow> if starts_with ''-X'' arg \<and> length arg > 2 then Some (drop 2 arg) else named_method args))"

definition carries_body :: "string \<Rightarrow> bool" where
  "carries_body arg =
     (list_ex (\<lambda>flag. starts_with ''--'' flag \<and> starts_with (flag @ ''='') arg) BODY_FLAGS \<or>
      length arg > 2 \<and> starts_with ''-d'' arg \<and> \<not> starts_with ''--'' arg)"

definition request_method_of :: "string list \<Rightarrow> string" where
  "request_method_of args =
     (case named_method args of
        Some named \<Rightarrow> to_upper named
      | None \<Rightarrow>
          if list_ex (\<lambda>arg. arg \<in> set GET_FLAGS) args then ''GET''
          else if list_ex (\<lambda>arg. arg \<in> set BODY_FLAGS \<or> carries_body arg) args then ''POST''
          else if list_ex (\<lambda>arg. arg \<in> set HEAD_FLAGS) args then ''HEAD''
          else ''GET'')"

definition classify_curl :: "(string \<Rightarrow> string option) \<Rightarrow> string \<Rightarrow> string list \<Rightarrow> binary_verdict" where
  "classify_curl url_host binary args =
     (let host = or_else (List.find (\<lambda>each. each \<noteq> None)
            (map (host_of_candidate url_host) (positional_args CURL_VALUE_FLAGS args))) None
      in (plain_verdict HTTP_REQUEST CLASS_NETWORK host (binary @ '' reaches '' @ or_else host ''the network''))
           \<lparr>bv_method := Some (request_method_of args)\<rparr>)"

section \<open>Packages\<close>

definition PACKAGE_INSTALL_VERBS :: "string list" where
  "PACKAGE_INSTALL_VERBS = [''install'', ''add'', ''i'', ''ci'']"

definition PACKAGE_VALUE_FLAGS :: "(string \<times> string list) list" where
  "PACKAGE_VALUE_FLAGS =
     [(''npm'', [''-w'', ''--workspace'', ''-C'', ''--prefix'']), (''pnpm'', [''--filter'', ''-F'', ''-C'', ''--dir'']),
      (''yarn'', [''--cwd''])]"

definition BARE_INSTALLS :: "string list" where "BARE_INSTALLS = [''yarn'', ''pnpm'']"

definition classify_package_manager :: "string \<Rightarrow> string list \<Rightarrow> binary_verdict" where
  "classify_package_manager binary args =
     (let positional = positional_args (or_else (map_of PACKAGE_VALUE_FLAGS binary) []) args;
          v = elem_at positional 0;
          installing = (case v of None \<Rightarrow> binary \<in> set BARE_INSTALLS | Some w \<Rightarrow> w \<in> set PACKAGE_INSTALL_VERBS)
      in plain_verdict (if installing then ''package.install'' else ''shell.execute'')
           (if installing then CLASS_PACKAGE_INSTALL else CLASS_NORMAL) (elem_at positional 1)
           (if installing then binary @ '' installs code that then runs on this machine''
            else trim (binary @ '' '' @ or_else v [])))"

section \<open>Git, by its subcommand\<close>

definition GIT_REMOTE :: "string list" where "GIT_REMOTE = [''push'', ''fetch'', ''pull'', ''clone'']"
definition FORCE_FLAGS :: "string list" where "FORCE_FLAGS = [''--force'', ''-f'', ''--force-with-lease'']"

definition GIT_VALUE_FLAGS :: "string list" where
  "GIT_VALUE_FLAGS = [''-C'', ''-c'', ''--git-dir'', ''--work-tree'', ''--namespace'', ''--exec-path'']"

definition destructive_git_verdict :: "string \<Rightarrow> string list \<Rightarrow> binary_verdict option" where
  "destructive_git_verdict subcommand args =
     (if subcommand = ''push'' \<and> list_ex (\<lambda>arg. arg \<in> set FORCE_FLAGS) args then
        Some (plain_verdict ''git.push'' CLASS_DESTRUCTIVE None
          ''a force push rewrites history somebody else may have pulled'')
      else if subcommand = ''reset'' \<and> ''--hard'' \<in> set args then
        Some (plain_verdict ''git.reset'' CLASS_DESTRUCTIVE None ''a hard reset discards work that was never committed'')
      else if subcommand = ''clean'' \<and> list_ex (\<lambda>arg. CHR ''f'' \<in> set arg) args then
        Some (plain_verdict ''git.clean'' CLASS_DESTRUCTIVE None ''a forced clean deletes untracked files with no undo'')
      else None)"

definition classify_git_subcommand :: "string \<Rightarrow> string list \<Rightarrow> binary_verdict" where
  "classify_git_subcommand subcommand args =
     (case destructive_git_verdict subcommand args of
        Some destructive \<Rightarrow> destructive
      | None \<Rightarrow>
          if subcommand = ''push'' then plain_verdict ''git.push'' CLASS_NETWORK None ''a push reaches the remote''
          else if subcommand \<in> set GIT_REMOTE then
            plain_verdict (''git.'' @ subcommand) CLASS_NETWORK None (''git '' @ subcommand @ '' reaches the remote'')
          else plain_verdict (''git.'' @ subcommand) CLASS_NORMAL None (''git '' @ subcommand))"

definition classify_git :: "string list \<Rightarrow> binary_verdict" where
  "classify_git args =
     (case first_non_flag (positional_args GIT_VALUE_FLAGS args) of
        None \<Rightarrow> plain_verdict ''git.status'' CLASS_NORMAL None ''git''
      | Some subcommand \<Rightarrow>
          (let positional = filter (\<lambda>arg. \<not> starts_with ''-'' arg) args;
               target = join_with '' '' (drop 1 positional);
               verdict = classify_git_subcommand subcommand args
           in if target = [] \<or> bv_action verdict = ''git.clean'' then verdict else verdict\<lparr>bv_target := Some target\<rparr>))"

section \<open>Files read\<close>

definition READER_VALUE_FLAGS :: "(string \<times> string list) list" where
  "READER_VALUE_FLAGS =
     [(''head'', [''-n'', ''-c'', ''--lines'', ''--bytes'']), (''tail'', [''-n'', ''-c'', ''--lines'', ''--bytes'']),
      (''grep'', [''-e'', ''-f'', ''-m'', ''--regexp'', ''--file'']), (''rg'', [''-e'', ''-f'', ''-m'', ''--regexp'', ''--file'']),
      (''od'', [''-N'', ''-j'', ''-t'']), (''xxd'', [''-l'', ''-s'', ''-c''])]"

definition PATTERN_FIRST :: "string list" where "PATTERN_FIRST = [''grep'', ''rg'']"

definition READERS :: "string list" where
  "READERS = [''cat'', ''head'', ''tail'', ''less'', ''more'', ''nl'', ''tac'', ''strings'', ''xxd'', ''od'', ''base64'',
     ''grep'', ''rg'', ''cp'']"

text \<open>The environment of the process, variable by variable.\<close>

type_synonym process_env = "string \<Rightarrow> string option"

definition HOME_PREFIXES :: "string list" where "HOME_PREFIXES = [''~/'', ''$HOME/'']"

definition with_home_expanded :: "string \<Rightarrow> string option \<Rightarrow> string" where
  "with_home_expanded path home =
     (case home of
        None \<Rightarrow> path
      | Some h \<Rightarrow>
          if path = ''~'' then h
          else (case List.find (\<lambda>each. starts_with each path) HOME_PREFIXES of
              None \<Rightarrow> path
            | Some p \<Rightarrow> h @ ''/'' @ drop (length p) path))"

definition absolute_path :: "string \<Rightarrow> process_env \<Rightarrow> string" where
  "absolute_path candidate env =
     (let path = with_home_expanded candidate (first_some (env ''HOME'') (env ''USERPROFILE''))
      in if starts_with ''/'' path then path
         else (case env ''PWD'' of
             None \<Rightarrow> path
           | Some cwd \<Rightarrow>
               (if ends_with ''/'' cwd then butlast cwd else cwd) @ ''/'' @
               (if starts_with ''./'' path then drop 2 path else path)))"

record file_verdict =
  fv_action :: string
  fv_class :: string
  fv_target :: "string option"
  fv_targets :: "string list"
  fv_because :: string

definition files_read_by :: "string \<Rightarrow> string list \<Rightarrow> string list" where
  "files_read_by binary args =
     (let positional = positional_args (or_else (map_of READER_VALUE_FLAGS binary) []) args
      in if binary = ''cp'' then butlast positional
         else if binary \<in> set PATTERN_FIRST then drop 1 positional
         else positional)"

definition classify_reader :: "string \<Rightarrow> string list \<Rightarrow> process_env \<Rightarrow> file_verdict option" where
  "classify_reader binary args env =
     (if binary \<notin> set READERS then None
      else (let targets = map (\<lambda>f. absolute_path f env) (files_read_by binary args)
            in Some \<lparr>fv_action = FILESYSTEM_READ, fv_class = TC_READ, fv_target = elem_at targets 0, fv_targets = targets,
                 fv_because = binary @ '' reads the file it is given''\<rparr>))"

section \<open>The programs it knows\<close>

definition CLASSIFIED :: "string list" where
  "CLASSIFIED = [''rm'', ''dd'', ''curl'', ''wget'', ''ssh'', ''git'', ''npm'', ''pnpm'', ''yarn'', ''pip'', ''pip3'']"

definition classify_binary :: "(string \<Rightarrow> string option) \<Rightarrow> string \<Rightarrow> string list \<Rightarrow> binary_verdict option" where
  "classify_binary url_host binary args =
     (if binary \<notin> set CLASSIFIED then None
      else Some (if binary = ''rm'' then classify_rm args
        else if binary = ''dd'' then classify_dd args
        else if binary = ''curl'' \<or> binary = ''wget'' then classify_curl url_host binary args
        else if binary = ''ssh'' then classify_ssh args
        else if binary = ''git'' then classify_git args
        else classify_package_manager binary args))"

definition intercepted_binaries :: "string list" where "intercepted_binaries = CLASSIFIED"

definition BROWSER_LAUNCHERS :: "string list" where
  "BROWSER_LAUNCHERS = [''chromium'', ''chromedriver'', ''geckodriver'', ''google-chrome'', ''msedgedriver'']"

definition interceptable_binaries :: "string list" where
  "interceptable_binaries = uniq (CLASSIFIED @ verb_table_names @ BROWSER_LAUNCHERS)"

definition is_intercepted :: "string \<Rightarrow> bool" where "is_intercepted binary = (binary \<in> set CLASSIFIED)"

section \<open>Files written\<close>

definition WRITER_VALUE_FLAGS :: "(string \<times> string list) list" where
  "WRITER_VALUE_FLAGS =
     [(''truncate'', [''-s'', ''--size'', ''-r'', ''--reference'']),
      (''install'', [''-m'', ''--mode'', ''-o'', ''--owner'', ''-g'', ''--group'', ''-t'', ''--target-directory'']),
      (''sed'', [''-e'', ''--expression'', ''-f'', ''--file'']), (''mkdir'', [''-m'', ''--mode'']),
      (''ln'', [''-t'', ''--target-directory'']), (''mv'', [''-t'', ''--target-directory'', ''-S'', ''--suffix'']),
      (''cp'', [''-t'', ''--target-directory'', ''-S'', ''--suffix''])]"

definition REMOVERS :: "string list" where "REMOVERS = [''rmdir'', ''unlink'', ''shred'']"

fun value_of :: "string list \<Rightarrow> string list \<Rightarrow> string option" where
  "value_of flags [] = None"
| "value_of flags (arg # args) =
     (if arg \<in> set flags then (case args of [] \<Rightarrow> None | val # _ \<Rightarrow> Some val)
      else (case List.find (\<lambda>flag. starts_with ''--'' flag \<and> starts_with (flag @ ''='') arg) flags of
          Some flag \<Rightarrow> Some (drop (length flag + 1) arg)
        | None \<Rightarrow> value_of flags args))"

text \<open>\<open>/^-[a-zA-Z]*i/\<close>.\<close>

definition edits_in_place :: "string \<Rightarrow> bool" where
  "edits_in_place arg =
     (arg = ''-I'' \<or> starts_with ''--in-place'' arg \<or>
      starts_with ''-'' arg \<and> CHR ''i'' \<in> set (takeWhile (\<lambda>c. is_lower c \<or> is_upper c) (drop 1 arg)))"

definition sed_in_place_files :: "string list \<Rightarrow> string list \<Rightarrow> string list option" where
  "sed_in_place_files args positional =
     (if \<not> list_ex edits_in_place args then None
      else (let files = filter (\<lambda>arg. arg \<noteq> []) positional;
                scripted = list_ex (\<lambda>arg. arg \<in> set [''-e'', ''--expression'', ''-f'', ''--file'']) args
            in Some (if scripted then files else drop 1 files)))"

definition files_written_by :: "string \<Rightarrow> string list \<Rightarrow> string list option" where
  "files_written_by binary args =
     (let positional = positional_args (or_else (map_of WRITER_VALUE_FLAGS binary) []) args;
          directory = value_of [''-t'', ''--target-directory''] args
      in if binary \<in> set [''touch'', ''mkdir'', ''tee'', ''truncate'', ''rmdir'', ''unlink'', ''shred''] then Some positional
         else if binary = ''mv'' then Some (case directory of None \<Rightarrow> positional | Some d \<Rightarrow> positional @ [d])
         else if binary \<in> set [''cp'', ''install'', ''ln''] then
           Some (case directory of
               Some d \<Rightarrow> [d]
             | None \<Rightarrow>
                 if binary = ''ln'' \<and> length positional = 1 then [''.'']
                 else if length positional < 2 then [] else [List.last positional])
         else if binary \<in> set [''chmod'', ''chown'', ''chgrp''] then Some (drop 1 positional)
         else if binary \<in> set [''sed'', ''gsed''] then sed_in_place_files args positional
         else None)"

definition classify_writer :: "string \<Rightarrow> string list \<Rightarrow> process_env \<Rightarrow> file_verdict option" where
  "classify_writer binary args env =
     (case files_written_by binary args of
        None \<Rightarrow> None
      | Some written \<Rightarrow>
          (let targets = map (\<lambda>f. absolute_path f env) written; removes = (binary \<in> set REMOVERS)
           in Some \<lparr>fv_action = (if removes then FILESYSTEM_DELETE else FILESYSTEM_WRITE),
                fv_class = (if removes then TC_DESTRUCTIVE else TC_WRITE), fv_target = elem_at targets 0,
                fv_targets = targets,
                fv_because = (if removes then binary @ '' deletes what it is given''
                  else binary @ '' writes '' @ or_else (elem_at targets 0) ''a file'')\<rparr>))"

section \<open>Files that are missed\<close>

text \<open>
  A search that names its pattern with a flag has no pattern among its operands, and its first file is
  passed over as one; a copy into a directory named first takes the directory for a source and its
  last source for the destination.
\<close>

theorem flagged_pattern_misses_the_file:
  "files_read_by ''grep'' [''KEY'', ''.env''] = [''.env''] \<and> files_read_by ''grep'' [''-e'', ''KEY'', ''.env''] = []"
  by code_simp

theorem copy_into_directory_misses_its_source:
  "files_read_by ''cp'' [''.env'', ''/tmp''] = [''.env''] \<and> files_read_by ''cp'' [''-t'', ''/tmp'', ''.env''] = [''/tmp'']"
  by code_simp

end
