(* ===== verification/CommandAction.thy ===== *)
theory CommandAction
  imports Sql BinaryClass PosixPath
begin

text \<open>
  \<open>intercept/command-action.ts\<close>, \<open>sql-file.ts\<close>, \<open>awk.ts\<close>, \<open>environment-reads.ts\<close> and \<open>shown-writes.ts\<close>: the action of one
  command from its words. A statement given to a database client comes first, then the tool's
  table of verbs, then what reads files, what writes them, and the generic programs.
\<close>

section \<open>Actions\<close>

record resolved_action =
  ra_action :: string
  ra_class :: string
  ra_because :: string
  ra_target :: "string option"
  ra_targets :: "string list option"
  ra_alternative :: "string option"
  ra_method :: "string option"
  ra_environment :: "string option"
  ra_content :: "string list option"

definition plain_action :: "string \<Rightarrow> string \<Rightarrow> string \<Rightarrow> string option \<Rightarrow> resolved_action" where
  "plain_action action cls because target =
     \<lparr>ra_action = action, ra_class = cls, ra_because = because, ra_target = target, ra_targets = None,
      ra_alternative = None, ra_method = None, ra_environment = None, ra_content = None\<rparr>"

text \<open>
  What lies outside the line: the host and host name of a URL, as the platform parses it, and the text
  of a file with its size, where it can be read.
\<close>

record command_io =
  io_url_host :: "string \<Rightarrow> string option"
  io_url_hostname :: "string \<Rightarrow> string option"
  io_file :: "string \<Rightarrow> (nat \<times> string) option"
  io_cwd :: string

section \<open>Statements in a file\<close>

definition FILE_FLAGS :: "(string \<times> string list) list" where
  "FILE_FLAGS = [(''psql'', [''-f'', ''--file''])]"

definition MOST_STATEMENT_BYTES :: nat where "MOST_STATEMENT_BYTES = 512 * 1024"

definition file_statement_in :: "command_io \<Rightarrow> string \<Rightarrow> string list \<Rightarrow> process_env \<Rightarrow> string option" where
  "file_statement_in io binary args env =
     (case map_of FILE_FLAGS binary of
        None \<Rightarrow> None
      | Some flags \<Rightarrow>
          (case value_of flags args of
             None \<Rightarrow> None
           | Some path \<Rightarrow>
               if path = ''-'' then None
               else (case io_file io (if is_absolute path then path
                       else join_paths [or_else (env ''PWD'') (io_cwd io), path]) of
                   None \<Rightarrow> None
                 | Some (bytes, contents) \<Rightarrow> if bytes > MOST_STATEMENT_BYTES then None else Some contents)))"

section \<open>One command\<close>

definition resolve_sql_statement ::
  "command_io \<Rightarrow> (string \<Rightarrow> string list \<Rightarrow> process_env \<Rightarrow> string option) option \<Rightarrow>
     string \<Rightarrow> string list \<Rightarrow> process_env \<Rightarrow> string option \<Rightarrow> resolved_action option" where
  "resolve_sql_statement io statement_file binary args env stdin =
     (if \<not> is_database_client binary then None
      else (case first_some (statement_in binary args stdin)
              (case statement_file of None \<Rightarrow> None | Some read \<Rightarrow> read binary args env) of
          None \<Rightarrow> None
        | Some statement \<Rightarrow>
            (let sql = inspect_statement binary statement
             in if sf_risk sql = RISK_UNKNOWN then None
                else (let host = non_local_host (io_url_hostname io) args env;
                          ending = (if sf_risk sql = RISK_UNBOUNDED then ''-unbounded'' else [])
                      in Some (plain_action (binary @ ''.'' @ to_lower (sf_statement sql) @ ending) (sf_class sql)
                           (case host of None \<Rightarrow> sf_because sql | Some h \<Rightarrow> sf_because sql @ '', on '' @ h) host)))))"

definition resolve_from_verb_table :: "string \<Rightarrow> string list \<Rightarrow> process_env \<Rightarrow> resolved_action option" where
  "resolve_from_verb_table binary args env =
     (case verb_table_for binary of
        None \<Rightarrow> None
      | Some table \<Rightarrow>
          (let argv = verb_argv table args;
               v = refine_verb table argv (class_of table argv)
           in Some ((plain_action (action_for_command binary table argv (Some v)) (vb_class v)
                  (or_else (vb_note v) (binary @ '' '' @ vb_match v)) (target_in v argv))
                \<lparr>ra_alternative := vb_alternative v, ra_environment := environment_in table args env\<rparr>)))"

definition action_of_file :: "file_verdict \<Rightarrow> resolved_action" where
  "action_of_file f =
     (plain_action (fv_action f) (fv_class f) (fv_because f) (fv_target f))\<lparr>ra_targets := Some (fv_targets f)\<rparr>"

definition resolve_reader :: "string \<Rightarrow> string list \<Rightarrow> process_env \<Rightarrow> resolved_action option" where
  "resolve_reader binary args env = map_option action_of_file (classify_reader binary args env)"

definition resolve_writer :: "string \<Rightarrow> string list \<Rightarrow> process_env \<Rightarrow> resolved_action option" where
  "resolve_writer binary args env =
     (case classify_writer binary args env of
        None \<Rightarrow> None
      | Some verdict \<Rightarrow> if fv_targets verdict = [] then None else Some (action_of_file verdict))"

definition resolve_generic :: "command_io \<Rightarrow> string \<Rightarrow> string list \<Rightarrow> resolved_action option" where
  "resolve_generic io binary args =
     map_option (\<lambda>generic. (plain_action (bv_action generic) (command_class_text (bv_class generic)) (bv_because generic)
        (bv_target generic))\<lparr>ra_method := bv_method generic\<rparr>) (classify_binary (io_url_host io) binary args)"

definition resolve_command ::
  "command_io \<Rightarrow> (string \<Rightarrow> string list \<Rightarrow> process_env \<Rightarrow> string option) option \<Rightarrow>
     string \<Rightarrow> string list \<Rightarrow> process_env \<Rightarrow> string option \<Rightarrow> resolved_action" where
  "resolve_command io statement_file binary args env stdin =
     or_else (first_some (resolve_sql_statement io statement_file binary args env stdin)
       (first_some (resolve_from_verb_table binary args env)
         (first_some (resolve_reader binary args env)
           (first_some (resolve_writer binary args env)
             (resolve_generic io binary args)))))
       (plain_action ''shell.execute'' (command_class_text CLASS_NORMAL) binary None)"

section \<open>Awk, by its program\<close>

definition AWKS :: "string list" where "AWKS = [''awk'', ''gawk'', ''mawk'', ''nawk'']"

definition awk_writes :: "string \<Rightarrow> bool" where
  "awk_writes program =
     (CHR ''>'' \<in> set program \<or> CHR ''|'' \<in> set program \<or>
      list_ex (\<lambda>(word, rest). word = ''system'' \<and> starts_with ''('' (dropWhile is_space rest) \<or> word = ''getline'')
        (word_runs program))"

definition awk_unread :: "string \<Rightarrow> bool" where
  "awk_unread arg =
     list_ex (\<lambda>p. starts_with p arg)
       [''-f'', ''-i'', ''-e'', ''-E'', ''--file'', ''--include'', ''--source'', ''--exec'', ''--in-place'']"

text \<open>The program among the arguments, or nothing where an option hides it: \<open>Inl\<close> says it may write.\<close>

fun awk_program :: "string list \<Rightarrow> bool + string option" where
  "awk_program [] = Inr None"
| "awk_program (arg # args) =
     (if arg = ''--'' then Inr (case args of [] \<Rightarrow> None | program # _ \<Rightarrow> Some program)
      else if \<not> starts_with ''-'' arg then Inr (Some arg)
      else if awk_unread arg then Inl True
      else if arg = ''-F'' \<or> arg = ''-v'' then (case args of [] \<Rightarrow> Inr None | _ # rest \<Rightarrow> awk_program rest)
      else awk_program args)"

definition awk_may_write :: "string list \<Rightarrow> bool" where
  "awk_may_write argv =
     (if last_part (CHR ''/'') (or_else (elem_at argv 0) []) \<notin> set AWKS then False
      else (case awk_program (drop 1 argv) of
          Inl may_write \<Rightarrow> may_write
        | Inr None \<Rightarrow> True
        | Inr (Some program) \<Rightarrow> awk_writes program))"

section \<open>Variables printed\<close>

definition KNOWN_CREDENTIAL_NAMES :: "string list" where
  "KNOWN_CREDENTIAL_NAMES =
     [''DATABASE_URL'', ''MONGODB_URI'', ''REDIS_URL'', ''AWS_ACCESS_KEY_ID'', ''AWS_SESSION_TOKEN'', ''GITHUB_TOKEN'',
      ''GH_TOKEN'', ''NPM_TOKEN'', ''VERCEL_TOKEN'', ''PGPASSWORD'', ''MYSQL_PWD'', ''SECRET_KEY_BASE'', ''STRIPE_API_KEY'',
      ''STRIPE_SECRET_KEY'', ''STRIPE_WEBHOOK_SECRET'', ''OPENAI_API_KEY'']"

text \<open>\<open>KEY_LIKE\<close>: the last word of the name, perhaps in the plural, or \<open>_PWD\<close> at its end.\<close>

definition KEY_WORDS :: "string list" where
  "KEY_WORDS = [''KEY'', ''SECRET'', ''TOKEN'', ''PASSWORD'', ''PASSWD'', ''CREDENTIAL'', ''API'', ''DSN'', ''URI'']"

definition key_like :: "string \<Rightarrow> bool" where
  "key_like name =
     (let tail = last_part (CHR ''_'') (to_upper name)
      in list_ex (\<lambda>word. tail = word \<or> tail = word @ ''S'') KEY_WORDS \<or> ends_with ''_PWD'' (to_upper name))"

definition looks_like_credential :: "string \<Rightarrow> bool" where
  "looks_like_credential name = (to_upper name \<in> set KNOWN_CREDENTIAL_NAMES \<or> key_like name)"

definition PRINTERS :: "string list" where "PRINTERS = [''echo'', ''printf'', ''print'']"

definition is_assignment :: "string \<Rightarrow> bool" where
  "is_assignment arg =
     (case arg of
        [] \<Rightarrow> False
      | c # s \<Rightarrow> is_letter_or_line c \<and> starts_with ''='' (dropWhile is_word s))"

text \<open>The names after a dollar, \<open>/\$\{?([A-Za-z_][A-Za-z0-9_]*)/g\<close>.\<close>

function expanded_names :: "string \<Rightarrow> string list" where
  "expanded_names [] = []"
| "expanded_names (c # s) =
     (let body = (if starts_with ''{'' s then tl s else s)
      in if c = CHR ''$'' \<and> body \<noteq> [] \<and> is_letter_or_line (hd body)
         then takeWhile is_word body # expanded_names (dropWhile is_word body)
         else expanded_names s)"
  by pat_completeness auto
termination
proof (relation "measure length", goal_cases)
  case (2 c s body)
  have "length (dropWhile is_word body) \<le> length body" by (rule length_dropWhile_le)
  moreover have "length body \<le> length s" using 2 by simp
  ultimately show ?case by simp
qed auto

definition printed_variables :: "string list \<Rightarrow> string list" where
  "printed_variables argv =
     (let args = drop 1 argv; operands = filter (\<lambda>arg. \<not> starts_with ''-'' arg) args
      in case argv of
           [] \<Rightarrow> []
         | path # _ \<Rightarrow>
             (let binary = last_part (CHR ''/'') path; dumps = (args = [] \<or> ''-p'' \<in> set args)
              in if binary = ''env'' then
                   (if filter (\<lambda>arg. \<not> is_assignment arg) operands = [] then [''all''] else [])
                 else if binary = ''printenv'' then (if operands = [] then [''all''] else operands)
                 else if (binary = ''export'' \<or> binary = ''declare'') \<and> dumps then [''all'']
                 else if binary = ''set'' \<and> args = [] then [''all''] else []))"

definition variables_printed :: "string list list \<Rightarrow> string list" where
  "variables_printed commands =
     uniq (concat (map (\<lambda>argv. printed_variables argv @
       (if argv = [] \<or> last_part (CHR ''/'') (hd argv) \<notin> set PRINTERS then []
        else filter looks_like_credential (concat (map expanded_names (drop 1 argv))))) commands))"

definition environment_read :: "string list \<Rightarrow> resolved_action option" where
  "environment_read names =
     (case names of
        [] \<Rightarrow> None
      | first # _ \<Rightarrow>
          Some ((plain_action ''environment.read'' TC_READ
              (if first = ''all'' then ''it prints every variable, keys included''
               else ''it prints the value of '' @ join_with '', '' names) (Some first))
            \<lparr>ra_targets := Some names\<rparr>))"

end
