(* ===== verification/ResolveLine.thy ===== *)
theory ResolveLine
  imports CommandAction ShellArgv SelfProtection
begin

text \<open>
  \<open>intercept/resolve.ts\<close> and \<open>shown-writes.ts\<close>: a whole shell line as the actions it is ruled on, one for each
  command it runs and more for what its words do not show: redirects, text written, variables
  printed, changes to what governs the agent, hidden code and the places a line reaches.
\<close>

section \<open>One command, memnox's own among them\<close>

definition memnox_words :: "string \<Rightarrow> string list \<Rightarrow> string list option" where
  "memnox_words binary args =
     (if binary = ''memnox'' then Some args
      else if binary = ''npx'' \<and> starts_with ''memnox'' (or_else (elem_at args 0) []) then Some (drop 1 args)
      else None)"

definition resolve_memnox :: "string \<Rightarrow> string list \<Rightarrow> resolved_action option" where
  "resolve_memnox binary args =
     (case memnox_words binary args of
        None \<Rightarrow> None
      | Some words \<Rightarrow>
          (let command = join_with '' '' words
           in Some (plain_action (MEMNOX_ACTION_PREFIX @ or_else (elem_at words 0) ''scan'')
                (if loosens command then TC_WRITE else TC_READ) (trim (''memnox '' @ command))
                (Some (if command = [] then ''scan'' else command)))))"

definition resolve_action ::
  "command_io \<Rightarrow> string \<Rightarrow> string list \<Rightarrow> process_env \<Rightarrow> string option \<Rightarrow> resolved_action" where
  "resolve_action io binary args env stdin =
     or_else (resolve_memnox binary args) (resolve_command io (Some (file_statement_in io)) binary args env stdin)"

definition targets_ruled_on :: "resolved_action \<Rightarrow> string option \<Rightarrow> string option list" where
  "targets_ruled_on resolved fallback =
     (case ra_targets resolved of
        Some (t # ts) \<Rightarrow> map Some (t # ts)
      | _ \<Rightarrow> [first_some (ra_target resolved) fallback])"

section \<open>Words as the kernel would hand them over\<close>

text \<open>The next word of a line: a quoted one where its quote closes, else the run of characters that are no space.\<close>

definition next_word :: "string \<Rightarrow> string \<times> string" where
  "next_word s =
     (let q = hd s; body = takeWhile (\<lambda>c. c \<noteq> q) (tl s); rest = dropWhile (\<lambda>c. c \<noteq> q) (tl s)
      in if (q = DQUOTE \<or> q = QUOTE) \<and> rest \<noteq> [] then (q # body @ [q], tl rest)
         else (takeWhile (\<lambda>c. \<not> is_space c) s, dropWhile (\<lambda>c. \<not> is_space c) s))"

lemma next_word_length:
  assumes "s \<noteq> []" "\<not> is_space (hd s)"
  shows "length (snd (next_word s)) < length s"
proof -
  obtain c t where s: "s = c # t" using assms(1) by (cases s) auto
  have a: "length (dropWhile (\<lambda>d. d \<noteq> c) t) \<le> length t" and b: "length (dropWhile (\<lambda>d. \<not> is_space d) t) \<le> length t"
    by (rule length_dropWhile_le)+
  show ?thesis using assms(2) a b by (auto simp: s next_word_def Let_def)
qed

function line_words :: "string \<Rightarrow> string list" where
  "line_words [] = []"
| "line_words (c # s) =
     (if is_space c then line_words s
      else fst (next_word (c # s)) # line_words (snd (next_word (c # s))))"
  by pat_completeness auto
termination
proof (relation "measure length", goal_cases)
  case (3 c s)
  then show ?case using next_word_length [of "c # s"] by simp
qed auto

text \<open>\<open>word.replace(/^["']|["']$/g, '')\<close>.\<close>

definition is_quote :: "char \<Rightarrow> bool" where "is_quote c = (c = DQUOTE \<or> c = QUOTE)"

definition unquoted_word :: "string \<Rightarrow> string" where
  "unquoted_word word =
     (let body = (if word \<noteq> [] \<and> is_quote (hd word) then tl word else word)
      in if body \<noteq> [] \<and> is_quote (List.last body) then butlast body else body)"

definition split_command_line :: "string \<Rightarrow> string list" where
  "split_command_line input = map unquoted_word (line_words input)"

section \<open>Text a line writes\<close>

text \<open>\<open>text.split(/\n|\\n/).filter((line) => line !== '')\<close>.\<close>

fun written_lines :: "string \<Rightarrow> string list" where
  "written_lines [] = [[]]"
| "written_lines [c] = (if c = NEWLINE then [[], []] else [[c]])"
| "written_lines (c # d # s) =
     (if c = NEWLINE then [] # written_lines (d # s)
      else if c = BACKSLASH \<and> d = CHR ''n'' then [] # written_lines s
      else (case written_lines (d # s) of line # lines \<Rightarrow> (c # line) # lines | [] \<Rightarrow> [[c]]))"

definition lines_of :: "string \<Rightarrow> string list" where
  "lines_of text_written = filter (\<lambda>line. line \<noteq> []) (written_lines text_written)"

definition echo_flag :: "string \<Rightarrow> bool" where
  "echo_flag arg =
     (case arg of c # s \<Rightarrow> c = CHR ''-'' \<and> s \<noteq> [] \<and> list_all (\<lambda>l. l \<in> set ''neE'') s | [] \<Rightarrow> False)"

definition echoed :: "string list \<Rightarrow> string" where
  "echoed args = join_with '' '' (dropWhile echo_flag args)"

text \<open>
  The first \<open>%s\<close> of a format and what \<open>replace\<close> puts there: in the replacement two dollars stand for one, and
  a dollar with an ampersand, a backquote or a quote for the match, what is before it and after it.
\<close>

fun replacement :: "string \<Rightarrow> string \<Rightarrow> string \<Rightarrow> string" where
  "replacement before_text after_text [] = []"
| "replacement before_text after_text [c] = [c]"
| "replacement before_text after_text (c # d # s) =
     (if c = CHR ''$'' \<and> d = CHR ''$'' then CHR ''$'' # replacement before_text after_text s
      else if c = CHR ''$'' \<and> d = CHR ''&'' then ''%s'' @ replacement before_text after_text s
      else if c = CHR ''$'' \<and> d = CHR 0x60 then before_text @ replacement before_text after_text s
      else if c = CHR ''$'' \<and> d = QUOTE then after_text @ replacement before_text after_text s
      else c # replacement before_text after_text (d # s))"

fun split_format :: "string \<Rightarrow> (string \<times> string) option" where
  "split_format [] = None"
| "split_format (c # s) =
     (if starts_with ''%s'' (c # s) then Some ([], drop 1 s)
      else map_option (\<lambda>(pre, post). (c # pre, post)) (split_format s))"

definition formatted :: "string \<Rightarrow> string list \<Rightarrow> string" where
  "formatted format values =
     (case split_format format of
        None \<Rightarrow> format
      | Some (pre, post) \<Rightarrow>
          if values = [] then format
          else concat (map (\<lambda>val. pre @ replacement pre post val @ post) values))"

definition printed_by :: "parsed_command \<Rightarrow> (string list \<times> string list) option" where
  "printed_by command =
     (let binary = last_part (CHR ''/'') (or_else (elem_at (pc_argv command) 0) []);
          given_args = drop 1 (pc_argv command);
          args = (case find_index (\<lambda>arg. arg = ''<<<'') given_args of
              None \<Rightarrow> given_args | Some i \<Rightarrow> take i given_args @ drop (i + 2) given_args);
          operands = filter (\<lambda>arg. \<not> starts_with ''-'' arg \<or> arg = ''-'') args;
          redirected = pc_writes command
      in if binary = ''tee'' then
           (let into = filter (\<lambda>arg. arg \<noteq> ''-'') operands
            in case pc_stdin command of
                 None \<Rightarrow> None | Some input \<Rightarrow> if into = [] then None else Some (lines_of input, into))
         else if redirected = [] then None
         else if binary = ''cat'' then
           (case pc_stdin command of
              None \<Rightarrow> None
            | Some input \<Rightarrow> if list_all (\<lambda>arg. arg = ''-'') operands then Some (lines_of input, redirected) else None)
         else if binary = ''echo'' then Some (lines_of (echoed args), redirected)
         else if binary = ''printf'' then
           (case args of [] \<Rightarrow> None | format # values \<Rightarrow> Some (lines_of (formatted format values), redirected))
         else None)"

text \<open>A path named the way \<open>cat\<close> would name it.\<close>

definition absolute_from :: "string \<Rightarrow> process_env \<Rightarrow> string" where
  "absolute_from path env =
     or_else (case classify_reader ''cat'' [path] env of None \<Rightarrow> None | Some r \<Rightarrow> fv_target r) path"

definition shown_writes :: "parsed_command list \<Rightarrow> process_env \<Rightarrow> resolved_action list" where
  "shown_writes parsed env =
     concat (map (\<lambda>command. case printed_by command of
        None \<Rightarrow> []
      | Some (lines, into) \<Rightarrow>
          map (\<lambda>target. (plain_action FILESYSTEM_WRITE TC_WRITE ''the line shows what it writes''
              (Some (absolute_from target env)))\<lparr>ra_content := Some lines\<rparr>) into) parsed)"

section \<open>Interpreters\<close>

definition CODE_INTERPRETERS :: "string list" where
  "CODE_INTERPRETERS =
     [''python'', ''python3'', ''node'', ''deno'', ''bun'', ''ruby'', ''perl'', ''php'', ''osascript'', ''sh'', ''bash'', ''zsh'',
      ''fish'', ''dash'', ''ksh'', ''lua'', ''tclsh'']"

definition PREFIX_WORDS :: "string list" where
  "PREFIX_WORDS = [''env'', ''sudo'', ''command'', ''nohup'', ''nice'', ''timeout'', ''exec'', ''time'', ''xargs'']"

text \<open>\<open>/^\w+=/\<close> and \<open>binary.replace(/[\d.]+$/, '')\<close>.\<close>

definition sets_a_word :: "string \<Rightarrow> bool" where
  "sets_a_word word = (takeWhile is_word word \<noteq> [] \<and> starts_with ''='' (dropWhile is_word word))"

definition without_version :: "string \<Rightarrow> string" where
  "without_version binary = rev (dropWhile (\<lambda>c. is_digit c \<or> c = CHR ''.'') (rev binary))"

definition starts_interpreter :: "string \<Rightarrow> bool" where
  "starts_interpreter segment =
     (let words = split_command_line (trim segment);
          left = dropWhile (\<lambda>w. w \<in> set PREFIX_WORDS \<or> sets_a_word w \<or> starts_with ''-'' w) words;
          binary = last_part (CHR ''/'') (or_else (elem_at left 0) [])
      in if binary = ''sqlite3'' then ''-readonly'' \<notin> set words
         else without_version binary \<in> set CODE_INTERPRETERS)"

definition between_segments :: "char \<Rightarrow> bool" where
  "between_segments c = (c \<in> set '';&|()'' \<or> c = NEWLINE)"

definition runs_interpreter :: "string \<Rightarrow> parsed_command list \<Rightarrow> bool" where
  "runs_interpreter line parsed =
     (list_ex (\<lambda>command. awk_may_write (pc_argv command)) parsed \<or>
      list_ex starts_interpreter (runs_off between_segments line))"

section \<open>Where a line reaches\<close>

definition path_char :: "char \<Rightarrow> bool" where
  "path_char c = (is_word c \<or> c \<in> set ''.@+-'')"

text \<open>\<open>~?\/[\w.@+-]+(?:\/[\w.@+-]+)+\<close> at the start of a text, with what follows it.\<close>

function more_segments :: "string \<Rightarrow> string \<times> string" where
  "more_segments s =
     (if starts_with ''/'' s \<and> takeWhile path_char (tl s) \<noteq> []
      then (let (segments, rest) = more_segments (dropWhile path_char (tl s))
            in (''/'' @ takeWhile path_char (tl s) @ segments, rest))
      else ([], s))"
  by pat_completeness auto
termination
proof (relation "measure length", goal_cases)
  case (2 s)
  then obtain c t where s: "s = c # t" by (cases s) (auto simp: starts_with_def)
  show ?case using length_dropWhile_le [of path_char t] by (simp add: s)
qed simp

declare more_segments.simps [simp del]

definition path_here :: "string \<Rightarrow> (string \<times> string) option" where
  "path_here s =
     (let home = (if starts_with ''~'' s then ''~'' else []); body = drop (length home) s;
          first = takeWhile path_char (tl body); (segments, rest) = more_segments (dropWhile path_char (tl body))
      in if starts_with ''/'' body \<and> first \<noteq> [] \<and> segments \<noteq> []
         then Some (home @ ''/'' @ first @ segments, rest) else None)"

lemma more_segments_length: "length (snd (more_segments s)) \<le> length s"
proof (induction s rule: more_segments.induct)
  case (1 s)
  show ?case
  proof (cases "starts_with ''/'' s \<and> takeWhile path_char (tl s) \<noteq> []")
    case True
    have "length (dropWhile path_char (tl s)) \<le> length s"
      using length_dropWhile_le [of path_char "tl s"] by (cases s) auto
    then show ?thesis using 1 True by (subst more_segments.simps) (auto split: prod.splits)
  qed (subst more_segments.simps, auto)
qed

lemma path_here_length: "path_here s = Some (p, rest) \<Longrightarrow> length rest < length s"
proof -
  let ?home = "if starts_with ''~'' s then ''~'' else []"
  let ?body = "drop (length ?home) s"
  assume found: "path_here s = Some (p, rest)"
  then have body: "starts_with ''/'' ?body" and rest: "rest = snd (more_segments (dropWhile path_char (tl ?body)))"
    by (auto simp: path_here_def Let_def split: prod.splits if_splits)
  then obtain t where t: "?body = CHR ''/'' # t" by (auto simp: starts_with_iff)
  have "length rest \<le> length (dropWhile path_char t)" using rest more_segments_length by (simp add: t)
  also have "\<dots> \<le> length t" by (rule length_dropWhile_le)
  also have "\<dots> < length ?body" by (simp add: t)
  also have "\<dots> \<le> length s" by simp
  finally show ?thesis .
qed

definition path_delimiter :: "char \<Rightarrow> bool" where
  "path_delimiter c = (is_space c \<or> c = DQUOTE \<or> c = QUOTE \<or> c = CHR 0x60 \<or> c \<in> set ''=(:,;'')"

function paths_after :: "string \<Rightarrow> string list" where
  "paths_after [] = []"
| "paths_after (c # s) =
     (case (if path_delimiter c then path_here s else None) of
        Some (path, rest) \<Rightarrow> path # paths_after rest
      | None \<Rightarrow> paths_after s)"
  by pat_completeness auto
termination
  by (relation "measure length") (auto split: if_splits dest: path_here_length)

definition paths_in_line :: "string \<Rightarrow> string list" where
  "paths_in_line line =
     (case path_here line of Some (path, rest) \<Rightarrow> path # paths_after rest | None \<Rightarrow> paths_after line)"

definition moves_to :: "parsed_command list \<Rightarrow> string list" where
  "moves_to parsed =
     concat (map (\<lambda>command. case pc_argv command of
        [] \<Rightarrow> []
      | binary # args \<Rightarrow>
          (if (binary = ''cd'' \<or> binary = ''pushd'') \<and> args \<noteq> [] then [hd args] else []) @
          (if binary = ''git'' then
             (case find_index (\<lambda>arg. arg = ''-C'') args of
                None \<Rightarrow> [] | Some i \<Rightarrow> (case elem_at args (i + 1) of None \<Rightarrow> [] | Some dir \<Rightarrow> [dir]))
           else [])) parsed)"

definition names_hidden_command :: "parsed_command list \<Rightarrow> bool" where
  "names_hidden_command parsed =
     list_ex (\<lambda>command. let name = or_else (elem_at (pc_argv command) 0) [] in CHR ''$'' \<in> set name \<or> CHR 0x60 \<in> set name) parsed"

definition changes_something :: "resolved_action list \<Rightarrow> bool" where
  "changes_something actions = list_ex (\<lambda>each. ra_class each = TC_WRITE \<or> ra_class each = TC_DESTRUCTIVE) actions"

definition places_reached ::
  "string \<Rightarrow> resolved_action list \<Rightarrow> normalized_command \<Rightarrow> process_env \<Rightarrow> resolved_action list" where
  "places_reached line actions normalized env =
     (let unreadable = (list_ex (\<lambda>reason. reason \<noteq> EXPANSION) (nc_opaque normalized) \<or>
            names_hidden_command (nc_parsed normalized) \<or> runs_interpreter line (nc_parsed normalized))
      in if \<not> (unreadable \<or> changes_something actions) then []
         else map (\<lambda>target. plain_action FILESYSTEM_WRITE TC_WRITE
                ''the line changes something and reaches this place'' (Some target))
           (uniq (map (\<lambda>dir. absolute_from dir env @ ''/.'') (moves_to (nc_parsed normalized)) @
              (if unreadable
               then map (\<lambda>path. absolute_from path env) (filter (\<lambda>path. \<not> starts_with ''/dev/'' path) (paths_in_line line))
               else []))))"

section \<open>What a line hides, governs and redirects\<close>

definition hidden_code_in :: "string list \<Rightarrow> resolved_action option" where
  "hidden_code_in opaque =
     (case filter (\<lambda>each. each = REMOTE_SOURCE \<or> each = UNDECODABLE) opaque of
        [] \<Rightarrow> None
      | first # _ \<Rightarrow>
          Some (plain_action ''shell.hidden'' TC_DESTRUCTIVE
            (if first = REMOTE_SOURCE
             then ''it runs a download as code, so what runs is only known once it has run''
             else ''it decodes something and runs it, and what it decodes could not be read first'') None))"

definition protected_target_for :: "string \<Rightarrow> string" where
  "protected_target_for named =
     (if starts_with ''.memnox'' named then ''~/.memnox/''
      else if named = ''disableAllHooks'' \<or> named = ''allowUnsandboxedCommands'' then ''~/.claude/settings.json''
      else named)"

definition governing_change ::
  "string \<Rightarrow> resolved_action list \<Rightarrow> normalized_command \<Rightarrow> resolved_action option" where
  "governing_change line actions normalized =
     (case names_protected line of
        None \<Rightarrow> None
      | Some named \<Rightarrow>
          if nc_opaque normalized \<noteq> [] \<or> runs_interpreter line (nc_parsed normalized) \<or> changes_something actions
          then Some (plain_action FILESYSTEM_WRITE TC_WRITE
            (''the line names '' @ named @ '' and changes something'') (Some (protected_target_for named)))
          else None)"

definition redirect_actions :: "redirects \<Rightarrow> process_env \<Rightarrow> resolved_action list" where
  "redirect_actions rd env =
     (let writes = map (\<lambda>path. absolute_from path env) (rd_writes rd);
          reads = map (\<lambda>path. absolute_from path env) (rd_reads rd)
      in (if writes = [] then [] else
            [(plain_action FILESYSTEM_WRITE TC_WRITE ''a redirect writes the file'' (Some (hd writes)))
               \<lparr>ra_targets := Some writes\<rparr>]) @
         (if reads = [] then [] else
            [(plain_action FILESYSTEM_READ TC_READ ''a redirect reads the file'' (Some (hd reads)))
               \<lparr>ra_targets := Some reads\<rparr>]))"

section \<open>The whole line\<close>

definition command_actions :: "command_io \<Rightarrow> process_env \<Rightarrow> parsed_command \<Rightarrow> resolved_action list" where
  "command_actions io env command =
     (case pc_argv command of
        [] \<Rightarrow> []
      | path # args \<Rightarrow>
          (let binary = last_part (CHR ''/'') path;
               resolved = resolve_action io binary args env (pc_stdin command)
           in [resolved] @
              (if ra_action resolved = FILESYSTEM_READ
               then (case resolve_writer binary args env of None \<Rightarrow> [] | Some written \<Rightarrow> [written]) else []) @
              (if binary = ''mv''
               then (case classify_reader ''cp'' args env of
                   None \<Rightarrow> []
                 | Some moved \<Rightarrow>
                     if fv_targets moved = [] then []
                     else [(action_of_file moved)\<lparr>ra_because := ''mv takes the file it is given''\<rparr>])
               else [])))"

record resolved_shell_line =
  rl_actions :: "resolved_action list"
  rl_opaque :: "string list"

definition seen_actions :: "command_io \<Rightarrow> normalized_command \<Rightarrow> process_env \<Rightarrow> resolved_action list" where
  "seen_actions io normalized env =
     concat (map (command_actions io env) (nc_parsed normalized)) @
     redirect_actions (nc_redirects normalized) env @ shown_writes (nc_parsed normalized) env @
     (case environment_read (variables_printed (map pc_argv (nc_parsed normalized))) of
        None \<Rightarrow> [] | Some printed \<Rightarrow> [printed])"

definition resolve_shell_line ::
  "(string \<Rightarrow> string) \<Rightarrow> command_io \<Rightarrow> string \<Rightarrow> process_env \<Rightarrow> resolved_shell_line" where
  "resolve_shell_line base64_text io line env =
     (let normalized = normalize_shell_command base64_text line;
          all_actions = seen_actions io normalized env
      in \<lparr>rl_actions = all_actions @
            (case governing_change line all_actions normalized of None \<Rightarrow> [] | Some governing \<Rightarrow> [governing]) @
            (case hidden_code_in (nc_opaque normalized) of None \<Rightarrow> [] | Some hidden \<Rightarrow> [hidden]) @
            places_reached line all_actions normalized env,
          rl_opaque = nc_opaque normalized\<rparr>)"

text \<open>
  The words before a command are passed over as flags and names of wrappers; the value of a wrapper's
  flag is neither, and is taken for the command.
\<close>

theorem prefix_value_hides_the_interpreter:
  "starts_interpreter ''sudo python3 x.py'' \<and> \<not> starts_interpreter ''sudo -u bob python3 x.py''"
  by code_simp

end
