(* ===== verification/Domains.thy ===== *)
theory Domains
  imports PolicyVerdict VerbTables
begin

text \<open>
  \<open>policy/domains.ts\<close>: the questions a first set of rules is written from, and the rules they make. The
  properties put these rules to the verbs of the tables: what the rule about git history
  stops, and what slips past the others. A typographic apostrophe in a reason is written as
  the plain one here, since texts are lists of the first 256 code points.
\<close>

section \<open>Names of actions\<close>

definition EVERY_VARIABLE :: string where "EVERY_VARIABLE = ''all''"

definition APOSTROPHE :: string where "APOSTROPHE = [char_of (39 :: nat)]"

section \<open>What is decided about\<close>

datatype policy_domain =
    DOMAIN_FILESYSTEM | DOMAIN_SHELL | DOMAIN_GIT | DOMAIN_MCP | DOMAIN_NETWORK | DOMAIN_CLI
  | DOMAIN_CONSEQUENTIAL | DOMAIN_PRODUCTION

fun policy_domain_text :: "policy_domain \<Rightarrow> string" where
  "policy_domain_text DOMAIN_FILESYSTEM = ''filesystem''"
| "policy_domain_text DOMAIN_SHELL = ''shell''"
| "policy_domain_text DOMAIN_GIT = ''git''"
| "policy_domain_text DOMAIN_MCP = ''mcp''"
| "policy_domain_text DOMAIN_NETWORK = ''network''"
| "policy_domain_text DOMAIN_CLI = ''cli''"
| "policy_domain_text DOMAIN_CONSEQUENTIAL = ''consequential''"
| "policy_domain_text DOMAIN_PRODUCTION = ''production''"

record domain_choice =
  dc_domain :: policy_domain
  dc_question :: string
  dc_recommended :: decision_effect
  dc_because :: string
  dc_actions :: "string list"
  dc_targets :: "string list option"
  dc_arguments :: "(string \<times> string list) list option"
  dc_classes :: "string list option"
  dc_capabilities :: "string list option"
  dc_environments :: "string list option"

definition plain_choice :: "policy_domain \<Rightarrow> string \<Rightarrow> decision_effect \<Rightarrow> string \<Rightarrow> string list \<Rightarrow> domain_choice" where
  "plain_choice domain question recommended because actions =
     \<lparr>dc_domain = domain, dc_question = question, dc_recommended = recommended, dc_because = because,
      dc_actions = actions, dc_targets = None, dc_arguments = None, dc_classes = None, dc_capabilities = None,
      dc_environments = None\<rparr>"

definition CHANGING_CLASSES :: "string list" where
  "CHANGING_CLASSES = [TC_WRITE, TC_DESTRUCTIVE, TC_COMMUNICATION]"

definition REMOTE_CLIS :: "string list" where
  "REMOTE_CLIS =
     [''aws'', ''gcloud'', ''az'', ''gh'', ''kubectl'', ''terraform'', ''vercel'', ''railway'', ''fly'', ''heroku'',
      ''netlify'', ''stripe'', ''psql'', ''mysql'', ''mongosh'']"

definition OUTWARD_VERBS :: "string list" where
  "OUTWARD_VERBS = [''docker.push'', ''npm.publish'', ''npm.unpublish'']"

definition OUTSIDE_THIS_MACHINE :: "string list" where
  "OUTSIDE_THIS_MACHINE = ''*'' # map (\<lambda>each. ''!'' @ each @ ''.*'') (LOCAL_NAMESPACES @ [''package''])"

definition CREDENTIAL_PATHS :: "string list" where
  "CREDENTIAL_PATHS =
     [''**/.ssh'', ''**/.ssh/**'', ''**/.aws'', ''**/.aws/**'', ''**/.gcloud'', ''**/.gcloud/**'', ''**/.kube'',
      ''**/.kube/**'', ''**/.env'', ''**/.env.*'', ''!**/.env.example'', ''!**/.env.sample'', ''!**/.env.template'']"

definition filesystem_choice :: domain_choice where
  "filesystem_choice =
     (plain_choice DOMAIN_FILESYSTEM ''Reading your credentials: ~/.ssh, ~/.aws, .env files'' DENY
       (''almost no task needs the key itself, and a leaked one is somebody'' @ APOSTROPHE @ ''s weekend'')
       [''filesystem.read'', ''environment.read''])
     \<lparr>dc_targets := Some (CREDENTIAL_PATHS @ [EVERY_VARIABLE, ''*_KEY'', ''*_KEYS'', ''*_SECRET'', ''*_TOKEN'',
        ''*_PASSWORD'', ''*_CREDENTIALS'', ''DATABASE_URL'', ''MONGODB_URI'', ''REDIS_URL''])\<rparr>"

definition shell_choice :: domain_choice where
  "shell_choice =
     plain_choice DOMAIN_SHELL ''Destructive shell commands: rm -rf, dd, truncate'' ASK
       ''sometimes it really is the build directory, so a person should look'' [''filesystem.delete'']"

definition git_choice :: domain_choice where
  "git_choice =
     plain_choice DOMAIN_GIT ''Force-pushing, and hard resets'' DENY
       ''it rewrites history somebody else may already have pulled''
       [''git.push-force'', ''git.push-f'', ''git.reset-hard'', ''git.branch-d'', ''git.clean-fd'', ''git.clean-f'',
        ''git.clean-force'', ''git.branch-delete-force'', ''git.push-delete'', ''git.reflog-expire'',
        ''git.reflog-delete'', ''git.stash-clear'', ''git.stash-drop'', ''git.filter-branch'', ''git.filter-repo'',
        ''git.gc-prune-now'', ''git.reset'', ''git.clean'']"

definition mcp_choice :: domain_choice where
  "mcp_choice =
     (plain_choice DOMAIN_MCP ''MCP tools that change something outside this machine'' ASK
       (''these are the calls whose consequences other people see, while a tool that only lists or reads is '' @
        ''how an agent finds its way'') [''mcp.*''])
     \<lparr>dc_classes := Some (CHANGING_CLASSES @ [TC_UNKNOWN])\<rparr>"

definition network_choice :: domain_choice where
  "network_choice =
     (plain_choice DOMAIN_NETWORK ''Requests that change something on a host no rule names'' ASK
       (''a POST, PUT, PATCH or DELETE changes somebody else'' @ APOSTROPHE @
        ''s state, while reading documentation or fetching a resource is ordinary work'') [''http.request''])
     \<lparr>dc_arguments := Some [(HTTP_METHOD_ARGUMENT, CHANGING_HTTP_METHODS)]\<rparr>"

definition cli_choice :: domain_choice where
  "cli_choice =
     (plain_choice DOMAIN_CLI ''CLIs changing your cloud, repositories, deployments and databases'' ASK
       (''a deploy, a merge or a delete lands on somebody else'' @ APOSTROPHE @
        ''s system, while listing and reading are how an agent finds its way'')
       (map (\<lambda>cli. cli @ ''.*'') REMOTE_CLIS @ OUTWARD_VERBS))
     \<lparr>dc_classes := Some CHANGING_CLASSES\<rparr>"

definition consequential_choice :: domain_choice where
  "consequential_choice =
     (plain_choice DOMAIN_CONSEQUENTIAL ''Moving money, deploying, or handing out authority, through any tool'' ASK
       (''a refund, a deploy or a new admin is the kind of change that should be a person'' @ APOSTROPHE @
        ''s, however the agent reached it'') OUTSIDE_THIS_MACHINE)
     \<lparr>dc_capabilities := Some (map capability_text [Cap_transfer, Cap_deploy, Cap_admin])\<rparr>"

definition production_choice :: domain_choice where
  "production_choice =
     (plain_choice DOMAIN_PRODUCTION ''Any change in an environment named like production'' ASK
       ''reading production is how an incident gets understood, and changing it is where one gets made''
       OUTSIDE_THIS_MACHINE)
     \<lparr>dc_environments := Some [''prod*'', ''production'', ''live''], dc_classes := Some CHANGING_CLASSES\<rparr>"

definition DOMAIN_CHOICES :: "domain_choice list" where
  "DOMAIN_CHOICES =
     [filesystem_choice, shell_choice, git_choice, mcp_choice, network_choice, cli_choice, consequential_choice,
      production_choice]"

section \<open>The rules\<close>

definition GENERATED_ALTERNATIVE_NOTE :: string where
  "GENERATED_ALTERNATIVE_NOTE = ''Ask somebody, or change this rule if it is wrong for your work.''"

fun decision_effect_text :: "decision_effect \<Rightarrow> string" where
  "decision_effect_text ALLOW = ''allow''"
| "decision_effect_text DENY = ''deny''"
| "decision_effect_text ASK = ''ask''"

fun chosen_reason :: "decision_effect \<Rightarrow> string" where
  "chosen_reason ALLOW = ''you chose to allow this''"
| "chosen_reason ASK = ''you chose to be asked about this''"
| "chosen_reason DENY = ''you chose to deny this''"

definition policy_of_choice :: "domain_choice \<Rightarrow> decision_effect \<Rightarrow> policy" where
  "policy_of_choice choice effect =
     (plain_policy (policy_domain_text (dc_domain choice) @ ''-'' @ decision_effect_text effect)
       ((match_actions (dc_actions choice))\<lparr>pm_targets := dc_targets choice, pm_arguments := dc_arguments choice,
          pm_classes := dc_classes choice, pm_capabilities := dc_capabilities choice,
          pm_environments := dc_environments choice\<rparr>)
       ((plain_decision effect)\<lparr>pd_reason := Some (chosen_reason effect @ '': '' @ dc_because choice),
          pd_alternative := Some \<lparr>al_action = hd (dc_actions choice), al_resource = None,
            al_note = GENERATED_ALTERNATIVE_NOTE\<rparr>\<rparr>))
     \<lparr>p_description := Some (dc_question choice)\<rparr>"

definition policies_from :: "(policy_domain \<Rightarrow> decision_effect option) \<Rightarrow> policy list" where
  "policies_from answers =
     concat (map (\<lambda>choice. case answers (dc_domain choice) of
        None \<Rightarrow> []
      | Some effect \<Rightarrow> if effect = ALLOW then [] else [policy_of_choice choice effect]) DOMAIN_CHOICES)"

definition recommended_answers :: "policy_domain \<Rightarrow> decision_effect option" where
  "recommended_answers = map_of (map (\<lambda>choice. (dc_domain choice, dc_recommended choice)) DOMAIN_CHOICES)"

end
