(* ===== verification/GitCommands.thy ===== *)
theory GitCommands
  imports Domains
begin

text \<open>
  What the recommended rules make of a git command, from its words to the verdict: the table's verb,
  the verb its arguments refine it to, the action it is named, and the rule about git history.
  Two kinds of spelling step around the table, and the properties show how.
\<close>

section \<open>The verbs of git\<close>

definition literal_word :: "string \<Rightarrow> bool" where
  "literal_word word \<longleftrightarrow> word \<noteq> [] \<and> word \<noteq> ''$'' \<and> \<not> starts_with ''-'' word \<and> \<not> ends_with ''*'' word"

lemma git_verbs_literal:
  "list_all (\<lambda>v. literal_word (hd (words_of (vb_match v)))) git_verbs"
  by code_simp

lemma git_push_verbs:
  "list_all (\<lambda>v. hd (words_of (vb_match v)) = ''push'' \<longrightarrow> specificity (vb_match v) \<ge> 4 \<longrightarrow> vb_class v = TC_DESTRUCTIVE)
     git_verbs"
  by code_simp

lemma git_destructive_names:
  "list_all (\<lambda>v. vb_class v = TC_DESTRUCTIVE \<longrightarrow>
     v \<noteq> UNKNOWN_VERB \<and> verb_action ''git'' v \<in> set (dc_actions git_choice)) git_verbs"
  by code_simp

lemma git_push_found:
  "map_option vb_class (List.find (\<lambda>v. vb_match v = ''push --force **'') git_verbs) = Some TC_DESTRUCTIVE"
  "map_option vb_class (List.find (\<lambda>v. vb_match v = ''push --delete **'') git_verbs) = Some TC_DESTRUCTIVE"
  by code_simp+

lemma push_words:
  "words_of ''push --force **'' = [''push'', ''--force'', ''**'']" "words_of ''push -f **'' = [''push'', ''-f'', ''**'']"
  "words_of ''push --delete **'' = [''push'', ''--delete'', ''**'']" "words_of ''push -d **'' = [''push'', ''-d'', ''**'']"
  "specificity ''push --force **'' = 4" "specificity ''push -f **'' = 4"
  "specificity ''push --delete **'' = 4" "specificity ''push -d **'' = 4"
  by code_simp+

lemma vt_git [simp]: "vt_verbs git_table = git_verbs" "\<not> vt_verbs_ignore_case git_table"
  by (simp_all add: git_table_def plain_table_def)

lemma match_plain [simp]: "vb_match (plain_verb p c) = p" "vb_class (plain_verb p c) = c"
  by (simp_all add: plain_verb_def)

section \<open>A push that overwrites\<close>

text \<open>
  The words after \<open>push\<close> force it or delete a branch: a long flag, a letter in a cluster of short ones, or
  a refspec that begins with a plus or a colon.
\<close>

definition overwrites :: "string list \<Rightarrow> bool" where
  "overwrites rest \<longleftrightarrow>
     ''--force'' \<in> set rest \<or> ''--delete'' \<in> set rest \<or>
     list_ex (\<lambda>arg. short_cluster arg \<and> (CHR ''f'' \<in> set arg \<or> CHR ''d'' \<in> set arg)) rest \<or>
     list_ex (\<lambda>arg. starts_with ''+'' arg \<or> starts_with '':'' arg \<and> length arg > 1) rest"

lemma literal_first_word:
  assumes "argv_matches pattern (first # rest)" "literal_word (hd (words_of pattern))" "words_of pattern \<noteq> []"
  shows "hd (words_of pattern) = first"
proof -
  obtain w ws where ws: "words_of pattern = w # ws" using assms(3) by (cases "words_of pattern") auto
  then show ?thesis using assms(1,2)
    by (auto simp: argv_matches_def literal_word_def word_matches_def elem_at_def ends_with_def starts_with_def
        split: if_splits)
qed

lemma git_words_some: "v \<in> set git_verbs \<Longrightarrow> words_of (vb_match v) \<noteq> []"
proof -
  have "list_all (\<lambda>v. words_of (vb_match v) \<noteq> []) git_verbs" by code_simp
  then show "v \<in> set git_verbs \<Longrightarrow> ?thesis" by (simp add: list_all_iff)
qed

lemma git_verb_chosen:
  assumes v: "v \<in> set git_verbs" "argv_matches (vb_match v) (''push'' # rest)" "specificity (vb_match v) \<ge> 4"
  shows "vb_class (class_of git_table (''push'' # rest)) = TC_DESTRUCTIVE"
proof -
  let ?argv = "''push'' # rest"
  have read: "read_words git_table ?argv = ?argv" by (simp add: read_words_def)
  obtain m where m: "match_verb git_table ?argv = Some m"
    using v match_verb_None [of git_table ?argv] read by auto
  have literal: "literal_word (hd (words_of (vb_match w)))" if "w \<in> set git_verbs" for w
    using git_verbs_literal that by (simp add: list_all_iff)
  have "hd (words_of (vb_match v)) \<noteq> ''*''" using literal [OF v(1)] by (auto simp: literal_word_def ends_with_def)
  then have "v \<in> set (standing_verbs git_table ?argv)"
    unfolding standing_verbs_def by (intro literal_verb_stays) (use v read in auto)
  from match_verb_Some(3) [OF m this] have four: "specificity (vb_match (vm_verb m)) \<ge> 4"
    using v(3) match_verb_Some(2) [OF m] by simp
  have best: "vm_verb m \<in> set git_verbs" "argv_matches (vb_match (vm_verb m)) ?argv"
    using match_verb_matches [OF m] match_verb_Some(2) [OF m] read by simp_all
  have "hd (words_of (vb_match (vm_verb m))) = ''push''"
    using literal_first_word best literal [OF best(1)] git_words_some [OF best(1)] by blast
  then have "vb_class (vm_verb m) = TC_DESTRUCTIVE"
    using git_push_verbs best(1) four by (simp add: list_all_iff)
  then show ?thesis by (simp add: class_of_def m)
qed

lemma git_flag_rows:
  "list_ex (\<lambda>v. vb_match v = ''push --force **'') git_verbs" "list_ex (\<lambda>v. vb_match v = ''push -f **'') git_verbs"
  "list_ex (\<lambda>v. vb_match v = ''push --delete **'') git_verbs" "list_ex (\<lambda>v. vb_match v = ''push -d **'') git_verbs"
  by code_simp+

lemma find_index_exists: "x \<in> set xs \<Longrightarrow> P x \<Longrightarrow> \<exists>i. find_index P xs = Some i"
  using find_index_None [of P xs] by (cases "find_index P xs") auto

lemma long_flag_matches:
  assumes "flag \<in> set rest" "starts_with ''--'' flag" "flag \<noteq> ''**''" "words_of pattern = [''push'', flag, ''**'']"
  shows "argv_matches pattern (''push'' # rest)"
proof -
  have "\<exists>i. flag_index_in flag (''push'' # rest) = Some i"
    using find_index_exists [of flag "''push'' # rest" "\<lambda>a. a = flag"] assms(1,2) by (simp add: flag_index_in_def)
  moreover have "starts_with ''-'' flag" using assms(2) by (auto simp: starts_with_iff)
  ultimately show ?thesis
    using assms(2,4)
    by (auto simp: argv_matches_def word_matches_def elem_at_def ends_with_def starts_with_def split: option.splits)
qed

lemma short_flag_matches:
  assumes "arg \<in> set rest" "short_cluster arg" "letter \<in> set arg" "letter \<noteq> CHR ''-''"
    and "words_of pattern = [''push'', [CHR ''-'', letter], ''**'']"
  shows "argv_matches pattern (''push'' # rest)"
proof -
  have long: "\<not> starts_with ''--'' [CHR ''-'', letter]" using assms(4) by (simp add: starts_with_def)
  have "\<exists>i. flag_index_in [CHR ''-'', letter] (''push'' # rest) = Some i"
    using find_index_exists [of arg "''push'' # rest" "\<lambda>a. short_cluster a \<and> letter \<in> set a"] assms(1-3) long
    by (simp add: flag_index_in_def)
  then show ?thesis
    using assms(5)
    by (auto simp: argv_matches_def word_matches_def elem_at_def ends_with_def starts_with_def split: option.splits)
qed

lemma git_row: "list_ex (\<lambda>v. vb_match v = p) git_verbs \<Longrightarrow> \<exists>v \<in> set git_verbs. vb_match v = p"
  by (auto simp: list_ex_iff)

lemma git_flagged_push:
  assumes "list_ex (\<lambda>v. vb_match v = p) git_verbs" "argv_matches p (''push'' # rest)" "specificity p = 4"
  shows "vb_class (class_of git_table (''push'' # rest)) = TC_DESTRUCTIVE"
  using git_row [OF assms(1)] git_verb_chosen assms(2,3) by fastforce

lemma refined_push:
  assumes "vb_class v = TC_DESTRUCTIVE \<or> list_ex (\<lambda>arg. starts_with ''+'' arg \<or> starts_with '':'' arg \<and> length arg > 1) rest"
  shows "vb_class (refine_verb git_table (''push'' # rest) v) = TC_DESTRUCTIVE"
proof -
  have refine: "refine_verb git_table (''push'' # rest) v = push_verb git_table (''push'' # rest) v"
    by (simp add: refine_verb_def elem_at_def)
  have dash: "\<not> starts_with ''-'' arg" if "starts_with ''+'' arg \<or> starts_with '':'' arg" for arg
    using that by (auto simp: starts_with_iff)
  obtain f d where found: "List.find (\<lambda>v. vb_match v = ''push --force **'') git_verbs = Some f" "vb_class f = TC_DESTRUCTIVE"
    "List.find (\<lambda>v. vb_match v = ''push --delete **'') git_verbs = Some d" "vb_class d = TC_DESTRUCTIVE"
    using git_push_found by auto
  show ?thesis
  proof (cases "vb_class v = TC_DESTRUCTIVE")
    case True
    then show ?thesis by (simp add: refine push_verb_def)
  next
    case False
    then obtain arg where arg: "arg \<in> set rest" "starts_with ''+'' arg \<or> starts_with '':'' arg \<and> length arg > 1"
      using assms by (auto simp: list_ex_iff)
    then have "list_ex (starts_with ''+'') (filter (\<lambda>arg. \<not> starts_with ''-'' arg) rest) \<or>
        list_ex (\<lambda>arg. starts_with '':'' arg \<and> length arg > 1) (filter (\<lambda>arg. \<not> starts_with ''-'' arg) rest)"
      using dash by (auto simp: list_ex_iff)
    then show ?thesis using False found by (auto simp: refine push_verb_def Let_def)
  qed
qed

text \<open>
  A git push that overwrites is destructive however it is spelled: forced or deleting by a
  long flag or by a letter among other short ones, anywhere on the line, or by a refspec.
\<close>

theorem overwriting_push_is_destructive:
  assumes "verb_argv git_table argv = ''push'' # rest" and "overwrites rest"
  shows "vb_class (refine_verb git_table (verb_argv git_table argv) (class_of git_table (verb_argv git_table argv)))
     = TC_DESTRUCTIVE"
proof -
  consider "''--force'' \<in> set rest" | "''--delete'' \<in> set rest"
    | arg where "arg \<in> set rest" "short_cluster arg" "CHR ''f'' \<in> set arg"
    | arg where "arg \<in> set rest" "short_cluster arg" "CHR ''d'' \<in> set arg"
    | "list_ex (\<lambda>arg. starts_with ''+'' arg \<or> starts_with '':'' arg \<and> length arg > 1) rest"
    using assms(2) by (auto simp: overwrites_def list_ex_iff)
  then have "vb_class (class_of git_table (''push'' # rest)) = TC_DESTRUCTIVE \<or>
      list_ex (\<lambda>arg. starts_with ''+'' arg \<or> starts_with '':'' arg \<and> length arg > 1) rest"
  proof cases
    case 1
    then have "argv_matches ''push --force **'' (''push'' # rest)"
      using long_flag_matches [of "''--force''"] push_words(1) by (simp add: starts_with_def)
    then show ?thesis using git_flagged_push [OF git_flag_rows(1)] push_words(5) by blast
  next
    case 2
    then have "argv_matches ''push --delete **'' (''push'' # rest)"
      using long_flag_matches [of "''--delete''"] push_words(3) by (simp add: starts_with_def)
    then show ?thesis using git_flagged_push [OF git_flag_rows(3)] push_words(7) by blast
  next
    case 3
    have "argv_matches ''push -f **'' (''push'' # rest)"
      by (rule short_flag_matches [OF 3 _ push_words(2)]) simp
    then show ?thesis using git_flagged_push [OF git_flag_rows(2)] push_words(6) by blast
  next
    case 4
    have "argv_matches ''push -d **'' (''push'' # rest)"
      by (rule short_flag_matches [OF 4 _ push_words(4)]) simp
    then show ?thesis using git_flagged_push [OF git_flag_rows(4)] push_words(8) by blast
  qed simp
  then show ?thesis using refined_push by (simp add: assms(1))
qed

theorem overwriting_push_is_destructive_witness:
  "vb_class (refine_verb git_table (verb_argv git_table [''-C'', ''x'', ''push'', ''-uf'', ''origin''])
     (class_of git_table (verb_argv git_table [''-C'', ''x'', ''push'', ''-uf'', ''origin'']))) = TC_DESTRUCTIVE"
proof (rule overwriting_push_is_destructive)
  show "verb_argv git_table [''-C'', ''x'', ''push'', ''-uf'', ''origin''] = ''push'' # [''-uf'', ''origin'']" by code_simp
  show "overwrites [''-uf'', ''origin'']" by code_simp
qed

section \<open>The rule about git history\<close>

definition git_deny :: policy where
  "git_deny = policy_of_choice git_choice DENY"

lemma recommended_git: "recommended_answers DOMAIN_GIT = Some DENY"
  by (simp add: recommended_answers_def DOMAIN_CHOICES_def filesystem_choice_def shell_choice_def git_choice_def
      plain_choice_def)

lemma git_deny_recommended: "git_deny \<in> set (policies_from recommended_answers)"
proof -
  have "git_choice \<in> set DOMAIN_CHOICES" "dc_domain git_choice = DOMAIN_GIT"
    by (simp_all add: DOMAIN_CHOICES_def git_choice_def plain_choice_def)
  then show ?thesis
    using recommended_git by (force simp: policies_from_def git_deny_def)
qed

lemma git_deny_stands: "indexable git_deny" "enforced git_deny" "pd_effect (p_decision git_deny) = DENY"
  by code_simp+

lemma git_actions_plain:
  "list_all (\<lambda>action. normalize_action_field action = action \<and> \<not> is_exclusion action) (dc_actions git_choice)"
  by code_simp

lemma git_deny_matches:
  assumes "rq_action r \<in> set (dc_actions git_choice)"
  shows "policy_matches git_deny (normalize_action_request r) c"
proof -
  have "list_all (\<lambda>action. \<not> is_exclusion action) (dc_actions git_choice)"
    "normalize_action_field (rq_action r) = rq_action r"
    using git_actions_plain assms by (auto simp: list_all_iff)
  then show ?thesis
    using matches_own [of "dc_actions git_choice" "rq_action r"] assms
    by (simp add: policy_matches_def git_deny_def policy_of_choice_def plain_policy_def match_actions_def Let_def
        in_project_scope_def carved_out_def matches_all_arguments_def matches_content_def matches_amount_def
        matches_scope_def matches_state_def matches_any_time_window_def with_workspace_def git_choice_def plain_choice_def)
qed

lemma git_deny_decides:
  assumes "rq_action r \<in> set (dc_actions git_choice)"
  shows "er_effect (evaluate (new_engine version_of (policies_from recommended_answers @ others) default_effect) r c) = DENY"
  by (rule deny_rule_decides [where p = git_deny])
    (use git_deny_recommended git_deny_stands git_deny_matches [OF assms] in simp_all)

lemma or_else_find: "or_else (List.find P xs) v = v \<or> or_else (List.find P xs) v \<in> set xs"
  by (cases "List.find P xs") (auto dest: find_in)

lemma push_verb_in: "push_verb table a v = v \<or> push_verb table a v \<in> set (vt_verbs table)"
proof -
  define p where "p = (if list_ex (starts_with ''+'') (filter (\<lambda>arg. \<not> starts_with ''-'' arg) (drop 1 a))
      then Some ''push --force **''
      else if list_ex (\<lambda>arg. starts_with '':'' arg \<and> length arg > 1) (filter (\<lambda>arg. \<not> starts_with ''-'' arg) (drop 1 a))
      then Some ''push --delete **'' else None)"
  show ?thesis
    unfolding push_verb_def Let_def p_def [symmetric]
    using or_else_find [of "\<lambda>each. vb_match each = the p" "vt_verbs table" v] by (cases p) auto
qed

lemma refined_in_table:
  assumes "v \<in> set git_verbs \<or> v = UNKNOWN_VERB" "vb_class (refine_verb git_table a v) = TC_DESTRUCTIVE"
  shows "refine_verb git_table a v \<in> set git_verbs"
proof -
  have "refine_verb git_table a v = push_verb git_table a v \<or> refine_verb git_table a v = v"
    by (simp add: refine_verb_def)
  then have "refine_verb git_table a v = v \<or> refine_verb git_table a v \<in> set git_verbs"
    using push_verb_in [of git_table a v] by auto
  moreover have "vb_class UNKNOWN_VERB \<noteq> TC_DESTRUCTIVE" by (simp add: UNKNOWN_VERB_def plain_verb_def)
  ultimately show ?thesis using assms by auto
qed

lemma chosen_in_table: "class_of git_table a \<in> set git_verbs \<or> class_of git_table a = UNKNOWN_VERB"
  using match_verb_matches(1) [of git_table a] by (auto simp: class_of_def split: option.splits)

text \<open>
  With the recommended rules in force, whatever other rules stand beside them, every git
  command the table calls destructive is denied by the name it is given, whatever it is aimed
  at and whoever runs it.
\<close>

theorem destructive_git_is_denied:
  assumes "v = refine_verb git_table (verb_argv git_table argv) (class_of git_table (verb_argv git_table argv))"
    and "vb_class v = TC_DESTRUCTIVE"
    and "rq_action r = action_for_command ''git'' git_table (verb_argv git_table argv) (Some v)"
  shows "er_effect (evaluate (new_engine version_of (policies_from recommended_answers @ others) default_effect) r c) = DENY"
proof -
  have "v \<in> set git_verbs" using refined_in_table [OF chosen_in_table] assms(1,2) by simp
  then have "v \<noteq> UNKNOWN_VERB" "verb_action ''git'' v \<in> set (dc_actions git_choice)"
    using git_destructive_names assms(2) by (auto simp: list_all_iff)
  then show ?thesis using git_deny_decides assms(3) by (simp add: action_for_command_def)
qed

text \<open>A push through one of the globals git knows, forced by its refspec.\<close>

definition forced_by_refspec :: "string list" where
  "forced_by_refspec = [''-C'', ''x'', ''push'', ''origin'', ''+main'']"

theorem destructive_git_is_denied_witness:
  "er_effect (evaluate (new_engine sample_version (policies_from recommended_answers @ []) None)
     (bare_request (action_for_command ''git'' git_table (verb_argv git_table forced_by_refspec)
       (Some (refine_verb git_table (verb_argv git_table forced_by_refspec)
         (class_of git_table (verb_argv git_table forced_by_refspec))))))
     (plain_context ''codex'')) = DENY"
proof (rule destructive_git_is_denied [OF refl])
  have argv: "verb_argv git_table forced_by_refspec = ''push'' # [''origin'', ''+main'']"
    and over: "list_ex (\<lambda>arg. starts_with ''+'' arg \<or> starts_with '':'' arg \<and> length arg > 1) [''origin'', ''+main'']"
    by code_simp+
  show "vb_class (refine_verb git_table (verb_argv git_table forced_by_refspec)
      (class_of git_table (verb_argv git_table forced_by_refspec))) = TC_DESTRUCTIVE"
    unfolding argv using refined_push over by blast
qed (simp add: bare_request_def)

section \<open>Where the rules are stepped around\<close>

text \<open>
  A global flag that takes its value joined is listed with its equals sign, but a long flag has been
  split from its value by the time the list is read: behind \<open>--exec-path=dir\<close> no verb is found.
\<close>

theorem joined_exec_path_hides_the_verb:
  "action_for_command ''git'' git_table (verb_argv git_table [''push'', ''--force'']) None = ''git.push-force'' \<and>
   action_for_command ''git'' git_table (verb_argv git_table [''--exec-path=x'', ''push'', ''--force'']) None = ''git.unknown''"
  by code_simp

text \<open>A short global flag with its value run on is no flag of the table: the verb behind it is unknown.\<close>

theorem run_on_namespace_hides_the_verb:
  "action_for_command ''kubectl'' kubectl_table (verb_argv kubectl_table [''-n'', ''prod'', ''delete'', ''ns'', ''x'']) None =
     ''kubectl.delete-namespace'' \<and>
   action_for_command ''kubectl'' kubectl_table (verb_argv kubectl_table [''-nprod'', ''delete'', ''ns'', ''x'']) None =
     ''kubectl.unknown''"
  by code_simp

text \<open>
  The recommended rules ask about a drop through \<open>mysql\<close> and let the same statement through by its
  drop-in client, which the tables know and the list of remote tools does not.
\<close>

definition drop_through :: "string \<Rightarrow> decision_effect" where
  "drop_through cli =
     er_effect (evaluate (new_engine sample_version (policies_from recommended_answers) None)
       ((bare_request (cli @ ''.drop''))\<lparr>rq_tool_class := Some TC_DESTRUCTIVE\<rparr>) (plain_context ''codex''))"

lemma mysql_drop_asks: "drop_through ''mysql'' = ASK"
  by code_simp

lemma mariadb_drop_goes_through: "drop_through ''mariadb'' = ALLOW"
  by code_simp

theorem drop_in_client_is_not_asked_about:
  "drop_through ''mysql'' = ASK \<and> drop_through ''mariadb'' = ALLOW"
  using mysql_drop_asks mariadb_drop_goes_through by simp

end
