(* ===== verification/Unattended.thy ===== *)
theory Unattended
  imports Autonomy VerbTables RecordStore
begin

text \<open>
  Whether an agent can be left running: \<open>packages/core/src/session/reversibility.ts\<close>, \<open>autopilot.ts\<close>,
  \<open>unattended.ts\<close>, \<open>authority.ts\<close>, and the turns a person was away for (\<open>session-turns.ts\<close>,
  \<open>away.ts\<close>). What the rules answer for an action is the argument \<open>decide\<close>, and how the host's
  language sorts words is \<open>collate\<close>, as in the theory of autonomy.
\<close>

section \<open>What can be put back\<close>

datatype reversibility = SNAPSHOT | COMPENSABLE | IRREVERSIBLE

definition SNAPSHOT_SURFACES :: "string list" where
  "SNAPSHOT_SURFACES = [''filesystem'', ''git'']"

definition IRREVERSIBLE_VERBS :: "string list" where
  "IRREVERSIBLE_VERBS =
     [''send'', ''email'', ''post'', ''publish'', ''notify'', ''message'', ''invite'', ''deploy'', ''release'',
      ''refund'', ''charge'', ''pay'', ''transfer'']"

definition name_segments_lower :: "string \<Rightarrow> string list" where
  "name_segments_lower action = runs_off (\<lambda>c. \<not> (is_lower c \<or> is_digit c)) (to_lower action)"

definition reversibility_of :: "string \<Rightarrow> string \<Rightarrow> string option \<Rightarrow> reversibility" where
  "reversibility_of action cls surface =
     (let segments = name_segments_lower action
      in if list_ex (\<lambda>v. v \<in> set segments) IRREVERSIBLE_VERBS then IRREVERSIBLE
         else if cls = TC_COMMUNICATION then IRREVERSIBLE
         else if (case surface of None \<Rightarrow> False | Some s \<Rightarrow> s \<in> set SNAPSHOT_SURFACES) then SNAPSHOT
         else if cls = TC_READ then SNAPSHOT
         else COMPENSABLE)"

definition can_be_automatic :: "reversibility \<Rightarrow> bool" where
  "can_be_automatic r = (r \<noteq> IRREVERSIBLE)"

fun describe_reversibility :: "reversibility \<Rightarrow> string" where
  "describe_reversibility SNAPSHOT = ''a milestone puts this back''"
| "describe_reversibility COMPENSABLE = ''undoing this needs a second action nobody has recorded''"
| "describe_reversibility IRREVERSIBLE = ''this cannot be undone''"

section \<open>The boundary the rules draw\<close>

datatype band = AUTOMATIC | NEEDS_APPROVAL | NEVER

record boundary_entry =
  be_action :: string
  be_class :: string
  be_band :: band
  be_reversibility :: reversibility
  be_because :: string

record boundary =
  bo_agent :: string
  bo_entries :: "boundary_entry list"
  bo_ungoverned :: "string list"

fun BANDS :: "decision_effect \<Rightarrow> band" where
  "BANDS ALLOW = AUTOMATIC"
| "BANDS ASK = NEEDS_APPROVAL"
| "BANDS DENY = NEVER"

record candidate_action =
  ca_action :: string
  ca_class :: string

definition actions_for_cli :: "string \<Rightarrow> candidate_action list" where
  "actions_for_cli binary =
     (case verb_table_for binary of
        None \<Rightarrow> []
      | Some table \<Rightarrow>
          map (\<lambda>v. \<lparr>ca_action = verb_action binary v, ca_class = vb_class v\<rparr>) (vt_verbs table))"

record decided =
  de_effect :: decision_effect
  de_reason :: string
  de_matched :: bool

definition boundary_entry_of :: "candidate_action \<Rightarrow> decided \<Rightarrow> boundary_entry" where
  "boundary_entry_of c verdict =
     (let entry_band = BANDS (de_effect verdict);
          back = reversibility_of (ca_action c) (ca_class c) None;
          held = (entry_band = AUTOMATIC \<and> \<not> can_be_automatic back)
      in \<lparr>be_action = ca_action c, be_class = ca_class c,
          be_band = (if held then NEEDS_APPROVAL else entry_band),
          be_reversibility = back,
          be_because = (if held then de_reason verdict @ '', but '' @ describe_reversibility back
                        else de_reason verdict)\<rparr>)"

definition boundary_for ::
  "(string \<Rightarrow> string) \<Rightarrow> string \<Rightarrow> candidate_action list \<Rightarrow> (string \<Rightarrow> string \<Rightarrow> decided) \<Rightarrow> boundary" where
  "boundary_for collate agent offered decide =
     (let verdict = (\<lambda>c. decide (ca_action c) (ca_class c));
          ruled = filter (\<lambda>c. de_matched (verdict c)) offered;
          unruled = filter (\<lambda>c. \<not> de_matched (verdict c)) offered
      in \<lparr>bo_agent = agent,
          bo_entries = sort_key (\<lambda>e. collate (be_action e)) (map (\<lambda>c. boundary_entry_of c (verdict c)) ruled),
          bo_ungoverned = sort (map ca_action unruled)\<rparr>)"

definition in_band :: "boundary \<Rightarrow> band \<Rightarrow> boundary_entry list" where
  "in_band b which = filter (\<lambda>e. be_band e = which) (bo_entries b)"

record blast_radius =
  br_credentials :: "string list"
  br_automatic :: nat
  br_needs_approval :: nat
  br_never :: nat
  br_ungoverned :: nat
  br_destructive_automatic :: bool

definition blast_radius_of :: "boundary \<Rightarrow> string list \<Rightarrow> blast_radius" where
  "blast_radius_of b credentials =
     \<lparr>br_credentials = sort credentials,
      br_automatic = length (in_band b AUTOMATIC),
      br_needs_approval = length (in_band b NEEDS_APPROVAL),
      br_never = length (in_band b NEVER),
      br_ungoverned = length (bo_ungoverned b),
      br_destructive_automatic = list_ex (\<lambda>e. be_class e = TC_DESTRUCTIVE) (in_band b AUTOMATIC)\<rparr>"

definition ready_to_enable :: "blast_radius \<Rightarrow> bool \<times> string" where
  "ready_to_enable radius =
     (let ruled = br_automatic radius + br_needs_approval radius + br_never radius
      in if br_destructive_automatic radius
         then (False, ''something destructive would run without asking'')
         else if br_ungoverned radius > ruled
         then (False, nat_text (br_ungoverned radius) @ '' capabilities have no rule at all, more than the '' @
           nat_text ruled @ '' that do'')
         else (True, ''every destructive action is held or refused''))"

definition roles_in :: "policy list \<Rightarrow> string list" where
  "roles_in policies =
     sort (uniq (filter (\<lambda>role. role \<noteq> ''*'' \<and> trim role \<noteq> [])
       (concat (map (\<lambda>p. or_else (pm_roles (p_match p)) []) policies))))"

record role_standing =
  rs_role :: string
  rs_automatic :: nat
  rs_needs_approval :: nat
  rs_never :: nat

definition standing_for :: "string \<Rightarrow> boundary \<Rightarrow> role_standing" where
  "standing_for role b =
     \<lparr>rs_role = role, rs_automatic = length (in_band b AUTOMATIC),
      rs_needs_approval = length (in_band b NEEDS_APPROVAL), rs_never = length (in_band b NEVER)\<rparr>"

section \<open>Leaving it running\<close>

record unattended_input =
  ui_agent :: string
  ui_enforcing :: bool
  ui_radius :: blast_radius
  ui_waiting :: nat
  ui_paused :: nat
  ui_spent_budgets :: "string list"

record unattended_check =
  uc_agent :: string
  uc_can_leave :: bool
  uc_concerns :: "string list"
  uc_radius :: blast_radius

definition plural_words :: "nat \<Rightarrow> string \<Rightarrow> string \<Rightarrow> string" where
  "plural_words count one many = (if count = 1 then one else many)"

definition capitalised :: "string \<Rightarrow> string" where
  "capitalised s = to_upper (take 1 s) @ drop 1 s"

definition concerns_of :: "unattended_input \<Rightarrow> string list" where
  "concerns_of u =
     (let (ready, because) = ready_to_enable (ui_radius u)
      in (if ui_enforcing u then []
          else [''Memnox is observing rather than enforcing, so nothing would actually be stopped'']) @
         (if ready then [] else [capitalised because]) @
         (if ui_waiting u > 0
          then [nat_text (ui_waiting u) @ '' '' @ plural_words (ui_waiting u) ''call is'' ''calls are'' @
                '' waiting on you'']
          else []) @
         (if ui_paused u > 0
          then [nat_text (ui_paused u) @ '' '' @ plural_words (ui_paused u) ''session is'' ''sessions are'' @
                '' paused by the breaker'']
          else []) @
         map (\<lambda>budget. ''The '' @ budget @ '' budget is spent, so what it covers is refused'')
           (ui_spent_budgets u))"

definition unattended_check_of :: "unattended_input \<Rightarrow> unattended_check" where
  "unattended_check_of u =
     (let concerns = concerns_of u
      in \<lparr>uc_agent = ui_agent u, uc_can_leave = (concerns = []), uc_concerns = concerns,
          uc_radius = ui_radius u\<rparr>)"

section \<open>What an agent may do in each system\<close>

record verdict_tally =
  vt_allow :: nat
  vt_ask :: nat
  vt_deny :: nat
  vt_unruled :: nat

definition empty_tally :: verdict_tally where
  "empty_tally = \<lparr>vt_allow = 0, vt_ask = 0, vt_deny = 0, vt_unruled = 0\<rparr>"

definition counted_verdict :: "verdict_tally \<Rightarrow> decision_effect \<times> bool \<Rightarrow> verdict_tally" where
  "counted_verdict t verdict =
     (let (effect, matched) = verdict;
          next_tally = (if effect = DENY then t\<lparr>vt_deny := vt_deny t + 1\<rparr>
            else if effect = ASK then t\<lparr>vt_ask := vt_ask t + 1\<rparr>
            else t\<lparr>vt_allow := vt_allow t + 1\<rparr>)
      in if matched then next_tally else next_tally\<lparr>vt_unruled := vt_unruled next_tally + 1\<rparr>)"

record system_authority =
  sa_system :: string
  sa_reads :: verdict_tally
  sa_changes :: verdict_tally

definition tally_candidate ::
  "(candidate_action \<Rightarrow> decision_effect \<times> bool) \<Rightarrow> verdict_tally \<times> verdict_tally \<Rightarrow> candidate_action \<Rightarrow>
     verdict_tally \<times> verdict_tally" where
  "tally_candidate decide tallies c =
     (let (reads, changes) = tallies
      in if ca_class c = TC_READ then (counted_verdict reads (decide c), changes)
         else if changes_external_state (ca_class c) then (reads, counted_verdict changes (decide c))
         else (reads, changes))"

definition authority_of ::
  "(string \<times> candidate_action list) list \<Rightarrow> (candidate_action \<Rightarrow> decision_effect \<times> bool) \<Rightarrow>
     system_authority list" where
  "authority_of reach decide =
     map (\<lambda>(system, offered).
       let (reads, changes) = foldl (tally_candidate decide) (empty_tally, empty_tally) offered
       in \<lparr>sa_system = system, sa_reads = reads, sa_changes = changes\<rparr>) reach"

definition describe_tally :: "verdict_tally \<Rightarrow> string" where
  "describe_tally t =
     (let total = vt_allow t + vt_ask t + vt_deny t;
          parts = (if vt_allow t > 0 then [nat_text (vt_allow t) @ '' allowed''] else []) @
            (if vt_ask t > 0 then [nat_text (vt_ask t) @ '' asked''] else []) @
            (if vt_deny t > 0 then [nat_text (vt_deny t) @ '' refused''] else []);
          unruled = (if vt_unruled t > 0 then '', '' @ nat_text (vt_unruled t) @ '' by no rule'' else [])
      in if total = 0 then ''none''
         else if length parts = 1
         then ''all '' @ nat_text total @ '' '' @
           (if vt_allow t > 0 then ''allowed'' else if vt_ask t > 0 then ''asked'' else ''refused'') @ unruled
         else join_with '', '' parts @ unruled)"

section \<open>Turns\<close>

definition MOST_WINDOWS :: nat where "MOST_WINDOWS = 60"

record turn_window =
  tn_prompt_at :: time
  tn_ended_at :: "time option"

record session_turn =
  st_session_id :: string
  st_agent :: string
  st_prompt_at :: "time option"
  st_ended_at :: "time option"
  st_windows :: "turn_window list option"

definition turn_id_for :: "string \<Rightarrow> string" where
  "turn_id_for session = map (\<lambda>c. if is_alnum c \<or> c = CHR ''_'' \<or> c = CHR ''-'' then c else CHR ''_'') session"

definition fresh_turn :: "string \<Rightarrow> string \<Rightarrow> session_turn" where
  "fresh_turn session agent =
     \<lparr>st_session_id = session, st_agent = agent, st_prompt_at = None, st_ended_at = None, st_windows = None\<rparr>"

definition record_prompt ::
  "session_turn record_dir \<Rightarrow> string \<Rightarrow> string \<Rightarrow> time \<Rightarrow> session_turn record_dir" where
  "record_prompt dir session agent at' =
     (let was = dir_read dir (turn_id_for session);
          t = or_else was (fresh_turn session agent);
          grown = or_else (st_windows t) [] @ [\<lparr>tn_prompt_at = at', tn_ended_at = None\<rparr>];
          windows = drop (length grown - MOST_WINDOWS) grown
      in dir_write dir (turn_id_for session)
           (t\<lparr>st_session_id := session, st_agent := agent, st_prompt_at := Some at', st_windows := Some windows\<rparr>))"

definition record_ending ::
  "session_turn record_dir \<Rightarrow> string \<Rightarrow> string \<Rightarrow> time \<Rightarrow> session_turn record_dir" where
  "record_ending dir session agent at' =
     (let was = dir_read dir (turn_id_for session);
          t = or_else was (fresh_turn session agent);
          kept = or_else (st_windows t) [];
          windows = (if kept \<noteq> [] \<and> tn_ended_at (last kept) = None
                     then butlast kept @ [(last kept)\<lparr>tn_ended_at := Some at'\<rparr>] else kept)
      in dir_write dir (turn_id_for session)
           (t\<lparr>st_session_id := session, st_agent := agent, st_ended_at := Some at',
              st_windows := (if windows = [] then st_windows t else Some windows)\<rparr>))"

definition AWAY_TURN_MS :: int where "AWAY_TURN_MS = 15 * MINUTE_MS"
definition AWAY_KEEP_HOURS :: int where "AWAY_KEEP_HOURS = 12"

text \<open>The window of a long turn nobody has come back to: when it began and when it ended.\<close>

definition away_turn :: "session_turn \<Rightarrow> time \<Rightarrow> (time \<times> time) option" where
  "away_turn t now =
     (case or_else (st_windows t) [] of
        [] \<Rightarrow> None
      | w # ws \<Rightarrow>
          (let final = last (w # ws)
           in case tn_ended_at final of
                None \<Rightarrow> None
              | Some ended \<Rightarrow>
                  if (case st_prompt_at t of None \<Rightarrow> False | Some asked \<Rightarrow> asked > ended) then None
                  else if ended - tn_prompt_at final < AWAY_TURN_MS then None
                  else if now - ended > AWAY_KEEP_HOURS * HOUR_MS then None
                  else Some (tn_prompt_at final, ended)))"

section \<open>What leaving it running means\<close>

lemma boundary_accounts:
  "length (bo_entries (boundary_for collate agent offered decide)) +
     length (bo_ungoverned (boundary_for collate agent offered decide)) = length offered"
  by (simp add: boundary_for_def Let_def sum_length_filter_compl)

lemma bands_partition:
  "length (in_band b AUTOMATIC) + length (in_band b NEEDS_APPROVAL) + length (in_band b NEVER) =
     length (bo_entries b)"
proof -
  have "length (filter (\<lambda>e. be_band e = AUTOMATIC) es) + length (filter (\<lambda>e. be_band e = NEEDS_APPROVAL) es) +
      length (filter (\<lambda>e. be_band e = NEVER) es) = length es" for es
    by (induction es) (auto, metis band.exhaust)
  then show ?thesis by (simp add: in_band_def)
qed

lemma automatic_entry:
  assumes "e \<in> set (in_band (boundary_for collate agent offered decide) AUTOMATIC)"
  obtains c where "c \<in> set offered" "be_action e = ca_action c" "be_class e = ca_class c"
    "de_matched (decide (ca_action c) (ca_class c))" "de_effect (decide (ca_action c) (ca_class c)) = ALLOW"
    "reversibility_of (ca_action c) (ca_class c) None \<noteq> IRREVERSIBLE"
proof -
  from assms obtain c where c: "c \<in> set offered" "de_matched (decide (ca_action c) (ca_class c))"
    "e = boundary_entry_of c (decide (ca_action c) (ca_class c))" "be_band e = AUTOMATIC"
    by (auto simp: in_band_def boundary_for_def Let_def)
  from c(3,4) have "de_effect (decide (ca_action c) (ca_class c)) = ALLOW"
    "reversibility_of (ca_action c) (ca_class c) None \<noteq> IRREVERSIBLE"
    by (cases "de_effect (decide (ca_action c) (ca_class c))";
        simp add: boundary_entry_of_def can_be_automatic_def Let_def split: if_splits)+
  with c that show thesis by (simp add: boundary_entry_of_def Let_def)
qed

lemma no_concerns:
  "concerns_of u = [] \<longleftrightarrow>
     ui_enforcing u \<and> fst (ready_to_enable (ui_radius u)) \<and> ui_waiting u = 0 \<and> ui_paused u = 0 \<and>
     ui_spent_budgets u = []"
  by (auto simp: concerns_of_def Let_def split: prod.splits)

lemma ready_facts_of_radius:
  "fst (ready_to_enable r) \<longleftrightarrow>
     \<not> br_destructive_automatic r \<and>
     br_ungoverned r \<le> br_automatic r + br_needs_approval r + br_never r"
  by (auto simp: ready_to_enable_def Let_def)

text \<open>
  Property C24. An agent that can be left running is enforced upon, has nothing waiting, paused or
  spent, and everything the boundary lets it do on its own is allowed by a rule, is not destructive
  and can be undone; at most half of what it could do is under no rule.
\<close>
theorem left_running_stays_within_rules:
  assumes leave: "uc_can_leave (unattended_check_of u)"
    and radius: "ui_radius u = blast_radius_of (boundary_for collate agent offered decide) credentials"
  shows "ui_enforcing u \<and> ui_waiting u = 0 \<and> ui_paused u = 0 \<and> ui_spent_budgets u = [] \<and>
     (\<forall>e\<in>set (in_band (boundary_for collate agent offered decide) AUTOMATIC).
        be_class e \<noteq> TC_DESTRUCTIVE \<and>
        (\<exists>c\<in>set offered. ca_action c = be_action e \<and> ca_class c = be_class e \<and>
           de_matched (decide (ca_action c) (ca_class c)) \<and>
           de_effect (decide (ca_action c) (ca_class c)) = ALLOW \<and>
           can_be_automatic (reversibility_of (ca_action c) (ca_class c) None))) \<and>
     2 * length (bo_ungoverned (boundary_for collate agent offered decide)) \<le> length offered"
proof -
  let ?b = "boundary_for collate agent offered decide"
  from leave have quiet: "ui_enforcing u" "ui_waiting u = 0" "ui_paused u = 0" "ui_spent_budgets u = []"
    and ready: "\<not> br_destructive_automatic (ui_radius u)"
      "br_ungoverned (ui_radius u) \<le>
         br_automatic (ui_radius u) + br_needs_approval (ui_radius u) + br_never (ui_radius u)"
    by (auto simp: unattended_check_of_def Let_def no_concerns ready_facts_of_radius)
  from ready(2) have "length (bo_ungoverned ?b) \<le> length (bo_entries ?b)"
    by (simp add: radius blast_radius_of_def bands_partition)
  then have half: "2 * length (bo_ungoverned ?b) \<le> length offered"
    using boundary_accounts [of collate agent offered decide] by linarith
  have own: "be_class e \<noteq> TC_DESTRUCTIVE" if "e \<in> set (in_band ?b AUTOMATIC)" for e
    using that ready(1) by (auto simp: radius blast_radius_of_def list_ex_iff)
  show ?thesis using quiet half own
    by (auto elim!: automatic_entry simp: can_be_automatic_def intro!: bexI)
qed

section \<open>What no rule covers\<close>

text \<open>What the rules answer, as the engine the boundary is asked of answers.\<close>

definition decided_by :: "policy list \<Rightarrow> string \<Rightarrow> string \<Rightarrow> string \<Rightarrow> decided" where
  "decided_by policies agent action cls =
     (let r = evaluate (new_engine sample_version policies None)
            ((bare_request action)\<lparr>rq_tool_class := Some cls\<rparr>) (plain_context agent)
      in \<lparr>de_effect = er_effect r, de_reason = er_reason r, de_matched = er_matched_policies r \<noteq> []\<rparr>)"

definition unruled_boundary :: boundary where
  "unruled_boundary =
     boundary_for id ''claude''
       [\<lparr>ca_action = ''git.status'', ca_class = TC_READ\<rparr>, \<lparr>ca_action = ''git.push-force'', ca_class = TC_DESTRUCTIVE\<rparr>]
       (decided_by [plain_policy ''look'' (match_actions [''git.status'']) (plain_decision ALLOW)] ''claude'')"

definition unruled_input :: unattended_input where
  "unruled_input =
     \<lparr>ui_agent = ''claude'', ui_enforcing = True, ui_radius = blast_radius_of unruled_boundary [],
      ui_waiting = 0, ui_paused = 0, ui_spent_budgets = []\<rparr>"

text \<open>
  Only entries under a rule are looked at for what destroys: a forced push no rule names runs,
  and the answer is still that every destructive action is held or refused.
\<close>
theorem unruled_deletes_are_left_running:
  "ready_to_enable (blast_radius_of unruled_boundary []) = (True, ''every destructive action is held or refused'') \<and>
   uc_can_leave (unattended_check_of unruled_input) \<and>
   de_effect (decided_by [plain_policy ''look'' (match_actions [''git.status'']) (plain_decision ALLOW)] ''claude''
     ''git.push-force'' TC_DESTRUCTIVE) = ALLOW"
  by (intro conjI; code_simp)

theorem left_running_stays_within_rules_witness:
  "bo_ungoverned unruled_boundary = [''git.push-force''] \<and>
   (ui_enforcing unruled_input \<and> ui_waiting unruled_input = 0)"
proof -
  have leave: "uc_can_leave (unattended_check_of unruled_input)" by code_simp
  have radius: "ui_radius unruled_input = blast_radius_of (boundary_for id ''claude''
       [\<lparr>ca_action = ''git.status'', ca_class = TC_READ\<rparr>, \<lparr>ca_action = ''git.push-force'', ca_class = TC_DESTRUCTIVE\<rparr>]
       (decided_by [plain_policy ''look'' (match_actions [''git.status'']) (plain_decision ALLOW)] ''claude'')) []"
    by (simp add: unruled_input_def unruled_boundary_def)
  have "bo_ungoverned unruled_boundary = [''git.push-force'']" by code_simp
  then show ?thesis using left_running_stays_within_rules [OF leave radius] by simp
qed

text \<open>
  Verbs are compared whole: the row of the payment client that moves money names
  \<open>refunds\<close>, which is not \<open>refund\<close>, so a rule that allows it lets it run on its own.
\<close>
theorem refunds_run_on_their_own:
  "verb_action ''stripe'' (plain_verb ''refunds create **'' TC_WRITE) = ''stripe.refunds-create'' \<and>
   reversibility_of ''stripe.refunds-create'' TC_WRITE None = COMPENSABLE \<and>
   reversibility_of ''stripe.refund'' TC_WRITE None = IRREVERSIBLE"
  by (intro conjI; code_simp)

text \<open>An away turn is one that ended, ran at least the length of one, and is recent.\<close>

lemma away_turn_facts:
  assumes "away_turn t now = Some (began, ended)"
  shows "began + 15 * 60000 \<le> ended" "now \<le> ended + 12 * 3600000"
    "\<exists>w\<in>set (or_else (st_windows t) []). tn_prompt_at w = began \<and> tn_ended_at w = Some ended"
proof -
  from assms obtain w ws where ws: "or_else (st_windows t) [] = w # ws"
    by (cases "or_else (st_windows t) []") (simp_all add: away_turn_def)
  define final where "final = last (w # ws)"
  have final: "final \<in> set (w # ws)" unfolding final_def by (rule last_in_set) simp
  from assms ws have "tn_ended_at final = Some ended" "began = tn_prompt_at final"
    "\<not> ended - tn_prompt_at final < AWAY_TURN_MS" "\<not> now - ended > AWAY_KEEP_HOURS * HOUR_MS"
    by (auto simp: away_turn_def final_def [symmetric] Let_def simp del: last.simps split: option.splits if_splits)
  with final ws show "began + 15 * 60000 \<le> ended" "now \<le> ended + 12 * 3600000"
    "\<exists>w\<in>set (or_else (st_windows t) []). tn_prompt_at w = began \<and> tn_ended_at w = Some ended"
    by (auto simp: AWAY_TURN_MS_def AWAY_KEEP_HOURS_def time_defs)
qed

lemma windows_stay_bounded:
  "dir_sound dir \<Longrightarrow>
     dir_read (record_prompt dir session agent at') (turn_id_for session) = Some t' \<Longrightarrow>
     length (or_else (st_windows t') []) \<le> MOST_WINDOWS"
  by (auto simp: record_prompt_def Let_def record_dir.read_write MOST_WINDOWS_def)

end
