(* ===== verification/NativeRules.thy ===== *)
theory NativeRules
  imports PolicyVerdict VerbTables Domains "HOL-Library.AList"
begin

text \<open>
  The rules written in an agent's own format: \<open>packages/core/src/policy/native.ts\<close>, and the check of
  a settings file before it is written (\<open>packages/cli/src/protect/native-permissions.ts\<close>). Settings
  are JSON objects, the fields of each in order; what an action is called on a command line, which
  one of the formats needs, is the argument \<open>glob_for\<close>.
\<close>

section \<open>Lists of permissions\<close>

record untranslated =
  ut_policy :: string
  ut_because :: string

definition NAMES_NO_ACTION :: string where
  "NAMES_NO_ACTION = ''it names no action, so there is nothing to write''"

definition NARROWED_BY_ARGUMENTS :: string where
  "NARROWED_BY_ARGUMENTS =
     ''it covers only some calls, by what they do or carry, and a Claude Code permission can only name the tool''"

definition merge_lists :: "string list \<Rightarrow> string list option \<Rightarrow> string list" where
  "merge_lists ours theirs = uniq (or_else theirs [] @ ours)"

definition without_ours :: "string list option \<Rightarrow> string list option \<Rightarrow> string list" where
  "without_ours theirs ours = filter (\<lambda>entry. entry \<notin> set (or_else ours [])) (or_else theirs [])"

definition push_once :: "string list \<Rightarrow> string \<Rightarrow> string list" where
  "push_once entries entry = (if entry \<in> set entries then entries else entries @ [entry])"

section \<open>Claude Code\<close>

record claude_permissions =
  cp_allow :: "string list"
  cp_ask :: "string list"
  cp_deny :: "string list"

definition TOOL_FOR_ACTION :: "(string \<times> string) list" where
  "TOOL_FOR_ACTION =
     [(''filesystem.read'', ''Read''), (''filesystem.write'', ''Write''), (''file.write'', ''Write''),
      (''filesystem.delete'', ''Bash''), (''shell.execute'', ''Bash''), (''http.request'', ''WebFetch''),
      (''package.install'', ''Bash'')]"

definition GIT_PREFIX :: string where "GIT_PREFIX = ''git.''"
definition MCP_PREFIX :: string where "MCP_PREFIX = ''mcp.''"

definition mcp_rule_for :: "string \<Rightarrow> string" where
  "mcp_rule_for action =
     (let rest = drop (length MCP_PREFIX) action
      in if CHR ''.'' \<notin> set rest then ''mcp__*__'' @ rest
         else ''mcp__'' @ takeWhile (\<lambda>c. c \<noteq> CHR ''.'') rest @ ''__'' @ tl (dropWhile (\<lambda>c. c \<noteq> CHR ''.'') rest))"

definition native_rule_for :: "string \<Rightarrow> string option \<Rightarrow> string option" where
  "native_rule_for action target =
     (if starts_with GIT_PREFIX action
      then Some (''Bash(git '' @ drop (length GIT_PREFIX) action @ '':*)'')
      else if starts_with MCP_PREFIX action then Some (mcp_rule_for action)
      else case map_of TOOL_FOR_ACTION action of
             None \<Rightarrow> None
           | Some tool \<Rightarrow>
               Some (case target of None \<Rightarrow> tool | Some t \<Rightarrow> if t = [] then tool else tool @ ''('' @ t @ '')''))"

definition claude_bucket :: "claude_permissions \<Rightarrow> decision_effect \<Rightarrow> string list" where
  "claude_bucket permissions effect =
     (if effect = DENY then cp_deny permissions else if effect = ASK then cp_ask permissions
      else cp_allow permissions)"

definition claude_push :: "claude_permissions \<Rightarrow> decision_effect \<Rightarrow> string \<Rightarrow> claude_permissions" where
  "claude_push permissions effect entry =
     (if effect = DENY then permissions\<lparr>cp_deny := push_once (cp_deny permissions) entry\<rparr>
      else if effect = ASK then permissions\<lparr>cp_ask := push_once (cp_ask permissions) entry\<rparr>
      else permissions\<lparr>cp_allow := push_once (cp_allow permissions) entry\<rparr>)"

text \<open>The permissions written so far, whether this policy wrote one, and whether one was skipped.\<close>

record claude_writing =
  cw_permissions :: claude_permissions
  cw_wrote :: bool
  cw_skipped_unanchored :: bool

definition stays_with_memnox :: "string option \<Rightarrow> bool" where
  "stays_with_memnox target =
     (case target of None \<Rightarrow> False | Some t \<Rightarrow> starts_with ''!'' t \<or> CHR ''{'' \<in> set t)"

definition write_claude_rule ::
  "decision_effect \<Rightarrow> claude_writing \<Rightarrow> string \<times> string option \<Rightarrow> claude_writing" where
  "write_claude_rule effect w entry =
     (let (action, target) = entry
      in if stays_with_memnox target then w
         else case native_rule_for action target of
                None \<Rightarrow> w
              | Some native \<Rightarrow>
                  if effect = ALLOW \<and> starts_with ''mcp__*'' native then w\<lparr>cw_skipped_unanchored := True\<rparr>
                  else w\<lparr>cw_permissions := claude_push (cw_permissions w) effect native, cw_wrote := True\<rparr>)"

definition targets_to_write :: "policy \<Rightarrow> string option list" where
  "targets_to_write p = (case pm_targets (p_match p) of None \<Rightarrow> [None] | Some ts \<Rightarrow> map Some ts)"

definition rule_entries :: "policy \<Rightarrow> string list \<Rightarrow> (string \<times> string option) list" where
  "rule_entries p actions = concat (map (\<lambda>a. map (\<lambda>t. (a, t)) (targets_to_write p)) actions)"

definition write_claude_rules ::
  "policy \<Rightarrow> string list \<Rightarrow> claude_permissions \<Rightarrow> claude_permissions \<times> untranslated option" where
  "write_claude_rules p actions permissions =
     (let w = foldl (write_claude_rule (pd_effect (p_decision p)))
            \<lparr>cw_permissions = permissions, cw_wrote = False, cw_skipped_unanchored = False\<rparr>
            (rule_entries p actions)
      in (cw_permissions w,
          if cw_wrote w then None
          else Some \<lparr>ut_policy = p_name p,
            ut_because =
              (if cw_skipped_unanchored w
               then ''an allow rule for an MCP tool has to name its server; Claude Code skips an unanchored glob''
               else ''no Claude Code permission covers '' @ join_with '', '' actions)\<rparr>))"

definition narrowed_by_arguments :: "policy \<Rightarrow> bool" where
  "narrowed_by_arguments p \<longleftrightarrow>
     pm_arguments (p_match p) \<noteq> None \<or> pm_classes (p_match p) \<noteq> None \<or>
     pm_capabilities (p_match p) \<noteq> None \<or> pm_environments (p_match p) \<noteq> None"

definition translate_claude ::
  "claude_permissions \<times> untranslated list \<Rightarrow> policy \<Rightarrow> claude_permissions \<times> untranslated list" where
  "translate_claude so_far p =
     (let (permissions, untranslated) = so_far;
          actions = pm_actions (p_match p);
          (written, skipped) =
            (if actions = [] then (permissions, Some \<lparr>ut_policy = p_name p, ut_because = NAMES_NO_ACTION\<rparr>)
             else if narrowed_by_arguments p
             then (permissions, Some \<lparr>ut_policy = p_name p, ut_because = NARROWED_BY_ARGUMENTS\<rparr>)
             else write_claude_rules p actions permissions)
      in (written, case skipped of None \<Rightarrow> untranslated | Some u \<Rightarrow> untranslated @ [u]))"

definition to_claude_code_permissions :: "policy list \<Rightarrow> claude_permissions \<times> untranslated list" where
  "to_claude_code_permissions policies =
     foldl translate_claude (\<lparr>cp_allow = [], cp_ask = [], cp_deny = []\<rparr>, []) policies"

section \<open>Settings files\<close>

definition NATIVE_MARKER :: string where "NATIVE_MARKER = ''_memnoxManaged''"

type_synonym fields = "(string \<times> json) list"

text \<open>\<open>{ ...o, k: v }\<close>, \<open>delete o[k]\<close>, and the field of an object, none where there is no object.\<close>

definition with_field :: "string \<Rightarrow> json \<Rightarrow> fields \<Rightarrow> fields" where
  "with_field k v o' = AList.update k v o'"

definition without_field :: "string \<Rightarrow> fields \<Rightarrow> fields" where
  "without_field k o' = AList.delete k o'"

definition section_of :: "fields \<Rightarrow> string \<Rightarrow> fields option" where
  "section_of settings key = (case map_of settings key of Some (JObj o') \<Rightarrow> Some o' | _ \<Rightarrow> None)"

fun json_string :: "json \<Rightarrow> string option" where
  "json_string (JStr s) = Some s"
| "json_string _ = None"

definition strings_in :: "json list \<Rightarrow> string list option" where
  "strings_in js =
     (if list_all (\<lambda>j. json_string j \<noteq> None) js then Some (map (\<lambda>j. the (json_string j)) js) else None)"

definition strings_at :: "fields \<Rightarrow> string \<Rightarrow> string list option" where
  "strings_at o' field = (case map_of o' field of Some (JArr js) \<Rightarrow> strings_in js | _ \<Rightarrow> None)"

definition json_strings :: "string list \<Rightarrow> json" where
  "json_strings entries = JArr (map JStr entries)"

text \<open>What is wrong with a settings file, before anything is read out of it.\<close>

type_synonym list_shape = "(string \<times> string list) list"

definition CLAUDE_LISTS :: list_shape where
  "CLAUDE_LISTS =
     [(''permissions'', [''allow'', ''ask'', ''deny'']), (NATIVE_MARKER, [''allow'', ''ask'', ''deny''])]"

definition OPENCLAW_LISTS :: list_shape where
  "OPENCLAW_LISTS = [(''tools'', [''allow'', ''deny'']), (NATIVE_MARKER, [''allow'', ''deny''])]"

definition field_problem :: "string \<Rightarrow> fields \<Rightarrow> string \<Rightarrow> string option" where
  "field_problem key o' field =
     (if map_of o' field = None \<or> strings_at o' field \<noteq> None then None
      else Some (''has a \"'' @ key @ ''.'' @ field @ ''\" that is not a list of strings''))"

definition section_problem :: "fields \<Rightarrow> string \<times> string list \<Rightarrow> string option" where
  "section_problem settings shape =
     (let (key, names) = shape
      in case map_of settings key of
           None \<Rightarrow> None
         | Some v \<Rightarrow>
             (case v of
                JObj o' \<Rightarrow> foldr (\<lambda>field rest. first_some (field_problem key o' field) rest) names None
              | _ \<Rightarrow> Some (''has a \"'' @ key @ ''\" that is not an object'')))"

definition shape_problem :: "json \<Rightarrow> list_shape \<Rightarrow> string option" where
  "shape_problem v shapes =
     (case v of
        JObj settings \<Rightarrow> foldr (\<lambda>shape rest. first_some (section_problem settings shape) rest) shapes None
      | _ \<Rightarrow> Some ''does not hold a JSON object'')"

section \<open>Writing and taking back\<close>

definition permission_fields :: "string list \<Rightarrow> string list \<Rightarrow> string list \<Rightarrow> json" where
  "permission_fields allowed asked denied =
     JObj [(''allow'', json_strings allowed), (''ask'', json_strings asked), (''deny'', json_strings denied)]"

definition apply_native :: "fields \<Rightarrow> claude_permissions \<Rightarrow> fields" where
  "apply_native settings ours =
     (let existing = or_else (section_of settings ''permissions'') []
      in with_field NATIVE_MARKER (permission_fields (cp_allow ours) (cp_ask ours) (cp_deny ours))
           (with_field ''permissions''
             (permission_fields (merge_lists (cp_allow ours) (strings_at existing ''allow''))
               (merge_lists (cp_ask ours) (strings_at existing ''ask''))
               (merge_lists (cp_deny ours) (strings_at existing ''deny'')))
             settings))"

definition revert_native :: "fields \<Rightarrow> fields" where
  "revert_native settings =
     (case section_of settings NATIVE_MARKER of
        None \<Rightarrow> settings
      | Some managed \<Rightarrow>
          (let existing = or_else (section_of settings ''permissions'') []
           in without_field NATIVE_MARKER
                (with_field ''permissions''
                  (permission_fields (without_ours (strings_at existing ''allow'') (strings_at managed ''allow''))
                    (without_ours (strings_at existing ''ask'') (strings_at managed ''ask''))
                    (without_ours (strings_at existing ''deny'') (strings_at managed ''deny'')))
                  settings)))"

section \<open>OpenClaw\<close>

record openclaw_tools =
  oc_allow :: "string list"
  oc_deny :: "string list"

definition OPENCLAW_TOOLS :: "(string \<times> string list) list" where
  "OPENCLAW_TOOLS =
     [(''filesystem.read'', [''read'']), (''filesystem.write'', [''write'', ''edit'', ''apply_patch'']),
      (''file.write'', [''write'', ''edit'', ''apply_patch'']), (''filesystem.delete'', [''exec'']),
      (''shell.execute'', [''exec'', ''process'']), (''package.install'', [''exec'']),
      (''browser.navigate'', [''browser''])]"

definition openclaw_tools_for :: "string list \<Rightarrow> string list" where
  "openclaw_tools_for actions =
     uniq (concat (map (\<lambda>action. if starts_with GIT_PREFIX action then [''exec'']
       else or_else (map_of OPENCLAW_TOOLS action) []) actions))"

definition openclaw_skip :: "policy \<Rightarrow> string list \<Rightarrow> untranslated option" where
  "openclaw_skip p actions =
     (if actions = [] then Some \<lparr>ut_policy = p_name p, ut_because = NAMES_NO_ACTION\<rparr>
      else if pd_effect (p_decision p) = ASK
      then Some \<lparr>ut_policy = p_name p,
        ut_because = ''OpenClaw has allow and deny only, and an ask written as either is wrong''\<rparr>
      else None)"

definition translate_openclaw ::
  "openclaw_tools \<times> untranslated list \<Rightarrow> policy \<Rightarrow> openclaw_tools \<times> untranslated list" where
  "translate_openclaw so_far p =
     (let (tools, untranslated) = so_far; actions = pm_actions (p_match p)
      in case openclaw_skip p actions of
           Some skipped \<Rightarrow> (tools, untranslated @ [skipped])
         | None \<Rightarrow>
             (let named = openclaw_tools_for actions
              in if named = []
                 then (tools, untranslated @ [\<lparr>ut_policy = p_name p,
                   ut_because = ''no OpenClaw tool covers '' @ join_with '', '' actions\<rparr>])
                 else if pd_effect (p_decision p) = DENY
                 then (tools\<lparr>oc_deny := foldl push_once (oc_deny tools) named\<rparr>, untranslated)
                 else (tools\<lparr>oc_allow := foldl push_once (oc_allow tools) named\<rparr>, untranslated)))"

definition to_openclaw_tools :: "policy list \<Rightarrow> openclaw_tools \<times> untranslated list" where
  "to_openclaw_tools policies =
     (let (tools, untranslated) = foldl translate_openclaw (\<lparr>oc_allow = [], oc_deny = []\<rparr>, []) policies
      in (tools\<lparr>oc_allow := filter (\<lambda>tool. tool \<notin> set (oc_deny tools)) (oc_allow tools)\<rparr>, untranslated))"

definition apply_openclaw :: "fields \<Rightarrow> openclaw_tools \<Rightarrow> fields" where
  "apply_openclaw settings ours =
     (let existing = or_else (section_of settings ''tools'') []
      in with_field NATIVE_MARKER
           (JObj [(''allow'', json_strings (oc_allow ours)), (''deny'', json_strings (oc_deny ours))])
           (with_field ''tools''
             (JObj (with_field ''deny'' (json_strings (merge_lists (oc_deny ours) (strings_at existing ''deny'')))
               (with_field ''allow'' (json_strings (merge_lists (oc_allow ours) (strings_at existing ''allow''))) existing)))
             settings))"

definition revert_openclaw :: "fields \<Rightarrow> fields" where
  "revert_openclaw settings =
     (case section_of settings NATIVE_MARKER of
        None \<Rightarrow> settings
      | Some managed \<Rightarrow>
          (let existing = or_else (section_of settings ''tools'') []
           in without_field NATIVE_MARKER
                (with_field ''tools''
                  (JObj (with_field ''deny''
                     (json_strings (without_ours (strings_at existing ''deny'') (strings_at managed ''deny'')))
                     (with_field ''allow''
                       (json_strings (without_ours (strings_at existing ''allow'') (strings_at managed ''allow'')))
                       existing)))
                  settings)))"

section \<open>Hermes\<close>

definition hermes_skip :: "policy \<Rightarrow> string list \<Rightarrow> untranslated option" where
  "hermes_skip p actions =
     (if actions = [] then Some \<lparr>ut_policy = p_name p, ut_because = NAMES_NO_ACTION\<rparr>
      else if pd_effect (p_decision p) \<noteq> DENY
      then Some \<lparr>ut_policy = p_name p,
        ut_because = ''approvals.deny is unconditional, so only a deny belongs in it''\<rparr>
      else None)"

definition globs_for :: "(string \<Rightarrow> string option) \<Rightarrow> string list \<Rightarrow> string list" where
  "globs_for glob_for actions =
     concat (map (\<lambda>a. case glob_for a of None \<Rightarrow> [] | Some g \<Rightarrow> if g = [] then [] else [g]) actions)"

definition translate_hermes ::
  "(string \<Rightarrow> string option) \<Rightarrow> string list \<times> untranslated list \<Rightarrow> policy \<Rightarrow>
     string list \<times> untranslated list" where
  "translate_hermes glob_for so_far p =
     (let (denied, untranslated) = so_far; actions = pm_actions (p_match p)
      in case hermes_skip p actions of
           Some skipped \<Rightarrow> (denied, untranslated @ [skipped])
         | None \<Rightarrow>
             (let globs = globs_for glob_for actions
              in if globs = []
                 then (denied, untranslated @ [\<lparr>ut_policy = p_name p,
                   ut_because = ''no command pattern covers '' @ join_with '', '' actions\<rparr>])
                 else (foldl push_once denied (map to_lower globs), untranslated)))"

definition to_hermes_approvals ::
  "policy list \<Rightarrow> (string \<Rightarrow> string option) \<Rightarrow> string list \<times> untranslated list" where
  "to_hermes_approvals policies glob_for = foldl (translate_hermes glob_for) ([], []) policies"

section \<open>What is written\<close>

lemma set_push_once [simp]: "set (push_once entries entry) = insert entry (set entries)"
  by (auto simp: push_once_def)

lemma distinct_push_once [simp]: "distinct (push_once entries entry) = distinct entries"
  by (simp add: push_once_def)

lemma set_claude_push:
  "set (claude_bucket (claude_push permissions effect entry) e) =
     (if e = effect then insert entry (set (claude_bucket permissions e)) else set (claude_bucket permissions e))"
  by (cases effect; cases e) (auto simp: claude_push_def claude_bucket_def)

text \<open>The permission one entry of a rule is written as, none where it is left to the gate.\<close>

definition written_as :: "decision_effect \<Rightarrow> string \<times> string option \<Rightarrow> string option" where
  "written_as effect entry =
     (if stays_with_memnox (snd entry) then None
      else case native_rule_for (fst entry) (snd entry) of
             None \<Rightarrow> None
           | Some native \<Rightarrow> if effect = ALLOW \<and> starts_with ''mcp__*'' native then None else Some native)"

definition all_written :: "decision_effect \<Rightarrow> (string \<times> string option) list \<Rightarrow> string set" where
  "all_written effect entries = {native. \<exists>entry\<in>set entries. written_as effect entry = Some native}"

lemma write_claude_rule_bucket:
  "set (claude_bucket (cw_permissions (write_claude_rule effect w entry)) e) =
     set (claude_bucket (cw_permissions w) e) \<union> (if e = effect then all_written effect [entry] else {})"
  by (cases entry; cases "written_as effect entry")
    (auto simp: write_claude_rule_def written_as_def all_written_def Let_def set_claude_push
      split: option.splits if_splits)

lemma write_claude_rule_wrote:
  "cw_wrote (write_claude_rule effect w entry) = (cw_wrote w \<or> all_written effect [entry] \<noteq> {})"
  by (cases entry)
    (auto simp: write_claude_rule_def written_as_def all_written_def Let_def split: option.splits)

lemma all_written_Cons: "all_written effect (x # xs) = all_written effect [x] \<union> all_written effect xs"
  by (auto simp: all_written_def)

lemma all_written_Nil [simp]: "all_written effect [] = {}"
  by (simp add: all_written_def)

lemma write_all_rules:
  "set (claude_bucket (cw_permissions (foldl (write_claude_rule effect) w entries)) e) =
     set (claude_bucket (cw_permissions w) e) \<union> (if e = effect then all_written effect entries else {})"
  "cw_wrote (foldl (write_claude_rule effect) w entries) = (cw_wrote w \<or> all_written effect entries \<noteq> {})"
proof (induction entries arbitrary: w)
  case (Cons entry entries)
  note parts = all_written_Cons [of effect entry entries]
  { case 1 show ?case by (simp add: Cons.IH(1) write_claude_rule_bucket parts Un_assoc) }
  { case 2 show ?case by (simp add: Cons.IH(2) write_claude_rule_wrote parts) }
qed simp_all

text \<open>What one policy is written as: nothing where it is named as not written.\<close>

definition policy_written :: "policy \<Rightarrow> string set" where
  "policy_written p =
     (if pm_actions (p_match p) = [] \<or> narrowed_by_arguments p then {}
      else all_written (pd_effect (p_decision p)) (rule_entries p (pm_actions (p_match p))))"

lemma translate_claude_bucket:
  "set (claude_bucket (fst (translate_claude so_far p)) e) =
     set (claude_bucket (fst so_far) e) \<union> (if e = pd_effect (p_decision p) then policy_written p else {})"
  by (cases so_far) (simp add: translate_claude_def write_claude_rules_def policy_written_def Let_def write_all_rules)

lemma translate_claude_named:
  "ut_policy ` set (snd (translate_claude so_far p)) =
     ut_policy ` set (snd so_far) \<union> (if policy_written p = {} then {p_name p} else {})"
  by (cases so_far)
    (simp add: translate_claude_def write_claude_rules_def policy_written_def Let_def write_all_rules)

lemma translate_all:
  "set (claude_bucket (fst (foldl translate_claude so_far policies)) e) =
     set (claude_bucket (fst so_far) e) \<union> \<Union> (policy_written ` {p \<in> set policies. pd_effect (p_decision p) = e})"
  "ut_policy ` set (snd (foldl translate_claude so_far policies)) =
     ut_policy ` set (snd so_far) \<union> p_name ` {p \<in> set policies. policy_written p = {}}"
proof (induction policies arbitrary: so_far)
  case (Cons p policies)
  { case 1 show ?case unfolding foldl_Cons Cons.IH(1) translate_claude_bucket by (auto split: if_splits) }
  { case 2 show ?case unfolding foldl_Cons Cons.IH(2) translate_claude_named by (auto split: if_splits) }
qed simp_all

text \<open>
  The permissions written into Claude Code are those of the rules, each in the list of
  its rule's effect and no other, and a rule none of whose entries could be written is named.
\<close>
theorem native_permissions_are_the_rules:
  "set (claude_bucket (fst (to_claude_code_permissions policies)) effect) =
     {native. \<exists>p\<in>set policies. pd_effect (p_decision p) = effect \<and> \<not> narrowed_by_arguments p \<and>
        (\<exists>entry\<in>set (rule_entries p (pm_actions (p_match p))). written_as effect entry = Some native)} \<and>
   ut_policy ` set (snd (to_claude_code_permissions policies)) =
     p_name ` {p \<in> set policies. policy_written p = {}}"
proof
  have start: "set (claude_bucket \<lparr>cp_allow = [], cp_ask = [], cp_deny = []\<rparr> effect) = {}"
    by (simp add: claude_bucket_def)
  have unfolded: "policy_written p = {native. \<not> narrowed_by_arguments p \<and>
      (\<exists>entry\<in>set (rule_entries p (pm_actions (p_match p))). written_as (pd_effect (p_decision p)) entry = Some native)}"
    for p by (auto simp: policy_written_def all_written_def rule_entries_def)
  show "set (claude_bucket (fst (to_claude_code_permissions policies)) effect) =
     {native. \<exists>p\<in>set policies. pd_effect (p_decision p) = effect \<and> \<not> narrowed_by_arguments p \<and>
        (\<exists>entry\<in>set (rule_entries p (pm_actions (p_match p))). written_as effect entry = Some native)}"
    unfolding to_claude_code_permissions_def translate_all(1) fst_conv start by (auto simp: unfolded)
  show "ut_policy ` set (snd (to_claude_code_permissions policies)) =
     p_name ` {p \<in> set policies. policy_written p = {}}"
    by (simp add: to_claude_code_permissions_def translate_all(2))
qed

section \<open>Taking back\<close>

lemma filter_uniq_from: "filter P (uniq_from seen xs) = uniq_from (filter P seen) (filter P xs)"
  by (induction seen xs rule: uniq_from.induct) auto

lemma uniq_from_new: "distinct xs \<Longrightarrow> set xs \<inter> set seen = {} \<Longrightarrow> uniq_from seen xs = xs"
  by (induction seen xs rule: uniq_from.induct) auto

lemma without_merged:
  assumes "distinct theirs" "set theirs \<inter> set ours = {}"
  shows "filter (\<lambda>entry. entry \<notin> set ours) (uniq (theirs @ ours)) = theirs"
proof -
  have "filter (\<lambda>entry. entry \<notin> set ours) theirs = theirs" "filter (\<lambda>entry. entry \<notin> set ours) ours = []"
    using assms(2) by (auto simp: filter_id_conv filter_empty_conv)
  then show ?thesis using assms(1) by (simp add: uniq_def filter_uniq_from uniq_from_new)
qed

lemma strings_in_strings [simp]: "strings_in (map JStr entries) = Some entries"
  by (simp add: strings_in_def list_all_iff comp_def)

lemma map_of_with_field [simp]: "map_of (with_field k v o') = (map_of o')(k \<mapsto> v)"
  by (simp add: with_field_def update_conv')

lemma map_of_without_field [simp]: "map_of (without_field k o') = (map_of o')(k := None)"
  by (simp add: without_field_def delete_conv')

lemma permission_field_strings:
  "strings_at [(''allow'', json_strings a), (''ask'', json_strings b), (''deny'', json_strings c)] ''allow'' = Some a"
  "strings_at [(''allow'', json_strings a), (''ask'', json_strings b), (''deny'', json_strings c)] ''ask'' = Some b"
  "strings_at [(''allow'', json_strings a), (''ask'', json_strings b), (''deny'', json_strings c)] ''deny'' = Some c"
  by (simp_all add: strings_at_def json_strings_def)

definition permissions_of :: "fields \<Rightarrow> fields" where
  "permissions_of settings = or_else (section_of settings ''permissions'') []"

definition permission_list :: "fields \<Rightarrow> string \<Rightarrow> string list" where
  "permission_list settings field = or_else (strings_at (permissions_of settings) field) []"

lemma marker_is_no_section: "NATIVE_MARKER \<noteq> ''permissions''" "NATIVE_MARKER \<noteq> ''tools''"
  by (simp_all add: NATIVE_MARKER_def)

lemma revert_applied:
  "revert_native (apply_native settings ours) =
     without_field NATIVE_MARKER
       (with_field ''permissions''
         (permission_fields
           (without_ours (Some (merge_lists (cp_allow ours) (strings_at (permissions_of settings) ''allow''))) (Some (cp_allow ours)))
           (without_ours (Some (merge_lists (cp_ask ours) (strings_at (permissions_of settings) ''ask''))) (Some (cp_ask ours)))
           (without_ours (Some (merge_lists (cp_deny ours) (strings_at (permissions_of settings) ''deny''))) (Some (cp_deny ours))))
         (apply_native settings ours))"
  using marker_is_no_section
  by (simp add: revert_native_def apply_native_def section_of_def permission_fields_def permission_field_strings
    permissions_of_def Let_def)

lemma without_ours_merged:
  assumes "distinct (or_else theirs [])" "set (or_else theirs []) \<inter> set ours = {}"
  shows "without_ours (Some (merge_lists ours theirs)) (Some ours) = or_else theirs []"
  using without_merged [OF assms] by (simp add: without_ours_def merge_lists_def)

text \<open>
  Property C25. Writing the rules into settings of Claude Code that carry no marker of ours, and taking
  them back out, leaves the three lists of permissions as they were, where each had no entry twice and none
  that was also ours, and every top-level setting beside the permissions. Other settings among the
  permissions are not kept (\<open>other_permission_settings_are_lost\<close>).
\<close>
theorem revert_takes_back_only_ours:
  assumes marker: "map_of settings NATIVE_MARKER = None"
    and allow: "distinct (permission_list settings ''allow'')"
      "set (permission_list settings ''allow'') \<inter> set (cp_allow ours) = {}"
    and ask: "distinct (permission_list settings ''ask'')"
      "set (permission_list settings ''ask'') \<inter> set (cp_ask ours) = {}"
    and deny: "distinct (permission_list settings ''deny'')"
      "set (permission_list settings ''deny'') \<inter> set (cp_deny ours) = {}"
  shows "permission_list (revert_native (apply_native settings ours)) ''allow'' = permission_list settings ''allow'' \<and>
    permission_list (revert_native (apply_native settings ours)) ''ask'' = permission_list settings ''ask'' \<and>
    permission_list (revert_native (apply_native settings ours)) ''deny'' = permission_list settings ''deny'' \<and>
    (\<forall>key. key \<noteq> ''permissions'' \<longrightarrow>
       map_of (revert_native (apply_native settings ours)) key = map_of settings key)"
proof -
  let ?after = "revert_native (apply_native settings ours)"
  have lists: "permissions_of ?after =
      [(''allow'', json_strings (permission_list settings ''allow'')), (''ask'', json_strings (permission_list settings ''ask'')),
       (''deny'', json_strings (permission_list settings ''deny''))]"
    using marker_is_no_section assms unfolding revert_applied permission_list_def
    by (simp add: permissions_of_def section_of_def permission_fields_def without_ours_merged)
  have rest: "map_of ?after key = map_of settings key" if "key \<noteq> ''permissions''" for key
    using that marker unfolding revert_applied by (simp add: apply_native_def Let_def)
  show ?thesis using rest by (simp add: permission_list_def [of ?after] lists permission_field_strings)
qed

definition sample_settings :: fields where
  "sample_settings =
     [(''model'', JStr ''opus''),
      (''permissions'', JObj [(''deny'', json_strings [''Bash(git push:*)'']), (''defaultMode'', JStr ''plan'')])]"

definition our_deny :: "string \<Rightarrow> claude_permissions" where
  "our_deny entry = \<lparr>cp_allow = [], cp_ask = [], cp_deny = [entry]\<rparr>"

theorem revert_takes_back_only_ours_witness:
  "permission_list (revert_native (apply_native sample_settings (our_deny ''WebFetch''))) ''deny'' = [''Bash(git push:*)''] \<and>
   map_of (revert_native (apply_native sample_settings (our_deny ''WebFetch''))) ''model'' = Some (JStr ''opus'')"
proof -
  have "map_of sample_settings NATIVE_MARKER = None" by code_simp
  moreover have "permission_list sample_settings ''allow'' = []" "permission_list sample_settings ''ask'' = []"
    "permission_list sample_settings ''deny'' = [''Bash(git push:*)'']" "cp_deny (our_deny ''WebFetch'') = [''WebFetch'']"
    "map_of sample_settings ''model'' = Some (JStr ''opus'')"
    by code_simp+
  ultimately show ?thesis
    using revert_takes_back_only_ours [of sample_settings "our_deny ''WebFetch''"] by simp
qed

text \<open>An entry that was theirs already is recorded as ours, and taken away with ours.\<close>
theorem shared_permission_is_taken_back:
  "permission_list sample_settings ''deny'' = [''Bash(git push:*)''] \<and>
   permission_list (revert_native (apply_native sample_settings (our_deny ''Bash(git push:*)''))) ''deny'' = []"
  by (intro conjI; code_simp)

text \<open>
  Only the three lists of the permissions are written back, so the other settings beside them, the
  mode an agent starts in for one, are lost, and taking the rules back does not return them.
\<close>
theorem other_permission_settings_are_lost:
  "map_of (permissions_of sample_settings) ''defaultMode'' = Some (JStr ''plan'') \<and>
   map_of (permissions_of (apply_native sample_settings (our_deny ''WebFetch''))) ''defaultMode'' = None \<and>
   map_of (permissions_of (revert_native (apply_native sample_settings (our_deny ''WebFetch'')))) ''defaultMode'' = None"
  by (intro conjI; code_simp)

text \<open>Written twice, the record of the first write is overwritten, and its entries stay for good.\<close>
theorem second_write_strands_the_first:
  "permission_list (revert_native (apply_native (apply_native sample_settings (our_deny ''WebFetch'')) (our_deny ''Read''))) ''deny'' =
     [''Bash(git push:*)'', ''WebFetch'']"
  by code_simp

section \<open>What the format cannot say\<close>

definition allow_but_keys :: policy where
  "allow_but_keys =
     plain_policy ''sources'' ((match_actions [''filesystem.write''])\<lparr>pm_targets := Some [''src/**'', ''!src/keys/**'']\<rparr>)
       (plain_decision ALLOW)"

text \<open>
  An allow that leaves something out is written without what it leaves out: the rule does not
  reach the keys, the permission does, and nobody is told.
\<close>
theorem left_out_target_is_allowed:
  "\<not> policy_matches allow_but_keys ((bare_request ''filesystem.write'')\<lparr>rq_target := Some ''src/keys/id''\<rparr>) (plain_context ''claude'') \<and>
   to_claude_code_permissions [allow_but_keys] = (\<lparr>cp_allow = [''Write(src/**)''], cp_ask = [], cp_deny = []\<rparr>, [])"
  by (intro conjI; code_simp)

definition allow_for_codex :: policy where
  "allow_for_codex =
     plain_policy ''codex-shell'' ((match_actions [''shell.execute''])\<lparr>pm_agents := Some [''codex'']\<rparr>) (plain_decision ALLOW)"

text \<open>A rule for one agent is written into the settings of another.\<close>
theorem rule_of_another_agent_is_written:
  "\<not> policy_matches allow_for_codex (bare_request ''shell.execute'') (plain_context ''claude'') \<and>
   to_claude_code_permissions [allow_for_codex] = (\<lparr>cp_allow = [''Bash''], cp_ask = [], cp_deny = []\<rparr>, [])"
  by (intro conjI; code_simp)

text \<open>
  A verb of git is the name of a row, and the row of a forced push is no subcommand: the
  permission written for it begins with words no forced push begins with.
\<close>
theorem flagged_verb_is_written_as_a_subcommand:
  "to_claude_code_permissions [plain_policy ''no-force'' (match_actions [''git.push-force'']) (plain_decision DENY)] =
     (\<lparr>cp_allow = [], cp_ask = [], cp_deny = [''Bash(git push-force:*)'']\<rparr>, []) \<and>
   verb_action ''git'' (vm_verb (the (match_verb git_table [''push'', ''--force'']))) = ''git.push-force''"
  by (intro conjI; code_simp)

text \<open>In OpenClaw no tool is left both allowed and denied.\<close>

lemma openclaw_is_not_contradictory:
  "set (oc_allow (fst (to_openclaw_tools policies))) \<inter> set (oc_deny (fst (to_openclaw_tools policies))) = {}"
  by (auto simp: to_openclaw_tools_def Let_def split: prod.splits)

end
