(* ===== verification/PolicyValidator.thy ===== *)
theory PolicyValidator
  imports PolicyVerdict Clock "HOL-Library.AList"
begin

text \<open>
  A rule file turned into rules (\<open>packages/core/src/policy/policy-validator.ts\<close>,
  \<open>policy-provenance.ts\<close>) and the workspace's published rules (\<open>bundle-rules.ts\<close>). A field that is
  absent is \<open>None\<close> and one that is null is \<open>Some JNull\<close>. The list of issues the code pushes
  onto is the second component of what each check returns, in the order they are pushed; numbers
  are finite, so the check for infinity always passes.
\<close>

section \<open>Checks that leave issues\<close>

type_synonym 'a checked = "'a \<times> string list"

definition fine :: "'a \<Rightarrow> 'a checked" where
  "fine x = (x, [])"

definition wrong :: "'a \<Rightarrow> string \<Rightarrow> 'a checked" where
  "wrong x issue = (x, [issue])"

definition then_check :: "'a checked \<Rightarrow> ('a \<Rightarrow> 'b checked) \<Rightarrow> 'b checked" where
  "then_check c f = (let (x, issues) = c; (y, later) = f x in (y, issues @ later))"

text \<open>Every element checked in order, with the place it stands at.\<close>

fun check_each :: "(nat \<Rightarrow> 'a \<Rightarrow> 'b checked) \<Rightarrow> nat \<Rightarrow> 'a list \<Rightarrow> 'b list checked" where
  "check_each f i [] = fine []"
| "check_each f i (x # xs) =
     (let (y, issues) = f i x; (ys, later) = check_each f (Suc i) xs in (y # ys, issues @ later))"

definition present :: "json option \<Rightarrow> bool" where
  "present v \<longleftrightarrow> v \<noteq> None \<and> v \<noteq> Some JNull"

definition as_record :: "json option \<Rightarrow> string \<Rightarrow> (string \<times> json) list option checked" where
  "as_record v at' =
     (case v of Some (JObj o') \<Rightarrow> fine (Some o') | _ \<Rightarrow> wrong None (at' @ '' must be an object''))"

definition as_non_empty_string :: "json option \<Rightarrow> string \<Rightarrow> string option checked" where
  "as_non_empty_string v at' =
     (case v of
        Some (JStr s) \<Rightarrow>
          if trim s \<noteq> [] then fine (Some (trim s)) else wrong None (at' @ '' must be a non-empty string'')
      | _ \<Rightarrow> wrong None (at' @ '' must be a non-empty string''))"

fun string_of_json :: "json \<Rightarrow> string option" where
  "string_of_json (JStr s) = Some s"
| "string_of_json _ = None"

definition strings_of_json :: "json list \<Rightarrow> string list option" where
  "strings_of_json js =
     (if list_all (\<lambda>j. string_of_json j \<noteq> None) js then Some (map (\<lambda>j. the (string_of_json j)) js) else None)"

definition as_string_array :: "json option \<Rightarrow> string \<Rightarrow> string list option checked" where
  "as_string_array v at' =
     (case v of
        Some (JArr js) \<Rightarrow>
          (case strings_of_json js of
             Some ss \<Rightarrow> fine (Some ss)
           | None \<Rightarrow> wrong None (at' @ '' must be a string array''))
      | _ \<Rightarrow> wrong None (at' @ '' must be a string array''))"

definition as_optional_string_array :: "json option \<Rightarrow> string \<Rightarrow> string list option checked" where
  "as_optional_string_array v at' = (if present v then as_string_array v at' else fine None)"

text \<open>A value that is an integer, as \<open>Number.isInteger\<close> reads it.\<close>

definition integer_of :: "json option \<Rightarrow> int option" where
  "integer_of v = (case v of Some (JNum r) \<Rightarrow> if r = of_int \<lfloor>r\<rfloor> then Some \<lfloor>r\<rfloor> else None | _ \<Rightarrow> None)"

section \<open>Effects and decisions\<close>

definition VALID_EFFECTS :: "(string \<times> decision_effect) list" where
  "VALID_EFFECTS = [(''allow'', ALLOW), (''ask'', ASK), (''deny'', DENY)]"

definition RENAMED_EFFECTS :: "(string \<times> string) list" where
  "RENAMED_EFFECTS =
     [(''block'', ''deny''), (''withhold'', ''deny''), (''require_approval'', ''ask''), (''escalate'', ''ask'')]"

definition VALID_MODES :: "(string \<times> policy_mode) list" where
  "VALID_MODES = [(''enforce'', PM_ENFORCE), (''observe'', PM_OBSERVE)]"

definition VALID_SCOPE_MATCHES :: "(string \<times> scope_match) list" where
  "VALID_SCOPE_MATCHES =
     [(''in_scope'', IN_SCOPE), (''out_of_scope'', OUT_OF_SCOPE), (''undeclared'', UNDECLARED)]"

definition quote_mark :: char where "quote_mark = CHR 0x22"

definition validate_effect :: "json option \<Rightarrow> string \<Rightarrow> decision_effect option checked" where
  "validate_effect v at' =
     (case v of
        Some (JStr s) \<Rightarrow>
          (case map_of VALID_EFFECTS s of
             Some e \<Rightarrow> fine (Some e)
           | None \<Rightarrow>
               (case map_of RENAMED_EFFECTS s of
                  Some now \<Rightarrow> wrong None (at' @ '': '' @ [quote_mark] @ s @ [quote_mark] @ '' is now '' @
                    [quote_mark] @ now @ [quote_mark])
                | None \<Rightarrow> wrong None (at' @ '' must be one of: '' @ join_with '', '' (map fst VALID_EFFECTS))))
      | _ \<Rightarrow> wrong None (at' @ '' must be one of: '' @ join_with '', '' (map fst VALID_EFFECTS)))"

definition as_optional_mode :: "json option \<Rightarrow> string \<Rightarrow> policy_mode option checked" where
  "as_optional_mode v at' =
     (if \<not> present v then fine None
      else case v of
        Some (JStr s) \<Rightarrow>
          (case map_of VALID_MODES s of
             Some m \<Rightarrow> fine (Some m)
           | None \<Rightarrow> wrong None (at' @ '' must be one of: '' @ join_with '', '' (map fst VALID_MODES)))
      | _ \<Rightarrow> wrong None (at' @ '' must be one of: '' @ join_with '', '' (map fst VALID_MODES)))"

definition as_optional_rate_limit :: "json option \<Rightarrow> string \<Rightarrow> rate_limit_spec option checked" where
  "as_optional_rate_limit v at' =
     (if \<not> present v then fine None
      else then_check (as_record v at') (\<lambda>raw. case raw of
        None \<Rightarrow> fine None
      | Some o' \<Rightarrow>
          (case (integer_of (map_of o' ''max''), integer_of (map_of o' ''windowSeconds'')) of
             (Some m, Some w) \<Rightarrow>
               if m > 0 \<and> w > 0 then fine (Some \<lparr>rl_max = nat m, rl_window_seconds = nat w\<rparr>)
               else wrong None (at' @ '' must be { max, windowSeconds } with positive integers'')
           | _ \<Rightarrow> wrong None (at' @ '' must be { max, windowSeconds } with positive integers''))))"

definition as_optional_quorum :: "json option \<Rightarrow> string \<Rightarrow> nat option checked" where
  "as_optional_quorum v at' =
     (if v = None then fine None
      else case integer_of v of
        Some n \<Rightarrow> if n < 1 then wrong None (at' @ '' must be an integer of at least 1'') else fine (Some (nat n))
      | None \<Rightarrow> wrong None (at' @ '' must be an integer of at least 1''))"

definition as_optional_threshold :: "json option \<Rightarrow> string \<Rightarrow> rat option checked" where
  "as_optional_threshold v at' =
     (if v = None then fine None
      else case v of
        Some (JNum r) \<Rightarrow> if r < 0 then wrong None (at' @ '' must be a number of at least 0'') else fine (Some r)
      | _ \<Rightarrow> wrong None (at' @ '' must be a number of at least 0''))"

definition as_optional_alternative :: "json option \<Rightarrow> string \<Rightarrow> alternative option checked" where
  "as_optional_alternative v at' =
     (if \<not> present v then fine None
      else then_check (as_record v at') (\<lambda>raw. case raw of
        None \<Rightarrow> fine None
      | Some o' \<Rightarrow>
          (case map_of o' ''action'' of
             Some (JStr (a # as)) \<Rightarrow>
               (case map_of o' ''note'' of
                  Some (JStr (n # ns)) \<Rightarrow>
                    (case map_of o' ''resource'' of
                       None \<Rightarrow> fine (Some \<lparr>al_action = a # as, al_resource = None, al_note = n # ns\<rparr>)
                     | Some (JStr r) \<Rightarrow> fine (Some \<lparr>al_action = a # as, al_resource = Some r, al_note = n # ns\<rparr>)
                     | Some _ \<Rightarrow> wrong None (at' @ ''.resource must be a string''))
                | _ \<Rightarrow> wrong None (at' @ ''.note is required, because it is what the agent reads''))
           | _ \<Rightarrow> wrong None (at' @ ''.action is required''))))"

text \<open>The decision but for its effect and its approvers, which are read first.\<close>

definition string_field :: "(string \<times> json) list \<Rightarrow> string \<Rightarrow> string option" where
  "string_field o' field = (case map_of o' field of Some (JStr s) \<Rightarrow> Some s | _ \<Rightarrow> None)"

definition validate_decision ::
  "(string \<times> json) list \<Rightarrow> string \<Rightarrow> decision_effect \<Rightarrow> string list option \<Rightarrow> policy_decision checked" where
  "validate_decision decision at' effect approvers =
     (let (relaxes, i1) = as_optional_string_array (map_of decision ''relaxes'') (at' @ ''.relaxes'');
          i2 = (if relaxes \<noteq> None \<and> effect \<noteq> ALLOW then [at' @ ''.relaxes is only for an allow''] else []);
          (quorum, i3) = as_optional_quorum (map_of decision ''minApprovals'') (at' @ ''.minApprovals'');
          (mode, i4) = as_optional_mode (map_of decision ''mode'') (at' @ ''.mode'');
          (limit, i5) = as_optional_rate_limit (map_of decision ''rateLimit'') (at' @ ''.rateLimit'');
          (alternative, i6) = as_optional_alternative (map_of decision ''alternative'') (at' @ ''.alternative'')
      in (\<lparr>pd_effect = effect, pd_reason = string_field decision ''reason'', pd_approvers = approvers,
           pd_min_approvals = quorum, pd_mode = mode, pd_rate_limit = limit, pd_alternative = alternative,
           pd_relaxes = relaxes\<rparr>, i1 @ i2 @ i3 @ i4 @ i5 @ i6))"

section \<open>What a rule matches\<close>

definition index_path :: "string \<Rightarrow> nat \<Rightarrow> string" where
  "index_path at' i = at' @ ''['' @ nat_text i @ '']''"

definition as_content_patterns :: "json option \<Rightarrow> string \<Rightarrow> string list option checked" where
  "as_content_patterns v at' =
     then_check (as_optional_string_array v at') (\<lambda>patterns.
       if patterns = Some [] then wrong None (at' @ '' must name at least one pattern'') else fine patterns)"

definition as_carve_out :: "json \<Rightarrow> string \<Rightarrow> policy_carve_out option checked" where
  "as_carve_out raw at' =
     then_check (as_record (Some raw) at') (\<lambda>record'. case record' of
       None \<Rightarrow> fine None
     | Some o' \<Rightarrow>
         (let project = map_of o' ''project'' in
          if (case project of None \<Rightarrow> False | Some (JStr s) \<Rightarrow> s = [] | Some _ \<Rightarrow> True)
          then wrong None (at' @ ''.project must be a non-empty string when present'')
          else
            then_check (as_optional_string_array (map_of o' ''agents'') (at' @ ''.agents'')) (\<lambda>agents.
            then_check (as_optional_string_array (map_of o' ''workingDirectories'') (at' @ ''.workingDirectories''))
              (\<lambda>dirs.
                 if project = None \<and> agents = None \<and> dirs = None
                 then wrong None (at' @ '' must name a project, agents or workingDirectories'')
                 else fine (Some \<lparr>co_project = string_field o' ''project'', co_agents = agents,
                   co_working_directories = dirs\<rparr>)))))"

definition somes :: "'a option list \<Rightarrow> 'a list" where
  "somes xs = concat (map (\<lambda>x. case x of None \<Rightarrow> [] | Some y \<Rightarrow> [y]) xs)"

definition as_optional_carve_outs :: "json option \<Rightarrow> string \<Rightarrow> policy_carve_out list option checked" where
  "as_optional_carve_outs v at' =
     (if \<not> present v then fine None
      else case v of
        Some (JArr js) \<Rightarrow>
          then_check (check_each (\<lambda>i raw. as_carve_out raw (index_path at' i)) 0 js)
            (\<lambda>carves. fine (if somes carves = [] then None else Some (somes carves)))
      | _ \<Rightarrow> wrong None (at' @ '' must be an array''))"

definition as_optional_scope :: "json option \<Rightarrow> string \<Rightarrow> scope_match list option checked" where
  "as_optional_scope v at' =
     (if \<not> present v then fine None
      else case v of
        Some (JArr (j # js)) \<Rightarrow>
          (let entries = map (\<lambda>e. case e of JStr s \<Rightarrow> map_of VALID_SCOPE_MATCHES s | _ \<Rightarrow> None) (j # js)
           in if list_ex (\<lambda>e. e = None) entries
              then wrong None (at' @ '' entries must be one of: '' @ join_with '', '' (map fst VALID_SCOPE_MATCHES))
              else fine (Some (somes entries)))
      | _ \<Rightarrow> wrong None (at' @ '' must be a non-empty array''))"

definition as_argument :: "string \<Rightarrow> string \<times> json \<Rightarrow> (string \<times> string list) option checked" where
  "as_argument at' entry =
     (let (name, value) = entry in
      then_check (as_string_array (Some value) (at' @ ''.'' @ name)) (\<lambda>patterns. case patterns of
        None \<Rightarrow> fine None
      | Some [] \<Rightarrow> wrong None (at' @ ''.'' @ name @ '' must be a non-empty string array'')
      | Some (p # ps) \<Rightarrow> fine (Some (name, p # ps))))"

text \<open>
  \<open>patterns[name] = list\<close> on a plain object: under the name \<open>__proto__\<close> it sets what the object
  inherits from, and makes no entry.
\<close>

definition PROTO :: string where "PROTO = ''__proto__''"

definition set_patterns :: "(string \<times> string list) list \<Rightarrow> (string \<times> string list) list" where
  "set_patterns entries =
     foldl (\<lambda>patterns (name, ps). if name = PROTO then patterns else AList.update name ps patterns) [] entries"

definition as_optional_argument_patterns ::
  "json option \<Rightarrow> string \<Rightarrow> (string \<times> string list) list option checked" where
  "as_optional_argument_patterns v at' =
     (if \<not> present v then fine None
      else then_check (as_record v at') (\<lambda>raw. case raw of
        None \<Rightarrow> fine None
      | Some [] \<Rightarrow> wrong None (at' @ '' must name at least one argument'')
      | Some (e # es) \<Rightarrow>
          then_check (check_each (\<lambda>i. as_argument at') 0 (e # es)) (\<lambda>entries.
            let patterns = set_patterns (somes entries)
            in fine (if patterns = [] then None else Some patterns))))"

definition time_window_of :: "(string \<times> json) list \<Rightarrow> time_window" where
  "time_window_of o' =
     \<lparr>tw_days = (case map_of o' ''days'' of
        Some (JArr js) \<Rightarrow> Some (map (\<lambda>j. the (integer_of (Some j))) js) | _ \<Rightarrow> None),
      tw_start_hour = the (integer_of (map_of o' ''startHour'')),
      tw_end_hour = the (integer_of (map_of o' ''endHour'')),
      tw_utc_offset_minutes = integer_of (map_of o' ''utcOffsetMinutes'')\<rparr>"

definition as_window :: "json \<Rightarrow> string \<Rightarrow> time_window option checked" where
  "as_window entry at' =
     then_check (as_record (Some entry) at') (\<lambda>raw. case raw of
       None \<Rightarrow> fine None
     | Some o' \<Rightarrow>
         if is_valid_time_window (JObj o') then fine (Some (time_window_of o'))
         else wrong None (at' @ '' needs startHour 0-23, endHour 1-24, days 0-6 when present, '' @
           ''and utcOffsetMinutes -840 to 840 when present''))"

definition as_optional_windows :: "json option \<Rightarrow> string \<Rightarrow> time_window list option checked" where
  "as_optional_windows v at' =
     (if v = None then fine None
      else case v of
        Some (JArr (j # js)) \<Rightarrow>
          then_check (check_each (\<lambda>i entry. as_window entry (index_path at' i)) 0 (j # js)) (\<lambda>windows.
            fine (if list_ex (\<lambda>w. w = None) windows then None else Some (somes windows)))
      | _ \<Rightarrow> wrong None (at' @ '' must be a non-empty array''))"

definition PATTERN_FIELDS :: "string list" where
  "PATTERN_FIELDS =
     [''targets'', ''environments'', ''agents'', ''roles'', ''principals'', ''models'', ''providers'',
      ''dataClassifications'', ''jurisdictions'', ''workingDirectories'', ''branches'', ''classes'', ''capabilities'']"

definition validate_patterns :: "(string \<times> json) list \<Rightarrow> string \<Rightarrow> string list option list checked" where
  "validate_patterns m at' =
     check_each (\<lambda>i field. as_optional_string_array (map_of m field) (at' @ ''.'' @ field)) 0 PATTERN_FIELDS"

definition validate_match :: "(string \<times> json) list \<Rightarrow> string list \<Rightarrow> string \<Rightarrow> policy_match checked" where
  "validate_match m actions at' =
     (let (ps, i1) = validate_patterns m at';
          (args, i2) = as_optional_argument_patterns (map_of m ''arguments'') (at' @ ''.arguments'');
          (above, i3) = as_optional_threshold (map_of m ''aboveAmount'') (at' @ ''.aboveAmount'');
          (windows, i4) = as_optional_windows (map_of m ''windows'') (at' @ ''.windows'');
          (scope, i5) = as_optional_scope (map_of m ''scope'') (at' @ ''.scope'');
          (state, i6) = as_optional_string_array (map_of m ''state'') (at' @ ''.state'');
          (content, i7) = as_content_patterns (map_of m ''content'') (at' @ ''.content'');
          (unless, i8) = as_optional_carve_outs (map_of m ''unless'') (at' @ ''.unless'')
      in (\<lparr>pm_actions = actions, pm_targets = ps ! 0, pm_environments = ps ! 1, pm_agents = ps ! 2,
           pm_roles = ps ! 3, pm_principals = ps ! 4, pm_models = ps ! 5, pm_providers = ps ! 6,
           pm_data_classifications = ps ! 7, pm_jurisdictions = ps ! 8, pm_working_directories = ps ! 9,
           pm_branches = ps ! 10, pm_classes = ps ! 11, pm_capabilities = ps ! 12, pm_arguments = args,
           pm_content = content, pm_above_amount = above, pm_windows = windows, pm_scope = scope,
           pm_state = state, pm_unless = unless\<rparr>,
          i1 @ i2 @ i3 @ i4 @ i5 @ i6 @ i7 @ i8))"

section \<open>A rule and a document\<close>

text \<open>Where a rule came from (\<open>policy-provenance.ts\<close>).\<close>

definition provenance_text :: "(string \<times> json) list \<Rightarrow> string \<Rightarrow> string \<Rightarrow> string option checked" where
  "provenance_text raw at' field =
     (let v = map_of raw field
      in if \<not> present v then fine None
         else case v of
                Some (JStr (c # cs)) \<Rightarrow> fine (Some (c # cs))
              | _ \<Rightarrow> wrong None (at' @ ''.'' @ field @ '' must be a non-empty string when present''))"

definition provenance_of :: "(string \<times> json) list \<Rightarrow> string \<Rightarrow> policy \<Rightarrow> policy checked" where
  "provenance_of raw at' p =
     (let (project, i1) = provenance_text raw at' ''project'';
          (decided_by, i2) = provenance_text raw at' ''decidedBy'';
          (decided_at, i3) = provenance_text raw at' ''decidedAt''
      in (p\<lparr>p_project := project, p_workspace := (map_of raw ''workspace'' = Some (JBool True)),
            p_decided_by := decided_by, p_decided_at := decided_at\<rparr>, i1 @ i2 @ i3))"

definition policy_of_parts ::
  "(string \<times> json) list \<Rightarrow> string \<Rightarrow> string \<Rightarrow> (string \<times> json) list \<Rightarrow> string list \<Rightarrow>
     (string \<times> json) list \<Rightarrow> decision_effect \<Rightarrow> policy checked" where
  "policy_of_parts raw at' name m actions decision effect =
     (let (approvers, i1) = as_optional_string_array (map_of decision ''approvers'') (at' @ ''.decision.approvers'');
          (pm, i2) = validate_match m actions (at' @ ''.match'');
          (pd, i3) = validate_decision decision (at' @ ''.decision'') effect approvers;
          (p, i4) = provenance_of raw at' ((plain_policy name pm pd)\<lparr>p_description := string_field raw ''description''\<rparr>)
      in (p, i1 @ i2 @ i3 @ i4))"

definition validate_policy :: "json \<Rightarrow> string \<Rightarrow> policy option checked" where
  "validate_policy v at' =
     then_check (as_record (Some v) at') (\<lambda>raw'. case raw' of
       None \<Rightarrow> fine None
     | Some raw \<Rightarrow>
         (let (name, i1) = as_non_empty_string (map_of raw ''name'') (at' @ ''.name'');
              (m, i2) = as_record (map_of raw ''match'') (at' @ ''.match'');
              (decision, i3) = as_record (map_of raw ''decision'') (at' @ ''.decision'')
          in case (name, m, decision) of
               (Some n, Some mo, Some d) \<Rightarrow>
                 then_check (None, i1 @ i2 @ i3) (\<lambda>_ :: policy option.
                 then_check (as_string_array (map_of mo ''actions'') (at' @ ''.match.actions'')) (\<lambda>actions.
                   if actions = None \<or> actions = Some []
                   then wrong None (at' @ ''.match.actions must be a non-empty string array'')
                   else then_check (validate_effect (map_of d ''effect'') (at' @ ''.decision.effect'')) (\<lambda>effect.
                     case effect of
                       None \<Rightarrow> fine None
                     | Some e \<Rightarrow>
                         (let (p, issues) = policy_of_parts raw at' n mo (the actions) d e in (Some p, issues)))))
             | _ \<Rightarrow> (None, i1 @ i2 @ i3)))"

definition POLICY_DOCUMENT_VERSION :: int where "POLICY_DOCUMENT_VERSION = 1"

definition validate_project :: "json option \<Rightarrow> string option checked" where
  "validate_project v =
     (if \<not> present v then fine None
      else case v of
        Some (JStr s) \<Rightarrow>
          if trim s = []
          then wrong None ([quote_mark] @ ''project'' @ [quote_mark] @ '' must be a non-empty string when present'')
          else fine (Some (trim s))
      | _ \<Rightarrow> wrong None ([quote_mark] @ ''project'' @ [quote_mark] @ '' must be a non-empty string when present''))"

fun validate_policies :: "nat \<Rightarrow> string list \<Rightarrow> json list \<Rightarrow> policy list checked" where
  "validate_policies i seen [] = fine []"
| "validate_policies i seen (raw # raws) =
     (let (policy, issues) = validate_policy raw (''policies['' @ nat_text i @ '']'')
      in case policy of
           None \<Rightarrow> (let (ps, later) = validate_policies (Suc i) seen raws in (ps, issues @ later))
         | Some p \<Rightarrow>
             (let duplicate = (if p_name p \<in> set seen
                    then [''duplicate policy name '' @ [quote_mark] @ p_name p @ [quote_mark]] else []);
                  (ps, later) = validate_policies (Suc i) (p_name p # seen) raws
              in (p # ps, issues @ duplicate @ later)))"

record policy_document =
  doc_project :: "string option"
  doc_policies :: "policy list"

text \<open>\<open>Inl\<close> are the issues a \<open>PolicyValidationError\<close> carries.\<close>

definition validate_policy_document :: "json \<Rightarrow> string list + policy_document" where
  "validate_policy_document input =
     (case input of
        JObj doc \<Rightarrow>
          (let i1 = (if map_of doc ''version'' = Some (JNum (of_int POLICY_DOCUMENT_VERSION)) then []
                 else [[quote_mark] @ ''version'' @ [quote_mark] @ '' must be '' @ int_text POLICY_DOCUMENT_VERSION]);
               (project, i2) = validate_project (map_of doc ''project'');
               (raws, i3) = (case map_of doc ''policies'' of
                    Some (JArr js) \<Rightarrow> (js, [])
                  | _ \<Rightarrow> ([], [[quote_mark] @ ''policies'' @ [quote_mark] @ '' must be an array'']));
               (policies, i4) = validate_policies 0 [] raws;
               issues = i1 @ i2 @ i3 @ i4
           in if issues \<noteq> [] then Inl issues else Inr \<lparr>doc_project = project, doc_policies = policies\<rparr>)
      | _ \<Rightarrow> Inl [''document must be an object''])"

section \<open>The workspace's published rules\<close>

record published_rule =
  pr_id :: string
  pr_effect :: string
  pr_match :: string
  pr_scoped_match :: "string option"
  pr_actions :: "string list option"
  pr_conditions :: "(string \<times> json) list option"
  pr_reason :: "string option"
  pr_alternative :: "string option"
  pr_targets :: "string list option"
  pr_agents :: "string list option"
  pr_working_directories :: "string list option"
  pr_unless :: "json list option"
  pr_decision :: "(string \<times> json) list option"
  pr_machine_classes :: "string list option"
  pr_project :: "string option"

definition MACHINE_CLASSES :: string where "MACHINE_CLASSES = ''machineClasses''"

definition HONOURED_CONDITIONS :: "string list" where
  "HONOURED_CONDITIONS =
     [''environments'', ''roles'', ''principals'', ''models'', ''providers'', ''dataClassifications'',
      ''jurisdictions'', ''branches'', ''arguments'', ''content'', ''aboveAmount'', ''windows'', ''scope'',
      ''state'', ''unless'']"

definition conditions_of :: "published_rule \<Rightarrow> (string \<times> json) list" where
  "conditions_of rule = filter (\<lambda>(k, v). k \<noteq> MACHINE_CLASSES) (or_else (pr_conditions rule) [])"

definition holds_on :: "published_rule \<Rightarrow> string option \<Rightarrow> bool" where
  "holds_on rule machine_class =
     (let listed = map_of (or_else (pr_conditions rule) []) MACHINE_CLASSES;
          classes = or_else (pr_machine_classes rule) [] @
            (case listed of Some (JArr js) \<Rightarrow> somes (map string_of_json js) | _ \<Rightarrow> [])
      in classes = [] \<or> (case machine_class of None \<Rightarrow> False | Some c \<Rightarrow> c \<in> set classes))"

definition actions_of :: "published_rule \<Rightarrow> string list" where
  "actions_of rule =
     (case pr_actions rule of
        Some (a # as) \<Rightarrow> a # as
      | _ \<Rightarrow> [or_else (pr_scoped_match rule) (pr_match rule)])"

definition json_texts :: "string list \<Rightarrow> json" where
  "json_texts ss = JArr (map JStr ss)"

definition scope_fields :: "published_rule \<Rightarrow> (string \<times> json) list" where
  "scope_fields rule =
     (let own = (case map_of (or_else (pr_conditions rule) []) ''unless'' of Some (JArr js) \<Rightarrow> js | _ \<Rightarrow> []);
          unless = own @ or_else (pr_unless rule) []
      in (case pr_targets rule of None \<Rightarrow> [] | Some ts \<Rightarrow> [(''targets'', json_texts ts)]) @
         (case pr_agents rule of None \<Rightarrow> [] | Some as \<Rightarrow> [(''agents'', json_texts as)]) @
         (case pr_working_directories rule of None \<Rightarrow> [] | Some ds \<Rightarrow> [(''workingDirectories'', json_texts ds)]) @
         (if unless = [] then [] else [(''unless'', JArr unless)]))"

text \<open>\<open>{ ...first, ...second }\<close>.\<close>

definition spread :: "(string \<times> json) list \<Rightarrow> (string \<times> json) list \<Rightarrow> (string \<times> json) list" where
  "spread first second = foldl (\<lambda>o' (k, v). AList.update k v o') first second"

definition PUBLISHED_REASON :: string where "PUBLISHED_REASON = ''the workspace publishes this rule''"

definition decision_fields :: "published_rule \<Rightarrow> (string \<times> json) list" where
  "decision_fields rule =
     (let published = or_else (pr_decision rule) [(''effect'', JStr (pr_effect rule))];
          whole = (case map_of published ''alternative'' of
             Some (JStr (c # cs)) \<Rightarrow> Some (c # cs) | _ \<Rightarrow> pr_alternative rule)
      in [(''effect'', JStr (or_else (string_field published ''effect'') (pr_effect rule))),
          (''reason'', JStr (or_else (pr_reason rule) PUBLISHED_REASON))] @
         (case whole of None \<Rightarrow> []
          | Some w \<Rightarrow> [(''alternative'', JObj [(''action'', JStr w), (''note'', JStr w)])]) @
         (case map_of published ''approvers'' of
            Some (JArr js) \<Rightarrow> (case strings_of_json js of Some ss \<Rightarrow> [(''approvers'', json_texts ss)] | None \<Rightarrow> [])
          | _ \<Rightarrow> []) @
         (case integer_of (map_of published ''minApprovals'') of
            Some n \<Rightarrow> if n > 0 then [(''minApprovals'', JNum (of_int n))] else []
          | None \<Rightarrow> []) @
         (case string_field published ''mode'' of None \<Rightarrow> [] | Some m \<Rightarrow> [(''mode'', JStr m)]))"

definition published_policy :: "published_rule \<Rightarrow> json" where
  "published_policy rule =
     JObj ([(''name'', JStr (pr_id rule))] @
       (case pr_reason rule of None \<Rightarrow> [] | Some r \<Rightarrow> [(''description'', JStr r)]) @
       [(''match'', JObj (spread (spread (conditions_of rule) [(''actions'', json_texts (actions_of rule))])
           (scope_fields rule))),
        (''decision'', JObj (decision_fields rule)), (''workspace'', JBool True)] @
       (case pr_project rule of None \<Rightarrow> [] | Some p \<Rightarrow> [(''project'', JStr p)]))"

definition honoured :: "published_rule \<Rightarrow> bool" where
  "honoured rule \<longleftrightarrow> list_all (\<lambda>(k, v). k \<in> set HONOURED_CONDITIONS) (conditions_of rule)"

definition policies_from_bundle :: "published_rule list \<Rightarrow> string option \<Rightarrow> string list + policy list" where
  "policies_from_bundle rules' machine_class =
     (case validate_policy_document (JObj [(''version'', JNum 1),
         (''policies'', JArr (map published_policy (filter (\<lambda>rule. honoured rule \<and> holds_on rule machine_class) rules')))]) of
        Inl issues \<Rightarrow> Inl issues
      | Inr doc \<Rightarrow> Inr (doc_policies doc))"

section \<open>What is read is well formed\<close>

text \<open>What the checks promise of a rule that was read without an issue.\<close>

definition well_formed_window :: "time_window \<Rightarrow> bool" where
  "well_formed_window w \<longleftrightarrow>
     0 \<le> tw_start_hour w \<and> tw_start_hour w \<le> 23 \<and> 1 \<le> tw_end_hour w \<and> tw_end_hour w \<le> 24 \<and>
     (case tw_days w of None \<Rightarrow> True | Some ds \<Rightarrow> ds \<noteq> [] \<and> list_all (\<lambda>d. 0 \<le> d \<and> d \<le> 6) ds) \<and>
     (case tw_utc_offset_minutes w of None \<Rightarrow> True | Some m \<Rightarrow> - 840 \<le> m \<and> m \<le> 840)"

definition well_formed_carve_out :: "policy_carve_out \<Rightarrow> bool" where
  "well_formed_carve_out c \<longleftrightarrow>
     co_project c \<noteq> Some [] \<and>
     (co_project c \<noteq> None \<or> co_agents c \<noteq> None \<or> co_working_directories c \<noteq> None)"

definition well_formed_arguments :: "(string \<times> string list) list \<Rightarrow> bool" where
  "well_formed_arguments args \<longleftrightarrow>
     args \<noteq> [] \<and> distinct (map fst args) \<and> list_all (\<lambda>(name, ps). name \<noteq> PROTO \<and> ps \<noteq> []) args"

definition well_formed_match :: "policy_match \<Rightarrow> bool" where
  "well_formed_match m \<longleftrightarrow>
     pm_actions m \<noteq> [] \<and> pm_content m \<noteq> Some [] \<and>
     (case pm_arguments m of None \<Rightarrow> True | Some args \<Rightarrow> well_formed_arguments args) \<and>
     (case pm_above_amount m of None \<Rightarrow> True | Some r \<Rightarrow> 0 \<le> r) \<and>
     (case pm_windows m of None \<Rightarrow> True | Some ws \<Rightarrow> ws \<noteq> [] \<and> list_all well_formed_window ws) \<and>
     pm_scope m \<noteq> Some [] \<and>
     (case pm_unless m of None \<Rightarrow> True | Some cs \<Rightarrow> cs \<noteq> [] \<and> list_all well_formed_carve_out cs)"

definition well_formed_decision :: "policy_decision \<Rightarrow> bool" where
  "well_formed_decision d \<longleftrightarrow>
     (pd_relaxes d \<noteq> None \<longrightarrow> pd_effect d = ALLOW) \<and> pd_min_approvals d \<noteq> Some 0 \<and>
     (case pd_rate_limit d of None \<Rightarrow> True | Some l \<Rightarrow> rl_max l > 0 \<and> rl_window_seconds l > 0) \<and>
     (case pd_alternative d of None \<Rightarrow> True | Some a \<Rightarrow> al_action a \<noteq> [] \<and> al_note a \<noteq> [])"

definition well_formed_policy :: "policy \<Rightarrow> bool" where
  "well_formed_policy p \<longleftrightarrow>
     p_id p = None \<and> p_name p \<noteq> [] \<and> trim (p_name p) = p_name p \<and>
     p_project p \<noteq> Some [] \<and> p_decided_by p \<noteq> Some [] \<and> p_decided_at p \<noteq> Some [] \<and>
     well_formed_match (p_match p) \<and> well_formed_decision (p_decision p)"

lemma fine_issues [simp]: "snd (fine x) = []" "fst (fine x) = x"
  by (simp_all add: fine_def)

lemma wrong_issues [simp]: "snd (wrong x issue) = [issue]" "fst (wrong x issue) = x"
  by (simp_all add: wrong_def)

lemma then_check_parts:
  "fst (then_check c f) = fst (f (fst c))" "snd (then_check c f) = snd c @ snd (f (fst c))"
  by (simp_all add: then_check_def Let_def split: prod.splits)

lemma check_each_parts:
  "fst (check_each f i xs) = map (\<lambda>(j, x). fst (f j x)) (enumerate i xs)"
  "snd (check_each f i xs) = concat (map (\<lambda>(j, x). snd (f j x)) (enumerate i xs))"
  by (induction xs arbitrary: i) (simp_all add: Let_def case_prod_beta fine_def)

declare check_each.simps [simp del]

lemma set_somes: "x \<in> set (somes xs) \<longleftrightarrow> Some x \<in> set xs"
  by (auto simp: somes_def split: option.splits)

lemma integer_of_range:
  "is_int_in v lo hi \<longleftrightarrow> (\<exists>n. integer_of (Some v) = Some n \<and> lo \<le> n \<and> n \<le> hi)"
  by (auto simp: is_int_in_def integer_of_def split: json.splits)

lemma integer_in_range:
  "is_int_in v lo hi \<Longrightarrow> lo \<le> the (integer_of (Some v)) \<and> the (integer_of (Some v)) \<le> hi"
  by (auto simp: integer_of_range)

lemma integer_of_None [simp]: "integer_of None = None"
  by (simp add: integer_of_def)

lemma well_formed_time_window_of:
  assumes "is_valid_time_window (JObj o')"
  shows "well_formed_window (time_window_of o')"
proof -
  note units = HOURS_IN_A_DAY_def DAYS_PER_WEEK_def MIN_UTC_OFFSET_MINUTES_def MAX_UTC_OFFSET_MINUTES_def
    MINUTES_PER_HOUR_60
  note valid = assms [unfolded is_valid_time_window_def units, simplified]
  have hours: "\<exists>s e. map_of o' ''startHour'' = Some s \<and> map_of o' ''endHour'' = Some e \<and>
      is_int_in s 0 23 \<and> is_int_in e 1 24"
    using valid by (auto simp: Let_def split: option.splits)
  have days: "\<exists>ds. map_of o' ''days'' = Some (JArr ds) \<and> ds \<noteq> [] \<and> list_all (\<lambda>d. is_int_in d 0 6) ds"
    if "map_of o' ''days'' \<noteq> None"
    using valid that by (auto simp: Let_def split: option.splits json.splits)
  have offset: "\<exists>m. map_of o' ''utcOffsetMinutes'' = Some m \<and> is_int_in m (- 840) 840"
    if "map_of o' ''utcOffsetMinutes'' \<noteq> None"
    using valid that by (auto simp: Let_def split: option.splits)
  have on_days: "\<exists>ds. map_of o' ''days'' = Some (JArr ds) \<and> ds \<noteq> [] \<and>
      (\<forall>d\<in>set ds. 0 \<le> the (integer_of (Some d)) \<and> the (integer_of (Some d)) \<le> 6)"
    if "map_of o' ''days'' \<noteq> None"
    using days [OF that] unfolding list_all_iff by (meson integer_in_range)
  show ?thesis
    using hours on_days offset integer_in_range [of _ 0 23] integer_in_range [of _ 1 24]
    by (cases "map_of o' ''days''"; cases "map_of o' ''utcOffsetMinutes''")
      (auto simp: well_formed_window_def time_window_of_def list_all_iff integer_of_range [of _ "- 840"])
qed

lemma AList_update_subset: "set (AList.update k v al) \<subseteq> insert (k, v) (set al)"
  by (induction al) auto

lemma set_patterns_well_formed:
  assumes "\<forall>(name, ps)\<in>set entries. ps \<noteq> []"
  shows "distinct (map fst (set_patterns entries)) \<and>
    list_all (\<lambda>(name, ps). name \<noteq> PROTO \<and> ps \<noteq> []) (set_patterns entries)"
proof -
  have "distinct (map fst acc) \<and> list_all (\<lambda>(name, ps). name \<noteq> PROTO \<and> ps \<noteq> []) acc \<Longrightarrow>
      distinct (map fst (foldl (\<lambda>patterns (name, ps). if name = PROTO then patterns else AList.update name ps patterns) acc entries)) \<and>
      list_all (\<lambda>(name, ps). name \<noteq> PROTO \<and> ps \<noteq> [])
        (foldl (\<lambda>patterns (name, ps). if name = PROTO then patterns else AList.update name ps patterns) acc entries)"
    for acc
    using assms
  proof (induction entries arbitrary: acc)
    case (Cons e entries)
    obtain name ps where e: "e = (name, ps)" by (cases e)
    have "list_all (\<lambda>(name, ps). name \<noteq> PROTO \<and> ps \<noteq> []) (AList.update name ps acc)"
      if "name \<noteq> PROTO" "ps \<noteq> []"
      using that Cons.prems(1) AList_update_subset [of name ps acc] by (fastforce simp: list_all_iff)
    with Cons e show ?case by (auto simp: distinct_update)
  qed simp
  from this [of "[]"] show ?thesis by (simp add: set_patterns_def)
qed

lemma arguments_well_formed:
  "fst (as_optional_argument_patterns v at') = Some args \<Longrightarrow> well_formed_arguments args"
proof -
  have given: "Some (name, []) \<noteq> fst (as_argument at' entry)" for name entry
    by (cases entry)
      (auto simp: as_argument_def then_check_parts split: option.splits list.splits)
  assume "fst (as_optional_argument_patterns v at') = Some args"
  then obtain e es where "args = set_patterns (somes (fst (check_each (\<lambda>i. as_argument at') 0 (e # es))))" "args \<noteq> []"
    by (auto simp: as_optional_argument_patterns_def then_check_parts Let_def
      split: if_splits option.splits list.splits)
  moreover have "\<forall>(name, ps)\<in>set (somes (fst (check_each (\<lambda>i. as_argument at') 0 (e # es)))). ps \<noteq> []"
    by (auto simp: set_somes check_each_parts given)
  ultimately show "well_formed_arguments args"
    using set_patterns_well_formed by (simp add: well_formed_arguments_def)
qed

lemma content_well_formed: "fst (as_content_patterns v at') \<noteq> Some []"
  by (simp add: as_content_patterns_def then_check_parts)

lemma threshold_well_formed: "fst (as_optional_threshold v at') = Some r \<Longrightarrow> 0 \<le> r"
  by (auto simp: as_optional_threshold_def split: if_splits option.splits json.splits)

lemma window_well_formed: "fst (as_window entry at') = Some w \<Longrightarrow> well_formed_window w"
  by (auto simp: as_window_def then_check_parts well_formed_time_window_of split: option.splits if_splits)

lemma windows_well_formed:
  "fst (as_optional_windows v at') = Some ws \<Longrightarrow> ws \<noteq> [] \<and> list_all well_formed_window ws"
proof -
  assume "fst (as_optional_windows v at') = Some ws"
  then obtain j js where "\<not> list_ex (\<lambda>w. w = None) (fst (check_each (\<lambda>i entry. as_window entry (index_path at' i)) 0 (j # js)))"
    and ws: "ws = somes (fst (check_each (\<lambda>i entry. as_window entry (index_path at' i)) 0 (j # js)))"
    by (auto simp: as_optional_windows_def then_check_parts split: if_splits option.splits json.splits list.splits)
  then have "fst (as_window j (index_path at' 0)) \<noteq> None" by (auto simp: check_each_parts)
  then have "ws \<noteq> []" by (auto simp: ws check_each_parts somes_def)
  moreover have "list_all well_formed_window ws"
    by (auto simp: ws list_all_iff set_somes check_each_parts dest!: sym [of "Some _"] window_well_formed)
  ultimately show ?thesis by simp
qed

lemma scope_well_formed: "fst (as_optional_scope v at') \<noteq> Some []"
  by (auto simp: as_optional_scope_def somes_def Let_def split: if_splits option.splits json.splits list.splits)

lemma carve_out_well_formed: "fst (as_carve_out raw at') = Some c \<Longrightarrow> well_formed_carve_out c"
  by (auto simp: as_carve_out_def then_check_parts well_formed_carve_out_def string_field_def Let_def
    split: option.splits if_splits json.splits)

lemma carve_outs_well_formed:
  "fst (as_optional_carve_outs v at') = Some cs \<Longrightarrow> cs \<noteq> [] \<and> list_all well_formed_carve_out cs"
  by (auto simp: as_optional_carve_outs_def then_check_parts list_all_iff set_somes check_each_parts
    split: if_splits option.splits json.splits dest!: sym [of "Some _"] carve_out_well_formed)

lemma match_well_formed:
  "actions \<noteq> [] \<Longrightarrow> well_formed_match (fst (validate_match m actions at'))"
  using content_well_formed scope_well_formed
  by (auto simp: validate_match_def well_formed_match_def Let_def case_prod_beta
    split: option.splits dest: arguments_well_formed threshold_well_formed windows_well_formed carve_outs_well_formed)

lemma quorum_well_formed: "fst (as_optional_quorum v at') \<noteq> Some 0"
  by (auto simp: as_optional_quorum_def split: option.splits)

lemma rate_limit_well_formed:
  "fst (as_optional_rate_limit v at') = Some l \<Longrightarrow> rl_max l > 0 \<and> rl_window_seconds l > 0"
  by (auto simp: as_optional_rate_limit_def then_check_parts split: if_splits option.splits)

lemma alternative_well_formed:
  "fst (as_optional_alternative v at') = Some a \<Longrightarrow> al_action a \<noteq> [] \<and> al_note a \<noteq> []"
  by (auto simp: as_optional_alternative_def then_check_parts
    split: if_splits option.splits json.splits list.splits)

lemma decision_well_formed:
  "snd (validate_decision decision at' effect approvers) = [] \<Longrightarrow>
     well_formed_decision (fst (validate_decision decision at' effect approvers))"
  using quorum_well_formed
  by (auto simp: validate_decision_def well_formed_decision_def Let_def case_prod_beta
    split: option.splits if_splits dest: rate_limit_well_formed alternative_well_formed)

lemma provenance_well_formed: "fst (provenance_text raw at' field) \<noteq> Some []"
  by (auto simp: provenance_text_def Let_def split: option.splits json.splits list.splits)

lemma trim_again [simp]: "trim (trim s) = trim s"
  by (rule trim_trim)

lemma name_well_formed:
  "fst (as_non_empty_string v at') = Some name \<Longrightarrow> name \<noteq> [] \<and> trim name = name"
  by (auto simp: as_non_empty_string_def split: option.splits json.splits if_splits)

lemma policy_parts:
  assumes "fst (validate_policy v at') = Some p"
  obtains raw name m actions decision effect where
    "v = JObj raw" "fst (as_non_empty_string (map_of raw ''name'') (at' @ ''.name'')) = Some name"
    "map_of raw ''match'' = Some (JObj m)" "map_of raw ''decision'' = Some (JObj decision)"
    "fst (as_string_array (map_of m ''actions'') (at' @ ''.match.actions'')) = Some actions" "actions \<noteq> []"
    "fst (validate_effect (map_of decision ''effect'') (at' @ ''.decision.effect'')) = Some effect"
    "p = fst (policy_of_parts raw at' name m actions decision effect)"
    "snd (validate_policy v at') = [] \<Longrightarrow> snd (policy_of_parts raw at' name m actions decision effect) = []"
  using assms
  by (auto simp: validate_policy_def then_check_parts Let_def case_prod_beta as_record_def
    split: option.splits if_splits json.splits list.splits intro!: that)

lemma policy_well_formed:
  assumes "fst (validate_policy v at') = Some p" "snd (validate_policy v at') = []"
  shows "well_formed_policy p"
proof -
  from assms(1) obtain raw name m actions decision effect where
    name: "fst (as_non_empty_string (map_of raw ''name'') (at' @ ''.name'')) = Some name"
    and actions: "actions \<noteq> []"
    and p: "p = fst (policy_of_parts raw at' name m actions decision effect)"
    and quiet: "snd (policy_of_parts raw at' name m actions decision effect) = []"
    by (rule policy_parts) (use assms(2) in blast)
  from quiet have "snd (validate_decision decision (at' @ ''.decision'') effect
      (fst (as_optional_string_array (map_of decision ''approvers'') (at' @ ''.decision.approvers'')))) = []"
    by (simp add: policy_of_parts_def Let_def case_prod_beta)
  from decision_well_formed [OF this] match_well_formed [OF actions] name_well_formed [OF name] show ?thesis
    using provenance_well_formed
    by (simp add: p policy_of_parts_def well_formed_policy_def provenance_of_def plain_policy_def Let_def case_prod_beta)
qed

text \<open>A required field is read exactly where it leaves no issue.\<close>

lemma required_fields_quiet:
  "snd (as_record v at') = [] \<longleftrightarrow> fst (as_record v at') \<noteq> None"
  "snd (as_non_empty_string v at') = [] \<longleftrightarrow> fst (as_non_empty_string v at') \<noteq> None"
  "snd (as_string_array v at') = [] \<longleftrightarrow> fst (as_string_array v at') \<noteq> None"
  "snd (validate_effect v at') = [] \<longleftrightarrow> fst (validate_effect v at') \<noteq> None"
  by (simp_all add: as_record_def as_non_empty_string_def as_string_array_def validate_effect_def
    split: option.splits json.splits)

lemma policy_quiet:
  assumes "snd (validate_policy v at') = []"
  shows "fst (validate_policy v at') \<noteq> None"
proof -
  from assms obtain raw where v: "fst (as_record (Some v) at') = Some raw"
    by (auto simp: validate_policy_def then_check_parts required_fields_quiet)
  with assms obtain name m d where
    "fst (as_non_empty_string (map_of raw ''name'') (at' @ ''.name'')) = Some name"
    "fst (as_record (map_of raw ''match'') (at' @ ''.match'')) = Some m"
    "fst (as_record (map_of raw ''decision'') (at' @ ''.decision'')) = Some d"
    by (auto simp: validate_policy_def then_check_parts Let_def case_prod_beta required_fields_quiet
      split: option.splits)
  with v assms show ?thesis
    by (auto simp: validate_policy_def then_check_parts Let_def case_prod_beta required_fields_quiet
      split: option.splits if_splits)
qed

text \<open>The rules of a document: with no issue, each of the file's entries is one.\<close>

lemma policies_quiet:
  assumes "snd (validate_policies i seen raws) = []"
  shows "length (fst (validate_policies i seen raws)) = length raws \<and>
    list_all well_formed_policy (fst (validate_policies i seen raws)) \<and>
    distinct (map p_name (fst (validate_policies i seen raws))) \<and>
    p_name ` set (fst (validate_policies i seen raws)) \<inter> set seen = {}"
  using assms
proof (induction raws arbitrary: i seen)
  case (Cons raw raws)
  let ?at = "''policies['' @ nat_text i @ '']''"
  have "snd (validate_policy raw ?at) = []"
    using Cons.prems by (auto simp: Let_def case_prod_beta split: option.splits)
  then have "fst (validate_policy raw ?at) \<noteq> None" by (rule policy_quiet)
  then obtain p where p: "fst (validate_policy raw ?at) = Some p" by auto
  with Cons.prems have quiet: "snd (validate_policy raw ?at) = []" "p_name p \<notin> set seen"
    "snd (validate_policies (Suc i) (p_name p # seen) raws) = []"
    by (auto simp: Let_def case_prod_beta split: if_splits)
  from Cons.IH [OF quiet(3)] policy_well_formed [OF p quiet(1)] p quiet(2)
  show ?case by (auto simp: Let_def case_prod_beta)
qed simp

text \<open>
  Property C22. A document the validator accepts holds a rule for each entry of the file, every
  one well formed and no two of one name; anything else is refused whole.
\<close>
theorem validated_rules_are_well_formed:
  assumes "validate_policy_document input = Inr doc"
  shows "list_all well_formed_policy (doc_policies doc) \<and> distinct (map p_name (doc_policies doc)) \<and>
    (\<exists>entries raws. input = JObj entries \<and> map_of entries ''policies'' = Some (JArr raws) \<and>
       length (doc_policies doc) = length raws)"
proof -
  from assms obtain entries where input: "input = JObj entries"
    by (auto simp: validate_policy_document_def split: json.splits)
  with assms obtain raws where raws: "map_of entries ''policies'' = Some (JArr raws)"
    by (auto simp: validate_policy_document_def Let_def case_prod_beta split: option.splits json.splits if_splits)
  from assms have "doc_policies doc = fst (validate_policies 0 [] raws)" "snd (validate_policies 0 [] raws) = []"
    by (auto simp: input raws validate_policy_document_def Let_def case_prod_beta split: if_splits)
  with policies_quiet [of 0 "[]" raws] input raws show ?thesis by simp
qed

section \<open>A rule written is the rule read\<close>

text \<open>The fields of an object that are there.\<close>

definition fields_of :: "(string \<times> json option) list \<Rightarrow> (string \<times> json) list" where
  "fields_of kvs = concat (map (\<lambda>(k, v). case v of None \<Rightarrow> [] | Some j \<Rightarrow> [(k, j)]) kvs)"

lemma map_of_fields_of:
  "distinct (map fst kvs) \<Longrightarrow>
     map_of (fields_of kvs) k = (case map_of kvs k of None \<Rightarrow> None | Some v \<Rightarrow> v)"
proof (induction kvs)
  case (Cons kv kvs)
  obtain l v where kv: "kv = (l, v)" by (cases kv)
  have "map_of kvs l = None" using Cons.prems by (simp add: kv map_of_eq_None_iff)
  with Cons show ?case by (auto simp: fields_of_def kv split: option.splits)
qed (simp add: fields_of_def)

definition written_window :: "time_window \<Rightarrow> json" where
  "written_window w =
     JObj (fields_of
       [(''days'', map_option (\<lambda>ds. JArr (map (\<lambda>d. JNum (of_int d)) ds)) (tw_days w)),
        (''startHour'', Some (JNum (of_int (tw_start_hour w)))), (''endHour'', Some (JNum (of_int (tw_end_hour w)))),
        (''utcOffsetMinutes'', map_option (\<lambda>m. JNum (of_int m)) (tw_utc_offset_minutes w))])"

definition written_carve_out :: "policy_carve_out \<Rightarrow> json" where
  "written_carve_out c =
     JObj (fields_of
       [(''project'', map_option JStr (co_project c)), (''agents'', map_option json_texts (co_agents c)),
        (''workingDirectories'', map_option json_texts (co_working_directories c))])"

fun scope_match_text :: "scope_match \<Rightarrow> string" where
  "scope_match_text IN_SCOPE = ''in_scope''"
| "scope_match_text OUT_OF_SCOPE = ''out_of_scope''"
| "scope_match_text UNDECLARED = ''undeclared''"

definition written_arguments :: "(string \<times> string list) list \<Rightarrow> json" where
  "written_arguments args = JObj (map (\<lambda>(name, ps). (name, json_texts ps)) args)"

definition written_match :: "policy_match \<Rightarrow> json" where
  "written_match m =
     JObj (fields_of
       [(''actions'', Some (json_texts (pm_actions m))),
        (''targets'', map_option json_texts (pm_targets m)),
        (''environments'', map_option json_texts (pm_environments m)),
        (''agents'', map_option json_texts (pm_agents m)),
        (''roles'', map_option json_texts (pm_roles m)),
        (''principals'', map_option json_texts (pm_principals m)),
        (''models'', map_option json_texts (pm_models m)),
        (''providers'', map_option json_texts (pm_providers m)),
        (''dataClassifications'', map_option json_texts (pm_data_classifications m)),
        (''jurisdictions'', map_option json_texts (pm_jurisdictions m)),
        (''workingDirectories'', map_option json_texts (pm_working_directories m)),
        (''branches'', map_option json_texts (pm_branches m)),
        (''classes'', map_option json_texts (pm_classes m)),
        (''capabilities'', map_option json_texts (pm_capabilities m)),
        (''arguments'', map_option written_arguments (pm_arguments m)),
        (''aboveAmount'', map_option JNum (pm_above_amount m)),
        (''windows'', map_option (\<lambda>ws. JArr (map written_window ws)) (pm_windows m)),
        (''scope'', map_option (\<lambda>ss. JArr (map (\<lambda>s. JStr (scope_match_text s)) ss)) (pm_scope m)),
        (''state'', map_option json_texts (pm_state m)),
        (''content'', map_option json_texts (pm_content m)),
        (''unless'', map_option (\<lambda>cs. JArr (map written_carve_out cs)) (pm_unless m))])"

fun effect_written :: "decision_effect \<Rightarrow> string" where
  "effect_written ALLOW = ''allow''"
| "effect_written ASK = ''ask''"
| "effect_written DENY = ''deny''"

fun mode_written :: "policy_mode \<Rightarrow> string" where
  "mode_written PM_ENFORCE = ''enforce''"
| "mode_written PM_OBSERVE = ''observe''"

definition written_rate_limit :: "rate_limit_spec \<Rightarrow> json" where
  "written_rate_limit l =
     JObj [(''max'', JNum (of_nat (rl_max l))), (''windowSeconds'', JNum (of_nat (rl_window_seconds l)))]"

definition written_alternative :: "alternative \<Rightarrow> json" where
  "written_alternative a =
     JObj (fields_of [(''action'', Some (JStr (al_action a))), (''note'', Some (JStr (al_note a))),
       (''resource'', map_option JStr (al_resource a))])"

definition written_decision :: "policy_decision \<Rightarrow> json" where
  "written_decision d =
     JObj (fields_of
       [(''effect'', Some (JStr (effect_written (pd_effect d)))), (''reason'', map_option JStr (pd_reason d)),
        (''approvers'', map_option json_texts (pd_approvers d)),
        (''minApprovals'', map_option (\<lambda>n. JNum (of_nat n)) (pd_min_approvals d)),
        (''mode'', map_option (\<lambda>m. JStr (mode_written m)) (pd_mode d)),
        (''rateLimit'', map_option written_rate_limit (pd_rate_limit d)),
        (''alternative'', map_option written_alternative (pd_alternative d)),
        (''relaxes'', map_option json_texts (pd_relaxes d))])"

definition written_policy :: "policy \<Rightarrow> json" where
  "written_policy p =
     JObj (fields_of
       [(''name'', Some (JStr (p_name p))), (''description'', map_option JStr (p_description p)),
        (''match'', Some (written_match (p_match p))), (''decision'', Some (written_decision (p_decision p))),
        (''project'', map_option JStr (p_project p)),
        (''workspace'', if p_workspace p then Some (JBool True) else None),
        (''decidedBy'', map_option JStr (p_decided_by p)), (''decidedAt'', map_option JStr (p_decided_at p))])"

definition written_document :: "policy_document \<Rightarrow> json" where
  "written_document doc =
     JObj (fields_of
       [(''version'', Some (JNum 1)), (''project'', map_option JStr (doc_project doc)),
        (''policies'', Some (JArr (map written_policy (doc_policies doc))))])"

lemma strings_of_texts [simp]: "strings_of_json (map JStr ss) = Some ss"
  by (simp add: strings_of_json_def list_all_iff comp_def)

lemma read_strings [simp]:
  "as_string_array (Some (json_texts ss)) at' = fine (Some ss)"
  "as_optional_string_array (map_option json_texts x) at' = fine x"
  by (cases x; simp add: as_string_array_def as_optional_string_array_def json_texts_def present_def)+

lemma read_integer [simp]:
  "integer_of (Some (JNum (of_int n))) = Some n" "integer_of (Some (JNum (of_nat k))) = Some (int k)"
  using floor_of_int [where 'a = rat, of "int k"] by (simp_all add: integer_of_def)

lemma somes_map_Some [simp]: "somes (map Some xs) = xs"
  by (induction xs) (simp_all add: somes_def)

lemma check_each_fine:
  assumes "\<And>i x. x \<in> set xs \<Longrightarrow> f i (g x) = fine (h x)"
  shows "check_each f i (map g xs) = fine (map h xs)"
  using assms by (induction xs arbitrary: i) (simp_all add: check_each.simps fine_def)

lemma then_fine [simp]: "then_check (fine x) f = f x"
  by (simp add: then_check_def fine_def Let_def)

lemma map_option_present: "map_option f x = None \<longleftrightarrow> x = None"
  by (cases x) auto

lemma read_window:
  assumes "well_formed_window w"
  shows "as_window (written_window w) at' = fine (Some w)"
proof -
  let ?o = "fields_of
       [(''days'', map_option (\<lambda>ds. JArr (map (\<lambda>d. JNum (of_int d)) ds)) (tw_days w)),
        (''startHour'', Some (JNum (of_int (tw_start_hour w)))), (''endHour'', Some (JNum (of_int (tw_end_hour w)))),
        (''utcOffsetMinutes'', map_option (\<lambda>m. JNum (of_int m)) (tw_utc_offset_minutes w))]"
  have at_field: "map_of ?o ''days'' = map_option (\<lambda>ds. JArr (map (\<lambda>d. JNum (of_int d)) ds)) (tw_days w)"
    "map_of ?o ''startHour'' = Some (JNum (of_int (tw_start_hour w)))"
    "map_of ?o ''endHour'' = Some (JNum (of_int (tw_end_hour w)))"
    "map_of ?o ''utcOffsetMinutes'' = map_option (\<lambda>m. JNum (of_int m)) (tw_utc_offset_minutes w)"
    by (simp_all add: map_of_fields_of)
  have valid: "is_valid_time_window (JObj ?o)"
    using assms unfolding is_valid_time_window_def json.case at_field
    by (auto simp: well_formed_window_def HOURS_IN_A_DAY_def DAYS_PER_WEEK_def MIN_UTC_OFFSET_MINUTES_def
      MAX_UTC_OFFSET_MINUTES_def MINUTES_PER_HOUR_60 Let_def list_all_iff is_int_in_def split: option.splits)
  have "time_window_of ?o = w"
    unfolding time_window_of_def at_field by (cases "tw_days w"; cases "tw_utc_offset_minutes w"; simp add: comp_def)
  with valid show ?thesis by (simp add: as_window_def as_record_def written_window_def)
qed

lemma read_windows:
  assumes "case x of None \<Rightarrow> True | Some ws \<Rightarrow> ws \<noteq> [] \<and> list_all well_formed_window ws"
  shows "as_optional_windows (map_option (\<lambda>ws. JArr (map written_window ws)) x) at' = fine x"
proof (cases x)
  case (Some ws)
  with assms have ws: "ws \<noteq> []" "\<And>w. w \<in> set ws \<Longrightarrow> well_formed_window w" by (simp_all add: list_all_iff)
  have each: "check_each (\<lambda>i entry. as_window entry (index_path at' i)) 0 (map written_window ws) = fine (map Some ws)"
    by (rule check_each_fine) (simp add: read_window ws(2))
  obtain j js where shown: "map written_window ws = j # js" using ws(1) by (cases ws) auto
  show ?thesis
    using each unfolding shown by (simp add: Some as_optional_windows_def shown list_ex_iff image_iff)
qed (simp add: as_optional_windows_def)

lemma read_carve_out:
  assumes "well_formed_carve_out c"
  shows "as_carve_out (written_carve_out c) at' = fine (Some c)"
proof -
  let ?o = "fields_of
       [(''project'', map_option JStr (co_project c)), (''agents'', map_option json_texts (co_agents c)),
        (''workingDirectories'', map_option json_texts (co_working_directories c))]"
  have at_field: "map_of ?o ''project'' = map_option JStr (co_project c)"
    "map_of ?o ''agents'' = map_option json_texts (co_agents c)"
    "map_of ?o ''workingDirectories'' = map_option json_texts (co_working_directories c)"
    by (simp_all add: map_of_fields_of)
  show ?thesis
    using assms unfolding as_carve_out_def written_carve_out_def as_record_def option.case json.case then_fine
      string_field_def at_field Let_def
    by (cases c; cases "co_project c") (auto simp: well_formed_carve_out_def)
qed

lemma read_carve_outs:
  assumes "case x of None \<Rightarrow> True | Some cs \<Rightarrow> cs \<noteq> [] \<and> list_all well_formed_carve_out cs"
  shows "as_optional_carve_outs (map_option (\<lambda>cs. JArr (map written_carve_out cs)) x) at' = fine x"
proof (cases x)
  case (Some cs)
  with assms have cs: "cs \<noteq> []" "\<And>c. c \<in> set cs \<Longrightarrow> well_formed_carve_out c" by (simp_all add: list_all_iff)
  have each: "check_each (\<lambda>i raw. as_carve_out raw (index_path at' i)) 0 (map written_carve_out cs) = fine (map Some cs)"
    by (rule check_each_fine) (simp add: read_carve_out cs(2))
  with Some cs(1) show ?thesis by (simp add: as_optional_carve_outs_def present_def)
qed (simp add: as_optional_carve_outs_def present_def)

lemma read_scope:
  assumes "x \<noteq> Some []"
  shows "as_optional_scope (map_option (\<lambda>ss. JArr (map (\<lambda>s. JStr (scope_match_text s)) ss)) x) at' = fine x"
proof (cases x)
  case (Some ss)
  have known: "map_of VALID_SCOPE_MATCHES (scope_match_text t) = Some t" for t
    by (cases t) (simp_all add: VALID_SCOPE_MATCHES_def)
  have entries: "map (\<lambda>e. case e of JStr s \<Rightarrow> map_of VALID_SCOPE_MATCHES s | _ \<Rightarrow> None)
      (map (\<lambda>s. JStr (scope_match_text s)) ss) = map Some ss"
    by (simp add: known comp_def)
  have listed: "as_optional_scope (Some (JArr js)) at' =
      (let found = map (\<lambda>e. case e of JStr s \<Rightarrow> map_of VALID_SCOPE_MATCHES s | _ \<Rightarrow> None) js
       in if js = [] then wrong None (at' @ '' must be a non-empty array'')
          else if list_ex (\<lambda>e. e = None) found
          then wrong None (at' @ '' entries must be one of: '' @ join_with '', '' (map fst VALID_SCOPE_MATCHES))
          else fine (Some (somes found)))" for js
    by (cases js) (simp_all add: as_optional_scope_def present_def Let_def)
  show ?thesis
    unfolding Some option.map listed entries using assms by (simp add: Some Let_def list_ex_iff)
qed (simp add: as_optional_scope_def present_def)

lemma update_new: "k \<notin> fst ` set al \<Longrightarrow> AList.update k v al = al @ [(k, v)]"
  by (induction al) auto

lemma set_patterns_same:
  assumes "distinct (map fst args)" "list_all (\<lambda>(name, ps). name \<noteq> PROTO \<and> ps \<noteq> []) args"
  shows "set_patterns args = args"
proof -
  have "distinct (map fst (acc @ args)) \<Longrightarrow>
      foldl (\<lambda>patterns (name, ps). if name = PROTO then patterns else AList.update name ps patterns) acc args = acc @ args"
    for acc
    using assms(2) by (induction args arbitrary: acc) (auto simp: update_new)
  from this [of "[]"] assms(1) show ?thesis by (simp add: set_patterns_def)
qed

lemma read_arguments:
  assumes "case x of None \<Rightarrow> True | Some args \<Rightarrow> well_formed_arguments args"
  shows "as_optional_argument_patterns (map_option written_arguments x) at' = fine x"
proof (cases x)
  case (Some args)
  with assms have args: "args \<noteq> []" "distinct (map fst args)" "list_all (\<lambda>(name, ps). name \<noteq> PROTO \<and> ps \<noteq> []) args"
    by (simp_all add: well_formed_arguments_def)
  have one: "as_argument at' (name, json_texts ps) = fine (Some (name, ps))" if "ps \<noteq> []" for name ps
    using that by (cases ps) (simp_all add: as_argument_def)
  have each: "check_each (\<lambda>i. as_argument at') 0 (map (\<lambda>(name, ps). (name, json_texts ps)) args) = fine (map Some args)"
    by (rule check_each_fine) (use args(3) one in \<open>auto simp: list_all_iff\<close>)
  obtain e es where shown: "map (\<lambda>(name, ps). (name, json_texts ps)) args = e # es"
    using args(1) by (cases args) auto
  show ?thesis
    using args each unfolding shown
    by (simp add: Some as_optional_argument_patterns_def present_def written_arguments_def as_record_def shown
      set_patterns_same Let_def)
qed (simp add: as_optional_argument_patterns_def present_def)

lemma read_threshold:
  "(case x of None \<Rightarrow> True | Some r \<Rightarrow> 0 \<le> r) \<Longrightarrow> as_optional_threshold (map_option JNum x) at' = fine x"
  by (cases x) (simp_all add: as_optional_threshold_def)

lemma read_content: "x \<noteq> Some [] \<Longrightarrow> as_content_patterns (map_option json_texts x) at' = fine x"
  by (simp add: as_content_patterns_def)

lemma read_quorum: "x \<noteq> Some 0 \<Longrightarrow> as_optional_quorum (map_option (\<lambda>n. JNum (of_nat n)) x) at' = fine x"
  by (cases x) (simp_all add: as_optional_quorum_def)

lemma read_mode: "as_optional_mode (map_option (\<lambda>m. JStr (mode_written m)) x) at' = fine x"
proof (cases x)
  case (Some m)
  then show ?thesis by (cases m) (simp_all add: as_optional_mode_def present_def VALID_MODES_def)
qed (simp add: as_optional_mode_def present_def)

lemma read_rate_limit:
  "(case x of None \<Rightarrow> True | Some l \<Rightarrow> rl_max l > 0 \<and> rl_window_seconds l > 0) \<Longrightarrow>
     as_optional_rate_limit (map_option written_rate_limit x) at' = fine x"
  by (cases x; cases "the x")
    (simp_all add: as_optional_rate_limit_def present_def written_rate_limit_def as_record_def)

lemma read_alternative:
  assumes "case x of None \<Rightarrow> True | Some a \<Rightarrow> al_action a \<noteq> [] \<and> al_note a \<noteq> []"
  shows "as_optional_alternative (map_option written_alternative x) at' = fine x"
proof (cases x)
  case (Some a)
  then obtain c cs n ns where "al_action a = c # cs" "al_note a = n # ns"
    using assms by (cases "al_action a"; cases "al_note a") auto
  then show ?thesis
    by (cases a; cases "al_resource a")
      (simp_all add: Some as_optional_alternative_def present_def written_alternative_def as_record_def map_of_fields_of)
qed (simp add: as_optional_alternative_def present_def)

lemma read_match:
  assumes "well_formed_match m"
  shows "\<exists>o'. written_match m = JObj o' \<and> map_of o' ''actions'' = Some (json_texts (pm_actions m)) \<and>
    validate_match o' (pm_actions m) at' = fine m"
proof -
  obtain o' where o': "written_match m = JObj o'" by (simp add: written_match_def)
  have keys: "map_of o' k = (case map_of
       [(''actions'', Some (json_texts (pm_actions m))),
        (''targets'', map_option json_texts (pm_targets m)),
        (''environments'', map_option json_texts (pm_environments m)),
        (''agents'', map_option json_texts (pm_agents m)),
        (''roles'', map_option json_texts (pm_roles m)),
        (''principals'', map_option json_texts (pm_principals m)),
        (''models'', map_option json_texts (pm_models m)),
        (''providers'', map_option json_texts (pm_providers m)),
        (''dataClassifications'', map_option json_texts (pm_data_classifications m)),
        (''jurisdictions'', map_option json_texts (pm_jurisdictions m)),
        (''workingDirectories'', map_option json_texts (pm_working_directories m)),
        (''branches'', map_option json_texts (pm_branches m)),
        (''classes'', map_option json_texts (pm_classes m)),
        (''capabilities'', map_option json_texts (pm_capabilities m)),
        (''arguments'', map_option written_arguments (pm_arguments m)),
        (''aboveAmount'', map_option JNum (pm_above_amount m)),
        (''windows'', map_option (\<lambda>ws. JArr (map written_window ws)) (pm_windows m)),
        (''scope'', map_option (\<lambda>ss. JArr (map (\<lambda>s. JStr (scope_match_text s)) ss)) (pm_scope m)),
        (''state'', map_option json_texts (pm_state m)),
        (''content'', map_option json_texts (pm_content m)),
        (''unless'', map_option (\<lambda>cs. JArr (map written_carve_out cs)) (pm_unless m))] k of
       None \<Rightarrow> None | Some v \<Rightarrow> v)" for k
    using o' unfolding written_match_def by (subst map_of_fields_of [symmetric]) auto
  have fields: "validate_patterns o' at' = fine
      [pm_targets m, pm_environments m, pm_agents m, pm_roles m, pm_principals m, pm_models m, pm_providers m,
       pm_data_classifications m, pm_jurisdictions m, pm_working_directories m, pm_branches m, pm_classes m,
       pm_capabilities m]"
    unfolding validate_patterns_def PATTERN_FIELDS_def by (simp add: check_each.simps keys fine_def [symmetric])
      (simp add: fine_def)
  show ?thesis
    using assms o'
    by (simp add: validate_match_def fields keys well_formed_match_def read_arguments read_threshold read_windows
      read_scope read_content read_carve_outs Let_def) (simp add: keys fine_def)
qed

lemma read_decision:
  assumes "well_formed_decision d"
  shows "\<exists>o'. written_decision d = JObj o' \<and> map_of o' ''effect'' = Some (JStr (effect_written (pd_effect d))) \<and>
    map_of o' ''approvers'' = map_option json_texts (pd_approvers d) \<and>
    validate_decision o' at' (pd_effect d) (pd_approvers d) = fine d"
proof -
  let ?kvs = "[(''effect'', Some (JStr (effect_written (pd_effect d)))), (''reason'', map_option JStr (pd_reason d)),
        (''approvers'', map_option json_texts (pd_approvers d)),
        (''minApprovals'', map_option (\<lambda>n. JNum (of_nat n)) (pd_min_approvals d)),
        (''mode'', map_option (\<lambda>m. JStr (mode_written m)) (pd_mode d)),
        (''rateLimit'', map_option written_rate_limit (pd_rate_limit d)),
        (''alternative'', map_option written_alternative (pd_alternative d)),
        (''relaxes'', map_option json_texts (pd_relaxes d))]"
  have keys: "map_of (fields_of ?kvs) k = (case map_of ?kvs k of None \<Rightarrow> None | Some v \<Rightarrow> v)" for k
    by (rule map_of_fields_of) simp
  have reason: "string_field (fields_of ?kvs) ''reason'' = pd_reason d"
    unfolding string_field_def keys by (cases "pd_reason d") simp_all
  have "validate_decision (fields_of ?kvs) at' (pd_effect d) (pd_approvers d) = fine d"
    using assms unfolding validate_decision_def reason
    by (simp add: keys read_quorum read_mode read_rate_limit read_alternative well_formed_decision_def Let_def)
      (auto simp: fine_def)
  then show ?thesis by (simp add: written_decision_def keys)
qed

lemma read_provenance:
  assumes "x \<noteq> Some []" "map_of raw field = map_option JStr x"
  shows "provenance_text raw at' field = fine x"
proof (cases x)
  case (Some s)
  with assms obtain c cs where "s = c # cs" by (cases s) auto
  with assms Some show ?thesis by (simp add: provenance_text_def present_def Let_def)
qed (use assms in \<open>simp add: provenance_text_def present_def Let_def\<close>)

lemma read_effect: "validate_effect (Some (JStr (effect_written e))) at' = fine (Some e)"
  by (cases e) (simp_all add: validate_effect_def VALID_EFFECTS_def)

lemma read_policy:
  assumes "well_formed_policy p"
  shows "validate_policy (written_policy p) at' = fine (Some p)"
proof -
  let ?kvs = "[(''name'', Some (JStr (p_name p))), (''description'', map_option JStr (p_description p)),
        (''match'', Some (written_match (p_match p))), (''decision'', Some (written_decision (p_decision p))),
        (''project'', map_option JStr (p_project p)),
        (''workspace'', if p_workspace p then Some (JBool True) else None),
        (''decidedBy'', map_option JStr (p_decided_by p)), (''decidedAt'', map_option JStr (p_decided_at p))]"
  let ?raw = "fields_of ?kvs"
  have keys: "map_of ?raw k = (case map_of ?kvs k of None \<Rightarrow> None | Some v \<Rightarrow> v)" for k
    by (rule map_of_fields_of) simp
  from assms have parts: "well_formed_match (p_match p)" "well_formed_decision (p_decision p)"
    and name: "p_name p \<noteq> []" "trim (p_name p) = p_name p" and p_id: "p_id p = None"
    and given: "p_project p \<noteq> Some []" "p_decided_by p \<noteq> Some []" "p_decided_at p \<noteq> Some []"
    by (simp_all add: well_formed_policy_def)
  obtain m where m: "written_match (p_match p) = JObj m"
      "map_of m ''actions'' = Some (json_texts (pm_actions (p_match p)))"
      "validate_match m (pm_actions (p_match p)) (at' @ ''.match'') = fine (p_match p)"
    using read_match [OF parts(1)] by blast
  obtain d where d: "written_decision (p_decision p) = JObj d"
      "map_of d ''effect'' = Some (JStr (effect_written (pd_effect (p_decision p))))"
      "map_of d ''approvers'' = map_option json_texts (pd_approvers (p_decision p))"
      "validate_decision d (at' @ ''.decision'') (pd_effect (p_decision p)) (pd_approvers (p_decision p)) =
         fine (p_decision p)"
    using read_decision [OF parts(2)] by blast
  have described: "string_field ?raw ''description'' = p_description p"
    unfolding string_field_def keys by (cases "p_description p") simp_all
  have "provenance_text ?raw at' ''project'' = fine (p_project p)"
    "provenance_text ?raw at' ''decidedBy'' = fine (p_decided_by p)"
    "provenance_text ?raw at' ''decidedAt'' = fine (p_decided_at p)"
    by (rule read_provenance; simp add: keys given)+
  moreover have "(map_of ?raw ''workspace'' = Some (JBool True)) = p_workspace p" by (simp add: keys)
  ultimately have "policy_of_parts ?raw at' (p_name p) m (pm_actions (p_match p)) d (pd_effect (p_decision p)) = fine p"
    using p_id unfolding policy_of_parts_def provenance_of_def described
    by (simp add: d m Let_def case_prod_beta plain_policy_def) (simp add: fine_def)
  moreover have "pm_actions (p_match p) \<noteq> []" using parts(1) by (simp add: well_formed_match_def)
  moreover have "as_non_empty_string (map_of ?raw ''name'') (at' @ ''.name'') = fine (Some (p_name p))"
    using name by (simp add: keys as_non_empty_string_def)
  moreover have "as_record (map_of ?raw ''match'') (at' @ ''.match'') = fine (Some m)"
    "as_record (map_of ?raw ''decision'') (at' @ ''.decision'') = fine (Some d)"
    unfolding keys by (simp_all add: m(1) d(1) as_record_def)
  moreover have "written_policy p = JObj ?raw" by (simp add: written_policy_def)
  ultimately show ?thesis
    by (simp add: validate_policy_def as_record_def [of "Some (JObj ?raw)"] m(2) d(2) read_effect case_prod_beta Let_def)
      (simp add: fine_def then_check_def)
qed

lemma read_policies:
  assumes "list_all well_formed_policy ps" "distinct (map p_name ps)" "p_name ` set ps \<inter> set seen = {}"
  shows "validate_policies i seen (map written_policy ps) = fine ps"
  using assms
proof (induction ps arbitrary: i seen)
  case (Cons p ps)
  then have "validate_policies (Suc i) (p_name p # seen) (map written_policy ps) = fine ps" by auto
  with Cons.prems show ?case by (simp add: read_policy case_prod_beta Let_def) (simp add: fine_def)
qed (simp add: fine_def)

text \<open>
  Property C21. Well-formed rules of different names, written out as a document, are read back as
  the very rules: each field by its name, none dropped and none made up.
\<close>
theorem written_rules_are_read_back:
  assumes "list_all well_formed_policy (doc_policies doc)" "distinct (map p_name (doc_policies doc))"
    and "case doc_project doc of None \<Rightarrow> True | Some s \<Rightarrow> s \<noteq> [] \<and> trim s = s"
  shows "validate_policy_document (written_document doc) = Inr doc"
proof -
  let ?kvs = "[(''version'', Some (JNum 1)), (''project'', map_option JStr (doc_project doc)),
        (''policies'', Some (JArr (map written_policy (doc_policies doc))))]"
  have keys: "map_of (fields_of ?kvs) k = (case map_of ?kvs k of None \<Rightarrow> None | Some v \<Rightarrow> v)" for k
    by (rule map_of_fields_of) simp
  have "validate_project (map_option JStr (doc_project doc)) = fine (doc_project doc)"
    using assms(3) by (cases "doc_project doc") (simp_all add: validate_project_def present_def)
  moreover have "validate_policies 0 [] (map written_policy (doc_policies doc)) = fine (doc_policies doc)"
    using assms(1,2) by (intro read_policies) auto
  ultimately show ?thesis
    by (simp add: validate_policy_document_def written_document_def keys POLICY_DOCUMENT_VERSION_def Let_def case_prod_beta)
qed

section \<open>Rules of the workspace\<close>

lemma policies_each:
  assumes "snd (validate_policies i seen raws) = []" "k < length raws"
  shows "\<exists>at'. fst (validate_policy (raws ! k) at') = Some (fst (validate_policies i seen raws) ! k) \<and>
    snd (validate_policy (raws ! k) at') = []"
  using assms
proof (induction raws arbitrary: i seen k)
  case (Cons raw raws)
  let ?at = "''policies['' @ nat_text i @ '']''"
  have quiet: "snd (validate_policy raw ?at) = []"
    using Cons.prems(1) by (auto simp: Let_def case_prod_beta split: option.splits)
  then obtain p where p: "fst (validate_policy raw ?at) = Some p" using policy_quiet by blast
  with Cons.prems(1) have later: "snd (validate_policies (Suc i) (p_name p # seen) raws) = []"
    by (auto simp: Let_def case_prod_beta)
  from p have all: "fst (validate_policies i seen (raw # raws)) = p # fst (validate_policies (Suc i) (p_name p # seen) raws)"
    by (simp add: Let_def case_prod_beta)
  show ?case
  proof (cases k)
    case 0
    with p quiet all show ?thesis by auto
  next
    case (Suc l)
    with Cons.prems(2) have "l < length raws" by simp
    from Cons.IH [OF later this] show ?thesis unfolding all Suc by simp
  qed
qed simp

lemma map_of_update_other: "k \<noteq> l \<Longrightarrow> map_of (AList.update k v al) l = map_of al l"
  by (simp add: update_conv')

lemma spread_actions:
  "map_of (spread (spread conditions [(''actions'', v)]) (scope_fields rule)) ''actions'' = Some v"
proof -
  have "map_of (foldl (\<lambda>o' (k, v). AList.update k v o') acc fields) ''actions'' = map_of acc ''actions''"
    if "''actions'' \<notin> fst ` set fields" for acc and fields :: "(string \<times> json) list"
    using that
  proof (induction fields arbitrary: acc)
    case (Cons f fields)
    obtain k w where f: "f = (k, w)" by (cases f)
    with Cons show ?case by (auto simp: map_of_update_other)
  qed simp
  moreover have "''actions'' \<notin> fst ` set (scope_fields rule)"
    by (auto simp: scope_fields_def Let_def split: option.splits)
  ultimately show ?thesis by (simp add: spread_def update_conv')
qed

text \<open>The effect a published rule states: its decision's, where that names one.\<close>

definition stated_effect :: "published_rule \<Rightarrow> string" where
  "stated_effect rule =
     or_else (string_field (or_else (pr_decision rule) [(''effect'', JStr (pr_effect rule))]) ''effect'') (pr_effect rule)"

lemma effect_of_text: "fst (validate_effect (Some (JStr s)) at') = map_of VALID_EFFECTS s"
  by (simp add: validate_effect_def split: option.splits)

lemma published_policy_read:
  assumes "fst (validate_policy (published_policy rule) at') = Some p"
  shows "p_name p = trim (pr_id rule)" "p_workspace p" "pm_actions (p_match p) = actions_of rule"
    "map_of VALID_EFFECTS (stated_effect rule) = Some (pd_effect (p_decision p))"
proof -
  let ?m = "spread (spread (conditions_of rule) [(''actions'', json_texts (actions_of rule))]) (scope_fields rule)"
  from assms obtain raw name m actions decision effect where
    raw: "published_policy rule = JObj raw" and name: "fst (as_non_empty_string (map_of raw ''name'') (at' @ ''.name'')) = Some name"
    and m: "map_of raw ''match'' = Some (JObj m)" and d: "map_of raw ''decision'' = Some (JObj decision)"
    and actions: "fst (as_string_array (map_of m ''actions'') (at' @ ''.match.actions'')) = Some actions"
    and effect: "fst (validate_effect (map_of decision ''effect'') (at' @ ''.decision.effect'')) = Some effect"
    and p: "p = fst (policy_of_parts raw at' name m actions decision effect)"
    by (rule policy_parts) blast
  from raw have at_field: "map_of raw ''name'' = Some (JStr (pr_id rule))" "map_of raw ''workspace'' = Some (JBool True)"
    "map_of raw ''match'' = Some (JObj ?m)" "map_of raw ''decision'' = Some (JObj (decision_fields rule))"
    by (auto simp: published_policy_def split: option.splits)
  from name at_field have "name = trim (pr_id rule)" by (auto simp: as_non_empty_string_def split: if_splits)
  moreover have "m = ?m" using m at_field(3) by simp
  with actions have "actions = actions_of rule" by (simp add: spread_actions)
  moreover have "map_of VALID_EFFECTS (stated_effect rule) = Some effect"
  proof -
    have "decision = decision_fields rule" using d at_field(4) by simp
    then have "map_of decision ''effect'' = Some (JStr (stated_effect rule))"
      by (simp add: decision_fields_def stated_effect_def Let_def)
    with effect show ?thesis by (simp add: effect_of_text)
  qed
  ultimately show "p_name p = trim (pr_id rule)" "p_workspace p" "pm_actions (p_match p) = actions_of rule"
    "map_of VALID_EFFECTS (stated_effect rule) = Some (pd_effect (p_decision p))"
    by (simp_all add: p policy_of_parts_def provenance_of_def plain_policy_def validate_match_def validate_decision_def
      at_field(2) Let_def case_prod_beta)
qed

text \<open>
  Property C23. Where a bundle is accepted, which it is as a whole or not at all, every rule of it whose
  conditions are all on the bundle reader's list (\<open>HONOURED_CONDITIONS\<close>) and that holds on this kind of
  machine is in force as the workspace's, with its actions and its effect. The list is shorter than what the
  engine matches on: a rule on classes is left out (\<open>rule_on_classes_is_left_out\<close>).
\<close>
theorem published_rules_are_in_force:
  assumes "policies_from_bundle published machine = Inr policies"
    and "rule \<in> set published" "honoured rule" "holds_on rule machine"
  shows "\<exists>p\<in>set policies. p_name p = trim (pr_id rule) \<and> p_workspace p \<and>
    pm_actions (p_match p) = actions_of rule \<and>
    map_of VALID_EFFECTS (stated_effect rule) = Some (pd_effect (p_decision p))"
proof -
  let ?raws = "map published_policy (filter (\<lambda>rule. honoured rule \<and> holds_on rule machine) published)"
  from assms(1) have policies: "policies = fst (validate_policies 0 [] ?raws)" and quiet: "snd (validate_policies 0 [] ?raws) = []"
    by (auto simp: policies_from_bundle_def validate_policy_document_def Let_def case_prod_beta split: if_splits)
  from assms(2-4) have "published_policy rule \<in> set ?raws" by auto
  then obtain k where k: "k < length ?raws" "?raws ! k = published_policy rule"
    unfolding in_set_conv_nth by blast
  from policies_each [OF quiet k(1)] obtain at' where
    read: "fst (validate_policy (published_policy rule) at') = Some (policies ! k)"
    unfolding k(2) policies by blast
  moreover from policies_quiet [OF quiet] k(1) policies have "policies ! k \<in> set policies"
    by (metis nth_mem)
  ultimately show ?thesis using published_policy_read [OF read] by blast
qed

section \<open>Runs\<close>

definition bare_rule :: "string \<Rightarrow> string \<Rightarrow> string \<Rightarrow> published_rule" where
  "bare_rule i effect pattern =
     \<lparr>pr_id = i, pr_effect = effect, pr_match = pattern, pr_scoped_match = None, pr_actions = None,
      pr_conditions = None, pr_reason = None, pr_alternative = None, pr_targets = None, pr_agents = None,
      pr_working_directories = None, pr_unless = None, pr_decision = None, pr_machine_classes = None,
      pr_project = None\<rparr>"

theorem published_rules_are_in_force_witness:
  "\<exists>p\<in>set (fst (validate_policies 0 [] [published_policy (bare_rule ''r1'' ''deny'' ''git.push*'')])).
     p_name p = ''r1'' \<and> p_workspace p"
proof -
  let ?rule = "bare_rule ''r1'' ''deny'' ''git.push*''"
  have read: "policies_from_bundle [?rule] None = Inr (fst (validate_policies 0 [] [published_policy ?rule]))"
    by code_simp
  have "honoured ?rule" "holds_on ?rule None" "trim (pr_id ?rule) = ''r1''" by code_simp+
  with published_rules_are_in_force [OF read, of ?rule] show ?thesis by auto
qed

definition sample_document :: policy_document where
  "sample_document =
     \<lparr>doc_project = Some ''shop'',
      doc_policies =
        [plain_policy ''no-prod'' ((match_actions [''*''])\<lparr>pm_environments := Some [''production''],
           pm_windows := Some [\<lparr>tw_days = Some [1, 5], tw_start_hour = 9, tw_end_hour = 17, tw_utc_offset_minutes = None\<rparr>]\<rparr>)
           (plain_decision DENY)]\<rparr>"

theorem written_rules_are_read_back_witness:
  "validate_policy_document (written_document sample_document) = Inr sample_document"
proof (rule written_rules_are_read_back)
  show "list_all well_formed_policy (doc_policies sample_document)" by code_simp
  show "distinct (map p_name (doc_policies sample_document))" by code_simp
  show "case doc_project sample_document of None \<Rightarrow> True | Some s \<Rightarrow> s \<noteq> [] \<and> trim s = s" by code_simp
qed

theorem validated_rules_are_well_formed_witness:
  "length (doc_policies sample_document) = 1 \<and> list_all well_formed_policy (doc_policies sample_document)"
proof -
  have "validate_policy_document (written_document sample_document) = Inr sample_document" by code_simp
  from validated_rules_are_well_formed [OF this] show ?thesis by (simp add: sample_document_def)
qed

text \<open>
  A published rule about classes is left out, although the engine matches classes and the list of
  conditions says it names every one the engine matches: a denial of what destroys is not in force.
\<close>
theorem rule_on_classes_is_left_out:
  "policies_from_bundle [(bare_rule ''r1'' ''deny'' ''*'')\<lparr>pr_conditions := Some [(''classes'', json_texts [''destructive''])]\<rparr>]
     None = Inr [] \<and>
   policy_matches (plain_policy ''r1'' ((match_actions [''*''])\<lparr>pm_classes := Some [''destructive'']\<rparr>) (plain_decision DENY))
     ((bare_request ''gh.repo-delete'')\<lparr>rq_tool_class := Some ''destructive''\<rparr>) (plain_context ''claude'')"
  by (intro conjI; code_simp)

definition allow_document :: "(string \<times> json) list \<Rightarrow> json" where
  "allow_document conditions =
     JObj [(''version'', JNum 1),
       (''policies'', JArr [JObj [(''name'', JStr ''a''), (''match'', JObj ((''actions'', json_texts [''*'']) # conditions)),
          (''decision'', JObj [(''effect'', JStr ''allow'')])]])]"

definition allow_all :: policy_document where
  "allow_all = \<lparr>doc_project = None, doc_policies = [plain_policy ''a'' (match_actions [''*'']) (plain_decision ALLOW)]\<rparr>"

text \<open>
  A condition whose name is misspelt is passed over without an issue, and so is an argument of the
  name every object inherits under: in both the rule allows everything it was meant to narrow.
\<close>
theorem dropped_conditions_widen_an_allow:
  "validate_policy_document (allow_document [(''target'', json_texts [''docs/**''])]) = Inr allow_all \<and>
   validate_policy_document (allow_document [(''arguments'', JObj [(''__proto__'', json_texts [''GET''])])]) = Inr allow_all"
  by (intro conjI; code_simp)

end
