(* ===== verification/JsonText.thy ===== *)
theory JsonText
  imports TimeWindow
begin

text \<open>
  Values as text, as the runtime writes them: \<open>JSON.stringify\<close> and \<open>String\<close>. The text of a number is an
  argument.
\<close>

section \<open>JSON as text\<close>

definition hex_digit :: "nat \<Rightarrow> char" where
  "hex_digit n = (if n < 10 then char_of (48 + n) else char_of (87 + n))"

definition json_char :: "char \<Rightarrow> string" where
  "json_char c =
     (let n = of_char c :: nat
      in if n = 0x22 \<or> n = 0x5C then [CHR 0x5C, c]
         else if n = 0x08 then [CHR 0x5C, CHR ''b''] else if n = 0x0C then [CHR 0x5C, CHR ''f'']
         else if n = 0x0A then [CHR 0x5C, CHR ''n''] else if n = 0x0D then [CHR 0x5C, CHR ''r'']
         else if n = 0x09 then [CHR 0x5C, CHR ''t'']
         else if n < 0x20 then [CHR 0x5C] @ ''u00'' @ [hex_digit (n div 16), hex_digit (n mod 16)]
         else [c])"

definition json_quoted :: "string \<Rightarrow> string" where
  "json_quoted s = [CHR 0x22] @ concat (map json_char s) @ [CHR 0x22]"

text \<open>
  \<open>JSON.stringify(value, keys)\<close>: with a list of keys, every object of the value, at any depth, is
  written with the keys of that list only, in the order of the list.
\<close>

fun json_text :: "(rat \<Rightarrow> string) \<Rightarrow> string list option \<Rightarrow> json \<Rightarrow> string" where
  "json_text number keys JNull = ''null''"
| "json_text number keys (JBool b) = (if b then ''true'' else ''false'')"
| "json_text number keys (JNum r) = number r"
| "json_text number keys (JStr s) = json_quoted s"
| "json_text number keys (JArr js) = ''['' @ join_with '','' (map (json_text number keys) js) @ '']''"
| "json_text number keys (JObj fs) =
     (let texts = map (\<lambda>f. (fst f, json_text number keys (snd f))) fs;
          shown = filter (\<lambda>k. map_of texts k \<noteq> None) (case keys of None \<Rightarrow> map fst fs | Some ks \<Rightarrow> ks)
      in ''{'' @ join_with '','' (map (\<lambda>k. json_quoted k @ '':'' @ the (map_of texts k)) shown) @ ''}'')"

section \<open>Values as text\<close>

text \<open>\<open>String(value)\<close>, of an object with no \<open>toString\<close> of its own.\<close>

fun js_text :: "(rat \<Rightarrow> string) \<Rightarrow> json \<Rightarrow> string" where
  "js_text number JNull = ''null''"
| "js_text number (JBool b) = (if b then ''true'' else ''false'')"
| "js_text number (JNum r) = number r"
| "js_text number (JStr s) = s"
| "js_text number (JArr js) =
     join_with '','' (map (\<lambda>j. if j = JNull then [] else js_text number j) js)"
| "js_text number (JObj fs) = ''[object Object]''"

end
