(* ===== verification/ToolCalls.thy ===== *)
theory ToolCalls
  imports ActionTaxonomy Sql TimeWindow
begin

text \<open>
  What a tool of an MCP server does, by its name, what its server says of it and what it is handed:
  \<open>packages/core/src/discovery/surface.ts\<close>, \<open>discovery/classify.ts\<close>, \<open>intercept/tool-call.ts\<close> and the
  names of MCP tools (\<open>domain/plain-text.ts\<close>). Overrides are looked up in a plain object, so the
  names every object inherits, such as \<open>constructor\<close>, are not names of tools here.
\<close>

section \<open>Names of tools\<close>

definition without_trailing :: "string \<Rightarrow> char \<Rightarrow> string" where
  "without_trailing s c = rev (dropWhile (\<lambda>x. x = c) (rev s))"

definition MCP_TOOL_PREFIX :: string where "MCP_TOOL_PREFIX = ''mcp__''"
definition MCP_SEPARATOR :: string where "MCP_SEPARATOR = ''__''"

text \<open>The part before the first separator and the part after it.\<close>

fun cut_at_separator :: "string \<Rightarrow> (string \<times> string) option" where
  "cut_at_separator [] = None"
| "cut_at_separator (c # s) =
     (if starts_with MCP_SEPARATOR (c # s) then Some ([], drop (length MCP_SEPARATOR) (c # s))
      else map_option (\<lambda>(before, after). (c # before, after)) (cut_at_separator s))"

definition mcp_tool_parts :: "string \<Rightarrow> (string \<times> string) option" where
  "mcp_tool_parts tool =
     (if \<not> starts_with MCP_TOOL_PREFIX tool \<or> CHR 0x0A \<in> set tool then None
      else case drop (length MCP_TOOL_PREFIX) tool of
             [] \<Rightarrow> None
           | c # rest \<Rightarrow>
               (case cut_at_separator rest of
                  None \<Rightarrow> None
                | Some (server, name) \<Rightarrow> if name = [] then None else Some (c # server, name)))"

section \<open>Filters of tools\<close>

datatype filter_precedence = INCLUDE_WINS | EXCLUDE_WINS

record tool_filter =
  tf_include :: "string list option"
  tf_exclude :: "string list"
  tf_precedence :: filter_precedence

text \<open>The expression of a glob: \<open>*\<close> is any run and \<open>?\<close> one character, on one line; the rest is literal.\<close>

fun tool_glob :: "string \<Rightarrow> string \<Rightarrow> bool" where
  "tool_glob [] s = (s = [])"
| "tool_glob (p # ps) s =
     (if p = CHR ''*''
      then tool_glob ps s \<or> (case s of [] \<Rightarrow> False | c # cs \<Rightarrow> c \<noteq> CHR 0x0A \<and> c \<noteq> CHR 0x0D \<and> tool_glob (p # ps) cs)
      else case s of
             [] \<Rightarrow> False
           | c # cs \<Rightarrow> (if p = CHR ''?'' then c \<noteq> CHR 0x0A \<and> c \<noteq> CHR 0x0D else c = p) \<and> tool_glob ps cs)"

definition matches_tool_glob :: "string \<Rightarrow> string list \<Rightarrow> bool" where
  "matches_tool_glob name patterns \<longleftrightarrow>
     name \<in> set patterns \<or>
     list_ex (\<lambda>p. (CHR ''*'' \<in> set p \<or> CHR ''?'' \<in> set p \<or> CHR ''['' \<in> set p) \<and> tool_glob p name) patterns"

definition passes_filter :: "string \<Rightarrow> tool_filter option \<Rightarrow> bool" where
  "passes_filter name given_filter =
     (case given_filter of
        None \<Rightarrow> True
      | Some f \<Rightarrow>
          if tf_precedence f = INCLUDE_WINS
          then (case tf_include f of
                  Some patterns \<Rightarrow> matches_tool_glob name patterns
                | None \<Rightarrow> \<not> matches_tool_glob name (tf_exclude f))
          else if matches_tool_glob name (tf_exclude f) then False
          else (case tf_include f of
                  None \<Rightarrow> True
                | Some patterns \<Rightarrow> if patterns = [] then True else matches_tool_glob name patterns))"

section \<open>The effect of a name\<close>

definition DESTRUCTIVE_VERBS :: "string list" where
  "DESTRUCTIVE_VERBS =
     [''delete'', ''drop'', ''destroy'', ''remove'', ''purge'', ''truncate'', ''revoke'', ''erase'', ''wipe'',
      ''terminate'', ''kill'', ''unpublish'', ''uninstall'', ''deprovision'']"

definition WRITE_VERBS :: "string list" where
  "WRITE_VERBS =
     [''write'', ''create'', ''update'', ''modify'', ''edit'', ''add'', ''insert'', ''send'', ''upload'', ''publish'',
      ''rename'', ''redeploy'', ''rerun'', ''retry'', ''cancel'', ''restart'', ''rollback'', ''revert'', ''dispatch'',
      ''execute'', ''exec'', ''invoke'', ''approve'', ''reject'', ''reopen'', ''close'', ''assign'', ''unassign'',
      ''refund'', ''capture'', ''confirm'', ''void'', ''finalize'', ''scale'', ''enable'', ''disable'', ''upsert'',
      ''replace'', ''save'', ''subscribe'', ''unsubscribe'', ''invite'', ''grant'', ''unlink'', ''attach'', ''detach'',
      ''sync'', ''provision'', ''promote'', ''fork'', ''archive'', ''unarchive'', ''resend'', ''rotate'', ''reset'',
      ''toggle'', ''pause'', ''resume'', ''suspend'', ''reactivate'']"

definition NOUN_LIKE_WRITE_VERBS :: "string list" where
  "NOUN_LIKE_WRITE_VERBS =
     [''set'', ''post'', ''merge'', ''push'', ''apply'', ''deploy'', ''run'', ''start'', ''stop'', ''trigger'', ''commit'',
      ''tag'', ''label'', ''lock'', ''unlock'', ''charge'', ''transfer'', ''move'', ''patch'', ''pay'', ''install'', ''link'',
      ''import'', ''schedule'', ''mark'']"

definition READ_VERBS :: "string list" where
  "READ_VERBS =
     [''get'', ''read'', ''list'', ''search'', ''fetch'', ''find'', ''query'', ''describe'', ''retrieve'', ''show'', ''view'',
      ''count'', ''check'', ''inspect'', ''lookup'', ''download'', ''export'', ''explain'']"

definition effect_of_name :: "string \<Rightarrow> string option" where
  "effect_of_name name =
     (let segments = name_segments name;
          has = (\<lambda>verbs. list_ex (\<lambda>v. v \<in> set segments) verbs);
          opens_with_read = (case segments of [] \<Rightarrow> False | s # _ \<Rightarrow> s \<in> set READ_VERBS)
      in if has DESTRUCTIVE_VERBS then Some TC_DESTRUCTIVE
         else if has WRITE_VERBS then Some TC_WRITE
         else if \<not> opens_with_read \<and> has NOUN_LIKE_WRITE_VERBS then Some TC_WRITE
         else if has READ_VERBS then Some TC_READ
         else None)"

section \<open>What a server says of its tool\<close>

record tool_annotations =
  ta_read_only :: "bool option"
  ta_destructive :: "bool option"

text \<open>The names of the arguments, where a schema lists them.\<close>

record tool_declaration =
  td_name :: string
  td_annotations :: "tool_annotations option"
  td_properties :: "string list option"

datatype effect_inference = BY_ANNOTATION | BY_SCHEMA | BY_NAME | BY_OVERRIDE

definition effect_unstated :: "tool_declaration \<Rightarrow> string \<times> effect_inference" where
  "effect_unstated declaration =
     (case effect_of_name (td_name declaration) of
        Some named \<Rightarrow> (named, BY_NAME)
      | None \<Rightarrow> if td_properties declaration = Some [] then (TC_READ, BY_SCHEMA) else (TC_UNKNOWN, BY_NAME))"

definition infer_tool_effect :: "tool_declaration \<Rightarrow> string \<times> effect_inference" where
  "infer_tool_effect declaration =
     (case td_annotations declaration of
        None \<Rightarrow> effect_unstated declaration
      | Some a \<Rightarrow>
          if ta_destructive a = Some True then (TC_DESTRUCTIVE, BY_ANNOTATION)
          else if ta_read_only a = Some True
          then (let named = effect_of_name (td_name declaration)
                in if named = Some TC_WRITE \<or> named = Some TC_DESTRUCTIVE then (the named, BY_NAME)
                   else (TC_READ, BY_ANNOTATION))
          else if ta_read_only a = Some False then (TC_WRITE, BY_ANNOTATION)
          else effect_unstated declaration)"

section \<open>The class of a tool\<close>

definition COMMUNICATION_VERBS :: "string list" where
  "COMMUNICATION_VERBS =
     [''send'', ''post'', ''message'', ''notify'', ''email'', ''mail'', ''chat'', ''reply'', ''comment'', ''announce'',
      ''broadcast'', ''dm'']"

definition COMMUNICATION_NOUNS :: "string list" where
  "COMMUNICATION_NOUNS =
     [''message'', ''email'', ''mail'', ''slack'', ''chat'', ''sms'', ''notification'', ''webhook'', ''channel'', ''comment'']"

definition POSTED_THINGS :: "string list" where
  "POSTED_THINGS = [''comment'', ''message'', ''reply'', ''thread'']"

definition POSTED_PHRASES :: "(string \<times> string) list" where
  "POSTED_PHRASES = [(''request'', ''review'')]"

fun adjacent :: "'a \<Rightarrow> 'a \<Rightarrow> 'a list \<Rightarrow> bool" where
  "adjacent a b (x # y # xs) = (x = a \<and> y = b \<or> adjacent a b (y # xs))"
| "adjacent a b xs = False"

definition names_a_post :: "string list \<Rightarrow> bool" where
  "names_a_post segments \<longleftrightarrow>
     list_ex (\<lambda>part. list_ex (\<lambda>thing. part = thing \<or> part = thing @ ''s'') POSTED_THINGS) segments \<or>
     list_ex (\<lambda>(first, second). adjacent first second segments) POSTED_PHRASES"

definition looks_like_communication :: "string \<Rightarrow> bool" where
  "looks_like_communication name =
     (let segments = name_segments name
      in if names_a_post segments then True
         else case segments of
                [] \<Rightarrow> False
              | verb # rest \<Rightarrow>
                  if verb \<notin> set COMMUNICATION_VERBS then False
                  else if rest = [] then True
                  else list_ex (\<lambda>noun. list_ex (includes_text noun) rest) COMMUNICATION_NOUNS)"

definition TOOL_CLASSES :: "string list" where
  "TOOL_CLASSES = [TC_READ, TC_WRITE, TC_DESTRUCTIVE, TC_COMMUNICATION, TC_UNKNOWN]"

definition overrides_in :: "(string \<times> json) list \<Rightarrow> (string \<times> string) list" where
  "overrides_in given =
     concat (map (\<lambda>(tool, v). case v of JStr c \<Rightarrow> if c \<in> set TOOL_CLASSES then [(tool, c)] else [] | _ \<Rightarrow> []) given)"

definition classify_tool :: "tool_declaration \<Rightarrow> (string \<times> string) list \<Rightarrow> string \<times> effect_inference" where
  "classify_tool declaration overrides =
     (case map_of overrides (td_name declaration) of
        Some c \<Rightarrow> (c, BY_OVERRIDE)
      | None \<Rightarrow>
          (let (effect, from) = infer_tool_effect declaration
           in if (effect = TC_WRITE \<or> effect = TC_UNKNOWN) \<and> looks_like_communication (td_name declaration)
              then (TC_COMMUNICATION, BY_NAME) else (effect, from)))"

definition named_only :: "string \<Rightarrow> tool_declaration" where
  "named_only name = \<lparr>td_name = name, td_annotations = None, td_properties = None\<rparr>"

section \<open>The class of a call\<close>

definition STATEMENT_ARGUMENTS :: "string list" where
  "STATEMENT_ARGUMENTS = [''sql'', ''query'', ''statement'', ''statements'']"

definition DATABASE_WORDS :: "string list" where
  "DATABASE_WORDS =
     [''sql'', ''query'', ''execute'', ''exec'', ''db'', ''database'', ''postgres'', ''postgresql'', ''pg'', ''mysql'', ''sqlite'',
      ''supabase'', ''neon'', ''statement'']"

definition OPENING_KEYWORDS :: "string list" where
  "OPENING_KEYWORDS =
     [''select'', ''with'', ''insert'', ''update'', ''delete'', ''drop'', ''create'', ''alter'', ''truncate'', ''grant'',
      ''revoke'', ''merge'', ''copy'', ''call'', ''do'', ''explain'', ''show'', ''describe'', ''vacuum'', ''replace'', ''exec'',
      ''execute'', ''begin'', ''table'', ''values'']"

definition opens_like_sql :: "string \<Rightarrow> bool" where
  "opens_like_sql s =
     (let body = dropWhile is_space s
      in to_lower (takeWhile is_word body) \<in> set OPENING_KEYWORDS \<or>
         (case body of c # d # _ \<Rightarrow> c = CHR ''('' \<and> is_word d | _ \<Rightarrow> False))"

definition statement_at :: "(string \<times> json) list \<Rightarrow> string \<Rightarrow> string option" where
  "statement_at args key =
     (case map_of args key of
        Some (JStr s) \<Rightarrow> if trim s = [] then None else Some s
      | Some (JArr js) \<Rightarrow>
          if list_all (\<lambda>j. case j of JStr _ \<Rightarrow> True | _ \<Rightarrow> False) js
          then Some (join_with (CHR '';'' # [CHR 0x0A]) (map (\<lambda>j. case j of JStr s \<Rightarrow> s | _ \<Rightarrow> []) js))
          else None
      | _ \<Rightarrow> None)"

definition statement_argument :: "(string \<times> json) list \<Rightarrow> string option" where
  "statement_argument args = foldr (\<lambda>key. first_some (statement_at args key)) STATEMENT_ARGUMENTS None"

definition talks_to_database :: "string \<Rightarrow> bool" where
  "talks_to_database name \<longleftrightarrow> list_ex (\<lambda>word. word \<in> set DATABASE_WORDS) (name_segments name)"

definition classify_tool_call ::
  "string \<Rightarrow> (string \<times> json) list \<Rightarrow> tool_declaration option \<Rightarrow> string \<times> effect_inference" where
  "classify_tool_call name args declared =
     (let named = classify_tool (or_else declared (named_only name)) []
      in case (if talks_to_database name then statement_argument args else None) of
           None \<Rightarrow> named
         | Some statement \<Rightarrow>
             if \<not> opens_like_sql statement then named
             else (let sql = inspect_sql statement
                   in if sf_risk sql \<noteq> RISK_UNKNOWN then (sf_class sql, BY_NAME)
                      else if fst named = TC_READ then (TC_UNKNOWN, BY_NAME) else named))"

definition ENVIRONMENT_ARGUMENTS :: "string list" where
  "ENVIRONMENT_ARGUMENTS = [''environment'', ''environmentName'', ''environment_name'', ''env'', ''stage'']"

definition environment_of_arguments :: "(string \<times> json) list \<Rightarrow> string option" where
  "environment_of_arguments args =
     foldr (\<lambda>key. first_some (case map_of args key of
       Some (JStr s) \<Rightarrow> if trim s = [] then None else Some s | _ \<Rightarrow> None)) ENVIRONMENT_ARGUMENTS None"

section \<open>What a class says\<close>

text \<open>A hint of a server makes a tool more dangerous than its name, and never less.\<close>

lemma hints_never_soften:
  "effect_of_name (td_name d) = Some TC_DESTRUCTIVE \<Longrightarrow> ta_read_only a \<noteq> Some False \<Longrightarrow>
     fst (infer_tool_effect (d\<lparr>td_annotations := Some a\<rparr>)) = TC_DESTRUCTIVE"
  by (simp add: infer_tool_effect_def effect_unstated_def Let_def)

text \<open>
  A server that says of a deletion that it is not read-only, and says no more, has it classed as
  a write, where without its word the name alone makes it destructive.
\<close>
theorem not_read_only_softens_a_delete:
  "fst (classify_tool (named_only ''delete_repo'') []) = TC_DESTRUCTIVE \<and>
   fst (classify_tool ((named_only ''delete_repo'')
     \<lparr>td_annotations := Some \<lparr>ta_read_only = Some False, ta_destructive = None\<rparr>\<rparr>) []) = TC_WRITE"
  by (intro conjI; code_simp)

text \<open>
  A statement counts only where it opens with its keyword: a comment before it, and the tool that
  is called a query is a read again, whatever it is handed.
\<close>
theorem comment_hides_the_statement:
  "fst (classify_tool_call ''query'' [(''sql'', JStr ''DROP TABLE users'')] None) = TC_DESTRUCTIVE \<and>
   fst (classify_tool_call ''query'' [(''sql'', JStr ''/* all */ DROP TABLE users'')] None) = TC_READ"
  by (intro conjI; code_simp)

text \<open>Only the first argument that could hold a statement is read.\<close>
theorem second_statement_is_unread:
  "fst (classify_tool_call ''query'' [(''statements'', JArr [JStr ''DROP TABLE users'']), (''query'', JStr ''SELECT 1'')] None) = TC_READ"
  by code_simp

end
