(* ===== verification/CloudGuard.thy ===== *)
theory CloudGuard
  imports JsonText ToolCalls PolicyValidator CommandAction Domains Breaker ShellCommands
begin

text \<open>
  The check an agent in somebody's cloud makes before each tool call: \<open>packages/guard/src/actions.ts\<close>,
  \<open>guard.ts\<close>, \<open>cloud.ts\<close> as the port it is, and the wrappers of the frameworks (\<open>wrap.ts\<close>,
  \<open>claude-agent-sdk.ts\<close>, \<open>openai-agents.ts\<close>). The runtime's own functions are arguments: digests,
  the verification of a signature, the parsing of JSON and of URLs, the text of a number, redaction,
  and what the control plane answers. A wait for a person is the list of what each poll brings and
  of the time it is then.
\<close>

section \<open>A call as the actions it is ruled on\<close>

record guard_io =
  gi_command :: command_io
  gi_base64 :: "string \<Rightarrow> string"
  gi_number :: "rat \<Rightarrow> string"
  gi_digest :: "string \<Rightarrow> string"
  gi_redact :: "string \<Rightarrow> string"
  gi_json :: "string \<Rightarrow> json option"
  gi_verify :: "string \<Rightarrow> string \<Rightarrow> string \<Rightarrow> bool"
  gi_version :: "policy list \<Rightarrow> string"

definition READ_TOOLS :: "string list" where
  "READ_TOOLS = [''Read'', ''NotebookRead'', ''LS'', ''Glob'', ''Grep'']"

definition WRITE_TOOLS :: "string list" where
  "WRITE_TOOLS = [''Write'', ''Edit'', ''MultiEdit'', ''NotebookEdit'']"

definition SHELL_TOOLS :: "string list" where "SHELL_TOOLS = [''Bash'', ''shell'']"
definition FETCH_TOOLS :: "string list" where "FETCH_TOOLS = [''WebFetch'']"
definition SEARCH_TOOLS :: "string list" where "SEARCH_TOOLS = [''WebSearch'']"
definition PATH_KEYS :: "string list" where "PATH_KEYS = [''file_path'', ''notebook_path'', ''path'']"
definition FUNCTION_TOOL_PREFIX :: string where "FUNCTION_TOOL_PREFIX = ''tool.''"

type_synonym tool_input = "(string \<times> json) list"

definition text_of :: "tool_input \<Rightarrow> string list \<Rightarrow> string option" where
  "text_of input keys =
     foldr (\<lambda>key. first_some (case map_of input key of Some (JStr (c # s)) \<Rightarrow> Some (c # s) | _ \<Rightarrow> None)) keys None"

definition flat_arguments :: "guard_io \<Rightarrow> tool_input \<Rightarrow> (string \<times> string) list" where
  "flat_arguments io input =
     map (\<lambda>(key, v). (key, case v of JStr s \<Rightarrow> s | _ \<Rightarrow> json_text (gi_number io) None v)) input"

definition mcp_requests :: "guard_io \<Rightarrow> string \<Rightarrow> string \<Rightarrow> tool_input \<Rightarrow> action_request list" where
  "mcp_requests io server tool input =
     map (\<lambda>action. (bare_request action)
         \<lparr>rq_target := Some server, rq_tool_class := Some (fst (classify_tool_call tool input None)),
          rq_arguments := Some (flat_arguments io input), rq_environment := environment_of_arguments input\<rparr>)
       [''mcp.'' @ server @ ''.'' @ tool, ''mcp.'' @ tool]"

definition request_of_command :: "guard_io \<Rightarrow> parsed_command \<Rightarrow> action_request list" where
  "request_of_command io command =
     (case pc_argv command of
        [] \<Rightarrow> []
      | binary # args \<Rightarrow>
          (let resolved = resolve_command (gi_command io) None binary args (\<lambda>_. None) (pc_stdin command)
           in [(bare_request (ra_action resolved))
                \<lparr>rq_tool_class := Some (ra_class resolved), rq_target := ra_target resolved,
                 rq_environment := ra_environment resolved\<rparr>]))"

definition shell_requests :: "guard_io \<Rightarrow> string \<Rightarrow> action_request list" where
  "shell_requests io line =
     (if trim line = [] then []
      else (let requests = concat (map (request_of_command io) (nc_parsed (normalize_shell_command (gi_base64 io) line)))
            in if requests \<noteq> [] then requests
               else [(bare_request ''shell.execute'')\<lparr>rq_target := Some line\<rparr>]))"

definition without_slash :: "string \<Rightarrow> string" where
  "without_slash dir = (if ends_with ''/'' dir then butlast dir else dir)"

definition file_request :: "string \<Rightarrow> string \<Rightarrow> string option \<Rightarrow> action_request" where
  "file_request action path cwd =
     (let whole = (case cwd of
            None \<Rightarrow> path
          | Some dir \<Rightarrow> if starts_with ''/'' path \<or> starts_with ''~'' path then path
              else without_slash dir @ ''/'' @ path)
      in (bare_request action)
           \<lparr>rq_target := Some whole, rq_tool_class := Some (if action = FILESYSTEM_READ then TC_READ else TC_WRITE)\<rparr>)"

definition ends_url :: "char \<Rightarrow> bool" where
  "ends_url c \<longleftrightarrow> is_space c \<or> c = CHR 0x22 \<or> c = CHR 0x27 \<or> c = CHR ''<'' \<or> c = CHR ''>''"

fun url_in_text :: "string \<Rightarrow> string option" where
  "url_in_text [] = None"
| "url_in_text (c # s) =
     (let scheme = (if starts_with ''http://'' (c # s) then Some ''http://''
            else if starts_with ''https://'' (c # s) then Some ''https://'' else None)
      in case scheme of
           None \<Rightarrow> url_in_text s
         | Some p \<Rightarrow>
             (let rest = takeWhile (\<lambda>d. \<not> ends_url d) (drop (length p) (c # s))
              in if rest = [] then url_in_text s else Some (p @ rest)))"

definition fetch_request :: "guard_io \<Rightarrow> string option \<Rightarrow> action_request" where
  "fetch_request io given =
     (let url = (case given of None \<Rightarrow> None | Some t \<Rightarrow> url_in_text t);
          host = (case url of None \<Rightarrow> None | Some u \<Rightarrow> io_url_hostname (gi_command io) u)
      in (bare_request ''http.request'')
           \<lparr>rq_tool_class := Some TC_READ, rq_target := host,
            rq_arguments := Some ((HTTP_METHOD_ARGUMENT, ''GET'') #
              (case url of None \<Rightarrow> [] | Some u \<Rightarrow> [(''url'', u)]))\<rparr>)"

definition function_request :: "guard_io \<Rightarrow> string \<Rightarrow> tool_input \<Rightarrow> action_request" where
  "function_request io tool input =
     (bare_request (FUNCTION_TOOL_PREFIX @ tool))
       \<lparr>rq_tool_class := Some (fst (classify_tool_call tool input None)),
        rq_arguments := Some (flat_arguments io input), rq_environment := environment_of_arguments input\<rparr>"

definition requests_for :: "guard_io \<Rightarrow> string \<Rightarrow> tool_input \<Rightarrow> string option \<Rightarrow> action_request list" where
  "requests_for io tool input cwd =
     (case mcp_tool_parts tool of
        Some (server, name) \<Rightarrow> mcp_requests io server name input
      | None \<Rightarrow>
          if tool \<in> set SHELL_TOOLS then shell_requests io (or_else (text_of input [''command'']) [])
          else (let path = text_of input PATH_KEYS
                in if tool \<in> set READ_TOOLS
                   then (case first_some path cwd of
                           None \<Rightarrow> [] | Some place \<Rightarrow> [file_request FILESYSTEM_READ place cwd])
                   else if tool \<in> set WRITE_TOOLS \<and> path \<noteq> None
                   then [file_request FILESYSTEM_WRITE (the path) cwd]
                   else if tool \<in> set FETCH_TOOLS then [fetch_request io (text_of input [''url'', ''prompt''])]
                   else if tool \<in> set SEARCH_TOOLS then [fetch_request io None]
                   else [function_request io tool input]))"

definition args_text :: "guard_io \<Rightarrow> tool_input \<Rightarrow> string" where
  "args_text io input = json_text (gi_number io) (Some (sort (map fst input))) (JObj input)"

definition args_digest_of :: "guard_io \<Rightarrow> tool_input \<Rightarrow> string" where
  "args_digest_of io input = gi_digest io (args_text io input)"

section \<open>The control plane\<close>

datatype held_status = HELD_PENDING | HELD_ANSWERED | HELD_EXPIRED

definition HELD_ANSWER_ONCE :: string where "HELD_ANSWER_ONCE = ''once''"
definition HELD_ANSWER_SESSION :: string where "HELD_ANSWER_SESSION = ''session''"

definition DEFAULT_WAIT_MS :: int where "DEFAULT_WAIT_MS = 120000"
definition LONG_POLL_SECONDS :: int where "LONG_POLL_SECONDS = 25"
definition RECORD_BATCH :: nat where "RECORD_BATCH = 100"
definition RESUME_CHECK_MS :: int where "RESUME_CHECK_MS = 10000"

record held_ask =
  ha_operation :: string
  ha_target :: "string option"
  ha_args_digest :: string
  ha_agent :: string
  ha_session_id :: string
  ha_reason :: string
  ha_operation_id :: string
  ha_wait_minutes :: int
  ha_rule_id :: "string option"

record signed_answer =
  sg_payload :: string
  sg_signature :: string
  sg_key_id :: string

record held_state =
  hs_status :: held_status
  hs_answer :: "string option"
  hs_by :: "string option"
  hs_door :: "string option"
  hs_signed :: "signed_answer option"

record cloud_key =
  ck_key_id :: string
  ck_public_key :: string

record bundle_fetch =
  bf_rules :: "published_rule list"
  bf_hash :: string
  bf_etag :: "string option"
  bf_signature :: "string option"
  bf_body :: string

text \<open>One row of the record.\<close>

record guard_row =
  row_kind :: string
  row_dedup_key :: string
  row_subject_id :: string
  row_at :: time
  row_session_id :: string
  row_payload :: "(string \<times> json) list"

text \<open>
  What the plane answers during one call: \<open>None\<close> for what throws. A poll brings the state of the
  question and the time it is after it; each raise is answered with the question's id and the time;
  \<open>cr_settled_at\<close> is the time when the answer is known.
\<close>

record cloud_replies =
  cr_raised :: "(string \<times> time) option"
  cr_polls :: "(held_state option \<times> time) list"
  cr_keys :: "cloud_key list option"
  cr_resumed :: "bool option"
  cr_settled_at :: time

section \<open>The guard\<close>

record guard_options =
  go_agent :: string
  go_machine_class :: "string option"
  go_wait_ms :: int
  go_require_signed :: bool
  go_require_device_proof :: bool

record guard_call =
  gc_tool :: string
  gc_input :: tool_input
  gc_session_id :: string
  gc_cwd :: "string option"
  gc_at :: time
  gc_row_id :: string

datatype verdict = VERDICT_ALLOW | VERDICT_DENY

fun verdict_text :: "verdict \<Rightarrow> string" where
  "verdict_text VERDICT_ALLOW = ''allow''"
| "verdict_text VERDICT_DENY = ''deny''"

record guard_decision =
  dn_verdict :: verdict
  dn_allowed :: bool
  dn_reason :: string
  dn_rule :: "string option"
  dn_alternative :: "string option"
  dn_answered_by :: "string option"
  dn_answer_proof :: "string option"
  dn_held_id :: "string option"

record guard_pause =
  gp_breach :: breaker_breach
  gp_at :: time
  gp_checked_at :: time

record guard_state =
  gu_engine :: policy_engine
  gu_bundle_hash :: "string option"
  gu_etag :: "string option"
  gu_keys :: "cloud_key list"
  gu_breaker :: circuit_breaker
  gu_paused :: "(string \<times> guard_pause) list"
  gu_grants :: "string list"
  gu_seen :: "string list"
  gu_pending :: "guard_row list"
  gu_asked :: "held_ask list"

definition default_policies :: "policy list" where
  "default_policies = policies_from recommended_answers"

definition new_guard :: "guard_io \<Rightarrow> guard_state" where
  "new_guard io =
     \<lparr>gu_engine = new_engine (gi_version io) default_policies None, gu_bundle_hash = None, gu_etag = None,
      gu_keys = [], gu_breaker = [], gu_paused = [], gu_grants = [], gu_seen = [], gu_pending = [], gu_asked = []\<rparr>"

definition guard_allowed :: "string \<Rightarrow> evaluation_result option \<Rightarrow> guard_decision" where
  "guard_allowed reason ruled =
     \<lparr>dn_verdict = VERDICT_ALLOW, dn_allowed = True, dn_reason = reason,
      dn_rule = (case ruled of None \<Rightarrow> None | Some r \<Rightarrow> map_option rr_name (er_rule r)),
      dn_alternative = None, dn_answered_by = None, dn_answer_proof = None, dn_held_id = None\<rparr>"

definition guard_refused :: "string \<Rightarrow> evaluation_result \<Rightarrow> guard_decision" where
  "guard_refused reason ruled =
     \<lparr>dn_verdict = VERDICT_DENY, dn_allowed = False, dn_reason = reason,
      dn_rule = map_option rr_name (er_rule ruled), dn_alternative = map_option al_note (er_alternative ruled),
      dn_answered_by = None, dn_answer_proof = None, dn_held_id = None\<rparr>"

text \<open>\<open>text.replace(/\.\s*$/, '')\<close>.\<close>

definition without_stop :: "string \<Rightarrow> string" where
  "without_stop s =
     (case dropWhile is_space (rev s) of
        c # rest \<Rightarrow> if c = CHR ''.'' then rev rest else s
      | [] \<Rightarrow> s)"

definition refused_ask :: "string \<Rightarrow> evaluation_result \<Rightarrow> string option \<Rightarrow> string option \<Rightarrow> guard_decision" where
  "refused_ask why ruled held_id by =
     (guard_refused (without_stop (er_reason ruled) @ '': '' @ why) ruled)
       \<lparr>dn_held_id := held_id, dn_answered_by := by\<rparr>"

definition paused_decision :: "breaker_breach \<Rightarrow> guard_decision" where
  "paused_decision breach =
     \<lparr>dn_verdict = VERDICT_DENY, dn_allowed = False,
      dn_reason = ''Memnox paused this session: '' @ bb_reason breach @
        ''. Nothing further will run until a person looks at it.'',
      dn_rule = None, dn_alternative = None, dn_answered_by = None, dn_answer_proof = None, dn_held_id = None\<rparr>"

definition NUL :: string where "NUL = [CHR 0x00]"

definition guard_grant_key :: "string \<Rightarrow> action_request \<Rightarrow> string" where
  "guard_grant_key session request = session @ NUL @ rq_action request @ NUL @ or_else (rq_target request) []"

section \<open>Records\<close>

definition note_session :: "guard_options \<Rightarrow> guard_call \<Rightarrow> guard_state \<Rightarrow> guard_state" where
  "note_session opts call s =
     (if gc_session_id call \<in> set (gu_seen s) then s
      else s\<lparr>gu_seen := gu_seen s @ [gc_session_id call],
        gu_pending := gu_pending s @
          [\<lparr>row_kind = ''agent.session.started'', row_dedup_key = ''session:'' @ gc_session_id call,
            row_subject_id = gc_session_id call, row_at = gc_at call, row_session_id = gc_session_id call,
            row_payload = [(''agentId'', JStr (go_agent opts)), (''agentKind'', JStr (go_agent opts))]\<rparr>]\<rparr>)"

definition settled_payload ::
  "guard_io \<Rightarrow> guard_options \<Rightarrow> guard_call \<Rightarrow> guard_decision \<Rightarrow> decision_effect \<Rightarrow> action_request option \<Rightarrow>
     guard_state \<Rightarrow> (string \<times> json) list" where
  "settled_payload io opts call d effect request s =
     fields_of
       [(''agentId'', Some (JStr (go_agent opts))), (''surface'', Some (JStr ''cloud'')),
        (''operation'', Some (JStr (case request of None \<Rightarrow> gc_tool call | Some q \<Rightarrow> rq_action q))),
        (''classes'', Some (JArr [JStr (or_else (case request of None \<Rightarrow> None | Some q \<Rightarrow> rq_tool_class q) TC_UNKNOWN)])),
        (''resourceRef'', (case request of None \<Rightarrow> None
           | Some q \<Rightarrow> map_option (\<lambda>t. JStr (gi_redact io t)) (rq_target q))),
        (''argsDigest'', Some (JStr (args_digest_of io (gc_input call)))),
        (''effect'', Some (JStr (decision_effect_text effect))),
        (''finalEffect'', Some (JStr (verdict_text (dn_verdict d)))),
        (''reason'', Some (JStr (gi_redact io (dn_reason d)))),
        (''ruleId'', map_option JStr (dn_rule d)), (''bundleHash'', map_option JStr (gu_bundle_hash s)),
        (''alternative'', map_option JStr (dn_alternative d))]"

definition settle ::
  "guard_io \<Rightarrow> guard_options \<Rightarrow> guard_call \<Rightarrow> guard_decision \<Rightarrow> decision_effect \<Rightarrow> action_request option \<Rightarrow>
     time \<Rightarrow> guard_state \<Rightarrow> guard_decision \<times> guard_state" where
  "settle io opts call d effect request now s =
     (d, s\<lparr>gu_pending := gu_pending s @
        [\<lparr>row_kind = ''agent.action.recorded'', row_dedup_key = gc_row_id call, row_subject_id = gc_row_id call,
          row_at = now, row_session_id = gc_session_id call,
          row_payload = settled_payload io opts call d effect request s\<rparr>]\<rparr>)"

text \<open>
  The rows are sent a batch at a time until one fails: \<open>outcomes\<close> says of each send whether it
  succeeded, and where it is spent the rest is still to be sent. The rows sent come first.
\<close>

fun flush_rows :: "bool list \<Rightarrow> guard_row list \<Rightarrow> guard_row list \<times> guard_row list" where
  "flush_rows [] rows = ([], rows)"
| "flush_rows (sent # outcomes) rows =
     (if rows = [] then ([], [])
      else if \<not> sent then ([], rows)
      else (let (gone, kept) = flush_rows outcomes (drop RECORD_BATCH rows)
            in (take RECORD_BATCH rows @ gone, kept)))"

section \<open>Keys and signatures\<close>

definition key_for :: "cloud_key list option \<Rightarrow> string \<Rightarrow> guard_state \<Rightarrow> cloud_key option \<times> guard_state" where
  "key_for fetched key_id s =
     (case find (\<lambda>k. ck_key_id k = key_id) (gu_keys s) of
        Some known \<Rightarrow> (Some known, s)
      | None \<Rightarrow>
          (case fetched of
             None \<Rightarrow> (None, s)
           | Some ks \<Rightarrow> (find (\<lambda>k. ck_key_id k = key_id) ks, s\<lparr>gu_keys := ks\<rparr>)))"

definition claim_of :: "json \<Rightarrow> string \<Rightarrow> json option" where
  "claim_of claims field = (case claims of JObj fs \<Rightarrow> map_of fs field | _ \<Rightarrow> None)"

text \<open>\<open>None\<close> where reading the claims throws, which reading a field of null does.\<close>

definition signed_for ::
  "guard_io \<Rightarrow> cloud_key list option \<Rightarrow> signed_answer option \<Rightarrow> string \<Rightarrow> string \<Rightarrow> string option \<Rightarrow>
     guard_state \<Rightarrow> bool option \<times> guard_state" where
  "signed_for io fetched signed held_id args_digest answer s =
     (case signed of
        None \<Rightarrow> (Some False, s)
      | Some sg \<Rightarrow>
          (case gi_json io (sg_payload sg) of
             None \<Rightarrow> (Some False, s)
           | Some JNull \<Rightarrow> (None, s)
           | Some claims \<Rightarrow>
               if claim_of claims ''callId'' \<noteq> Some (JStr held_id) \<or>
                  claim_of claims ''answer'' \<noteq> map_option JStr answer then (Some False, s)
               else if claim_of claims ''argsDigest'' \<noteq> Some (JStr args_digest) then (Some False, s)
               else (let (key, s') = key_for fetched (sg_key_id sg) s
                     in (case key of
                           None \<Rightarrow> Some False
                         | Some k \<Rightarrow> Some (gi_verify io (ck_public_key k) (sg_payload sg) (sg_signature sg)), s'))))"

definition NO_PROOF :: string where "NO_PROOF = ''none''"

definition proof_in :: "guard_io \<Rightarrow> signed_answer option \<Rightarrow> string" where
  "proof_in io signed =
     (case signed of
        None \<Rightarrow> NO_PROOF
      | Some sg \<Rightarrow>
          (case gi_json io (sg_payload sg) of
             None \<Rightarrow> NO_PROOF
           | Some claims \<Rightarrow> (case claim_of claims ''proof'' of Some (JStr p) \<Rightarrow> p | _ \<Rightarrow> NO_PROOF)))"

end
