(* ===== verification/GuardCalls.thy ===== *)
theory GuardCalls
  imports CloudGuard
begin

text \<open>
  What the guard does with a call: \<open>authorize\<close> and \<open>outcome\<close> of \<open>packages/guard/src/guard.ts\<close>, the
  question it asks and the wait for its answer, the rules it fetches, and the wrappers of the
  frameworks. One call is one step from the guard's state to the next: calls of other sessions that
  run while a question waits are steps before or after it. The wait for the first rules is left out,
  as it changes nothing but the time.
\<close>

section \<open>The pause of a session\<close>

definition resume :: "string \<Rightarrow> guard_state \<Rightarrow> guard_state" where
  "resume session s =
     s\<lparr>gu_paused := AList.delete session (gu_paused s), gu_breaker := forget (gu_breaker s) session\<rparr>"

text \<open>\<open>resumed\<close> is what the plane says when asked, \<open>None\<close> where asking throws.\<close>

definition still_paused ::
  "bool option \<Rightarrow> string \<Rightarrow> time \<Rightarrow> guard_state \<Rightarrow> guard_pause option \<times> guard_state" where
  "still_paused resumed session now s =
     (case map_of (gu_paused s) session of
        None \<Rightarrow> (None, s)
      | Some pause \<Rightarrow>
          if now - gp_checked_at pause < RESUME_CHECK_MS then (Some pause, s)
          else (let checked = pause\<lparr>gp_checked_at := now\<rparr>;
                    s1 = s\<lparr>gu_paused := AList.update session checked (gu_paused s)\<rparr>
                in if resumed = Some True then (None, resume session s1) else (Some checked, s1)))"

section \<open>The strictest of the rulings\<close>

fun STRICTNESS :: "decision_effect \<Rightarrow> nat" where
  "STRICTNESS ALLOW = 0"
| "STRICTNESS ASK = 1"
| "STRICTNESS DENY = 2"

definition rule_on :: "guard_options \<Rightarrow> guard_call \<Rightarrow> guard_state \<Rightarrow> action_request \<Rightarrow> evaluation_result" where
  "rule_on opts call s request =
     evaluate (gu_engine s)
       (request\<lparr>rq_session_id := Some (gc_session_id call), rq_principal := Some (go_agent opts)\<rparr>)
       ((plain_context (go_agent opts))\<lparr>cx_now := Some (gc_at call)\<rparr>)"

definition stricter ::
  "action_request \<times> evaluation_result \<Rightarrow> action_request \<times> evaluation_result \<Rightarrow> action_request \<times> evaluation_result" where
  "stricter worst next =
     (if STRICTNESS (er_effect (snd next)) > STRICTNESS (er_effect (snd worst)) then next else worst)"

definition strictest ::
  "guard_options \<Rightarrow> guard_call \<Rightarrow> guard_state \<Rightarrow> action_request \<Rightarrow> action_request list \<Rightarrow>
     action_request \<times> evaluation_result" where
  "strictest opts call s request requests =
     foldl stricter (request, rule_on opts call s request)
       (map (\<lambda>q. (q, rule_on opts call s q)) requests)"

section \<open>Asking a person\<close>

definition up_to :: "int \<Rightarrow> int \<Rightarrow> int" where "up_to n d = - ((- n) div d)"

datatype poll_end = POLL_TIMED_OUT | POLL_UNREACHABLE | POLL_ANSWERED held_state

text \<open>\<open>None\<close> is a wait that goes on once these polls have been answered.\<close>

fun poll_for :: "time \<Rightarrow> time \<Rightarrow> (held_state option \<times> time) list \<Rightarrow> poll_end option" where
  "poll_for deadline now polls =
     (if up_to (deadline - now) 1000 \<le> 0 then Some POLL_TIMED_OUT
      else (case polls of
              [] \<Rightarrow> None
            | (None, _) # _ \<Rightarrow> Some POLL_UNREACHABLE
            | (Some state, after) # rest \<Rightarrow>
                (case hs_status state of
                   HELD_EXPIRED \<Rightarrow> Some POLL_TIMED_OUT
                 | HELD_ANSWERED \<Rightarrow> Some (POLL_ANSWERED state)
                 | HELD_PENDING \<Rightarrow> poll_for deadline after rest)))"

declare poll_for.simps [simp del]

text \<open>The seconds each poll asks the plane to wait.\<close>

definition poll_seconds :: "time \<Rightarrow> time \<Rightarrow> int" where
  "poll_seconds deadline now = min LONG_POLL_SECONDS (up_to (deadline - now) 1000)"

definition call_digest :: "guard_io \<Rightarrow> guard_call \<Rightarrow> string" where
  "call_digest io call = args_digest_of io (gc_input call)"

definition held_ask_of ::
  "guard_io \<Rightarrow> guard_options \<Rightarrow> guard_call \<Rightarrow> action_request \<Rightarrow> evaluation_result \<Rightarrow> held_ask" where
  "held_ask_of io opts call request ruled =
     \<lparr>ha_operation = rq_action request, ha_target = map_option (gi_redact io) (rq_target request),
      ha_args_digest = call_digest io call, ha_agent = go_agent opts, ha_session_id = gc_session_id call,
      ha_reason = er_reason ruled,
      ha_operation_id = gi_digest io (gc_session_id call @ NUL @ rq_action request @ NUL @
        or_else (rq_target request) [] @ NUL @ call_digest io call),
      ha_wait_minutes = max 1 (up_to (go_wait_ms opts) 60000),
      ha_rule_id = map_option rr_id (er_rule ruled)\<rparr>"

record guard_answer =
  an_allows :: bool
  an_grants_session :: bool
  an_decision :: guard_decision

definition no_to :: "guard_decision \<Rightarrow> guard_answer" where
  "no_to d = \<lparr>an_allows = False, an_grants_session = False, an_decision = d\<rparr>"

definition says_yes :: "held_state \<Rightarrow> bool" where
  "says_yes state \<longleftrightarrow> hs_answer state = Some HELD_ANSWER_ONCE \<or> hs_answer state = Some HELD_ANSWER_SESSION"

definition answered_by :: "held_state \<Rightarrow> string" where
  "answered_by state =
     or_else (hs_by state) ''a person'' @ (case hs_door state of None \<Rightarrow> [] | Some door \<Rightarrow> '' on '' @ door)"

definition taken_answer ::
  "guard_io \<Rightarrow> guard_options \<Rightarrow> held_state \<Rightarrow> string \<Rightarrow> evaluation_result \<Rightarrow> guard_answer" where
  "taken_answer io opts state held_id ruled =
     (let by = answered_by state; proof_kind = proof_in io (hs_signed state)
      in if says_yes state
         then if go_require_device_proof opts \<and> proof_kind = NO_PROOF
              then no_to (refused_ask (''allowed by '' @ by @
                     '', but no device or passkey signed it, so it was not trusted'') ruled (Some held_id) (Some by))
              else \<lparr>an_allows = True, an_grants_session = (hs_answer state = Some HELD_ANSWER_SESSION),
                     an_decision = (guard_allowed (''allowed by '' @ by) (Some ruled))
                       \<lparr>dn_answered_by := Some by, dn_answer_proof := Some proof_kind, dn_held_id := Some held_id\<rparr>\<rparr>
         else no_to (refused_ask (''denied by '' @ by) ruled (Some held_id) (Some by)))"

definition answered ::
  "guard_io \<Rightarrow> guard_options \<Rightarrow> guard_call \<Rightarrow> cloud_replies \<Rightarrow> held_state \<Rightarrow> string \<Rightarrow> evaluation_result \<Rightarrow>
     guard_state \<Rightarrow> guard_answer option \<times> guard_state" where
  "answered io opts call replies state held_id ruled s =
     (if \<not> go_require_signed opts then (Some (taken_answer io opts state held_id ruled), s)
      else (case signed_for io (cr_keys replies) (hs_signed state) held_id (call_digest io call)
                   (hs_answer state) s of
              (None, s1) \<Rightarrow> (None, s1)
            | (Some True, s1) \<Rightarrow> (Some (taken_answer io opts state held_id ruled), s1)
            | (Some False, s1) \<Rightarrow>
                (Some (no_to (refused_ask
                   ''the answer was not signed by the control plane, so it was not trusted''
                   ruled (Some held_id) None)), s1)))"

definition unreachable :: "evaluation_result \<Rightarrow> guard_answer" where
  "unreachable ruled =
     no_to (refused_ask ''the control plane could not be reached to ask a person, so it was not run'' ruled None None)"

definition timed_out :: "guard_options \<Rightarrow> string \<Rightarrow> evaluation_result \<Rightarrow> guard_answer" where
  "timed_out opts held_id ruled =
     no_to (refused_ask (''nobody answered within '' @ int_text ((go_wait_ms opts + 500) div 1000) @
       '' seconds, so it was not run'') ruled (Some held_id) None)"

definition ask ::
  "guard_io \<Rightarrow> guard_options \<Rightarrow> guard_call \<Rightarrow> cloud_replies \<Rightarrow> action_request \<Rightarrow> evaluation_result \<Rightarrow>
     guard_state \<Rightarrow> (guard_answer \<times> guard_state) option" where
  "ask io opts call replies request ruled s =
     (let s1 = s\<lparr>gu_asked := gu_asked s @ [held_ask_of io opts call request ruled]\<rparr>
      in case cr_raised replies of
           None \<Rightarrow> Some (unreachable ruled, s1)
         | Some (held_id, after) \<Rightarrow>
             (case poll_for (gc_at call + go_wait_ms opts) after (cr_polls replies) of
                None \<Rightarrow> None
              | Some POLL_TIMED_OUT \<Rightarrow> Some (timed_out opts held_id ruled, s1)
              | Some POLL_UNREACHABLE \<Rightarrow> Some (unreachable ruled, s1)
              | Some (POLL_ANSWERED state) \<Rightarrow>
                  (case answered io opts call replies state held_id ruled s1 of
                     (None, s2) \<Rightarrow> Some (unreachable ruled, s2)
                   | (Some answer, s2) \<Rightarrow> Some (answer, s2))))"

section \<open>The verdict on a call\<close>

definition calls_requests :: "guard_io \<Rightarrow> guard_call \<Rightarrow> action_request list" where
  "calls_requests io call = requests_for io (gc_tool call) (gc_input call) (gc_cwd call)"

definition decide_on ::
  "guard_io \<Rightarrow> guard_options \<Rightarrow> guard_call \<Rightarrow> cloud_replies \<Rightarrow> action_request list \<Rightarrow>
     guard_state \<Rightarrow> (guard_decision \<times> guard_state) option" where
  "decide_on io opts call replies requests s =
     (case requests of
        [] \<Rightarrow> Some (settle io opts call (guard_allowed ''nothing in this call is ruled on'' None) ALLOW None
                 (gc_at call) s)
      | first # others \<Rightarrow>
          (let (request, ruled) = strictest opts call s first others;
               grant = guard_grant_key (gc_session_id call) request
           in if er_effect ruled = ALLOW
              then Some (settle io opts call (guard_allowed (er_reason ruled) (Some ruled)) ALLOW (Some request)
                     (gc_at call) s)
              else if er_effect ruled \<noteq> ASK
              then Some (settle io opts call (guard_refused (er_reason ruled) ruled) (er_effect ruled)
                     (Some request) (gc_at call) s)
              else if grant \<in> set (gu_grants s)
              then Some (settle io opts call
                     (guard_allowed ''allowed for this session by an earlier answer'' (Some ruled)) ASK
                     (Some request) (gc_at call) s)
              else (case ask io opts call replies request ruled s of
                      None \<Rightarrow> None
                    | Some (answer, s1) \<Rightarrow>
                        (let s2 = (if an_allows answer \<and> an_grants_session answer
                                   then s1\<lparr>gu_grants := List.insert grant (gu_grants s1)\<rparr> else s1)
                         in Some (settle io opts call (an_decision answer) ASK (Some request)
                              (cr_settled_at replies) s2)))))"

definition authorize ::
  "guard_io \<Rightarrow> guard_options \<Rightarrow> guard_call \<Rightarrow> cloud_replies \<Rightarrow> guard_state \<Rightarrow>
     (guard_decision \<times> guard_state) option" where
  "authorize io opts call replies s =
     (case still_paused (cr_resumed replies) (gc_session_id call) (gc_at call) (note_session opts call s) of
        (Some pause, s1) \<Rightarrow>
          Some (settle io opts call (paused_decision (gp_breach pause)) DENY None (gc_at call) s1)
      | (None, s1) \<Rightarrow> decide_on io opts call replies (calls_requests io call) s1)"

section \<open>What a call came to\<close>

record call_outcome =
  oc_failed :: bool
  oc_failure_kind :: "string option"

definition outcome_of :: "guard_io \<Rightarrow> guard_call \<Rightarrow> call_outcome \<Rightarrow> action_outcome" where
  "outcome_of io call result =
     (let requests = calls_requests io call;
          action = (case requests of [] \<Rightarrow> gc_tool call | q # _ \<Rightarrow> rq_action q);
          target = (case requests of [] \<Rightarrow> None | q # _ \<Rightarrow> rq_target q)
      in \<lparr>ao_session_id = gc_session_id call,
          ao_fingerprint = gi_digest io (action @ NUL @ or_else target [] @ NUL @ call_digest io call),
          ao_action = action, ao_target = target, ao_at = gc_at call, ao_failed = oc_failed result,
          ao_failure_kind = oc_failure_kind result, ao_out_of_scope = False, ao_cost_usd = None\<rparr>)"

definition outcome :: "guard_io \<Rightarrow> guard_options \<Rightarrow> guard_call \<Rightarrow> call_outcome \<Rightarrow> guard_state \<Rightarrow> guard_state" where
  "outcome io opts call result s =
     (case observe DEFAULT_THRESHOLDS (gu_breaker s) (outcome_of io call result) of
        (None, sessions) \<Rightarrow> s\<lparr>gu_breaker := sessions\<rparr>
      | (Some breach, sessions) \<Rightarrow>
          s\<lparr>gu_breaker := sessions,
            gu_paused := AList.update (gc_session_id call)
              \<lparr>gp_breach = breach, gp_at = gc_at call, gp_checked_at = gc_at call\<rparr> (gu_paused s),
            gu_pending := gu_pending s @
              [\<lparr>row_kind = ''agent.session.paused'',
                row_dedup_key = ''pause:'' @ gc_session_id call @ '':'' @ int_text (gc_at call),
                row_subject_id = gc_session_id call, row_at = gc_at call, row_session_id = gc_session_id call,
                row_payload = [(''agentId'', JStr (go_agent opts)), (''reason'', JStr (gi_redact io (bb_reason breach)))]\<rparr>]\<rparr>)"

section \<open>The rules of the workspace\<close>

definition bundle_signed ::
  "guard_io \<Rightarrow> guard_options \<Rightarrow> cloud_key list option \<Rightarrow> bundle_fetch \<Rightarrow> guard_state \<Rightarrow> bool \<times> guard_state" where
  "bundle_signed io opts fetched bundle s =
     (if \<not> go_require_signed opts then (True, s)
      else (case bf_signature bundle of
              None \<Rightarrow> (False, s)
            | Some signature \<Rightarrow>
                if CHR '':'' \<notin> set signature \<or> hd signature = CHR '':'' then (False, s)
                else (let key_id = takeWhile (\<lambda>c. c \<noteq> CHR '':'') signature;
                          (key, s1) = key_for fetched key_id s
                      in (case key of
                            None \<Rightarrow> False
                          | Some k \<Rightarrow> gi_verify io (ck_public_key k) (bf_body bundle)
                              (drop (Suc (length key_id)) signature), s1))))"

text \<open>\<open>None\<close> is a fetch that throws, \<open>Some None\<close> one that says nothing has changed.\<close>

definition refresh_rules ::
  "guard_io \<Rightarrow> guard_options \<Rightarrow> bundle_fetch option option \<Rightarrow> cloud_key list option \<Rightarrow> guard_state \<Rightarrow> guard_state" where
  "refresh_rules io opts fetched keys s =
     (case fetched of
        Some (Some bundle) \<Rightarrow>
          (case bundle_signed io opts keys bundle s of
             (False, s1) \<Rightarrow> s1
           | (True, s1) \<Rightarrow>
               (case policies_from_bundle (bf_rules bundle) (go_machine_class opts) of
                  Inl _ \<Rightarrow> s1
                | Inr policies \<Rightarrow>
                    s1\<lparr>gu_engine := new_engine (gi_version io) (default_policies @ policies) None,
                       gu_bundle_hash := Some (bf_hash bundle), gu_etag := bf_etag bundle\<rparr>))
      | _ \<Rightarrow> s)"

definition flush :: "bool list \<Rightarrow> guard_state \<Rightarrow> guard_row list \<times> guard_state" where
  "flush outcomes s =
     (let (gone, kept) = flush_rows outcomes (gu_pending s) in (gone, s\<lparr>gu_pending := kept\<rparr>))"

section \<open>The wrappers of the frameworks\<close>

text \<open>The sentence a model reads when a call was refused.\<close>

definition instead_text :: "guard_decision \<Rightarrow> string" where
  "instead_text d = (case dn_alternative d of None \<Rightarrow> [] | Some note \<Rightarrow> '' Instead: '' @ note)"

definition refusal_text :: "guard_decision \<Rightarrow> string" where
  "refusal_text d = ''Memnox refused this: '' @ dn_reason d @ ''.'' @ instead_text d"

definition record_or_input :: "json \<Rightarrow> tool_input" where
  "record_or_input v = (case v of JObj fs \<Rightarrow> fs | _ \<Rightarrow> [(''input'', v)])"

definition record_or_empty :: "json option \<Rightarrow> tool_input" where
  "record_or_empty v = (case v of Some (JObj fs) \<Rightarrow> fs | _ \<Rightarrow> [])"

definition agents_args :: "guard_io \<Rightarrow> string \<Rightarrow> tool_input" where
  "agents_args io given =
     (case gi_json io given of None \<Rightarrow> [(''input'', JStr given)] | Some v \<Rightarrow> record_or_input v)"

text \<open>A tool that was run returned something or threw an error of some name.\<close>

datatype 'a wrapped = TOOL_REFUSED guard_decision | TOOL_RETURNED 'a | TOOL_THREW string

definition wrap_tool ::
  "guard_io \<Rightarrow> guard_options \<Rightarrow> guard_call \<Rightarrow> cloud_replies \<Rightarrow> (tool_input \<Rightarrow> string + 'a) \<Rightarrow> time \<Rightarrow>
     guard_state \<Rightarrow> ('a wrapped \<times> guard_state) option" where
  "wrap_tool io opts call replies run ended s =
     (case authorize io opts call replies s of
        None \<Rightarrow> None
      | Some (d, s1) \<Rightarrow>
          if \<not> dn_allowed d then Some (TOOL_REFUSED d, s1)
          else (case run (gc_input call) of
                  Inr output \<Rightarrow>
                    Some (TOOL_RETURNED output,
                      outcome io opts (call\<lparr>gc_at := ended\<rparr>) \<lparr>oc_failed = False, oc_failure_kind = None\<rparr> s1)
                | Inl name \<Rightarrow>
                    Some (TOOL_THREW name,
                      outcome io opts (call\<lparr>gc_at := ended\<rparr>) \<lparr>oc_failed = True, oc_failure_kind = Some name\<rparr> s1)))"

text \<open>The hook of the Claude Agent SDK: the text of a denial, or nothing said.\<close>

definition pre_tool_use_text :: "guard_decision \<Rightarrow> string option" where
  "pre_tool_use_text d =
     (if dn_allowed d then None else Some (''Memnox: '' @ dn_reason d @ ''.'' @ instead_text d))"

definition failure_of :: "json option \<Rightarrow> call_outcome" where
  "failure_of response =
     (let fs = record_or_empty response;
          code = (case map_of fs ''exitCode'' of
                    None \<Rightarrow> map_of fs ''exit_code'' | Some JNull \<Rightarrow> map_of fs ''exit_code'' | found \<Rightarrow> found);
          failed = (map_of fs ''is_error'' = Some (JBool True) \<or> map_of fs ''isError'' = Some (JBool True) \<or>
                    (case code of Some (JNum n) \<Rightarrow> n \<noteq> 0 | _ \<Rightarrow> False))
      in if \<not> failed then \<lparr>oc_failed = False, oc_failure_kind = None\<rparr>
         else \<lparr>oc_failed = True,
                oc_failure_kind = map_option (\<lambda>said. take 200 (takeWhile (\<lambda>c. c \<noteq> CHR 0x0A) said))
                  (text_of fs [''stderr'', ''error'', ''content''])\<rparr>)"

end
