(* ===== verification/GuardGuarantees.thy ===== *)
theory GuardGuarantees
  imports GuardCalls
begin

text \<open>
  What holds of the guard of an agent in the cloud: an allow stands on the rules, on a grant of the
  session or on a signed yes to this very call; a paused session stays stopped until a person lifts
  the pause; a question ends; a bundle nobody signed changes nothing.
\<close>

section \<open>The strictest ruling\<close>

lemma foldl_stricter:
  "foldl stricter x rulings \<in> insert x (set rulings) \<and>
   (\<forall>y \<in> insert x (set rulings). STRICTNESS (er_effect (snd y)) \<le> STRICTNESS (er_effect (snd (foldl stricter x rulings))))"
proof (induction rulings arbitrary: x)
  case (Cons r rulings)
  have "stricter x r \<in> {x, r}" by (simp add: stricter_def)
  moreover have "STRICTNESS (er_effect (snd x)) \<le> STRICTNESS (er_effect (snd (stricter x r)))"
    "STRICTNESS (er_effect (snd r)) \<le> STRICTNESS (er_effect (snd (stricter x r)))"
    by (simp_all add: stricter_def)
  ultimately show ?case using Cons.IH [of "stricter x r"] by (auto intro: order_trans)
qed simp

lemma strictest_in:
  assumes "strictest opts call s first others = (q, r)"
  shows "q \<in> set (first # others)" and "r = rule_on opts call s q"
    and "x \<in> set (first # others) \<Longrightarrow>
      STRICTNESS (er_effect (rule_on opts call s x)) \<le> STRICTNESS (er_effect r)"
  using foldl_stricter [of "(first, rule_on opts call s first)" "map (\<lambda>q. (q, rule_on opts call s q)) others"]
    assms [unfolded strictest_def] by auto

lemma STRICTNESS_simps:
  "STRICTNESS e \<le> STRICTNESS ALLOW \<longleftrightarrow> e = ALLOW" "STRICTNESS e \<le> STRICTNESS ASK \<longleftrightarrow> e \<noteq> DENY"
  by (cases e; simp)+

section \<open>What an operation leaves alone\<close>

lemma settle_parts [simp]:
  "fst (settle io opts call d effect request now s) = d"
  "gu_engine (snd (settle io opts call d effect request now s)) = gu_engine s"
  "gu_grants (snd (settle io opts call d effect request now s)) = gu_grants s"
  "gu_paused (snd (settle io opts call d effect request now s)) = gu_paused s"
  "gu_keys (snd (settle io opts call d effect request now s)) = gu_keys s"
  "gu_asked (snd (settle io opts call d effect request now s)) = gu_asked s"
  by (simp_all add: settle_def)

lemma settled:
  "settle io opts call e effect request now s = (d, s') \<Longrightarrow>
     d = e \<and> gu_engine s' = gu_engine s \<and> gu_grants s' = gu_grants s \<and> gu_paused s' = gu_paused s \<and>
     gu_keys s' = gu_keys s \<and> gu_asked s' = gu_asked s"
  by (auto simp: settle_def)

lemma note_session_parts [simp]:
  "gu_engine (note_session opts call s) = gu_engine s" "gu_grants (note_session opts call s) = gu_grants s"
  "gu_paused (note_session opts call s) = gu_paused s" "gu_keys (note_session opts call s) = gu_keys s"
  "gu_asked (note_session opts call s) = gu_asked s"
  by (simp_all add: note_session_def)

lemma still_paused_parts [simp]:
  "gu_engine (snd (still_paused resumed session now s)) = gu_engine s"
  "gu_grants (snd (still_paused resumed session now s)) = gu_grants s"
  "gu_keys (snd (still_paused resumed session now s)) = gu_keys s"
  "gu_asked (snd (still_paused resumed session now s)) = gu_asked s"
  by (simp_all add: still_paused_def resume_def Let_def split: option.split)

lemma rule_on_engine: "gu_engine s = gu_engine t \<Longrightarrow> rule_on opts call s = rule_on opts call t"
  by (rule ext) (simp add: rule_on_def)

lemma key_for_parts [simp]:
  "gu_engine (snd (key_for fetched k s)) = gu_engine s" "gu_grants (snd (key_for fetched k s)) = gu_grants s"
  "gu_paused (snd (key_for fetched k s)) = gu_paused s" "gu_asked (snd (key_for fetched k s)) = gu_asked s"
  "gu_bundle_hash (snd (key_for fetched k s)) = gu_bundle_hash s" "gu_etag (snd (key_for fetched k s)) = gu_etag s"
  by (simp_all add: key_for_def split: option.split)

lemma key_for_known:
  "fst (key_for fetched k s) = Some key \<Longrightarrow>
     key \<in> set (gu_keys s) \<union> set (or_else fetched []) \<and> ck_key_id key = k"
  by (auto simp: key_for_def find_Some_iff split: option.splits)

lemma signed_for_parts [simp]:
  "gu_engine (snd (signed_for io fetched sg h dg a s)) = gu_engine s"
  "gu_grants (snd (signed_for io fetched sg h dg a s)) = gu_grants s"
  "gu_paused (snd (signed_for io fetched sg h dg a s)) = gu_paused s"
  "gu_asked (snd (signed_for io fetched sg h dg a s)) = gu_asked s"
  by (simp_all add: signed_for_def case_prod_beta split: option.split json.split)

lemma answered_parts [simp]:
  "gu_grants (snd (answered io opts call replies state h r s)) = gu_grants s"
  "gu_paused (snd (answered io opts call replies state h r s)) = gu_paused s"
  "gu_engine (snd (answered io opts call replies state h r s)) = gu_engine s"
  "gu_asked (snd (answered io opts call replies state h r s)) = gu_asked s"
proof -
  let ?found = "signed_for io (cr_keys replies) (hs_signed state) h (call_digest io call) (hs_answer state) s"
  obtain v t where f: "?found = (v, t)" by (cases ?found)
  with signed_for_parts [of io "cr_keys replies" "hs_signed state" h "call_digest io call" "hs_answer state" s]
  have "gu_grants t = gu_grants s" "gu_paused t = gu_paused s" "gu_engine t = gu_engine s" "gu_asked t = gu_asked s"
    by simp_all
  then show "gu_grants (snd (answered io opts call replies state h r s)) = gu_grants s"
    "gu_paused (snd (answered io opts call replies state h r s)) = gu_paused s"
    "gu_engine (snd (answered io opts call replies state h r s)) = gu_engine s"
    "gu_asked (snd (answered io opts call replies state h r s)) = gu_asked s"
    by (auto simp: answered_def f split: option.split bool.split)
qed

lemma ask_parts:
  assumes "ask io opts call replies q r s = Some (a, s')"
  shows "gu_grants s' = gu_grants s" "gu_paused s' = gu_paused s" "gu_engine s' = gu_engine s"
    "gu_asked s' = gu_asked s @ [held_ask_of io opts call q r]"
proof -
  let ?s = "s\<lparr>gu_asked := gu_asked s @ [held_ask_of io opts call q r]\<rparr>"
  have "s' = ?s \<or> (\<exists>st h. s' = snd (answered io opts call replies st h r ?s))"
    using assms by (auto simp: ask_def Let_def split: option.splits poll_end.splits prod.splits) (metis snd_conv)+
  then show "gu_grants s' = gu_grants s" "gu_paused s' = gu_paused s" "gu_engine s' = gu_engine s"
    "gu_asked s' = gu_asked s @ [held_ask_of io opts call q r]" by auto
qed

section \<open>A yes is signed\<close>

text \<open>
  A person's yes to this call: the plane answered the question that was raised, and the payload names
  that question, that answer and the digest of these arguments and is signed by a key of the plane.
\<close>

definition vouched :: "guard_io \<Rightarrow> guard_call \<Rightarrow> cloud_replies \<Rightarrow> guard_state \<Rightarrow> bool" where
  "vouched io call replies s \<longleftrightarrow>
     (\<exists>held_id after state sg claims key.
        cr_raised replies = Some (held_id, after) \<and> Some state \<in> fst ` set (cr_polls replies) \<and>
        hs_status state = HELD_ANSWERED \<and> says_yes state \<and> hs_signed state = Some sg \<and>
        gi_json io (sg_payload sg) = Some claims \<and>
        claim_of claims ''callId'' = Some (JStr held_id) \<and>
        claim_of claims ''answer'' = map_option JStr (hs_answer state) \<and>
        claim_of claims ''argsDigest'' = Some (JStr (call_digest io call)) \<and>
        key \<in> set (gu_keys s) \<union> set (or_else (cr_keys replies) []) \<and> ck_key_id key = sg_key_id sg \<and>
        gi_verify io (ck_public_key key) (sg_payload sg) (sg_signature sg))"

lemma poll_for_answered:
  "poll_for deadline now polls = Some (POLL_ANSWERED state) \<Longrightarrow>
     Some state \<in> fst ` set polls \<and> hs_status state = HELD_ANSWERED"
proof (induction polls arbitrary: now)
  case Nil
  then show ?case by (simp add: poll_for.simps [of deadline now "[]"] split: if_splits)
next
  case (Cons p rest)
  obtain st after where p: "p = (st, after)" by (cases p)
  from Cons.prems have "st = Some state \<and> hs_status state = HELD_ANSWERED \<or>
      poll_for deadline after rest = Some (POLL_ANSWERED state)"
    by (simp add: p poll_for.simps [of deadline now "(st, after) # rest"]
        split: if_splits option.splits held_status.splits)
  then show ?case
  proof
    assume "poll_for deadline after rest = Some (POLL_ANSWERED state)"
    from Cons.IH [OF this] show ?thesis by simp
  qed (simp add: p)
qed

lemma signed_for_true:
  assumes "signed_for io fetched signed h dg a s = (Some True, s')"
  shows "\<exists>sg claims key. signed = Some sg \<and> gi_json io (sg_payload sg) = Some claims \<and>
    claim_of claims ''callId'' = Some (JStr h) \<and> claim_of claims ''answer'' = map_option JStr a \<and>
    claim_of claims ''argsDigest'' = Some (JStr dg) \<and>
    key \<in> set (gu_keys s) \<union> set (or_else fetched []) \<and> ck_key_id key = sg_key_id sg \<and>
    gi_verify io (ck_public_key key) (sg_payload sg) (sg_signature sg)"
proof -
  obtain sg claims where g: "signed = Some sg" "gi_json io (sg_payload sg) = Some claims" "claims \<noteq> JNull"
    using assms by (auto simp: signed_for_def split: option.splits json.splits)
  have c: "claim_of claims ''callId'' = Some (JStr h) \<and> claim_of claims ''answer'' = map_option JStr a \<and>
      claim_of claims ''argsDigest'' = Some (JStr dg) \<and>
      (case fst (key_for fetched (sg_key_id sg) s) of None \<Rightarrow> False
       | Some k \<Rightarrow> gi_verify io (ck_public_key k) (sg_payload sg) (sg_signature sg))"
    using assms g by (cases claims) (auto simp: signed_for_def case_prod_beta split: if_splits option.splits)
  then obtain k where "fst (key_for fetched (sg_key_id sg) s) = Some k"
    "gi_verify io (ck_public_key k) (sg_payload sg) (sg_signature sg)" by (auto split: option.splits)
  with g c key_for_known [of fetched "sg_key_id sg" s k] show ?thesis by blast
qed

lemma refused_ask_not_allowed [simp]: "\<not> dn_allowed (refused_ask why r h by)"
  by (simp add: refused_ask_def guard_refused_def)

lemma taken_answer_yes: "an_allows (taken_answer io opts st h r) \<or> dn_allowed (an_decision (taken_answer io opts st h r)) \<Longrightarrow> says_yes st"
  by (auto simp: taken_answer_def Let_def no_to_def split: if_splits)

lemma ask_yes_is_vouched:
  assumes "ask io opts call replies q r s = Some (a, s')" and "an_allows a \<or> dn_allowed (an_decision a)"
    and "go_require_signed opts"
  shows "vouched io call replies s"
proof -
  let ?s = "s\<lparr>gu_asked := gu_asked s @ [held_ask_of io opts call q r]\<rparr>"
  obtain h after where h: "cr_raised replies = Some (h, after)"
    using assms(1,2) by (cases "cr_raised replies") (auto simp: ask_def unreachable_def no_to_def)
  let ?stop = "poll_for (gc_at call + go_wait_ms opts) after (cr_polls replies)"
  let ?taken = "\<lambda>st. case answered io opts call replies st h r ?s of
      (None, s2) \<Rightarrow> Some (unreachable r, s2) | (Some answer, s2) \<Rightarrow> Some (answer, s2)"
  obtain st where p: "?stop = Some (POLL_ANSWERED st)" and e': "?taken st = Some (a, s')"
  proof (cases ?stop)
    case None
    with assms(1) show ?thesis by (simp add: ask_def h)
  next
    case (Some e)
    with assms(1,2) that show ?thesis
      by (cases e) (auto simp: ask_def Let_def h unreachable_def timed_out_def no_to_def)
  qed
  obtain x t where x: "answered io opts call replies st h r ?s = (x, t)"
    by (cases "answered io opts call replies st h r ?s")
  with e' assms(2) have t: "answered io opts call replies st h r ?s = (Some a, t)"
    by (cases x) (auto simp: unreachable_def no_to_def)
  have "fst (signed_for io (cr_keys replies) (hs_signed st) h (call_digest io call) (hs_answer st) ?s) = Some True \<and>
      a = taken_answer io opts st h r"
  proof (cases "signed_for io (cr_keys replies) (hs_signed st) h (call_digest io call) (hs_answer st) ?s")
    case (Pair v t')
    with t assms(2,3) show ?thesis
      by (auto simp: answered_def no_to_def split: option.splits bool.splits)
  qed
  then have "\<exists>t. signed_for io (cr_keys replies) (hs_signed st) h (call_digest io call) (hs_answer st) ?s = (Some True, t)"
    and a: "a = taken_answer io opts st h r"
    by (auto simp: prod_eq_iff)
  then obtain t where "signed_for io (cr_keys replies) (hs_signed st) h (call_digest io call) (hs_answer st) ?s = (Some True, t)"
    by blast
  from signed_for_true [OF this] obtain sg claims key where
    "hs_signed st = Some sg \<and> gi_json io (sg_payload sg) = Some claims \<and>
     claim_of claims ''callId'' = Some (JStr h) \<and> claim_of claims ''answer'' = map_option JStr (hs_answer st) \<and>
     claim_of claims ''argsDigest'' = Some (JStr (call_digest io call)) \<and>
     key \<in> set (gu_keys s) \<union> set (or_else (cr_keys replies) []) \<and> ck_key_id key = sg_key_id sg \<and>
     gi_verify io (ck_public_key key) (sg_payload sg) (sg_signature sg)" by auto
  moreover have "says_yes st" using taken_answer_yes assms(2) unfolding a by blast
  ultimately show ?thesis
    unfolding vouched_def using h poll_for_answered [OF p] by blast
qed

section \<open>Every allow has its ground\<close>

definition grounded ::
  "guard_io \<Rightarrow> guard_options \<Rightarrow> guard_call \<Rightarrow> cloud_replies \<Rightarrow> guard_state \<Rightarrow> bool" where
  "grounded io opts call replies s \<longleftrightarrow>
     (let effect = (\<lambda>q. er_effect (rule_on opts call s q)); requests = calls_requests io call
      in list_all (\<lambda>q. effect q = ALLOW) requests \<or>
         list_all (\<lambda>q. effect q \<noteq> DENY) requests \<and>
         (list_ex (\<lambda>q. guard_grant_key (gc_session_id call) q \<in> set (gu_grants s)) requests \<or>
          vouched io call replies s))"

lemma decide_on_grounded:
  assumes "decide_on io opts call replies (calls_requests io call) s = Some (d, s')" and "dn_allowed d"
    and "go_require_signed opts"
  shows "grounded io opts call replies s"
proof (cases "calls_requests io call")
  case Nil
  then show ?thesis by (simp add: grounded_def)
next
  case (Cons first others)
  obtain q r where qr: "strictest opts call s first others = (q, r)" by (cases "strictest opts call s first others")
  note top = strictest_in [OF qr]
  let ?g = "guard_grant_key (gc_session_id call) q"
  note decided = assms(1) [unfolded decide_on_def Cons, simplified qr list.case Let_def prod.case]
  consider "er_effect r = ALLOW" | "er_effect r = ASK" "?g \<in> set (gu_grants s)"
    | "er_effect r = ASK" "?g \<notin> set (gu_grants s)" | "er_effect r = DENY" by (cases "er_effect r") auto
  then show ?thesis
  proof cases
    case 1
    with top(3) show ?thesis
      unfolding grounded_def Let_def Cons list_all_iff by (metis STRICTNESS_simps(1))
  next
    case 2
    from 2(1) top(3) have "list_all (\<lambda>q. er_effect (rule_on opts call s q) \<noteq> DENY) (first # others)"
      unfolding list_all_iff by (metis STRICTNESS_simps(2))
    with 2(2) top(1) show ?thesis unfolding grounded_def Let_def Cons list_ex_iff by blast
  next
    case 3
    from 3(1) top(3) have "list_all (\<lambda>q. er_effect (rule_on opts call s q) \<noteq> DENY) (first # others)"
      unfolding list_all_iff by (metis STRICTNESS_simps(2))
    moreover from decided 3 obtain a t where "ask io opts call replies q r s = Some (a, t)" and "d = an_decision a"
      by (auto simp: settle_def split: option.splits)
    with assms(2,3) have "vouched io call replies s" using ask_yes_is_vouched by blast
    ultimately show ?thesis unfolding grounded_def Let_def Cons by blast
  next
    case 4
    with decided assms(2) show ?thesis by (auto simp: settle_def guard_refused_def)
  qed
qed

lemma decide_on_frame:
  assumes "decide_on io opts call replies (calls_requests io call) s = Some (d, s')"
  shows "gu_paused s' = gu_paused s" "gu_engine s' = gu_engine s"
    and "go_require_signed opts \<Longrightarrow> g \<in> set (gu_grants s') \<Longrightarrow> g \<notin> set (gu_grants s) \<Longrightarrow>
      vouched io call replies s \<and> g \<in> guard_grant_key (gc_session_id call) ` set (calls_requests io call)"
proof -
  have "gu_paused s' = gu_paused s \<and> gu_engine s' = gu_engine s \<and>
      (go_require_signed opts \<longrightarrow> g \<in> set (gu_grants s') \<longrightarrow> g \<notin> set (gu_grants s) \<longrightarrow>
      vouched io call replies s \<and> g \<in> guard_grant_key (gc_session_id call) ` set (calls_requests io call))"
  proof (cases "calls_requests io call")
    case Nil
    with assms have "s' = snd (settle io opts call (guard_allowed ''nothing in this call is ruled on'' None) ALLOW None
        (gc_at call) s)" by (simp add: decide_on_def)
    then show ?thesis by simp
  next
    case (Cons first others)
    obtain q r where qr: "strictest opts call s first others = (q, r)" by (cases "strictest opts call s first others")
    let ?g = "guard_grant_key (gc_session_id call) q"
    note decided = assms [unfolded decide_on_def Cons, simplified qr list.case Let_def prod.case]
    show ?thesis
    proof (cases "er_effect r = ASK \<and> ?g \<notin> set (gu_grants s)")
      case True
      with decided obtain a t where a: "ask io opts call replies q r s = Some (a, t)"
        by (auto split: option.splits)
      let ?t = "if an_allows a \<and> an_grants_session a then t\<lparr>gu_grants := List.insert ?g (gu_grants t)\<rparr> else t"
      from decided True a have s': "s' = snd (settle io opts call (an_decision a) ASK (Some q) (cr_settled_at replies) ?t)"
        by (simp add: snd_def split: prod.splits)
      have "gu_grants s' = gu_grants s \<or> an_allows a \<and> gu_grants s' = List.insert ?g (gu_grants s)"
        by (simp add: s' ask_parts [OF a])
      moreover have "an_allows a \<Longrightarrow> go_require_signed opts \<Longrightarrow> vouched io call replies s"
        using ask_yes_is_vouched [OF a] by blast
      moreover have "?g \<in> guard_grant_key (gc_session_id call) ` set (calls_requests io call)"
        using strictest_in(1) [OF qr] unfolding Cons by blast
      moreover have "gu_paused s' = gu_paused s \<and> gu_engine s' = gu_engine s"
        by (simp add: s' ask_parts [OF a])
      ultimately show ?thesis by auto
    next
      case False
      with decided obtain x e where "settle io opts call x e (Some q) (gc_at call) s = (d, s')"
        by (cases "er_effect r") auto
      from settled [OF this] show ?thesis by simp
    qed
  qed
  then show "gu_paused s' = gu_paused s" "gu_engine s' = gu_engine s"
    "go_require_signed opts \<Longrightarrow> g \<in> set (gu_grants s') \<Longrightarrow> g \<notin> set (gu_grants s) \<Longrightarrow>
      vouched io call replies s \<and> g \<in> guard_grant_key (gc_session_id call) ` set (calls_requests io call)"
    by blast+
qed

section \<open>Pauses\<close>

lemma still_paused_unless_resumed:
  assumes "map_of (gu_paused s) session \<noteq> None" "resumed \<noteq> Some True"
  shows "fst (still_paused resumed session now s) \<noteq> None"
    and "map_of (gu_paused (snd (still_paused resumed session now s))) session \<noteq> None"
  using assms by (auto simp: still_paused_def Let_def AList.update_conv')

lemma still_paused_others:
  assumes "map_of (gu_paused s) session \<noteq> None" "session \<noteq> other"
  shows "map_of (gu_paused (snd (still_paused resumed other now s))) session \<noteq> None"
  using assms by (auto simp: still_paused_def resume_def Let_def AList.update_conv' AList.delete_conv' split: option.split)

lemma authorize_paused:
  assumes "authorize io opts call replies s = Some (d, s')" "map_of (gu_paused s) (gc_session_id call) \<noteq> None"
    and "cr_resumed replies \<noteq> Some True"
  shows "\<not> dn_allowed d" and "map_of (gu_paused s') (gc_session_id call) \<noteq> None"
proof -
  let ?n = "note_session opts call s"
  obtain x t where t: "still_paused (cr_resumed replies) (gc_session_id call) (gc_at call) ?n = (x, t)"
    by (cases "still_paused (cr_resumed replies) (gc_session_id call) (gc_at call) ?n")
  have "map_of (gu_paused ?n) (gc_session_id call) \<noteq> None" using assms(2) by simp
  note p = still_paused_unless_resumed [OF this assms(3), of "gc_at call"]
  then obtain pause where x: "x = Some pause" using t by auto
  from assms(1) have "settle io opts call (paused_decision (gp_breach pause)) DENY None (gc_at call) t = (d, s')"
    by (simp add: authorize_def t x)
  from settled [OF this] have "d = paused_decision (gp_breach pause)" "gu_paused s' = gu_paused t" by simp_all
  with p(2) t show "\<not> dn_allowed d" "map_of (gu_paused s') (gc_session_id call) \<noteq> None"
    by (simp_all add: paused_decision_def)
qed

lemma authorize_cases:
  assumes "authorize io opts call replies s = Some (d, s')"
  obtains (stopped) pause t where
      "still_paused (cr_resumed replies) (gc_session_id call) (gc_at call) (note_session opts call s) = (Some pause, t)"
      "\<not> dn_allowed d" "gu_paused s' = gu_paused t" "gu_engine s' = gu_engine s" "gu_grants s' = gu_grants s"
  | (ruled) t where
      "still_paused (cr_resumed replies) (gc_session_id call) (gc_at call) (note_session opts call s) = (None, t)"
      "decide_on io opts call replies (calls_requests io call) t = Some (d, s')"
      "gu_engine t = gu_engine s" "gu_grants t = gu_grants s" "gu_keys t = gu_keys s"
proof -
  let ?found = "still_paused (cr_resumed replies) (gc_session_id call) (gc_at call) (note_session opts call s)"
  obtain x t where t: "?found = (x, t)" by (cases ?found)
  have u: "gu_engine t = gu_engine s" "gu_grants t = gu_grants s" "gu_keys t = gu_keys s"
    using still_paused_parts [of "cr_resumed replies" "gc_session_id call" "gc_at call" "note_session opts call s"]
    by (simp_all add: t)
  show thesis
  proof (cases x)
    case None
    with assms t show thesis using ruled u by (simp add: authorize_def)
  next
    case (Some pause)
    with assms t have e: "settle io opts call (paused_decision (gp_breach pause)) DENY None (gc_at call) t = (d, s')"
      by (simp add: authorize_def)
    from settled [OF this] have "d = paused_decision (gp_breach pause)" "gu_paused s' = gu_paused t"
      "gu_engine s' = gu_engine s" "gu_grants s' = gu_grants s" by (simp_all add: u)
    then show thesis using stopped [of pause t] t Some by (simp add: paused_decision_def)
  qed
qed

lemma authorize_other_pauses:
  assumes "authorize io opts call replies s = Some (d, s')" "map_of (gu_paused s) session \<noteq> None"
    and "session \<noteq> gc_session_id call"
  shows "map_of (gu_paused s') session \<noteq> None"
proof -
  have "map_of (gu_paused (note_session opts call s)) session \<noteq> None" using assms(2) by simp
  note p = still_paused_others [OF this assms(3), of "cr_resumed replies" "gc_at call"]
  from assms(1) show ?thesis
    by (cases rule: authorize_cases) (use p decide_on_frame(1) in auto)
qed

section \<open>Runs of the guard\<close>

datatype guard_event =
    CALLED guard_call cloud_replies
  | ENDED guard_call call_outcome
  | RESUMED string
  | REFRESHED "bundle_fetch option option" "cloud_key list option"
  | FLUSHED "bool list"

text \<open>A call with what the plane answered it, the state it found and the decision.\<close>

record ruling =
  rg_call :: guard_call
  rg_replies :: cloud_replies
  rg_state :: guard_state
  rg_decision :: guard_decision

fun apply_event :: "guard_io \<Rightarrow> guard_options \<Rightarrow> guard_event \<Rightarrow> guard_state \<Rightarrow> (ruling list \<times> guard_state) option" where
  "apply_event io opts (CALLED call replies) s =
     (case authorize io opts call replies s of
        None \<Rightarrow> None
      | Some (d, s') \<Rightarrow> Some ([\<lparr>rg_call = call, rg_replies = replies, rg_state = s, rg_decision = d\<rparr>], s'))"
| "apply_event io opts (ENDED call result) s = Some ([], outcome io opts call result s)"
| "apply_event io opts (RESUMED session) s = Some ([], resume session s)"
| "apply_event io opts (REFRESHED fetched keys) s = Some ([], refresh_rules io opts fetched keys s)"
| "apply_event io opts (FLUSHED outcomes) s = Some ([], snd (flush outcomes s))"

text \<open>\<open>None\<close> where a call of the run is still waiting.\<close>

fun guard_run ::
  "guard_io \<Rightarrow> guard_options \<Rightarrow> guard_event list \<Rightarrow> guard_state \<Rightarrow> (ruling list \<times> guard_state) option" where
  "guard_run io opts [] s = Some ([], s)"
| "guard_run io opts (e # events) s =
     (case apply_event io opts e s of
        None \<Rightarrow> None
      | Some (made, s1) \<Rightarrow>
          (case guard_run io opts events s1 of
             None \<Rightarrow> None
           | Some (rest, s2) \<Rightarrow> Some (made @ rest, s2)))"

lemma guard_run_Cons:
  assumes "guard_run io opts (e # events) s = Some (rulings, t)"
  obtains made s1 rest where "apply_event io opts e s = Some (made, s1)"
    "guard_run io opts events s1 = Some (rest, t)" "rulings = made @ rest"
  using assms by (auto split: option.splits)

lemma outcome_parts [simp]:
  "gu_engine (outcome io opts call result s) = gu_engine s" "gu_grants (outcome io opts call result s) = gu_grants s"
  by (simp_all add: outcome_def split: prod.split option.split)

lemma outcome_paused:
  "map_of (gu_paused s) session \<noteq> None \<Longrightarrow> map_of (gu_paused (outcome io opts call result s)) session \<noteq> None"
  by (simp add: outcome_def AList.update_conv' split: prod.split option.split)

lemma resume_parts [simp]:
  "gu_engine (resume session s) = gu_engine s" "gu_grants (resume session s) = gu_grants s"
  by (simp_all add: resume_def)

lemma bundle_signed_parts [simp]:
  "gu_engine (snd (bundle_signed io opts keys b s)) = gu_engine s"
  "gu_grants (snd (bundle_signed io opts keys b s)) = gu_grants s"
  "gu_paused (snd (bundle_signed io opts keys b s)) = gu_paused s"
  "gu_bundle_hash (snd (bundle_signed io opts keys b s)) = gu_bundle_hash s"
  "gu_etag (snd (bundle_signed io opts keys b s)) = gu_etag s"
  by (simp_all add: bundle_signed_def case_prod_beta Let_def split: option.split)

lemma refresh_rules_cases:
  obtains (kept) "gu_engine (refresh_rules io opts fetched keys s) = gu_engine s"
      "gu_bundle_hash (refresh_rules io opts fetched keys s) = gu_bundle_hash s"
      "gu_etag (refresh_rules io opts fetched keys s) = gu_etag s"
  | (taken) b policies where "fetched = Some (Some b)" "fst (bundle_signed io opts keys b s)"
      "policies_from_bundle (bf_rules b) (go_machine_class opts) = Inr policies"
      "gu_engine (refresh_rules io opts fetched keys s) =
         new_engine (gi_version io) (default_policies @ policies) None"
      "gu_bundle_hash (refresh_rules io opts fetched keys s) = Some (bf_hash b)"
proof (cases "\<exists>b. fetched = Some (Some b)")
  case True
  then obtain b where b: "fetched = Some (Some b)" by blast
  obtain signed s1 where g: "bundle_signed io opts keys b s = (signed, s1)"
    by (cases "bundle_signed io opts keys b s")
  with bundle_signed_parts [of io opts keys b s]
  have u: "gu_engine s1 = gu_engine s" "gu_bundle_hash s1 = gu_bundle_hash s" "gu_etag s1 = gu_etag s" by simp_all
  show thesis
  proof (cases "policies_from_bundle (bf_rules b) (go_machine_class opts)")
    case (Inl x)
    with b g u show thesis by (intro kept; cases signed) (simp_all add: refresh_rules_def)
  next
    case (Inr policies)
    show thesis
    proof (cases signed)
      case True
      show thesis by (rule taken [OF b _ Inr]) (simp_all add: refresh_rules_def b g Inr True)
    next
      case False
      show thesis by (rule kept) (simp_all add: refresh_rules_def b g u False)
    qed
  qed
next
  case False
  then show thesis by (intro kept) (auto simp: refresh_rules_def split: option.split)
qed

lemma refresh_rules_parts [simp]:
  "gu_grants (refresh_rules io opts fetched keys s) = gu_grants s"
  "gu_paused (refresh_rules io opts fetched keys s) = gu_paused s"
proof -
  have "gu_grants (refresh_rules io opts fetched keys s) = gu_grants s \<and>
      gu_paused (refresh_rules io opts fetched keys s) = gu_paused s"
  proof (cases "\<exists>b. fetched = Some (Some b)")
    case True
    then obtain b where b: "fetched = Some (Some b)" by blast
    obtain signed s1 where g: "bundle_signed io opts keys b s = (signed, s1)"
      by (cases "bundle_signed io opts keys b s")
    with bundle_signed_parts [of io opts keys b s]
    have u: "gu_grants s1 = gu_grants s" "gu_paused s1 = gu_paused s" by simp_all
    show ?thesis by (cases signed) (simp_all add: refresh_rules_def b g u split: sum.split)
  qed (auto simp: refresh_rules_def split: option.split)
  then show "gu_grants (refresh_rules io opts fetched keys s) = gu_grants s"
    "gu_paused (refresh_rules io opts fetched keys s) = gu_paused s" by blast+
qed

lemma flush_parts [simp]:
  "gu_grants (snd (flush outcomes s)) = gu_grants s" "gu_paused (snd (flush outcomes s)) = gu_paused s"
  by (simp_all add: flush_def case_prod_beta Let_def)

section \<open>A grant comes from an answer\<close>

definition backs :: "guard_io \<Rightarrow> string \<Rightarrow> ruling \<Rightarrow> bool" where
  "backs io g x \<longleftrightarrow>
     vouched io (rg_call x) (rg_replies x) (rg_state x) \<and>
     g \<in> guard_grant_key (gc_session_id (rg_call x)) ` set (calls_requests io (rg_call x))"

lemma vouched_keys: "gu_keys s = gu_keys t \<Longrightarrow> vouched io call replies s = vouched io call replies t"
  by (simp add: vouched_def)

lemma authorize_grants:
  assumes "authorize io opts call replies s = Some (d, s')" "go_require_signed opts"
    and "g \<in> set (gu_grants s')" "g \<notin> set (gu_grants s)"
  shows "vouched io call replies s \<and> g \<in> guard_grant_key (gc_session_id call) ` set (calls_requests io call)"
  using assms(1)
proof (cases rule: authorize_cases)
  case (stopped pause t)
  with assms show ?thesis by simp
next
  case (ruled t)
  with decide_on_frame(3) [OF ruled(2) assms(2,3)] assms(4) vouched_keys [OF ruled(5)] show ?thesis by simp
qed

lemma authorize_grounded:
  assumes "authorize io opts call replies s = Some (d, s')" "go_require_signed opts" "dn_allowed d"
  shows "grounded io opts call replies s"
  using assms(1)
proof (cases rule: authorize_cases)
  case (stopped pause t)
  with assms(3) show ?thesis by simp
next
  case (ruled t)
  from decide_on_grounded [OF ruled(2) assms(3,2)] show ?thesis
    by (simp add: grounded_def Let_def ruled(4) rule_on_engine [OF ruled(3)] vouched_keys [OF ruled(5)])
qed

lemma apply_event_grants:
  assumes "apply_event io opts e s = Some (made, s1)" "go_require_signed opts"
    and "g \<in> set (gu_grants s1)" "g \<notin> set (gu_grants s)"
  shows "list_ex (backs io g) made"
proof (cases e)
  case (CALLED call replies)
  with assms(1) obtain d where d: "authorize io opts call replies s = Some (d, s1)"
    and made: "made = [\<lparr>rg_call = call, rg_replies = replies, rg_state = s, rg_decision = d\<rparr>]"
    by (auto split: option.splits)
  from authorize_grants [OF d assms(2-4)] show ?thesis by (simp add: made backs_def)
qed (use assms in auto)

text \<open>The ground of an allow in a run: what went before it counts with its own answer.\<close>

definition ground_in :: "guard_io \<Rightarrow> guard_options \<Rightarrow> ruling list \<Rightarrow> ruling \<Rightarrow> bool" where
  "ground_in io opts earlier x \<longleftrightarrow>
     (let effect = (\<lambda>q. er_effect (rule_on opts (rg_call x) (rg_state x) q));
          requests = calls_requests io (rg_call x)
      in list_all (\<lambda>q. effect q = ALLOW) requests \<or>
         list_all (\<lambda>q. effect q \<noteq> DENY) requests \<and>
         list_ex (\<lambda>q. list_ex (backs io (guard_grant_key (gc_session_id (rg_call x)) q)) (earlier @ [x])) requests)"

lemma apply_event_ground:
  assumes "apply_event io opts e s = Some (made, s1)" "go_require_signed opts"
    and backed: "\<And>g. g \<in> set (gu_grants s) \<Longrightarrow> list_ex (backs io g) earlier"
    and "x \<in> set made" "dn_allowed (rg_decision x)"
  shows "made = [x] \<and> ground_in io opts earlier x"
proof -
  from assms(1,4) obtain call replies where e: "e = CALLED call replies" by (cases e) auto
  with assms(1,4) obtain d where d: "authorize io opts call replies s = Some (d, s1)"
    and made: "made = [\<lparr>rg_call = call, rg_replies = replies, rg_state = s, rg_decision = d\<rparr>]"
    by (auto split: option.splits)
  with assms(4,5) have x: "x = \<lparr>rg_call = call, rg_replies = replies, rg_state = s, rg_decision = d\<rparr>"
    and a: "dn_allowed d" by auto
  let ?qs = "calls_requests io call"
  from authorize_grounded [OF d assms(2) a]
  consider "list_all (\<lambda>q. er_effect (rule_on opts call s q) = ALLOW) ?qs"
    | q where "list_all (\<lambda>q. er_effect (rule_on opts call s q) \<noteq> DENY) ?qs" "q \<in> set ?qs"
        "guard_grant_key (gc_session_id call) q \<in> set (gu_grants s)"
    | "list_all (\<lambda>q. er_effect (rule_on opts call s q) \<noteq> DENY) ?qs" "?qs \<noteq> []" "vouched io call replies s"
    unfolding grounded_def Let_def list_ex_iff by (cases "?qs = []") auto
  then have "ground_in io opts earlier x"
  proof cases
    case 1
    then show ?thesis by (simp add: ground_in_def x)
  next
    case 2
    from backed [OF 2(3)] 2(1,2) show ?thesis
      by (auto simp: ground_in_def x list_ex_iff Let_def)
  next
    case 3
    then obtain q where "q \<in> set ?qs" by (cases ?qs) auto
    with 3 show ?thesis by (auto simp: ground_in_def x list_ex_iff backs_def Let_def)
  qed
  with made x show ?thesis by simp
qed

lemma run_ground:
  assumes "guard_run io opts events s = Some (rulings, t)" "go_require_signed opts"
    and "\<And>g. g \<in> set (gu_grants s) \<Longrightarrow> list_ex (backs io g) past"
    and "rulings = earlier @ x # later" "dn_allowed (rg_decision x)"
  shows "ground_in io opts (past @ earlier) x"
  using assms(1,3,4)
proof (induction events arbitrary: s rulings past earlier)
  case (Cons e events)
  obtain made s1 rest where m: "apply_event io opts e s = Some (made, s1)"
    and r: "guard_run io opts events s1 = Some (rest, t)" and rulings: "rulings = made @ rest"
    using guard_run_Cons [OF Cons.prems(1)] .
  have backed: "list_ex (backs io g) (past @ made)" if "g \<in> set (gu_grants s1)" for g
    using apply_event_grants [OF m assms(2) that] Cons.prems(2) [of g] by (auto simp: list_ex_iff)
  show ?case
  proof (cases "x \<in> set made \<and> earlier = []")
    case True
    from apply_event_ground [OF m assms(2) Cons.prems(2) _ assms(5)] True show ?thesis by auto
  next
    case False
    have "length made \<le> 1" using m by (cases e) (auto split: option.splits)
    with False Cons.prems(3) rulings obtain before' where "earlier = made @ before'" "rest = before' @ x # later"
      by (cases made; cases earlier) auto
    from Cons.IH [OF r backed this(2)] show ?thesis by (simp add: \<open>earlier = made @ before'\<close>)
  qed
qed simp

section \<open>A paused session\<close>

text \<open>The event lets the session go on: a person resumes it, or the plane says one did.\<close>

fun lifts_pause :: "string \<Rightarrow> guard_event \<Rightarrow> bool" where
  "lifts_pause session (RESUMED other) \<longleftrightarrow> other = session"
| "lifts_pause session (CALLED call replies) \<longleftrightarrow>
     gc_session_id call = session \<and> cr_resumed replies = Some True"
| "lifts_pause session _ \<longleftrightarrow> False"

lemma apply_event_paused:
  assumes "apply_event io opts e s = Some (made, s1)" "map_of (gu_paused s) session \<noteq> None"
    and "\<not> lifts_pause session e"
  shows "map_of (gu_paused s1) session \<noteq> None"
    and "x \<in> set made \<Longrightarrow> gc_session_id (rg_call x) = session \<Longrightarrow> \<not> dn_allowed (rg_decision x)"
proof -
  have "map_of (gu_paused s1) session \<noteq> None \<and>
    (x \<in> set made \<longrightarrow> gc_session_id (rg_call x) = session \<longrightarrow> \<not> dn_allowed (rg_decision x))"
  proof (cases e)
    case (CALLED call replies)
    with assms(1) obtain d where d: "authorize io opts call replies s = Some (d, s1)"
      and made: "made = [\<lparr>rg_call = call, rg_replies = replies, rg_state = s, rg_decision = d\<rparr>]"
      by (auto split: option.splits)
    show ?thesis
    proof (cases "gc_session_id call = session")
      case True
      with authorize_paused [OF d] assms(2,3) CALLED made show ?thesis by auto
    next
      case False
      with authorize_other_pauses [OF d assms(2)] made show ?thesis by auto
    qed
  next
    case (RESUMED other)
    with assms show ?thesis by (auto simp: resume_def AList.delete_conv')
  qed (use assms outcome_paused in auto)
  then show "map_of (gu_paused s1) session \<noteq> None"
    "x \<in> set made \<Longrightarrow> gc_session_id (rg_call x) = session \<Longrightarrow> \<not> dn_allowed (rg_decision x)" by blast+
qed

section \<open>A wait ends\<close>

lemma poll_for_ends:
  assumes "deadline \<le> now \<or> list_ex (\<lambda>p. deadline \<le> snd p) polls"
  shows "poll_for deadline now polls \<noteq> None"
  using assms
proof (induction polls arbitrary: now)
  case Nil
  then show ?case by (simp add: poll_for.simps [of deadline now "[]"] up_to_def)
next
  case (Cons p rest)
  obtain st after where p: "p = (st, after)" by (cases p)
  show ?case
  proof (cases "deadline \<le> now")
    case True
    then show ?thesis by (simp add: poll_for.simps [of deadline now "p # rest"] up_to_def pos_imp_zdiv_nonneg_iff)
  next
    case False
    with Cons.prems have "poll_for deadline after rest \<noteq> None" by (intro Cons.IH) (auto simp: p)
    then show ?thesis
      by (simp add: p poll_for.simps [of deadline now "(st, after) # rest"] split: option.split held_status.split)
  qed
qed

lemma ask_ends:
  assumes "\<And>held_id after. cr_raised replies = Some (held_id, after) \<Longrightarrow>
      list_ex (\<lambda>p. gc_at call + go_wait_ms opts \<le> snd p) (cr_polls replies)"
  shows "ask io opts call replies q r s \<noteq> None"
proof (cases "cr_raised replies")
  case None
  then show ?thesis by (simp add: ask_def)
next
  case (Some a)
  obtain h after where a: "cr_raised replies = Some (h, after)" using Some by (cases a) simp
  have "poll_for (gc_at call + go_wait_ms opts) after (cr_polls replies) \<noteq> None"
    by (rule poll_for_ends) (use assms [OF a] in simp)
  then obtain e where e: "poll_for (gc_at call + go_wait_ms opts) after (cr_polls replies) = Some e" by blast
  show ?thesis
  proof (cases e)
    case (POLL_ANSWERED state)
    then show ?thesis
      by (cases "answered io opts call replies state h r
            (s\<lparr>gu_asked := gu_asked s @ [held_ask_of io opts call q r]\<rparr>)")
         (simp add: ask_def a e split: option.split)
  qed (simp_all add: ask_def a e)
qed

section \<open>An example\<close>

definition sample_claims :: json where
  "sample_claims = JObj [(''callId'', JStr ''q1''), (''answer'', JStr ''session''),
     (''argsDigest'', JStr (json_text (\<lambda>_. []) (Some [''id'']) (JObj [(''id'', JStr ''5'')])))]"

definition sample_io :: guard_io where
  "sample_io =
     \<lparr>gi_command = \<lparr>io_url_host = (\<lambda>_. None), io_url_hostname = (\<lambda>_. None), io_file = (\<lambda>_. None), io_cwd = ''/w''\<rparr>,
      gi_base64 = (\<lambda>s. s), gi_number = (\<lambda>_. []), gi_digest = (\<lambda>s. s), gi_redact = (\<lambda>s. s),
      gi_json = (\<lambda>s. if s = ''signed'' then Some sample_claims else None),
      gi_verify = (\<lambda>key payload sig. key = ''k'' \<and> payload \<in> {''signed'', ''body''} \<and> sig = ''s''),
      gi_version = sample_version\<rparr>"

definition sample_options :: guard_options where
  "sample_options =
     \<lparr>go_agent = ''worker'', go_machine_class = None, go_wait_ms = DEFAULT_WAIT_MS, go_require_signed = True,
      go_require_device_proof = False\<rparr>"

definition ask_tools :: policy where
  "ask_tools = allow_git\<lparr>p_match := (p_match allow_git)\<lparr>pm_actions := [''tool.*'']\<rparr>,
     p_decision := (p_decision allow_git)\<lparr>pd_effect := ASK\<rparr>\<rparr>"

definition sample_guard :: guard_state where
  "sample_guard = \<lparr>gu_engine = new_engine sample_version [ask_tools] None, gu_bundle_hash = None, gu_etag = None,
      gu_keys = [], gu_breaker = [], gu_paused = [], gu_grants = [], gu_seen = [], gu_pending = [], gu_asked = []\<rparr>"

definition sample_call :: "string \<Rightarrow> time \<Rightarrow> guard_call" where
  "sample_call n now =
     \<lparr>gc_tool = ''pay'', gc_input = [(''id'', JStr n)], gc_session_id = ''s'', gc_cwd = None, gc_at = now, gc_row_id = n\<rparr>"

definition sample_yes :: cloud_replies where
  "sample_yes =
     \<lparr>cr_raised = Some (''q1'', 1),
      cr_polls = [(Some \<lparr>hs_status = HELD_PENDING, hs_answer = None, hs_by = None, hs_door = None, hs_signed = None\<rparr>, 25000),
        (Some \<lparr>hs_status = HELD_ANSWERED, hs_answer = Some ''session'', hs_by = Some ''ana'', hs_door = None,
          hs_signed = Some \<lparr>sg_payload = ''signed'', sg_signature = ''s'', sg_key_id = ''k1''\<rparr>\<rparr>, 26000)],
      cr_keys = Some [\<lparr>ck_key_id = ''k1'', ck_public_key = ''k''\<rparr>], cr_resumed = None, cr_settled_at = 26000\<rparr>"

definition no_reply :: cloud_replies where
  "no_reply = \<lparr>cr_raised = None, cr_polls = [], cr_keys = None, cr_resumed = None, cr_settled_at = 0\<rparr>"

text \<open>A call a person allows for the session, and one like it later that nobody is asked about.\<close>

definition sample_events :: "guard_event list" where
  "sample_events = [CALLED (sample_call ''5'' 0) sample_yes, CALLED (sample_call ''6'' 30000) no_reply]"

definition run_of :: "guard_event list \<Rightarrow> guard_state \<Rightarrow> ruling list \<times> guard_state" where
  "run_of events s = the (guard_run sample_io sample_options events s)"

lemma sample_run:
  "guard_run sample_io sample_options sample_events sample_guard = Some (run_of sample_events sample_guard)"
  "map (\<lambda>x. (dn_allowed (rg_decision x), dn_reason (rg_decision x))) (fst (run_of sample_events sample_guard)) =
     [(True, ''allowed by ana''), (True, ''allowed for this session by an earlier answer'')]"
proof -
  have "map_option (\<lambda>(rs, t). map (\<lambda>x. (dn_allowed (rg_decision x), dn_reason (rg_decision x))) rs)
      (guard_run sample_io sample_options sample_events sample_guard) =
    Some [(True, ''allowed by ana''), (True, ''allowed for this session by an earlier answer'')]" by code_simp
  then show "guard_run sample_io sample_options sample_events sample_guard = Some (run_of sample_events sample_guard)"
    "map (\<lambda>x. (dn_allowed (rg_decision x), dn_reason (rg_decision x))) (fst (run_of sample_events sample_guard)) =
     [(True, ''allowed by ana''), (True, ''allowed for this session by an earlier answer'')]"
    unfolding run_of_def by auto
qed

definition stopped_guard :: guard_state where
  "stopped_guard = sample_guard\<lparr>gu_paused :=
     [(''s'', \<lparr>gp_breach = breach_of NO_PROGRESS 8 8 ''nothing worked'', gp_at = 0, gp_checked_at = 0\<rparr>)]\<rparr>"

definition bare_bundle :: bundle_fetch where
  "bare_bundle = \<lparr>bf_rules = [], bf_hash = ''h'', bf_etag = None, bf_signature = Some ''k1:s'', bf_body = ''body''\<rparr>"

section \<open>Properties\<close>

text \<open>
  Property C11. Every allow of a run has its ground. Where answers have to be signed and the run starts
  with no grant, a call that is allowed either has nothing but allows among the rulings on its actions,
  or has no denial among them and one of its actions was said yes to in its session: an answer in the
  run, at this call or before it, whose signed payload names the question, the answer and the arguments
  of the call it was asked for.
\<close>

theorem every_allow_has_its_ground:
  assumes "guard_run io opts events s = Some (earlier @ x # later, t)" and "gu_grants s = []"
    and "go_require_signed opts" and "dn_allowed (rg_decision x)"
  shows "ground_in io opts earlier x"
  using run_ground [OF assms(1,3) _ refl assms(4), of "[]"] assms(2) by simp

theorem every_allow_has_its_ground_witness:
  "ground_in sample_io sample_options [fst (run_of sample_events sample_guard) ! 0]
     (fst (run_of sample_events sample_guard) ! 1)"
proof -
  obtain x y t where r: "run_of sample_events sample_guard = ([x] @ y # [], t)" and a: "dn_allowed (rg_decision y)"
    using sample_run(2) by (cases "run_of sample_events sample_guard") (auto simp: map_eq_Cons_conv)
  have "guard_run sample_io sample_options sample_events sample_guard = Some ([x] @ y # [], t)"
    using sample_run(1) unfolding r .
  then have "ground_in sample_io sample_options [x] y"
    by (rule every_allow_has_its_ground [OF _ _ _ a]) (simp_all add: sample_guard_def sample_options_def)
  then show ?thesis by (simp add: r)
qed

text \<open>
  Property C12. A paused session stays stopped. Once the breaker has paused a session, whatever calls
  come in, whatever they come to, whatever rules arrive and however the record is sent, no call of
  that session is allowed and the session is still paused, as long as nobody resumes it here and the
  plane does not say that somebody did; a plane that cannot be reached has not said so.
\<close>

theorem paused_session_stays_stopped:
  assumes "guard_run io opts events s = Some (rulings, t)" and "map_of (gu_paused s) session \<noteq> None"
    and "\<not> list_ex (lifts_pause session) events"
  shows "map_of (gu_paused t) session \<noteq> None \<and>
    list_all (\<lambda>x. dn_allowed (rg_decision x) \<longrightarrow> gc_session_id (rg_call x) \<noteq> session) rulings"
  using assms
proof (induction events arbitrary: s rulings)
  case (Cons e events)
  obtain made s1 rest where m: "apply_event io opts e s = Some (made, s1)"
    and r: "guard_run io opts events s1 = Some (rest, t)" and rulings: "rulings = made @ rest"
    using guard_run_Cons [OF Cons.prems(1)] .
  have "\<not> lifts_pause session e" using Cons.prems(3) by simp
  note step = apply_event_paused [OF m Cons.prems(2) this]
  have "\<not> list_ex (lifts_pause session) events" using Cons.prems(3) by simp
  from Cons.IH [OF r step(1) this] step(2) show ?case by (auto simp: rulings list_all_iff)
qed simp

theorem paused_session_stays_stopped_witness:
  "map_of (gu_paused (snd (run_of sample_events stopped_guard))) ''s'' \<noteq> None \<and>
   map (\<lambda>x. dn_allowed (rg_decision x)) (fst (run_of sample_events stopped_guard)) = [False, False]"
proof -
  have v: "map_option (\<lambda>(rs, t). map (\<lambda>x. dn_allowed (rg_decision x)) rs)
      (guard_run sample_io sample_options sample_events stopped_guard) = Some [False, False]" by code_simp
  then have r: "guard_run sample_io sample_options sample_events stopped_guard =
      Some (fst (run_of sample_events stopped_guard), snd (run_of sample_events stopped_guard))"
    unfolding run_of_def by auto
  have "map_of (gu_paused stopped_guard) ''s'' \<noteq> None" "\<not> list_ex (lifts_pause ''s'') sample_events"
    by (simp_all add: stopped_guard_def sample_events_def sample_yes_def no_reply_def)
  from paused_session_stays_stopped [OF r this] v r show ?thesis by (simp add: case_prod_beta)
qed

text \<open>
  Property C13. A question ends. Whatever the plane answers, a call whose question is polled until the
  clock has passed its deadline gets a decision, and so does one whose question could not be raised.
\<close>

theorem question_ends_at_its_deadline:
  assumes "cr_raised replies = None \<or>
    list_ex (\<lambda>p. gc_at call + go_wait_ms opts \<le> snd p) (cr_polls replies)"
  shows "\<exists>d s'. authorize io opts call replies s = Some (d, s')"
proof -
  have ends: "ask io opts call replies q r t \<noteq> None" for q r t by (rule ask_ends) (use assms in auto)
  have decided: "decide_on io opts call replies requests t \<noteq> None" for requests t
  proof (cases requests)
    case (Cons first others)
    obtain q r where "strictest opts call t first others = (q, r)" by (cases "strictest opts call t first others")
    moreover obtain a u where "ask io opts call replies q r t = Some (a, u)" using ends [of q r t] by auto
    ultimately show ?thesis by (simp add: Cons decide_on_def Let_def)
  qed (simp add: decide_on_def)
  obtain x t where "still_paused (cr_resumed replies) (gc_session_id call) (gc_at call) (note_session opts call s) = (x, t)"
    by (cases "still_paused (cr_resumed replies) (gc_session_id call) (gc_at call) (note_session opts call s)")
  with decided [of "calls_requests io call" t] show ?thesis
    by (cases x) (auto simp: authorize_def split: prod.split)
qed

theorem question_ends_at_its_deadline_witness:
  "\<exists>d s'. authorize sample_io (sample_options\<lparr>go_wait_ms := 20000\<rparr>) (sample_call ''5'' 0) sample_yes sample_guard = Some (d, s')"
  by (rule question_ends_at_its_deadline) (simp add: sample_yes_def sample_call_def)

text \<open>
  Property C14. A bundle nobody signed changes nothing. Where signatures are required, the rules of the
  guard after a fetch are the ones it had, or the recommended rules with those of a bundle whose text
  carries a signature of a key of the plane, the key the signature itself names.
\<close>

theorem forged_bundle_changes_nothing:
  assumes "go_require_signed opts" and "gu_engine (refresh_rules io opts fetched keys s) \<noteq> gu_engine s"
  shows "\<exists>b policies signature key. fetched = Some (Some b) \<and> bf_signature b = Some signature \<and>
    policies_from_bundle (bf_rules b) (go_machine_class opts) = Inr policies \<and>
    gu_engine (refresh_rules io opts fetched keys s) =
      new_engine (gi_version io) (default_policies @ policies) None \<and>
    key \<in> set (gu_keys s) \<union> set (or_else keys []) \<and>
    ck_key_id key = takeWhile (\<lambda>c. c \<noteq> CHR '':'') signature \<and>
    gi_verify io (ck_public_key key) (bf_body b) (drop (Suc (length (ck_key_id key))) signature)"
proof (cases rule: refresh_rules_cases [of io opts fetched keys s])
  case kept
  with assms(2) show ?thesis by simp
next
  case (taken b policies)
  from taken(2) assms(1) obtain signature key where sig: "bf_signature b = Some signature"
    and k: "fst (key_for keys (takeWhile (\<lambda>c. c \<noteq> CHR '':'') signature) s) = Some key"
    and v: "gi_verify io (ck_public_key key) (bf_body b)
      (drop (Suc (length (takeWhile (\<lambda>c. c \<noteq> CHR '':'') signature))) signature)"
    by (auto simp: bundle_signed_def Let_def case_prod_beta split: option.splits if_splits)
  from key_for_known [OF k] v sig taken(1,3,4) show ?thesis by auto
qed
theorem forged_bundle_changes_nothing_witness:
  "\<exists>key :: cloud_key. ck_key_id key = ''k1'' \<and> gi_verify sample_io (ck_public_key key) ''body'' ''s''"
proof -
  let ?keys = "Some [\<lparr>ck_key_id = ''k1'', ck_public_key = ''k''\<rparr>]"
  let ?s = "sample_guard\<lparr>gu_engine := new_engine sample_version [] (Some DENY)\<rparr>"
  have b: "policies_from_bundle [] None = Inr []" by code_simp
  have g: "fst (bundle_signed sample_io sample_options ?keys bare_bundle ?s)" by code_simp
  have "gu_engine (refresh_rules sample_io sample_options (Some (Some bare_bundle)) ?keys ?s) =
      new_engine sample_version (default_policies @ []) None"
  proof (cases "bundle_signed sample_io sample_options ?keys bare_bundle ?s")
    case (Pair signed s1)
    with g b show ?thesis
      by (simp add: refresh_rules_def bare_bundle_def sample_options_def sample_io_def)
  qed
  then have "gu_engine (refresh_rules sample_io sample_options (Some (Some bare_bundle)) ?keys ?s) \<noteq> gu_engine ?s"
    by (simp add: new_engine_def)
  note changed = forged_bundle_changes_nothing [OF _ this]
  have "go_require_signed sample_options" by (simp add: sample_options_def)
  from changed [OF this] show ?thesis
  proof (elim exE conjE)
    fix b signature and key :: cloud_key
    assume "Some (Some bare_bundle) = Some (Some b)" "bf_signature b = Some signature"
      and k: "ck_key_id key = takeWhile (\<lambda>c. c \<noteq> CHR '':'') signature"
      and v: "gi_verify sample_io (ck_public_key key) (bf_body b) (drop (Suc (length (ck_key_id key))) signature)"
    then have b: "bf_body b = ''body''" "signature = ''k1:s''" by (auto simp: bare_bundle_def)
    have id: "ck_key_id key = ''k1''" using k by (simp add: b)
    show ?thesis by (rule exI [of _ key]) (use v id in \<open>simp add: b id\<close>)
  qed
qed


section \<open>What is not ruled on\<close>

abbreviation words_and_stdin :: "parsed_command \<Rightarrow> string list \<times> string option" where
  "words_and_stdin c \<equiv> (pc_argv c, pc_stdin c)"

lemma requests_by_words:
  assumes "map words_and_stdin cs = map words_and_stdin ds"
  shows "map (request_of_command io) cs = map (request_of_command io) ds"
proof (rule nth_equalityI)
  show "length (map (request_of_command io) cs) = length (map (request_of_command io) ds)"
    using assms by (metis length_map)
  fix i assume "i < length (map (request_of_command io) cs)"
  then have "i < length cs" "i < length ds" using assms by (simp, metis length_map)
  moreover from this assms have "words_and_stdin (cs ! i) = words_and_stdin (ds ! i)"
    by (metis (no_types, lifting) nth_map)
  ultimately show "map (request_of_command io) cs ! i = map (request_of_command io) ds ! i"
    by (cases "pc_argv (ds ! i)") (simp_all add: request_of_command_def)
qed

lemma verb_table_for_path: "verb_table_for ''/usr/bin/git'' = None"
  unfolding verb_table_for_def VERB_TABLES_all by (simp add: table_names)

lemma path_no_statement: "resolve_sql_statement io None ''/usr/bin/git'' [''push'', ''--force''] (\<lambda>_. None) None = None"
  by code_simp
lemma path_no_reader: "resolve_reader ''/usr/bin/git'' [''push'', ''--force''] (\<lambda>_. None) = None"
  by code_simp
lemma path_no_writer: "resolve_writer ''/usr/bin/git'' [''push'', ''--force''] (\<lambda>_. None) = None"
  by code_simp
lemma path_not_generic: "resolve_generic io ''/usr/bin/git'' [''push'', ''--force''] = None"
  by code_simp

text \<open>
  A program named by its path is no program of the verb tables: a forced push is an ordinary command.
\<close>

theorem program_named_by_its_path_is_unknown:
  "map rq_action (shell_requests io ''/usr/bin/git push --force'') = [''shell.execute'']"
proof -
  let ?line = "''/usr/bin/git push --force''"
  let ?c = "\<lparr>pc_argv = [''/usr/bin/git'', ''push'', ''--force''], pc_stdin = None, pc_writes = []\<rparr>"
  have "map words_and_stdin (nc_parsed (normalize_shell_command b ?line)) = map words_and_stdin [?c]" for b
    by code_simp
  note p = requests_by_words [OF this, of io]
  have "map rq_action (request_of_command io ?c) = [''shell.execute'']"
    by (simp add: request_of_command_def resolve_command_def path_no_statement path_no_reader path_no_writer path_not_generic resolve_from_verb_table_def
        verb_table_for_path Let_def plain_action_def bare_request_def)
  moreover have "trim ?line \<noteq> []" by code_simp
  ultimately show ?thesis by (auto simp: shell_requests_def p Let_def)
qed

text \<open>
  The files a line's redirects write to are not ruled on: writing over a file and printing to the
  screen are the same requests.
\<close>

theorem redirects_are_not_ruled_on:
  "shell_requests io ''echo x > /etc/hosts'' = shell_requests io ''echo x'' \<and> shell_requests io ''echo x'' \<noteq> []"
proof -
  let ?c = "\<lparr>pc_argv = [''echo'', ''x''], pc_stdin = None, pc_writes = []\<rparr>"
  have "map words_and_stdin (nc_parsed (normalize_shell_command b ''echo x > /etc/hosts'')) = map words_and_stdin [?c]" for b
    by code_simp
  note p = requests_by_words [OF this, of io]
  have "map words_and_stdin (nc_parsed (normalize_shell_command b ''echo x'')) = map words_and_stdin [?c]" for b
    by code_simp
  note q = requests_by_words [OF this, of io]
  have "request_of_command io ?c \<noteq> []" by (simp add: request_of_command_def Let_def)
  moreover have "trim ''echo x > /etc/hosts'' \<noteq> []" "trim ''echo x'' \<noteq> []" by code_simp+
  ultimately show ?thesis by (simp add: shell_requests_def p q Let_def)
qed

text \<open>
  The \<open>shell\<close> tool with its command as a list of words has no action to be ruled on and is allowed.
\<close>

theorem listed_command_is_allowed:
  "case authorize io opts \<lparr>gc_tool = ''shell'', gc_input = [(''command'', JArr words)], gc_session_id = session,
      gc_cwd = cwd, gc_at = now, gc_row_id = row\<rparr> replies (s\<lparr>gu_paused := []\<rparr>) of
     None \<Rightarrow> False
   | Some (d, _) \<Rightarrow> d = guard_allowed ''nothing in this call is ruled on'' None"
proof -
  have "requests_for io ''shell'' [(''command'', JArr words)] cwd = []"
    by (simp add: requests_for_def mcp_tool_parts_def MCP_TOOL_PREFIX_def SHELL_TOOLS_def text_of_def
        shell_requests_def trim_def)
  then show ?thesis
    by (simp add: authorize_def note_session_def still_paused_def calls_requests_def decide_on_def settle_def)
qed

text \<open>
  The digest of the arguments leaves out whatever stands under a key that is not also one at the top:
  calls that differ there have one digest, and a yes signed for one is a yes for the other.
\<close>

theorem nested_arguments_are_not_digested:
  "args_digest_of io [(''file_path'', p), (''edits'', JArr [JObj [(''old'', a), (''new'', b)]])] =
   args_digest_of io [(''file_path'', p), (''edits'', JArr [JObj [(''old'', c), (''new'', d)]])]"
  by (simp add: args_digest_of_def args_text_def)

text \<open>
  Of the actions of a call that are each to be asked about, one is put to a person: a yes for the
  session to the first is a yes to every call that has it, whatever else is in the call.
\<close>

theorem other_questions_are_not_asked:
  assumes "er_effect (rule_on opts call s first) = ASK"
    and "list_all (\<lambda>q. er_effect (rule_on opts call s q) = ASK) others"
    and "guard_grant_key (gc_session_id call) first \<in> set (gu_grants s)"
  shows "case decide_on io opts call replies (first # others) s of
      None \<Rightarrow> False | Some (d, s') \<Rightarrow> dn_allowed d \<and> gu_asked s' = gu_asked s"
proof -
  have "foldl stricter (first, rule_on opts call s first) (map (\<lambda>q. (q, rule_on opts call s q)) others) =
      (first, rule_on opts call s first)"
    using assms(1,2) by (induction others) (simp_all add: stricter_def)
  then show ?thesis
    by (simp add: decide_on_def strictest_def assms(1,3) settle_def guard_allowed_def)
qed

end
