(* ===== verification/SharedWork.thy ===== *)
theory SharedWork
  imports JsonText "HOL-Library.Char_ord" "HOL-Library.List_Lexorder" "HOL-Library.Multiset"
begin

text \<open>
  Work that leaves the machine, as the workspace keeps agents from doing it twice:
  \<open>coordination/action-target.ts\<close> names the thing a call acts on, and \<open>coordination/shared-actions.ts\<close>
  the claim on it. The digest and the control plane's reply are arguments.
\<close>

section \<open>The thing a call acts on\<close>

record resource_shape =
  sh_fields :: "string list"
  sh_ref :: string

record provider_shapes =
  pv_matches :: "string list"
  pv_shapes :: "resource_shape list"

definition shape_of :: "string list \<Rightarrow> string \<Rightarrow> resource_shape" where
  "shape_of fs ref = \<lparr>sh_fields = fs, sh_ref = ref\<rparr>"

definition provider :: "string list \<Rightarrow> resource_shape list \<Rightarrow> provider_shapes" where
  "provider ms ss = \<lparr>pv_matches = ms, pv_shapes = ss\<rparr>"

definition PROVIDERS :: "provider_shapes list" where
  "PROVIDERS =
     [provider [''github'']
        [shape_of [''owner'', ''repo'', ''pull_number''] ''github:$1/$2#pull/$3'',
         shape_of [''owner'', ''repo'', ''issue_number''] ''github:$1/$2#issue/$3'',
         shape_of [''owner'', ''repo'', ''path''] ''github:$1/$2#file/$3'',
         shape_of [''owner'', ''repo'', ''branch''] ''github:$1/$2#branch/$3''],
      provider [''gitlab'']
        [shape_of [''project_id'', ''merge_request_iid''] ''gitlab:$1#merge/$2'',
         shape_of [''project_id'', ''issue_iid''] ''gitlab:$1#issue/$2''],
      provider [''slack'']
        [shape_of [''channel'', ''thread_ts''] ''slack:$1#$2'', shape_of [''channel_id'', ''thread_ts''] ''slack:$1#$2'',
         shape_of [''channel'', ''ts''] ''slack:$1#$2'', shape_of [''channel_id'', ''ts''] ''slack:$1#$2''],
      provider [''linear'']
        [shape_of [''issueId''] ''linear:$1'', shape_of [''issue_id''] ''linear:$1'', shape_of [''issueKey''] ''linear:$1''],
      provider [''jira'', ''atlassian'']
        [shape_of [''issueIdOrKey''] ''jira:$1'', shape_of [''issue_key''] ''jira:$1'', shape_of [''issueKey''] ''jira:$1''],
      provider [''confluence'', ''atlassian'']
        [shape_of [''pageId''] ''confluence:$1'', shape_of [''page_id''] ''confluence:$1''],
      provider [''notion'']
        [shape_of [''page_id''] ''notion:page/$1'', shape_of [''database_id''] ''notion:database/$1'',
         shape_of [''block_id''] ''notion:block/$1''],
      provider [''docs'', ''drive'']
        [shape_of [''documentId''] ''gdoc:$1'', shape_of [''document_id''] ''gdoc:$1'',
         shape_of [''fileId''] ''gdrive:$1'', shape_of [''file_id''] ''gdrive:$1''],
      provider [''calendar'']
        [shape_of [''eventId''] ''gcal:event/$1'', shape_of [''event_id''] ''gcal:event/$1''],
      provider [''gmail'', ''mail'']
        [shape_of [''threadId''] ''gmail:thread/$1'', shape_of [''thread_id''] ''gmail:thread/$1'',
         shape_of [''messageId''] ''gmail:message/$1'', shape_of [''message_id''] ''gmail:message/$1''],
      provider [''asana''] [shape_of [''task_gid''] ''asana:task/$1''],
      provider [''monday''] [shape_of [''itemId''] ''monday:item/$1'', shape_of [''item_id''] ''monday:item/$1''],
      provider [''clickup''] [shape_of [''task_id''] ''clickup:task/$1''],
      provider [''hubspot'']
        [shape_of [''objectType'', ''objectId''] ''hubspot:$1/$2'', shape_of [''dealId''] ''hubspot:deal/$1'',
         shape_of [''contactId''] ''hubspot:contact/$1''],
      provider [''salesforce''] [shape_of [''recordId''] ''salesforce:$1''],
      provider [''intercom'']
        [shape_of [''conversation_id''] ''intercom:conversation/$1'', shape_of [''contact_id''] ''intercom:contact/$1''],
      provider [''zendesk''] [shape_of [''ticket_id''] ''zendesk:ticket/$1''],
      provider [''pagerduty''] [shape_of [''incident_id''] ''pagerduty:incident/$1''],
      provider [''stripe'']
        [shape_of [''invoice''] ''stripe:invoice/$1'', shape_of [''subscription''] ''stripe:subscription/$1'']]"

definition digit_value :: "char \<Rightarrow> nat" where
  "digit_value c = (of_char c :: nat) - 48"

fun fill_ref :: "string list \<Rightarrow> string \<Rightarrow> string" where
  "fill_ref found (c # d # rest) =
     (if c = CHR ''$'' \<and> is_digit d
      then trim (if digit_value d = 0 \<or> length found < digit_value d then [] else found ! (digit_value d - 1)) @
        fill_ref found rest
      else c # fill_ref found (d # rest))"
| "fill_ref found rest = rest"

definition found_fields :: "(string \<times> string) list \<Rightarrow> resource_shape \<Rightarrow> string list option" where
  "found_fields args shape =
     (let found = map (map_of args) (sh_fields shape)
      in if list_ex (\<lambda>v. case v of None \<Rightarrow> True | Some s \<Rightarrow> trim s = []) found then None
         else Some (map the found))"

definition action_resource :: "string \<Rightarrow> (string \<times> string) list \<Rightarrow> string option" where
  "action_resource server args =
     (let shapes = concat (map pv_shapes
            (filter (\<lambda>p. list_ex (\<lambda>m. includes_text m (to_lower server)) (pv_matches p)) PROVIDERS))
      in foldr (\<lambda>shape. first_some (map_option (\<lambda>found. to_lower (fill_ref found (sh_ref shape))) (found_fields args shape)))
           shapes None)"

section \<open>A claim on an action\<close>

record intended_action =
  ia_operation :: string
  ia_target :: "string option"
  ia_arguments :: "(string \<times> string) list"
  ia_resource :: "string option"

definition NUL_CHAR :: string where "NUL_CHAR = [CHR 0x00]"

definition fingerprint_text :: "intended_action \<Rightarrow> string" where
  "fingerprint_text action =
     ia_operation action @ NUL_CHAR @ or_else (ia_target action) [] @ NUL_CHAR @
     join_with NUL_CHAR
       (map (\<lambda>key. key @ ''='' @ or_else (map_of (ia_arguments action) key) []) (sort (map fst (ia_arguments action))))"

definition action_fingerprint :: "(string \<Rightarrow> string) \<Rightarrow> intended_action \<Rightarrow> string" where
  "action_fingerprint digest action = digest (fingerprint_text action)"

record meeting =
  mt_duplicate :: bool
  mt_agent :: string
  mt_machine :: "string option"
  mt_at :: string
  mt_operation :: string
  mt_target :: "string option"
  mt_resource :: "string option"

datatype claim_outcome = CLAIM_MINE | CLAIM_MET meeting | CLAIM_UNKNOWN string

definition SHORT_ID :: nat where "SHORT_ID = 8"

definition is_hex_or_dash :: "char \<Rightarrow> bool" where
  "is_hex_or_dash c \<longleftrightarrow> is_digit c \<or> c \<in> set ''abcdefABCDEF-''"

definition short_machine :: "string \<Rightarrow> string" where
  "short_machine machine =
     (if length machine \<ge> 16 \<and> list_all is_hex_or_dash machine then take SHORT_ID machine else machine)"

definition meeting_reason :: "meeting \<Rightarrow> string" where
  "meeting_reason met =
     (let where_at = (case mt_machine met of None \<Rightarrow> [] | Some m \<Rightarrow> '' on '' @ short_machine m)
      in if mt_duplicate met
         then mt_agent met @ where_at @ '' claimed this exact action at '' @ mt_at met @
           '', so doing it again would repeat it. Do something else, or ask the person running you whether it should happen twice.''
         else mt_agent met @ where_at @ '' has been working on '' @ or_else (mt_resource met) ''this'' @ '' since '' @
           mt_at met @ '' ('' @ mt_operation met @
           ''). Work on something else, or ask the person running you which of you should own it.'')"

definition given_text :: "(rat \<Rightarrow> string) \<Rightarrow> (string \<times> json) list \<Rightarrow> string \<Rightarrow> string option" where
  "given_text number by key = map_option (js_text number) (map_of by key)"

text \<open>\<open>by[key] ?? otherwise\<close>.\<close>

definition text_or :: "(rat \<Rightarrow> string) \<Rightarrow> (string \<times> json) list \<Rightarrow> string \<Rightarrow> string \<Rightarrow> string" where
  "text_or number by key otherwise =
     (case map_of by key of None \<Rightarrow> otherwise | Some JNull \<Rightarrow> otherwise | Some v \<Rightarrow> js_text number v)"

text \<open>\<open>None\<close> where reading the reply throws: it names somebody, and that somebody is null.\<close>

definition parse_claim_reply :: "(rat \<Rightarrow> string) \<Rightarrow> (string \<Rightarrow> json option) \<Rightarrow> string \<Rightarrow> claim_outcome option" where
  "parse_claim_reply number read body =
     (case read body of
        Some (JObj fs) \<Rightarrow>
          (if map_of fs ''outcome'' \<in> {Some (JStr ''duplicate''), Some (JStr ''busy'')}
           then (case map_of fs ''by'' of
                   None \<Rightarrow> Some CLAIM_MINE
                 | Some JNull \<Rightarrow> None
                 | Some who \<Rightarrow>
                     (let by = (case who of JObj bs \<Rightarrow> bs | _ \<Rightarrow> [])
                      in Some (CLAIM_MET
                        \<lparr>mt_duplicate = (map_of fs ''outcome'' = Some (JStr ''duplicate'')),
                         mt_agent = text_or number by ''agent'' ''another agent'',
                         mt_machine = given_text number by ''machine'',
                         mt_at = text_or number by ''at'' ''just now'',
                         mt_operation = text_or number by ''operation'' ''the same thing'',
                         mt_target = given_text number by ''target'', mt_resource = given_text number by ''resource''\<rparr>)))
           else Some CLAIM_MINE)
      | _ \<Rightarrow> Some CLAIM_MINE)"

text \<open>The register as this machine reaches it: no account, no reply, a refusal, or a text to read.\<close>

datatype plane_reply = NOT_ENROLLED | NO_REPLY | REFUSED int | REPLIED string

definition cloud_claim :: "(rat \<Rightarrow> string) \<Rightarrow> (string \<Rightarrow> json option) \<Rightarrow> plane_reply \<Rightarrow> claim_outcome option" where
  "cloud_claim number read reply =
     (case reply of
        NOT_ENROLLED \<Rightarrow> Some (CLAIM_UNKNOWN ''this machine is not enrolled'')
      | NO_REPLY \<Rightarrow> Some (CLAIM_UNKNOWN ''the control plane did not answer'')
      | REFUSED status \<Rightarrow> Some (CLAIM_UNKNOWN (''the control plane answered '' @ number (of_int status)))
      | REPLIED body \<Rightarrow> parse_claim_reply number read body)"

section \<open>What the fingerprint tells apart\<close>

text \<open>
  A claim's text does not depend on the order the arguments came in.
\<close>

lemma fingerprint_of_arguments:
  assumes "distinct (map fst args)" "mset args = mset args'"
  shows "fingerprint_text (a\<lparr>ia_arguments := args\<rparr>) = fingerprint_text (a\<lparr>ia_arguments := args'\<rparr>)"
proof -
  have "mset (map fst args) = mset (map fst args')" using assms(2) by (metis mset_map)
  then have "sort (map fst args) = sort (map fst args')" by (metis properties_for_sort sorted_sort mset_sort)
  moreover have "distinct (map fst args')" using assms by (metis mset_map distinct_count_atmost_1 mset_eq_imp_distinct_iff)
  then have "map_of args = map_of args'" using assms by (metis map_of_inject_set mset_eq_setD)
  ultimately show ?thesis by (simp add: fingerprint_text_def)
qed

text \<open>
  The parts are joined by a character an argument may hold: one argument with it in its value and
  two arguments without it have one fingerprint.
\<close>

theorem joined_arguments_read_as_one:
  "fingerprint_text (a\<lparr>ia_arguments := [(''a'', ''x'' @ NUL_CHAR @ ''b=y'')]\<rparr>) =
   fingerprint_text (a\<lparr>ia_arguments := [(''a'', ''x''), (''b'', ''y'')]\<rparr>)"
proof -
  have "sort [''a'', ''b''] = [''a'', ''b'']" by code_simp
  then show ?thesis by (simp add: fingerprint_text_def NUL_CHAR_def)
qed

end
