(* ===== verification/McpProxy.thy ===== *)
theory McpProxy
  imports McpMessages SharedWork LocalGate HoldService SessionPauses
begin

text \<open>
  The proxy between an agent and an MCP server: \<open>packages/proxy/src/call-authorizer.ts\<close>,
  \<open>probation-authorizer.ts\<close>, \<open>duplicate-work.ts\<close>, \<open>session-limits.ts\<close>, \<open>firewall-session.ts\<close> and the chain
  \<open>firewall.ts\<close> builds. The session is a state that client lines, server lines, arriving notes and the
  end of the process change; a call is one step, taken when its verdict is known. What the rest of the
  machine says during a call, the person who is asked included, is an argument. A step that throws,
  which ends the proxy, is \<open>None\<close>.
\<close>

section \<open>Verdicts\<close>

record call_verdict =
  cv_effect :: decision_effect
  cv_reason :: string
  cv_signals :: "string list option"
  cv_alternative :: "alternative option"
  cv_decision_id :: "string option"
  cv_rule :: "string option"

definition plain_verdict :: "decision_effect \<Rightarrow> string \<Rightarrow> call_verdict" where
  "plain_verdict effect reason =
     \<lparr>cv_effect = effect, cv_reason = reason, cv_signals = None, cv_alternative = None, cv_decision_id = None,
      cv_rule = None\<rparr>"

definition call_allowed :: "call_verdict \<Rightarrow> bool" where
  "call_allowed v \<longleftrightarrow> cv_effect v = ALLOW"

record proxy_config =
  px_io :: mcp_io
  px_env :: gate_env
  px_filter :: name_filter
  px_gate :: "local_gate option"
  px_server :: string
  px_session :: "string option"
  px_agent :: "string option"
  px_stoppable :: bool
  px_limited :: bool
  px_on_probation :: bool
  px_shared :: bool
  px_notes :: bool
  px_notice :: bool

record call_world =
  cw_now :: time
  cw_stopped :: bool
  cw_pause :: "session_pause option"
  cw_spent :: "string option"
  cw_probation :: "contained_probation option"
  cw_claim :: claim_outcome
  cw_person :: "(hold_request \<Rightarrow> hold_result) option"

definition operation_for :: "string \<Rightarrow> string" where
  "operation_for tool = ''mcp.'' @ tool"

definition class_of_call :: "tool_manifest \<Rightarrow> tool_call \<Rightarrow> string" where
  "class_of_call manifest call =
     fst (classify_tool_call (tc_name call) (map (\<lambda>(n, v). (n, JStr v)) (tc_arguments call))
       (map_of manifest (tc_name call)))"

section \<open>The chain\<close>

definition proxy_request :: "proxy_config \<Rightarrow> tool_manifest \<Rightarrow> tool_call \<Rightarrow> action_request" where
  "proxy_request cfg manifest call =
     (bare_request (operation_for (tc_name call)))
       \<lparr>rq_environment := environment_of_arguments (map (\<lambda>(n, v). (n, JStr v)) (tc_arguments call)),
        rq_target := Some (px_server cfg), rq_tool_class := Some (class_of_call manifest call),
        rq_arguments := Some (tc_arguments call), rq_session_id := px_session cfg\<rparr>"

definition rules_authorize :: "proxy_config \<Rightarrow> call_world \<Rightarrow> tool_manifest \<Rightarrow> tool_call \<Rightarrow> call_verdict" where
  "rules_authorize cfg w manifest call =
     (case px_gate cfg of
        None \<Rightarrow> plain_verdict ALLOW ''no runtime configured''
      | Some gate \<Rightarrow>
          (let v = gate_evaluate (px_env cfg) gate (cw_now w) (proxy_request cfg manifest call)
           in \<lparr>cv_effect = lv_effect v, cv_reason = lv_reason v, cv_signals = Some (lv_signals v),
               cv_alternative = lv_alternative v, cv_decision_id = None,
               cv_rule = (case lv_matched_policies v of [] \<Rightarrow> None | p # _ \<Rightarrow> Some (mp_name p))\<rparr>))"

definition probation_only :: "contained_probation \<Rightarrow> containment" where
  "probation_only probation =
     \<lparr>cn_root = None, cn_paths = None, cn_cwd = None, cn_home = None, cn_scratch = None, cn_untrusted = False,
      cn_probation = Some probation, cn_quiet_hosts = None\<rparr>"

definition probation_asks :: "proxy_config \<Rightarrow> contained_probation \<Rightarrow> tool_call \<Rightarrow> containment_ask option" where
  "probation_asks cfg probation call =
     containment_ask_for (px_env cfg)
       ((bare_request (operation_for (tc_name call)))\<lparr>rq_target := Some (px_server cfg)\<rparr>)
       (probation_only probation) (Some (fst (classify_tool (named_only (tc_name call)) [])))"

definition probation_authorize :: "proxy_config \<Rightarrow> call_world \<Rightarrow> tool_manifest \<Rightarrow> tool_call \<Rightarrow> call_verdict" where
  "probation_authorize cfg w manifest call =
     (let v = rules_authorize cfg w manifest call
      in if \<not> px_on_probation cfg \<or> cv_effect v \<noteq> ALLOW then v
         else (case cw_probation w of
                 None \<Rightarrow> v
               | Some probation \<Rightarrow>
                   (case probation_asks cfg probation call of
                      None \<Rightarrow> v
                    | Some asked \<Rightarrow>
                        if ck_checkpointed asked then v
                        else (plain_verdict ASK (ck_reason asked))
                          \<lparr>cv_signals := Some (or_else (cv_signals v) [] @ [ck_signal asked])\<rparr>)))"

definition held_reason :: "session_pause \<Rightarrow> string" where
  "held_reason p =
     describe_pause p @ '', so resume with '' @ [CHR 0x22] @ ''memnox resume '' @ pz_session_id p @ [CHR 0x22]"

definition limited_authorize :: "proxy_config \<Rightarrow> call_world \<Rightarrow> tool_manifest \<Rightarrow> tool_call \<Rightarrow> call_verdict" where
  "limited_authorize cfg w manifest call =
     (if \<not> px_limited cfg then probation_authorize cfg w manifest call
      else (case (if or_else (px_session cfg) [] = [] then None else cw_pause w) of
              Some p \<Rightarrow> plain_verdict DENY (held_reason p)
            | None \<Rightarrow>
                (case cw_spent w of
                   Some reason \<Rightarrow> plain_verdict DENY reason
                 | None \<Rightarrow> probation_authorize cfg w manifest call)))"

definition changes_external_state :: "string \<Rightarrow> bool" where
  "changes_external_state c \<longleftrightarrow> c \<in> {TC_WRITE, TC_DESTRUCTIVE, TC_COMMUNICATION}"

definition worth_claiming :: "string \<Rightarrow> string option \<Rightarrow> bool" where
  "worth_claiming c resource \<longleftrightarrow> changes_external_state c \<or> c = TC_UNKNOWN \<and> resource \<noteq> None"

definition action_of_call :: "proxy_config \<Rightarrow> tool_call \<Rightarrow> intended_action option" where
  "action_of_call cfg call =
     (let resource = action_resource (px_server cfg) (tc_arguments call)
      in if \<not> worth_claiming (fst (classify_tool (named_only (tc_name call)) [])) resource then None
         else Some \<lparr>ia_operation = px_server cfg @ ''.'' @ tc_name call, ia_target = None,
                ia_arguments = tc_arguments call, ia_resource = resource\<rparr>)"

definition claim_key :: "proxy_config \<Rightarrow> intended_action \<Rightarrow> string" where
  "claim_key cfg action = action_fingerprint (mi_digest (px_io cfg)) action"

text \<open>The calls that run under each claim of this proxy.\<close>

type_synonym running_claims = "(string \<times> nat) list"

definition hold_claim :: "string \<Rightarrow> running_claims \<Rightarrow> running_claims" where
  "hold_claim key running = AList.update key (or_else (map_of running key) 0 + 1) running"

text \<open>A call returned: the claims after it, and the claims let go.\<close>

definition settle_claim :: "proxy_config \<Rightarrow> tool_call \<Rightarrow> running_claims \<Rightarrow> string list \<times> running_claims" where
  "settle_claim cfg call running =
     (case (if px_shared cfg then action_of_call cfg call else None) of
        None \<Rightarrow> ([], running)
      | Some action \<Rightarrow>
          (let key = claim_key cfg action
           in case map_of running key of
                None \<Rightarrow> ([], running)
              | Some calls \<Rightarrow>
                  if calls - 1 > 0 then ([], AList.update key (calls - 1) running)
                  else ([key], AList.delete key running)))"

definition claiming_authorize ::
  "proxy_config \<Rightarrow> call_world \<Rightarrow> tool_manifest \<Rightarrow> tool_call \<Rightarrow> running_claims \<Rightarrow> call_verdict \<times> running_claims" where
  "claiming_authorize cfg w manifest call running =
     (let v = limited_authorize cfg w manifest call
      in if \<not> px_shared cfg \<or> \<not> call_allowed v then (v, running)
         else (case action_of_call cfg call of
                 None \<Rightarrow> (v, running)
               | Some action \<Rightarrow>
                   (case cw_claim w of
                      CLAIM_MINE \<Rightarrow> (v, hold_claim (claim_key cfg action) running)
                    | CLAIM_UNKNOWN _ \<Rightarrow> (v, running)
                    | CLAIM_MET met \<Rightarrow> (plain_verdict DENY (meeting_reason met), running))))"

definition PROTECTION_STOPPED_REASON :: string where
  "PROTECTION_STOPPED_REASON = ''Memnox protection is stopped on this machine''"

definition authorize_call ::
  "proxy_config \<Rightarrow> call_world \<Rightarrow> tool_manifest \<Rightarrow> tool_call \<Rightarrow> running_claims \<Rightarrow> call_verdict \<times> running_claims" where
  "authorize_call cfg w manifest call running =
     (if px_stoppable cfg \<and> cw_stopped w then (plain_verdict ALLOW PROTECTION_STOPPED_REASON, running)
      else claiming_authorize cfg w manifest call running)"

definition verdict_for ::
  "proxy_config \<Rightarrow> call_world \<Rightarrow> tool_manifest \<Rightarrow> tool_call \<Rightarrow> running_claims \<Rightarrow> call_verdict \<times> running_claims" where
  "verdict_for cfg w manifest call running =
     (if \<not> name_allowed (px_filter cfg) (tc_name call)
      then (plain_verdict DENY (''tool '' @ [CHR 0x22] @ tc_name call @ [CHR 0x22] @ '' is denied by the static filter''), running)
      else authorize_call cfg w manifest call running)"

text \<open>
  The requests whose noticing learns that a person allowed them: an authorizer that does not pass the
  word on keeps it from the gate.
\<close>

definition learned_from :: "proxy_config \<Rightarrow> tool_manifest \<Rightarrow> tool_call \<Rightarrow> action_request list" where
  "learned_from cfg manifest call =
     (if px_on_probation cfg \<or> px_gate cfg = None then [] else [proxy_request cfg manifest call])"

section \<open>Asking a person\<close>

definition UNNAMED_AGENT :: string where "UNNAMED_AGENT = ''an agent''"
definition UNNAMED_SESSION :: string where "UNNAMED_SESSION = ''ses_local''"

definition call_text :: "proxy_config \<Rightarrow> tool_call \<Rightarrow> string" where
  "call_text cfg call =
     json_text (mi_number (px_io cfg)) None (JObj (map (\<lambda>(n, v). (n, JStr v)) (tc_arguments call)))"

definition proxy_hold_request :: "proxy_config \<Rightarrow> tool_manifest \<Rightarrow> tool_call \<Rightarrow> call_verdict \<Rightarrow> hold_request" where
  "proxy_hold_request cfg manifest call v =
     \<lparr>hr_session = or_else (px_session cfg) UNNAMED_SESSION, hr_agent = or_else (px_agent cfg) UNNAMED_AGENT,
      hr_operation = tc_name call, hr_target = Some (px_server cfg),
      hr_fingerprint = mi_digest (px_io cfg) (tc_name call @ '':'' @ call_text cfg call),
      hr_reason = cv_reason v, hr_evidence = [], hr_command = None, hr_class = Some (class_of_call manifest call),
      hr_grant_key = Some (''mcp.'' @ px_server cfg @ ''.'' @ tc_name call), hr_approval_id = None,
      hr_rule = cv_rule v, hr_within_session = False\<rparr>"

definition ask_person ::
  "proxy_config \<Rightarrow> call_world \<Rightarrow> tool_manifest \<Rightarrow> tool_call \<Rightarrow> call_verdict \<Rightarrow> call_verdict \<times> action_request list" where
  "ask_person cfg w manifest call v =
     (case cw_person w of
        None \<Rightarrow>
          (v\<lparr>cv_effect := DENY, cv_reason := cv_reason v @ '' (nobody could be asked, so it was denied)''\<rparr>, [])
      | Some answer \<Rightarrow>
          (let request = proxy_hold_request cfg manifest call v; result = answer request
           in if hold_allowed result
              then (v\<lparr>cv_effect := ALLOW,
                      cv_reason := (case hd_by result of None \<Rightarrow> ''a person'' | Some by \<Rightarrow> ''a person, '' @ by @ '','')
                        @ '' allowed it''\<rparr>, learned_from cfg manifest call)
              else (v\<lparr>cv_effect := DENY, cv_reason := describe_hold result request\<rparr>, [])))"

section \<open>The session\<close>

datatype wire = WIRE_LINE string | WIRE_ONE rpc_message | WIRE_BATCH "json list"

record call_row =
  cr_tool :: string
  cr_args_digest :: string
  cr_effect :: decision_effect
  cr_reason :: string
  cr_rule :: "string option"
  cr_decision_id :: "string option"
  cr_result :: "result_record option"

record proxy_session =
  ss_lists :: "json list"
  ss_open :: "(json \<times> tool_call \<times> call_verdict) list"
  ss_waiting :: "session_note list"
  ss_collecting :: bool
  ss_manifest :: tool_manifest
  ss_running :: running_claims
  ss_finished :: "string list"
  ss_learned :: "action_request list"
  ss_rows :: "call_row list"
  ss_tainted :: "string list"
  ss_to_server :: "wire list"
  ss_to_client :: "wire list"

definition new_session :: proxy_session where
  "new_session =
     \<lparr>ss_lists = [], ss_open = [], ss_waiting = [], ss_collecting = False, ss_manifest = [], ss_running = [],
      ss_finished = [], ss_learned = [], ss_rows = [], ss_tainted = [], ss_to_server = [], ss_to_client = []\<rparr>"

definition record_call ::
  "proxy_config \<Rightarrow> tool_call \<Rightarrow> call_verdict \<Rightarrow> result_record option \<Rightarrow> proxy_session \<Rightarrow> proxy_session" where
  "record_call cfg call v result s =
     s\<lparr>ss_rows := ss_rows s @
       [\<lparr>cr_tool = tc_name call, cr_args_digest = mi_digest (px_io cfg) (call_text cfg call), cr_effect = cv_effect v,
         cr_reason = cv_reason v, cr_rule = cv_rule v, cr_decision_id = cv_decision_id v, cr_result = result\<rparr>]\<rparr>"

record ruling =
  ru_forward :: "rpc_message option"
  ru_answer :: "rpc_message option"

definition rule_on_call :: "proxy_config \<Rightarrow> call_world \<Rightarrow> rpc_message \<Rightarrow> proxy_session \<Rightarrow> (ruling \<times> proxy_session) option" where
  "rule_on_call cfg w m s =
     (case read_tool_call (px_io cfg) (map_of m ''params'') of
        None \<Rightarrow> None
      | Some call \<Rightarrow>
          (let (v0, running) = verdict_for cfg w (ss_manifest s) call (ss_running s);
               (v, learned) = (if cv_effect v0 = ASK then ask_person cfg w (ss_manifest s) call v0 else (v0, []));
               s1 = s\<lparr>ss_running := running, ss_learned := ss_learned s @ learned\<rparr>
           in if call_allowed v
              then Some (\<lparr>ru_forward = Some m, ru_answer = None\<rparr>,
                (case identify m of
                   None \<Rightarrow> record_call cfg call v None s1
                 | Some i \<Rightarrow>
                     s1\<lparr>ss_open := (i, call, v) # filter (\<lambda>(j, c). \<not> (is_key i \<and> j = i)) (ss_open s1)\<rparr>)
                \<lparr>ss_collecting := px_notes cfg \<or> ss_collecting s\<rparr>)
              else Some
                (\<lparr>ru_forward = None,
                  ru_answer = (case identify m of
                    None \<Rightarrow> None
                  | Some _ \<Rightarrow> Some (denial (map_of m ''id'') (cv_reason v) (cv_alternative v)
                      (refusal_shape_for DENY (cv_reason v))))\<rparr>,
                 record_call cfg call v None s1)))"

definition rule_on :: "proxy_config \<Rightarrow> call_world \<Rightarrow> rpc_message \<Rightarrow> proxy_session \<Rightarrow> (ruling \<times> proxy_session) option" where
  "rule_on cfg w m s =
     (if method_of m = Some METHOD_TOOLS_LIST \<and> identify m \<noteq> None
      then Some (\<lparr>ru_forward = Some m, ru_answer = None\<rparr>, s\<lparr>ss_lists := List.insert (the (identify m)) (ss_lists s)\<rparr>)
      else if method_of m \<noteq> Some METHOD_TOOLS_CALL then Some (\<lparr>ru_forward = Some m, ru_answer = None\<rparr>, s)
      else rule_on_call cfg w m s)"

section \<open>From the client\<close>

definition to_client :: "wire \<Rightarrow> proxy_session \<Rightarrow> proxy_session" where
  "to_client x s = s\<lparr>ss_to_client := ss_to_client s @ [x]\<rparr>"

definition to_server :: "wire \<Rightarrow> proxy_session \<Rightarrow> proxy_session" where
  "to_server x s = s\<lparr>ss_to_server := ss_to_server s @ [x]\<rparr>"

definition server_gone :: "rpc_message \<Rightarrow> rpc_message" where
  "server_gone m =
     denial (map_of m ''id'') ''the wrapped MCP server is no longer running, so restart the client to reconnect'' None
       \<lparr>rf_retryability = RETRY_LATER,
        rf_guidance = ''The server this call needed is not running. This is a failure, not a rule: retrying once it is back may succeed.''\<rparr>"

text \<open>\<open>alive\<close>: the server takes what is written to it.\<close>

definition forward :: "bool \<Rightarrow> rpc_message \<Rightarrow> proxy_session \<Rightarrow> proxy_session" where
  "forward alive m s =
     (if alive then to_server (WIRE_ONE m) s
      else if identify m = None then s
      else to_client (WIRE_ONE (server_gone m)) s)"

definition forward_batch :: "bool \<Rightarrow> rpc_message list \<Rightarrow> proxy_session \<Rightarrow> proxy_session" where
  "forward_batch alive ms s =
     (if alive then to_server (WIRE_BATCH (map JObj ms)) s
      else (let owed = map server_gone (filter (\<lambda>m. identify m \<noteq> None) ms)
            in if owed = [] then s else to_client (WIRE_BATCH (map JObj owed)) s))"

fun rule_on_items ::
  "proxy_config \<Rightarrow> (nat \<Rightarrow> call_world) \<Rightarrow> nat \<Rightarrow> json list \<Rightarrow> proxy_session \<Rightarrow>
     (rpc_message list \<times> rpc_message list \<times> proxy_session) option" where
  "rule_on_items cfg worlds i [] s = Some ([], [], s)"
| "rule_on_items cfg worlds i (item # items) s =
     (case as_message item of
        None \<Rightarrow>
          (case rule_on_items cfg worlds (Suc i) items s of
             None \<Rightarrow> None
           | Some (onward, answers, s') \<Rightarrow> Some (onward, invalid_request # answers, s'))
      | Some m \<Rightarrow>
          (case rule_on cfg (worlds i) m s of
             None \<Rightarrow> None
           | Some (ruling, s1) \<Rightarrow>
               (case rule_on_items cfg worlds (Suc i) items s1 of
                  None \<Rightarrow> None
                | Some (onward, answers, s') \<Rightarrow>
                    Some (option_list (ru_forward ruling) @ onward, option_list (ru_answer ruling) @ answers, s'))))"

definition from_client ::
  "proxy_config \<Rightarrow> (nat \<Rightarrow> call_world) \<Rightarrow> bool \<Rightarrow> string \<Rightarrow> proxy_session \<Rightarrow> proxy_session option" where
  "from_client cfg worlds alive line s =
     (case parse_incoming (px_io cfg) line of
        None \<Rightarrow> Some (if alive then to_server (WIRE_LINE line) s else s)
      | Some (ONE m) \<Rightarrow>
          (case rule_on cfg (worlds 0) m s of
             None \<Rightarrow> None
           | Some (ruling, s1) \<Rightarrow>
               (let s2 = (case ru_forward ruling of None \<Rightarrow> s1 | Some f \<Rightarrow> forward alive f s1)
                in Some (case ru_answer ruling of None \<Rightarrow> s2 | Some a \<Rightarrow> to_client (WIRE_ONE a) s2)))
      | Some (BATCH items) \<Rightarrow>
          (case rule_on_items cfg worlds 0 items s of
             None \<Rightarrow> None
           | Some (onward, answers, s1) \<Rightarrow>
               (let s2 = (if onward = [] then s1 else forward_batch alive onward s1)
                in Some (if answers = [] then s2 else to_client (WIRE_BATCH (map JObj answers)) s2))))"

section \<open>From the server\<close>

definition with_notes :: "rpc_message \<Rightarrow> proxy_session \<Rightarrow> rpc_message \<times> proxy_session" where
  "with_notes m s =
     (if ss_waiting s = [] then (m, s)
      else (case result_field m ''content'' of
              Some (Some (JArr content)) \<Rightarrow>
                (with_result_field m ''content'' (JArr (content @ [text_block (render_notes (ss_waiting s))])),
                 s\<lparr>ss_waiting := []\<rparr>)
            | _ \<Rightarrow> (m, s)))"

definition reply_for :: "proxy_config \<Rightarrow> rpc_message \<Rightarrow> proxy_session \<Rightarrow> (rpc_message \<times> proxy_session) option" where
  "reply_for cfg m s =
     (if \<not> is_response m then Some (m, s)
      else (case identify m of
              None \<Rightarrow> Some (m, s)
            | Some i \<Rightarrow>
                if is_key i \<and> i \<in> set (ss_lists s)
                then (case declarations_in (px_io cfg) m of
                        None \<Rightarrow> None
                      | Some tools \<Rightarrow>
                          Some (filter_listing (px_io cfg) (px_filter cfg) m,
                            s\<lparr>ss_lists := removeAll i (ss_lists s), ss_manifest := listed tools\<rparr>))
                else (case (if is_key i then map_of (ss_open s) i else None) of
                        None \<Rightarrow> Some (m, s)
                      | Some (call, v) \<Rightarrow>
                          (case result_record_of (px_io cfg) m of
                             None \<Rightarrow> None
                           | Some result \<Rightarrow>
                               (let (gone, running) = settle_claim cfg call (ss_running s);
                                    s1 = record_call cfg call v (Some result)
                                      (s\<lparr>ss_open := filter (\<lambda>(j, c). j \<noteq> i) (ss_open s), ss_running := running,
                                         ss_finished := ss_finished s @ gone\<rparr>);
                                    s2 = (if rs_contains_instruction result \<and> px_notice cfg
                                          then s1\<lparr>ss_tainted := ss_tainted s1 @ [px_server cfg @ ''.'' @ tc_name call]\<rparr>
                                          else s1)
                                in Some (with_notes (frame_result m result) s2))))))"

fun replies_for :: "proxy_config \<Rightarrow> json list \<Rightarrow> proxy_session \<Rightarrow> (json list \<times> proxy_session) option" where
  "replies_for cfg [] s = Some ([], s)"
| "replies_for cfg (item # items) s =
     (case as_message item of
        None \<Rightarrow>
          (case replies_for cfg items s of None \<Rightarrow> None | Some (rest, s') \<Rightarrow> Some (item # rest, s'))
      | Some m \<Rightarrow>
          (case reply_for cfg m s of
             None \<Rightarrow> None
           | Some (r, s1) \<Rightarrow>
               (case replies_for cfg items s1 of
                  None \<Rightarrow> None
                | Some (rest, s') \<Rightarrow> Some (JObj r # rest, s'))))"

definition from_server :: "proxy_config \<Rightarrow> string \<Rightarrow> proxy_session \<Rightarrow> proxy_session option" where
  "from_server cfg line s =
     (case parse_incoming (px_io cfg) line of
        None \<Rightarrow> Some (to_client (WIRE_LINE line) s)
      | Some (ONE m) \<Rightarrow>
          (case reply_for cfg m s of None \<Rightarrow> None | Some (r, s1) \<Rightarrow> Some (to_client (WIRE_ONE r) s1))
      | Some (BATCH items) \<Rightarrow>
          (case replies_for cfg items s of
             None \<Rightarrow> None
           | Some (rs, s1) \<Rightarrow> Some (to_client (WIRE_BATCH rs) s1)))"

text \<open>The notes that were asked for arrive, or asking failed and there are none.\<close>

definition notes_found :: "session_note list \<Rightarrow> proxy_session \<Rightarrow> proxy_session" where
  "notes_found notes s =
     (if ss_collecting s then s\<lparr>ss_waiting := ss_waiting s @ notes, ss_collecting := False\<rparr> else s)"

text \<open>The proxy ends: whatever is still claimed is let go.\<close>

definition close_session :: "proxy_session \<Rightarrow> proxy_session" where
  "close_session s = s\<lparr>ss_finished := ss_finished s @ map fst (ss_running s), ss_running := []\<rparr>"

section \<open>Arguments of the process\<close>

definition flag_value :: "string list \<Rightarrow> string \<Rightarrow> string + string option" where
  "flag_value flags flag =
     (case dropWhile (\<lambda>w. w \<noteq> flag) flags of
        [] \<Rightarrow> Inr None
      | _ # rest \<Rightarrow>
          (case rest of
             [] \<Rightarrow> Inl flag
           | v # _ \<Rightarrow> if starts_with ''--'' v then Inl flag else Inr (Some v)))"

record firewall_args =
  fa_command :: "string list"
  fa_server_name :: string
  fa_agent :: "string option"

text \<open>Nothing to run, a flag without its value, or the arguments.\<close>

definition parse_firewall_args :: "string list \<Rightarrow> (string + firewall_args) option" where
  "parse_firewall_args argv =
     (let flags = takeWhile (\<lambda>w. w \<noteq> ''--'') argv; command = drop (Suc (length flags)) argv
      in if command = [] then None
         else (case flag_value flags ''--name'' of
                 Inl f \<Rightarrow> Some (Inl f)
               | Inr server \<Rightarrow>
                   (case flag_value flags ''--agent'' of
                      Inl f \<Rightarrow> Some (Inl f)
                    | Inr agent \<Rightarrow>
                        Some (Inr \<lparr>fa_command = command, fa_server_name = or_else server ''mcp-server'',
                          fa_agent = (if agent = Some [] then None else agent)\<rparr>))))"

end
