(* ===== verification/ResultFraming.thy ===== *)
theory ResultFraming
  imports McpProxy
begin

text \<open>
  Why a result that addresses the model is always framed: the expressions are matched on all the text of
  the result at once, and a match in one block stays a match in the whole. Then what the proxy does to
  a result on its way back to the agent.
\<close>

section \<open>Fields of a result\<close>

lemma result_field_content:
  "map_of m ''result'' = Some (JObj fs) \<Longrightarrow> result_field m key = Some (map_of fs key)"
  by (simp add: result_field_def)

lemma with_result_field_of:
  assumes "map_of m ''result'' = Some (JObj fs)"
  shows "map_of (with_result_field m key v) ''result'' = Some (JObj (AList.update key v fs))"
    and "k \<noteq> ''result'' \<Longrightarrow> map_of (with_result_field m key v) k = map_of m k"
  using assms by (simp_all add: with_result_field_def AList.update_conv')

section \<open>An instruction anywhere in a result is seen\<close>

text \<open>A place of a longer text that reads as one of a shorter: the longer goes on with \<open>ext\<close>.\<close>

definition wordish :: "char option \<Rightarrow> bool" where
  "wordish prev \<longleftrightarrow> (case prev of None \<Rightarrow> False | Some c \<Rightarrow> is_word c)"

definition same_place :: "string \<Rightarrow> place \<Rightarrow> place \<Rightarrow> bool" where
  "same_place ext p q \<longleftrightarrow> wordish (fst p) = wordish (fst q) \<and> snd q = snd p @ ext"

definition ends_word :: "string \<Rightarrow> bool" where
  "ends_word ext \<longleftrightarrow> (case ext of [] \<Rightarrow> True | c # _ \<Rightarrow> \<not> is_word c)"

lemma same_place_after:
  assumes "same_place ext p q" "n \<le> length (snd p)"
  shows "same_place ext (place_after n p) (place_after n q)"
  using assms by (auto simp: same_place_def place_after_def nth_append)

lemma same_place_bound:
  "same_place ext p q \<Longrightarrow> ends_word ext \<Longrightarrow> at_bound (fst p) (snd p) = at_bound (fst q) (snd q)"
  by (cases "snd p"; cases ext) (auto simp: same_place_def at_bound_def wordish_def ends_word_def split: option.splits)

lemma takeWhile_longer: "length (takeWhile P s) \<le> length (takeWhile P (s @ ext))"
  by (induction s) auto

lemma rx_longer:
  "same_place ext p q \<Longrightarrow> ends_word ext \<Longrightarrow> a \<in> set (rx_one r p) \<Longrightarrow> \<exists>b \<in> set (rx_one r q). same_place ext a b"
  "same_place ext p q \<Longrightarrow> ends_word ext \<Longrightarrow> a \<in> set (rx_seq rs p) \<Longrightarrow> \<exists>b \<in> set (rx_seq rs q). same_place ext a b"
  "same_place ext p q \<Longrightarrow> ends_word ext \<Longrightarrow> a \<in> set (rx_any rss p) \<Longrightarrow> \<exists>b \<in> set (rx_any rss q). same_place ext a b"
proof (induction r p and rs p and rss p arbitrary: q a and q a and q a rule: rx_one_rx_seq_rx_any.induct)
  case (1 t p)
  then have t: "starts_with (to_lower t) (to_lower (snd p))" and a: "a = place_after (length t) p" by (auto split: if_splits)
  from t obtain u where u: "to_lower (snd p) = to_lower t @ u" by (auto simp: starts_with_iff)
  then have "to_lower (snd q) = to_lower t @ u @ to_lower ext" using 1(1)
    by (simp add: same_place_def to_lower_def)
  then have "starts_with (to_lower t) (to_lower (snd q))" by simp
  moreover have "length t \<le> length (snd p)" using arg_cong [OF u, of length] by (simp add: to_lower_def)
  ultimately show ?case using same_place_after [OF 1(1)] a by simp
next
  case (2 p)
  with same_place_bound [OF 2(1,2)] show ?case by (simp split: if_splits)
next
  case (3 p)
  then obtain n where n: "n \<le> length (takeWhile is_space (snd p))" "a = place_after n p"
    by (auto simp: less_Suc_eq_le simp del: upt_Suc)
  have "length (takeWhile is_space (snd p)) \<le> length (takeWhile is_space (snd q))"
    using 3(1) takeWhile_longer by (simp add: same_place_def)
  with n have "place_after n q \<in> set (rx_one RX_SPACES q)" by (auto simp: less_Suc_eq_le simp del: upt_Suc)
  moreover have "same_place ext a (place_after n q)"
    using same_place_after [OF 3(1)] n length_takeWhile_le [of is_space "snd p"] by simp
  ultimately show ?case by blast
next
  case (6 r rs p)
  then obtain m where m: "m \<in> set (rx_one r p)" "a \<in> set (rx_seq rs m)" by auto
  from 6(1) [OF 6(3,4) m(1)] obtain m' where m': "m' \<in> set (rx_one r q)" "same_place ext m m'" by blast
  from 6(2) [OF m(1) m'(2) 6(4) m(2)] m'(1) show ?case by auto
next
  case (8 r rs p)
  then consider "a \<in> set (rx_seq r p)" | "a \<in> set (rx_any rs p)" by auto
  then show ?case
  proof cases
    case 1
    from 8(1) [OF 8(3,4) 1] show ?thesis by auto
  next
    case 2
    from 8(2) [OF 8(3,4) 2] show ?thesis by auto
  qed
qed auto

lemma rx_seq_longer:
  assumes "rx_seq r (prev, s) \<noteq> []" "wordish prev = wordish prev'" "ends_word ext"
  shows "rx_seq r (prev', s @ ext) \<noteq> []"
proof -
  obtain a where a: "a \<in> set (rx_seq r (prev, s))" using assms(1) by (cases "rx_seq r (prev, s)") auto
  have "same_place ext (prev, s) (prev', s @ ext)" using assms(2) by (simp add: same_place_def)
  from rx_longer(2) [OF this assms(3) a] show ?thesis by auto
qed

lemma rx_search_here: "rx_seq r (prev, s) \<noteq> [] \<Longrightarrow> rx_search r prev s"
  by (cases s) auto

lemma rx_search_longer:
  "rx_search r prev s \<Longrightarrow> wordish prev = wordish prev' \<Longrightarrow> ends_word ext \<Longrightarrow> rx_search r prev' (s @ ext)"
proof (induction s arbitrary: prev prev')
  case Nil
  then have "rx_seq r (prev', [] @ ext) \<noteq> []"
    using rx_seq_longer [of r prev "[]" prev' ext] by simp
  from rx_search_here [OF this] show ?case .
next
  case (Cons c s)
  show ?case
  proof (cases "rx_seq r (prev, c # s) \<noteq> []")
    case True
    from rx_search_here [OF rx_seq_longer [OF this Cons.prems(2,3)]] show ?thesis .
  next
    case False
    with Cons.prems have "rx_search r (Some c) s" by simp
    from Cons.IH [OF this refl Cons.prems(3)] show ?thesis by simp
  qed
qed

lemma rx_search_after: "rx_search r (if t = [] then prev else Some (last t)) s \<Longrightarrow> rx_search r prev (t @ s)"
  by (induction t arbitrary: prev) (auto split: if_splits)

text \<open>A line of a text of many lines: what stands before and after it ends in a line break.\<close>

lemma has_shape_within:
  assumes "has_instruction_shape s" "t = [] \<or> last t = CHR 0x0A" "u = [] \<or> hd u = CHR 0x0A"
  shows "has_instruction_shape (t @ s @ u)"
proof -
  from assms(1) obtain r where r: "r \<in> set INSTRUCTION_SHAPES" "rx_search r None s"
    by (auto simp: has_instruction_shape_def list_ex_iff)
  have nl: "\<not> is_word (CHR 0x0A)" by code_simp
  then have "ends_word u" using assms(3) by (cases u) (auto simp: ends_word_def)
  moreover have "wordish None = wordish (if t = [] then None else Some (last t))"
    using assms(2) nl by (auto simp: wordish_def)
  ultimately have "rx_search r (if t = [] then None else Some (last t)) (s @ u)"
    using rx_search_longer [OF r(2)] by blast
  from rx_search_after [OF this] r(1) show ?thesis by (auto simp: has_instruction_shape_def list_ex_iff)
qed

lemma join_with_around:
  "s \<in> set parts \<Longrightarrow>
     \<exists>t u. join_with [c] parts = t @ s @ u \<and> (t = [] \<or> last t = c) \<and> (u = [] \<or> hd u = c)"
proof (induction "[c]" parts rule: join_with.induct)
  case (2 p)
  then show ?case by (intro exI [of _ "[]"]) simp
next
  case (3 p q ps)
  show ?case
  proof (cases "s = p")
    case True
    then show ?thesis by (intro exI [of _ "[]"] exI [of _ "[c] @ join_with [c] (q # ps)"]) simp
  next
    case False
    with 3 obtain t u where tu: "join_with [c] (q # ps) = t @ s @ u" "t = [] \<or> last t = c" "u = [] \<or> hd u = c" by auto
    from tu(1) have "join_with [c] (p # q # ps) = (p @ [c] @ t) @ s @ u" by simp
    moreover have "last (p @ [c] @ t) = c" using tu(2) by (cases t) auto
    ultimately show ?thesis using tu(3) by blast
  qed
qed simp

lemma shape_in_result:
  assumes "map_of m ''result'' = Some (JObj fs)" "map_of fs ''content'' = Some (JArr content)"
    and "block \<in> set content" "line \<in> set (texts_of_block block)" "has_instruction_shape line"
    and "result_record_of io m = Some found"
  shows "rs_contains_instruction found"
proof -
  let ?parts = "concat (map texts_of_block content) @
    (case map_of fs ''structuredContent'' of None \<Rightarrow> [] | Some v \<Rightarrow> [json_text (mi_number io) None v])"
  have "text_of_result io m = Some (join_with [CHR 0x0A] ?parts)"
    using assms(1,2) by (simp add: text_of_result_def result_field_def)
  moreover have "line \<in> set ?parts" using assms(3,4) by auto
  from join_with_around [OF this] obtain t u where
    "join_with [CHR 0x0A] ?parts = t @ line @ u" "t = [] \<or> last t = CHR 0x0A" "u = [] \<or> hd u = CHR 0x0A" by blast
  ultimately show ?thesis using assms(6) has_shape_within [OF assms(5)] by (auto simp: result_record_of_def)
qed

section \<open>A result on its way back\<close>

lemma frame_result_of:
  assumes "map_of m ''result'' = Some (JObj fs)" "map_of fs ''content'' = Some (JArr content)"
  shows "\<exists>fs'. map_of (frame_result m found) ''result'' = Some (JObj fs') \<and>
    map_of fs' ''content'' = Some (JArr (if rs_contains_instruction found
      then [text_block QUOTED_PREFIX] @ content @ [text_block QUOTED_SUFFIX] else content)) \<and>
    (\<forall>k. k \<noteq> ''content'' \<longrightarrow> map_of fs' k = map_of fs k) \<and>
    (\<forall>k. k \<noteq> ''result'' \<longrightarrow> map_of (frame_result m found) k = map_of m k)"
proof (cases "rs_contains_instruction found")
  case True
  then have "frame_result m found = with_result_field m ''content''
      (JArr ([text_block QUOTED_PREFIX] @ content @ [text_block QUOTED_SUFFIX]))"
    using assms by (simp add: frame_result_def result_field_content)
  with with_result_field_of [OF assms(1)] True show ?thesis by (simp add: AList.update_conv')
qed (use assms in \<open>simp add: frame_result_def\<close>)

lemma with_notes_of:
  assumes "map_of m ''result'' = Some (JObj fs)" "map_of fs ''content'' = Some (JArr content)"
    and "with_notes m s = (m', s')"
  shows "\<exists>fs'. map_of m' ''result'' = Some (JObj fs') \<and>
    map_of fs' ''content'' = Some (JArr (content @ (if ss_waiting s = [] then [] else [text_block (render_notes (ss_waiting s))]))) \<and>
    (\<forall>k. k \<noteq> ''content'' \<longrightarrow> map_of fs' k = map_of fs k) \<and>
    (\<forall>k. k \<noteq> ''result'' \<longrightarrow> map_of m' k = map_of m k) \<and> ss_waiting s' = []"
proof (cases "ss_waiting s = []")
  case False
  then have m': "m' = with_result_field m ''content'' (JArr (content @ [text_block (render_notes (ss_waiting s))]))"
    and "ss_waiting s' = []"
    using assms by (auto simp: with_notes_def result_field_content)
  with with_result_field_of [OF assms(1)] False show ?thesis by (simp add: AList.update_conv')
qed (use assms in \<open>simp add: with_notes_def\<close>)

lemma reply_for_call:
  assumes "is_response m" "identify m = Some i" "is_key i" "i \<notin> set (ss_lists s)"
    and "map_of (ss_open s) i = Some (call, v)" "reply_for cfg m s = Some (m', s')"
  shows "\<exists>found t. result_record_of (px_io cfg) m = Some found \<and> ss_waiting t = ss_waiting s \<and>
    with_notes (frame_result m found) t = (m', s')"
proof -
  from assms obtain found where found: "result_record_of (px_io cfg) m = Some found"
    by (auto simp: reply_for_def split: option.splits)
  obtain gone running where g: "settle_claim cfg call (ss_running s) = (gone, running)"
    by (cases "settle_claim cfg call (ss_running s)")
  let ?s1 = "record_call cfg call v (Some found)
    (s\<lparr>ss_open := filter (\<lambda>(j, c). j \<noteq> i) (ss_open s), ss_running := running, ss_finished := ss_finished s @ gone\<rparr>)"
  let ?t = "if rs_contains_instruction found \<and> px_notice cfg
    then ?s1\<lparr>ss_tainted := ss_tainted ?s1 @ [px_server cfg @ ''.'' @ tc_name call]\<rparr> else ?s1"
  have "with_notes (frame_result m found) ?t = (m', s')" using assms found g by (simp add: reply_for_def Let_def)
  moreover have "ss_waiting ?t = ss_waiting s" by (simp add: record_call_def)
  ultimately show ?thesis using found by blast
qed

end
