(* ===== verification/HookVerdicts.thy ===== *)
theory HookVerdicts
  imports LocalGate McpMessages Domains
begin

text \<open>
  The verdict a hook gets: \<open>packages/interceptors/src/hook-authorizer.ts\<close> over \<open>domain/egress-inspector.ts\<close>
  and the wording of \<open>gate/refusal-text.ts\<close>. What leaves the machine is read for credentials before the
  rules are asked; a stop of protection comes before both.
\<close>

section \<open>Credentials\<close>

text \<open>A test at every place of a text, given the character before it.\<close>

fun anywhere :: "(char option \<Rightarrow> string \<Rightarrow> bool) \<Rightarrow> char option \<Rightarrow> string \<Rightarrow> bool" where
  "anywhere p prev [] \<longleftrightarrow> p prev []"
| "anywhere p prev (c # s) \<longleftrightarrow> p prev (c # s) \<or> anywhere p (Some c) s"

definition word_starts :: "char option \<Rightarrow> bool" where
  "word_starts prev \<longleftrightarrow> (case prev of None \<Rightarrow> True | Some c \<Rightarrow> \<not> is_word c)"

definition token_char :: "char \<Rightarrow> bool" where
  "token_char c \<longleftrightarrow> is_alnum c \<or> c = CHR ''_'' \<or> c = CHR ''-''"

text \<open>A run of at least \<open>n\<close> characters that pass, and what follows the whole run.\<close>

definition run_of :: "(char \<Rightarrow> bool) \<Rightarrow> nat \<Rightarrow> string \<Rightarrow> string option" where
  "run_of p n s = (if n \<le> length (takeWhile p s) then Some (dropWhile p s) else None)"

definition skips :: "string \<Rightarrow> string \<Rightarrow> string option" where
  "skips t s = (if starts_with t s then Some (drop (length t) s) else None)"

definition aws_key_here :: "char option \<Rightarrow> string \<Rightarrow> bool" where
  "aws_key_here prev s \<longleftrightarrow>
     (case skips ''AKIA'' s of None \<Rightarrow> False | Some t \<Rightarrow> run_of (\<lambda>c. is_digit c \<or> is_upper c) 16 t \<noteq> None)"

definition private_key_here :: "char option \<Rightarrow> string \<Rightarrow> bool" where
  "private_key_here prev s \<longleftrightarrow>
     (case skips ''-----BEGIN '' s of
        None \<Rightarrow> False
      | Some t \<Rightarrow> includes_text ''PRIVATE KEY'' (takeWhile (\<lambda>c. is_upper c \<or> c = CHR '' '') t))"

definition jwt_here :: "char option \<Rightarrow> string \<Rightarrow> bool" where
  "jwt_here prev s \<longleftrightarrow> word_starts prev \<and>
     (case skips ''eyJ'' s of
        None \<Rightarrow> False
      | Some t \<Rightarrow>
          (case run_of token_char 10 t of
             None \<Rightarrow> False
           | Some u \<Rightarrow>
               (case skips ''.'' u of
                  None \<Rightarrow> False
                | Some v \<Rightarrow> (case run_of token_char 10 v of None \<Rightarrow> False | Some w \<Rightarrow> starts_with ''.'' w))))"

definition github_token_here :: "char option \<Rightarrow> string \<Rightarrow> bool" where
  "github_token_here prev s \<longleftrightarrow> word_starts prev \<and>
     (case skips ''gh'' s of
        Some (c # t) \<Rightarrow> c \<in> set ''pousr'' \<and> (case skips ''_'' t of None \<Rightarrow> False | Some u \<Rightarrow> run_of is_alnum 20 u \<noteq> None)
      | _ \<Rightarrow> False)"

definition slack_token_here :: "char option \<Rightarrow> string \<Rightarrow> bool" where
  "slack_token_here prev s \<longleftrightarrow> word_starts prev \<and>
     (case skips ''xox'' s of
        Some (c # t) \<Rightarrow> c \<in> set ''abprs'' \<and>
          (case skips ''-'' t of None \<Rightarrow> False | Some u \<Rightarrow> run_of (\<lambda>c. is_alnum c \<or> c = CHR ''-'') 10 u \<noteq> None)
      | _ \<Rightarrow> False)"

definition bearer_here :: "char option \<Rightarrow> string \<Rightarrow> bool" where
  "bearer_here prev s \<longleftrightarrow> word_starts prev \<and> starts_with ''bearer'' (to_lower s) \<and>
     (case run_of is_space 1 (drop 6 s) of
        None \<Rightarrow> False
      | Some t \<Rightarrow> run_of (\<lambda>c. is_alnum c \<or> c \<in> set ''._~+/-'') 20 t \<noteq> None)"

text \<open>From the \<open>://\<close> on: a name, a colon, a word, an at sign.\<close>

definition user_and_word :: "string \<Rightarrow> bool" where
  "user_and_word s \<longleftrightarrow>
     (case skips ''://'' s of
        None \<Rightarrow> False
      | Some t \<Rightarrow>
          (case run_of (\<lambda>c. \<not> is_space c \<and> c \<notin> set '':@/'') 1 t of
             None \<Rightarrow> False
           | Some u \<Rightarrow>
               (case skips '':'' u of
                  None \<Rightarrow> False
                | Some v \<Rightarrow>
                    (case run_of (\<lambda>c. \<not> is_space c \<and> c \<notin> set ''@/'') 1 v of None \<Rightarrow> False | Some w \<Rightarrow> starts_with ''@'' w))))"

definition connection_here :: "char option \<Rightarrow> string \<Rightarrow> bool" where
  "connection_here prev s \<longleftrightarrow> word_starts prev \<and>
     list_ex (\<lambda>scheme. starts_with scheme (to_lower s) \<and>
         (user_and_word (drop (length scheme) s) \<or>
          starts_with ''+srv'' (to_lower (drop (length scheme) s)) \<and> user_and_word (drop (length scheme + 4) s)))
       [''postgres'', ''postgresql'', ''mysql'', ''mongodb'']"

definition CREDENTIAL_SHAPES :: "(string \<times> (char option \<Rightarrow> string \<Rightarrow> bool)) list" where
  "CREDENTIAL_SHAPES =
     [(''aws access key id'', aws_key_here), (''private key'', private_key_here), (''json web token'', jwt_here),
      (''github token'', github_token_here), (''slack token'', slack_token_here),
      (''bearer credential'', bearer_here), (''database connection string'', connection_here)]"

definition MARKED_FIELDS :: "string list" where
  "MARKED_FIELDS =
     [''password'', ''secret'', ''token'', ''api_key'', ''apikey'', ''access_key'', ''private_key'', ''credential'',
      ''authorization'', ''session_key'']"

definition MARKED_FIELD :: string where "MARKED_FIELD = ''marked field''"

definition credential_shape :: "string \<Rightarrow> string option" where
  "credential_shape v =
     map_option fst (List.find (\<lambda>(shape, here). anywhere here None v) CREDENTIAL_SHAPES)"

definition inspect_egress :: "(string \<times> string) list \<Rightarrow> (string \<times> string) list" where
  "inspect_egress payload =
     concat (map (\<lambda>(field, v).
       if v = [] then []
       else if to_lower field \<in> set MARKED_FIELDS then [(field, MARKED_FIELD)]
       else (case credential_shape v of None \<Rightarrow> [] | Some shape \<Rightarrow> [(field, shape)])) payload)"

definition describe_egress :: "string option \<Rightarrow> (string \<times> string) list \<Rightarrow> string" where
  "describe_egress destination findings =
     ''this payload'' @ (case destination of None \<Rightarrow> [] | Some d \<Rightarrow> '' to '' @ d) @ '' carries '' @
     join_with '', '' (map (\<lambda>(field, shape). field @ '' ('' @ shape @ '')'') findings)"

section \<open>Verdicts\<close>

record hook_verdict =
  hv_effect :: decision_effect
  hv_reason :: string
  hv_alternative :: "alternative option"
  hv_rule :: "string option"
  hv_approval_id :: "string option"
  hv_decision_id :: "string option"
  hv_shadow_effect :: "decision_effect option"
  hv_environment :: "string option"
  hv_out_of_scope :: bool

definition hook_verdict_of :: "decision_effect \<Rightarrow> string \<Rightarrow> hook_verdict" where
  "hook_verdict_of effect reason =
     \<lparr>hv_effect = effect, hv_reason = reason, hv_alternative = None, hv_rule = None, hv_approval_id = None,
      hv_decision_id = None, hv_shadow_effect = None, hv_environment = None, hv_out_of_scope = False\<rparr>"

record hook_authorizer =
  ho_env :: gate_env
  ho_gate :: "local_gate option"

definition EGRESS_ACTIONS :: "string list" where
  "EGRESS_ACTIONS = [''http.request'', ''data.export'']"

definition STOPPED_REASON :: string where
  "STOPPED_REASON = ''Memnox protection is stopped on this machine''"

definition egress_verdict :: "action_request \<Rightarrow> hook_verdict option" where
  "egress_verdict request =
     (if rq_action request \<notin> set EGRESS_ACTIONS then None
      else (case rq_arguments request of
              None \<Rightarrow> None
            | Some payload \<Rightarrow>
                (case inspect_egress payload of
                   [] \<Rightarrow> None
                 | findings \<Rightarrow>
                     Some ((hook_verdict_of DENY (describe_egress (rq_target request) findings))
                       \<lparr>hv_alternative := Some \<lparr>al_action = rq_action request, al_resource = None,
                          al_note = ''send the request without that field, or reference the value by name''\<rparr>\<rparr>))))"

definition verdict_of_gate :: "local_verdict \<Rightarrow> hook_verdict" where
  "verdict_of_gate v =
     (hook_verdict_of (lv_effect v) (lv_reason v))
       \<lparr>hv_rule := (case lv_matched_policies v of [] \<Rightarrow> None | p # _ \<Rightarrow> Some (mp_name p)),
        hv_alternative := lv_alternative v, hv_shadow_effect := lv_shadow_effect v,
        hv_out_of_scope := (case lv_scope v of Some c \<Rightarrow> sc_match c = OUT_OF_SCOPE | None \<Rightarrow> False)\<rparr>"

text \<open>\<open>stopped\<close>: whether \<open>memnox stop\<close> holds as this request is asked about.\<close>

definition hook_authorize :: "hook_authorizer \<Rightarrow> bool \<Rightarrow> time \<Rightarrow> action_request \<Rightarrow> hook_verdict" where
  "hook_authorize a stopped now request =
     (if stopped then hook_verdict_of ALLOW STOPPED_REASON
      else (case egress_verdict request of
              Some leaking \<Rightarrow> leaking
            | None \<Rightarrow>
                (case ho_gate a of
                   None \<Rightarrow> hook_verdict_of ALLOW ''no rules configured''
                 | Some gate \<Rightarrow> verdict_of_gate (gate_evaluate (ho_env a) gate now request))))"

section \<open>Words for a refusal\<close>

definition alternative_for :: "alternative option \<Rightarrow> string option \<Rightarrow> string \<Rightarrow> alternative option" where
  "alternative_for from_rule from_table action =
     (case from_table of
        None \<Rightarrow> from_rule
      | Some note \<Rightarrow>
          (let own = Some \<lparr>al_action = action, al_resource = None, al_note = note\<rparr>
           in case from_rule of
                None \<Rightarrow> own
              | Some a \<Rightarrow>
                  if CHR ''*'' \<in> set (al_action a) \<or> al_note a = GENERATED_ALTERNATIVE_NOTE then own else from_rule))"

definition describe_environment :: "string option \<Rightarrow> string option" where
  "describe_environment environment =
     (case environment of None \<Rightarrow> None | Some e \<Rightarrow> Some (''Environment: '' @ e @ ''.''))"

definition describe_verdict :: "hook_verdict \<Rightarrow> string" where
  "describe_verdict v =
     join_with '' ''
       ([hv_reason v] @ option_list (describe_environment (hv_environment v)) @
        option_list (map_option describe_alternative (hv_alternative v)) @
        (case hv_approval_id v of None \<Rightarrow> []
         | Some i \<Rightarrow> [''Ask a person: memnox approvals resolve '' @ i @ '' --by <you>'']) @
        (case hv_decision_id v of None \<Rightarrow> [] | Some i \<Rightarrow> [''Why: memnox why '' @ i]))"

section \<open>Facts\<close>

lemma hook_authorize_stopped [simp]: "hook_authorize a True now request = hook_verdict_of ALLOW STOPPED_REASON"
  by (simp add: hook_authorize_def)

lemma egress_is_denied:
  "egress_verdict request = Some v \<Longrightarrow> hv_effect v = DENY"
  by (auto simp: egress_verdict_def hook_verdict_of_def split: if_splits option.splits list.splits)

lemma egress_found:
  assumes "rq_action request \<in> set EGRESS_ACTIONS" "rq_arguments request = Some payload" "(field, v) \<in> set payload"
    and "v \<noteq> []" "to_lower field \<in> set MARKED_FIELDS \<or> credential_shape v \<noteq> None"
  shows "egress_verdict request \<noteq> None"
proof -
  have "inspect_egress payload \<noteq> []"
    using assms(3-5)
    by (cases "to_lower field \<in> set MARKED_FIELDS"; cases "credential_shape v")
      (auto simp: inspect_egress_def intro!: bexI [of _ "(field, v)"])
  then show ?thesis using assms(1,2) by (cases "inspect_egress payload") (simp_all add: egress_verdict_def)
qed

end
