(* ===== verification/SharedWrites.thy ===== *)
theory SharedWrites
  imports Leases RecordStore Probation BinaryClass ToolCalls "HOL-Library.List_Lexorder" "HOL-Library.Char_ord"
begin

text \<open>
  What a write means to the others on a machine: which actions take a lease and on what
  (\<open>coordination/writes.ts\<close>), where a clone puts a stranger's repository
  (\<open>intercept/clone-target.ts\<close>), and the record of writes that were held because somebody else had the
  path (\<open>coordination/clashes.ts\<close>).
\<close>

section \<open>What takes a lease\<close>

definition WRITING :: "string list" where
  "WRITING = [TC_WRITE, TC_DESTRUCTIVE, ''destructive'', ''package-install'']"

definition takes_lease :: "string \<Rightarrow> bool" where
  "takes_lease action_class \<longleftrightarrow> action_class \<in> set WRITING"

definition scheme_char :: "char \<Rightarrow> bool" where
  "scheme_char c \<longleftrightarrow> is_lower (lower_char c) \<or> is_digit c \<or> c \<in> set ''+.-''"

text \<open>\<open>/^[a-z][a-z0-9+.-]*:\/\//i\<close>.\<close>

definition names_scheme :: "string \<Rightarrow> bool" where
  "names_scheme s \<longleftrightarrow>
     (case s of [] \<Rightarrow> False | c # rest \<Rightarrow> is_lower (lower_char c) \<and> starts_with ''://'' (dropWhile scheme_char rest))"

definition lease_path_for :: "string option \<Rightarrow> string \<Rightarrow> string \<Rightarrow> string option" where
  "lease_path_for target repo_root cwd =
     (case target of
        None \<Rightarrow> None
      | Some t \<Rightarrow>
          if trim t = [] \<or> names_scheme t then None
          else (let absolute = (if starts_with ''/'' t then t else without_trailing cwd (CHR ''/'') @ ''/'' @ t);
                    top = without_trailing repo_root (CHR ''/'')
                in if absolute \<noteq> top \<and> \<not> starts_with (top @ ''/'') absolute then None
                   else normalize_lease_path (drop (length top) absolute)))"

definition lease_scope_for :: "string \<Rightarrow> (string \<Rightarrow> bool) \<Rightarrow> string" where
  "lease_scope_for path is_directory =
     (if path = [] \<or> is_directory path then path
      else if CHR ''/'' \<notin> set path then []
      else rev (tl (dropWhile (\<lambda>c. c \<noteq> CHR ''/'') (rev path))))"

section \<open>Where a clone goes\<close>

definition CLONE_VALUE_FLAGS :: "string list" where
  "CLONE_VALUE_FLAGS =
     [''-b'', ''--branch'', ''-o'', ''--origin'', ''-c'', ''--config'', ''--depth'', ''--reference'',
      ''--separate-git-dir'', ''-j'', ''--jobs'', ''--filter'', ''-u'', ''--upload-pack'', ''--template'']"

record clone_target =
  ct_url :: string
  ct_directory :: string

fun clone_operands :: "string list \<Rightarrow> string list" where
  "clone_operands [] = []"
| "clone_operands [arg] = (if arg \<in> set CLONE_VALUE_FLAGS \<or> starts_with ''-'' arg then [] else [arg])"
| "clone_operands (arg # next_arg # rest) =
     (if arg \<in> set CLONE_VALUE_FLAGS then clone_operands rest
      else (if starts_with ''-'' arg then [] else [arg]) @ clone_operands (next_arg # rest))"

definition clone_name :: "string \<Rightarrow> string" where
  "clone_name url =
     (let part = rev (takeWhile (\<lambda>c. c \<noteq> CHR ''/'' \<and> c \<noteq> CHR '':'') (rev (without_trailing url (CHR ''/''))))
      in if ends_with ''.git'' part then take (length part - 4) part else part)"

definition clone_target_of :: "string list \<Rightarrow> string \<Rightarrow> clone_target option" where
  "clone_target_of argv cwd =
     (case argv of
        binary # subcommand # rest \<Rightarrow>
          if last_part (CHR ''/'') binary \<noteq> ''git'' \<or> subcommand \<noteq> ''clone'' then None
          else (case clone_operands rest of
                  [] \<Rightarrow> None
                | url # more_operands \<Rightarrow>
                    (let name = (case more_operands of [] \<Rightarrow> clone_name url | named # _ \<Rightarrow> named)
                     in if name = [] then None
                        else Some \<lparr>ct_url = url, ct_directory = (if is_absolute name then name else join_paths [cwd, name])\<rparr>))
      | _ \<Rightarrow> None)"

section \<open>Writes that were held\<close>

record clash =
  ch_id :: string
  ch_at :: string
  ch_session :: string
  ch_agent :: string
  ch_what :: string
  ch_said :: string

definition CLASH_KEPT_MS :: int where "CLASH_KEPT_MS = 24 * HOUR_MS"

definition clash_id :: "(string \<Rightarrow> string) \<Rightarrow> string \<Rightarrow> string \<Rightarrow> string \<Rightarrow> string" where
  "clash_id digest session what said = ''clh_'' @ digest (session @ [CHR 0x0A] @ what @ [CHR 0x0A] @ said)"

definition clash_note :: "(string \<Rightarrow> string) \<Rightarrow> clash \<Rightarrow> clash record_dir \<Rightarrow> clash record_dir" where
  "clash_note digest c dir =
     (let i = clash_id digest (ch_session c) (ch_what c) (ch_said c)
      in if dir_read dir i \<noteq> None then dir else dir_write dir i (c\<lparr>ch_id := i\<rparr>))"

text \<open>\<open>instant\<close> is \<open>Date.parse\<close>; a time it cannot read is kept.\<close>

definition clash_since ::
  "(string \<Rightarrow> time option) \<Rightarrow> string \<Rightarrow> time \<Rightarrow> clash record_dir \<Rightarrow> clash list \<times> clash record_dir" where
  "clash_since instant moment now dir =
     (let every = dir_all dir;
          old = filter (\<lambda>c. case instant (ch_at c) of None \<Rightarrow> False | Some t \<Rightarrow> t < now - CLASH_KEPT_MS) every
      in (sort_key ch_at (filter (\<lambda>c. ch_at c > moment) every),
          foldl (\<lambda>d c. dir_remove d (ch_id c)) dir old))"

section \<open>Facts\<close>

lemma clash_known: "dir_read dir (clash_id digest (ch_session c) (ch_what c) (ch_said c)) \<noteq> None \<Longrightarrow> clash_note digest c dir = dir"
  by (simp add: clash_note_def Let_def)

lemma dir_read_written: "dir_read (dir_write dir i r) i \<noteq> None"
  unfolding dir_read_def map_of_dir_write by simp

lemma clash_noted: "dir_read (clash_note digest c dir) (clash_id digest (ch_session c) (ch_what c) (ch_said c)) \<noteq> None"
  unfolding clash_note_def Let_def using dir_read_written by (cases "dir_read dir (clash_id digest (ch_session c) (ch_what c) (ch_said c)) \<noteq> None") simp_all

lemma clash_noted_once:
  assumes "ch_session d = ch_session c" "ch_what d = ch_what c" "ch_said d = ch_said c"
  shows "clash_note digest d (clash_note digest c dir) = clash_note digest c dir"
  by (rule clash_known, unfold assms, rule clash_noted)

text \<open>What a scope covers: the path it was made for.\<close>

lemma scope_contains_path: "path_contains (lease_scope_for path is_directory) path"
proof (cases "path = [] \<or> is_directory path \<or> CHR ''/'' \<notin> set path")
  case True
  then show ?thesis by (auto simp: lease_scope_for_def path_contains_def)
next
  case False
  then obtain a b where p: "path = a @ CHR ''/'' # b" "CHR ''/'' \<notin> set b"
    using split_list_last [of "CHR ''/''" path] by blast
  have "dropWhile (\<lambda>c. c \<noteq> CHR ''/'') (rev b @ CHR ''/'' # rev a) = CHR ''/'' # rev a"
    by (subst dropWhile_append2) (use p(2) in auto)
  with False p(1) have "lease_scope_for path is_directory = a" by (simp add: lease_scope_for_def)
  with p(1) show ?thesis by (simp add: path_contains_def starts_with_iff)
qed

text \<open>A write to a file at the top of the repository is a lease on all of it.\<close>

lemma root_file_leases_everything:
  "lease_path_for (Some ''README.md'') ''/w/repo'' ''/w/repo'' = Some ''README.md'' \<and>
   lease_scope_for ''README.md'' (\<lambda>p. False) = [] \<and> conflicts [] other"
  by (simp add: conflicts_def path_contains_def) code_simp

text \<open>A path under the person's home is leased as one of the repository.\<close>

lemma home_path_is_leased_inside:
  "lease_path_for (Some ''~/notes/x'') ''/w/repo'' ''/w/repo'' = Some ''~/notes/x''"
  by code_simp

text \<open>A clone behind a flag of git, which the verb table reads as a clone, is placed nowhere.\<close>

lemma clone_behind_a_flag_is_unplaced:
  "clone_target_of [''git'', ''-C'', ''/tmp'', ''clone'', ''https://x.example/a/b.git''] ''/w'' = None \<and>
   clone_target_of [''git'', ''clone'', ''https://x.example/a/b.git''] ''/w'' =
     Some \<lparr>ct_url = ''https://x.example/a/b.git'', ct_directory = ''/w/b''\<rparr>"
  by code_simp

end
