(* ===== verification/ShellSeam.thy ===== *)
theory ShellSeam
  imports ResolveLine HookVerdicts HoldService LeaseGate SharedWrites
begin

text \<open>
  One shell line, ruled on before anything runs: \<open>packages/interceptors/src/shell-seam.ts\<close>. Every action
  the line resolves to and every target of it is put to the authorizer, the worst verdict decides, a
  question is put to a person, and what may run first takes the paths it writes. What the person says,
  the clock and the stop of protection as each request is asked are arguments; the leases, the record of
  clashes and the probation register are the state. \<open>None\<close> is a wait for a path that never ends.
\<close>

section \<open>Rulings\<close>

definition SHELL_ACTION :: string where "SHELL_ACTION = ''shell.execute''"

record seam_leases =
  sl_gate :: lease_gate_deps
  sl_root :: string
  sl_holder :: lease_holder
  sl_is_directory :: "string \<Rightarrow> bool"

record shell_seam =
  se_authorizer :: hook_authorizer
  se_session :: "string option"
  se_agent :: "string option"
  se_cwd :: "string option"
  se_process_cwd :: string
  se_env :: process_env
  se_io :: command_io
  se_base64 :: "string \<Rightarrow> string"
  se_digest :: "string \<Rightarrow> string"
  se_person :: "(hold_request \<Rightarrow> hold_result) option"
  se_leases :: "seam_leases option"
  se_at_home :: bool

record seam_ruling =
  sg_verdict :: hook_verdict
  sg_action :: string
  sg_target :: "string option"
  sg_class :: string

fun severity :: "decision_effect \<Rightarrow> nat" where
  "severity ALLOW = 0"
| "severity ASK = 1"
| "severity DENY = 2"

definition worse :: "seam_ruling \<Rightarrow> seam_ruling \<Rightarrow> seam_ruling" where
  "worse current next_one =
     (if severity (hv_effect (sg_verdict next_one)) > severity (hv_effect (sg_verdict current)) then next_one else current)"

definition shell_line_of :: "string list \<Rightarrow> string" where
  "shell_line_of command = (case command of [line] \<Rightarrow> line | _ \<Rightarrow> quote_shell_words command)"

definition seam_request :: "shell_seam \<Rightarrow> string \<Rightarrow> string \<Rightarrow> resolved_action option \<Rightarrow> action_request" where
  "seam_request seam action target resolved =
     (bare_request action)
       \<lparr>rq_target := Some target, rq_tool_class := map_option ra_class resolved,
        rq_environment := (case resolved of None \<Rightarrow> None | Some r \<Rightarrow> ra_environment r),
        rq_content := (case resolved of None \<Rightarrow> None | Some r \<Rightarrow> ra_content r),
        rq_arguments := Some ((''command'', target) #
          (case resolved of None \<Rightarrow> [] | Some r \<Rightarrow> (case ra_method r of None \<Rightarrow> [] | Some m \<Rightarrow> [(HTTP_METHOD_ARGUMENT, m)]))),
        rq_session_id := se_session seam, rq_working_directory := se_cwd seam\<rparr>"

text \<open>The actions of a line that are asked about, each with a target.\<close>

definition asked_of :: "shell_seam \<Rightarrow> string \<Rightarrow> (resolved_action \<times> string) list" where
  "asked_of seam line =
     concat (map (\<lambda>r. if ra_action r = SHELL_ACTION then []
         else map (\<lambda>t. (r, or_else t line)) (targets_ruled_on r (Some line)))
       (rl_actions (resolve_shell_line (se_base64 seam) (se_io seam) line (se_env seam))))"

type_synonym asks = "nat \<Rightarrow> bool \<times> time"

definition authorized :: "shell_seam \<Rightarrow> asks \<Rightarrow> nat \<Rightarrow> action_request \<Rightarrow> hook_verdict" where
  "authorized seam asks i request = hook_authorize (se_authorizer seam) (fst (asks i)) (snd (asks i)) request"

definition line_ruling :: "shell_seam \<Rightarrow> asks \<Rightarrow> string \<Rightarrow> seam_ruling" where
  "line_ruling seam asks line =
     \<lparr>sg_verdict = authorized seam asks 0 (seam_request seam SHELL_ACTION line None), sg_action = SHELL_ACTION,
      sg_target = None, sg_class = TC_UNKNOWN\<rparr>"

definition action_ruling :: "shell_seam \<Rightarrow> asks \<Rightarrow> nat \<Rightarrow> resolved_action \<Rightarrow> string \<Rightarrow> seam_ruling" where
  "action_ruling seam asks i r target =
     (let v = authorized seam asks i (seam_request seam (ra_action r) target (Some r))
      in \<lparr>sg_verdict = v\<lparr>hv_alternative := alternative_for (hv_alternative v) (ra_alternative r) (ra_action r),
            hv_environment := (if ra_environment r = None then hv_environment v else ra_environment r)\<rparr>,
          sg_action = ra_action r, sg_target = Some target, sg_class = ra_class r\<rparr>)"

definition rulings_of :: "shell_seam \<Rightarrow> asks \<Rightarrow> string \<Rightarrow> seam_ruling list" where
  "rulings_of seam asks line =
     line_ruling seam asks line #
     map (\<lambda>(i, r, t). action_ruling seam asks i r t) (enumerate 1 (asked_of seam line))"

definition seam_rule :: "shell_seam \<Rightarrow> asks \<Rightarrow> string \<Rightarrow> seam_ruling" where
  "seam_rule seam asks line = foldl worse (hd (rulings_of seam asks line)) (tl (rulings_of seam asks line))"

section \<open>Outcomes\<close>

record shell_decision =
  sd_action :: string
  sd_target :: "string option"
  sd_class :: string
  sd_effect :: decision_effect
  sd_reason :: string
  sd_rule :: "string option"
  sd_asked :: bool
  sd_alternative :: "alternative option"
  sd_environment :: "string option"
  sd_out_of_scope :: bool

record shell_outcome =
  so_run :: "string list option"
  so_message :: "string option"
  so_exit_code :: int
  so_decision :: shell_decision

definition SHELL_EXIT_OK :: int where "SHELL_EXIT_OK = 0"
definition SHELL_EXIT_WITHHELD :: int where "SHELL_EXIT_WITHHELD = 77"
definition NO_COMMAND :: string where "NO_COMMAND = ''no command to run''"

definition decision_of :: "seam_ruling \<Rightarrow> bool \<Rightarrow> shell_decision" where
  "decision_of ruling asked =
     (let v = sg_verdict ruling
      in \<lparr>sd_action = sg_action ruling, sd_target = sg_target ruling, sd_class = sg_class ruling,
          sd_effect = hv_effect v, sd_reason = hv_reason v, sd_rule = hv_rule v, sd_asked = asked,
          sd_alternative = hv_alternative v, sd_environment = hv_environment v, sd_out_of_scope = hv_out_of_scope v\<rparr>)"

definition withheld :: "string \<Rightarrow> shell_decision \<Rightarrow> shell_outcome" where
  "withheld message decision =
     \<lparr>so_run = None, so_message = Some message, so_exit_code = SHELL_EXIT_WITHHELD, so_decision = decision\<rparr>"

definition nothing_to_run :: shell_outcome where
  "nothing_to_run =
     withheld NO_COMMAND
       \<lparr>sd_action = SHELL_ACTION, sd_target = None, sd_class = TC_UNKNOWN, sd_effect = DENY, sd_reason = NO_COMMAND,
        sd_rule = None, sd_asked = False, sd_alternative = None, sd_environment = None, sd_out_of_scope = False\<rparr>"

section \<open>Taking the paths a line writes\<close>

record seam_world =
  sw_leases :: lease_world
  sw_clashes :: "clash record_dir"
  sw_probation :: "probation_entry list"
  sw_learned :: nat

text \<open>Every path the line writes, as the scope to lease and what for.\<close>

definition claims_of :: "shell_seam \<Rightarrow> seam_leases \<Rightarrow> string \<Rightarrow> (string \<times> string) list" where
  "claims_of seam leases line =
     (let cwd = or_else (se_cwd seam) (sl_root leases)
      in concat (map (\<lambda>r. if \<not> takes_lease (ra_class r) then []
           else concat (map (\<lambda>target.
             case lease_path_for target (sl_root leases) cwd of
               None \<Rightarrow> []
             | Some path \<Rightarrow> [(lease_scope_for path (sl_is_directory leases), trim (ra_action r @ '' '' @ or_else target []))])
             (targets_ruled_on r None)))
         (rl_actions (resolve_shell_line (se_base64 seam) (se_io seam) line (se_env seam)))))"

definition note_clash :: "shell_seam \<Rightarrow> seam_leases \<Rightarrow> string \<Rightarrow> string \<Rightarrow> seam_world \<Rightarrow> seam_world" where
  "note_clash seam leases what said w =
     (if se_at_home seam
      then w\<lparr>sw_clashes := clash_note (se_digest seam)
        \<lparr>ch_id = [], ch_at = iso_text (lw_now (sw_leases w)), ch_session = lh_session_id (sl_holder leases),
         ch_agent = lh_agent (sl_holder leases), ch_what = what, ch_said = said\<rparr> (sw_clashes w)\<rparr>
      else w)"

fun claim_all ::
  "shell_seam \<Rightarrow> seam_leases \<Rightarrow> string list \<Rightarrow> (string \<times> string) list \<Rightarrow> seam_world \<Rightarrow> (string option \<times> seam_world) option" where
  "claim_all seam leases taken_now [] w = Some (None, w)"
| "claim_all seam leases taken_now ((scope, intent) # still) w =
     (if scope \<in> set taken_now then claim_all seam leases taken_now still w
      else (case LeaseGate.claim (sl_gate leases) scope (sl_holder leases) intent None (sw_leases w) of
              None \<Rightarrow> None
            | Some (verdict, lw) \<Rightarrow>
                (let w1 = w\<lparr>sw_leases := lw\<rparr>
                 in if proceeds verdict then claim_all seam leases (scope # taken_now) still w1
                    else (let message = or_else (lv_message verdict) (scope @ '' is held by another agent.'')
                          in Some (Some message, note_clash seam leases scope (or_else (lv_asked verdict) message) w1)))))"

definition seam_claim :: "shell_seam \<Rightarrow> string \<Rightarrow> seam_world \<Rightarrow> (string option \<times> seam_world) option" where
  "seam_claim seam line w =
     (case se_leases seam of
        None \<Rightarrow> Some (None, w)
      | Some leases \<Rightarrow> claim_all seam leases [] (claims_of seam leases line) w)"

definition note_clones :: "shell_seam \<Rightarrow> time \<Rightarrow> string \<Rightarrow> seam_world \<Rightarrow> seam_world" where
  "note_clones seam now line w =
     (if \<not> se_at_home seam then w
      else (let cwd = or_else (se_cwd seam) (se_process_cwd seam)
            in foldl (\<lambda>w command.
                 case clone_target_of (pc_argv command) cwd of
                   None \<Rightarrow> w
                 | Some target \<Rightarrow>
                     w\<lparr>sw_probation := snd (probation_start (sw_probation w) PROBATION_REPOSITORY (ct_directory target)
                         (Some (ct_url target)) now PROBATION_DAYS)\<rparr>)
               w (nc_parsed (normalize_shell_command (se_base64 seam) line))))"

definition proceed ::
  "shell_seam \<Rightarrow> time \<Rightarrow> string list \<Rightarrow> string \<Rightarrow> shell_decision \<Rightarrow> seam_world \<Rightarrow> (shell_outcome \<times> seam_world) option" where
  "proceed seam now command line decision w =
     (case seam_claim seam line w of
        None \<Rightarrow> None
      | Some (None, w1) \<Rightarrow>
          Some (\<lparr>so_run = Some command, so_message = None, so_exit_code = SHELL_EXIT_OK, so_decision = decision\<rparr>,
            note_clones seam now line w1)
      | Some (Some message, w1) \<Rightarrow>
          Some (withheld message (decision\<lparr>sd_effect := DENY, sd_reason := message\<rparr>), w1))"

section \<open>Asking a person\<close>

definition SEAM_AGENT :: string where "SEAM_AGENT = ''an agent''"
definition SEAM_SESSION :: string where "SEAM_SESSION = ''ses_local''"

definition seam_hold_request :: "shell_seam \<Rightarrow> string \<Rightarrow> seam_ruling \<Rightarrow> hold_request" where
  "seam_hold_request seam line ruling =
     \<lparr>hr_session = or_else (se_session seam) SEAM_SESSION, hr_agent = or_else (se_agent seam) SEAM_AGENT,
      hr_operation = sg_action ruling, hr_target = None, hr_fingerprint = se_digest seam line,
      hr_reason = hv_reason (sg_verdict ruling), hr_evidence = [], hr_command = Some line,
      hr_class = Some (sg_class ruling), hr_grant_key = None, hr_approval_id = None,
      hr_rule = hv_rule (sg_verdict ruling), hr_within_session = False\<rparr>"

text \<open>\<open>None\<close> is a yes.\<close>

definition ask_about :: "shell_seam \<Rightarrow> string \<Rightarrow> seam_ruling \<Rightarrow> shell_outcome option" where
  "ask_about seam line ruling =
     (case se_person seam of
        None \<Rightarrow>
          Some (withheld (describe_verdict (sg_verdict ruling) @ [CHR 0x0A] @
              ''Nobody could be asked, so it was withheld. Run the agent under '' @ [DQUOTE] @ ''memnox run'' @ [DQUOTE] @ ''.'')
            (decision_of ruling False))
      | Some person \<Rightarrow>
          (let request = seam_hold_request seam line ruling; result = person request
           in if hold_allowed result then None
              else (let what = describe_hold result request
                    in Some (withheld
                        (case hv_alternative (sg_verdict ruling) of
                           None \<Rightarrow> what | Some alternative \<Rightarrow> what @ '' '' @ describe_alternative alternative)
                        ((decision_of ruling True)\<lparr>sd_effect := DENY, sd_reason := what\<rparr>)))))"

section \<open>The seam\<close>

definition seam_gate ::
  "shell_seam \<Rightarrow> asks \<Rightarrow> time \<Rightarrow> string list \<Rightarrow> seam_world \<Rightarrow> (shell_outcome \<times> seam_world) option" where
  "seam_gate seam asks now command w =
     (if command = [] then Some (nothing_to_run, w)
      else (let line = shell_line_of command; ruling = seam_rule seam asks line; v = sg_verdict ruling
            in case hv_effect v of
                 ALLOW \<Rightarrow> proceed seam now command line (decision_of ruling False) w
               | DENY \<Rightarrow> Some (withheld (describe_verdict v) (decision_of ruling False), w)
               | ASK \<Rightarrow>
                   (case ask_about seam line ruling of
                      Some answered \<Rightarrow> Some (answered, w)
                    | None \<Rightarrow>
                        proceed seam now command line
                          (decision_of (ruling\<lparr>sg_verdict := v\<lparr>hv_effect := ALLOW\<rparr>\<rparr>) True)
                          (w\<lparr>sw_learned := Suc (sw_learned w)\<rparr>))))"

end
