(* ===== verification/HookPayload.thy ===== *)
theory HookPayload
  imports JsonText
begin

text \<open>
  A coding agent's hook payload, read by exact field (\<open>packages/interceptors/src/hook-payload.ts\<close>), and
  the patches of Codex and Hermes as the files they write (\<open>codex-patch.ts\<close>). The reader of a patch is
  a state that each line moves on; the theorems say that every file a patch names is among the files
  it is read as, and that a patch written out is read back.
\<close>

section \<open>Fields\<close>

type_synonym hook_fields = "(string \<times> json) list"

text \<open>A list is an object too; none of the fields read is one of its own.\<close>

definition fields_of :: "json \<Rightarrow> hook_fields option" where
  "fields_of v = (case v of JObj fs \<Rightarrow> Some fs | JArr _ \<Rightarrow> Some [] | _ \<Rightarrow> None)"

definition text_in :: "hook_fields \<Rightarrow> string \<Rightarrow> string option" where
  "text_in fs key = (case map_of fs key of Some (JStr s) \<Rightarrow> Some s | _ \<Rightarrow> None)"

fun first_text :: "hook_fields \<Rightarrow> string list \<Rightarrow> string option" where
  "first_text fs [] = None"
| "first_text fs (key # ks) =
     (case text_in fs key of Some (c # s) \<Rightarrow> Some (c # s) | _ \<Rightarrow> first_text fs ks)"

definition SESSION_KEYS :: "string list" where "SESSION_KEYS = [''session_id'', ''conversation_id'']"

fun session_in :: "hook_fields \<Rightarrow> string list \<Rightarrow> string" where
  "session_in fs [] = []"
| "session_in fs (key # ks) =
     (case text_in fs key of Some s \<Rightarrow> if trim s \<noteq> [] then s else session_in fs ks | None \<Rightarrow> session_in fs ks)"

definition session_of :: "hook_fields \<Rightarrow> string" where
  "session_of fs = session_in fs SESSION_KEYS"

record delegation =
  dg_subagent :: string
  dg_type :: "string option"

definition delegation_of :: "hook_fields \<Rightarrow> delegation option" where
  "delegation_of fs =
     (case first_text fs [''agent_id''] of
        None \<Rightarrow> None
      | Some subagent \<Rightarrow> Some \<lparr>dg_subagent = subagent, dg_type = first_text fs [''agent_type'']\<rparr>)"

definition cwd_of :: "hook_fields \<Rightarrow> string option" where
  "cwd_of fs =
     (case text_in fs ''cwd'' of
        Some (c # s) \<Rightarrow> Some (c # s)
      | _ \<Rightarrow>
          (case map_of fs ''workspace_roots'' of
             Some (JArr (JStr (c # s) # roots)) \<Rightarrow> Some (c # s)
           | _ \<Rightarrow> None))"

definition folder_of :: "string \<Rightarrow> string option" where
  "folder_of path =
     (let folder = rev (drop 1 (dropWhile (\<lambda>c. c \<noteq> CHR ''/'') (rev path)))
      in if folder = [] then None else Some folder)"

section \<open>What an edit changes\<close>

record edit_replacement =
  er_from :: string
  er_to :: string
  er_all :: bool

datatype edit_change = CHANGE_EDIT "edit_replacement list" | CHANGE_WRITE string

record edit_intent =
  ei_path :: string
  ei_session :: string
  ei_cwd :: "string option"
  ei_change :: "edit_change option"

definition CODEX_PATCH_TOOL :: string where "CODEX_PATCH_TOOL = ''apply_patch''"
definition MOST_CHECKED_LINES :: nat where "MOST_CHECKED_LINES = 5000"
definition MOST_CHECKED_LINE_LENGTH :: nat where "MOST_CHECKED_LINE_LENGTH = 2000"

definition replacement_of :: "hook_fields \<Rightarrow> edit_replacement option" where
  "replacement_of fs =
     (case (text_in fs ''old_string'', text_in fs ''new_string'') of
        (Some (c # old), Some new) \<Rightarrow>
          Some \<lparr>er_from = c # old, er_to = new, er_all = (map_of fs ''replace_all'' = Some (JBool True))\<rparr>
      | _ \<Rightarrow> None)"

fun every_some :: "'a option list \<Rightarrow> 'a list option" where
  "every_some [] = Some []"
| "every_some (x # xs) =
     (case x of None \<Rightarrow> None | Some a \<Rightarrow> map_option (\<lambda>rest. a # rest) (every_some xs))"

definition replacements_in :: "hook_fields \<Rightarrow> edit_replacement list option" where
  "replacements_in fs =
     (case replacement_of fs of
        Some single \<Rightarrow> Some [single]
      | None \<Rightarrow>
          (case map_of fs ''edits'' of
             Some (JArr (e # es)) \<Rightarrow>
               every_some (map (\<lambda>each. case fields_of each of None \<Rightarrow> None | Some edit \<Rightarrow> replacement_of edit) (e # es))
           | _ \<Rightarrow> None))"

fun change_in :: "hook_fields \<Rightarrow> string list \<Rightarrow> edit_change option" where
  "change_in fs [] = map_option CHANGE_EDIT (replacements_in fs)"
| "change_in fs (key # ks) =
     (case text_in fs key of Some content \<Rightarrow> Some (CHANGE_WRITE content) | None \<Rightarrow> change_in fs ks)"

definition added_lines :: "edit_change option \<Rightarrow> string list option" where
  "added_lines change =
     (case change of
        None \<Rightarrow> None
      | Some c \<Rightarrow>
          (let texts = (case c of CHANGE_WRITE content \<Rightarrow> [content] | CHANGE_EDIT rs \<Rightarrow> map er_to rs)
           in Some (map (take MOST_CHECKED_LINE_LENGTH) (take MOST_CHECKED_LINES
                (filter (\<lambda>line. trim line \<noteq> []) (concat (map (split_on (CHR 0x0A)) texts)))))))"

section \<open>Lines of a patch\<close>

definition PATCH_UPDATE :: string where "PATCH_UPDATE = ''*** Update File: ''"
definition PATCH_ADD :: string where "PATCH_ADD = ''*** Add File: ''"
definition PATCH_DELETE :: string where "PATCH_DELETE = ''*** Delete File: ''"
definition PATCH_MOVE :: string where "PATCH_MOVE = ''*** Move to: ''"
definition PATCH_END_OF_FILE :: string where "PATCH_END_OF_FILE = ''*** End of File''"

datatype patch_line =
    PL_UPDATE string | PL_ADD string | PL_DELETE string | PL_MOVE string | PL_HUNK | PL_MARKER
  | PL_CONTEXT string | PL_REMOVED string | PL_ADDED string | PL_IGNORED

definition classify_patch_line :: "string \<Rightarrow> patch_line" where
  "classify_patch_line line =
     (if starts_with PATCH_UPDATE line then PL_UPDATE (trim (drop (length PATCH_UPDATE) line))
      else if starts_with PATCH_ADD line then PL_ADD (trim (drop (length PATCH_ADD) line))
      else if starts_with PATCH_DELETE line then PL_DELETE (trim (drop (length PATCH_DELETE) line))
      else if starts_with PATCH_MOVE line then PL_MOVE (trim (drop (length PATCH_MOVE) line))
      else if line = PATCH_END_OF_FILE then PL_IGNORED
      else if starts_with ''@@'' line then PL_HUNK
      else if starts_with ''***'' line then PL_MARKER
      else if starts_with ''-'' line then PL_REMOVED (drop 1 line)
      else if starts_with ''+'' line then PL_ADDED (drop 1 line)
      else if starts_with '' '' line then PL_CONTEXT (drop 1 line)
      else PL_IGNORED)"

section \<open>The reader of a patch\<close>

record patched_file =
  pf_path :: string
  pf_change :: "edit_change option"

record patch_reader =
  pr_files :: "patched_file list"
  pr_path :: "string option"
  pr_created :: "string list option"
  pr_hunks :: "edit_replacement list"
  pr_whole :: bool
  pr_moved_to :: "string option"
  pr_removed :: "string list"
  pr_added :: "string list"

definition new_reader :: patch_reader where
  "new_reader =
     \<lparr>pr_files = [], pr_path = None, pr_created = None, pr_hunks = [], pr_whole = False, pr_moved_to = None,
      pr_removed = [], pr_added = []\<rparr>"

definition whole_file :: "string \<Rightarrow> patched_file" where
  "whole_file path = \<lparr>pf_path = path, pf_change = None\<rparr>"

definition end_hunk :: "patch_reader \<Rightarrow> patch_reader" where
  "end_hunk r =
     (if pr_path r = None \<or> pr_created r \<noteq> None then r
      else (if pr_removed r = [] \<and> pr_added r = [] then r
            else if pr_removed r = [] then r\<lparr>pr_whole := True\<rparr>
            else r\<lparr>pr_hunks := pr_hunks r @
              [\<lparr>er_from = join_with [CHR 0x0A] (pr_removed r), er_to = join_with [CHR 0x0A] (pr_added r),
                er_all = False\<rparr>]\<rparr>)
           \<lparr>pr_removed := [], pr_added := []\<rparr>)"

definition file_so_far :: "patch_reader \<Rightarrow> string \<Rightarrow> patched_file" where
  "file_so_far r path =
     (case pr_created r of
        Some ls \<Rightarrow> \<lparr>pf_path = path, pf_change = Some (CHANGE_WRITE (join_with [CHR 0x0A] ls @ [CHR 0x0A]))\<rparr>
      | None \<Rightarrow>
          if pr_whole r \<or> pr_hunks r = [] then whole_file path
          else \<lparr>pf_path = path, pf_change = Some (CHANGE_EDIT (pr_hunks r))\<rparr>)"

definition end_file :: "patch_reader \<Rightarrow> patch_reader" where
  "end_file r0 =
     (let r = end_hunk r0
      in case pr_path r of
           None \<Rightarrow> r
         | Some path \<Rightarrow>
             r\<lparr>pr_files := pr_files r @
                 (case pr_moved_to r of None \<Rightarrow> [file_so_far r path] | Some moved \<Rightarrow> [whole_file path, whole_file moved]),
               pr_path := None, pr_moved_to := None\<rparr>)"

definition start_file :: "patch_reader \<Rightarrow> string \<Rightarrow> string list option \<Rightarrow> patch_reader" where
  "start_file r path created =
     (end_file r)\<lparr>pr_path := Some path, pr_created := created, pr_hunks := [], pr_whole := False, pr_moved_to := None\<rparr>"

definition read_content :: "patch_reader \<Rightarrow> patch_line \<Rightarrow> patch_reader" where
  "read_content r line =
     (if pr_path r = None then r
      else (case pr_created r of
              Some ls \<Rightarrow> (case line of PL_ADDED s \<Rightarrow> r\<lparr>pr_created := Some (ls @ [s])\<rparr> | _ \<Rightarrow> r)
            | None \<Rightarrow>
                (case line of
                   PL_REMOVED s \<Rightarrow> r\<lparr>pr_removed := pr_removed r @ [s]\<rparr>
                 | PL_ADDED s \<Rightarrow> r\<lparr>pr_added := pr_added r @ [s]\<rparr>
                 | PL_CONTEXT s \<Rightarrow> r\<lparr>pr_removed := pr_removed r @ [s], pr_added := pr_added r @ [s]\<rparr>
                 | _ \<Rightarrow> r)))"

definition read_line :: "patch_reader \<Rightarrow> string \<Rightarrow> patch_reader" where
  "read_line r line =
     (case classify_patch_line line of
        PL_UPDATE path \<Rightarrow> start_file r path None
      | PL_ADD path \<Rightarrow> start_file r path (Some [])
      | PL_DELETE path \<Rightarrow> (let e = end_file r in e\<lparr>pr_files := pr_files e @ [whole_file path]\<rparr>)
      | PL_MOVE path \<Rightarrow> if pr_path r \<noteq> None then r\<lparr>pr_moved_to := Some path\<rparr> else r
      | PL_HUNK \<Rightarrow> end_hunk r
      | PL_MARKER \<Rightarrow> end_file r
      | content \<Rightarrow> read_content r content)"

definition reader_done :: "patch_reader \<Rightarrow> patched_file list" where
  "reader_done r = filter (\<lambda>f. pf_path f \<noteq> []) (pr_files (end_file r))"

definition parse_patch :: "string \<Rightarrow> patched_file list" where
  "parse_patch patch = reader_done (foldl read_line new_reader (split_on (CHR 0x0A) patch))"

definition patch_edits_of :: "hook_fields \<Rightarrow> edit_intent list option" where
  "patch_edits_of hook =
     (let session = session_of hook
      in case (case map_of hook ''tool_input'' of None \<Rightarrow> None
               | Some input \<Rightarrow> (case fields_of input of None \<Rightarrow> None | Some fs \<Rightarrow> text_in fs ''command'')) of
           None \<Rightarrow> None
         | Some patch \<Rightarrow>
             (let found = parse_patch patch
              in if session = [] \<or> found = [] then None
                 else Some (map (\<lambda>f. \<lparr>ei_path = pf_path f, ei_session = session, ei_cwd = cwd_of hook,
                   ei_change = pf_change f\<rparr>) found)))"

section \<open>No file of a patch is missed\<close>

text \<open>The files that stand read, and the one in progress.\<close>

definition named_files :: "patch_reader \<Rightarrow> string set" where
  "named_files r = pf_path ` set (pr_files r) \<union> set_option (pr_path r)"

lemma end_hunk_same [simp]:
  "pr_files (end_hunk r) = pr_files r" "pr_path (end_hunk r) = pr_path r" "pr_moved_to (end_hunk r) = pr_moved_to r"
  "pr_created (end_hunk r) = pr_created r"
  by (simp_all add: end_hunk_def)

lemma file_so_far_path [simp]: "pf_path (file_so_far r path) = path" "pf_path (whole_file path) = path"
  by (simp_all add: file_so_far_def whole_file_def split: option.split)

lemma end_file_path [simp]: "pr_path (end_file r) = None"
  by (simp add: end_file_def Let_def split: option.split)

lemma end_file_named: "named_files r \<subseteq> named_files (end_file r)"
  by (auto simp: named_files_def end_file_def Let_def split: option.split)

lemma start_file_named: "named_files r \<union> {path} \<subseteq> named_files (start_file r path created)"
  using end_file_named [of r] by (auto simp: start_file_def named_files_def)

lemma read_content_named: "named_files (read_content r line) = named_files r"
  by (auto simp: read_content_def named_files_def split: option.split patch_line.split)

lemma read_line_named: "named_files r \<subseteq> named_files (read_line r line)"
proof (cases "classify_patch_line line")
  case (PL_DELETE path)
  with end_file_named [of r] show ?thesis by (auto simp: read_line_def named_files_def Let_def)
qed (use start_file_named end_file_named read_content_named in \<open>auto simp: read_line_def named_files_def\<close>)

definition header_path :: "string \<Rightarrow> string option" where
  "header_path line =
     (case classify_patch_line line of PL_UPDATE path \<Rightarrow> Some path | PL_ADD path \<Rightarrow> Some path | PL_DELETE path \<Rightarrow> Some path
      | _ \<Rightarrow> None)"

lemma read_line_header: "header_path line = Some path \<Longrightarrow> path \<in> named_files (read_line r line)"
  using start_file_named [of r path]
  by (auto simp: header_path_def read_line_def named_files_def Let_def split: patch_line.splits)

lemma read_lines_named: "named_files r \<subseteq> named_files (foldl read_line r ls)"
proof (induction ls arbitrary: r)
  case (Cons l ls)
  from read_line_named [of r l] Cons.IH [of "read_line r l"] show ?case by auto
qed simp

lemma read_lines_header:
  "line \<in> set ls \<Longrightarrow> header_path line = Some path \<Longrightarrow> path \<in> named_files (foldl read_line r ls)"
proof (induction ls arbitrary: r)
  case (Cons l ls)
  show ?case
  proof (cases "line = l")
    case True
    with Cons.prems read_line_header [of l path r] read_lines_named [of "read_line r l" ls] show ?thesis by auto
  next
    case False
    with Cons show ?thesis by simp
  qed
qed simp

lemma parse_patch_names:
  assumes "line \<in> set (split_on (CHR 0x0A) patch)" "header_path line = Some path" "path \<noteq> []"
  shows "path \<in> pf_path ` set (parse_patch patch)"
proof -
  let ?r = "foldl read_line new_reader (split_on (CHR 0x0A) patch)"
  have "path \<in> named_files ?r" by (rule read_lines_header [OF assms(1,2)])
  then have "path \<in> named_files (end_file ?r)" using end_file_named [of ?r] by blast
  then have "path \<in> pf_path ` set (pr_files (end_file ?r))" by (simp add: named_files_def)
  with assms(3) show ?thesis by (auto simp: parse_patch_def reader_done_def)
qed

section \<open>A patch written out\<close>

datatype hunk_line = HL_KEEP string | HL_DROP string | HL_PUT string

datatype patch_part =
    PART_ADD string "string list"
  | PART_DELETE string
  | PART_UPDATE string "hunk_line list list"

fun hunk_text :: "hunk_line \<Rightarrow> string" where
  "hunk_text (HL_KEEP s) = CHR '' '' # s"
| "hunk_text (HL_DROP s) = CHR ''-'' # s"
| "hunk_text (HL_PUT s) = CHR ''+'' # s"

fun part_lines :: "patch_part \<Rightarrow> string list" where
  "part_lines (PART_ADD path ls) = (PATCH_ADD @ path) # map (\<lambda>l. CHR ''+'' # l) ls"
| "part_lines (PART_DELETE path) = [PATCH_DELETE @ path]"
| "part_lines (PART_UPDATE path hs) = (PATCH_UPDATE @ path) # concat (map (\<lambda>h. ''@@'' # map hunk_text h) hs)"

definition patch_text :: "patch_part list \<Rightarrow> string" where
  "patch_text parts =
     join_with [CHR 0x0A] ([''*** Begin Patch''] @ concat (map part_lines parts) @ [''*** End Patch''])"

definition hunk_from :: "hunk_line list \<Rightarrow> string list" where
  "hunk_from h = concat (map (\<lambda>l. case l of HL_KEEP s \<Rightarrow> [s] | HL_DROP s \<Rightarrow> [s] | HL_PUT s \<Rightarrow> []) h)"

definition hunk_to :: "hunk_line list \<Rightarrow> string list" where
  "hunk_to h = concat (map (\<lambda>l. case l of HL_KEEP s \<Rightarrow> [s] | HL_DROP s \<Rightarrow> [] | HL_PUT s \<Rightarrow> [s]) h)"

definition hunk_replacement :: "hunk_line list \<Rightarrow> edit_replacement" where
  "hunk_replacement h =
     \<lparr>er_from = join_with [CHR 0x0A] (hunk_from h), er_to = join_with [CHR 0x0A] (hunk_to h), er_all = False\<rparr>"

fun part_file :: "patch_part \<Rightarrow> patched_file" where
  "part_file (PART_ADD path ls) =
     \<lparr>pf_path = path, pf_change = Some (CHANGE_WRITE (join_with [CHR 0x0A] ls @ [CHR 0x0A]))\<rparr>"
| "part_file (PART_DELETE path) = whole_file path"
| "part_file (PART_UPDATE path hs) =
     (if list_ex (\<lambda>h. hunk_from h = []) hs \<or> hs = [] then whole_file path
      else \<lparr>pf_path = path, pf_change = Some (CHANGE_EDIT (map hunk_replacement hs))\<rparr>)"

fun one_line :: "hunk_line \<Rightarrow> bool" where
  "one_line (HL_KEEP s) \<longleftrightarrow> CHR 0x0A \<notin> set s"
| "one_line (HL_DROP s) \<longleftrightarrow> CHR 0x0A \<notin> set s"
| "one_line (HL_PUT s) \<longleftrightarrow> CHR 0x0A \<notin> set s"

text \<open>A part a patch can hold: a path that is its own trimmed text, lines that are lines, hunks that say something.\<close>

fun part_ok :: "patch_part \<Rightarrow> bool" where
  "part_ok (PART_ADD path ls) \<longleftrightarrow> path \<noteq> [] \<and> trim path = path \<and> CHR 0x0A \<notin> set path \<and> list_all (\<lambda>l. CHR 0x0A \<notin> set l) ls"
| "part_ok (PART_DELETE path) \<longleftrightarrow> path \<noteq> [] \<and> trim path = path \<and> CHR 0x0A \<notin> set path"
| "part_ok (PART_UPDATE path hs) \<longleftrightarrow> path \<noteq> [] \<and> trim path = path \<and> CHR 0x0A \<notin> set path \<and>
     list_all (\<lambda>h. h \<noteq> [] \<and> list_all one_line h) hs"

lemma patch_line_kinds:
  "classify_patch_line (PATCH_UPDATE @ path) = PL_UPDATE (trim path)"
  "classify_patch_line (PATCH_ADD @ path) = PL_ADD (trim path)"
  "classify_patch_line (PATCH_DELETE @ path) = PL_DELETE (trim path)"
  "classify_patch_line ''@@'' = PL_HUNK" "classify_patch_line ''*** Begin Patch'' = PL_MARKER"
  "classify_patch_line ''*** End Patch'' = PL_MARKER"
  "classify_patch_line (CHR ''+'' # s) = PL_ADDED s" "classify_patch_line (CHR ''-'' # s) = PL_REMOVED s"
  "classify_patch_line (CHR '' '' # s) = PL_CONTEXT s"
  by (simp_all add: classify_patch_line_def PATCH_UPDATE_def PATCH_ADD_def PATCH_DELETE_def PATCH_MOVE_def
      PATCH_END_OF_FILE_def starts_with_def)

lemma read_added_lines:
  "pr_path q \<noteq> None \<Longrightarrow> pr_created q = Some cs \<Longrightarrow>
     foldl read_line q (map (\<lambda>l. CHR ''+'' # l) ls) = q\<lparr>pr_created := Some (cs @ ls)\<rparr>"
proof (induction ls arbitrary: q cs)
  case (Cons l ls)
  then have "read_line q (CHR ''+'' # l) = q\<lparr>pr_created := Some (cs @ [l])\<rparr>"
    by (simp add: read_line_def read_content_def patch_line_kinds)
  with Cons.IH [of "q\<lparr>pr_created := Some (cs @ [l])\<rparr>" "cs @ [l]"] Cons.prems show ?case by simp
qed simp

lemma read_hunk_lines:
  "pr_path q \<noteq> None \<Longrightarrow> pr_created q = None \<Longrightarrow>
     foldl read_line q (map hunk_text h) =
       q\<lparr>pr_removed := pr_removed q @ hunk_from h, pr_added := pr_added q @ hunk_to h\<rparr>"
proof (induction h arbitrary: q)
  case (Cons l h)
  let ?q = "q\<lparr>pr_removed := pr_removed q @ hunk_from [l], pr_added := pr_added q @ hunk_to [l]\<rparr>"
  from Cons.prems have "read_line q (hunk_text l) = ?q"
    by (cases l) (simp_all add: read_line_def read_content_def patch_line_kinds hunk_from_def hunk_to_def)
  with Cons.IH [of ?q] Cons.prems show ?case by (simp add: hunk_from_def hunk_to_def)
qed (simp add: hunk_from_def hunk_to_def)

lemma hunk_says: "h \<noteq> [] \<Longrightarrow> hunk_from h = [] \<Longrightarrow> hunk_to h \<noteq> []"
  by (cases h) (auto simp: hunk_from_def hunk_to_def split: hunk_line.splits)

lemma read_hunks:
  "pr_path q \<noteq> None \<Longrightarrow> pr_created q = None \<Longrightarrow> list_all (\<lambda>h. h \<noteq> []) hs \<Longrightarrow>
     end_hunk (foldl read_line q (concat (map (\<lambda>h. ''@@'' # map hunk_text h) hs))) =
       (end_hunk q)\<lparr>pr_hunks := pr_hunks (end_hunk q) @ map hunk_replacement (filter (\<lambda>h. hunk_from h \<noteq> []) hs),
         pr_whole := pr_whole (end_hunk q) \<or> list_ex (\<lambda>h. hunk_from h = []) hs\<rparr>"
proof (induction hs arbitrary: q)
  case (Cons h hs)
  let ?e = "end_hunk q"
  have e: "pr_path ?e \<noteq> None" "pr_created ?e = None" "pr_removed ?e = []" "pr_added ?e = []"
    using Cons.prems by (auto simp: end_hunk_def)
  let ?q = "?e\<lparr>pr_removed := hunk_from h, pr_added := hunk_to h\<rparr>"
  have "read_line q ''@@'' = ?e" by (simp add: read_line_def patch_line_kinds)
  then have read: "foldl read_line q (''@@'' # map hunk_text h) = ?q"
    using read_hunk_lines [OF e(1,2), of h] e(3,4) by simp
  have "end_hunk ?q = (if hunk_from h = [] then ?e\<lparr>pr_whole := True\<rparr>
      else ?e\<lparr>pr_hunks := pr_hunks ?e @ [hunk_replacement h]\<rparr>)"
    using e hunk_says [of h] Cons.prems(3) by (auto simp: end_hunk_def [of ?q] hunk_replacement_def)
  moreover have "end_hunk (foldl read_line ?q (concat (map (\<lambda>h. ''@@'' # map hunk_text h) hs))) =
      (end_hunk ?q)\<lparr>pr_hunks := pr_hunks (end_hunk ?q) @ map hunk_replacement (filter (\<lambda>h. hunk_from h \<noteq> []) hs),
         pr_whole := pr_whole (end_hunk ?q) \<or> list_ex (\<lambda>h. hunk_from h = []) hs\<rparr>"
    by (rule Cons.IH) (use e Cons.prems in simp_all)
  ultimately show ?case using read by auto
qed simp

text \<open>Between two parts nothing is left over.\<close>

definition between_parts :: "patch_reader \<Rightarrow> bool" where
  "between_parts r \<longleftrightarrow> pr_removed (end_file r) = [] \<and> pr_added (end_file r) = [] \<and> pr_moved_to (end_file r) = None"

lemma started:
  assumes "between_parts r"
  shows "pr_path (start_file r path created) = Some path" "pr_created (start_file r path created) = created"
    "pr_files (start_file r path created) = pr_files (end_file r)" "pr_removed (start_file r path created) = []"
    "pr_added (start_file r path created) = []" "pr_moved_to (start_file r path created) = None"
    "pr_hunks (start_file r path created) = []" "\<not> pr_whole (start_file r path created)"
  using assms by (simp_all add: start_file_def between_parts_def)

lemma read_part:
  assumes "between_parts r" "part_ok p"
  shows "between_parts (foldl read_line r (part_lines p)) \<and>
    pr_files (end_file (foldl read_line r (part_lines p))) = pr_files (end_file r) @ [part_file p]"
proof (cases p)
  case (PART_ADD path ls)
  let ?s = "start_file r path (Some [])"
  note s = started [OF assms(1), of path "Some []"]
  from PART_ADD assms(2) have "read_line r (PATCH_ADD @ path) = ?s" by (simp add: read_line_def patch_line_kinds)
  then have "foldl read_line r (part_lines p) = ?s\<lparr>pr_created := Some ls\<rparr>"
    using read_added_lines [of ?s "[]" ls] s PART_ADD by simp
  then show ?thesis using s PART_ADD
    by (simp add: between_parts_def end_file_def end_hunk_def file_so_far_def Let_def)
next
  case (PART_DELETE path)
  with assms have "foldl read_line r (part_lines p) = (end_file r)\<lparr>pr_files := pr_files (end_file r) @ [whole_file path]\<rparr>"
    by (simp add: read_line_def patch_line_kinds Let_def)
  then show ?thesis using assms(1) PART_DELETE
    by (simp add: between_parts_def end_file_def [of "(end_file r)\<lparr>pr_files := pr_files (end_file r) @ [whole_file path]\<rparr>"]
        end_hunk_def Let_def)
next
  case (PART_UPDATE path hs)
  let ?s = "start_file r path None"
  let ?q = "foldl read_line ?s (concat (map (\<lambda>h. ''@@'' # map hunk_text h) hs))"
  note s = started [OF assms(1), of path None]
  from PART_UPDATE assms(2) have "read_line r (PATCH_UPDATE @ path) = ?s" by (simp add: read_line_def patch_line_kinds)
  then have read: "foldl read_line r (part_lines p) = ?q" using PART_UPDATE by simp
  have es: "end_hunk ?s = ?s" using s by (simp add: end_hunk_def)
  have hs: "list_all (\<lambda>h. h \<noteq> []) hs" using assms(2) PART_UPDATE by (auto simp: list_all_iff)
  have "end_hunk ?q = ?s\<lparr>pr_hunks := map hunk_replacement (filter (\<lambda>h. hunk_from h \<noteq> []) hs),
      pr_whole := list_ex (\<lambda>h. hunk_from h = []) hs\<rparr>"
    using read_hunks [OF _ _ hs, of ?s] s es by simp
  moreover have "\<not> list_ex (\<lambda>h. hunk_from h = []) hs \<Longrightarrow> filter (\<lambda>h. hunk_from h \<noteq> []) hs = hs"
    by (simp add: list_ex_iff)
  ultimately show ?thesis using s PART_UPDATE read
    by (auto simp: between_parts_def end_file_def file_so_far_def Let_def)
qed

lemma read_parts:
  "between_parts r \<Longrightarrow> list_all part_ok ps \<Longrightarrow>
     between_parts (foldl read_line r (concat (map part_lines ps))) \<and>
     pr_files (end_file (foldl read_line r (concat (map part_lines ps)))) = pr_files (end_file r) @ map part_file ps"
proof (induction ps arbitrary: r)
  case (Cons p ps)
  from Cons.prems have "between_parts r" "part_ok p" "list_all part_ok ps" by simp_all
  from read_part [OF this(1,2)] Cons.IH [OF _ this(3)] show ?case by simp
qed simp

lemma part_lines_plain:
  assumes "part_ok p" "line \<in> set (part_lines p)"
  shows "CHR 0x0A \<notin> set line"
proof -
  have hunk: "one_line l \<Longrightarrow> CHR 0x0A \<notin> set (hunk_text l)" for l by (cases l) simp_all
  have heads: "CHR 0x0A \<notin> set PATCH_ADD" "CHR 0x0A \<notin> set PATCH_DELETE" "CHR 0x0A \<notin> set PATCH_UPDATE"
    by code_simp+
  show ?thesis using assms heads by (cases p) (auto simp: list_all_iff hunk split: if_splits)
qed

lemma part_file_path: "part_ok p \<Longrightarrow> pf_path (part_file p) \<noteq> []"
  by (cases p) simp_all

lemma parse_patch_text:
  assumes "list_all part_ok parts"
  shows "parse_patch (patch_text parts) = map part_file parts"
proof -
  let ?ls = "concat (map part_lines parts)"
  have "\<forall>l \<in> set ([''*** Begin Patch''] @ ?ls @ [''*** End Patch'']). CHR 0x0A \<notin> set l"
    using assms part_lines_plain by (auto simp: list_all_iff)
  then have split: "split_on (CHR 0x0A) (patch_text parts) = [''*** Begin Patch''] @ ?ls @ [''*** End Patch'']"
    unfolding patch_text_def by (intro split_join) auto
  have begins: "read_line new_reader ''*** Begin Patch'' = new_reader"
    by (simp add: read_line_def patch_line_kinds end_file_def end_hunk_def new_reader_def)
  have "between_parts new_reader" by (simp add: between_parts_def end_file_def end_hunk_def new_reader_def)
  from read_parts [OF this assms] have
    files: "pr_files (end_file (foldl read_line new_reader ?ls)) = map part_file parts"
    by (simp add: end_file_def end_hunk_def new_reader_def)
  have twice: "pr_files (end_file (end_file r)) = pr_files (end_file r)" for r
    by (simp add: end_file_def [of "end_file r"] Let_def)
  have "pr_files (end_file (foldl read_line new_reader ([''*** Begin Patch''] @ ?ls @ [''*** End Patch'']))) = map part_file parts"
    using begins files twice by (simp add: read_line_def patch_line_kinds)
  then show ?thesis using assms part_file_path
    by (simp add: parse_patch_def reader_done_def split list_all_iff filter_id_conv)
qed

section \<open>Properties\<close>

text \<open>
  Property C35. Whatever else a patch holds, every path that an \<open>Update File\<close>, \<open>Add File\<close> or
  \<open>Delete File\<close> line of it names is the path of one of the files the patch is read as, so each is put
  to the rules and claimed. This holds of any text, broken patches included.
\<close>

theorem no_patched_file_is_missed:
  assumes "line \<in> set (split_on (CHR 0x0A) patch)" "header_path line = Some path" "path \<noteq> []"
  shows "path \<in> set (map pf_path (parse_patch patch))"
  using parse_patch_names [OF assms] by simp

definition broken_patch :: string where
  "broken_patch = join_with [CHR 0x0A]
     [''*** Add File: a.ts'', ''+one'', ''*** Update File: src/b.ts'', ''*** Move to: c.ts'', ''noise'', ''*** Delete File: d.ts'']"

lemma no_patched_file_is_missed_witness:
  "''src/b.ts'' \<in> set (map pf_path (parse_patch broken_patch)) \<and>
   map pf_path (parse_patch broken_patch) = [''a.ts'', ''src/b.ts'', ''c.ts'', ''d.ts'']"
proof
  have "''*** Update File: src/b.ts'' \<in> set (split_on (CHR 0x0A) broken_patch)" by code_simp
  moreover have "header_path ''*** Update File: src/b.ts'' = Some ''src/b.ts''" by code_simp
  ultimately show "''src/b.ts'' \<in> set (map pf_path (parse_patch broken_patch))"
    by (rule no_patched_file_is_missed) simp
  show "map pf_path (parse_patch broken_patch) = [''a.ts'', ''src/b.ts'', ''c.ts'', ''d.ts'']" by code_simp
qed

text \<open>
  Property C36. A patch written out, its files created whole, deleted, or changed hunk by hunk, is read
  back as those files and those changes: a created file as its lines, a hunk as the replacement of what
  it keeps and drops by what it keeps and puts, and a file with a hunk that removes nothing as the whole
  file, since such a hunk has no place.
\<close>

theorem patch_is_read_back:
  assumes "list_all part_ok parts"
  shows "parse_patch (patch_text parts) = map part_file parts"
  by (rule parse_patch_text [OF assms])

definition sample_parts :: "patch_part list" where
  "sample_parts =
     [PART_UPDATE ''a.ts'' [[HL_KEEP ''f()'', HL_DROP ''g()'', HL_PUT ''*** h()''], [HL_DROP ''x'']],
      PART_ADD ''b.ts'' [''+1'', ''''], PART_DELETE ''c d.ts'', PART_UPDATE ''e.ts'' [[HL_PUT ''y'']]]"

lemma patch_is_read_back_witness:
  "parse_patch (patch_text sample_parts) = map part_file sample_parts \<and>
   map pf_path (parse_patch (patch_text sample_parts)) = [''a.ts'', ''b.ts'', ''c d.ts'', ''e.ts'']"
proof
  have "list_all part_ok sample_parts" by code_simp
  then show "parse_patch (patch_text sample_parts) = map part_file sample_parts" by (rule patch_is_read_back)
  show "map pf_path (parse_patch (patch_text sample_parts)) = [''a.ts'', ''b.ts'', ''c d.ts'', ''e.ts'']" by code_simp
qed

section \<open>A patch with no session\<close>

text \<open>
  The reader of a patch answers nothing for a payload that names no session, whatever the patch holds;
  the caller that turns a tool call into the writes to rule on takes that answer for a patch of no file.
\<close>

lemma patch_without_a_session_is_unread: "session_of hook = [] \<Longrightarrow> patch_edits_of hook = None"
  by (simp add: patch_edits_of_def Let_def split: option.split)

end
