(* ===== verification/Spec2Isabelle.thy ===== *)
theory Spec2Isabelle
  imports Enforcement WorkModes SessionPauses GateGuarantees LeaseGate ShellArgv RoutedPrompt ChatReply Budgets
    Autonomy Probation LineGuarantees Unattended NativeRules PolicyValidator
    GuardGuarantees ProxyGuarantees SeamGuarantees HookPayload
begin

text \<open>
  Memnox governs what coding agents do on a machine. A hook, a shell shim or a proxy turns what an
  agent is about to do into a request: an action such as \<open>git.push\<close> or \<open>shell.hidden\<close>, a target, an
  agent and a session. The local gate answers it with allow, ask or deny, from the rules in force
  and from the guards around them. Agents that share a repository lease the paths they write.
  This development models that decision core, \<open>packages/core/src\<close>, and proves what it promises.

  The path of a decision is \<open>gate/local-gate.ts\<close>: refuse what would change the gate's own files;
  evaluate the rules for the agent and for every agent that started it and keep the stricter
  verdict; ask about code nobody can read; ask about what leaves the repository; hold an
  investigation to reading and a strained session to asking; let a standing allowance answer what
  remains a question. A denial is never answered by an allowance, and neither is a question the
  workspace's own rules ask.

  Parts, in the order the theories build on each other:

  \<^item> \<open>JsPrelude\<close>: what the sources use of JavaScript's strings and arrays, with the lemmas on them
    that the components share. Strings are lists of characters in the first 256 code points.
  \<^item> \<open>Vocabulary\<close>: decisions, action events, tasks, policies and their conditions
    (\<open>domain/\<close>, \<open>constants/\<close>, \<open>policy/policy.ts\<close>).
  \<^item> \<open>PatternMatcher\<close>: \<open>policy/pattern-matcher.ts\<close>; patterns, the expressions they compile to, and
    the bounded table of compiled ones. The two theorems: the expression accepts what the pattern
    means, and the table changes no answer.
  \<^item> \<open>TimeWindow\<close>, \<open>Clock\<close>: \<open>policy/time-window.ts\<close>, \<open>domain/time.ts\<close>, \<open>domain/duration-text.ts\<close>; instants are
    whole milliseconds, and ISO text is written from them.
  \<^item> \<open>ActionTaxonomy\<close>: classes, capabilities and risk of an action.
  \<^item> \<open>CandidateIndex\<close>, \<open>PolicyEngine\<close>, \<open>PolicyVerdict\<close>: \<open>policy/policy-engine.ts\<close>. \<open>CandidateIndex\<close> is the locale
    of a bucketed list of rules; the engine interprets it on its own buckets. \<open>PolicyVerdict\<close> proves
    the engine equal to a plain scan of all rules, and what a verdict promises: a matching deny the
    index reaches decides, the workspace's questions stand, more rules never loosen, observed rules never decide.
  \<^item> \<open>Enforcement\<close>, \<open>WorkModes\<close>: freezes, enforcement modes and relaxing allows
    (\<open>domain/enforcement.ts\<close>, \<open>policy/overlay.ts\<close>, \<open>policy/relaxing.ts\<close>), and the rules of a work mode
    (\<open>policy/modes.ts\<close>), with what an investigation or an autonomous session can never do.
  \<^item> \<open>RecordStore\<close>: a directory of JSON records (\<open>store/json-records.ts\<close>), the locale of a store and
    its interpretation on the directory; pauses and leases rest on it.
  \<^item> \<open>SessionScope\<close>, \<open>Breaker\<close>, \<open>SessionPauses\<close>: what a session declared, counted and was paused for
    (\<open>session/\<close>). A history is a list of operations; the theorems describe the state after any.
  \<^item> \<open>PosixPath\<close>, \<open>SelfProtection\<close>, \<open>Containment\<close>, \<open>Allowances\<close>: paths as \<open>node:path\<close> reads them and the
    guards of \<open>gate/\<close>. The file system is the function that says where a path really leads.
  \<^item> \<open>LocalGate\<close>, \<open>GateGuarantees\<close>: \<open>gate/local-gate.ts\<close> and the theorems on the whole gate.
  \<^item> \<open>Leases\<close>, \<open>LeaseStore\<close>, \<open>LeaseGate\<close>: \<open>coordination/lease.ts\<close>, \<open>region-overlap.ts\<close>, \<open>lease-store.ts\<close>,
    \<open>lease-gate.ts\<close>, \<open>lease-prompt.ts\<close>. The register is a step relation over its operations, the clock and the
    processes that die; no two holders ever hold one piece of code in it, as long as each lease
    knows its checkout and names lines rather than declarations, and as long as a lease is taken
    over only while it stands whole and alone: the relation takes any operation and flags the runs that are
    not so. The gate's wait is a partial function, proved to
    return within its ceiling for every behaviour of the clock and of other agents.
  \<^item> \<open>ShellWords\<close>, \<open>ShellCommands\<close>, \<open>ShellArgv\<close>: \<open>domain/shell-words.ts\<close>, \<open>shell-runners.ts\<close>,
    \<open>shell-normalizer.ts\<close>; what a shell line runs. Words written as a line and split again are the words
    they were, a command that is plain argv is read as itself, and the walk into the code of shells goes
    \<open>MAX_DEPTH\<close> levels and reports what lies below.
  \<^item> \<open>VerbTable\<close>, \<open>VerbTables\<close>, \<open>GitCommands\<close>: \<open>verbs/verb-table.ts\<close>, \<open>verbs/tables.ts\<close> and the tables under
    \<open>verbs/tables/\<close>; the tables are data, written as the records the code has, and which row names a
    command is computed from its words: aliases, flags split from their values, patterns, and the row that
    says most. \<open>GitCommands\<close> says what that means for pushes that overwrite or delete a branch.
  \<^item> \<open>Domains\<close>: \<open>policy/domains.ts\<close>; the rules a first set is made of, from a person's answers.
  \<^item> \<open>Sql\<close>, \<open>BinaryClass\<close>, \<open>CommandAction\<close>: \<open>intercept/sql.ts\<close>, \<open>binary-class.ts\<close>, \<open>writers.ts\<close>,
    \<open>command-action.ts\<close>, \<open>sql-file.ts\<close>, \<open>awk.ts\<close>, \<open>environment-reads.ts\<close>; what one command does. A script
    without quotes and comments is as bad as its worst statement, and the text of a closed string never decides.
  \<^item> \<open>ResolveLine\<close>, \<open>LineGuarantees\<close>: \<open>intercept/resolve.ts\<close>, \<open>shown-writes.ts\<close>; every action of a shell
    line, and the theorems that run from the text of a line through its words and its commands to its
    actions: nothing the line shows is left out, code nobody can read is ruled on, and a git command that
    destroys history is ruled on under a name the rule of git denies.
  \<^item> \<open>SessionGrants\<close>: \<open>gate/session-grants.ts\<close>; what a yes covers, twice: in memory and in one file per
    session. The locale of a keeper of grants is interpreted on both, and the files are proved to
    refine the memory on sessions whose ids name different files.
  \<^item> \<open>HoldService\<close>, \<open>Pending\<close>, \<open>RoutedPrompt\<close>, \<open>ChatReply\<close>: \<open>gate/hold.ts\<close>, \<open>gate/pending.ts\<close>,
    \<open>gate/routed-prompt.ts\<close>, \<open>gate/chat-approval.ts\<close>, \<open>gate/plain-ask.ts\<close>; a call held for a person. Answers from
    several processes are a relation over their single file operations, interleaved in any order with
    records rewritten and calls cleared;
    a wait is a list of events, and a call whose list meets its deadline ends.
  \<^item> \<open>Budgets\<close>, \<open>Autonomy\<close>, \<open>Probation\<close>: \<open>session/budget.ts\<close>, \<open>session/autonomy.ts\<close>,
    \<open>session/probation.ts\<close>, \<open>session/destinations.ts\<close>; caps counted over the ledger, what a person's answers
    make ready to hand over, and what is still new.

  \<^item> \<open>PolicyValidator\<close>: \<open>policy/policy-validator.ts\<close>, \<open>policy-provenance.ts\<close>, \<open>bundle-rules.ts\<close>; a rule file
    and the workspace's published rules as the rules of the engine, from JSON. What is read is well
    formed, what is well formed is read back as written, and an accepted bundle is in force.
  \<^item> \<open>NativeRules\<close>: \<open>policy/native.ts\<close>; the rules in the agents' own settings, and taking them back.
  \<^item> \<open>Unattended\<close>: \<open>session/reversibility.ts\<close>, \<open>autopilot.ts\<close>, \<open>unattended.ts\<close>, \<open>authority.ts\<close>,
    \<open>session-turns.ts\<close>, \<open>away.ts\<close>; the boundary the rules draw and whether an agent can be left running.
  \<^item> \<open>ToolCalls\<close>: \<open>discovery/surface.ts\<close>, \<open>discovery/classify.ts\<close>, \<open>intercept/tool-call.ts\<close>; the class of an
    MCP tool from its hints and its name, and of one call from the statement it carries.
  \<^item> \<open>CloudGuard\<close>, \<open>GuardCalls\<close>, \<open>GuardGuarantees\<close>: \<open>packages/guard/src\<close>; the check an agent in the cloud
    makes before each tool call. A call is one step of the guard's state, a wait for a person the list
    of what its polls bring, a run a list of calls, outcomes, resumes, fetched rules and sends. Every
    allow of a run stands on the rules or on a signed answer to that very call, a paused session stays
    stopped, a question ends at its deadline, and unsigned rules change nothing.
  \<^item> \<open>JsonText\<close>, \<open>SharedWork\<close>, \<open>McpMessages\<close>, \<open>McpProxy\<close>, \<open>ResultFraming\<close>, \<open>ProxyGuarantees\<close>: \<open>packages/proxy/src\<close>
    with \<open>coordination/action-target.ts\<close>, \<open>shared-actions.ts\<close>, \<open>notice/instruction-shapes.ts\<close>; the proxy between an
    agent and an MCP server. A session is changed by lines of the client, lines of the server and arriving
    notes, and a step that throws has no state. No call reaches the server that was not let through, every
    call is one row, a result comes back whole, and text in it that addresses the model is quoted.
  \<^item> \<open>SharedWrites\<close>, \<open>HookVerdicts\<close>, \<open>ShellSeam\<close>, \<open>SeamGuarantees\<close>: \<open>coordination/writes.ts\<close>, \<open>clashes.ts\<close>,
    \<open>intercept/clone-target.ts\<close>, \<open>domain/egress-inspector.ts\<close>, \<open>hook-authorizer.ts\<close> and \<open>shell-seam.ts\<close> of
    \<open>packages/interceptors/src\<close>; the seam that runs a shell line. It puts every action and target of the line
    to the gate, takes the worst verdict, asks a person, leases what is written and notes the clones. A line
    runs only as it was ruled and with every scope it writes in claimed; one against the gate's own files, and
    one that destroys history under the recommended rules, never runs.
  \<^item> \<open>HookPayload\<close>: \<open>hook-payload.ts\<close>, \<open>codex-patch.ts\<close>; an editor's payload by exact field and a patch as the
    files it writes. The reader is a state that each line moves; no file a patch names is missed, and a patch
    written out is read back.

  Parameters stand for what is not code of the repository or is not modelled: the text of a
  policy version, digests, the liveness of a process, redaction, the host of a target, the real path
  and the text of a file, the verification of a signature, the parsing of JSON and of a URL (\<open>io_url_host\<close>, \<open>io_url_hostname\<close>), the workspace's
  register, the person who is asked, and sleep. The gate takes the class of a verb as an argument too,
  and \<open>VerbTable\<close> computes it.
  Theorems assume nothing of them but what their statement says.

  Bounds: \<open>Math.random\<close> and the system clock appear nowhere, instants are arguments; counts and
  times are unbounded integers, since no count here comes near the range in which JavaScript's
  numbers are exact; amounts of money are rationals. The only loop that may not end is the lease
  gate's wait with a poll of nothing, and its theorem excludes that poll. The walk into a shell line
  carries the source's own bound of \<open>MAX_DEPTH\<close> levels; no fuel is added to it.

  Where the code and its own description part, the theorem says so by a run of the model:
  \<open>hidden_code_loosens_a_deny\<close>, \<open>parents_workspace_question_is_lost\<close>, \<open>exclusion_only_rule_is_unreachable\<close>,
  \<open>success_elsewhere_clears_failures\<close>, \<open>widening_is_not_recorded\<close>, \<open>take_over_of_a_dead_lease\<close>,
  \<open>took_over_past_another\<close>, \<open>waited_claim_skips_workspace\<close>, \<open>ties_go_to_the_bucket\<close>,
  \<open>cited_rule_is_first_of_its_name\<close>, \<open>dotted_name_is_outside\<close>, \<open>prefixed_shell_is_cut_short\<close>,
  \<open>clobbering_redirect_is_misread\<close>, \<open>background_command_is_unread\<close>, \<open>quoted_heredoc_hides_commands\<close>,
  \<open>redirect_substitution_is_unread\<close>, \<open>renamed_sessions_share_yeses\<close>, \<open>expired_question_is_answered\<close>,
  \<open>parking_over_an_answer_loses_it\<close>, \<open>answer_after_a_clear_is_taken\<close>, \<open>terminal_overrides_recorded_refusal\<close>,
  \<open>not_for_this_session_is_for_the_session\<close>, \<open>starred_action_is_handed_over_wide\<close>, \<open>paths_that_read_as_one\<close>,
  \<open>lost_race_loses_a_host\<close>, \<open>joined_exec_path_hides_the_verb\<close>, \<open>run_on_namespace_hides_the_verb\<close>,
  \<open>drop_in_client_is_not_asked_about\<close>, \<open>apostrophes_hide_a_drop\<close>, \<open>where_elsewhere_bounds_a_delete\<close>,
  \<open>flagged_pattern_misses_the_file\<close>, \<open>copy_into_directory_misses_its_source\<close>,
  \<open>prefix_value_hides_the_interpreter\<close>, \<open>unruled_deletes_are_left_running\<close>, \<open>refunds_run_on_their_own\<close>,
  \<open>shared_permission_is_taken_back\<close>, \<open>other_permission_settings_are_lost\<close>,
  \<open>second_write_strands_the_first\<close>, \<open>left_out_target_is_allowed\<close>, \<open>rule_of_another_agent_is_written\<close>,
  \<open>flagged_verb_is_written_as_a_subcommand\<close>, \<open>rule_on_classes_is_left_out\<close>,
  \<open>dropped_conditions_widen_an_allow\<close>, \<open>not_read_only_softens_a_delete\<close>, \<open>comment_hides_the_statement\<close>,
  \<open>second_statement_is_unread\<close>, \<open>program_named_by_its_path_is_unknown\<close>, \<open>redirects_are_not_ruled_on\<close>,
  \<open>listed_command_is_allowed\<close>, \<open>nested_arguments_are_not_digested\<close>, \<open>other_questions_are_not_asked\<close>,
  \<open>null_result_ends_the_proxy\<close>, \<open>null_params_end_the_proxy\<close>, \<open>next_page_forgets_the_last\<close>,
  \<open>structured_instruction_is_not_quoted\<close>, \<open>asked_call_is_not_claimed\<close>,
  \<open>unclaimed_return_frees_a_running_claim\<close>, \<open>dropping_query_is_a_read_to_probation\<close>,
  \<open>yes_on_probation_is_not_learned\<close>, \<open>reused_id_loses_a_row\<close>, \<open>joined_arguments_read_as_one\<close>,
  \<open>session_yes_covers_what_is_behind_it\<close>, \<open>session_yes_covers_every_target\<close>, \<open>held_line_keeps_its_leases\<close>,
  \<open>curl_header_is_not_inspected\<close>, \<open>home_path_is_leased_inside\<close>, \<open>root_file_leases_everything\<close>,
  \<open>clone_behind_a_flag_is_unplaced\<close> and \<open>patch_without_a_session_is_unread\<close>.

  Not modelled: the wording and delivery of questions; the reading and writing of policy files; discovery, the event store, notices, recovery and remembered context, which
  report and do not decide; the command line, the processes of the interceptors and the replies of each host, the processes and streams of the proxy and the editor extension, which read and write processes, files and sockets around this core.
\<close>

end
